(* ===== verification/Prelude.thy ===== *)
theory Prelude
  imports Main "HOL-Library.Sublist"
begin

text \<open>
  Shared vocabulary of the development: the JavaScript values the desktop sources
  use (strings, insertion-ordered maps, promise results), the generic lemmas about them
  and the interface of a keyed store, interpreted here on the insertion-ordered map.

  Strings are HOL strings whose characters are the code units of ASCII text; the few
  non-ASCII literals of the sources (dashes, arrows, flags) are written as their UTF-8
  bytes. Times are integers in milliseconds, the unit of \<open>Date.now()\<close>.
\<close>

named_theorems js_simps \<open>rewriting rules for the JavaScript vocabulary\<close>

type_synonym time = int

subsection \<open>Strings\<close>

definition is_ws :: "char \<Rightarrow> bool" where
  "is_ws c \<longleftrightarrow> c \<in> set [CHR '' '', CHR 0x09, CHR 0x0A, CHR 0x0B, CHR 0x0C, CHR 0x0D]"

definition js_trim :: "string \<Rightarrow> string" where
  "js_trim s = rev (dropWhile is_ws (rev (dropWhile is_ws s)))"

definition lower_char :: "char \<Rightarrow> char" where
  "lower_char c =
     (let n = (of_char c :: nat) in if 65 \<le> n \<and> n \<le> 90 then char_of (n + 32) else c)"

definition upper_char :: "char \<Rightarrow> char" where
  "upper_char c =
     (let n = (of_char c :: nat) in if 97 \<le> n \<and> n \<le> 122 then char_of (n - 32) else c)"

definition js_lower :: "string \<Rightarrow> string" where
  "js_lower = map lower_char"

definition js_upper :: "string \<Rightarrow> string" where
  "js_upper = map upper_char"

text \<open>\<open>s.includes(p)\<close>, \<open>s.startsWith(p)\<close>, \<open>s.endsWith(p)\<close>.\<close>

abbreviation js_includes :: "string \<Rightarrow> string \<Rightarrow> bool" where
  "js_includes s p \<equiv> sublist p s"

abbreviation starts_with :: "string \<Rightarrow> string \<Rightarrow> bool" where
  "starts_with s p \<equiv> prefix p s"

abbreviation ends_with :: "string \<Rightarrow> string \<Rightarrow> bool" where
  "ends_with s p \<equiv> suffix p s"

text \<open>\<open>s.split(c)\<close> for a one-character separator, and \<open>xs.join(sep)\<close>.\<close>

fun js_split :: "char \<Rightarrow> string \<Rightarrow> string list" where
  "js_split c [] = [[]]"
| "js_split c (x # xs) =
     (if x = c then [] # js_split c xs
      else (case js_split c xs of [] \<Rightarrow> [[x]] | w # ws \<Rightarrow> (x # w) # ws))"

fun js_join :: "string \<Rightarrow> string list \<Rightarrow> string" where
  "js_join sep [] = []"
| "js_join sep [x] = x"
| "js_join sep (x # y # ys) = x @ sep @ js_join sep (y # ys)"

text \<open>Decimal numerals, as \<open>String(n)\<close> prints integers.\<close>

definition digit_char :: "nat \<Rightarrow> char" where
  "digit_char d = char_of (48 + d)"

fun show_nat :: "nat \<Rightarrow> string" where
  "show_nat n = (if n < 10 then [digit_char n] else show_nat (n div 10) @ [digit_char (n mod 10)])"

declare show_nat.simps [simp del]

definition show_int :: "int \<Rightarrow> string" where
  "show_int i = (if i < 0 then CHR ''-'' # show_nat (nat (- i)) else show_nat (nat i))"

definition is_digit :: "char \<Rightarrow> bool" where
  "is_digit c \<longleftrightarrow> (let n = (of_char c :: nat) in 48 \<le> n \<and> n \<le> 57)"

definition digit_val :: "char \<Rightarrow> nat" where
  "digit_val c = of_char c - 48"

text \<open>\<open>parseInt(s, 10)\<close> on a string of digits.\<close>

definition parse_digits :: "string \<Rightarrow> nat" where
  "parse_digits s = foldl (\<lambda>acc c. 10 * acc + digit_val c) 0 s"

text \<open>Non-ASCII literals as UTF-8 bytes.\<close>

definition utf8 :: "nat list \<Rightarrow> string" where
  "utf8 bs = map char_of bs"

subsection \<open>Lemmas on strings\<close>

lemma js_trim_Nil [simp]: "js_trim [] = []"
  by (simp add: js_trim_def)

lemma length_js_lower [simp]: "length (js_lower s) = length s"
  by (simp add: js_lower_def)

lemma js_split_ne [simp]: "js_split c s \<noteq> []"
  by (induction s) (auto split: list.splits)

lemma js_join_split: "js_join [c] (js_split c s) = s"
proof (induction s)
  case (Cons x xs)
  obtain w ws where w: "js_split c xs = w # ws"
    using js_split_ne by (metis neq_Nil_conv)
  with Cons.IH show ?case
    by (cases ws) auto
qed simp

lemma js_split_no_sep: "c \<notin> set s \<Longrightarrow> js_split c s = [s]"
  by (induction s) auto

lemma js_split_append:
  "c \<notin> set a \<Longrightarrow> js_split c (a @ c # b) = a # js_split c b"
  by (induction a) auto

text \<open>
  A separator that does not occur in the pattern splits a substring search; with it
  messages with a printed number in the middle are searched piecewise.
\<close>

lemma includes_code [js_simps]:
  "sublist [] ys \<longleftrightarrow> True"
  "sublist (x # xs) [] \<longleftrightarrow> False"
  "sublist (x # xs) (y # ys) \<longleftrightarrow> prefix (x # xs) (y # ys) \<or> sublist (x # xs) ys"
  by (simp_all add: sublist_Cons_right)

lemma prefix_sep: "x \<notin> set p \<Longrightarrow> prefix p (a @ x # b) \<Longrightarrow> prefix p a"
  by (auto simp: prefix_append prefix_Cons)

lemma sublist_sep1:
  "x \<notin> set p \<Longrightarrow> sublist p (a @ x # b) \<longleftrightarrow> sublist p a \<or> sublist p b"
proof (induction a)
  case Nil
  then show ?case
    by (cases p) (auto simp: sublist_Cons_right prefix_Cons)
next
  case (Cons y a)
  have "prefix p (y # a @ x # b) \<longleftrightarrow> prefix p (y # a)"
    using prefix_sep [of x p "y # a" b] prefix_prefix [of p "y # a" "x # b"] Cons.prems
    by (simp only: append_Cons) blast
  moreover have "sublist p (a @ x # b) \<longleftrightarrow> sublist p a \<or> sublist p b"
    using Cons by blast
  ultimately show ?case
    unfolding append_Cons sublist_Cons_right [of p y] by blast
qed

lemma sublist_sep:
  "set p \<inter> set d = {} \<Longrightarrow> d \<noteq> [] \<Longrightarrow> sublist p (a @ d @ b) \<longleftrightarrow> sublist p a \<or> sublist p b"
proof (induction d arbitrary: a)
  case (Cons x d)
  then have x: "x \<notin> set p" by auto
  show ?case
  proof (cases "d = []")
    case True
    with x show ?thesis by (simp add: sublist_sep1)
  next
    case False
    have "sublist p ([] @ d @ b) \<longleftrightarrow> sublist p [] \<or> sublist p b"
      using Cons.prems False by (intro Cons.IH) auto
    with x show ?thesis
      by (cases p) (simp_all add: sublist_sep1)
  qed
qed simp

lemma of_char_digit_char: "d < 10 \<Longrightarrow> (of_char (digit_char d) :: nat) = 48 + d"
  by (simp add: digit_char_def)

lemma is_digit_digit_char [simp]: "d < 10 \<Longrightarrow> is_digit (digit_char d)"
  by (simp add: is_digit_def of_char_digit_char)

lemma digit_val_digit_char [simp]: "d < 10 \<Longrightarrow> digit_val (digit_char d) = d"
  by (simp add: digit_val_def of_char_digit_char)

lemma show_nat_ne [simp]: "show_nat n \<noteq> []"
  by (subst show_nat.simps) simp

lemma show_nat_digits: "\<forall>c \<in> set (show_nat n). is_digit c"
proof (induction n rule: show_nat.induct)
  case (1 n)
  then show ?case
    by (subst show_nat.simps) auto
qed

lemma parse_show_nat [simp]: "parse_digits (show_nat n) = n"
proof (induction n rule: show_nat.induct)
  case (1 n)
  show ?case
  proof (cases "n < 10")
    case True
    then show ?thesis by (subst show_nat.simps) (simp add: parse_digits_def)
  next
    case False
    with 1 have "parse_digits (show_nat (n div 10)) = n div 10" by simp
    with False show ?thesis
      by (subst show_nat.simps) (simp add: parse_digits_def)
  qed
qed

lemma show_nat_inj [simp]: "show_nat m = show_nat n \<longleftrightarrow> m = n"
  by (metis parse_show_nat)

lemma not_digit_in_show_nat: "\<not> is_digit c \<Longrightarrow> c \<notin> set (show_nat n)"
  using show_nat_digits by blast

lemma show_int_ne [simp]: "show_int i \<noteq> []"
  by (simp add: show_int_def)

lemma set_show_int: "c \<in> set (show_int i) \<Longrightarrow> is_digit c \<or> c = CHR ''-''"
  using show_nat_digits by (auto simp: show_int_def split: if_splits)

lemma show_int_disjoint:
  assumes "\<forall>c \<in> set p. \<not> is_digit c \<and> c \<noteq> CHR ''-''"
  shows "set p \<inter> set (show_int i) = {}"
  using assms by (auto dest: set_show_int)

lemma show_int_nonneg [simp]: "0 \<le> i \<Longrightarrow> show_int i = show_nat (nat i)"
  by (simp add: show_int_def)

subsection \<open>Insertion-ordered maps\<close>

text \<open>
  A JavaScript \<open>Map\<close> iterates in insertion order; \<open>set\<close> on a present key keeps its
  place. It is an association list with distinct keys.
\<close>

type_synonym ('k, 'v) jmap = "('k \<times> 'v) list"

definition jm_get :: "('k, 'v) jmap \<Rightarrow> 'k \<Rightarrow> 'v option" where
  "jm_get m k = map_of m k"

fun jm_set :: "'k \<Rightarrow> 'v \<Rightarrow> ('k, 'v) jmap \<Rightarrow> ('k, 'v) jmap" where
  "jm_set k v [] = [(k, v)]"
| "jm_set k v ((k', v') # m) = (if k = k' then (k, v) # m else (k', v') # jm_set k v m)"

definition jm_del :: "'k \<Rightarrow> ('k, 'v) jmap \<Rightarrow> ('k, 'v) jmap" where
  "jm_del k m = filter (\<lambda>p. fst p \<noteq> k) m"

definition jm_keys :: "('k, 'v) jmap \<Rightarrow> 'k set" where
  "jm_keys m = fst ` set m"

definition jm_ok :: "('k, 'v) jmap \<Rightarrow> bool" where
  "jm_ok m \<longleftrightarrow> distinct (map fst m)"

lemma jm_get_Nil: "jm_get [] = (\<lambda>_. None)"
  by (simp add: jm_get_def fun_eq_iff)

lemma jm_get_set: "jm_get (jm_set k v m) = (jm_get m)(k := Some v)"
  by (induction k v m rule: jm_set.induct) (auto simp: jm_get_def fun_eq_iff)

lemma jm_get_del: "jm_get (jm_del k m) = (jm_get m)(k := None)"
  by (induction m) (auto simp: jm_get_def jm_del_def fun_eq_iff)

lemma jm_keys_set: "jm_keys (jm_set k v m) = insert k (jm_keys m)"
  by (induction k v m rule: jm_set.induct) (auto simp: jm_keys_def)

lemma jm_keys_del: "jm_keys (jm_del k m) = jm_keys m - {k}"
  by (auto simp: jm_keys_def jm_del_def)

lemma jm_ok_Nil [simp]: "jm_ok []"
  by (simp add: jm_ok_def)

lemma jm_ok_set [simp]: "jm_ok m \<Longrightarrow> jm_ok (jm_set k v m)"
proof (induction k v m rule: jm_set.induct)
  case (2 k v k' v' m)
  then show ?case
    using jm_keys_set [of k v m] by (auto simp: jm_ok_def jm_keys_def)
qed (simp add: jm_ok_def)

lemma jm_ok_del [simp]: "jm_ok m \<Longrightarrow> jm_ok (jm_del k m)"
  by (simp add: jm_ok_def jm_del_def distinct_map_filter)

lemma jm_get_None: "jm_get m k = None \<longleftrightarrow> k \<notin> jm_keys m"
  by (simp add: jm_get_def jm_keys_def map_of_eq_None_iff)

lemma jm_get_in: "jm_get m k = Some v \<Longrightarrow> (k, v) \<in> set m"
  by (simp add: jm_get_def map_of_SomeD)

lemma length_jm_set:
  "length (jm_set k v m) = (if k \<in> jm_keys m then length m else Suc (length m))"
  by (induction k v m rule: jm_set.induct) (auto simp: jm_keys_def)

lemma length_jm_del_le: "length (jm_del k m) \<le> length m"
  by (simp add: jm_del_def)

lemma length_jm_del:
  "jm_ok m \<Longrightarrow> k \<in> jm_keys m \<Longrightarrow> Suc (length (jm_del k m)) = length m"
proof (induction m)
  case (Cons p m)
  then show ?case
    by (cases "fst p = k")
      (auto simp: jm_ok_def jm_keys_def jm_del_def intro: rev_image_eqI
        intro!: arg_cong [where f = length] filter_True)
qed (simp add: jm_keys_def)

lemmas jm_simps = jm_get_Nil jm_get_set jm_get_del jm_keys_set jm_keys_del

text \<open>
  The contract of a keyed store, in the form its clients (the torrent cache, the
  in-flight request table, the status maps) rely on.
\<close>

locale keyed_store =
  fixes get :: "'m \<Rightarrow> 'k \<Rightarrow> 'v option"
    and put :: "'k \<Rightarrow> 'v \<Rightarrow> 'm \<Rightarrow> 'm"
    and del :: "'k \<Rightarrow> 'm \<Rightarrow> 'm"
    and ok :: "'m \<Rightarrow> bool"
    and emp :: 'm
  assumes get_emp: "get emp k = None"
    and get_put: "ok m \<Longrightarrow> get (put k v m) k' = (if k' = k then Some v else get m k')"
    and get_del: "ok m \<Longrightarrow> get (del k m) k' = (if k' = k then None else get m k')"
    and ok_emp: "ok emp"
    and ok_put: "ok m \<Longrightarrow> ok (put k v m)"
    and ok_del: "ok m \<Longrightarrow> ok (del k m)"
begin

lemma get_put_same: "ok m \<Longrightarrow> get (put k v m) k = Some v"
  by (simp add: get_put)

lemma get_del_same: "ok m \<Longrightarrow> get (del k m) k = None"
  by (simp add: get_del)

lemma get_put_del: "ok m \<Longrightarrow> get (put k v (del k' m)) k = Some v"
  by (simp add: get_put ok_del)

lemma get_del_other: "ok m \<Longrightarrow> k' \<noteq> k \<Longrightarrow> get (del k m) k' = get m k'"
  by (simp add: get_del)

lemma ok_fold_put: "ok m \<Longrightarrow> ok (fold (\<lambda>(k, v). put k v) kvs m)"
  by (induction kvs arbitrary: m) (auto intro: ok_put)

text \<open>A batch of writes: the last write of a key wins, other keys keep their value.\<close>

lemma get_fold_put:
  "ok m \<Longrightarrow> get (fold (\<lambda>(k, v). put k v) kvs m) k =
     (case map_of (rev kvs) k of Some v \<Rightarrow> Some v | None \<Rightarrow> get m k)"
proof (induction kvs arbitrary: m)
  case (Cons p kvs)
  obtain a b where p: "p = (a, b)" by (cases p)
  have "get (fold (\<lambda>(k, v). put k v) kvs (put a b m)) k =
      (case map_of (rev kvs) k of Some v \<Rightarrow> Some v | None \<Rightarrow> get (put a b m) k)"
    using Cons.prems by (intro Cons.IH) (rule ok_put)
  then show ?case
    using Cons.prems by (auto simp: p get_put map_add_def split: option.splits)
qed simp

end

interpretation jm: keyed_store jm_get jm_set jm_del jm_ok "[]"
  by unfold_locales (auto simp: jm_simps)

subsection \<open>Results of promises\<close>

text \<open>
  A settled promise: \<open>Inl e\<close> for a rejection with \<open>e\<close>, \<open>Inr v\<close> for a value.
  \<open>Promise.all\<close> rejects with the first rejection in settlement order; the callers
  modelled here only use whether all succeeded and, for errors, one of the rejections.
\<close>

fun all_ok :: "('e + 'a) list \<Rightarrow> 'e + 'a list" where
  "all_ok [] = Inr []"
| "all_ok (Inl e # rs) = Inl e"
| "all_ok (Inr v # rs) = (case all_ok rs of Inl e \<Rightarrow> Inl e | Inr vs \<Rightarrow> Inr (v # vs))"

lemma all_ok_Inr: "all_ok rs = Inr vs \<longleftrightarrow> rs = map Inr vs"
proof (induction rs arbitrary: vs rule: all_ok.induct)
  case (3 v rs)
  show ?case
  proof (cases "all_ok rs")
    case (Inl e)
    with 3 have "\<And>us. rs \<noteq> map Inr us" by auto
    with Inl show ?thesis by (auto simp: Cons_eq_map_conv)
  next
    case (Inr us)
    then have "rs = map Inr us" using "3" [of us] by simp
    with Inr show ?thesis by (auto simp: Cons_eq_map_conv inj_map_eq_map)
  qed
qed auto

lemma all_ok_Inl: "all_ok rs = Inl e \<Longrightarrow> Inl e \<in> set rs"
  by (induction rs rule: all_ok.induct) (auto split: sum.splits)

lemma all_ok_isl: "isl (all_ok rs) \<longleftrightarrow> (\<exists>r \<in> set rs. isl r)"
  by (induction rs rule: all_ok.induct) (auto split: sum.splits)

subsection \<open>Integers\<close>

text \<open>\<open>Math.round\<close> of a quotient of integers, and \<open>Math.ceil\<close> of one.\<close>

definition round_div :: "int \<Rightarrow> int \<Rightarrow> int" where
  "round_div a b = (2 * a + b) div (2 * b)"

definition ceil_div :: "int \<Rightarrow> int \<Rightarrow> int" where
  "ceil_div a b = - ((- a) div b)"

lemma ceil_div_bounds: "0 < b \<Longrightarrow> a \<le> ceil_div a b * b \<and> (ceil_div a b - 1) * b < a"
proof -
  assume b: "0 < b"
  define q r where "q = (- a) div b" and "r = (- a) mod b"
  have "q * b + r = - a" by (simp add: q_def r_def)
  moreover have "0 \<le> r" "r < b" using b by (simp_all add: r_def)
  moreover have "ceil_div a b = - q" by (simp add: ceil_div_def q_def)
  ultimately show ?thesis
    by (simp add: algebra_simps)
qed

lemma ceil_div_pos: "0 < a \<Longrightarrow> 0 < b \<Longrightarrow> 0 < ceil_div a b"
  using ceil_div_bounds [of b a] by (smt (verit) mult_nonneg_nonpos2 mult_le_0_iff)

end
