(* ===== verification/Errors.thy ===== *)
theory Errors
  imports Prelude
begin

text \<open>
  Thrown JavaScript values as the renderer classifies them
  (\<open>renderer/utils/errorHandling.ts\<close>) and the constructor and retry classifier of
  the API client (\<open>createApiError\<close>, \<open>isRetryableError\<close> in \<open>renderer/utils/api.ts\<close>).

  A thrown value is an \<open>Error\<close>, a string, or something else. An error carries its
  class (\<open>DOMException\<close> and \<open>TypeError\<close> are told apart by \<open>instanceof\<close>), its
  name and message and, when the property \<open>status\<close> is present on it (which
  \<open>"status" in error\<close> tests, also when its value is \<open>undefined\<close>), the API fields.
\<close>

datatype err_class = DomExceptionClass | TypeErrorClass | PlainErrorClass

record api_fields =
  af_status :: "int option"
  af_statusText :: "string option"
  af_isNetworkError :: bool

record js_error =
  e_class :: err_class
  e_name :: string
  e_message :: string
  e_api :: "api_fields option"

datatype thrown = ThrownError js_error | ThrownString string | ThrownOther

definition createApiError ::
    "string \<Rightarrow> int option \<Rightarrow> string option \<Rightarrow> bool \<Rightarrow> thrown" where
  "createApiError message status statusText isNetworkError =
     ThrownError \<lparr>e_class = PlainErrorClass, e_name = ''Error'', e_message = message,
       e_api = Some \<lparr>af_status = status, af_statusText = statusText,
                     af_isNetworkError = isNetworkError\<rparr>\<rparr>"

text \<open>\<open>error instanceof DOMException && error.name === "AbortError"\<close> and the message test.\<close>

definition isAbortError :: "thrown \<Rightarrow> bool" where
  "isAbortError t = (case t of
     ThrownError e \<Rightarrow>
       (e_class e = DomExceptionClass \<and> e_name e = ''AbortError'') \<or>
       e_name e = ''AbortError'' \<or> js_includes (e_message e) ''aborted''
   | _ \<Rightarrow> False)"

definition isFetchTypeError :: "thrown \<Rightarrow> bool" where
  "isFetchTypeError t = (case t of
     ThrownError e \<Rightarrow> e_class e = TypeErrorClass \<and> js_includes (e_message e) ''fetch''
   | _ \<Rightarrow> False)"

definition isApiError :: "thrown \<Rightarrow> bool" where
  "isApiError t = (case t of ThrownError e \<Rightarrow> e_api e \<noteq> None | _ \<Rightarrow> False)"

definition isRetryableError :: "thrown \<Rightarrow> bool" where
  "isRetryableError t =
     (if isAbortError t then False
      else if isFetchTypeError t then True
      else (case t of
        ThrownError e \<Rightarrow>
          (case e_api e of
            None \<Rightarrow> False
          | Some a \<Rightarrow> (case af_status a of None \<Rightarrow> True | Some s \<Rightarrow> 500 \<le> s \<and> s < 600))
      | _ \<Rightarrow> False))"

definition getErrorMessage :: "thrown \<Rightarrow> string \<Rightarrow> string" where
  "getErrorMessage t fallback = (case t of
     ThrownError e \<Rightarrow> e_message e
   | ThrownString s \<Rightarrow> s
   | ThrownOther \<Rightarrow> fallback)"

definition isNetworkError :: "thrown \<Rightarrow> bool" where
  "isNetworkError t = (case t of
     ThrownError e \<Rightarrow>
       (let message = js_lower (e_message e) in
        js_includes message ''fetch'' \<or> js_includes message ''network'' \<or>
        js_includes message ''connection'' \<or> js_includes message ''timed out'' \<or>
        js_includes message ''aborted'' \<or>
        (case e_api e of None \<Rightarrow> False | Some a \<Rightarrow> af_isNetworkError a))
   | _ \<Rightarrow> False)"

definition isClientError :: "thrown \<Rightarrow> bool" where
  "isClientError t = (case t of
     ThrownError e \<Rightarrow>
       (case e_api e of
         None \<Rightarrow> False
       | Some a \<Rightarrow> (case af_status a of None \<Rightarrow> False | Some s \<Rightarrow> 400 \<le> s \<and> s < 500))
   | _ \<Rightarrow> False)"

definition formatErrorForUser :: "thrown \<Rightarrow> string option \<Rightarrow> string" where
  "formatErrorForUser t context =
     (let message = getErrorMessage t ''An unknown error occurred'' in
      case context of
        None \<Rightarrow> message
      | Some c \<Rightarrow> if c = [] then message else c @ '': '' @ message)"

text \<open>\<open>error instanceof Error ? error : new Error(String(error))\<close>, as the catch blocks do.\<close>

definition toError :: "(thrown \<Rightarrow> string) \<Rightarrow> thrown \<Rightarrow> thrown" where
  "toError string_of t = (case t of
     ThrownError e \<Rightarrow> ThrownError e
   | _ \<Rightarrow> ThrownError \<lparr>e_class = PlainErrorClass, e_name = ''Error'',
                       e_message = string_of t, e_api = None\<rparr>)"

text \<open>\<open>e instanceof Error ? e.message : fallback\<close>, as the components of the page have it.\<close>

definition message_or :: "string \<Rightarrow> thrown \<Rightarrow> string" where
  "message_or fallback t = (case t of ThrownError e \<Rightarrow> e_message e | _ \<Rightarrow> fallback)"

subsection \<open>Lemmas\<close>

lemma isApiError_create [simp]: "isApiError (createApiError m st tx n)"
  by (simp add: isApiError_def createApiError_def)

lemma getErrorMessage_create [simp]: "getErrorMessage (createApiError m st tx n) f = m"
  by (simp add: getErrorMessage_def createApiError_def)

lemma isNetworkError_create: "isNetworkError (createApiError m st tx True)"
  by (simp add: isNetworkError_def createApiError_def Let_def)

lemma isClientError_create:
  "isClientError (createApiError m st tx n) \<longleftrightarrow> (\<exists>s. st = Some s \<and> 400 \<le> s \<and> s < 500)"
  by (auto simp: isClientError_def createApiError_def split: option.splits)

lemma client_error_is_api: "isClientError t \<Longrightarrow> isApiError t"
  by (auto simp: isClientError_def isApiError_def split: thrown.splits option.splits)

text \<open>The two classifiers never contradict each other: a 4xx error is not retried.\<close>

lemma client_error_not_retryable:
  assumes "isClientError t" and "\<not> isFetchTypeError t"
  shows "\<not> isRetryableError t"
  using assms
  by (auto simp: isClientError_def isRetryableError_def split: thrown.splits option.splits)

lemma abort_not_retryable: "isAbortError t \<Longrightarrow> \<not> isRetryableError t"
  by (simp add: isRetryableError_def)

lemma toError_is_error: "\<exists>e. toError f t = ThrownError e"
  by (cases t) (auto simp: toError_def)

lemma toError_api [simp]: "isApiError t \<Longrightarrow> toError f t = t"
  by (auto simp: toError_def isApiError_def split: thrown.splits)

end
