(* ===== verification/Api.thy ===== *)
theory Api
  imports Errors
begin

text \<open>
  The renderer's client of the daemon's REST interface (\<open>renderer/utils/api.ts\<close>):
  \<open>fetchWithRetry\<close> with its timeout, retry and connection-state logic, the four JSON
  verbs, and the table that merges concurrent identical GET requests.

  The network is a parameter: \<open>net n\<close> is what the n-th call of \<open>fetch\<close> does (its
  clock reading, whether the abort timer fired first, and its settled result). \<open>JSON.parse\<close>
  at the caller's result type is the parameter \<open>parse\<close>.
\<close>

record response =
  r_status :: int
  r_statusText :: string
  r_text :: "thrown + string"

record attempt =
  at_now :: time
  at_wasAborted :: bool
  at_result :: "thrown + response"

record request =
  rq_method :: string
  rq_path :: string
  rq_body :: "string option"
  rq_timeout :: time

datatype conn_state = Connected | Disconnected | Reconnecting

record conn =
  connectionState :: conn_state
  lastConnectionAttempt :: time
  sent :: "request list"
  slept :: "time list"

definition conn_init :: conn where
  "conn_init = \<lparr>connectionState = Disconnected, lastConnectionAttempt = 0, sent = [], slept = []\<rparr>"

definition MAX_RETRIES :: nat where "MAX_RETRIES = 2"
definition RETRY_DELAY_MS :: time where "RETRY_DELAY_MS = 500"

definition DAEMON_BASE :: string where "DAEMON_BASE = ''http://127.0.0.1:8733''"

definition r_ok :: "response \<Rightarrow> bool" where
  "r_ok r \<longleftrightarrow> 200 \<le> r_status r \<and> r_status r \<le> 299"

subsection \<open>One fetch with timeout and retries\<close>

definition default_timeout :: "string \<Rightarrow> time option \<Rightarrow> time" where
  "default_timeout method customTimeout =
     (case customTimeout of Some t \<Rightarrow> t
      | None \<Rightarrow> if method = ''POST'' then 30000 else 10000)"

definition timeout_message :: "time \<Rightarrow> string" where
  "timeout_message t =
     ''Request timed out after '' @ show_int (round_div t 1000) @
     '' seconds. The daemon may be slow to respond or processing a large file. Check daemon logs for details.''"

text \<open>The \<open>sleep(RETRY_DELAY_MS)\<close> before another attempt.\<close>

definition backoff :: "conn \<Rightarrow> conn" where
  "backoff c = c\<lparr>slept := slept c @ [RETRY_DELAY_MS]\<rparr>"

definition begin_attempt :: "time \<Rightarrow> request \<Rightarrow> conn \<Rightarrow> conn" where
  "begin_attempt now rq c =
     (if connectionState c = Disconnected
      then c\<lparr>connectionState := Reconnecting, lastConnectionAttempt := now, sent := sent c @ [rq]\<rparr>
      else c\<lparr>sent := sent c @ [rq]\<rparr>)"

fun fetchWithRetry ::
    "(nat \<Rightarrow> attempt) \<Rightarrow> request \<Rightarrow> nat \<Rightarrow> conn \<Rightarrow> (thrown + response) \<times> conn" where
  "fetchWithRetry net rq retries c0 =
     (let a = net (length (sent c0)); c = begin_attempt (at_now a) rq c0 in
      case at_result a of
        Inr response \<Rightarrow> (Inr response, c\<lparr>connectionState := Connected\<rparr>)
      | Inl error \<Rightarrow>
          if isAbortError error then
            (if at_wasAborted a then
               (case retries of
                  Suc retries' \<Rightarrow> fetchWithRetry net rq retries' (backoff c)
                | 0 \<Rightarrow> (Inl (createApiError (timeout_message (rq_timeout rq)) None None True),
                        c\<lparr>connectionState := Disconnected\<rparr>))
             else (Inl (createApiError ''Request was cancelled'' None None True), c))
          else if 0 < retries \<and> isRetryableError error then
            (case retries of
               Suc retries' \<Rightarrow>
                 fetchWithRetry net rq retries'
                   (backoff (if connectionState c = Connected
                             then c\<lparr>connectionState := Reconnecting\<rparr> else c))
             | 0 \<Rightarrow> (Inl error, c))
          else if isFetchTypeError error then
            (Inl (createApiError ''Connection failed. Is the daemon running?'' None None True),
             c\<lparr>connectionState := Disconnected\<rparr>)
          else (Inl error, if retries = 0 then c\<lparr>connectionState := Disconnected\<rparr> else c))"

declare fetchWithRetry.simps [simp del]

subsection \<open>The JSON verbs\<close>

definition http_failure :: "response \<Rightarrow> thrown" where
  "http_failure r =
     (let errorText = (case r_text r of Inl _ \<Rightarrow> r_statusText r | Inr t \<Rightarrow> t) in
      createApiError (''Request failed: '' @ (if errorText = [] then r_statusText r else errorText))
        (Some (r_status r)) (Some (r_statusText r)) False)"

text \<open>The catch block shared by the verbs: API errors pass, others are wrapped.\<close>

definition wrap_error :: "thrown \<Rightarrow> thrown" where
  "wrap_error t =
     (if isApiError t then t
      else createApiError
        (case t of ThrownError e \<Rightarrow> e_message e | _ \<Rightarrow> ''Unknown error occurred'') None None True)"

text \<open>The body reading of GET (\<open>r.json()\<close>) and of the other verbs (an empty body is \<open>{}\<close>).\<close>

definition read_json :: "(string \<Rightarrow> thrown + 'a) \<Rightarrow> response \<Rightarrow> thrown + 'a" where
  "read_json parse r = (case r_text r of Inl e \<Rightarrow> Inl e | Inr t \<Rightarrow> parse t)"

definition read_json_or_empty ::
    "(string \<Rightarrow> thrown + 'a) \<Rightarrow> 'a \<Rightarrow> response \<Rightarrow> thrown + 'a" where
  "read_json_or_empty parse empty_obj r =
     (case r_text r of Inl e \<Rightarrow> Inl e | Inr t \<Rightarrow> if t = [] then Inr empty_obj else parse t)"

definition finish_json ::
    "(response \<Rightarrow> thrown + 'a) \<Rightarrow> (thrown + response) \<times> conn \<Rightarrow> (thrown + 'a) \<times> conn" where
  "finish_json read rc = (case rc of
     (Inl e, c) \<Rightarrow> (Inl (wrap_error e), c)
   | (Inr r, c) \<Rightarrow>
       if \<not> r_ok r then (Inl (wrap_error (http_failure r)), c)
       else (case read r of Inl e \<Rightarrow> (Inl (wrap_error e), c) | Inr v \<Rightarrow> (Inr v, c)))"

definition getJson ::
    "(string \<Rightarrow> thrown + 'a) \<Rightarrow> (nat \<Rightarrow> attempt) \<Rightarrow> string \<Rightarrow> conn \<Rightarrow> (thrown + 'a) \<times> conn" where
  "getJson parse net path c =
     finish_json (read_json parse)
       (fetchWithRetry net
         \<lparr>rq_method = ''GET'', rq_path = DAEMON_BASE @ path, rq_body = None,
          rq_timeout = default_timeout ''GET'' None\<rparr> MAX_RETRIES c)"

definition postJson ::
    "(string \<Rightarrow> thrown + 'a) \<Rightarrow> 'a \<Rightarrow> (nat \<Rightarrow> attempt) \<Rightarrow> string \<Rightarrow> string option
      \<Rightarrow> time option \<Rightarrow> conn \<Rightarrow> (thrown + 'a) \<times> conn" where
  "postJson parse empty_obj net path body timeoutMs c =
     (let uploadTimeout = (case timeoutMs of Some t \<Rightarrow> t
                           | None \<Rightarrow> if path = ''/torrents'' then 60000 else 30000) in
      finish_json (read_json_or_empty parse empty_obj)
        (fetchWithRetry net
          \<lparr>rq_method = ''POST'', rq_path = DAEMON_BASE @ path, rq_body = body,
           rq_timeout = default_timeout ''POST'' (Some uploadTimeout)\<rparr> MAX_RETRIES c))"

definition patchJson ::
    "(string \<Rightarrow> thrown + 'a) \<Rightarrow> 'a \<Rightarrow> (nat \<Rightarrow> attempt) \<Rightarrow> string \<Rightarrow> string \<Rightarrow> conn
      \<Rightarrow> (thrown + 'a) \<times> conn" where
  "patchJson parse empty_obj net path body c =
     finish_json (read_json_or_empty parse empty_obj)
       (fetchWithRetry net
         \<lparr>rq_method = ''PATCH'', rq_path = DAEMON_BASE @ path, rq_body = Some body,
          rq_timeout = default_timeout ''PATCH'' None\<rparr> MAX_RETRIES c)"

definition deleteJson ::
    "(string \<Rightarrow> thrown + 'a) \<Rightarrow> 'a \<Rightarrow> (nat \<Rightarrow> attempt) \<Rightarrow> string \<Rightarrow> conn
      \<Rightarrow> (thrown + 'a) \<times> conn" where
  "deleteJson parse empty_obj net path c =
     finish_json (read_json_or_empty parse empty_obj)
       (fetchWithRetry net
         \<lparr>rq_method = ''DELETE'', rq_path = DAEMON_BASE @ path, rq_body = None,
          rq_timeout = default_timeout ''DELETE'' None\<rparr> MAX_RETRIES c)"

subsection \<open>Lemmas on the retry loop\<close>

lemma begin_attempt_sent [simp]: "sent (begin_attempt now rq c) = sent c @ [rq]"
  by (simp add: begin_attempt_def)

lemma begin_attempt_slept [simp]: "slept (begin_attempt now rq c) = slept c"
  by (simp add: begin_attempt_def)

lemma begin_attempt_not_disconnected: "connectionState (begin_attempt now rq c) \<noteq> Disconnected"
  by (simp add: begin_attempt_def)

lemma backoff_simps [simp]:
  "sent (backoff c) = sent c" "slept (backoff c) = slept c @ [RETRY_DELAY_MS]"
  "connectionState (backoff c) = connectionState c"
  by (simp_all add: backoff_def)

text \<open>
  What one call does to the log of requests: it repeats the same request \<open>n + 1\<close> times,
  \<open>n\<close> at most the number of retries, and sleeps once between two attempts.
\<close>

lemma fetchWithRetry_trace:
  "\<exists>n \<le> retries. sent (snd (fetchWithRetry net rq retries c)) = sent c @ replicate (Suc n) rq
     \<and> slept (snd (fetchWithRetry net rq retries c)) = slept c @ replicate n RETRY_DELAY_MS"
proof (induction retries arbitrary: c)
  case 0
  show ?case
    by (subst (1 2) fetchWithRetry.simps) (auto simp: Let_def split: sum.split)
next
  case (Suc r)
  have again: "\<exists>n \<le> Suc r.
      sent (snd (fetchWithRetry net rq r d)) = sent c @ replicate (Suc n) rq
      \<and> slept (snd (fetchWithRetry net rq r d)) = slept c @ replicate n RETRY_DELAY_MS"
    if "sent d = sent c @ [rq]" "slept d = slept c @ [RETRY_DELAY_MS]" for d
  proof -
    obtain n where "n \<le> r"
      "sent (snd (fetchWithRetry net rq r d)) = sent d @ replicate (Suc n) rq"
      "slept (snd (fetchWithRetry net rq r d)) = slept d @ replicate n RETRY_DELAY_MS"
      using Suc.IH [of d] by auto
    then show ?thesis using that by (intro exI [of _ "Suc n"]) simp
  qed
  have stop: "\<exists>n \<le> Suc r. sent c @ [rq] = sent c @ replicate (Suc n) rq
      \<and> slept c = slept c @ replicate n RETRY_DELAY_MS"
    by (intro exI [of _ 0]) simp
  have one: "replicate (Suc 0) rq = [rq]" by simp
  show ?case
    by (subst (1 2) fetchWithRetry.simps)
      (auto simp: Let_def one simp del: replicate_Suc split: sum.split intro!: again stop)
qed

lemma fetchWithRetry_Inr_connected:
  "fst (fetchWithRetry net rq retries c) = Inr r \<Longrightarrow>
   connectionState (snd (fetchWithRetry net rq retries c)) = Connected"
proof (induction retries arbitrary: c)
  case 0
  then show ?case
    by (subst fetchWithRetry.simps, subst (asm) fetchWithRetry.simps)
      (auto simp: Let_def split: sum.splits if_splits)
next
  case (Suc n)
  then show ?case
    by (subst fetchWithRetry.simps, subst (asm) (2) fetchWithRetry.simps)
      (auto simp: Let_def split: sum.splits if_splits)
qed

text \<open>No raw abort error leaves the loop: a timeout or a cancellation is reworded.\<close>

lemma timeout_message_no_abort: "\<not> js_includes (timeout_message t) ''aborted''"
proof -
  have "set ''aborted'' \<inter> set (show_int i) = {}" for i
    by (rule show_int_disjoint) (simp add: is_digit_def)
  then show ?thesis
    unfolding timeout_message_def
    by (subst sublist_sep) (simp_all add: js_simps)
qed

lemma reworded_no_abort [simp]:
  "\<not> isAbortError (createApiError ''Request was cancelled'' None None True)"
  "\<not> isAbortError (createApiError ''Connection failed. Is the daemon running?'' None None True)"
  "\<not> isAbortError (createApiError (timeout_message t) None None True)"
  by (simp_all add: isAbortError_def createApiError_def timeout_message_no_abort)
    (simp_all add: js_simps)

lemma fetchWithRetry_no_abort:
  "fst (fetchWithRetry net rq retries c) = Inl e \<Longrightarrow> \<not> isAbortError e"
proof (induction retries arbitrary: c)
  case 0
  then show ?case
    by (subst (asm) fetchWithRetry.simps)
      (auto simp: Let_def split: sum.splits if_splits)
next
  case (Suc n)
  then show ?case
    by (subst (asm) (2) fetchWithRetry.simps)
      (auto simp: Let_def split: sum.splits if_splits)
qed

lemma fetchWithRetry_Inl_exhausted:
  assumes "fst (fetchWithRetry net rq retries c) = Inl e"
    and "sent (snd (fetchWithRetry net rq retries c)) = sent c @ replicate (Suc retries) rq"
    and "e \<noteq> createApiError ''Request was cancelled'' None None True"
  shows "connectionState (snd (fetchWithRetry net rq retries c)) = Disconnected"
  using assms
proof (induction retries arbitrary: c)
  case 0
  then show ?case
    by (subst fetchWithRetry.simps, subst (asm) (2 4) fetchWithRetry.simps)
      (auto simp: Let_def split: sum.splits if_splits)
next
  case (Suc n)
  let ?a = "net (length (sent c))"
  let ?b = "begin_attempt (at_now ?a) rq c"
  let ?d = "backoff ?b"
  let ?d' = "backoff (?b\<lparr>connectionState := Reconnecting\<rparr>)"
  have sent_eq: "sent c @ replicate (Suc (Suc n)) rq = sent ?b @ replicate (Suc n) rq"
    by simp
  consider (direct) "sent (snd (fetchWithRetry net rq (Suc n) c)) = sent c @ [rq]"
    | (again) "fetchWithRetry net rq (Suc n) c = fetchWithRetry net rq n ?d"
    | (again') "fetchWithRetry net rq (Suc n) c = fetchWithRetry net rq n ?d'"
    using fetchWithRetry.simps [of net rq "Suc n" c]
    by (auto simp: Let_def split: sum.splits if_splits)
  then show ?case
  proof cases
    case direct
    with Suc.prems(2) show ?thesis by simp
  next
    case again
    with Suc.prems show ?thesis
      using Suc.IH [of ?d] sent_eq by simp
  next
    case again'
    with Suc.prems show ?thesis
      using Suc.IH [of ?d'] sent_eq by simp
  qed
qed

subsection \<open>Merging concurrent GET requests\<close>

text \<open>
  \<open>inflightRequests\<close> maps a request key to the promise of the running request. A promise
  is a number; \<open>opens\<close> lists the promises not yet settled with their keys (the
  network requests running), which the code does not keep but which tells what runs.
\<close>

record inflight_table =
  inflightRequests :: "(string, nat) jmap"
  nextPromise :: nat
  opens :: "(nat \<times> string) list"

definition inflight_init :: inflight_table where
  "inflight_init = \<lparr>inflightRequests = [], nextPromise = 0, opens = []\<rparr>"

definition getRequestKey :: "string \<Rightarrow> string \<Rightarrow> string option \<Rightarrow> string" where
  "getRequestKey method path body =
     method @ '':'' @ path @ '':'' @ (case body of None \<Rightarrow> [] | Some b \<Rightarrow> b)"

text \<open>The synchronous part of \<open>getJson\<close>: join the running request or start one.\<close>

definition getJson_call :: "string \<Rightarrow> inflight_table \<Rightarrow> nat \<times> inflight_table" where
  "getJson_call path s =
     (let requestKey = getRequestKey ''GET'' path None in
      case jm_get (inflightRequests s) requestKey of
        Some existingRequest \<Rightarrow> (existingRequest, s)
      | None \<Rightarrow>
          (let request = nextPromise s in
           (request, s\<lparr>inflightRequests := jm_set requestKey request (inflightRequests s),
                       nextPromise := Suc request, opens := opens s @ [(request, requestKey)]\<rparr>)))"

text \<open>The \<open>finally\<close> block, when the request of \<open>key\<close> settles.\<close>

definition getJson_settle :: "nat \<Rightarrow> string \<Rightarrow> inflight_table \<Rightarrow> inflight_table" where
  "getJson_settle p key s =
     s\<lparr>inflightRequests := jm_del key (inflightRequests s),
       opens := filter (\<lambda>q. q \<noteq> (p, key)) (opens s)\<rparr>"

inductive inflight_reach :: "inflight_table \<Rightarrow> bool" where
  init: "inflight_reach inflight_init"
| call: "inflight_reach s \<Longrightarrow> inflight_reach (snd (getJson_call path s))"
| settle: "inflight_reach s \<Longrightarrow> (p, key) \<in> set (opens s) \<Longrightarrow> inflight_reach (getJson_settle p key s)"

text \<open>The table lists exactly the running requests, and promise numbers are fresh.\<close>

definition inflight_inv :: "inflight_table \<Rightarrow> bool" where
  "inflight_inv s \<longleftrightarrow>
     jm_ok (inflightRequests s) \<and>
     (\<forall>p k. (p, k) \<in> set (opens s) \<longleftrightarrow> jm_get (inflightRequests s) k = Some p) \<and>
     (\<forall>p k. (p, k) \<in> set (opens s) \<longrightarrow> p < nextPromise s) \<and>
     (\<forall>p k k'. (p, k) \<in> set (opens s) \<longrightarrow> (p, k') \<in> set (opens s) \<longrightarrow> k = k')"

lemma inflight_inv_call: "inflight_inv s \<Longrightarrow> inflight_inv (snd (getJson_call path s))"
  by (cases "jm_get (inflightRequests s) (getRequestKey ''GET'' path None)")
    (auto simp: inflight_inv_def getJson_call_def Let_def jm_simps less_Suc_eq)

lemma inflight_inv_settle:
  "inflight_inv s \<Longrightarrow> (p, key) \<in> set (opens s) \<Longrightarrow> inflight_inv (getJson_settle p key s)"
  by (auto simp: inflight_inv_def getJson_settle_def jm_simps)

lemma inflight_reach_inv: "inflight_reach s \<Longrightarrow> inflight_inv s"
proof (induction rule: inflight_reach.induct)
  case init
  show ?case by (simp add: inflight_inv_def inflight_init_def jm_simps)
qed (auto intro: inflight_inv_call inflight_inv_settle)

lemma getRequestKey_GET_inj:
  "getRequestKey ''GET'' p None = getRequestKey ''GET'' q None \<longleftrightarrow> p = q"
  by (simp add: getRequestKey_def)

subsection \<open>Properties\<close>

lemma wrap_error_api [simp]: "isApiError (wrap_error t)"
  by (simp add: wrap_error_def)

lemma finish_json_api: "fst (finish_json read rc) = Inl e \<Longrightarrow> isApiError e"
  by (auto simp: finish_json_def split: prod.splits sum.splits if_splits)

lemma finish_json_snd [simp]: "snd (finish_json read rc) = snd rc"
  by (auto simp: finish_json_def split: prod.splits sum.splits)

lemma finish_json_Inr:
  "fst (finish_json read rc) = Inr v \<Longrightarrow> \<exists>r. fst rc = Inr r \<and> r_ok r \<and> read r = Inr v"
  by (auto simp: finish_json_def split: prod.splits sum.splits if_splits)

text \<open>
  Property C7: one call repeats the same request at most \<open>retries\<close> times, with one pause of
  500 ms before each repetition, and whatever it throws is never an abort error: a timeout
  and a cancellation are reported under their own messages.
\<close>

theorem fetch_retry_budget:
  "(\<exists>n \<le> retries.
      sent (snd (fetchWithRetry net rq retries c)) = sent c @ replicate (Suc n) rq \<and>
      slept (snd (fetchWithRetry net rq retries c)) = slept c @ replicate n 500) \<and>
   (fst (fetchWithRetry net rq retries c) = Inl e \<longrightarrow> \<not> isAbortError e)"
  using fetchWithRetry_trace [of retries net rq c] fetchWithRetry_no_abort [of net rq retries c e]
  by (auto simp: RETRY_DELAY_MS_def)

definition sample_net :: "nat \<Rightarrow> attempt" where
  "sample_net n = \<lparr>at_now = int n, at_wasAborted = (n = 0), at_result =
     (if n = 0 then Inl (ThrownError \<lparr>e_class = DomExceptionClass, e_name = ''AbortError'',
                                      e_message = ''signal is aborted'', e_api = None\<rparr>)
      else Inl (ThrownError \<lparr>e_class = TypeErrorClass, e_name = ''TypeError'',
                             e_message = ''Failed to fetch'', e_api = None\<rparr>))\<rparr>"

definition sample_rq :: request where
  "sample_rq = \<lparr>rq_method = ''GET'', rq_path = ''/health'', rq_body = None, rq_timeout = 10000\<rparr>"

theorem fetch_retry_budget_witness:
  "\<not> isAbortError (createApiError ''Connection failed. Is the daemon running?'' None None True) \<and>
   (\<exists>n \<le> 1. sent (snd (fetchWithRetry sample_net sample_rq 1 conn_init)) = replicate (Suc n) sample_rq)"
proof -
  have r: "fst (fetchWithRetry sample_net sample_rq 1 conn_init) =
      Inl (createApiError ''Connection failed. Is the daemon running?'' None None True)"
    by (simp add: fetchWithRetry.simps sample_net_def conn_init_def begin_attempt_def backoff_def
        isAbortError_def isFetchTypeError_def js_simps)
  from fetch_retry_budget [of 1 sample_net sample_rq conn_init
      "createApiError ''Connection failed. Is the daemon running?'' None None True"] r
  show ?thesis by (auto simp: conn_init_def)
qed

text \<open>
  Further fact: the connection indicator tells the truth at the ends of a call. A response
  leaves it \<open>Connected\<close>; a failure that used up the retries leaves it \<open>Disconnected\<close>
  unless the caller cancelled the request.
\<close>

theorem connection_state_after_call:
  "(fst (fetchWithRetry net rq retries c) = Inr r \<longrightarrow>
      connectionState (snd (fetchWithRetry net rq retries c)) = Connected) \<and>
   (fst (fetchWithRetry net rq retries c) = Inl e \<and>
    sent (snd (fetchWithRetry net rq retries c)) = sent c @ replicate (Suc retries) rq \<and>
    e \<noteq> createApiError ''Request was cancelled'' None None True \<longrightarrow>
      connectionState (snd (fetchWithRetry net rq retries c)) = Disconnected)"
  using fetchWithRetry_Inr_connected [of net rq retries c r]
    fetchWithRetry_Inl_exhausted [of net rq retries c e] by blast

theorem connection_state_after_call_witness:
  "connectionState (snd (fetchWithRetry sample_net sample_rq 1 conn_init)) = Disconnected"
proof -
  have "fst (fetchWithRetry sample_net sample_rq 1 conn_init) =
      Inl (createApiError ''Connection failed. Is the daemon running?'' None None True)
    \<and> sent (snd (fetchWithRetry sample_net sample_rq 1 conn_init)) =
      sent conn_init @ replicate (Suc 1) sample_rq"
    by (simp add: fetchWithRetry.simps sample_net_def conn_init_def begin_attempt_def backoff_def
        isAbortError_def isFetchTypeError_def js_simps)
  moreover have "createApiError ''Connection failed. Is the daemon running?'' None None True
      \<noteq> createApiError ''Request was cancelled'' None None True"
    by (simp add: createApiError_def)
  ultimately show ?thesis
    using connection_state_after_call [of sample_net sample_rq 1 conn_init undefined
        "createApiError ''Connection failed. Is the daemon running?'' None None True"]
    by blast
qed

text \<open>The value a call returns is the reply of its last attempt.\<close>

lemma fetchWithRetry_last:
  "fst (fetchWithRetry net rq n c) = Inr r \<Longrightarrow>
   length (sent c) < length (sent (snd (fetchWithRetry net rq n c))) \<and>
   at_result (net (length (sent (snd (fetchWithRetry net rq n c))) - 1)) = Inr r"
proof (induction n arbitrary: c)
  case 0
  then show ?case
    by (subst (1 2) fetchWithRetry.simps, subst (asm) fetchWithRetry.simps)
      (auto simp: Let_def split: sum.splits if_splits)
next
  case (Suc n)
  let ?b = "begin_attempt (at_now (net (length (sent c)))) rq c"
  have step: ?case if "sent d = sent c @ [rq]" "fetchWithRetry net rq (Suc n) c = fetchWithRetry net rq n d" for d
    using Suc.IH [of d] Suc.prems that by simp
  show ?case
  proof (cases "at_result (net (length (sent c)))")
    case (Inr r')
    then have "fetchWithRetry net rq (Suc n) c = (Inr r', ?b\<lparr>connectionState := Connected\<rparr>)"
      by (subst fetchWithRetry.simps) (simp add: Let_def)
    then show ?thesis using Inr Suc.prems by simp
  next
    case (Inl e)
    have "fetchWithRetry net rq (Suc n) c = fetchWithRetry net rq n (backoff ?b) \<or>
        fetchWithRetry net rq (Suc n) c = fetchWithRetry net rq n (backoff (?b\<lparr>connectionState := Reconnecting\<rparr>))"
      using Inl Suc.prems
      by (subst fetchWithRetry.simps, subst (asm) fetchWithRetry.simps, subst (2) fetchWithRetry.simps)
        (auto simp: Let_def split: if_splits)
    then show ?thesis using step [of "backoff ?b"] step [of "backoff (?b\<lparr>connectionState := Reconnecting\<rparr>)"] by auto
  qed
qed

text \<open>
  Property C14: whatever a JSON verb throws is an \<open>ApiError\<close>, so the callers' status tests
  apply to every failure. A value is returned only when the last attempt of the call got a
  response with a 2xx status, and then it is what the body of that response reads as; the
  indicator is then \<open>Connected\<close>.
\<close>

theorem json_verbs_outcome:
  assumes "res \<in> {getJson parse net path c, postJson parse z net path body tmo c,
                  patchJson parse z net path b c, deleteJson parse z net path c}"
  shows "(\<forall>e. fst res = Inl e \<longrightarrow> isApiError e) \<and>
         (\<forall>v. fst res = Inr v \<longrightarrow> connectionState (snd res) = Connected \<and>
            length (sent c) < length (sent (snd res)) \<and>
            (\<exists>r. at_result (net (length (sent (snd res)) - 1)) = Inr r \<and>
               200 \<le> r_status r \<and> r_status r \<le> 299 \<and>
               (read_json parse r = Inr v \<or> read_json_or_empty parse z r = Inr v)))"
proof -
  have "\<exists>read rq. (read = read_json parse \<or> read = read_json_or_empty parse z) \<and>
      res = finish_json read (fetchWithRetry net rq MAX_RETRIES c)"
    using assms unfolding getJson_def postJson_def patchJson_def deleteJson_def Let_def by blast
  then obtain read rq where read: "read = read_json parse \<or> read = read_json_or_empty parse z"
    and res: "res = finish_json read (fetchWithRetry net rq MAX_RETRIES c)" by blast
  have "connectionState (snd res) = Connected \<and> length (sent c) < length (sent (snd res)) \<and>
      (\<exists>r. at_result (net (length (sent (snd res)) - 1)) = Inr r \<and>
         200 \<le> r_status r \<and> r_status r \<le> 299 \<and> read r = Inr v)"
    if v: "fst res = Inr v" for v
  proof -
    have "fst (finish_json read (fetchWithRetry net rq MAX_RETRIES c)) = Inr v"
      using v res by simp
    from finish_json_Inr [OF this]
    obtain r where r: "fst (fetchWithRetry net rq MAX_RETRIES c) = Inr r" "r_ok r" "read r = Inr v"
      by blast
    show ?thesis
      using fetchWithRetry_Inr_connected [OF r(1)] fetchWithRetry_last [OF r(1)] r(2,3) res
      by (auto simp: r_ok_def)
  qed
  then show ?thesis using read res finish_json_api by blast
qed

definition second_answers :: "nat \<Rightarrow> attempt" where
  "second_answers n = (if n = 0 then sample_net 1 else
     \<lparr>at_now = int n, at_wasAborted = False, at_result =
        Inr \<lparr>r_status = 200, r_statusText = ''OK'', r_text = Inr ''body''\<rparr>\<rparr>)"

theorem json_verbs_outcome_witness:
  "fst (getJson Inr second_answers ''/health'' conn_init) = Inr ''body'' \<and>
   (\<exists>r. at_result (second_answers 1) = Inr r \<and> 200 \<le> r_status r \<and> r_status r \<le> 299)"
proof -
  let ?res = "getJson (\<lambda>s. Inr s) second_answers ''/health'' conn_init"
  have v: "fst ?res = Inr ''body''" "length (sent (snd ?res)) = 2"
    by (simp_all add: getJson_def finish_json_def fetchWithRetry.simps second_answers_def sample_net_def
        conn_init_def begin_attempt_def backoff_def isAbortError_def isRetryableError_def
        isFetchTypeError_def js_simps MAX_RETRIES_def numeral_2_eq_2 r_ok_def read_json_def)
  show ?thesis
    using json_verbs_outcome [of ?res "\<lambda>s. Inr s" second_answers "''/health''" conn_init "[]" None None "[]"] v
    by auto
qed

text \<open>
  Property C8: at every moment at most one GET request per path is running, and a call made
  while it runs gets the promise of that request instead of starting another.
\<close>

theorem one_request_per_path:
  assumes "inflight_reach s"
  shows "(p, getRequestKey ''GET'' path None) \<in> set (opens s) \<Longrightarrow>
         (q, getRequestKey ''GET'' path None) \<in> set (opens s) \<Longrightarrow>
         p = q \<and> getJson_call path s = (p, s)"
  using inflight_reach_inv [OF assms]
  by (simp add: inflight_inv_def getJson_call_def)

theorem one_request_per_path_witness:
  "getJson_call ''/torrents'' (snd (getJson_call ''/torrents'' inflight_init)) =
     (0, snd (getJson_call ''/torrents'' inflight_init))"
proof -
  let ?s = "snd (getJson_call ''/torrents'' inflight_init)"
  have r: "inflight_reach ?s" by (intro inflight_reach.intros)
  have "(0, getRequestKey ''GET'' ''/torrents'' None) \<in> set (opens ?s)"
    by (simp add: getJson_call_def inflight_init_def jm_get_def Let_def)
  from one_request_per_path [OF r this this] show ?thesis by blast
qed

end
