(* ===== verification/Types.thy ===== *)
theory Types
  imports Complex_Main Prelude
begin

text \<open>
  The data exchanged with the daemon (\<open>renderer/types/index.ts\<close>,
  \<open>renderer/types/policy.ts\<close>). Optional and nullable fields are options, string
  unions are datatypes with one constructor per string. Fields carry a prefix per
  interface, since several interfaces use the same names. Fractions (\<open>progress\<close>) are
  rationals; byte counts, rates and times are integers.
\<close>

datatype torrent_mode = ModeStandard | ModePrivate | ModeAnonymous | ModeTorAssist

record torrent =
  t_id :: string
  t_name :: string
  t_added_at_ms :: time
  t_running :: bool
  t_mode :: torrent_mode
  t_hops :: nat
  t_info_hash_hex :: "string option"
  t_save_path :: "string option"

datatype torrent_state = Stopped | Downloading | Seeding | Checking | ErrorState

record torrent_status =
  ts_id :: string
  ts_state :: torrent_state
  ts_progress :: rat
  ts_down_rate_bps :: int
  ts_up_rate_bps :: int
  ts_eta_sec :: int
  ts_total_bytes :: int
  ts_downloaded_bytes :: int
  ts_peers_seen :: nat
  ts_error :: "string option"

record piece_bin =
  pb_have_ratio :: rat
  pb_min_avail :: nat
  pb_pieces_in_bin :: nat

record torrent_row_snapshot =
  rs_progress :: rat
  rs_state :: torrent_state
  rs_pieces_bins :: "piece_bin list"
  rs_heartbeat_samples :: "rat list"

definition state_name :: "torrent_state \<Rightarrow> string" where
  "state_name s = (case s of
     Stopped \<Rightarrow> ''stopped'' | Downloading \<Rightarrow> ''downloading'' | Seeding \<Rightarrow> ''seeding''
   | Checking \<Rightarrow> ''checking'' | ErrorState \<Rightarrow> ''error'')"

datatype vpn_posture = PostureConnected | PostureDisconnected | PostureUnknown | PostureChecking

datatype connection_type = ConnVpn | ConnTor | ConnI2p | ConnNonVpn

record vpn_signals =
  sg_adapter_match :: bool
  sg_default_route_match :: bool
  sg_dns_match :: bool
  sg_public_ip_match :: "bool option"

record vpn_status =
  vs_posture :: vpn_posture
  vs_interface :: "string option"
  vs_default_route_interface :: "string option"
  vs_dns_servers :: "string list"
  vs_signals :: vpn_signals
  vs_last_check_ms :: time
  vs_connection_type :: connection_type
  vs_public_ip :: "string option"
  vs_detected :: "bool option"
  vs_interfaceName :: "string option"

datatype kill_switch_state = KsDisarmed | KsArmed | KsEngaged | KsReleasing
datatype kill_switch_scope = TorrentOnly | AppLevel

record vpn_source =
  vsrc_auto_detect :: bool
  vsrc_allowed_adapters :: "string list"

record kill_switch_triggers =
  kt_pause_all_torrents :: bool
  kt_stop_seeding :: bool
  kt_disable_dht_pex_lpd :: bool
  kt_block_outbound :: bool

record kill_switch_config =
  ks_enabled :: bool
  ks_scope :: kill_switch_scope
  ks_vpn_source :: vpn_source
  ks_grace_period_sec :: nat
  ks_triggers :: kill_switch_triggers
  ks_enforcement_state :: kill_switch_state
  ks_last_enforcement_ms :: "time option"

datatype posture_state = Unconfigured | Protected | LeakRisk

record net_posture =
  np_bind_interface :: "string option"
  np_leak_proof_enabled :: bool
  np_state :: posture_state
  np_last_change_ms :: time
  np_vpn_status :: vpn_status
  np_kill_switch :: kill_switch_config

datatype event_type =
    EvDiskIo | EvHashFailure | EvTrackerError | EvVpnKillSwitch | EvPieceVerified
  | EvTorrentAdded | EvTorrentCompleted | EvTorrentError | EvTorrentStarted
  | EvTorrentStopped | EvPeerConnected | EvPeerDisconnected

datatype event_severity = SevInfo | SevWarning | SevError | SevSuccess

record torrent_event =
  ev_id :: string
  ev_timestamp :: time
  ev_type :: event_type
  ev_severity :: event_severity
  ev_torrentId :: "string option"
  ev_torrentName :: "string option"
  ev_message :: string
  ev_details :: "(string \<times> string) list option"

subsection \<open>Policy\<close>

datatype tri_state = TriOff | TriPrefer | TriRequire
datatype padding_level = PadOff | PadLow | PadHigh
datatype policy_profile = ProfileStandard | ProfileHardened | ProfileAnonymous

record desired_policy =
  dp_anonymous_mode :: bool
  dp_peer_encryption :: tri_state
  dp_dht_hardening :: bool
  dp_enforce_private_torrents :: bool
  dp_ip_blocklist :: bool
  dp_kill_switch :: bool
  dp_bind_interface_only :: bool
  dp_overlay_padding :: padding_level
  dp_sybil_resistance :: bool
  dp_relay_pow_required :: bool
  dp_relay_subnet_diversity :: bool
  dp_relay_reputation_weighting :: bool
  dp_ipv6_enabled :: bool
  dp_upnp_natpmp_enabled :: bool
  dp_circuit_rotation_enabled :: bool
  dp_deny_direct_exits :: bool
  dp_minimize_fingerprinting :: bool
  dp_profile :: "policy_profile option"

text \<open>A torrent counts as running when its status says it downloads or seeds.\<close>

definition is_active :: "torrent_status \<Rightarrow> bool" where
  "is_active s \<longleftrightarrow> ts_state s = Downloading \<or> ts_state s = Seeding"

end
