(* ===== verification/TorrentCache.thy ===== *)
theory TorrentCache
  imports Errors Types
begin

text \<open>
  The renderer's cache of torrent contents and statuses
  (\<open>renderer/utils/torrentCache.ts\<close>): two TTL caches with oldest-first eviction and the
  table of pending requests that callers join.

  Every method runs to its first suspension in one piece; the continuation of the fetcher
  (\<open>.then\<close> / \<open>.catch\<close>) is a second operation, so that calls and settlements
  interleave. A promise is a number; \<open>tc_opens\<close> lists the promises whose fetcher still
  runs and \<open>tc_settled\<close> what the settled ones resolved to, which is what callers that
  joined a promise receive.
\<close>

record content_file =
  cf_path :: "string list"
  cf_size :: int
  cf_priority :: string
  cf_downloaded :: bool

record torrent_content =
  tcn_files :: "content_file list"

record 'a cache_entry =
  ce_data :: 'a
  ce_timestamp :: time
  ce_etag :: "string option"

datatype settled = StatusResult "thrown + torrent_status" | ContentResult "thrown + torrent_content"

record torrent_cache =
  contentCache :: "(string, torrent_content cache_entry) jmap"
  statusCache :: "(string, torrent_status cache_entry) jmap"
  pendingRequests :: "(string, nat) jmap"
  tc_nextPromise :: nat
  tc_opens :: "(nat \<times> string) list"
  tc_settled :: "(nat, settled) jmap"

definition cache_init :: torrent_cache where
  "cache_init = \<lparr>contentCache = [], statusCache = [], pendingRequests = [],
                 tc_nextPromise = 0, tc_opens = [], tc_settled = []\<rparr>"

definition CONTENT_TTL :: time where "CONTENT_TTL = 60000"
definition STATUS_TTL :: time where "STATUS_TTL = 2500"
definition MAX_CACHE_SIZE :: nat where "MAX_CACHE_SIZE = 200"

definition getCached ::
    "(string, 'a cache_entry) jmap \<Rightarrow> string \<Rightarrow> time \<Rightarrow> time
      \<Rightarrow> 'a option \<times> (string, 'a cache_entry) jmap" where
  "getCached cache key ttl now = (case jm_get cache key of
     None \<Rightarrow> (None, cache)
   | Some entry \<Rightarrow>
       if now - ce_timestamp entry > ttl then (None, jm_del key cache)
       else (Some (ce_data entry), cache))"

text \<open>\<open>sort\<close> is stable, so the head is the first inserted of the oldest entries.\<close>

definition oldest_key :: "(string, 'a cache_entry) jmap \<Rightarrow> string option" where
  "oldest_key cache = (case sort_key (\<lambda>p. ce_timestamp (snd p)) cache of
     [] \<Rightarrow> None | p # _ \<Rightarrow> Some (fst p))"

definition evict :: "(string, 'a cache_entry) jmap \<Rightarrow> (string, 'a cache_entry) jmap" where
  "evict cache =
     (if MAX_CACHE_SIZE \<le> length cache then
        (case oldest_key cache of
           None \<Rightarrow> cache
         | Some k \<Rightarrow> if k = [] then cache else jm_del k cache)
      else cache)"

definition setCached ::
    "(string, 'a cache_entry) jmap \<Rightarrow> string \<Rightarrow> 'a \<Rightarrow> string option \<Rightarrow> time
      \<Rightarrow> (string, 'a cache_entry) jmap" where
  "setCached cache key data etag now =
     jm_set key \<lparr>ce_data = data, ce_timestamp = now, ce_etag = etag\<rparr> (evict cache)"

datatype 'a answer = Cached 'a | Joined nat | Started nat

definition content_key :: "string \<Rightarrow> string" where "content_key tid = ''content:'' @ tid"
definition status_key :: "string \<Rightarrow> string" where "status_key tid = ''status:'' @ tid"

text \<open>Join the pending request of the key or start the fetcher.\<close>

definition join_or_start :: "string \<Rightarrow> torrent_cache \<Rightarrow> 'a answer \<times> torrent_cache" where
  "join_or_start cacheKey st = (case jm_get (pendingRequests st) cacheKey of
     Some pending \<Rightarrow> (Joined pending, st)
   | None \<Rightarrow>
       (let p = tc_nextPromise st in
        (Started p, st\<lparr>pendingRequests := jm_set cacheKey p (pendingRequests st),
                       tc_nextPromise := Suc p, tc_opens := tc_opens st @ [(p, cacheKey)]\<rparr>)))"

definition getContent_call ::
    "string \<Rightarrow> bool \<Rightarrow> time \<Rightarrow> torrent_cache \<Rightarrow> torrent_content answer \<times> torrent_cache" where
  "getContent_call tid forceRefresh now st =
     (let cacheKey = content_key tid in
      if forceRefresh then join_or_start cacheKey st
      else (case getCached (contentCache st) cacheKey CONTENT_TTL now of
              (Some d, c) \<Rightarrow> (Cached d, st\<lparr>contentCache := c\<rparr>)
            | (None, c) \<Rightarrow> join_or_start cacheKey (st\<lparr>contentCache := c\<rparr>)))"

definition getStatus_call ::
    "string \<Rightarrow> bool \<Rightarrow> time \<Rightarrow> torrent_cache \<Rightarrow> torrent_status answer \<times> torrent_cache" where
  "getStatus_call tid forceRefresh now st =
     (let cacheKey = status_key tid in
      if forceRefresh then join_or_start cacheKey st
      else (case getCached (statusCache st) cacheKey STATUS_TTL now of
              (Some d, c) \<Rightarrow> (Cached d, st\<lparr>statusCache := c\<rparr>)
            | (None, c) \<Rightarrow> join_or_start cacheKey (st\<lparr>statusCache := c\<rparr>)))"

text \<open>Record what the promise of a finished fetcher resolves to.\<close>

definition settle :: "nat \<Rightarrow> string \<Rightarrow> settled \<Rightarrow> torrent_cache \<Rightarrow> torrent_cache" where
  "settle p key r st =
     st\<lparr>tc_opens := filter (\<lambda>q. q \<noteq> (p, key)) (tc_opens st),
        tc_settled := jm_set p r (tc_settled st)\<rparr>"

definition drop_pending :: "string \<Rightarrow> torrent_cache \<Rightarrow> torrent_cache" where
  "drop_pending key st = st\<lparr>pendingRequests := jm_del key (pendingRequests st)\<rparr>"

definition getContent_settle ::
    "nat \<Rightarrow> string \<Rightarrow> thrown + torrent_content \<Rightarrow> time \<Rightarrow> torrent_cache \<Rightarrow> torrent_cache" where
  "getContent_settle p tid result now st =
     (let cacheKey = content_key tid in
      case result of
        Inr d \<Rightarrow> settle p cacheKey (ContentResult (Inr d))
          (drop_pending cacheKey
            (st\<lparr>contentCache := setCached (contentCache st) cacheKey d None now\<rparr>))
      | Inl e \<Rightarrow> settle p cacheKey (ContentResult (Inl e)) (drop_pending cacheKey st))"

text \<open>
  The stabilisation test of the \<open>.then\<close> branch: an error report within three seconds of
  a cached downloading or seeding status is replaced by the cached status.
\<close>

definition stabilised :: "torrent_cache \<Rightarrow> string \<Rightarrow> torrent_status \<Rightarrow> time \<Rightarrow> torrent_status option" where
  "stabilised st cacheKey d now = (case jm_get (statusCache st) cacheKey of
     None \<Rightarrow> None
   | Some cached \<Rightarrow>
       if ts_state d = ErrorState \<and> is_active (ce_data cached) \<and> now - ce_timestamp cached < 3000
       then Some (ce_data cached) else None)"

definition getStatus_settle ::
    "nat \<Rightarrow> string \<Rightarrow> thrown + torrent_status \<Rightarrow> time \<Rightarrow> torrent_cache \<Rightarrow> torrent_cache" where
  "getStatus_settle p tid result now st =
     (let cacheKey = status_key tid in
      case result of
        Inr d \<Rightarrow>
          (case stabilised st cacheKey d now of
             Some old \<Rightarrow> settle p cacheKey (StatusResult (Inr old)) st
           | None \<Rightarrow> settle p cacheKey (StatusResult (Inr d))
               (drop_pending cacheKey
                 (st\<lparr>statusCache := setCached (statusCache st) cacheKey d None now\<rparr>)))
      | Inl e \<Rightarrow>
          (let st' = drop_pending cacheKey st in
           case jm_get (statusCache st') cacheKey of
             Some cached \<Rightarrow>
               if now - ce_timestamp cached < 5000
               then settle p cacheKey (StatusResult (Inr (ce_data cached))) st'
               else settle p cacheKey (StatusResult (Inl e)) st'
           | None \<Rightarrow> settle p cacheKey (StatusResult (Inl e)) st'))"

definition invalidate :: "string \<Rightarrow> torrent_cache \<Rightarrow> torrent_cache" where
  "invalidate tid st =
     st\<lparr>contentCache := jm_del (content_key tid) (contentCache st),
        statusCache := jm_del (status_key tid) (statusCache st)\<rparr>"

definition clear :: "torrent_cache \<Rightarrow> torrent_cache" where
  "clear st = st\<lparr>contentCache := [], statusCache := [], pendingRequests := []\<rparr>"

definition getStats :: "torrent_cache \<Rightarrow> nat \<times> nat \<times> nat" where
  "getStats st = (length (contentCache st), length (statusCache st), length (pendingRequests st))"

subsection \<open>Runs\<close>

datatype cache_op =
    CallContent string bool time
  | CallStatus string bool time
  | SettleContent nat string "thrown + torrent_content" time
  | SettleStatus nat string "thrown + torrent_status" time
  | Invalidate string
  | Clear

text \<open>A settlement happens only for a promise whose fetcher runs.\<close>

fun cache_step :: "torrent_cache \<Rightarrow> cache_op \<Rightarrow> torrent_cache" where
  "cache_step st (CallContent tid force now) = snd (getContent_call tid force now st)"
| "cache_step st (CallStatus tid force now) = snd (getStatus_call tid force now st)"
| "cache_step st (SettleContent p tid r now) =
     (if (p, content_key tid) \<in> set (tc_opens st) then getContent_settle p tid r now st else st)"
| "cache_step st (SettleStatus p tid r now) =
     (if (p, status_key tid) \<in> set (tc_opens st) then getStatus_settle p tid r now st else st)"
| "cache_step st (Invalidate tid) = invalidate tid st"
| "cache_step st Clear = clear st"

definition cache_run :: "torrent_cache \<Rightarrow> cache_op list \<Rightarrow> torrent_cache" where
  "cache_run = foldl cache_step"

subsection \<open>One TTL cache\<close>

lemma oldest_key_in: "oldest_key cache = Some k \<Longrightarrow> k \<in> jm_keys cache"
proof -
  assume "oldest_key cache = Some k"
  then obtain p ps where p: "sort_key (\<lambda>p. ce_timestamp (snd p)) cache = p # ps" "k = fst p"
    by (auto simp: oldest_key_def split: list.splits)
  then have "p \<in> set cache" by (metis list.set_intros(1) set_sort)
  with p show ?thesis by (simp add: jm_keys_def)
qed

lemma oldest_key_None: "oldest_key cache = None \<longleftrightarrow> cache = []"
proof -
  have "sort_key f xs = [] \<longleftrightarrow> xs = []" for f :: "string \<times> 'a cache_entry \<Rightarrow> time" and xs
    by (metis length_0_conv length_sort)
  then show ?thesis by (auto simp: oldest_key_def split: list.split)
qed

lemma oldest_key_minimal:
  assumes "oldest_key cache = Some k" and "jm_ok cache" and "jm_get cache k = Some e"
    and "jm_get cache k' = Some e'"
  shows "ce_timestamp e \<le> ce_timestamp e'"
proof -
  let ?ts = "\<lambda>p. ce_timestamp (snd p)"
  obtain p ps where p: "sort_key ?ts cache = p # ps" "k = fst p"
    using assms(1) by (auto simp: oldest_key_def split: list.splits)
  have "p \<in> set cache" using p by (metis list.set_intros(1) set_sort)
  with assms(2,3) p(2) have "snd p = e"
    by (metis eq_key_imp_eq_value jm_get_in jm_ok_def prod.collapse)
  moreover have "(k', e') \<in> set (p # ps)"
    using jm_get_in [OF assms(4)] p(1) by (metis set_sort)
  moreover have "sorted (map ?ts (p # ps))"
    using sorted_sort_key [of ?ts cache] p(1) by simp
  ultimately show ?thesis by auto
qed

definition ttl_cache_ok :: "(string, 'a cache_entry) jmap \<Rightarrow> bool" where
  "ttl_cache_ok c \<longleftrightarrow> jm_ok c \<and> [] \<notin> jm_keys c \<and> length c \<le> MAX_CACHE_SIZE"

lemma ttl_cache_ok_Nil [simp]: "ttl_cache_ok []"
  by (simp add: ttl_cache_ok_def jm_keys_def)

lemma ttl_cache_ok_del [simp]: "ttl_cache_ok c \<Longrightarrow> ttl_cache_ok (jm_del k c)"
  using length_jm_del_le [of k c] by (simp add: ttl_cache_ok_def jm_keys_del)

lemma evict_small: "ttl_cache_ok c \<Longrightarrow> ttl_cache_ok (evict c) \<and> length (evict c) < MAX_CACHE_SIZE"
proof -
  assume ok: "ttl_cache_ok c"
  show ?thesis
  proof (cases "MAX_CACHE_SIZE \<le> length c")
    case True
    then have "c \<noteq> []" by (auto simp: MAX_CACHE_SIZE_def)
    then obtain k where k: "oldest_key c = Some k"
      by (cases "oldest_key c") (auto simp: oldest_key_None)
    from oldest_key_in [OF this] ok have "k \<noteq> []" "Suc (length (jm_del k c)) = length c"
      by (auto simp: ttl_cache_ok_def intro: length_jm_del)
    with ok k True show ?thesis
      by (auto simp: evict_def ttl_cache_ok_def jm_keys_del)
  qed (use ok in \<open>simp add: evict_def\<close>)
qed

lemma ttl_cache_ok_set [simp]:
  assumes "ttl_cache_ok c" and "key \<noteq> []"
  shows "ttl_cache_ok (setCached c key d etag now)"
  using evict_small [OF assms(1)] assms(2)
  by (auto simp: setCached_def ttl_cache_ok_def jm_keys_set length_jm_set)

lemma getCached_ok: "ttl_cache_ok c \<Longrightarrow> ttl_cache_ok (snd (getCached c key ttl now))"
  by (auto simp: getCached_def split: option.split)

lemma getCached_set_same:
  "getCached (setCached c key d etag t) key ttl now =
     (if now - t > ttl then (None, jm_del key (setCached c key d etag t))
      else (Some d, setCached c key d etag t))"
  by (simp add: getCached_def setCached_def jm_simps)

lemma getCached_Some:
  "getCached c key ttl now = (Some d, c') \<Longrightarrow>
   \<exists>e. jm_get c key = Some e \<and> ce_data e = d \<and> now - ce_timestamp e \<le> ttl \<and> c' = c"
  by (auto simp: getCached_def split: option.splits if_splits)

text \<open>
  The contract of a TTL cache as the two methods use it: a served value was stored at most
  \<open>ttl\<close> ago, a stored value is served until then, and every operation keeps the cache
  well formed (distinct keys, at most \<open>MAX_CACHE_SIZE\<close> entries).
\<close>

locale ttl_cache =
  fixes get :: "'c \<Rightarrow> string \<Rightarrow> time \<Rightarrow> 'v option \<times> 'c"
    and put :: "'c \<Rightarrow> string \<Rightarrow> 'v \<Rightarrow> time \<Rightarrow> 'c"
    and stamp :: "'c \<Rightarrow> string \<Rightarrow> (time \<times> 'v) option"
    and ok :: "'c \<Rightarrow> bool"
    and ttl :: time
  assumes get_fresh: "get c k now = (Some v, c') \<Longrightarrow>
      \<exists>t. stamp c k = Some (t, v) \<and> now - t \<le> ttl \<and> c' = c"
    and get_hit: "stamp c k = Some (t, v) \<Longrightarrow> now - t \<le> ttl \<Longrightarrow> get c k now = (Some v, c)"
    and get_miss: "get c k now = (None, c') \<Longrightarrow> stamp c' k = None"
    and stamp_put: "stamp (put c k v now) k = Some (now, v)"
    and ok_get: "ok c \<Longrightarrow> ok (snd (get c k now))"
    and ok_put: "ok c \<Longrightarrow> k \<noteq> [] \<Longrightarrow> ok (put c k v now)"
begin

lemma put_get: "now - t \<le> ttl \<Longrightarrow> get (put c k v t) k now = (Some v, put c k v t)"
  by (rule get_hit [OF stamp_put])

lemma put_get_expired:
  assumes "ttl < now - t"
  shows "fst (get (put c k v t) k now) = None"
proof (cases "get (put c k v t) k now")
  case (Pair r c')
  show ?thesis
  proof (cases r)
    case (Some w)
    with Pair get_fresh [of "put c k v t" k now w c'] stamp_put [of c k v t] assms
    show ?thesis by auto
  qed (simp add: Pair)
qed

text \<open>A hit at one time is a hit at every earlier time.\<close>

lemma hit_earlier:
  assumes "fst (get c k now) = Some v" and "now' \<le> now"
  shows "get c k now' = (Some v, c)"
proof -
  from assms(1) obtain c' where "get c k now = (Some v, c')"
    by (cases "get c k now") auto
  from get_fresh [OF this] assms(2) show ?thesis by (auto intro: get_hit)
qed

end

definition entry_stamp :: "(string, 'a cache_entry) jmap \<Rightarrow> string \<Rightarrow> (time \<times> 'a) option" where
  "entry_stamp c k = map_option (\<lambda>e. (ce_timestamp e, ce_data e)) (jm_get c k)"

lemma ttl_cache_model:
  "ttl_cache (\<lambda>c k now. getCached c k ttl now) (\<lambda>c k v now. setCached c k v None now)
     entry_stamp ttl_cache_ok ttl"
proof unfold_locales
  fix c :: "(string, 'a cache_entry) jmap" and k now v c'
  assume "getCached c k ttl now = (Some v, c')"
  from getCached_Some [OF this]
  show "\<exists>t. entry_stamp c k = Some (t, v) \<and> now - t \<le> ttl \<and> c' = c"
    by (auto simp: entry_stamp_def)
next
  fix c :: "(string, 'a cache_entry) jmap" and k t v now
  assume "entry_stamp c k = Some (t, v)" "now - t \<le> ttl"
  then show "getCached c k ttl now = (Some v, c)"
    by (auto simp: entry_stamp_def getCached_def)
next
  fix c :: "(string, 'a cache_entry) jmap" and k now c'
  assume "getCached c k ttl now = (None, c')"
  then show "entry_stamp c' k = None"
    by (auto simp: entry_stamp_def getCached_def jm_simps split: option.splits if_splits)
next
  fix c :: "(string, 'a cache_entry) jmap" and k v now
  show "entry_stamp (setCached c k v None now) k = Some (now, v)"
    by (simp add: entry_stamp_def setCached_def jm_simps)
qed (simp_all add: getCached_ok)

interpretation contents: ttl_cache
  "\<lambda>c k now. getCached c k CONTENT_TTL now"
  "\<lambda>c k (v :: torrent_content) now. setCached c k v None now"
  entry_stamp ttl_cache_ok CONTENT_TTL
  by (rule ttl_cache_model)

interpretation statuses: ttl_cache
  "\<lambda>c k now. getCached c k STATUS_TTL now"
  "\<lambda>c k (v :: torrent_status) now. setCached c k v None now"
  entry_stamp ttl_cache_ok STATUS_TTL
  by (rule ttl_cache_model)

subsection \<open>The invariant of the whole cache\<close>

definition cache_ok :: "torrent_cache \<Rightarrow> bool" where
  "cache_ok st \<longleftrightarrow> ttl_cache_ok (contentCache st) \<and> ttl_cache_ok (statusCache st) \<and>
     jm_ok (pendingRequests st) \<and>
     (\<forall>p k. (p, k) \<in> set (tc_opens st) \<longrightarrow> p < tc_nextPromise st) \<and>
     (\<forall>p k k'. (p, k) \<in> set (tc_opens st) \<longrightarrow> (p, k') \<in> set (tc_opens st) \<longrightarrow> k = k') \<and>
     (\<forall>k p. jm_get (pendingRequests st) k = Some p \<longrightarrow> p < tc_nextPromise st)"

lemma cache_ok_opens:
  assumes "cache_ok st" and "(p, k) \<in> set (tc_opens st)"
  shows "p < tc_nextPromise st" and "(p, k') \<in> set (tc_opens st) \<Longrightarrow> k' = k"
  using assms unfolding cache_ok_def by blast+

lemma key_ne [simp]: "content_key t \<noteq> []" "status_key t \<noteq> []"
  by (simp_all add: content_key_def status_key_def)

lemma key_inj [simp]:
  "content_key t = content_key u \<longleftrightarrow> t = u" "status_key t = status_key u \<longleftrightarrow> t = u"
  "content_key t \<noteq> status_key u" "status_key u \<noteq> content_key t"
  by (simp_all add: content_key_def status_key_def)

lemma settle_simps [simp]:
  "contentCache (settle p k r st) = contentCache st"
  "statusCache (settle p k r st) = statusCache st"
  "pendingRequests (settle p k r st) = pendingRequests st"
  "tc_nextPromise (settle p k r st) = tc_nextPromise st"
  "tc_opens (settle p k r st) = filter (\<lambda>q. q \<noteq> (p, k)) (tc_opens st)"
  "tc_settled (settle p k r st) = jm_set p r (tc_settled st)"
  by (simp_all add: settle_def)

lemma drop_pending_simps [simp]:
  "contentCache (drop_pending k st) = contentCache st"
  "statusCache (drop_pending k st) = statusCache st"
  "pendingRequests (drop_pending k st) = jm_del k (pendingRequests st)"
  "tc_nextPromise (drop_pending k st) = tc_nextPromise st"
  "tc_opens (drop_pending k st) = tc_opens st"
  "tc_settled (drop_pending k st) = tc_settled st"
  by (simp_all add: drop_pending_def)

lemma cache_ok_init: "cache_ok cache_init"
  by (simp add: cache_ok_def cache_init_def jm_simps)

lemma cache_ok_join: "cache_ok st \<Longrightarrow> cache_ok (snd (join_or_start k st))"
  by (auto simp: cache_ok_def join_or_start_def Let_def jm_simps less_Suc_eq
      split: option.split if_splits)

lemma cache_ok_caches:
  "cache_ok st \<Longrightarrow> ttl_cache_ok c \<Longrightarrow> cache_ok (st\<lparr>contentCache := c\<rparr>)"
  "cache_ok st \<Longrightarrow> ttl_cache_ok c' \<Longrightarrow> cache_ok (st\<lparr>statusCache := c'\<rparr>)"
  by (simp_all add: cache_ok_def)

lemma cache_ok_settle: "cache_ok st \<Longrightarrow> cache_ok (settle p k r st)"
  by (auto simp: cache_ok_def)

lemma cache_ok_drop: "cache_ok st \<Longrightarrow> cache_ok (drop_pending k st)"
  by (auto simp: cache_ok_def jm_simps split: if_splits)

lemmas cache_ok_intros = cache_ok_join cache_ok_caches cache_ok_settle cache_ok_drop

lemma cache_ok_ttl: "cache_ok st \<Longrightarrow> ttl_cache_ok (contentCache st)"
    "cache_ok st \<Longrightarrow> ttl_cache_ok (statusCache st)"
  by (simp_all add: cache_ok_def)

lemma cache_ok_content_call: "cache_ok st \<Longrightarrow> cache_ok (snd (getContent_call t f now st))"
  using contents.ok_get [of "contentCache st" "content_key t" now]
  by (auto simp: getContent_call_def Let_def cache_ok_ttl split: prod.split option.split
      intro!: cache_ok_intros)

lemma cache_ok_status_call: "cache_ok st \<Longrightarrow> cache_ok (snd (getStatus_call t f now st))"
  using statuses.ok_get [of "statusCache st" "status_key t" now]
  by (auto simp: getStatus_call_def Let_def cache_ok_ttl split: prod.split option.split
      intro!: cache_ok_intros)

lemma cache_ok_content_settle: "cache_ok st \<Longrightarrow> cache_ok (getContent_settle p t r now st)"
  by (auto simp: getContent_settle_def Let_def cache_ok_ttl split: sum.split intro!: cache_ok_intros)

lemma cache_ok_status_settle: "cache_ok st \<Longrightarrow> cache_ok (getStatus_settle p t r now st)"
  by (auto simp: getStatus_settle_def Let_def cache_ok_ttl split: sum.split option.split
      intro!: cache_ok_intros)

lemma cache_ok_step: "cache_ok st \<Longrightarrow> cache_ok (cache_step st oper)"
proof (cases oper)
  case (Invalidate t)
  assume "cache_ok st"
  then show ?thesis by (simp add: Invalidate invalidate_def cache_ok_def)
next
  case Clear
  assume "cache_ok st"
  then show ?thesis by (simp add: Clear clear_def cache_ok_def jm_simps)
qed (simp_all add: cache_ok_content_call cache_ok_status_call cache_ok_content_settle
    cache_ok_status_settle)

lemma cache_ok_run: "cache_ok st \<Longrightarrow> cache_ok (cache_run st ops)"
  by (induction ops arbitrary: st) (simp_all add: cache_run_def cache_ok_step)

subsection \<open>A reply that is never dropped\<close>

text \<open>
  The stabilisation branch returns without deleting the pending entry. From then on the key
  maps to a settled promise: \<open>leaked\<close> says so, and every operation but \<open>clear\<close> keeps it.
\<close>

definition leaked :: "nat \<Rightarrow> string \<Rightarrow> torrent_status \<Rightarrow> torrent_cache \<Rightarrow> bool" where
  "leaked p key v st \<longleftrightarrow>
     jm_get (pendingRequests st) key = Some p \<and>
     jm_get (tc_settled st) p = Some (StatusResult (Inr v)) \<and>
     p < tc_nextPromise st \<and>
     (\<forall>k. (p, k) \<notin> set (tc_opens st)) \<and> (\<forall>q. (q, key) \<notin> set (tc_opens st))"

lemma leaked_join: "leaked p key v st \<Longrightarrow> leaked p key v (snd (join_or_start k st))"
  by (auto simp: leaked_def join_or_start_def Let_def jm_simps split: option.split)

lemma leaked_caches:
  "leaked p key v (st\<lparr>contentCache := c\<rparr>) \<longleftrightarrow> leaked p key v st"
  "leaked p key v (st\<lparr>statusCache := c'\<rparr>) \<longleftrightarrow> leaked p key v st"
  by (simp_all add: leaked_def)

lemma leaked_settle: "leaked p key v st \<Longrightarrow> q \<noteq> p \<Longrightarrow> leaked p key v (settle q k r st)"
  by (auto simp: leaked_def jm_simps)

lemma leaked_drop: "leaked p key v st \<Longrightarrow> k \<noteq> key \<Longrightarrow> leaked p key v (drop_pending k st)"
  by (auto simp: leaked_def jm_simps)

lemma leaked_calls:
  assumes "leaked p key v st"
  shows "leaked p key v (snd (getContent_call t f now st))"
    and "leaked p key v (snd (getStatus_call t f now st))"
  using assms
  by (auto simp: getContent_call_def getStatus_call_def Let_def leaked_caches
      split: prod.split option.split intro!: leaked_join)

lemma leaked_settles:
  assumes "leaked p key v st"
  shows "(q, content_key t) \<in> set (tc_opens st) \<Longrightarrow> leaked p key v (getContent_settle q t r now st)"
    and "(q, status_key t) \<in> set (tc_opens st) \<Longrightarrow> leaked p key v (getStatus_settle q t r' now st)"
proof -
  have other: "q \<noteq> p \<and> k \<noteq> key" if "(q, k) \<in> set (tc_opens st)" for k
    using assms that by (auto simp: leaked_def)
  show "leaked p key v (getContent_settle q t r now st)"
    if "(q, content_key t) \<in> set (tc_opens st)"
    using other [OF that] assms
    by (auto simp: getContent_settle_def Let_def leaked_caches split: sum.split
        intro!: leaked_settle leaked_drop)
  show "leaked p key v (getStatus_settle q t r' now st)"
    if "(q, status_key t) \<in> set (tc_opens st)"
    using other [OF that] assms
    by (auto simp: getStatus_settle_def Let_def leaked_caches split: sum.split option.split
        intro!: leaked_settle leaked_drop)
qed

lemma leaked_invalidate: "leaked p key v st \<Longrightarrow> leaked p key v (invalidate t st)"
  by (simp add: leaked_def invalidate_def)

lemma leaked_step: "leaked p key v st \<Longrightarrow> oper \<noteq> Clear \<Longrightarrow> leaked p key v (cache_step st oper)"
  by (cases oper) (simp_all add: leaked_calls leaked_settles leaked_invalidate)

lemma leaked_run:
  "leaked p key v st \<Longrightarrow> Clear \<notin> set ops \<Longrightarrow> leaked p key v (cache_run st ops)"
  by (induction ops arbitrary: st) (auto simp: cache_run_def leaked_step)

lemma leaked_getStatus:
  assumes "leaked p (status_key tid) v st"
  shows "getStatus_call tid True now st = (Joined p, st)"
  using assms by (simp add: leaked_def getStatus_call_def join_or_start_def)

lemma stabilised_leaks:
  assumes "cache_ok st" and "stabilised st (status_key tid) d now = Some old"
    and "jm_get (pendingRequests st) (status_key tid) = Some p"
    and "(p, status_key tid) \<in> set (tc_opens st)"
    and "\<forall>q. (q, status_key tid) \<in> set (tc_opens st) \<longrightarrow> q = p"
  shows "leaked p (status_key tid) old (cache_step st (SettleStatus p tid (Inr d) now))"
proof -
  let ?key = "status_key tid"
  have step: "cache_step st (SettleStatus p tid (Inr d) now) = settle p ?key (StatusResult (Inr old)) st"
    using assms(2,4) by (simp add: getStatus_settle_def)
  have one: "\<And>k. (p, k) \<in> set (tc_opens st) \<Longrightarrow> k = ?key"
    by (rule cache_ok_opens(2) [OF assms(1) assms(4)])
  have a: "p < tc_nextPromise st" by (rule cache_ok_opens(1) [OF assms(1) assms(4)])
  have b: "\<forall>k. (p, k) \<notin> set (filter (\<lambda>q. q \<noteq> (p, ?key)) (tc_opens st))"
    using one by auto
  have c: "\<forall>q. (q, ?key) \<notin> set (filter (\<lambda>q. q \<noteq> (p, ?key)) (tc_opens st))"
    using assms(5) by auto
  show ?thesis
    unfolding step leaked_def settle_simps jm_get_set
    by (intro conjI assms(3) fun_upd_same a b c)
qed

subsection \<open>Properties\<close>

text \<open>
  Property C9: whatever the renderer does with the cache, neither TTL cache ever holds more
  than 200 entries.
\<close>

theorem cache_bounded:
  "fst (getStats (cache_run cache_init ops)) \<le> 200 \<and>
   fst (snd (getStats (cache_run cache_init ops))) \<le> 200"
  using cache_ok_run [OF cache_ok_init, of ops]
  by (simp add: getStats_def cache_ok_def ttl_cache_ok_def MAX_CACHE_SIZE_def)

text \<open>
  Further fact: a status answered from the cache without a request is the stored one and is at
  most 2.5 seconds old; a freshly stored status is answered without a request for exactly
  that long, and after it the call goes to the network (it joins or starts a request).
\<close>

theorem status_ttl:
  "(fst (getStatus_call tid False now st) = Cached d \<longleftrightarrow>
     (\<exists>t. entry_stamp (statusCache st) (status_key tid) = Some (t, d) \<and> now - t \<le> 2500))"
proof
  assume "fst (getStatus_call tid False now st) = Cached d"
  then obtain c where "getCached (statusCache st) (status_key tid) STATUS_TTL now = (Some d, c)"
    by (auto simp: getStatus_call_def join_or_start_def Let_def
        split: prod.splits option.splits)
  from statuses.get_fresh [OF this]
  show "\<exists>t. entry_stamp (statusCache st) (status_key tid) = Some (t, d) \<and> now - t \<le> 2500"
    by (auto simp: STATUS_TTL_def)
next
  assume "\<exists>t. entry_stamp (statusCache st) (status_key tid) = Some (t, d) \<and> now - t \<le> 2500"
  then show "fst (getStatus_call tid False now st) = Cached d"
    by (auto simp: getStatus_call_def Let_def STATUS_TTL_def
        dest!: statuses.get_hit [where now = now])
qed

text \<open>
  Further fact: storing into a full cache evicts one entry, and no entry of the cache is older
  than the evicted one.
\<close>

theorem eviction_oldest:
  assumes "ttl_cache_ok c" and "length c = 200"
  shows "\<exists>k e. jm_get c k = Some e \<and>
      (\<forall>k' e'. jm_get c k' = Some e' \<longrightarrow> ce_timestamp e \<le> ce_timestamp e') \<and>
      setCached c key d etag now =
        jm_set key \<lparr>ce_data = d, ce_timestamp = now, ce_etag = etag\<rparr> (jm_del k c)"
proof -
  from assms(2) have "c \<noteq> []" by auto
  then obtain k where k: "oldest_key c = Some k"
    by (cases "oldest_key c") (auto simp: oldest_key_None)
  from oldest_key_in [OF this] assms(1) have ne: "k \<noteq> []" and "jm_get c k \<noteq> None"
    by (auto simp: ttl_cache_ok_def jm_get_None)
  then obtain e where e: "jm_get c k = Some e" by auto
  have "jm_ok c" using assms(1) by (simp add: ttl_cache_ok_def)
  with oldest_key_minimal [OF k] e
  have "\<forall>k' e'. jm_get c k' = Some e' \<longrightarrow> ce_timestamp e \<le> ce_timestamp e'" by blast
  moreover have "evict c = jm_del k c"
    using k ne assms(2) by (simp add: evict_def MAX_CACHE_SIZE_def)
  ultimately show ?thesis using e by (auto simp: setCached_def)
qed

definition full_cache :: "(string, nat cache_entry) jmap" where
  "full_cache = map (\<lambda>n. (''s'' @ replicate n CHR ''i'',
     \<lparr>ce_data = n, ce_timestamp = int n, ce_etag = None\<rparr>)) [0..<200]"

lemma full_cache_ok: "ttl_cache_ok full_cache" "length full_cache = 200"
  by (auto simp: ttl_cache_ok_def full_cache_def jm_ok_def jm_keys_def MAX_CACHE_SIZE_def
      distinct_map inj_on_def comp_def)

theorem eviction_oldest_witness:
  "\<exists>k e. jm_get full_cache k = Some e \<and>
      (\<forall>k' e'. jm_get full_cache k' = Some e' \<longrightarrow> ce_timestamp e \<le> ce_timestamp e') \<and>
      setCached full_cache ''new'' 7 None 500 =
        jm_set ''new'' \<lparr>ce_data = 7, ce_timestamp = 500, ce_etag = None\<rparr> (jm_del k full_cache)"
  by (rule eviction_oldest [OF full_cache_ok])

text \<open>
  Further fact: once an error report has been replaced by the cached status, every later
  forced refresh of that torrent, after any operations other than \<open>clear\<close> (invalidating
  the torrent included), joins the same settled promise and gets the old status: the error is
  never shown and no request is made for it again.
\<close>

theorem stabilised_reply_sticks:
  assumes "st = cache_run cache_init before"
    and "stabilised st (status_key tid) d now = Some old"
    and "jm_get (pendingRequests st) (status_key tid) = Some p"
    and "(p, status_key tid) \<in> set (tc_opens st)"
    and "\<forall>q. (q, status_key tid) \<in> set (tc_opens st) \<longrightarrow> q = p"
    and "after = cache_run (cache_step st (SettleStatus p tid (Inr d) now)) ops"
    and "Clear \<notin> set ops"
  shows "getStatus_call tid True later after = (Joined p, after) \<and>
         jm_get (tc_settled after) p = Some (StatusResult (Inr old))"
proof -
  have "cache_ok st" using cache_ok_run [OF cache_ok_init] assms(1) by simp
  then have "leaked p (status_key tid) old (cache_step st (SettleStatus p tid (Inr d) now))"
    using assms(2-5) by (rule stabilised_leaks)
  then have l: "leaked p (status_key tid) old after"
    using assms(6,7) by (simp add: leaked_run)
  from leaked_getStatus [OF this] l show ?thesis by (simp add: leaked_def)
qed

definition sample_status :: "torrent_state \<Rightarrow> torrent_status" where
  "sample_status s = \<lparr>ts_id = ''a'', ts_state = s, ts_progress = 1/2, ts_down_rate_bps = 10,
     ts_up_rate_bps = 0, ts_eta_sec = 5, ts_total_bytes = 100, ts_downloaded_bytes = 50,
     ts_peers_seen = 1, ts_error = None\<rparr>"

definition sample_before :: "cache_op list" where
  "sample_before = [CallStatus ''a'' False 0, SettleStatus 0 ''a'' (Inr (sample_status Downloading)) 10,
     CallStatus ''a'' True 100]"

definition sample_later :: "cache_op list" where
  "sample_later = [CallStatus ''a'' False 5000, Invalidate ''a'', CallStatus ''a'' True 90000]"

lemma sample_before_state:
  "cache_run cache_init sample_before =
     \<lparr>contentCache = [],
      statusCache = [(''status:a'', \<lparr>ce_data = sample_status Downloading, ce_timestamp = 10,
                                    ce_etag = None\<rparr>)],
      pendingRequests = [(''status:a'', 1)], tc_nextPromise = 2, tc_opens = [(1, ''status:a'')],
      tc_settled = [(0, StatusResult (Inr (sample_status Downloading)))]\<rparr>"
  by (simp add: cache_run_def sample_before_def cache_init_def getStatus_call_def getCached_def
      join_or_start_def status_key_def jm_get_def getStatus_settle_def stabilised_def settle_def
      drop_pending_def setCached_def evict_def MAX_CACHE_SIZE_def jm_del_def Let_def)

theorem stabilised_reply_sticks_witness:
  "let st = cache_run cache_init sample_before;
       after = cache_run (cache_step st
         (SettleStatus 1 ''a'' (Inr (sample_status ErrorState)) 200)) sample_later in
   getStatus_call ''a'' True 100000 after = (Joined 1, after) \<and>
   jm_get (tc_settled after) 1 = Some (StatusResult (Inr (sample_status Downloading)))"
  unfolding Let_def
  by (rule stabilised_reply_sticks [OF refl _ _ _ _ refl])
    (simp_all add: sample_before_state sample_later_def stabilised_def sample_status_def
      is_active_def status_key_def jm_get_def)

end
