(* ===== verification/TorrentFetcher.thy ===== *)
theory TorrentFetcher
  imports Api TorrentCache
begin

text \<open>
  The fetchers of torrent lists, statuses, row snapshots and contents
  (\<open>renderer/utils/torrentFetcher.ts\<close>): a retry loop with exponential backoff around each
  GET, statuses and contents read through the cache, and the batched fetch of many statuses.

  The four loops are written out as in the source. What they share is the locale
  \<open>retry_loop\<close>, interpreted on each of them. Pauses are logged in the \<open>slept\<close> field of
  the connection, beside those of \<open>fetchWithRetry\<close>.
\<close>

record fetch_options =
  fo_retries :: nat
  fo_retryDelay :: time
  fo_timeout :: time
  fo_forceRefresh :: bool

definition DEFAULT_OPTIONS :: fetch_options where
  "DEFAULT_OPTIONS = \<lparr>fo_retries = 3, fo_retryDelay = 500, fo_timeout = 10000, fo_forceRefresh = False\<rparr>"

record torrent_list_response =
  tl_items :: "torrent list option"

text \<open>
  The test on \<open>AbortError\<close> and \<open>"timed out"\<close> after which a fetcher gives up.
\<close>

definition isTimedOut :: "thrown \<Rightarrow> bool" where
  "isTimedOut t = (case t of
     ThrownError e \<Rightarrow>
       (e_class e = DomExceptionClass \<and> e_name e = ''AbortError'') \<or>
       e_name e = ''AbortError'' \<or> js_includes (e_message e) ''timed out''
   | _ \<Rightarrow> False)"

definition pause :: "time \<Rightarrow> conn \<Rightarrow> conn" where
  "pause d c = c\<lparr>slept := slept c @ [d]\<rparr>"

text \<open>
  \<open>attempt\<close> counts up, \<open>left\<close> is the number of attempts that may still follow. Errors
  that reach the end of the loop are \<open>Error\<close> objects: \<open>getJson\<close> throws nothing else.
\<close>

fun fetchTorrents_loop ::
    "(string \<Rightarrow> thrown + torrent_list_response) \<Rightarrow> (nat \<Rightarrow> attempt) \<Rightarrow> fetch_options
      \<Rightarrow> nat \<Rightarrow> nat \<Rightarrow> conn \<Rightarrow> (thrown + torrent list) \<times> conn" where
  "fetchTorrents_loop parse net opts attempt left c =
     (case getJson parse net ''/torrents'' c of
        (Inr response, c1) \<Rightarrow>
          (Inr (case tl_items response of None \<Rightarrow> [] | Some items \<Rightarrow> items), c1)
      | (Inl error, c1) \<Rightarrow>
          if isClientError error then (Inl error, c1)
          else if isTimedOut error then (Inl error, c1)
          else (case left of
                  0 \<Rightarrow> (Inl error, c1)
                | Suc n \<Rightarrow> fetchTorrents_loop parse net opts (Suc attempt) n
                             (pause (fo_retryDelay opts * 2 ^ attempt) c1)))"

fun fetchTorrentStatus_loop ::
    "(string \<Rightarrow> thrown + torrent_status) \<Rightarrow> (nat \<Rightarrow> attempt) \<Rightarrow> fetch_options \<Rightarrow> string
      \<Rightarrow> nat \<Rightarrow> nat \<Rightarrow> conn \<Rightarrow> (thrown + torrent_status) \<times> conn" where
  "fetchTorrentStatus_loop parse net opts tid attempt left c =
     (case getJson parse net (''/torrents/'' @ tid @ ''/status'') c of
        (Inr status, c1) \<Rightarrow> (Inr status, c1)
      | (Inl error, c1) \<Rightarrow>
          if isClientError error then (Inl error, c1)
          else if isTimedOut error then (Inl error, c1)
          else (case left of
                  0 \<Rightarrow> (Inl error, c1)
                | Suc n \<Rightarrow> fetchTorrentStatus_loop parse net opts tid (Suc attempt) n
                             (pause (fo_retryDelay opts * 2 ^ attempt) c1)))"

text \<open>The row snapshot loop has no test for timeouts: it retries them.\<close>

fun fetchRowSnapshot_loop ::
    "(string \<Rightarrow> thrown + torrent_row_snapshot) \<Rightarrow> (nat \<Rightarrow> attempt) \<Rightarrow> fetch_options \<Rightarrow> string
      \<Rightarrow> nat \<Rightarrow> nat \<Rightarrow> conn \<Rightarrow> (thrown + torrent_row_snapshot) \<times> conn" where
  "fetchRowSnapshot_loop parse net opts tid attempt left c =
     (case getJson parse net (''/torrents/'' @ tid @ ''/row-snapshot'') c of
        (Inr snapshot, c1) \<Rightarrow> (Inr snapshot, c1)
      | (Inl error, c1) \<Rightarrow>
          if isClientError error then (Inl error, c1)
          else (case left of
                  0 \<Rightarrow> (Inl error, c1)
                | Suc n \<Rightarrow> fetchRowSnapshot_loop parse net opts tid (Suc attempt) n
                             (pause (fo_retryDelay opts * 2 ^ attempt) c1)))"

text \<open>The content loop counts \<open>retryCount\<close> before it computes the pause.\<close>

fun fetchTorrentContent_loop ::
    "(string \<Rightarrow> thrown + torrent_content) \<Rightarrow> (nat \<Rightarrow> attempt) \<Rightarrow> fetch_options \<Rightarrow> string
      \<Rightarrow> nat \<Rightarrow> nat \<Rightarrow> conn \<Rightarrow> (thrown + torrent_content) \<times> conn" where
  "fetchTorrentContent_loop parse net opts tid retryCount left c =
     (case getJson parse net (''/torrents/'' @ tid @ ''/content'') c of
        (Inr content, c1) \<Rightarrow> (Inr content, c1)
      | (Inl error, c1) \<Rightarrow>
          if isClientError error then (Inl error, c1)
          else if isTimedOut error then (Inl error, c1)
          else (case left of
                  0 \<Rightarrow> (Inl error, c1)
                | Suc n \<Rightarrow> fetchTorrentContent_loop parse net opts tid (Suc retryCount) n
                             (pause (fo_retryDelay opts * 2 ^ Suc retryCount) c1)))"

declare fetchTorrents_loop.simps [simp del] fetchTorrentStatus_loop.simps [simp del]
  fetchRowSnapshot_loop.simps [simp del] fetchTorrentContent_loop.simps [simp del]

definition fetchTorrents ::
    "(string \<Rightarrow> thrown + torrent_list_response) \<Rightarrow> (nat \<Rightarrow> attempt) \<Rightarrow> fetch_options \<Rightarrow> conn
      \<Rightarrow> (thrown + torrent list) \<times> conn" where
  "fetchTorrents parse net opts c = fetchTorrents_loop parse net opts 0 (fo_retries opts) c"

definition fetchRowSnapshot ::
    "(string \<Rightarrow> thrown + torrent_row_snapshot) \<Rightarrow> (nat \<Rightarrow> attempt) \<Rightarrow> fetch_options \<Rightarrow> string \<Rightarrow> conn
      \<Rightarrow> (thrown + torrent_row_snapshot) \<times> conn" where
  "fetchRowSnapshot parse net opts tid c = fetchRowSnapshot_loop parse net opts tid 0 (fo_retries opts) c"

text \<open>
  A status or content fetch that is not overlapped by another operation on the cache: the
  call at \<open>t0\<close>, the fetcher's loop when the call starts one, its settlement at \<open>t1\<close>. The
  result is \<open>None\<close> when the caller joined a promise that has not settled.
\<close>

definition fetchTorrentStatus ::
    "(string \<Rightarrow> thrown + torrent_status) \<Rightarrow> (nat \<Rightarrow> attempt) \<Rightarrow> fetch_options \<Rightarrow> string
      \<Rightarrow> time \<Rightarrow> time \<Rightarrow> conn \<times> torrent_cache \<Rightarrow> settled option \<times> conn \<times> torrent_cache" where
  "fetchTorrentStatus parse net opts tid t0 t1 cs = (case cs of (c, st) \<Rightarrow>
     (case getStatus_call tid (fo_forceRefresh opts) t0 st of
        (Cached d, st1) \<Rightarrow> (Some (StatusResult (Inr d)), c, st1)
      | (Joined p, st1) \<Rightarrow> (jm_get (tc_settled st1) p, c, st1)
      | (Started p, st1) \<Rightarrow>
          (let (r, c1) = fetchTorrentStatus_loop parse net opts tid 0 (fo_retries opts) c;
               st2 = getStatus_settle p tid r t1 st1 in
           (jm_get (tc_settled st2) p, c1, st2))))"

definition fetchTorrentContent ::
    "(string \<Rightarrow> thrown + torrent_content) \<Rightarrow> (nat \<Rightarrow> attempt) \<Rightarrow> fetch_options \<Rightarrow> string
      \<Rightarrow> time \<Rightarrow> time \<Rightarrow> conn \<times> torrent_cache \<Rightarrow> settled option \<times> conn \<times> torrent_cache" where
  "fetchTorrentContent parse net opts tid t0 t1 cs = (case cs of (c, st) \<Rightarrow>
     (case getContent_call tid (fo_forceRefresh opts) t0 st of
        (Cached d, st1) \<Rightarrow> (Some (ContentResult (Inr d)), c, st1)
      | (Joined p, st1) \<Rightarrow> (jm_get (tc_settled st1) p, c, st1)
      | (Started p, st1) \<Rightarrow>
          (let (r, c1) = fetchTorrentContent_loop parse net opts tid 0 (fo_retries opts) c;
               st2 = getContent_settle p tid r t1 st1 in
           (jm_get (tc_settled st2) p, c1, st2))))"

definition invalidateTorrentCache :: "string \<Rightarrow> torrent_cache \<Rightarrow> torrent_cache" where
  "invalidateTorrentCache = invalidate"

definition clearTorrentCache :: "torrent_cache \<Rightarrow> torrent_cache" where
  "clearTorrentCache = clear"

subsection \<open>Many statuses\<close>

text \<open>
  The statuses of a batch are fetched in parallel and joined with \<open>Promise.all\<close>; what the
  fetch at each position of the id list settles to is the parameter \<open>reply\<close>. The result is
  the map and the log of pauses between batches.
\<close>

definition BATCH_SIZE :: nat where "BATCH_SIZE = 25"

definition store_results ::
    "(string \<times> torrent_status) option list \<Rightarrow> (string, torrent_status) jmap
      \<Rightarrow> (string, torrent_status) jmap" where
  "store_results batchResults results =
     fold (\<lambda>r m. case r of None \<Rightarrow> m | Some (k, s) \<Rightarrow> jm_set k s m) batchResults results"

definition batch_promise ::
    "(nat \<Rightarrow> string \<Rightarrow> thrown + torrent_status) \<Rightarrow> nat \<Rightarrow> string \<Rightarrow> (string \<times> torrent_status) option" where
  "batch_promise reply i tid = (case reply i tid of Inr status \<Rightarrow> Some (tid, status) | Inl _ \<Rightarrow> None)"

function fetchTorrentStatuses_loop ::
    "(nat \<Rightarrow> string \<Rightarrow> thrown + torrent_status) \<Rightarrow> string list \<Rightarrow> nat
      \<Rightarrow> (string, torrent_status) jmap \<times> time list \<Rightarrow> (string, torrent_status) jmap \<times> time list" where
  "fetchTorrentStatuses_loop reply torrentIds i acc =
     (if i < length torrentIds then
        (let batch = take BATCH_SIZE (drop i torrentIds);
             batchResults = map (\<lambda>(j, tid). batch_promise reply (i + j) tid) (enumerate 0 batch);
             results = store_results batchResults (fst acc);
             waits = (if i + BATCH_SIZE < length torrentIds then snd acc @ [25] else snd acc) in
         fetchTorrentStatuses_loop reply torrentIds (i + BATCH_SIZE) (results, waits))
      else acc)"
  by pat_completeness auto
termination
  by (relation "measure (\<lambda>(reply, torrentIds, i, acc). length torrentIds - i)")
    (auto simp: BATCH_SIZE_def)

declare fetchTorrentStatuses_loop.simps [simp del]

definition fetchTorrentStatuses ::
    "(nat \<Rightarrow> string \<Rightarrow> thrown + torrent_status) \<Rightarrow> string list
      \<Rightarrow> (string, torrent_status) jmap \<times> time list" where
  "fetchTorrentStatuses reply torrentIds = fetchTorrentStatuses_loop reply torrentIds 0 ([], [])"

subsection \<open>What the four loops share\<close>

lemma pause_simps [simp]:
  "sent (pause d c) = sent c" "slept (pause d c) = slept c @ [d]"
  "connectionState (pause d c) = connectionState c"
  by (simp_all add: pause_def)

lemma getJson_sent:
  "\<exists>n \<le> 2. sent (snd (getJson parse net path c)) =
     sent c @ replicate (Suc n) \<lparr>rq_method = ''GET'', rq_path = DAEMON_BASE @ path,
       rq_body = None, rq_timeout = 10000\<rparr>"
proof -
  have "default_timeout ''GET'' None = 10000" by (simp add: default_timeout_def)
  then show ?thesis
    using fetchWithRetry_trace [of MAX_RETRIES net "\<lparr>rq_method = ''GET'', rq_path = DAEMON_BASE @ path,
       rq_body = None, rq_timeout = 10000\<rparr>" c]
    unfolding getJson_def finish_json_snd MAX_RETRIES_def by auto
qed

lemma getJson_fail_api: "fst (getJson parse net path c) = Inl e \<Longrightarrow> isApiError e"
  unfolding getJson_def by (rule finish_json_api)

text \<open>
  The contract of a fetcher's loop: one step calls \<open>call\<close>, gives up on errors \<open>stop\<close>
  selects, and otherwise pauses and goes on while attempts are left. One call sends the
  same request at most \<open>k + 1\<close> times.
\<close>

locale retry_loop =
  fixes call :: "conn \<Rightarrow> (thrown + 'b) \<times> conn"
    and stop :: "thrown \<Rightarrow> bool"
    and delay :: "nat \<Rightarrow> time"
    and result :: "'b \<Rightarrow> 'a"
    and loop :: "nat \<Rightarrow> nat \<Rightarrow> conn \<Rightarrow> (thrown + 'a) \<times> conn"
    and rq :: request
    and k :: nat
  assumes loop_eq: "loop i left c = (case call c of
        (Inr v, c1) \<Rightarrow> (Inr (result v), c1)
      | (Inl e, c1) \<Rightarrow> if stop e then (Inl e, c1)
          else (case left of 0 \<Rightarrow> (Inl e, c1) | Suc n \<Rightarrow> loop (Suc i) n (pause (delay i) c1)))"
    and call_sent: "\<exists>n \<le> k. sent (snd (call c)) = sent c @ replicate (Suc n) rq"
begin

lemma loop_stop: "fst (call c) = Inl e \<Longrightarrow> stop e \<Longrightarrow> loop i left c = (Inl e, snd (call c))"
  by (subst loop_eq) (auto split: prod.split)

lemma loop_value: "fst (call c) = Inr v \<Longrightarrow> loop i left c = (Inr (result v), snd (call c))"
  by (subst loop_eq) (auto split: prod.split)

lemma loop_again:
  "fst (call c) = Inl e \<Longrightarrow> \<not> stop e \<Longrightarrow>
   loop i (Suc n) c = loop (Suc i) n (pause (delay i) (snd (call c)))"
  by (subst loop_eq) (auto split: prod.split)

lemma loop_last:
  "fst (call c) = Inl e \<Longrightarrow> \<not> stop e \<Longrightarrow> loop i 0 c = (Inl e, snd (call c))"
  by (subst loop_eq) (auto split: prod.split)

lemma loop_cases:
  obtains (got) v where "fst (call c) = Inr v" "loop i left c = (Inr (result v), snd (call c))"
  | (gave_up) e where "fst (call c) = Inl e" "loop i left c = (Inl e, snd (call c))" "stop e \<or> left = 0"
  | (again) e n where "fst (call c) = Inl e" "\<not> stop e" "left = Suc n"
      "loop i left c = loop (Suc i) n (pause (delay i) (snd (call c)))"
proof (cases "fst (call c)")
  case (Inr v)
  with loop_value [of c] that(1) show ?thesis by simp
next
  case (Inl e)
  show ?thesis
  proof (cases "stop e")
    case True
    with Inl loop_stop [of c e i left] that(2) show ?thesis by simp
  next
    case False
    then show ?thesis
      using Inl that(2,3) loop_last loop_again by (cases left) blast+
  qed
qed

text \<open>A run of the loop sends the one request, at most \<open>(left + 1) * (k + 1)\<close> times.\<close>

lemma loop_sent:
  "\<exists>n < Suc left * Suc k. sent (snd (loop i left c)) = sent c @ replicate (Suc n) rq"
proof (induction left arbitrary: i c)
  case 0
  obtain n where n: "n \<le> k" "sent (snd (call c)) = sent c @ replicate (Suc n) rq"
    using call_sent by blast
  have "snd (loop i 0 c) = snd (call c)"
    by (cases rule: loop_cases [of c i 0]) auto
  with n show ?case by (intro exI [of _ n]) simp
next
  case (Suc left)
  obtain n where n: "n \<le> k" "sent (snd (call c)) = sent c @ replicate (Suc n) rq"
    using call_sent by blast
  show ?case
  proof (cases rule: loop_cases [of c i "Suc left"])
    case (again e m)
    obtain j where j: "j < Suc left * Suc k"
      "sent (snd (loop (Suc i) left (pause (delay i) (snd (call c))))) =
         sent (pause (delay i) (snd (call c))) @ replicate (Suc j) rq"
      using Suc.IH by blast
    have "replicate (Suc n) rq @ replicate (Suc j) rq = replicate (Suc (Suc n + j)) rq"
      using replicate_add [of "Suc n" "Suc j" rq] by (simp only: add_Suc_right)
    with again n j show ?thesis
      by (intro exI [of _ "Suc n + j"]) (simp del: replicate_Suc)
  qed (use n in \<open>auto intro!: exI [of _ n] simp del: replicate_Suc\<close>)
qed

text \<open>What the loop throws is what its last call threw.\<close>

lemma loop_error: "fst (loop i left c) = Inl e \<Longrightarrow> \<exists>d. fst (call d) = Inl e"
proof (induction left arbitrary: i c)
  case 0
  then show ?case by (cases rule: loop_cases [of c i 0]) auto
next
  case (Suc left)
  then show ?case by (cases rule: loop_cases [of c i "Suc left"]) auto
qed

end

interpretation torrents: retry_loop
  "getJson parse net ''/torrents''" "\<lambda>e. isClientError e \<or> isTimedOut e"
  "\<lambda>i. fo_retryDelay opts * 2 ^ i"
  "\<lambda>response. case tl_items response of None \<Rightarrow> [] | Some items \<Rightarrow> items"
  "fetchTorrents_loop parse net opts"
  "\<lparr>rq_method = ''GET'', rq_path = DAEMON_BASE @ ''/torrents'', rq_body = None, rq_timeout = 10000\<rparr>" 2
  for parse net opts
  by unfold_locales
    (rule fetchTorrents_loop.simps [THEN trans], (auto split: prod.split sum.split nat.split)[1], rule getJson_sent)

interpretation status: retry_loop
  "getJson parse net (''/torrents/'' @ tid @ ''/status'')" "\<lambda>e. isClientError e \<or> isTimedOut e"
  "\<lambda>i. fo_retryDelay opts * 2 ^ i" "\<lambda>s. s" "fetchTorrentStatus_loop parse net opts tid"
  "\<lparr>rq_method = ''GET'', rq_path = DAEMON_BASE @ ''/torrents/'' @ tid @ ''/status'',
    rq_body = None, rq_timeout = 10000\<rparr>" 2
  for parse net opts tid
  by unfold_locales
    (rule fetchTorrentStatus_loop.simps [THEN trans], (auto split: prod.split sum.split nat.split)[1], rule getJson_sent)

interpretation snapshot: retry_loop
  "getJson parse net (''/torrents/'' @ tid @ ''/row-snapshot'')" isClientError
  "\<lambda>i. fo_retryDelay opts * 2 ^ i" "\<lambda>s. s" "fetchRowSnapshot_loop parse net opts tid"
  "\<lparr>rq_method = ''GET'', rq_path = DAEMON_BASE @ ''/torrents/'' @ tid @ ''/row-snapshot'',
    rq_body = None, rq_timeout = 10000\<rparr>" 2
  for parse net opts tid
  by unfold_locales
    (rule fetchRowSnapshot_loop.simps [THEN trans], (auto split: prod.split sum.split nat.split)[1], rule getJson_sent)

interpretation content: retry_loop
  "getJson parse net (''/torrents/'' @ tid @ ''/content'')" "\<lambda>e. isClientError e \<or> isTimedOut e"
  "\<lambda>i. fo_retryDelay opts * 2 ^ Suc i" "\<lambda>s. s" "fetchTorrentContent_loop parse net opts tid"
  "\<lparr>rq_method = ''GET'', rq_path = DAEMON_BASE @ ''/torrents/'' @ tid @ ''/content'',
    rq_body = None, rq_timeout = 10000\<rparr>" 2
  for parse net opts tid
  by unfold_locales
    (rule fetchTorrentContent_loop.simps [THEN trans], (auto split: prod.split sum.split nat.split)[1], rule getJson_sent)

subsection \<open>A daemon that answers 4xx, and one that never answers\<close>

lemma getJson_client_error:
  assumes "at_result (net (length (sent c))) = Inr r" and "400 \<le> r_status r" and "r_status r < 500"
  shows "fst (getJson parse net path c) = Inl (http_failure r)"
    and "sent (snd (getJson parse net path c)) =
      sent c @ [\<lparr>rq_method = ''GET'', rq_path = DAEMON_BASE @ path, rq_body = None, rq_timeout = 10000\<rparr>]"
    and "isClientError (http_failure r)"
proof -
  let ?rq = "\<lparr>rq_method = ''GET'', rq_path = DAEMON_BASE @ path, rq_body = None, rq_timeout = 10000\<rparr>"
  have "fetchWithRetry net ?rq MAX_RETRIES c =
      (Inr r, (begin_attempt (at_now (net (length (sent c)))) ?rq c)\<lparr>connectionState := Connected\<rparr>)"
    using assms(1) by (subst fetchWithRetry.simps) (simp add: Let_def)
  moreover have "\<not> r_ok r" using assms by (simp add: r_ok_def)
  moreover have "wrap_error (http_failure r) = http_failure r"
    by (simp add: wrap_error_def http_failure_def Let_def)
  ultimately show "fst (getJson parse net path c) = Inl (http_failure r)"
    "sent (snd (getJson parse net path c)) = sent c @ [?rq]"
    by (simp_all add: getJson_def finish_json_def default_timeout_def)
  show "isClientError (http_failure r)"
    using assms by (simp add: http_failure_def Let_def isClientError_create)
qed

definition silent_net :: "(nat \<Rightarrow> attempt) \<Rightarrow> bool" where
  "silent_net net \<longleftrightarrow>
     (\<forall>n. at_wasAborted (net n) \<and> (\<exists>e. at_result (net n) = Inl e \<and> isAbortError e))"

abbreviation timeout_error :: "time \<Rightarrow> thrown" where
  "timeout_error t \<equiv> createApiError (timeout_message t) None None True"

lemma silent_fetchWithRetry:
  assumes "silent_net net"
  shows "fst (fetchWithRetry net rq n c) = Inl (timeout_error (rq_timeout rq)) \<and>
         sent (snd (fetchWithRetry net rq n c)) = sent c @ replicate (Suc n) rq"
proof (induction n arbitrary: c)
  case 0
  obtain e where "at_wasAborted (net (length (sent c)))" "at_result (net (length (sent c))) = Inl e"
      "isAbortError e" using assms unfolding silent_net_def by blast
  then show ?case by (subst (1 2) fetchWithRetry.simps) (simp add: Let_def)
next
  case (Suc n)
  obtain e where "at_wasAborted (net (length (sent c)))" "at_result (net (length (sent c))) = Inl e"
      "isAbortError e" using assms unfolding silent_net_def by blast
  then show ?case by (subst (1 2) fetchWithRetry.simps) (simp add: Let_def Suc.IH)
qed

lemma silent_getJson:
  assumes "silent_net net"
  shows "fst (getJson parse net path c) = Inl (timeout_error 10000)"
    and "sent (snd (getJson parse net path c)) = sent c @
      replicate 3 \<lparr>rq_method = ''GET'', rq_path = DAEMON_BASE @ path, rq_body = None, rq_timeout = 10000\<rparr>"
proof -
  let ?rq = "\<lparr>rq_method = ''GET'', rq_path = DAEMON_BASE @ path, rq_body = None, rq_timeout = 10000\<rparr>"
  have d: "default_timeout ''GET'' None = 10000" by (simp add: default_timeout_def)
  have w: "wrap_error (timeout_error t) = timeout_error t" for t by (simp add: wrap_error_def)
  note f = silent_fetchWithRetry [OF assms, of ?rq MAX_RETRIES c]
  show "sent (snd (getJson parse net path c)) = sent c @ replicate 3 ?rq"
    unfolding getJson_def finish_json_snd d
    using f by (simp add: MAX_RETRIES_def eval_nat_numeral del: replicate_Suc)
  obtain d where "fetchWithRetry net ?rq MAX_RETRIES c = (Inl (timeout_error 10000), d)"
    using f by (cases "fetchWithRetry net ?rq MAX_RETRIES c") simp
  then show "fst (getJson parse net path c) = Inl (timeout_error 10000)"
    unfolding getJson_def d by (simp add: finish_json_def w)
qed

lemma timeout_error_class:
  "isTimedOut (timeout_error t)" "\<not> isClientError (timeout_error t)"
proof -
  have "js_includes (''Request '' @ ''timed out'' @ x) ''timed out''" for x by blast
  then show "isTimedOut (timeout_error t)"
    by (simp add: isTimedOut_def createApiError_def timeout_message_def)
qed (simp add: isClientError_create)

text \<open>On a silent daemon the row snapshot loop uses up every attempt.\<close>

lemma silent_snapshot:
  assumes "silent_net net"
  shows "sent (snd (fetchRowSnapshot_loop parse net opts tid i left c)) = sent c @
    replicate (3 * Suc left) \<lparr>rq_method = ''GET'', rq_path = DAEMON_BASE @ ''/torrents/'' @ tid @ ''/row-snapshot'',
      rq_body = None, rq_timeout = 10000\<rparr>"
proof (induction left arbitrary: i c)
  case 0
  show ?case
    by (subst fetchRowSnapshot_loop.simps)
      (use silent_getJson [OF assms, of parse "''/torrents/'' @ tid @ ''/row-snapshot''" c]
        in \<open>auto simp: timeout_error_class split: prod.split\<close>)
next
  case (Suc left)
  let ?rq = "\<lparr>rq_method = ''GET'', rq_path = DAEMON_BASE @ ''/torrents/'' @ tid @ ''/row-snapshot'',
      rq_body = None, rq_timeout = 10000\<rparr>"
  note g = silent_getJson [OF assms, of parse "''/torrents/'' @ tid @ ''/row-snapshot''" c]
  have "replicate (3 * Suc (Suc left)) ?rq = replicate 3 ?rq @ replicate (3 * Suc left) ?rq"
    by (simp add: replicate_add [symmetric] del: replicate_Suc)
  then show ?case
    unfolding snapshot.loop_again [OF g(1) timeout_error_class(2)] Suc.IH
    by (simp only: pause_simps g(2) append_assoc)
qed

subsection \<open>Batches\<close>

definition position_results ::
    "(nat \<Rightarrow> string \<Rightarrow> thrown + torrent_status) \<Rightarrow> string list \<Rightarrow> nat \<Rightarrow> nat
      \<Rightarrow> (string \<times> torrent_status) option list" where
  "position_results reply ids i j = map (\<lambda>n. batch_promise reply n (ids ! n)) [i..<j]"

lemma store_results_append:
  "store_results (xs @ ys) m = store_results ys (store_results xs m)"
  by (simp add: store_results_def)

lemma batch_positions:
  "map (\<lambda>(j, tid). batch_promise reply (i + j) tid) (enumerate 0 (take n (drop i ids))) =
     position_results reply ids i (min (i + n) (length ids))"
proof (rule nth_equalityI)
  fix j
  assume "j < length (map (\<lambda>(j, tid). batch_promise reply (i + j) tid) (enumerate 0 (take n (drop i ids))))"
  then have j: "j < n" "j < length ids - i" by simp_all
  then have "i + j < min (i + n) (length ids)" by simp
  then have "[i..<min (i + n) (length ids)] ! j = i + j" by (rule nth_upt)
  with j show "map (\<lambda>(j, tid). batch_promise reply (i + j) tid) (enumerate 0 (take n (drop i ids))) ! j =
      position_results reply ids i (min (i + n) (length ids)) ! j"
    by (simp add: position_results_def nth_enumerate_eq)
qed (simp add: position_results_def min_def, arith)

lemma position_results_split:
  "i \<le> j \<Longrightarrow> j \<le> k \<Longrightarrow>
   position_results reply ids i j @ position_results reply ids j k = position_results reply ids i k"
  using upt_add_eq_append [of i j "k - j"]
  by (simp add: position_results_def)

lemma fetchTorrentStatuses_loop_eq:
  "fetchTorrentStatuses_loop reply ids i acc =
     (store_results (position_results reply ids i (length ids)) (fst acc),
      snd acc @ replicate ((length ids - 1 - i) div 25) 25)"
proof (induction reply ids i acc rule: fetchTorrentStatuses_loop.induct)
  case (1 reply ids i acc)
  show ?case
  proof (cases "i < length ids")
    case True
    let ?m = "store_results (position_results reply ids i (min (i + BATCH_SIZE) (length ids))) (fst acc)"
    let ?w = "if i + BATCH_SIZE < length ids then snd acc @ [25] else snd acc"
    have "fetchTorrentStatuses_loop reply ids i acc =
        fetchTorrentStatuses_loop reply ids (i + BATCH_SIZE) (?m, ?w)"
      using True by (subst fetchTorrentStatuses_loop.simps) (simp only: Let_def batch_positions if_True)
    also have "\<dots> = (store_results (position_results reply ids (i + BATCH_SIZE) (length ids)) ?m,
        ?w @ replicate ((length ids - 1 - (i + BATCH_SIZE)) div 25) 25)"
      using "1.IH" [OF True refl refl refl refl] True by (simp only: batch_positions fst_conv snd_conv)
    also have "store_results (position_results reply ids (i + BATCH_SIZE) (length ids)) ?m =
        store_results (position_results reply ids i (length ids)) (fst acc)"
      using True by (cases "i + BATCH_SIZE \<le> length ids")
        (simp_all add: store_results_append [symmetric] position_results_split min_def,
         simp add: position_results_def store_results_def)
    also have "?w @ replicate ((length ids - 1 - (i + BATCH_SIZE)) div 25) 25 =
        snd acc @ replicate ((length ids - 1 - i) div 25) 25"
    proof (cases "i + BATCH_SIZE < length ids")
      case True
      then have "length ids - 1 - i = (length ids - 1 - (i + BATCH_SIZE)) + 25"
        by (simp add: BATCH_SIZE_def)
      then have "(length ids - 1 - i) div 25 = Suc ((length ids - 1 - (i + BATCH_SIZE)) div 25)"
        by simp
      with True show ?thesis by simp
    next
      case False
      then have "length ids - 1 - i < 25" by (simp add: BATCH_SIZE_def)
      with False show ?thesis by simp
    qed
    finally show ?thesis .
  qed (subst fetchTorrentStatuses_loop.simps,
       simp add: position_results_def store_results_def)
qed

lemma store_results_lookup:
  "jm_get (store_results (position_results reply ids 0 n) []) tid = Some s \<longleftrightarrow>
     (\<exists>i < n. ids ! i = tid \<and> reply i tid = Inr s \<and>
        (\<forall>j. i < j \<and> j < n \<and> ids ! j = tid \<longrightarrow> isl (reply j tid)))"
proof (induction n)
  case 0
  show ?case by (simp add: position_results_def store_results_def jm_simps)
next
  case (Suc n)
  let ?F = "\<lambda>n. store_results (position_results reply ids 0 n) []"
  have step: "?F (Suc n) = (case reply n (ids ! n) of Inr v \<Rightarrow> jm_set (ids ! n) v (?F n) | Inl _ \<Rightarrow> ?F n)"
    by (simp add: position_results_def store_results_def batch_promise_def split: sum.split)
  show ?case
  proof (cases "ids ! n = tid \<and> \<not> isl (reply n tid)")
    case True
    then obtain v where "reply n tid = Inr v" by (cases "reply n tid") auto
    with True show ?thesis unfolding step by (auto simp: jm_simps less_Suc_eq)
  next
    case False
    then have same: "jm_get (?F (Suc n)) tid = jm_get (?F n) tid"
      unfolding step by (auto simp: jm_simps split: sum.split)
    have later: "(\<forall>j. i < j \<and> j < Suc n \<and> ids ! j = tid \<longrightarrow> isl (reply j tid)) \<longleftrightarrow>
        (\<forall>j. i < j \<and> j < n \<and> ids ! j = tid \<longrightarrow> isl (reply j tid))" for i
      using False less_Suc_eq by auto
    have "\<not> (ids ! n = tid \<and> reply n tid = Inr s)" using False by auto
    then show ?thesis
      unfolding same Suc.IH later using less_Suc_eq by blast
  qed
qed

subsection \<open>Properties\<close>

text \<open>
  Further fact: one fetch of the torrent list repeats the one GET request at most
  \<open>3 * (retries + 1)\<close> times (each of its attempts is retried twice below), and what it
  throws is an \<open>ApiError\<close>.
\<close>

theorem fetch_torrents_bounded:
  "(\<exists>n < 3 * Suc (fo_retries opts).
      sent (snd (fetchTorrents parse net opts c)) = sent c @
        replicate (Suc n) \<lparr>rq_method = ''GET'', rq_path = DAEMON_BASE @ ''/torrents'', rq_body = None,
                            rq_timeout = 10000\<rparr>) \<and>
   (fst (fetchTorrents parse net opts c) = Inl e \<longrightarrow> isApiError e)"
proof
  show "\<exists>n < 3 * Suc (fo_retries opts).
      sent (snd (fetchTorrents parse net opts c)) = sent c @
        replicate (Suc n) \<lparr>rq_method = ''GET'', rq_path = DAEMON_BASE @ ''/torrents'', rq_body = None,
                            rq_timeout = 10000\<rparr>"
    using torrents.loop_sent [of "fo_retries opts" parse net opts 0 c]
    unfolding fetchTorrents_def by (simp add: mult.commute del: replicate_Suc)
  show "fst (fetchTorrents parse net opts c) = Inl e \<longrightarrow> isApiError e"
    unfolding fetchTorrents_def
    using torrents.loop_error [of parse net opts 0 "fo_retries opts" c e] getJson_fail_api by blast
qed

definition refused_net :: "nat \<Rightarrow> attempt" where
  "refused_net n = \<lparr>at_now = int n, at_wasAborted = False, at_result =
     Inl (ThrownError \<lparr>e_class = TypeErrorClass, e_name = ''TypeError'',
                       e_message = ''Failed to fetch'', e_api = None\<rparr>)\<rparr>"

definition one_try :: fetch_options where
  "one_try = DEFAULT_OPTIONS\<lparr>fo_retries := 0\<rparr>"

theorem fetch_torrents_bounded_witness:
  "isApiError (createApiError ''Connection failed. Is the daemon running?'' None None True)"
proof -
  let ?parse = "\<lambda>s :: string. (Inl ThrownOther :: thrown + torrent_list_response)"
  have "fst (fetchTorrents ?parse refused_net one_try conn_init) =
      Inl (createApiError ''Connection failed. Is the daemon running?'' None None True)"
    by (simp add: fetchTorrents_def fetchTorrents_loop.simps one_try_def DEFAULT_OPTIONS_def
        getJson_def finish_json_def fetchWithRetry.simps refused_net_def conn_init_def Let_def
        begin_attempt_def backoff_def isAbortError_def isRetryableError_def isFetchTypeError_def
        js_simps wrap_error_def MAX_RETRIES_def numeral_2_eq_2)
  with fetch_torrents_bounded [of one_try ?parse refused_net conn_init
      "createApiError ''Connection failed. Is the daemon running?'' None None True"]
  show ?thesis by blast
qed

text \<open>
  Further fact: a 4xx answer ends every fetcher at once: exactly one request is sent, and the
  error that carries the status is thrown unchanged.
\<close>

theorem client_error_one_request:
  assumes "at_result (net (length (sent c))) = Inr r" and "400 \<le> r_status r" and "r_status r < 500"
  shows "(\<exists>c1. fetchTorrents pt net opts c = (Inl (http_failure r), c1) \<and>
            length (sent c1) = Suc (length (sent c))) \<and>
         (\<exists>c1. fetchRowSnapshot pr net opts tid c = (Inl (http_failure r), c1) \<and>
            length (sent c1) = Suc (length (sent c))) \<and>
         (\<exists>c1. fetchTorrentStatus_loop ps net opts tid 0 (fo_retries opts) c = (Inl (http_failure r), c1) \<and>
            length (sent c1) = Suc (length (sent c))) \<and>
         (\<exists>c1. fetchTorrentContent_loop pc net opts tid 0 (fo_retries opts) c = (Inl (http_failure r), c1) \<and>
            length (sent c1) = Suc (length (sent c)))"
  unfolding fetchTorrents_def fetchRowSnapshot_def
  by (simp add: getJson_client_error [of net c r, OF assms] torrents.loop_stop [where e = "http_failure r"]
      snapshot.loop_stop [where e = "http_failure r"] status.loop_stop [where e = "http_failure r"]
      content.loop_stop [where e = "http_failure r"])

definition not_found :: response where
  "not_found = \<lparr>r_status = 404, r_statusText = ''Not Found'', r_text = Inr ''no such torrent''\<rparr>"

theorem client_error_one_request_witness:
  "\<exists>c1. fetchTorrents (\<lambda>_. Inl ThrownOther)
      (\<lambda>_. \<lparr>at_now = 0, at_wasAborted = False, at_result = Inr not_found\<rparr>) DEFAULT_OPTIONS conn_init =
        (Inl (http_failure not_found), c1) \<and> length (sent c1) = Suc (length (sent conn_init))"
  by (rule client_error_one_request [THEN conjunct1]) (simp_all add: not_found_def)

text \<open>
  Further fact: when the daemon never answers, the list fetcher stops after the three requests
  of one attempt, since it does not retry a timeout again; the row snapshot fetcher, which
  lacks that test, sends three requests for each of its \<open>retries + 1\<close> attempts.
\<close>

theorem timeouts_multiply_for_snapshots:
  assumes "silent_net net"
  shows "length (sent (snd (fetchTorrents pt net opts c))) = length (sent c) + 3 \<and>
         length (sent (snd (fetchRowSnapshot pr net opts tid c))) =
           length (sent c) + 3 * (fo_retries opts + 1)"
proof
  note g = silent_getJson [OF assms, of pt "''/torrents''" c]
  show "length (sent (snd (fetchTorrents pt net opts c))) = length (sent c) + 3"
    unfolding fetchTorrents_def
    using torrents.loop_stop [OF g(1) disjI2 [OF timeout_error_class(1)]] g(2) by simp
  show "length (sent (snd (fetchRowSnapshot pr net opts tid c))) =
      length (sent c) + 3 * (fo_retries opts + 1)"
    unfolding fetchRowSnapshot_def silent_snapshot [OF assms] by simp
qed

definition dead_net :: "nat \<Rightarrow> attempt" where
  "dead_net n = \<lparr>at_now = int n, at_wasAborted = True, at_result =
     Inl (ThrownError \<lparr>e_class = DomExceptionClass, e_name = ''AbortError'',
                       e_message = ''signal is aborted'', e_api = None\<rparr>)\<rparr>"

theorem timeouts_multiply_for_snapshots_witness:
  "length (sent (snd (fetchRowSnapshot (\<lambda>_. Inl ThrownOther) dead_net DEFAULT_OPTIONS ''a'' conn_init))) = 12"
proof -
  have "silent_net dead_net" by (simp add: silent_net_def dead_net_def isAbortError_def)
  from timeouts_multiply_for_snapshots [OF this, of "\<lambda>_. Inl ThrownOther" DEFAULT_OPTIONS conn_init
      "\<lambda>_. Inl ThrownOther" "''a''"]
  show ?thesis by (simp add: DEFAULT_OPTIONS_def conn_init_def)
qed

text \<open>
  Property C15: fetching many statuses in batches of 25 gives, for every torrent id, the status
  of its last successful fetch (a failed one leaves the id out), whatever the batch
  boundaries, with one pause of 25 ms between two batches.
\<close>

theorem batched_statuses:
  "(jm_get (fst (fetchTorrentStatuses reply ids)) tid = Some s \<longleftrightarrow>
     (\<exists>i < length ids. ids ! i = tid \<and> reply i tid = Inr s \<and>
        (\<forall>j. i < j \<and> j < length ids \<and> ids ! j = tid \<longrightarrow> isl (reply j tid)))) \<and>
   snd (fetchTorrentStatuses reply ids) = replicate ((length ids - 1) div 25) 25"
  unfolding fetchTorrentStatuses_def fetchTorrentStatuses_loop_eq
  by (simp add: store_results_lookup)

definition sample_reply :: "nat \<Rightarrow> string \<Rightarrow> thrown + torrent_status" where
  "sample_reply i tid = (if i = 1 then Inl ThrownOther
     else Inr ((sample_status Seeding)\<lparr>ts_id := tid\<rparr>))"

theorem batched_statuses_witness:
  "jm_get (fst (fetchTorrentStatuses sample_reply [''a'', ''a'', ''b''])) ''a'' =
     Some ((sample_status Seeding)\<lparr>ts_id := ''a''\<rparr>)"
proof -
  have "\<exists>i < length [''a'', ''a'', ''b'']. [''a'', ''a'', ''b''] ! i = ''a'' \<and>
      sample_reply i ''a'' = Inr ((sample_status Seeding)\<lparr>ts_id := ''a''\<rparr>) \<and>
      (\<forall>j. i < j \<and> j < length [''a'', ''a'', ''b''] \<and> [''a'', ''a'', ''b''] ! j = ''a'' \<longrightarrow>
         isl (sample_reply j ''a''))"
    by (rule exI [of _ 0]) (auto simp: sample_reply_def less_Suc_eq)
  with batched_statuses [of sample_reply "[''a'', ''a'', ''b'']" "''a''"
      "(sample_status Seeding)\<lparr>ts_id := ''a''\<rparr>"]
  show ?thesis by blast
qed

end
