(* ===== verification/EventService.thy ===== *)
theory EventService
  imports Types
begin

text \<open>
  The event history of the renderer (\<open>renderer/utils/eventService.ts\<close>): event ids from the
  clock and a module counter, the bounded newest-first list, the three filters of the event
  page and the labels of an event. \<open>event_log\<close> is the list together with the counter.
\<close>

definition MAX_EVENTS :: nat where "MAX_EVENTS = 1000"

definition generateEventId :: "time \<Rightarrow> nat \<Rightarrow> string \<times> nat" where
  "generateEventId now eventIdCounter =
     (''evt_'' @ show_int now @ ''_'' @ show_nat (Suc eventIdCounter), Suc eventIdCounter)"

record event_options =
  eo_torrentId :: "string option"
  eo_torrentName :: "string option"
  eo_details :: "(string \<times> string) list option"

text \<open>The clock is read twice: for the id and for the timestamp.\<close>

definition createEvent ::
    "time \<Rightarrow> time \<Rightarrow> nat \<Rightarrow> event_type \<Rightarrow> event_severity \<Rightarrow> string \<Rightarrow> event_options option
      \<Rightarrow> torrent_event \<times> nat" where
  "createEvent now1 now2 counter typ severity message options =
     (let (eid, counter1) = generateEventId now1 counter in
      (\<lparr>ev_id = eid, ev_timestamp = now2, ev_type = typ, ev_severity = severity,
        ev_torrentId = Option.bind options eo_torrentId,
        ev_torrentName = Option.bind options eo_torrentName,
        ev_message = message,
        ev_details = Option.bind options eo_details\<rparr>, counter1))"

definition addEvent :: "torrent_event list \<Rightarrow> torrent_event \<Rightarrow> torrent_event list" where
  "addEvent events event =
     (let newEvents = event # events in
      if MAX_EVENTS < length newEvents then take MAX_EVENTS newEvents else newEvents)"

definition clearEvents :: "torrent_event list" where
  "clearEvents = []"

definition filterEventsByType :: "torrent_event list \<Rightarrow> event_type list \<Rightarrow> torrent_event list" where
  "filterEventsByType events types =
     (if types = [] then events else filter (\<lambda>e. ev_type e \<in> set types) events)"

definition filterEventsBySeverity ::
    "torrent_event list \<Rightarrow> event_severity list \<Rightarrow> torrent_event list" where
  "filterEventsBySeverity events severities =
     (if severities = [] then events else filter (\<lambda>e. ev_severity e \<in> set severities) events)"

definition searchEvents :: "torrent_event list \<Rightarrow> string \<Rightarrow> torrent_event list" where
  "searchEvents events query =
     (if js_trim query = [] then events
      else (let lowerQuery = js_lower query in
        filter (\<lambda>e. js_includes (js_lower (ev_message e)) lowerQuery \<or>
                     (case ev_torrentName e of None \<Rightarrow> False
                      | Some n \<Rightarrow> n \<noteq> [] \<and> js_includes (js_lower n) lowerQuery)) events))"

definition getEventTypeLabel :: "event_type \<Rightarrow> string" where
  "getEventTypeLabel t = (case t of
     EvDiskIo \<Rightarrow> ''Disk I/O''
   | EvHashFailure \<Rightarrow> ''Hash Failure''
   | EvTrackerError \<Rightarrow> ''Tracker Error''
   | EvVpnKillSwitch \<Rightarrow> ''VPN Kill Switch''
   | EvPieceVerified \<Rightarrow> ''Piece Verified''
   | EvTorrentAdded \<Rightarrow> ''Torrent Added''
   | EvTorrentCompleted \<Rightarrow> ''Torrent Completed''
   | EvTorrentError \<Rightarrow> ''Torrent Error''
   | EvTorrentStarted \<Rightarrow> ''Torrent Started''
   | EvTorrentStopped \<Rightarrow> ''Torrent Stopped''
   | EvPeerConnected \<Rightarrow> ''Peer Connected''
   | EvPeerDisconnected \<Rightarrow> ''Peer Disconnected'')"

definition getEventTypeIcon :: "event_type \<Rightarrow> string" where
  "getEventTypeIcon t = (case t of
     EvDiskIo \<Rightarrow> utf8 [240, 159, 146, 190]
   | EvHashFailure \<Rightarrow> utf8 [226, 154, 160, 239, 184, 143]
   | EvTrackerError \<Rightarrow> utf8 [240, 159, 148, 151]
   | EvVpnKillSwitch \<Rightarrow> utf8 [240, 159, 155, 161, 239, 184, 143]
   | EvPieceVerified \<Rightarrow> utf8 [226, 156, 147]
   | EvTorrentAdded \<Rightarrow> ''+''
   | EvTorrentCompleted \<Rightarrow> utf8 [226, 156, 147]
   | EvTorrentError \<Rightarrow> utf8 [226, 156, 151]
   | EvTorrentStarted \<Rightarrow> utf8 [226, 150, 182]
   | EvTorrentStopped \<Rightarrow> utf8 [226, 143, 185]
   | EvPeerConnected \<Rightarrow> utf8 [226, 134, 148]
   | EvPeerDisconnected \<Rightarrow> utf8 [226, 134, 148])"

definition getRelativeTime :: "time \<Rightarrow> time \<Rightarrow> string" where
  "getRelativeTime now timestamp =
     (let diff = now - timestamp in
      if diff < 1000 then ''just now''
      else if diff < 60000 then show_int (diff div 1000) @ ''s ago''
      else if diff < 3600000 then show_int (diff div 60000) @ ''m ago''
      else if diff < 86400000 then show_int (diff div 3600000) @ ''h ago''
      else show_int (diff div 86400000) @ ''d ago'')"

definition ALL_EVENT_TYPES :: "event_type list" where
  "ALL_EVENT_TYPES = [EvDiskIo, EvHashFailure, EvTrackerError, EvVpnKillSwitch, EvPieceVerified,
     EvTorrentAdded, EvTorrentCompleted, EvTorrentError, EvTorrentStarted, EvTorrentStopped,
     EvPeerConnected, EvPeerDisconnected]"

definition ALL_SEVERITIES :: "event_severity list" where
  "ALL_SEVERITIES = [SevInfo, SevWarning, SevError, SevSuccess]"

definition getSeverityClass :: "event_severity \<Rightarrow> string" where
  "getSeverityClass s = (case s of
     SevError \<Rightarrow> ''eventSeverityError''
   | SevWarning \<Rightarrow> ''eventSeverityWarning''
   | SevSuccess \<Rightarrow> ''eventSeveritySuccess''
   | SevInfo \<Rightarrow> ''eventSeverityInfo'')"

subsection \<open>The log over time\<close>

record event_log =
  el_events :: "torrent_event list"
  el_counter :: nat

definition log_init :: event_log where
  "log_init = \<lparr>el_events = [], el_counter = 0\<rparr>"

datatype log_op =
    LogEvent time time event_type event_severity string "event_options option"
  | LogClear

fun log_step :: "event_log \<Rightarrow> log_op \<Rightarrow> event_log" where
  "log_step l (LogEvent n1 n2 t s m opts) =
     (let (e, c) = createEvent n1 n2 (el_counter l) t s m opts in
      \<lparr>el_events = addEvent (el_events l) e, el_counter = c\<rparr>)"
| "log_step l LogClear = l\<lparr>el_events := clearEvents\<rparr>"

definition log_run :: "log_op list \<Rightarrow> event_log" where
  "log_run ops = foldl log_step log_init ops"

text \<open>
  The reference: every event ever logged, newest first, with the number of those logged
  since the last clear.
\<close>

fun history :: "log_op list \<Rightarrow> torrent_event list \<times> nat" where
  "history [] = ([], 0)"
| "history (LogEvent n1 n2 t s m opts # rest) =
     (let (es, k) = history rest in
      (fst (createEvent n1 n2 (length es) t s m opts) # es, Suc k))"
| "history (LogClear # rest) = (fst (history rest), 0)"

subsection \<open>Lemmas\<close>

lemma createEvent_counter: "snd (createEvent n1 n2 c t s m opts) = Suc c"
  by (simp add: createEvent_def generateEventId_def)

lemma createEvent_id:
  "ev_id (fst (createEvent n1 n2 c t s m opts)) = ''evt_'' @ show_int n1 @ ''_'' @ show_nat (Suc c)"
  by (simp add: createEvent_def generateEventId_def)

lemma addEvent_take: "addEvent events e = take MAX_EVENTS (e # events)"
  by (simp add: addEvent_def Let_def)

text \<open>The counter can be read back from an id.\<close>

lemma event_id_counter:
  assumes "''evt_'' @ show_int n @ ''_'' @ show_nat c = ''evt_'' @ show_int n' @ ''_'' @ show_nat c'"
  shows "c = c'"
proof -
  let ?u = "CHR ''_''"
  have u: "?u \<notin> set (show_int i)" for i
    using set_show_int [of ?u i] by (auto simp: is_digit_def)
  have "js_split ?u (show_int i @ ?u # show_nat j) = [show_int i, show_nat j]" for i j
  proof -
    have "?u \<notin> set (show_nat j)" by (rule not_digit_in_show_nat) (simp add: is_digit_def)
    then show ?thesis using js_split_append [OF u] js_split_no_sep by simp
  qed
  moreover have "show_int n @ ?u # show_nat c = show_int n' @ ?u # show_nat c'"
    using assms by simp
  ultimately have "[show_int n, show_nat c] = [show_int n', show_nat c']" by metis
  then show ?thesis by simp
qed

lemma history_ids:
  "e \<in> set (fst (history ops)) \<Longrightarrow>
   \<exists>n c. ev_id e = ''evt_'' @ show_int n @ ''_'' @ show_nat (Suc c) \<and> c < length (fst (history ops))"
proof (induction ops rule: history.induct)
  case (2 n1 n2 t s m opts rest)
  then show ?case
    by (auto simp: createEvent_id less_Suc_eq split: prod.splits) blast+
qed auto

lemma history_distinct: "distinct (map ev_id (fst (history ops)))"
proof (induction ops rule: history.induct)
  case (2 n1 n2 t s m opts rest)
  obtain es k where h: "history rest = (es, k)" by fastforce
  have "ev_id (fst (createEvent n1 n2 (length es) t s m opts)) \<notin> ev_id ` set es"
  proof
    assume "ev_id (fst (createEvent n1 n2 (length es) t s m opts)) \<in> ev_id ` set es"
    then obtain e where e: "e \<in> set es"
      "''evt_'' @ show_int n1 @ ''_'' @ show_nat (Suc (length es)) = ev_id e"
      unfolding createEvent_id by auto
    from history_ids [of e rest] e(1) h
    obtain n c where nc: "ev_id e = ''evt_'' @ show_int n @ ''_'' @ show_nat (Suc c)" "c < length es"
      by auto
    from event_id_counter [OF e(2) [unfolded nc(1)]] nc(2) show False by simp
  qed
  with 2 h show ?case by simp
qed auto

lemma log_run_history:
  "el_events (log_run ops) = take (min MAX_EVENTS (snd (history (rev ops)))) (fst (history (rev ops))) \<and>
   el_counter (log_run ops) = length (fst (history (rev ops))) \<and>
   snd (history (rev ops)) \<le> length (fst (history (rev ops)))"
proof (induction ops rule: rev_induct)
  case Nil
  show ?case by (simp add: log_run_def log_init_def)
next
  case (snoc oper ops)
  obtain es k where h: "history (rev ops) = (es, k)" by fastforce
  have run: "log_run (ops @ [oper]) = log_step (log_run ops) oper" by (simp add: log_run_def)
  show ?case
  proof (cases oper)
    case LogClear
    with snoc run h show ?thesis by (simp add: clearEvents_def)
  next
    case (LogEvent n1 n2 t s m opts)
    obtain e where e: "createEvent n1 n2 (length es) t s m opts = (e, Suc (length es))"
      using createEvent_counter [of n1 n2 "length es" t s m opts]
      by (cases "createEvent n1 n2 (length es) t s m opts") simp
    have "take MAX_EVENTS (e # take (min MAX_EVENTS k) es) = take (min MAX_EVENTS (Suc k)) (e # es)"
      by (cases MAX_EVENTS) (auto simp: min_def take_Cons')
    with snoc h e show ?thesis by (simp add: run [unfolded LogEvent] addEvent_take LogEvent)
  qed
qed

text \<open>Each filter is a filter by a predicate, so they commute and keep the order.\<close>

definition type_selected :: "event_type list \<Rightarrow> torrent_event \<Rightarrow> bool" where
  "type_selected types e \<longleftrightarrow> types = [] \<or> ev_type e \<in> set types"

definition severity_selected :: "event_severity list \<Rightarrow> torrent_event \<Rightarrow> bool" where
  "severity_selected sevs e \<longleftrightarrow> sevs = [] \<or> ev_severity e \<in> set sevs"

definition query_matches :: "string \<Rightarrow> torrent_event \<Rightarrow> bool" where
  "query_matches query e \<longleftrightarrow> js_trim query = [] \<or>
     (\<exists>txt. (txt = ev_message e \<or> ev_torrentName e = Some txt) \<and>
        js_includes (js_lower txt) (js_lower query))"

lemma filterEventsByType_eq: "filterEventsByType es types = filter (type_selected types) es"
  by (cases "types = []") (simp_all add: filterEventsByType_def type_selected_def [abs_def])

lemma filterEventsBySeverity_eq: "filterEventsBySeverity es sevs = filter (severity_selected sevs) es"
  by (cases "sevs = []") (simp_all add: filterEventsBySeverity_def severity_selected_def [abs_def])

lemma js_lower_Nil [simp]: "js_lower s = [] \<longleftrightarrow> s = []" "js_lower [] = []"
  by (simp_all add: js_lower_def)

lemma searchEvents_eq: "searchEvents es query = filter (query_matches query) es"
proof (cases "js_trim query = []")
  case False
  then have "js_lower query \<noteq> []" by auto
  with False show ?thesis
    by (auto simp: searchEvents_def query_matches_def Let_def intro!: filter_cong
        split: option.splits) 
qed (simp add: searchEvents_def query_matches_def [abs_def])

subsection \<open>Properties\<close>

text \<open>
  Further fact: after any sequence of logged events and clears the history shows exactly the
  most recent events since the last clear, at most 1000 of them, newest first, and no two
  events ever logged share an id.
\<close>

theorem event_history:
  "(let (logged, since_clear) = history (rev ops) in
      el_events (log_run ops) = take (min 1000 since_clear) logged \<and>
      distinct (map ev_id logged))"
  using log_run_history [of ops] history_distinct [of "rev ops"]
  by (cases "history (rev ops)") (simp add: MAX_EVENTS_def)

text \<open>
  Further fact: the event page's three filters keep exactly the events that match all three
  choices, in their order, and the order in which they are applied does not matter.
\<close>

theorem event_filters:
  "searchEvents (filterEventsBySeverity (filterEventsByType es types) sevs) query =
     filter (\<lambda>e. type_selected types e \<and> severity_selected sevs e \<and> query_matches query e) es \<and>
   filterEventsByType (searchEvents (filterEventsBySeverity es sevs) query) types =
     searchEvents (filterEventsBySeverity (filterEventsByType es types) sevs) query"
  unfolding filterEventsByType_eq filterEventsBySeverity_eq searchEvents_eq filter_filter
  by (auto intro: filter_cong)

end
