(* ===== verification/InfoHash.thy ===== *)
theory InfoHash
  imports Prelude "HOL-Library.Word"
begin

text \<open>
  Info hashes (\<open>renderer/lib/infoHash.ts\<close>): the hash in a magnet link, and the SHA-1 of the
  \<open>info\<close> dictionary cut out of a torrent file by a scan for its closing \<open>e\<close>. The digest is
  the parameter \<open>sha1\<close>; whether the \<open>URL\<close> constructor accepts a string is the parameter
  \<open>url_ok\<close>, the query and its decoding are modelled. Bytes are 8-bit words.
\<close>

type_synonym byte = "8 word"

definition byte_of :: "char \<Rightarrow> byte" where
  "byte_of c = word_of_nat (of_char c)"

definition hex_digit :: "nat \<Rightarrow> char" where
  "hex_digit n = (if n < 10 then digit_char n else char_of (87 + n))"

text \<open>\<open>b.toString(16).padStart(2, "0")\<close>.\<close>

definition hex_byte :: "byte \<Rightarrow> string" where
  "hex_byte b = [hex_digit (unat b div 16), hex_digit (unat b mod 16)]"

definition is_hex :: "char \<Rightarrow> bool" where
  "is_hex c \<longleftrightarrow> is_digit c \<or>
     (let n = (of_char c :: nat) in (65 \<le> n \<and> n \<le> 70) \<or> (97 \<le> n \<and> n \<le> 102))"

definition hex_val :: "char \<Rightarrow> nat" where
  "hex_val c = (let n = of_char (lower_char c) :: nat in if n < 58 then n - 48 else n - 87)"

subsection \<open>Magnet links\<close>

text \<open>\<open>application/x-www-form-urlencoded\<close> decoding, as \<open>URLSearchParams\<close> does it.\<close>

fun form_decode :: "string \<Rightarrow> string" where
  "form_decode [] = []"
| "form_decode (c # a # b # s) =
     (if c = CHR ''%'' \<and> is_hex a \<and> is_hex b
      then char_of (16 * hex_val a + hex_val b) # form_decode s
      else (if c = CHR ''+'' then CHR '' '' else c) # form_decode (a # b # s))"
| "form_decode (c # s) = (if c = CHR ''+'' then CHR '' '' else c) # form_decode s"

definition url_query :: "string \<Rightarrow> string" where
  "url_query u = drop 1 (dropWhile (\<lambda>c. c \<noteq> CHR ''?'') (takeWhile (\<lambda>c. c \<noteq> CHR ''#'') u))"

fun search_param :: "string \<Rightarrow> string list \<Rightarrow> string option" where
  "search_param name [] = None"
| "search_param name (p # ps) =
     (if p \<noteq> [] \<and> form_decode (takeWhile (\<lambda>c. c \<noteq> CHR ''='') p) = name
      then Some (form_decode (drop 1 (dropWhile (\<lambda>c. c \<noteq> CHR ''='') p)))
      else search_param name ps)"

definition infoHashFromMagnet :: "(string \<Rightarrow> bool) \<Rightarrow> string \<Rightarrow> string option" where
  "infoHashFromMagnet url_ok magnet =
     (if \<not> url_ok magnet then None
      else (case search_param ''xt'' (js_split CHR ''&'' (url_query magnet)) of
        None \<Rightarrow> None
      | Some xt \<Rightarrow>
          if js_lower (take 9 xt) \<noteq> ''urn:btih:'' \<or> drop 9 xt = [] \<or>
             (\<exists>c \<in> set (drop 9 xt). c = CHR 0x0A \<or> c = CHR 0x0D)
          then None
          else (let hash = drop 9 xt in
            if length hash = 40 then (if list_all is_hex hash then Some (js_lower hash) else None)
            else None)))"

subsection \<open>Torrent files\<close>

definition infoMarker :: "byte list" where
  "infoMarker = map byte_of ''4:info''"

definition find_marker :: "byte list \<Rightarrow> nat option" where
  "find_marker bytes =
     map_option (\<lambda>i. i + length infoMarker)
       (find (\<lambda>i. take (length infoMarker) (drop i bytes) = infoMarker)
         [0 ..< length bytes + 1 - length infoMarker])"

definition digit_byte :: "byte \<Rightarrow> bool" where
  "digit_byte b \<longleftrightarrow> 0x30 \<le> b \<and> b \<le> 0x39"

definition parse_len :: "byte list \<Rightarrow> nat" where
  "parse_len bs = foldl (\<lambda>acc b. 10 * acc + (unat b - 48)) 0 bs"

text \<open>
  The loop over \<open>i\<close> that looks for the matching \<open>e\<close>: its state is \<open>depth\<close> and, inside a
  string, \<open>Some (stringLen, stringPos)\<close>. The result is \<open>dictEnd\<close>.
\<close>

function scan :: "byte list \<Rightarrow> nat \<Rightarrow> int \<Rightarrow> (nat \<times> nat) option \<Rightarrow> nat option" where
  "scan bytes i depth inString =
     (if length bytes \<le> i then None
      else (case inString of
        Some (stringLen, stringPos) \<Rightarrow>
          scan bytes (Suc i) depth
            (if stringLen \<le> Suc stringPos then None else Some (stringLen, Suc stringPos))
      | None \<Rightarrow>
          (let b = bytes ! i; lenStr = takeWhile digit_byte (drop i bytes); j = i + length lenStr in
           if digit_byte b \<and> j < length bytes \<and> bytes ! j = 0x3a
           then scan bytes (Suc j) depth (Some (parse_len lenStr, 0))
           else if b = 0x64 \<or> b = 0x6c then scan bytes (Suc i) (depth + 1) None
           else if b = 0x65 then
             (if depth - 1 = 0 then Some (Suc i) else scan bytes (Suc i) (depth - 1) None)
           else scan bytes (Suc i) depth None)))"
  by pat_completeness auto
termination
  by (relation "measure (\<lambda>(bytes, i, depth, inString). length bytes - i)") auto

declare scan.simps [simp del]

definition infoHashFromTorrentBytes :: "(byte list \<Rightarrow> byte list) \<Rightarrow> byte list \<Rightarrow> string option" where
  "infoHashFromTorrentBytes sha1 bytes = (case find_marker bytes of
     None \<Rightarrow> None
   | Some infoStart \<Rightarrow>
       if length bytes \<le> infoStart \<or> bytes ! infoStart \<noteq> 0x64 then None
       else (case scan bytes infoStart 0 None of
         None \<Rightarrow> None
       | Some dictEnd \<Rightarrow>
           Some (concat (map hex_byte (sha1 (take (dictEnd - infoStart) (drop infoStart bytes)))))))"

subsection \<open>Bencoding\<close>

text \<open>The format the scan reads: the reference for what the \<open>info\<close> dictionary is.\<close>

datatype bencode =
    BStr "byte list"
  | BInt int
  | BList "bencode list"
  | BDict "(byte list \<times> bencode) list"

definition ben_str :: "byte list \<Rightarrow> byte list" where
  "ben_str s = map byte_of (show_nat (length s)) @ 0x3a # s"

definition ben_int :: "int \<Rightarrow> byte list" where
  "ben_int n = 0x69 # map byte_of (show_int n) @ [0x65]"

fun ben_enc :: "bencode \<Rightarrow> byte list" where
  "ben_enc (BStr s) = ben_str s"
| "ben_enc (BInt n) = ben_int n"
| "ben_enc (BList vs) = 0x6c # concat (map ben_enc vs) @ [0x65]"
| "ben_enc (BDict kvs) = 0x64 # concat (map (\<lambda>(k, v). ben_str k @ ben_enc v) kvs) @ [0x65]"

text \<open>Values on which the scan keeps count: no integers and no empty strings.\<close>

fun scannable :: "bencode \<Rightarrow> bool" where
  "scannable (BStr s) \<longleftrightarrow> s \<noteq> []"
| "scannable (BInt n) \<longleftrightarrow> False"
| "scannable (BList vs) \<longleftrightarrow> (\<forall>v \<in> set vs. scannable v)"
| "scannable (BDict kvs) \<longleftrightarrow> (\<forall>(k, v) \<in> set kvs. k \<noteq> [] \<and> scannable v)"

subsection \<open>Lemmas on bytes\<close>

lemma unat_byte_of: "unat (byte_of c) = of_char c"
proof -
  have "(of_char c :: nat) < 256" using range_nat_of_char by (metis atLeastLessThan_iff rangeI)
  then show ?thesis by (simp add: byte_of_def unat_of_nat)
qed

lemma digit_byte_of: "digit_byte (byte_of c) \<longleftrightarrow> is_digit c"
  by (simp add: digit_byte_def is_digit_def word_le_nat_alt unat_byte_of Let_def)

lemma parse_len_bytes: "parse_len (map byte_of s) = parse_digits s"
proof -
  have "foldl (\<lambda>acc b. 10 * acc + (unat b - 48)) a (map byte_of s) =
      foldl (\<lambda>acc c. 10 * acc + digit_val c) a s" for a
    by (induction s arbitrary: a) (simp_all add: unat_byte_of digit_val_def)
  then show ?thesis by (simp add: parse_len_def parse_digits_def)
qed

lemma takeWhile_digits:
  "\<not> digit_byte x \<Longrightarrow> takeWhile digit_byte (map byte_of (show_nat n) @ x # rest) = map byte_of (show_nat n)"
  using show_nat_digits [of n] by (simp add: takeWhile_append digit_byte_of)

lemma drop_step: "drop i xs = x # rest \<Longrightarrow> i < length xs \<and> xs ! i = x \<and> drop (Suc i) xs = rest"
  by (metis Cons_nth_drop_Suc drop_all leI list.inject list.simps(3))

lemma drop_steps: "drop i xs = ys @ rest \<Longrightarrow> drop (i + length ys) xs = rest"
  by (metis add.commute append_eq_conv_conj drop_drop)

subsection \<open>The scan on encoded values\<close>

lemma scan_in_string:
  "p < n \<Longrightarrow> i + (n - p) \<le> length bytes \<Longrightarrow>
   scan bytes i d (Some (n, p)) = scan bytes (i + (n - p)) d None"
proof (induction "n - p" arbitrary: i p)
  case (Suc m)
  show ?case
  proof (cases "n \<le> Suc p")
    case True
    with Suc.prems have "n - p = 1" by simp
    with Suc.prems True show ?thesis by (subst scan.simps) simp
  next
    case False
    with Suc.hyps(2) Suc.prems have "m = n - Suc p" "Suc i + (n - Suc p) \<le> length bytes" by simp_all
    from Suc.hyps(1) [OF this(1) _ this(2)] False
    have "scan bytes (Suc i) d (Some (n, Suc p)) = scan bytes (Suc i + (n - Suc p)) d None" by simp
    moreover have "Suc i + (n - Suc p) = i + (n - p)" using False by simp
    moreover have "\<not> length bytes \<le> i" using Suc.prems by simp
    ultimately show ?thesis using False by (subst scan.simps) simp
  qed
qed simp

lemma scan_string:
  assumes "drop i bytes = ben_str s @ rest" and "s \<noteq> []"
  shows "scan bytes i d None = scan bytes (i + length (ben_str s)) d None"
proof -
  let ?ds = "map byte_of (show_nat (length s))"
  have dr: "drop i bytes = ?ds @ 0x3a # s @ rest" using assms(1) by (simp add: ben_str_def)
  have nd: "\<not> digit_byte 0x3a" by (simp add: digit_byte_def)
  have tw: "takeWhile digit_byte (drop i bytes) = ?ds"
    unfolding dr by (rule takeWhile_digits [OF nd])
  obtain x xs where xs: "?ds = x # xs" by (cases ?ds) auto
  have "digit_byte x" using xs show_nat_digits [of "length s"] digit_byte_of
    by (metis list.set_intros(1) list.set_map imageE)
  moreover have "i < length bytes" "bytes ! i = x"
    using drop_step [of i bytes x "xs @ 0x3a # s @ rest"] dr xs by auto
  moreover have j: "i + length ?ds < length bytes" "bytes ! (i + length ?ds) = 0x3a"
      "drop (Suc (i + length ?ds)) bytes = s @ rest"
    using drop_step [OF drop_steps [OF dr]] by auto
  moreover have "parse_len ?ds = length s" by (simp add: parse_len_bytes)
  ultimately have "scan bytes i d None = scan bytes (Suc (i + length ?ds)) d (Some (length s, 0))"
    by (subst scan.simps) (simp add: tw Let_def)
  also have "\<dots> = scan bytes (Suc (i + length ?ds) + (length s - 0)) d None"
  proof (rule scan_in_string)
    have "length bytes - Suc (i + length ?ds) = length (s @ rest)"
      using j(3) by (metis length_drop)
    then show "Suc (i + length ?ds) + (length s - 0) \<le> length bytes"
      using j(1) by simp
  qed (use assms(2) in simp)
  finally show ?thesis by (simp add: ben_str_def add.assoc)
qed

lemma scan_open:
  assumes "drop i bytes = x # rest" and "x = 0x64 \<or> x = 0x6c"
  shows "scan bytes i d None = scan bytes (Suc i) (d + 1) None"
  using drop_step [OF assms(1)] assms(2)
  by (subst scan.simps) (auto simp: Let_def digit_byte_def)

lemma scan_close:
  assumes "drop i bytes = 0x65 # rest"
  shows "scan bytes i d None = (if d = 1 then Some (Suc i) else scan bytes (Suc i) (d - 1) None)"
  using drop_step [OF assms] by (subst scan.simps) (simp add: Let_def digit_byte_def)

lemma scan_other:
  assumes "drop i bytes = x # rest" and "x \<noteq> 0x64" "x \<noteq> 0x6c" "x \<noteq> 0x65"
    and "\<not> digit_byte x \<or> (\<exists>y rest'. dropWhile digit_byte (x # rest) = y # rest' \<and> y \<noteq> 0x3a)"
  shows "scan bytes i d None = scan bytes (Suc i) d None"
proof -
  let ?j = "i + length (takeWhile digit_byte (drop i bytes))"
  have "digit_byte x \<longrightarrow> \<not> (?j < length bytes \<and> bytes ! ?j = 0x3a)"
  proof
    assume "digit_byte x"
    with assms(5) obtain y rest' where y: "dropWhile digit_byte (drop i bytes) = y # rest'" "y \<noteq> 0x3a"
      using assms(1) by auto
    have "drop ?j bytes = y # rest'"
      using y(1) by (metis add.commute drop_drop dropWhile_eq_drop)
    from drop_step [OF this] y(2) show "\<not> (?j < length bytes \<and> bytes ! ?j = 0x3a)" by simp
  qed
  then show ?thesis
    using drop_step [OF assms(1)] assms(2-4) by (subst scan.simps) (auto simp: Let_def)
qed

lemma scan_concat:
  assumes "\<And>x i rest. x \<in> set xs \<Longrightarrow> drop i bytes = f x @ rest \<Longrightarrow>
      scan bytes i d None = scan bytes (i + length (f x)) d None"
    and "drop i bytes = concat (map f xs) @ rest"
  shows "scan bytes i d None = scan bytes (i + length (concat (map f xs))) d None"
  using assms
proof (induction xs arbitrary: i)
  case (Cons x xs)
  then have dr: "drop i bytes = f x @ concat (map f xs) @ rest" by simp
  have "scan bytes i d None = scan bytes (i + length (f x)) d None"
    using Cons.prems(1) dr by simp
  also have "\<dots> = scan bytes (i + length (f x) + length (concat (map f xs))) d None"
    using Cons.prems(1) by (intro Cons.IH drop_steps [OF dr]) simp
  finally show ?case by (simp add: add.assoc)
qed simp

lemma scan_bracket:
  assumes "drop i bytes = x # body @ 0x65 # rest" and "x = 0x64 \<or> x = 0x6c"
    and "scan bytes (Suc i) (d + 1) None = scan bytes (Suc i + length body) (d + 1) None"
  shows "scan bytes i d None =
    (if d = 0 then Some (i + length (x # body @ [0x65]))
     else scan bytes (i + length (x # body @ [0x65])) d None)"
proof -
  have dr: "drop (Suc i) bytes = body @ 0x65 # rest" using drop_step [OF assms(1)] by simp
  have "scan bytes i d None = scan bytes (Suc i + length body) (d + 1) None"
    unfolding scan_open [OF assms(1,2)] by (rule assms(3))
  also have "\<dots> = (if d = 0 then Some (i + length (x # body @ [0x65]))
     else scan bytes (i + length (x # body @ [0x65])) d None)"
    unfolding scan_close [OF drop_steps [OF dr]] by simp
  finally show ?thesis .
qed

lemma scan_value:
  "scannable v \<Longrightarrow> 1 \<le> d \<Longrightarrow> drop i bytes = ben_enc v @ rest \<Longrightarrow>
   scan bytes i d None = scan bytes (i + length (ben_enc v)) d None"
proof (induction v arbitrary: i d rest)
  case (BStr s)
  then show ?case using scan_string [of i bytes s rest d] by simp
next
  case (BList vs)
  let ?body = "concat (map ben_enc vs)"
  have dr: "drop i bytes = 0x6c # ?body @ 0x65 # rest" using BList.prems by simp
  have "scan bytes (Suc i) (d + 1) None = scan bytes (Suc i + length ?body) (d + 1) None"
  proof (rule scan_concat)
    show "drop (Suc i) bytes = ?body @ 0x65 # rest" using drop_step [OF dr] by simp
  qed (use BList in auto)
  from scan_bracket [OF dr _ this] BList.prems(2) show ?case by simp
next
  case (BDict kvs)
  let ?f = "\<lambda>(k, v). ben_str k @ ben_enc v"
  let ?body = "concat (map ?f kvs)"
  have dr: "drop i bytes = 0x64 # ?body @ 0x65 # rest" using BDict.prems by simp
  have "scan bytes (Suc i) (d + 1) None = scan bytes (Suc i + length ?body) (d + 1) None"
  proof (rule scan_concat)
    show "drop (Suc i) bytes = ?body @ 0x65 # rest" using drop_step [OF dr] by simp
  next
    fix x j rest'
    assume x: "x \<in> set kvs" and dj: "drop j bytes = ?f x @ rest'"
    obtain k v where kv: "x = (k, v)" by (cases x)
    have ok: "k \<noteq> []" "scannable v" using BDict.prems(1) x kv by auto
    have dk: "drop j bytes = ben_str k @ ben_enc v @ rest'" using dj kv by simp
    have "scan bytes j (d + 1) None = scan bytes (j + length (ben_str k)) (d + 1) None"
      by (rule scan_string [OF dk ok(1)])
    also have "\<dots> = scan bytes (j + length (ben_str k) + length (ben_enc v)) (d + 1) None"
      using BDict.prems(2) x kv by (intro BDict.IH [OF _ _ ok(2) _ drop_steps [OF dk]]) auto
    finally show "scan bytes j (d + 1) None = scan bytes (j + length (?f x)) (d + 1) None"
      using kv by (simp add: add.assoc)
  qed
  from scan_bracket [OF dr _ this] BDict.prems(2) show ?case by simp
qed simp

lemma scan_digits:
  "drop i bytes = ds @ 0x65 # rest \<Longrightarrow> \<forall>b \<in> set ds. digit_byte b \<Longrightarrow>
   scan bytes i d None = scan bytes (i + length ds) d None"
proof (induction ds arbitrary: i)
  case (Cons x ds)
  have ne: "x \<noteq> 0x64" "x \<noteq> 0x6c" "x \<noteq> 0x65" using Cons.prems(2) by (auto simp: digit_byte_def)
  have "dropWhile digit_byte (x # ds @ 0x65 # rest) = 0x65 # rest"
    using Cons.prems(2) by (simp add: dropWhile_append digit_byte_def)
  then have "scan bytes i d None = scan bytes (Suc i) d None"
    using Cons.prems(1) ne by (intro scan_other [of i bytes x "ds @ 0x65 # rest"]) auto
  also have "\<dots> = scan bytes (Suc i + length ds) d None"
    using Cons.prems drop_step [of i bytes x] by (intro Cons.IH) auto
  finally show ?case by simp
qed simp

text \<open>The \<open>e\<close> of an integer is taken for the end of the enclosing dictionary or list.\<close>

lemma scan_int:
  assumes "drop i bytes = ben_int n @ rest"
  shows "scan bytes i d None =
    (if d = 1 then Some (i + length (ben_int n)) else scan bytes (i + length (ben_int n)) (d - 1) None)"
proof -
  let ?ds = "map byte_of (show_int n)"
  have dr: "drop i bytes = 0x69 # ?ds @ 0x65 # rest" using assms by (simp add: ben_int_def)
  have "scan bytes i d None = scan bytes (Suc i) d None"
    by (rule scan_other [OF dr]) (simp_all add: digit_byte_def)
  also have "\<dots> = scan bytes (Suc i + length ?ds) d None"
  proof (cases "n < 0")
    case True
    let ?ms = "map byte_of (show_nat (nat (- n)))"
    have ds: "?ds = 0x2d # ?ms" using True by (simp add: show_int_def byte_of_def)
    have d1: "drop (Suc i) bytes = 0x2d # ?ms @ 0x65 # rest" using drop_step [OF dr] ds by simp
    have "scan bytes (Suc i) d None = scan bytes (Suc (Suc i)) d None"
      by (rule scan_other [OF d1]) (simp_all add: digit_byte_def)
    also have "\<dots> = scan bytes (Suc (Suc i) + length ?ms) d None"
      using drop_step [OF d1] show_nat_digits by (intro scan_digits) (auto simp: digit_byte_of)
    finally show ?thesis unfolding ds by simp
  next
    case False
    then show ?thesis
      using drop_step [OF dr] show_nat_digits by (intro scan_digits) (auto simp: digit_byte_of)
  qed
  also have "\<dots> = (if d = 1 then Some (Suc (Suc i + length ?ds))
      else scan bytes (Suc (Suc i + length ?ds)) (d - 1) None)"
    by (rule scan_close [OF drop_steps]) (use drop_step [OF dr] in simp)
  finally show ?thesis by (simp add: ben_int_def)
qed

lemma find_skip: "\<forall>x \<in> set xs. \<not> P x \<Longrightarrow> P y \<Longrightarrow> find P (xs @ y # ys) = Some y"
  by (induction xs) auto

lemma find_marker_first:
  assumes "\<forall>i < length pre. take 6 (drop i (pre @ infoMarker @ tail)) \<noteq> infoMarker"
  shows "find_marker (pre @ infoMarker @ tail) = Some (length pre + 6)"
proof -
  let ?P = "\<lambda>i. take (length infoMarker) (drop i (pre @ infoMarker @ tail)) = infoMarker"
  have six: "length infoMarker = 6" by (simp add: infoMarker_def)
  have len: "length (pre @ infoMarker @ tail) + 1 - length infoMarker = length pre + (length tail + 1)"
    by (simp add: six)
  have cons: "[length pre ..< length pre + (length tail + 1)] =
      length pre # [Suc (length pre) ..< length pre + (length tail + 1)]"
    by (rule upt_conv_Cons) simp
  have up: "[0 ..< length pre + (length tail + 1)] =
      [0 ..< length pre] @ length pre # [Suc (length pre) ..< length pre + (length tail + 1)]"
    using upt_add_eq_append [of 0 "length pre" "length tail + 1"] unfolding cons by blast
  have "find ?P ([0 ..< length pre] @ length pre # xs) = Some (length pre)" for xs
    using assms by (intro find_skip) (simp_all add: six)
  then show ?thesis unfolding find_marker_def len up by (simp only: six option.map)
qed

lemma infoHash_scan:
  assumes "\<forall>i < length pre. take 6 (drop i (pre @ infoMarker @ 0x64 # tail)) \<noteq> infoMarker"
    and "scan (pre @ infoMarker @ 0x64 # tail) (length pre + 6) 0 None = Some (length pre + 6 + n)"
  shows "infoHashFromTorrentBytes sha1 (pre @ infoMarker @ 0x64 # tail) =
    Some (concat (map hex_byte (sha1 (take n (0x64 # tail)))))"
proof -
  have six: "length infoMarker = 6" by (simp add: infoMarker_def)
  have "drop (length pre + 6) (pre @ infoMarker @ 0x64 # tail) = 0x64 # tail" by (simp add: six)
  from drop_step [OF this] this show ?thesis
    unfolding infoHashFromTorrentBytes_def find_marker_first [OF assms(1)]
    by (simp add: assms(2) not_le [symmetric])
qed

definition dict_body :: "(byte list \<times> bencode) list \<Rightarrow> byte list" where
  "dict_body kvs = concat (map (\<lambda>(k, v). ben_str k @ ben_enc v) kvs)"

lemma ben_enc_dict: "ben_enc (BDict kvs) = 0x64 # dict_body kvs @ [0x65]"
  by (simp add: dict_body_def)

lemma scan_entries:
  assumes "scannable (BDict kvs)" and "1 \<le> d" and "drop i bytes = dict_body kvs @ rest"
  shows "scan bytes i d None = scan bytes (i + length (dict_body kvs)) d None"
  unfolding dict_body_def
proof (rule scan_concat)
  fix x j rest'
  assume x: "x \<in> set kvs" and dj: "drop j bytes = (\<lambda>(k, v). ben_str k @ ben_enc v) x @ rest'"
  obtain k v where kv: "x = (k, v)" by (cases x)
  have ok: "k \<noteq> []" "scannable v" using assms(1) x kv by auto
  have dk: "drop j bytes = ben_str k @ ben_enc v @ rest'" using dj kv by simp
  show "scan bytes j d None = scan bytes (j + length ((\<lambda>(k, v). ben_str k @ ben_enc v) x)) d None"
    using scan_string [OF dk ok(1), of d] scan_value [OF ok(2) assms(2) drop_steps [OF dk]] kv
    by (simp add: add.assoc)
qed (use assms(3) in \<open>simp add: dict_body_def\<close>)

lemma drop_marker: "drop (length pre + 6) (pre @ infoMarker @ tail) = tail"
  by (simp add: infoMarker_def)

lemma form_decode_plain:
  "CHR ''%'' \<notin> set s \<Longrightarrow> CHR ''+'' \<notin> set s \<Longrightarrow> form_decode s = s"
  by (induction s rule: form_decode.induct) auto

lemma is_hex_lower: "is_hex c \<Longrightarrow> is_hex (lower_char c)"
proof -
  assume h: "is_hex c"
  let ?n = "of_char c :: nat"
  show ?thesis
  proof (cases "65 \<le> ?n \<and> ?n \<le> 90")
    case True
    with h have "?n \<le> 70" by (auto simp: is_hex_def is_digit_def Let_def)
    with True have "(of_char (lower_char c) :: nat) = ?n + 32"
      by (simp add: lower_char_def Let_def of_char_of take_bit_eq_mod)
    with True \<open>?n \<le> 70\<close> show ?thesis by (simp add: is_hex_def)
  qed (use h in \<open>auto simp: lower_char_def Let_def\<close>)
qed

subsection \<open>Properties\<close>

text \<open>
  Further fact: on a torrent file whose \<open>info\<close> dictionary holds no integer and no empty
  string, the scan finds exactly the dictionary, whatever follows it, and the result is the
  hexadecimal SHA-1 of its encoding.
\<close>

theorem info_hash_of_dict:
  assumes "\<forall>i < length pre. take 6 (drop i (pre @ infoMarker @ ben_enc (BDict kvs) @ rest)) \<noteq> infoMarker"
    and "scannable (BDict kvs)"
  shows "infoHashFromTorrentBytes sha1 (pre @ infoMarker @ ben_enc (BDict kvs) @ rest) =
    Some (concat (map hex_byte (sha1 (ben_enc (BDict kvs)))))"
proof -
  let ?tail = "dict_body kvs @ 0x65 # rest"
  let ?bytes = "pre @ infoMarker @ 0x64 # ?tail"
  let ?i = "length pre + 6"
  have shape: "ben_enc (BDict kvs) @ rest = 0x64 # ?tail"
    by (simp add: ben_enc_dict del: ben_enc.simps(4))
  have dr: "drop ?i ?bytes = 0x64 # ?tail" by (rule drop_marker)
  have "scan ?bytes (Suc ?i) (0 + 1) None = scan ?bytes (Suc ?i + length (dict_body kvs)) (0 + 1) None"
    using drop_step [OF dr] by (intro scan_entries [OF assms(2)]) auto
  from scan_bracket [OF dr _ this]
  have "scan ?bytes ?i 0 None = Some (?i + length (ben_enc (BDict kvs)))"
    unfolding ben_enc_dict by simp
  from infoHash_scan [OF assms(1) [unfolded shape] this] show ?thesis
    unfolding shape by (simp add: ben_enc_dict del: ben_enc.simps(4))
qed

theorem info_hash_of_dict_witness:
  "infoHashFromTorrentBytes (\<lambda>bs. [word_of_nat (length bs)])
     ([0x64] @ infoMarker @ ben_enc (BDict [(map byte_of ''name'', BStr (map byte_of ''a''))]) @ [0x65]) =
   Some ''0b''"
proof -
  have h: "concat (map hex_byte [word_of_nat (length (ben_enc (BDict
      [(map byte_of ''name'', BStr (map byte_of ''a''))])))]) = ''0b''"
    by (simp add: ben_str_def show_nat.simps hex_byte_def hex_digit_def digit_char_def char_of_def bit_0)
  show ?thesis
    unfolding h [symmetric]
    by (rule info_hash_of_dict) (simp_all add: infoMarker_def byte_of_def)
qed

text \<open>
  Property C13: when the first integer of the \<open>info\<close> dictionary is one of its own entries (in
  every single-file torrent: \<open>length\<close>, the first key) the result is not the info hash. It is
  the SHA-1 of the dictionary cut off after that entry, a proper prefix of its encoding, so all
  that follows (name, piece length and piece hashes included) does not count, and files that
  differ only there get the same hash. The entries before it may be any strings, lists and
  dictionaries without integers and empty strings, and \<open>4:info\<close> is not found earlier in the file.
\<close>

theorem info_hash_stops_at_integer:
  assumes "scannable (BDict before)" and "k \<noteq> []"
    and "kvs = before @ (k, BInt n) # after"
    and "\<forall>i < length pre. take 6 (drop i (pre @ infoMarker @ ben_enc (BDict kvs) @ rest)) \<noteq> infoMarker"
  shows "infoHashFromTorrentBytes sha1 (pre @ infoMarker @ ben_enc (BDict kvs) @ rest) =
    Some (concat (map hex_byte (sha1 (0x64 # dict_body before @ ben_str k @ ben_int n)))) \<and>
    (\<exists>x left. ben_enc (BDict kvs) = (0x64 # dict_body before @ ben_str k @ ben_int n) @ x # left)"
proof -
  let ?cut = "dict_body before @ ben_str k @ ben_int n"
  let ?tail = "?cut @ dict_body after @ 0x65 # rest"
  let ?bytes = "pre @ infoMarker @ 0x64 # ?tail"
  let ?i = "length pre + 6"
  have shape: "ben_enc (BDict kvs) @ rest = 0x64 # ?tail"
    by (simp add: assms(3) ben_enc_dict dict_body_def del: ben_enc.simps(4))
  have dr: "drop ?i ?bytes = 0x64 # ?tail" by (rule drop_marker)
  have d1: "drop (Suc ?i) ?bytes = dict_body before @ ben_str k @ ben_int n @ dict_body after @ 0x65 # rest"
    using drop_step [OF dr] by simp
  note d2 = drop_steps [OF d1]
  note d3 = drop_steps [OF d2]
  have "scan ?bytes ?i 0 None = scan ?bytes (Suc ?i) 1 None"
    using scan_open [OF dr] by simp
  also have "\<dots> = scan ?bytes (Suc ?i + length (dict_body before)) 1 None"
    by (rule scan_entries [OF assms(1) _ d1]) simp
  also have "\<dots> = scan ?bytes (Suc ?i + length (dict_body before) + length (ben_str k)) 1 None"
    by (rule scan_string [OF d2 assms(2)])
  also have "\<dots> = Some (?i + length (0x64 # ?cut))"
    unfolding scan_int [OF d3] by simp
  finally have hash: "infoHashFromTorrentBytes sha1 (pre @ infoMarker @ ben_enc (BDict kvs) @ rest) =
      Some (concat (map hex_byte (sha1 (0x64 # ?cut))))"
    using infoHash_scan [OF assms(4) [unfolded shape], of "length (0x64 # ?cut)"]
    unfolding shape by simp
  have "ben_enc (BDict kvs) = (0x64 # ?cut) @ dict_body after @ [0x65]"
    by (simp add: assms(3) ben_enc_dict dict_body_def del: ben_enc.simps(4))
  moreover obtain x left where "dict_body after @ [0x65] = x # left" by (cases "dict_body after") auto
  ultimately show ?thesis using hash by auto
qed

text \<open>Single-file torrents as a client writes them, that differ only in the piece hashes.\<close>

definition single_file_info :: "string \<Rightarrow> (byte list \<times> bencode) list" where
  "single_file_info pieces =
     [(map byte_of ''length'', BInt 42), (map byte_of ''name'', BStr (map byte_of ''a.iso'')),
      (map byte_of ''piece length'', BInt 16384), (map byte_of ''pieces'', BStr (map byte_of pieces))]"

definition single_file_head :: "byte list" where
  "single_file_head = map byte_of ''d8:announce17:http://t/announce''"

definition single_file_torrent :: "string \<Rightarrow> byte list" where
  "single_file_torrent pieces =
     single_file_head @ infoMarker @ ben_enc (BDict (single_file_info pieces)) @ [0x65]"

theorem info_hash_stops_at_integer_witness:
  "infoHashFromTorrentBytes (\<lambda>bs. bs) (single_file_torrent ''aaaaaaaaaaaaaaaaaaaa'') =
   infoHashFromTorrentBytes (\<lambda>bs. bs) (single_file_torrent ''zzzzzzzzzzzzzzzzzzzz'')"
proof -
  have no: "\<forall>i < length single_file_head.
      take 6 (drop i (single_file_head @ infoMarker @ bs)) \<noteq> infoMarker" for bs
    by (simp add: single_file_head_def infoMarker_def byte_of_def All_less_Suc)
  have "infoHashFromTorrentBytes (\<lambda>bs. bs) (single_file_torrent p) =
      Some (concat (map hex_byte ((\<lambda>bs. bs) (0x64 # dict_body [] @ ben_str (map byte_of ''length'') @ ben_int 42))))" for p
    unfolding single_file_torrent_def
    by (rule conjunct1, rule info_hash_stops_at_integer [where before = "[]"])
      (simp, simp, simp add: single_file_info_def, rule no)
  then show ?thesis by simp
qed

text \<open>
  Further fact: from a magnet link whose first \<open>xt\<close> parameter is \<open>urn:btih:\<close> and 40 hex digits
  the parser returns those digits in lower case, whatever parameters follow; and whatever
  it returns on any input is 40 hex digits.
\<close>

theorem magnet_hash:
  assumes "url_ok magnet"
    and "magnet = ''magnet:?xt=urn:btih:'' @ hash @ rest"
    and "rest = [] \<or> (\<exists>more. rest = CHR ''&'' # more)"
    and "length hash = 40" and "list_all is_hex hash"
  shows "infoHashFromMagnet url_ok magnet = Some (js_lower hash) \<and>
         (\<forall>m h. infoHashFromMagnet url_ok m = Some h \<longrightarrow> length h = 40 \<and> list_all is_hex h)"
proof
  have hex: "c \<noteq> d" if "c \<in> set hash" "\<not> is_hex d" for c d
    using assms(5) that by (auto simp: list_all_iff)
  have no: "CHR ''#'' \<notin> set hash" "CHR ''&'' \<notin> set hash" "CHR ''%'' \<notin> set hash"
    "CHR ''+'' \<notin> set hash" "CHR 0x0A \<notin> set hash" "CHR 0x0D \<notin> set hash"
    using hex by (force simp: is_hex_def is_digit_def)+
  let ?p = "''xt=urn:btih:'' @ hash"
  obtain tail where q: "url_query magnet = ?p @ tail" and tail: "tail = [] \<or> (\<exists>more. tail = CHR ''&'' # more)"
  proof -
    have "takeWhile (\<lambda>c. c \<noteq> CHR ''#'') magnet =
        ''magnet:?xt=urn:btih:'' @ hash @ takeWhile (\<lambda>c. c \<noteq> CHR ''#'') rest"
      using no(1) by (auto simp: assms(2) takeWhile_append)
    then have "url_query magnet = ?p @ takeWhile (\<lambda>c. c \<noteq> CHR ''#'') rest"
      by (simp add: url_query_def)
    with that assms(3) show thesis by auto
  qed
  have amp: "CHR ''&'' \<notin> set ?p" using no(2) by simp
  from tail have sp: "\<exists>ps. js_split CHR ''&'' (url_query magnet) = ?p # ps"
    unfolding q using js_split_no_sep [OF amp] js_split_append [OF amp] by auto
  have xt: "form_decode ''xt'' = ''xt''" "form_decode (''urn:btih:'' @ hash) = ''urn:btih:'' @ hash"
    using no(3,4) by (auto intro!: form_decode_plain)
  have "search_param ''xt'' (js_split CHR ''&'' (url_query magnet)) = Some (''urn:btih:'' @ hash)"
    using sp xt by auto
  then show "infoHashFromMagnet url_ok magnet = Some (js_lower hash)"
    using assms(1,4,5) no(5,6)
    by (auto simp: infoHashFromMagnet_def js_lower_def lower_char_def)
  show "\<forall>m h. infoHashFromMagnet url_ok m = Some h \<longrightarrow> length h = 40 \<and> list_all is_hex h"
    by (auto simp: infoHashFromMagnet_def Let_def js_lower_def list_all_iff is_hex_lower
        split: option.splits if_splits)
qed

theorem magnet_hash_witness:
  "infoHashFromMagnet (\<lambda>_. True) (''magnet:?xt=urn:btih:'' @ replicate 40 CHR ''A'' @ ''&dn=x'') =
     Some (replicate 40 CHR ''a'')"
proof -
  have "js_lower (replicate 40 CHR ''A'') = replicate 40 CHR ''a''"
    by (simp add: js_lower_def lower_char_def char_of_def bit_0)
  then show ?thesis
    using magnet_hash [of "\<lambda>_. True" "''magnet:?xt=urn:btih:'' @ replicate 40 CHR ''A'' @ ''&dn=x''"
        "replicate 40 CHR ''A''" "''&dn=x''"]
    by (simp add: list_all_iff is_hex_def)
qed

end
