(* ===== verification/Vpn.thy ===== *)
theory Vpn
  imports Api Types
begin

text \<open>
  VPN detection and the kill switch: \<open>detectVpn\<close> of the main process (\<open>main/main.ts\<close>), the
  best-effort status (\<open>renderer/lib/net/vpn.ts\<close>), and the effect that stops the torrents
  when the VPN drops, in \<open>renderer/ui/App.tsx\<close> and in the hook
  \<open>renderer/utils/useVpnMonitoring.ts\<close>.

  \<open>os.networkInterfaces()\<close> is the list of interface names with their number of addresses.
  An effect returns the state of its two refs and the list of what it does, in order.
\<close>

record local_vpn =
  lv_detected :: bool
  lv_interfaceName :: "string option"

text \<open>\<open>/^p\d+/i\<close>, \<open>/w/i\<close> and \<open>/a.*b/i\<close> on an interface name.\<close>

definition prefix_digits :: "string \<Rightarrow> string \<Rightarrow> bool" where
  "prefix_digits p name \<longleftrightarrow> starts_with (js_lower name) p \<and>
     (case drop (length p) name of [] \<Rightarrow> False | c # _ \<Rightarrow> is_digit c)"

definition word_in :: "string \<Rightarrow> string \<Rightarrow> bool" where
  "word_in w name \<longleftrightarrow> js_includes (js_lower name) w"

fun two_words :: "string \<Rightarrow> string \<Rightarrow> string \<Rightarrow> bool" where
  "two_words a b [] = False"
| "two_words a b (c # s) =
     ((starts_with (js_lower (c # s)) a \<and>
       word_in b (takeWhile (\<lambda>x. x \<noteq> CHR 0x0A \<and> x \<noteq> CHR 0x0D) (drop (length a) (c # s)))) \<or>
      two_words a b s)"

definition vpnPatterns :: "(string \<Rightarrow> bool) list" where
  "vpnPatterns =
     [prefix_digits ''tun'', prefix_digits ''tap'', prefix_digits ''wg'', prefix_digits ''utun'',
      prefix_digits ''ppp'', word_in ''vpn'', word_in ''tunnel'', word_in ''nordlynx'',
      word_in ''openvpn'', word_in ''wireguard'', word_in ''proton'', word_in ''expressvpn'',
      word_in ''surfshark'', word_in ''mullvad'', word_in ''nordvpn'', word_in ''cyberghost'',
      two_words ''private'' ''internet'', word_in ''pia'', word_in ''tailscale'', word_in ''wintun'']"

definition windows_name :: "string \<Rightarrow> bool" where
  "windows_name name =
     (let lowerName = js_lower name in
      js_includes lowerName ''tap'' \<or> js_includes lowerName ''tun'' \<or> js_includes lowerName ''vpn'' \<or>
      js_includes lowerName ''tunnel'' \<or> js_includes lowerName ''mullvad'' \<or>
      js_includes lowerName ''nordvpn'' \<or> js_includes lowerName ''wireguard'' \<or>
      js_includes lowerName ''openvpn'' \<or> js_includes lowerName ''wintun'')"

fun detectVpn :: "bool \<Rightarrow> (string \<times> nat) list \<Rightarrow> local_vpn" where
  "detectVpn win32 [] = \<lparr>lv_detected = False, lv_interfaceName = None\<rparr>"
| "detectVpn win32 ((name, addrs) # interfaces) =
     (if addrs = 0 then detectVpn win32 interfaces
      else if \<exists>pattern \<in> set vpnPatterns. pattern name
        then \<lparr>lv_detected = True, lv_interfaceName = Some name\<rparr>
      else if win32 \<and> windows_name name
        then \<lparr>lv_detected = True, lv_interfaceName = Some name\<rparr>
      else detectVpn win32 interfaces)"

subsection \<open>Best-effort status\<close>

definition no_signals :: vpn_signals where
  "no_signals = \<lparr>sg_adapter_match = False, sg_default_route_match = False, sg_dns_match = False,
                 sg_public_ip_match = None\<rparr>"

text \<open>
  \<open>orc\<close> is what \<open>window.orc?.vpnStatus?.()\<close> settles to: a rejection, nothing, or the main
  process's answer. The daemon's status has its posture by the type.
\<close>

definition vpn_fallback :: "thrown + local_vpn option \<Rightarrow> time \<Rightarrow> vpn_status" where
  "vpn_fallback orc now = (case orc of
     Inr (Some l) \<Rightarrow>
       \<lparr>vs_posture = (if lv_detected l then PostureConnected else PostureDisconnected),
        vs_interface = lv_interfaceName l, vs_default_route_interface = lv_interfaceName l,
        vs_dns_servers = [], vs_signals = no_signals, vs_last_check_ms = now,
        vs_connection_type = (if lv_detected l then ConnVpn else ConnNonVpn), vs_public_ip = None,
        vs_detected = Some (lv_detected l), vs_interfaceName = lv_interfaceName l\<rparr>
   | _ \<Rightarrow>
       \<lparr>vs_posture = PostureUnknown, vs_interface = None, vs_default_route_interface = None,
        vs_dns_servers = [], vs_signals = no_signals, vs_last_check_ms = now,
        vs_connection_type = ConnNonVpn, vs_public_ip = None, vs_detected = None,
        vs_interfaceName = None\<rparr>)"

definition getVpnStatusBestEffort ::
    "(string \<Rightarrow> thrown + vpn_status option) \<Rightarrow> (nat \<Rightarrow> attempt) \<Rightarrow> thrown + local_vpn option \<Rightarrow> time
      \<Rightarrow> conn \<Rightarrow> vpn_status \<times> conn" where
  "getVpnStatusBestEffort parse net orc now c =
     (let (s, c1) = getJson parse net ''/net/vpn-status'' c in
      case s of
        Inr (Some st) \<Rightarrow>
          if vs_posture st \<noteq> PostureUnknown then (st, c1) else (vpn_fallback orc now, c1)
      | _ \<Rightarrow> (vpn_fallback orc now, c1))"

subsection \<open>The kill switch effect\<close>

text \<open>
  What the effect reads (React state) and keeps (two refs), and what it does. Toasts carry
  their kind; an event its severity, message and details.
\<close>

record kill_inputs =
  ki_vpnStatus :: "vpn_status option"
  ki_killSwitch_enabled :: "bool option"
  ki_leak_proof_enabled :: "bool option"
  ki_torrents :: "torrent list"
  ki_statuses :: "(string, torrent_status) jmap"

record kill_refs =
  prevVpnStatus :: "vpn_status option"
  vpnKillSwitchActive :: bool

datatype kill_action =
    StopTorrents "string list"
  | PushToast string string
  | ShowKillSwitch "string option"
  | ShowReleased
  | PushEvent event_severity string "(string \<times> nat) list"

definition kill_refs_init :: kill_refs where
  "kill_refs_init = \<lparr>prevVpnStatus = None, vpnKillSwitchActive = False\<rparr>"

definition is_connected :: "vpn_status option \<Rightarrow> bool" where
  "is_connected vpn = (case vpn of
     None \<Rightarrow> False
   | Some v \<Rightarrow> vs_posture v = PostureConnected \<and>
       (vs_connection_type v = ConnVpn \<or> vs_detected v = Some True))"

definition kill_enabled :: "kill_inputs \<Rightarrow> bool" where
  "kill_enabled ki = (case ki_killSwitch_enabled ki of
     Some b \<Rightarrow> b
   | None \<Rightarrow> (case ki_leak_proof_enabled ki of Some b \<Rightarrow> b | None \<Rightarrow> False))"

definition running_ids :: "torrent list \<Rightarrow> (string, torrent_status) jmap \<Rightarrow> string list" where
  "running_ids torrents statuses =
     map t_id (filter (\<lambda>t. case jm_get statuses (t_id t) of
                            None \<Rightarrow> False | Some s \<Rightarrow> is_active s) torrents)"

definition em_dash :: string where
  "em_dash = utf8 [226, 128, 148]"

definition kill_actions :: "string list \<Rightarrow> kill_action list" where
  "kill_actions runningIds =
     (let n = show_nat (length runningIds) in
      if runningIds \<noteq> [] then
        [StopTorrents runningIds,
         PushToast ''error'' (''VPN disconnected: '' @ n @ '' torrent(s) stopped (kill switch active)''),
         ShowKillSwitch (Some (''VPN disconnected '' @ em_dash @ '' '' @ n @ '' torrent(s) stopped.'')),
         PushEvent SevError (''VPN disconnected - '' @ n @ '' torrent(s) stopped'')
           [(''stoppedTorrents'', length runningIds)]]
      else
        [PushToast ''error'' ''VPN disconnected (kill switch active)'',
         ShowKillSwitch None,
         PushEvent SevError ''VPN disconnected - kill switch activated'' []])"

definition release_actions :: "kill_action list" where
  "release_actions =
     [PushToast ''info'' ''VPN reconnected: You can now resume torrents'',
      ShowReleased,
      PushEvent SevSuccess ''VPN reconnected - kill switch released'' []]"

definition kill_switch_effect :: "kill_inputs \<Rightarrow> kill_refs \<Rightarrow> kill_action list \<times> kill_refs" where
  "kill_switch_effect ki refs =
     (if \<not> kill_enabled ki
      then ([], \<lparr>prevVpnStatus = ki_vpnStatus ki, vpnKillSwitchActive = False\<rparr>)
      else
        (let wasConnected = is_connected (prevVpnStatus refs);
             isConnected = is_connected (ki_vpnStatus ki);
             dropped = wasConnected \<and> \<not> isConnected;
             active = (dropped \<or> vpnKillSwitchActive refs);
             down = (if dropped then kill_actions (running_ids (ki_torrents ki) (ki_statuses ki)) else []);
             released = \<not> wasConnected \<and> isConnected \<and> active;
             up = (if released then release_actions else []) in
         (down @ up, \<lparr>prevVpnStatus = ki_vpnStatus ki,
                     vpnKillSwitchActive = (active \<and> \<not> released)\<rparr>)))"

text \<open>The hook's effect: no fallback on the posture's leak-proof flag, and no events.\<close>

definition vpn_monitor_effect :: "kill_inputs \<Rightarrow> kill_refs \<Rightarrow> kill_action list \<times> kill_refs" where
  "vpn_monitor_effect ki refs =
     (let killSwitchEnabled = (case ki_killSwitch_enabled ki of Some b \<Rightarrow> b | None \<Rightarrow> False) in
      if \<not> killSwitchEnabled
      then ([], \<lparr>prevVpnStatus = ki_vpnStatus ki, vpnKillSwitchActive = False\<rparr>)
      else
        (let wasConnected = is_connected (prevVpnStatus refs);
             isConnected = is_connected (ki_vpnStatus ki);
             runningIds = running_ids (ki_torrents ki) (ki_statuses ki);
             n = show_nat (length runningIds);
             active = (if wasConnected \<and> \<not> isConnected then True else vpnKillSwitchActive refs);
             down = (if wasConnected \<and> \<not> isConnected then
                 (if runningIds \<noteq> [] then
                    [StopTorrents runningIds,
                     PushToast ''error'' (''VPN disconnected: '' @ n @ '' torrent(s) stopped (kill switch active)''),
                     ShowKillSwitch (Some (''VPN disconnected '' @ em_dash @ '' '' @ n @ '' torrent(s) stopped.''))]
                  else
                    [PushToast ''error'' ''VPN disconnected (kill switch active)'', ShowKillSwitch None])
               else []);
             released = \<not> wasConnected \<and> isConnected \<and> active;
             up = (if released then
                     [PushToast ''info'' ''VPN reconnected: You can now resume torrents'', ShowReleased]
                   else []) in
         (down @ up, \<lparr>prevVpnStatus = ki_vpnStatus ki,
                     vpnKillSwitchActive = (if released then False else active)\<rparr>)))"

text \<open>A run: the effect for each value its inputs take.\<close>

fun kill_run :: "kill_refs \<Rightarrow> kill_inputs list \<Rightarrow> kill_action list \<times> kill_refs" where
  "kill_run refs [] = ([], refs)"
| "kill_run refs (ki # kis) =
     (let (as, refs1) = kill_switch_effect ki refs; (bs, refs2) = kill_run refs1 kis in
      (as @ bs, refs2))"

text \<open>
  The periodic fetch that feeds the effect, when the daemon is online. Its two requests run
  in parallel; here they are one after the other, their results do not depend on each other.
\<close>

record vpn_state =
  vst_vpnStatus :: "vpn_status option"
  vst_killSwitch :: "kill_switch_config option"

definition fetchVpnAndKillSwitch ::
    "(string \<Rightarrow> thrown + vpn_status option) \<Rightarrow> (string \<Rightarrow> thrown + kill_switch_config option)
      \<Rightarrow> (nat \<Rightarrow> attempt) \<Rightarrow> thrown + local_vpn option \<Rightarrow> bool \<Rightarrow> time
      \<Rightarrow> conn \<times> vpn_state \<Rightarrow> conn \<times> vpn_state" where
  "fetchVpnAndKillSwitch parse_vpn parse_ks net orc online now cs = (case cs of (c, st) \<Rightarrow>
     if \<not> online then (c, st)
     else
       (let (vpn, c1) = getVpnStatusBestEffort parse_vpn net orc now c;
            (ks, c2) = getJson parse_ks net ''/net/kill-switch'' c1;
            st1 = st\<lparr>vst_vpnStatus := Some vpn\<rparr> in
        (c2, case ks of Inr (Some k) \<Rightarrow> st1\<lparr>vst_killSwitch := Some k\<rparr> | _ \<Rightarrow> st1)))"

definition refreshVpnStatus ::
    "(string \<Rightarrow> thrown + vpn_status option) \<Rightarrow> (nat \<Rightarrow> attempt) \<Rightarrow> thrown + local_vpn option \<Rightarrow> bool
      \<Rightarrow> time \<Rightarrow> conn \<times> vpn_state \<Rightarrow> conn \<times> vpn_state" where
  "refreshVpnStatus parse_vpn net orc online now cs = (case cs of (c, st) \<Rightarrow>
     if \<not> online then (c, st)
     else (let (vpn, c1) = getVpnStatusBestEffort parse_vpn net orc now c in
           (c1, st\<lparr>vst_vpnStatus := Some vpn\<rparr>)))"

subsection \<open>Lemmas\<close>

definition vpn_name :: "bool \<Rightarrow> string \<Rightarrow> bool" where
  "vpn_name win32 name \<longleftrightarrow>
     (\<exists>pattern \<in> set vpnPatterns. pattern name) \<or> (win32 \<and> windows_name name)"

lemma detectVpn_Cons:
  "detectVpn win32 (p # ifs) = (if snd p \<noteq> 0 \<and> vpn_name win32 (fst p)
     then \<lparr>lv_detected = True, lv_interfaceName = Some (fst p)\<rparr> else detectVpn win32 ifs)"
  unfolding vpn_name_def
  by (cases p; cases "snd p = 0"; cases "\<exists>pattern \<in> set vpnPatterns. pattern (fst p)") (simp_all only:
    detectVpn.simps fst_conv snd_conv if_True if_False simp_thms cong: if_cong)

lemma detectVpn_find:
  "detectVpn win32 ifs = (case find (\<lambda>(n, a). a \<noteq> 0 \<and> vpn_name win32 n) ifs of
     None \<Rightarrow> \<lparr>lv_detected = False, lv_interfaceName = None\<rparr>
   | Some (n, a) \<Rightarrow> \<lparr>lv_detected = True, lv_interfaceName = Some n\<rparr>)"
  by (induction ifs) (auto simp del: detectVpn.simps(2) simp: detectVpn_Cons)

lemma vpn_fallback_connected:
  "is_connected (Some (vpn_fallback orc now)) \<longleftrightarrow> (\<exists>l. orc = Inr (Some l) \<and> lv_detected l)"
  by (auto simp: vpn_fallback_def is_connected_def split: sum.split option.split)

lemma vpn_fallback_unknown:
  "vs_posture (vpn_fallback orc now) = PostureUnknown \<longleftrightarrow> \<not> (\<exists>l. orc = Inr (Some l))"
  by (auto simp: vpn_fallback_def split: sum.split option.split)

text \<open>What the daemon said, when it said something usable.\<close>

definition daemon_posture ::
    "(string \<Rightarrow> thrown + vpn_status option) \<Rightarrow> (nat \<Rightarrow> attempt) \<Rightarrow> conn \<Rightarrow> vpn_status option" where
  "daemon_posture parse net c = (case fst (getJson parse net ''/net/vpn-status'' c) of
     Inr (Some st) \<Rightarrow> if vs_posture st \<noteq> PostureUnknown then Some st else None
   | _ \<Rightarrow> None)"

lemma getVpnStatusBestEffort_fst:
  "fst (getVpnStatusBestEffort parse net orc now c) =
     (case daemon_posture parse net c of Some st \<Rightarrow> st | None \<Rightarrow> vpn_fallback orc now)"
  by (auto simp: getVpnStatusBestEffort_def daemon_posture_def split: prod.split sum.split option.split)

lemma kill_actions_no_release: "ShowReleased \<notin> set (kill_actions ids)"
  by (simp add: kill_actions_def Let_def)

lemma stop_in_kill_actions: "StopTorrents ids \<in> set (kill_actions ids') \<longleftrightarrow> ids = ids' \<and> ids \<noteq> []"
  by (auto simp: kill_actions_def Let_def)

lemma stop_in_release_actions: "StopTorrents ids \<notin> set release_actions"
  by (simp add: release_actions_def)

text \<open>The notifications of an action list: \<open>True\<close> for a kill, \<open>False\<close> for a release.\<close>

fun kill_signals :: "kill_action list \<Rightarrow> bool list" where
  "kill_signals [] = []"
| "kill_signals (ShowKillSwitch d # as) = True # kill_signals as"
| "kill_signals (ShowReleased # as) = False # kill_signals as"
| "kill_signals (StopTorrents ids # as) = kill_signals as"
| "kill_signals (PushToast k m # as) = kill_signals as"
| "kill_signals (PushEvent s m d # as) = kill_signals as"

fun alternates :: "bool \<Rightarrow> bool list \<Rightarrow> bool" where
  "alternates b [] = True"
| "alternates b (x # xs) = (x = b \<and> alternates (\<not> b) xs)"

lemma kill_signals_append: "kill_signals (as @ bs) = kill_signals as @ kill_signals bs"
  by (induction as rule: kill_signals.induct) auto

lemma kill_signals_kill: "kill_signals (kill_actions ids) = [True]"
  by (simp add: kill_actions_def Let_def)

lemma kill_signals_release: "kill_signals release_actions = [False]"
  by (simp add: release_actions_def)

text \<open>While the switch is active, the VPN was last seen not connected.\<close>

definition kill_inv :: "kill_refs \<Rightarrow> bool" where
  "kill_inv refs \<longleftrightarrow> (vpnKillSwitchActive refs \<longrightarrow> \<not> is_connected (prevVpnStatus refs))"

lemma kill_inv_init: "kill_inv kill_refs_init"
  by (simp add: kill_inv_def kill_refs_init_def)

lemma kill_inv_step: "kill_inv refs \<Longrightarrow> kill_inv (snd (kill_switch_effect ki refs))"
  by (auto simp: kill_inv_def kill_switch_effect_def Let_def)

lemma kill_effect_signals:
  assumes "kill_enabled ki" and "kill_inv refs"
  shows "kill_signals (fst (kill_switch_effect ki refs)) =
    (if vpnKillSwitchActive (snd (kill_switch_effect ki refs)) = vpnKillSwitchActive refs then []
     else [\<not> vpnKillSwitchActive refs])"
  using assms
  by (auto simp: kill_inv_def kill_switch_effect_def Let_def kill_signals_append
      kill_signals_kill kill_signals_release)

lemma kill_run_inv: "kill_inv refs \<Longrightarrow> kill_inv (snd (kill_run refs kis))"
proof (induction kis arbitrary: refs)
  case (Cons ki kis)
  then show ?case using kill_inv_step [of refs ki] by (simp add: split: prod.split) (metis snd_conv)
qed simp

lemma kill_run_alternates:
  "kill_inv refs \<Longrightarrow> \<forall>ki \<in> set kis. kill_enabled ki \<Longrightarrow>
   alternates (\<not> vpnKillSwitchActive refs) (kill_signals (fst (kill_run refs kis)))"
proof (induction kis arbitrary: refs)
  case (Cons ki kis)
  obtain as refs1 where e: "kill_switch_effect ki refs = (as, refs1)" by fastforce
  obtain bs refs2 where r: "kill_run refs1 kis = (bs, refs2)" by fastforce
  have "kill_inv refs1" using kill_inv_step [OF Cons.prems(1), of ki] e by simp
  then have "alternates (\<not> vpnKillSwitchActive refs1) (kill_signals bs)"
    using Cons.IH [of refs1] Cons.prems(2) r by simp
  moreover have "kill_signals as =
      (if vpnKillSwitchActive refs1 = vpnKillSwitchActive refs then [] else [\<not> vpnKillSwitchActive refs])"
    using kill_effect_signals [of ki refs] Cons.prems e by simp
  ultimately show ?case by (auto simp: e r kill_signals_append split: if_splits)
qed simp

lemma kill_effect_stops:
  "StopTorrents ids \<in> set (fst (kill_switch_effect ki refs)) \<longleftrightarrow>
     kill_enabled ki \<and> is_connected (prevVpnStatus refs) \<and> \<not> is_connected (ki_vpnStatus ki) \<and>
     ids = running_ids (ki_torrents ki) (ki_statuses ki) \<and> ids \<noteq> []"
  by (auto simp: kill_switch_effect_def Let_def stop_in_kill_actions stop_in_release_actions)

subsection \<open>Properties\<close>

text \<open>
  Further fact: when the kill switch is on, its effect stops torrents exactly when the VPN status
  goes from connected to not connected, and then it stops exactly the torrents that are
  downloading or seeding. In particular nothing is stopped while the VPN stays down, however
  many torrents start then.
\<close>

theorem kill_switch_stops_on_drop:
  "StopTorrents ids \<in> set (fst (kill_switch_effect ki refs)) \<longleftrightarrow>
     kill_enabled ki \<and> is_connected (prevVpnStatus refs) \<and> \<not> is_connected (ki_vpnStatus ki) \<and>
     ids = running_ids (ki_torrents ki) (ki_statuses ki) \<and> ids \<noteq> []"
  by (rule kill_effect_stops)

text \<open>
  Further fact: while the kill switch stays on, kill and release notifications alternate, starting
  with a kill, and the switch counts as active only while the VPN is not connected.
\<close>

theorem kill_switch_alternates:
  assumes "\<forall>ki \<in> set kis. kill_enabled ki"
  shows "alternates True (kill_signals (fst (kill_run kill_refs_init kis))) \<and>
         (vpnKillSwitchActive (snd (kill_run kill_refs_init kis)) \<longrightarrow>
            \<not> is_connected (prevVpnStatus (snd (kill_run kill_refs_init kis))))"
  using kill_run_alternates [OF kill_inv_init assms] kill_run_inv [OF kill_inv_init, of kis]
  by (simp add: kill_refs_init_def kill_inv_def)

definition sample_inputs :: "bool \<Rightarrow> kill_inputs" where
  "sample_inputs up = \<lparr>ki_vpnStatus = Some (vpn_fallback
       (Inr (Some \<lparr>lv_detected = up, lv_interfaceName = Some ''wg0''\<rparr>)) 0),
     ki_killSwitch_enabled = Some True, ki_leak_proof_enabled = None, ki_torrents = [], ki_statuses = []\<rparr>"

theorem kill_switch_alternates_witness:
  "alternates True (kill_signals (fst (kill_run kill_refs_init (map sample_inputs [True, False, True])))) \<and>
   kill_signals (fst (kill_run kill_refs_init (map sample_inputs [True, False, True]))) = [True, False]"
proof
  show "alternates True (kill_signals (fst (kill_run kill_refs_init (map sample_inputs [True, False, True]))))"
    by (rule kill_switch_alternates [THEN conjunct1])
      (simp add: sample_inputs_def kill_enabled_def)
  show "kill_signals (fst (kill_run kill_refs_init (map sample_inputs [True, False, True]))) = [True, False]"
    by (simp add: sample_inputs_def kill_refs_init_def kill_switch_effect_def kill_enabled_def
        vpn_fallback_def is_connected_def kill_actions_def release_actions_def running_ids_def)
qed

text \<open>
  Further fact: the hook and the App agree: on the same inputs, when the leak-proof flag does not
  decide whether the switch is on, the hook does what the App does except for recording
  events, and keeps the same state.
\<close>

theorem vpn_hook_agrees:
  assumes "ki_killSwitch_enabled ki \<noteq> None \<or> ki_leak_proof_enabled ki = None"
  shows "vpn_monitor_effect ki refs =
    (filter (\<lambda>a. case a of PushEvent _ _ _ \<Rightarrow> False | _ \<Rightarrow> True) (fst (kill_switch_effect ki refs)),
     snd (kill_switch_effect ki refs))"
  using assms
  by (auto simp: vpn_monitor_effect_def kill_switch_effect_def kill_enabled_def kill_actions_def
      release_actions_def Let_def split: option.splits)

theorem vpn_hook_agrees_witness:
  "vpn_monitor_effect (sample_inputs False) \<lparr>prevVpnStatus = ki_vpnStatus (sample_inputs True),
       vpnKillSwitchActive = False\<rparr> =
     (filter (\<lambda>a. case a of PushEvent _ _ _ \<Rightarrow> False | _ \<Rightarrow> True)
        (fst (kill_switch_effect (sample_inputs False)
          \<lparr>prevVpnStatus = ki_vpnStatus (sample_inputs True), vpnKillSwitchActive = False\<rparr>)),
      snd (kill_switch_effect (sample_inputs False)
          \<lparr>prevVpnStatus = ki_vpnStatus (sample_inputs True), vpnKillSwitchActive = False\<rparr>))"
  by (rule vpn_hook_agrees) (simp add: sample_inputs_def)

text \<open>
  Further fact: the status shown is the daemon's whenever the daemon reports a posture other than
  unknown; otherwise it says connected exactly when the main process sees an interface with
  an address and a VPN name, and names the first such interface.
\<close>

theorem vpn_status_sources:
  assumes "res = fst (getVpnStatusBestEffort parse net (Inr (Some (detectVpn win32 ifs))) now c)"
  shows "(\<forall>st. daemon_posture parse net c = Some st \<longrightarrow> res = st) \<and>
         (daemon_posture parse net c = None \<longrightarrow>
            (is_connected (Some res) \<longleftrightarrow> (\<exists>n a. (n, a) \<in> set ifs \<and> a \<noteq> 0 \<and> vpn_name win32 n)) \<and>
            vs_interface res = map_option fst (find (\<lambda>(n, a). a \<noteq> 0 \<and> vpn_name win32 n) ifs))"
proof -
  have "lv_detected (detectVpn win32 ifs) \<longleftrightarrow> (\<exists>n a. (n, a) \<in> set ifs \<and> a \<noteq> 0 \<and> vpn_name win32 n)"
  proof (induction ifs)
    case (Cons p ifs)
    obtain n a where "p = (n, a)" by (cases p)
    with Cons.IH show ?case by (simp only: detectVpn_Cons) auto
  qed simp
  moreover have "lv_interfaceName (detectVpn win32 ifs) =
      map_option fst (find (\<lambda>(n, a). a \<noteq> 0 \<and> vpn_name win32 n) ifs)"
    by (simp add: detectVpn_find split: option.split)
  moreover have "vs_interface (vpn_fallback (Inr (Some l)) now) = lv_interfaceName l" for l
    by (simp add: vpn_fallback_def)
  ultimately show ?thesis
    unfolding assms getVpnStatusBestEffort_fst
    by (auto simp: vpn_fallback_connected split: option.split)
qed

lemma silent_posture: "daemon_posture (\<lambda>_. Inr None) net c = None"
  by (auto simp: daemon_posture_def getJson_def finish_json_def read_json_def
      split: sum.split option.split prod.split)

theorem vpn_status_sources_witness:
  "vs_interface (fst (getVpnStatusBestEffort (\<lambda>_. Inr None) sample_net
      (Inr (Some (detectVpn False [(''eth0'', 2), (''WG1'', 0), (''Mullvad'', 1)]))) 0 conn_init)) =
     Some ''Mullvad''"
proof -
  have silent: "daemon_posture (\<lambda>_. Inr None) sample_net conn_init = None"
    by (rule silent_posture)
  have "find (\<lambda>(n, a). a \<noteq> 0 \<and> vpn_name False n) [(''eth0'', 2), (''WG1'', 0 :: nat), (''Mullvad'', 1)] =
      Some (''Mullvad'', 1)"
    by (simp add: vpn_name_def vpnPatterns_def prefix_digits_def word_in_def js_lower_def lower_char_def
        char_of_def bit_0 js_simps)
  with vpn_status_sources [OF refl, of "\<lambda>_. Inr None" sample_net conn_init False
      "[(''eth0'', 2), (''WG1'', 0), (''Mullvad'', 1)]" 0] silent
  show ?thesis by (simp only: simp_thms option.map fst_conv)
qed

end
