(* ===== verification/DaemonProbe.thy ===== *)
theory DaemonProbe
  imports Prelude
begin

text \<open>
  How the main process asks the daemon whether it is up (\<open>main/main.ts\<close>): the HTTP helper,
  the health and readiness probes and the three polling loops. \<open>JSON.parse\<close> is the
  parameter \<open>parse\<close>.

  A loop reads the clock through the durations of its probes: \<open>dur n\<close> is how long probe
  \<open>n\<close> takes and \<open>up n\<close> what it finds. The loops are partial functions on the time elapsed;
  that they return is proved.
\<close>

definition DAEMON_PORT :: nat where "DAEMON_PORT = 8733"
definition DAEMON_HTTP_TIMEOUT_MS :: nat where "DAEMON_HTTP_TIMEOUT_MS = 5000"
definition DAEMON_HEALTH_CHECK_TIMEOUT_MS :: nat where "DAEMON_HEALTH_CHECK_TIMEOUT_MS = 10000"

datatype json =
    JNull
  | JBool bool
  | JNum int
  | JStr string
  | JArr "json list"
  | JObj "(string \<times> json) list"

datatype http_event =
    HttpResponse nat string string
  | HttpError string
  | HttpTimeout

definition httpRequestJson :: "(string \<Rightarrow> json option) \<Rightarrow> http_event \<Rightarrow> string + json" where
  "httpRequestJson parse ev = (case ev of
     HttpResponse statusCode data statusMessage \<Rightarrow>
       if 400 \<le> statusCode
       then Inl (''HTTP '' @ show_nat statusCode @ '': '' @ (if data = [] then statusMessage else data))
       else if data = [] then Inr (JObj [])
       else (case parse data of Some j \<Rightarrow> Inr j | None \<Rightarrow> Inr (JObj [(''raw'', JStr data)]))
   | HttpError msg \<Rightarrow> Inl msg
   | HttpTimeout \<Rightarrow> Inl ''timeout'')"

definition httpGetJson :: "(string \<Rightarrow> json option) \<Rightarrow> http_event \<Rightarrow> string + json" where
  "httpGetJson parse ev = (case ev of
     HttpResponse _ data _ \<Rightarrow>
       (case parse data of Some j \<Rightarrow> Inr j | None \<Rightarrow> Inl ''Unexpected end of JSON input'')
   | HttpError msg \<Rightarrow> Inl msg
   | HttpTimeout \<Rightarrow> Inl ''timeout'')"

text \<open>\<open>r?.name\<close>: the last binding of a name counts; non-objects have no such property.\<close>

definition json_field :: "string \<Rightarrow> json \<Rightarrow> json option" where
  "json_field name j = (case j of JObj kvs \<Rightarrow> map_of (rev kvs) name | _ \<Rightarrow> None)"

definition truthy :: "json option \<Rightarrow> bool" where
  "truthy v = (case v of
     None \<Rightarrow> False
   | Some JNull \<Rightarrow> False
   | Some (JBool b) \<Rightarrow> b
   | Some (JNum n) \<Rightarrow> n \<noteq> 0
   | Some (JStr s) \<Rightarrow> s \<noteq> []
   | Some (JArr _) \<Rightarrow> True
   | Some (JObj _) \<Rightarrow> True)"

definition isDaemonHealthy :: "(string \<Rightarrow> json option) \<Rightarrow> http_event \<Rightarrow> bool" where
  "isDaemonHealthy parse ev = (case httpRequestJson parse ev of
     Inl _ \<Rightarrow> False | Inr r \<Rightarrow> truthy (json_field ''ok'' r))"

definition isDaemonReady :: "(string \<Rightarrow> json option) \<Rightarrow> http_event \<Rightarrow> bool" where
  "isDaemonReady parse ev = (case httpRequestJson parse ev of
     Inl _ \<Rightarrow> False | Inr r \<Rightarrow> truthy (json_field ''ready'' r))"

subsection \<open>The polling loops\<close>

text \<open>
  \<open>Math.round(delay * 1.15)\<close> in integers; on the delays reached from 100 no rounding tie occurs.
\<close>

definition next_delay :: "nat \<Rightarrow> nat" where
  "next_delay delay = min 500 (nat (round_div (int delay * 115) 100))"

text \<open>Result: what the loop returns, the time it took and the number of probes.\<close>

type_synonym poll_result = "bool \<times> nat \<times> nat"

partial_function (option) waitForHealthy_loop ::
    "(nat \<Rightarrow> bool) \<Rightarrow> (nat \<Rightarrow> nat) \<Rightarrow> nat \<Rightarrow> nat \<Rightarrow> nat \<Rightarrow> nat \<Rightarrow> poll_result option" where
  "waitForHealthy_loop up dur timeoutMs elapsed delay attempt =
     (if elapsed < timeoutMs then
        (if up attempt then Some (True, elapsed + dur attempt, Suc attempt)
         else waitForHealthy_loop up dur timeoutMs (elapsed + dur attempt + delay) (next_delay delay) (Suc attempt))
      else Some (False, elapsed, attempt))"

definition waitForHealthy ::
    "(string \<Rightarrow> json option) \<Rightarrow> (nat \<Rightarrow> http_event) \<Rightarrow> (nat \<Rightarrow> nat) \<Rightarrow> nat \<Rightarrow> poll_result option" where
  "waitForHealthy parse net dur timeoutMs =
     waitForHealthy_loop (\<lambda>n. isDaemonHealthy parse (net n)) dur timeoutMs 0 100 0"

partial_function (option) waitForReady_loop ::
    "(nat \<Rightarrow> bool) \<Rightarrow> (nat \<Rightarrow> nat) \<Rightarrow> nat \<Rightarrow> nat \<Rightarrow> nat \<Rightarrow> nat \<Rightarrow> poll_result option" where
  "waitForReady_loop up dur timeoutMs elapsed delay attempt =
     (if elapsed < timeoutMs then
        (if up attempt then Some (True, elapsed + dur attempt, Suc attempt)
         else waitForReady_loop up dur timeoutMs (elapsed + dur attempt + delay) (next_delay delay) (Suc attempt))
      else Some (False, elapsed, attempt))"

definition waitForReady ::
    "(string \<Rightarrow> json option) \<Rightarrow> (nat \<Rightarrow> http_event) \<Rightarrow> (nat \<Rightarrow> nat) \<Rightarrow> nat \<Rightarrow> poll_result option" where
  "waitForReady parse net dur timeoutMs =
     waitForReady_loop (\<lambda>n. isDaemonReady parse (net n)) dur timeoutMs 0 100 0"

text \<open>\<open>waitForDaemon\<close> counts its retries; only \<open>ready === true\<close> will do.\<close>

fun waitForDaemon_loop :: "(nat \<Rightarrow> string + json) \<Rightarrow> nat \<Rightarrow> nat \<Rightarrow> bool" where
  "waitForDaemon_loop reply i 0 = False"
| "waitForDaemon_loop reply i (Suc left) =
     (case reply i of
        Inr r \<Rightarrow> if json_field ''ready'' r = Some (JBool True) then True
                 else waitForDaemon_loop reply (Suc i) left
      | Inl _ \<Rightarrow> waitForDaemon_loop reply (Suc i) left)"

definition waitForDaemon :: "(string \<Rightarrow> json option) \<Rightarrow> (nat \<Rightarrow> http_event) \<Rightarrow> nat \<Rightarrow> bool" where
  "waitForDaemon parse net retries = waitForDaemon_loop (\<lambda>n. httpGetJson parse (net n)) 0 retries"

subsection \<open>What a polling loop guarantees\<close>

lemma next_delay_bounds: "1 \<le> d \<Longrightarrow> 1 \<le> next_delay d \<and> next_delay d \<le> 500"
proof -
  assume "1 \<le> d"
  then have "200 \<le> 2 * (int d * 115) + 100" by simp
  then have "200 div 200 \<le> (2 * (int d * 115) + 100) div 200" by (rule zdiv_mono1) simp
  then have "1 \<le> round_div (int d * 115) 100" by (simp add: round_div_def)
  then show ?thesis by (simp add: next_delay_def)
qed

text \<open>
  The contract of a loop that polls: it stops at the first success or once the time is up.
\<close>

locale polling =
  fixes loop :: "(nat \<Rightarrow> bool) \<Rightarrow> (nat \<Rightarrow> nat) \<Rightarrow> nat \<Rightarrow> nat \<Rightarrow> nat \<Rightarrow> nat \<Rightarrow> poll_result option"
  assumes loop_eq: "loop up dur T elapsed delay n =
     (if elapsed < T then
        (if up n then Some (True, elapsed + dur n, Suc n)
         else loop up dur T (elapsed + dur n + delay) (next_delay delay) (Suc n))
      else Some (False, elapsed, n))"
begin

text \<open>
  It returns; it returns \<open>True\<close> exactly when its last probe succeeded, all earlier ones
  having failed; and it overruns the timeout by at most one probe and one pause.
\<close>

lemma returns:
  assumes "1 \<le> delay" "delay \<le> 500"
  shows "\<exists>b t m. loop up dur T elapsed delay n = Some (b, t, m) \<and> n \<le> m \<and>
     (if b then n < m \<and> up (m - 1) \<and> (\<forall>k. n \<le> k \<and> k < m - 1 \<longrightarrow> \<not> up k)
      else T \<le> t \<and> (\<forall>k. n \<le> k \<and> k < m \<longrightarrow> \<not> up k)) \<and>
     (n < m \<and> t < T + dur (m - 1) + 500 \<or> T \<le> elapsed \<and> m = n \<and> t = elapsed)"
  using assms
proof (induction "T - elapsed" arbitrary: elapsed delay n rule: less_induct)
  case less
  show ?case
  proof (cases "elapsed < T \<and> \<not> up n")
    case True
    let ?e = "elapsed + dur n + delay"
    have "T - ?e < T - elapsed" using True less.prems by (intro diff_less_mono2) simp_all
    from less.hyps [OF this] next_delay_bounds [OF less.prems(1)]
    obtain b t m where r: "loop up dur T ?e (next_delay delay) (Suc n) = Some (b, t, m)" "Suc n \<le> m"
      and b: "if b then Suc n < m \<and> up (m - 1) \<and> (\<forall>k. Suc n \<le> k \<and> k < m - 1 \<longrightarrow> \<not> up k)
        else T \<le> t \<and> (\<forall>k. Suc n \<le> k \<and> k < m \<longrightarrow> \<not> up k)"
      and t: "Suc n < m \<and> t < T + dur (m - 1) + 500 \<or> T \<le> ?e \<and> m = Suc n \<and> t = ?e" by blast
    have e: "?e < T + dur n + 500" using True less.prems(2) by linarith
    have 1: "loop up dur T elapsed delay n = Some (b, t, m)"
      using True r(1) by (subst loop_eq) simp
    have ext: "\<forall>k. n \<le> k \<and> k < j \<longrightarrow> \<not> up k" if "\<forall>k. Suc n \<le> k \<and> k < j \<longrightarrow> \<not> up k" for j
    proof (intro allI impI)
      fix k
      assume "n \<le> k \<and> k < j"
      then show "\<not> up k" using that True by (cases "k = n") auto
    qed
    have 2: "n \<le> m" using r(2) by simp
    have 3: "if b then n < m \<and> up (m - 1) \<and> (\<forall>k. n \<le> k \<and> k < m - 1 \<longrightarrow> \<not> up k)
        else T \<le> t \<and> (\<forall>k. n \<le> k \<and> k < m \<longrightarrow> \<not> up k)"
    proof (cases b)
      case True
      with b have "Suc n < m" "up (m - 1)" "\<forall>k. Suc n \<le> k \<and> k < m - 1 \<longrightarrow> \<not> up k" by simp_all
      with True ext [of "m - 1"] show ?thesis by simp
    next
      case False
      with b have "T \<le> t" "\<forall>k. Suc n \<le> k \<and> k < m \<longrightarrow> \<not> up k" by simp_all
      with False ext [of m] show ?thesis by simp
    qed
    have 4: "n < m \<and> t < T + dur (m - 1) + 500 \<or> T \<le> elapsed \<and> m = n \<and> t = elapsed" using t e by auto
    show ?thesis
      by (rule exI [of _ b], rule exI [of _ t], rule exI [of _ m], rule conjI [OF 1],
        rule conjI [OF 2], rule conjI [OF 3 4])
  next
    case False
    show ?thesis
    proof (cases "elapsed < T")
      case True
      with False have "loop up dur T elapsed delay n = Some (True, elapsed + dur n, Suc n)"
        by (subst loop_eq) simp
      moreover have "elapsed + dur n < T + dur n + 500" using True by linarith
      moreover have "\<forall>k. n \<le> k \<and> k < Suc n - 1 \<longrightarrow> \<not> up k" by auto
      moreover have "up n" using True False by simp
      ultimately show ?thesis
        by (rule_tac x = True in exI, rule_tac x = "elapsed + dur n" in exI, rule_tac x = "Suc n" in exI) simp
    next
      case out: False
      then have "loop up dur T elapsed delay n = Some (False, elapsed, n)" by (subst loop_eq) simp
      then show ?thesis
        using out by (rule_tac x = False in exI, rule_tac x = elapsed in exI, rule_tac x = n in exI) auto
    qed
  qed
qed

end

interpretation healthy: polling waitForHealthy_loop
  by unfold_locales (rule waitForHealthy_loop.simps)

interpretation ready: polling waitForReady_loop
  by unfold_locales (rule waitForReady_loop.simps)

lemma waitForDaemon_loop_iff:
  "waitForDaemon_loop reply i left \<longleftrightarrow>
     (\<exists>k < left. \<exists>r. reply (i + k) = Inr r \<and> json_field ''ready'' r = Some (JBool True))"
proof (induction left arbitrary: i)
  case (Suc left)
  let ?ok = "\<lambda>j. \<exists>r. reply j = Inr r \<and> json_field ''ready'' r = Some (JBool True)"
  have split: "(\<exists>k < Suc left. ?ok (i + k)) \<longleftrightarrow> ?ok i \<or> (\<exists>k < left. ?ok (Suc i + k))"
    by (auto simp: less_Suc_eq_0_disj)
  show ?case unfolding split
    by (auto simp: Suc.IH split: sum.split)
qed simp

subsection \<open>Properties\<close>

text \<open>
  Property C22: waiting for the daemon's health always ends, whatever its probes take as long as
  each of them ends. It returns true exactly when one of its probes found the daemon healthy,
  and then right after that probe; and it overruns the timeout by less than the time of its last
  probe and half a second.
\<close>

theorem wait_for_healthy_returns:
  assumes "0 < timeoutMs"
  shows "\<exists>b t m. waitForHealthy parse net dur timeoutMs = Some (b, t, m) \<and> 0 < m \<and>
    t < timeoutMs + dur (m - 1) + 500 \<and>
    (b \<longleftrightarrow> (\<exists>k < m. isDaemonHealthy parse (net k))) \<and>
    (b \<longrightarrow> (\<forall>k < m - 1. \<not> isDaemonHealthy parse (net k))) \<and>
    (\<not> b \<longrightarrow> timeoutMs \<le> t)"
proof -
  obtain b t m where r: "waitForHealthy parse net dur timeoutMs = Some (b, t, m)"
    and b: "if b then 0 < m \<and> isDaemonHealthy parse (net (m - 1)) \<and>
        (\<forall>k. 0 \<le> k \<and> k < m - 1 \<longrightarrow> \<not> isDaemonHealthy parse (net k))
      else timeoutMs \<le> t \<and> (\<forall>k. 0 \<le> k \<and> k < m \<longrightarrow> \<not> isDaemonHealthy parse (net k))"
    and t: "0 < m \<and> t < timeoutMs + dur (m - 1) + 500 \<or> timeoutMs \<le> 0 \<and> m = 0 \<and> t = 0"
  proof -
    have "\<exists>b t m. waitForHealthy parse net dur timeoutMs = Some (b, t, m) \<and>
        0 \<le> m \<and> (if b then 0 < m \<and> isDaemonHealthy parse (net (m - 1)) \<and>
          (\<forall>k. 0 \<le> k \<and> k < m - 1 \<longrightarrow> \<not> isDaemonHealthy parse (net k))
         else timeoutMs \<le> t \<and> (\<forall>k. 0 \<le> k \<and> k < m \<longrightarrow> \<not> isDaemonHealthy parse (net k))) \<and>
        (0 < m \<and> t < timeoutMs + dur (m - 1) + 500 \<or> timeoutMs \<le> 0 \<and> m = 0 \<and> t = 0)"
      unfolding waitForHealthy_def by (rule healthy.returns) simp_all
    then show thesis by (elim exE conjE) (rule that)
  qed
  have "b \<longleftrightarrow> (\<exists>k < m. isDaemonHealthy parse (net k))"
  proof
    assume b1: b
    with b have "0 < m" "isDaemonHealthy parse (net (m - 1))" by simp_all
    then show "\<exists>k < m. isDaemonHealthy parse (net k)" by (intro exI [of _ "m - 1"]) simp
  next
    assume "\<exists>k < m. isDaemonHealthy parse (net k)"
    then obtain k where "k < m" "isDaemonHealthy parse (net k)" by (elim exE conjE)
    with b show b by (cases b) auto
  qed
  moreover have "\<forall>k < m - 1. \<not> isDaemonHealthy parse (net k)" if b using b that by simp
  moreover have "0 < m" "t < timeoutMs + dur (m - 1) + 500" using t assms by auto
  moreover have "timeoutMs \<le> t" if "\<not> b" using b that by simp
  ultimately show ?thesis using r by (intro exI conjI impI)
qed

theorem wait_for_healthy_returns_witness:
  "\<exists>b t m. waitForHealthy (\<lambda>_. None) (\<lambda>_. HttpError ''ECONNREFUSED'') (\<lambda>_. 3) 10000 = Some (b, t, m) \<and>
     t < 10503 \<and> \<not> b"
  using wait_for_healthy_returns [of 10000 "\<lambda>_. None" "\<lambda>_. HttpError ''ECONNREFUSED''" "\<lambda>_. 3"]
  by (auto simp: isDaemonHealthy_def httpRequestJson_def)

end
