(* ===== verification/PortHygiene.thy ===== *)
theory PortHygiene
  imports Prelude
begin

text \<open>
  Port hygiene of the main process (\<open>main/main.ts\<close>): finding the process that listens on a
  port in the output of \<open>netstat\<close> and \<open>tasklist\<close>, killing it, and the two clean-ups
  before a start (the daemon's own port, the peer ports 6881 to 6890).

  The outcome of each command and probe is part of the environment: \<open>None\<close> or the error text
  for a failed command, its output otherwise. A clean-up returns its result together with
  the process ids it sent to \<open>taskkill\<close>, in order.
\<close>

text \<open>\<open>line.trim().split(/\s+/)\<close> takes the last field; \<open>parseInt(s, 10)\<close>.\<close>

definition last_field :: "string \<Rightarrow> string" where
  "last_field line = rev (takeWhile (\<lambda>c. \<not> is_ws c) (rev (js_trim line)))"

definition js_parseInt :: "string \<Rightarrow> int option" where
  "js_parseInt s =
     (let t = dropWhile is_ws s;
          neg = starts_with t ''-'';
          ds = takeWhile is_digit (if neg \<or> starts_with t ''+'' then drop 1 t else t) in
      if ds = [] then None else Some (if neg then - int (parse_digits ds) else int (parse_digits ds)))"

fun listening_pid :: "string list \<Rightarrow> int option" where
  "listening_pid [] = None"
| "listening_pid (line # lines) =
     (if js_includes line ''LISTENING''
      then (case js_parseInt (last_field line) of Some pid \<Rightarrow> Some pid | None \<Rightarrow> listening_pid lines)
      else listening_pid lines)"

definition findProcessUsingPort ::
    "bool \<Rightarrow> string option \<Rightarrow> (int \<Rightarrow> string option) \<Rightarrow> int option" where
  "findProcessUsingPort win32 netstat tasklist =
     (if \<not> win32 then None
      else (case netstat of
        None \<Rightarrow> None
      | Some stdout \<Rightarrow>
          (case listening_pid (js_split CHR 0x0A stdout) of
             None \<Rightarrow> None
           | Some pid \<Rightarrow>
               if pid = 0 then None
               else (case tasklist pid of
                 None \<Rightarrow> None
               | Some out \<Rightarrow> if js_includes (js_lower out) ''orc-daemon'' then Some pid else None))))"

datatype kill_outcome = KillOk | KillError string string

definition killProcess :: "bool \<Rightarrow> kill_outcome \<Rightarrow> bool" where
  "killProcess win32 outcome =
     (if \<not> win32 then False
      else (case outcome of
        KillOk \<Rightarrow> True
      | KillError errorMsg stderrMsg \<Rightarrow>
          if js_includes errorMsg ''Access is denied'' \<or> js_includes errorMsg ''access denied'' \<or>
             js_includes stderrMsg ''Access is denied'' \<or> js_includes stderrMsg ''access denied''
          then False
          else js_includes errorMsg ''not found'' \<or> js_includes errorMsg ''not running''))"

subsection \<open>Peer ports\<close>

definition PEER_PORTS :: "nat list" where
  "PEER_PORTS = [6881, 6882, 6883, 6884, 6885, 6886, 6887, 6888, 6889, 6890]"

text \<open>What the environment answers while port \<open>p\<close> is looked at.\<close>

record peer_env =
  pe_netstat :: "nat \<Rightarrow> string option"
  pe_tasklist :: "nat \<Rightarrow> int \<Rightarrow> string option"
  pe_healthy :: "nat \<Rightarrow> bool"
  pe_kill :: "nat \<Rightarrow> kill_outcome"

record peer_state =
  ps_killedPids :: "int list"
  ps_cleaned :: nat
  ps_sent :: "int list"

definition peer_port :: "bool \<Rightarrow> peer_env \<Rightarrow> nat \<Rightarrow> peer_state \<Rightarrow> peer_state" where
  "peer_port win32 env port st =
     (case findProcessUsingPort win32 (pe_netstat env port) (pe_tasklist env port) of
        None \<Rightarrow> st
      | Some pid \<Rightarrow>
          if pid \<in> set (ps_killedPids st) then st
          else if pe_healthy env port then st
          else if killProcess win32 (pe_kill env port)
          then st\<lparr>ps_killedPids := ps_killedPids st @ [pid], ps_cleaned := Suc (ps_cleaned st),
                  ps_sent := ps_sent st @ [pid]\<rparr>
          else st\<lparr>ps_sent := ps_sent st @ [pid]\<rparr>)"

definition cleanupStalePeerPorts :: "bool \<Rightarrow> peer_env \<Rightarrow> (nat \<times> int list) \<times> int list" where
  "cleanupStalePeerPorts win32 env =
     (if \<not> win32 then ((0, []), [])
      else (let st = fold (peer_port win32 env) PEER_PORTS
                       \<lparr>ps_killedPids = [], ps_cleaned = 0, ps_sent = []\<rparr> in
            ((ps_cleaned st, ps_killedPids st), ps_sent st)))"

subsection \<open>The daemon's port\<close>

record cleanup_result =
  cr_cleaned :: bool
  cr_pid :: "int option"

record port_env =
  po_portInUse :: bool
  po_healthy :: bool
  po_netstat :: "string option"
  po_tasklist :: "int \<Rightarrow> string option"
  po_kill :: kill_outcome
  po_stillInUse :: bool

definition cleanupStaleProcessesOnPort :: "bool \<Rightarrow> bool \<Rightarrow> port_env \<Rightarrow> cleanup_result \<times> int list" where
  "cleanupStaleProcessesOnPort win32 forceKill env =
     (if \<not> win32 then (\<lparr>cr_cleaned = False, cr_pid = None\<rparr>, [])
      else if \<not> po_portInUse env then (\<lparr>cr_cleaned = False, cr_pid = None\<rparr>, [])
      else if po_healthy env \<and> \<not> forceKill then (\<lparr>cr_cleaned = False, cr_pid = None\<rparr>, [])
      else (case findProcessUsingPort win32 (po_netstat env) (po_tasklist env) of
        None \<Rightarrow> (\<lparr>cr_cleaned = False, cr_pid = None\<rparr>, [])
      | Some pid \<Rightarrow>
          if killProcess win32 (po_kill env) then
            (if po_stillInUse env then (\<lparr>cr_cleaned = False, cr_pid = Some pid\<rparr>, [pid])
             else (\<lparr>cr_cleaned = True, cr_pid = Some pid\<rparr>, [pid]))
          else (\<lparr>cr_cleaned = False, cr_pid = Some pid\<rparr>, [pid])))"

subsection \<open>Lemmas\<close>

lemma findProcess_verified:
  "findProcessUsingPort win32 netstat tasklist = Some pid \<Longrightarrow>
   win32 \<and> pid \<noteq> 0 \<and> (\<exists>out. tasklist pid = Some out \<and> js_includes (js_lower out) ''orc-daemon'')"
  by (auto simp: findProcessUsingPort_def split: option.splits if_splits)

text \<open>A process id whose \<open>tasklist\<close> entry names the daemon.\<close>

definition is_orc_daemon :: "(int \<Rightarrow> string option) \<Rightarrow> int \<Rightarrow> bool" where
  "is_orc_daemon tasklist pid \<longleftrightarrow>
     (\<exists>out. tasklist pid = Some out \<and> js_includes (js_lower out) ''orc-daemon'')"

definition peer_inv :: "peer_env \<Rightarrow> nat list \<Rightarrow> peer_state \<Rightarrow> bool" where
  "peer_inv env ports st \<longleftrightarrow>
     distinct (ps_killedPids st) \<and> ps_cleaned st = length (ps_killedPids st) \<and>
     set (ps_killedPids st) \<subseteq> set (ps_sent st) \<and>
     (\<forall>pid \<in> set (ps_sent st). \<exists>p \<in> set ports.
        is_orc_daemon (pe_tasklist env p) pid \<and> \<not> pe_healthy env p)"

lemma peer_inv_mono: "peer_inv env ports st \<Longrightarrow> set ports \<subseteq> set ports' \<Longrightarrow> peer_inv env ports' st"
  unfolding peer_inv_def by blast

lemma peer_port_inv:
  assumes "peer_inv env ports st" and "port \<in> set ports"
  shows "peer_inv env ports (peer_port win32 env port st)"
proof (cases "findProcessUsingPort win32 (pe_netstat env port) (pe_tasklist env port)")
  case None
  with assms show ?thesis by (simp add: peer_port_def)
next
  case (Some pid)
  then have "is_orc_daemon (pe_tasklist env port) pid"
    using findProcess_verified unfolding is_orc_daemon_def by blast
  with assms Some show ?thesis
    by (auto simp: peer_port_def peer_inv_def)
qed

lemma peer_fold_inv:
  "peer_inv env ports st \<Longrightarrow> set ps \<subseteq> set ports \<Longrightarrow> peer_inv env ports (fold (peer_port win32 env) ps st)"
  by (induction ps arbitrary: st) (simp_all add: peer_port_inv)

subsection \<open>Properties\<close>

text \<open>
  Property C12: port hygiene only ever kills processes that \<open>tasklist\<close> names as the daemon. The
  peer-port clean-up kills only while the daemon does not answer its health check; the
  clean-up of the daemon's port does so too unless it is told to replace a healthy daemon,
  and it reports success only when the port is free afterwards.
\<close>

theorem port_hygiene_kills_only_daemons:
  "(\<forall>pid \<in> set (snd (cleanupStalePeerPorts win32 env)).
      win32 \<and> (\<exists>p \<in> set PEER_PORTS. is_orc_daemon (pe_tasklist env p) pid \<and> \<not> pe_healthy env p)) \<and>
   (\<forall>pid \<in> set (snd (cleanupStaleProcessesOnPort win32 force penv)).
      win32 \<and> is_orc_daemon (po_tasklist penv) pid \<and> (force \<or> \<not> po_healthy penv)) \<and>
   (cr_cleaned (fst (cleanupStaleProcessesOnPort win32 force penv)) \<longrightarrow>
      \<not> po_stillInUse penv \<and> snd (cleanupStaleProcessesOnPort win32 force penv) \<noteq> [])"
proof (intro conjI)
  let ?st0 = "\<lparr>ps_killedPids = [], ps_cleaned = 0, ps_sent = []\<rparr>"
  have "peer_inv env PEER_PORTS (fold (peer_port win32 env) PEER_PORTS ?st0)"
    by (rule peer_fold_inv) (simp_all add: peer_inv_def)
  then show "\<forall>pid \<in> set (snd (cleanupStalePeerPorts win32 env)).
      win32 \<and> (\<exists>p \<in> set PEER_PORTS. is_orc_daemon (pe_tasklist env p) pid \<and> \<not> pe_healthy env p)"
    unfolding peer_inv_def cleanupStalePeerPorts_def Let_def by (cases win32) simp_all
  show "\<forall>pid \<in> set (snd (cleanupStaleProcessesOnPort win32 force penv)).
      win32 \<and> is_orc_daemon (po_tasklist penv) pid \<and> (force \<or> \<not> po_healthy penv)"
    using findProcess_verified [of win32 "po_netstat penv" "po_tasklist penv"]
    by (auto simp: cleanupStaleProcessesOnPort_def is_orc_daemon_def split: option.split)
  show "cr_cleaned (fst (cleanupStaleProcessesOnPort win32 force penv)) \<longrightarrow>
      \<not> po_stillInUse penv \<and> snd (cleanupStaleProcessesOnPort win32 force penv) \<noteq> []"
    by (auto simp: cleanupStaleProcessesOnPort_def split: option.split)
qed

definition stale_port :: port_env where
  "stale_port = \<lparr>po_portInUse = True, po_healthy = False,
     po_netstat = Some ''  TCP  127.0.0.1:8733  0.0.0.0:0  LISTENING  4711'',
     po_tasklist = (\<lambda>_. Some ''ORC-Daemon.exe   4711''), po_kill = KillOk, po_stillInUse = False\<rparr>"

theorem port_hygiene_kills_only_daemons_witness:
  "snd (cleanupStaleProcessesOnPort True False stale_port) = [4711] \<and>
   is_orc_daemon (po_tasklist stale_port) 4711"
proof
  show pids: "snd (cleanupStaleProcessesOnPort True False stale_port) = [4711]"
    by (simp add: cleanupStaleProcessesOnPort_def stale_port_def findProcessUsingPort_def js_simps
        js_trim_def is_ws_def last_field_def js_parseInt_def is_digit_def parse_digits_def digit_val_def
        killProcess_def js_lower_def lower_char_def char_of_def bit_0)
  show "is_orc_daemon (po_tasklist stale_port) 4711"
    using port_hygiene_kills_only_daemons [of True undefined False stale_port] by (simp add: pids)
qed

end
