(* ===== verification/DaemonFiles.thy ===== *)
theory DaemonFiles
  imports Prelude
begin

text \<open>
  Files around the daemon (\<open>main/main.ts\<close>): finding its binary, checking that the binary and
  the log directory are accessible, and choosing where the log goes.

  The file system answers through \<open>fs_env\<close> (the error code of each call, if any) and
  records the directories and files that exist. Node's path functions are parameters where
  they do more than join. \<open>has_require\<close> says whether the module system defines
  \<open>require\<close>; the main process is an ES module, where it does not.
\<close>

definition path_join :: "string \<Rightarrow> string \<Rightarrow> string" where
  "path_join a b = a @ ''/'' @ b"

subsection \<open>The binary\<close>

record bin_env =
  be_isDev :: bool
  be_win32 :: bool
  be_resourcesPath :: "string option"
  be_exeDir :: string
  be_repoDebugDir :: string
  be_assetsBinDir :: string
  be_exists :: "string \<Rightarrow> bool"
  be_readable :: "string \<Rightarrow> string option"

definition daemon_exe :: "bin_env \<Rightarrow> string" where
  "daemon_exe env = (if be_win32 env then ''orc-daemon.exe'' else ''orc-daemon'')"

definition packaged :: "bin_env \<Rightarrow> string option" where
  "packaged env = (case be_resourcesPath env of
     None \<Rightarrow> None
   | Some r \<Rightarrow> if r = [] then None else Some (path_join (path_join r ''bin'') (daemon_exe env)))"

text \<open>The candidates with their \<open>check\<close> flag, in order.\<close>

definition candidates :: "bin_env \<Rightarrow> (string option \<times> bool) list" where
  "candidates env =
     (let exe = daemon_exe env;
          packagedNextToExe = Some (path_join (path_join (be_exeDir env) ''bin'') exe);
          packagedSameDir = Some (path_join (be_exeDir env) exe);
          devCandidate = Some (path_join (be_repoDebugDir env) exe);
          devAsset = Some (path_join (be_assetsBinDir env) exe);
          isDev = be_isDev env in
      [(packaged env, \<not> isDev \<and> packaged env \<noteq> None),
       (packagedNextToExe, \<not> isDev),
       (packagedSameDir, \<not> isDev),
       (devCandidate, isDev),
       (devAsset, True),
       (packaged env, isDev \<and> packaged env \<noteq> None),
       (packagedNextToExe, isDev),
       (packagedSameDir, isDev),
       (devCandidate, \<not> isDev)])"

definition usable :: "bin_env \<Rightarrow> string \<Rightarrow> bool" where
  "usable env p \<longleftrightarrow> be_exists env p \<and> (be_win32 env \<longrightarrow> be_readable env p = None)"

fun first_usable :: "bin_env \<Rightarrow> (string option \<times> bool) list \<Rightarrow> string option" where
  "first_usable env [] = None"
| "first_usable env ((p, check) # cs) =
     (case p of
        None \<Rightarrow> first_usable env cs
      | Some q \<Rightarrow> if check \<and> usable env q then Some q else first_usable env cs)"

definition resolveDaemonBinary :: "bin_env \<Rightarrow> string" where
  "resolveDaemonBinary env = (case first_usable env (candidates env) of
     Some p \<Rightarrow> p
   | None \<Rightarrow>
       if be_isDev env then path_join (be_repoDebugDir env) (daemon_exe env)
       else (case packaged env of
         Some p \<Rightarrow> p
       | None \<Rightarrow> path_join (path_join (be_exeDir env) ''bin'') (daemon_exe env)))"

record access_check =
  ac_ok :: bool
  ac_error :: "string option"

definition permission_code :: "string \<Rightarrow> bool" where
  "permission_code code \<longleftrightarrow> code = ''EACCES'' \<or> code = ''EPERM''"

definition checkBinaryPermissions :: "bin_env \<Rightarrow> string \<Rightarrow> access_check" where
  "checkBinaryPermissions env binPath =
     (if \<not> be_exists env binPath
      then \<lparr>ac_ok = False, ac_error = Some (''Binary not found: '' @ binPath)\<rparr>
      else (case be_readable env binPath of
        None \<Rightarrow> \<lparr>ac_ok = True, ac_error = None\<rparr>
      | Some code \<Rightarrow>
          if permission_code code
          then \<lparr>ac_ok = False, ac_error = Some (''Permission denied accessing binary: '' @ binPath)\<rparr>
          else \<lparr>ac_ok = False, ac_error = Some (''Cannot access binary: '' @ code)\<rparr>))"

subsection \<open>Directories\<close>

record fsys =
  fs_dirs :: "string list"
  fs_files :: "string list"

record fs_env =
  fe_mkdir :: "string \<Rightarrow> string option"
  fe_access :: "string \<Rightarrow> string option"
  fe_write :: "string \<Rightarrow> string option"

definition test_file :: "string \<Rightarrow> time \<Rightarrow> string" where
  "test_file dirPath now = path_join dirPath (''.orc_permission_test_'' @ show_int now)"

definition denied :: "string \<Rightarrow> string \<Rightarrow> string \<Rightarrow> string \<Rightarrow> access_check" where
  "denied code perm_msg other_msg dirPath =
     \<lparr>ac_ok = False, ac_error = Some (if permission_code code then perm_msg @ dirPath else other_msg @ code)\<rparr>"

definition checkDirectoryPermissions ::
    "fs_env \<Rightarrow> bool \<Rightarrow> time \<Rightarrow> string \<Rightarrow> fsys \<Rightarrow> access_check \<times> fsys" where
  "checkDirectoryPermissions env has_require now dirPath fs =
     (let mk = (if dirPath \<in> set (fs_dirs fs) then None else fe_mkdir env dirPath) in
      case mk of
        Some code \<Rightarrow>
          (denied code ''Permission denied creating directory: '' ''Failed to create directory: '' dirPath, fs)
      | None \<Rightarrow>
          (let fs1 = (if dirPath \<in> set (fs_dirs fs) then fs else fs\<lparr>fs_dirs := dirPath # fs_dirs fs\<rparr>) in
           case fe_access env dirPath of
             Some code \<Rightarrow>
               (denied code ''Permission denied accessing directory: '' ''Cannot access directory: '' dirPath, fs1)
           | None \<Rightarrow>
               (let testFile = test_file dirPath now in
                case fe_write env testFile of
                  Some code \<Rightarrow>
                    (denied code ''Permission denied writing to directory: '' ''Cannot write to directory: '' dirPath,
                     if has_require then fs1\<lparr>fs_files := filter (\<lambda>f. f \<noteq> testFile) (fs_files fs1)\<rparr> else fs1)
                | None \<Rightarrow>
                    (\<lparr>ac_ok = True, ac_error = None\<rparr>,
                     if has_require then fs1\<lparr>fs_files := filter (\<lambda>f. f \<noteq> testFile) (fs_files fs1)\<rparr>
                     else fs1\<lparr>fs_files := testFile # fs_files fs1\<rparr>))))"

record log_place =
  lp_path :: string
  lp_error :: "string option"

fun first_writable ::
    "fs_env \<Rightarrow> bool \<Rightarrow> time \<Rightarrow> string list \<Rightarrow> fsys \<Rightarrow> string option \<times> fsys" where
  "first_writable env has_require now [] fs = (None, fs)"
| "first_writable env has_require now (d # ds) fs =
     (let (check, fs1) = checkDirectoryPermissions env has_require now d fs in
      if ac_ok check then (Some d, fs1) else first_writable env has_require now ds fs1)"

definition log_candidates :: "bool \<Rightarrow> string option \<Rightarrow> string \<Rightarrow> string option \<Rightarrow> string list" where
  "log_candidates isDev userData tmpdir cwd =
     (case userData of None \<Rightarrow> [] | Some base \<Rightarrow> [path_join base ''logs'']) @
     [path_join (path_join tmpdir ''orc-torrent'') ''logs'', tmpdir] @
     (if isDev then (case cwd of None \<Rightarrow> [] | Some d \<Rightarrow> [path_join d ''logs'']) else [])"

definition findWritableLogDirectory ::
    "fs_env \<Rightarrow> bool \<Rightarrow> time \<Rightarrow> bool \<Rightarrow> string option \<Rightarrow> string \<Rightarrow> string option \<Rightarrow> fsys
      \<Rightarrow> log_place option \<times> fsys" where
  "findWritableLogDirectory env has_require now isDev userData tmpdir cwd fs =
     (case first_writable env has_require now (log_candidates isDev userData tmpdir cwd) fs of
        (Some d, fs1) \<Rightarrow> (Some \<lparr>lp_path = path_join d ''daemon.log'', lp_error = None\<rparr>, fs1)
      | (None, fs1) \<Rightarrow>
          (Some \<lparr>lp_path = path_join tmpdir ''orc-daemon.log'',
                 lp_error = Some ''Could not verify any log directory is writable''\<rparr>, fs1))"

definition daemonLogPath :: "fs_env \<Rightarrow> string option \<Rightarrow> string \<Rightarrow> fsys \<Rightarrow> string \<times> fsys" where
  "daemonLogPath env userData tmpdir fs = (case userData of
     None \<Rightarrow> (path_join tmpdir ''orc-daemon.log'', fs)
   | Some base \<Rightarrow>
       (let dir = path_join base ''logs'';
            fallbackDir = path_join (path_join tmpdir ''orc-torrent'') ''logs'' in
        case fe_mkdir env dir of
          None \<Rightarrow> (path_join dir ''daemon.log'', fs\<lparr>fs_dirs := dir # fs_dirs fs\<rparr>)
        | Some code \<Rightarrow>
            if code = ''EEXIST'' then (path_join dir ''daemon.log'', fs)
            else (case fe_mkdir env fallbackDir of
              None \<Rightarrow> (path_join fallbackDir ''daemon.log'', fs\<lparr>fs_dirs := fallbackDir # fs_dirs fs\<rparr>)
            | Some _ \<Rightarrow> (path_join tmpdir ''orc-daemon.log'', fs))))"

subsection \<open>Lemmas\<close>

lemma first_usable_Some:
  "first_usable env cs = Some p \<Longrightarrow> (Some p, True) \<in> set cs \<and> usable env p"
  by (induction env cs rule: first_usable.induct) (auto split: option.splits if_splits)

lemma first_usable_None:
  "first_usable env cs = None \<Longrightarrow> (Some p, True) \<in> set cs \<Longrightarrow> \<not> usable env p"
  by (induction env cs rule: first_usable.induct) (auto split: option.splits if_splits)

lemma first_writable_Some:
  assumes "first_writable env rq now ds fs = (Some d, fs1)"
  shows "d \<in> set ds \<and> fe_access env d = None \<and> fe_write env (test_file d now) = None \<and>
    (\<not> rq \<longrightarrow> test_file d now \<in> set (fs_files fs1))"
  using assms
proof (induction env rq now ds fs rule: first_writable.induct)
  case (2 env rq now e ds fs)
  obtain check fs2 where c: "checkDirectoryPermissions env rq now e fs = (check, fs2)" by fastforce
  show ?case
  proof (cases "ac_ok check")
    case True
    with 2 c have "d = e" "fs1 = fs2" by simp_all
    with c True show ?thesis
      by (auto simp: checkDirectoryPermissions_def denied_def Let_def split: option.splits if_splits)
  next
    case False
    with 2 c show ?thesis by simp
  qed
qed simp

lemma first_writable_None:
  assumes "first_writable env rq now ds fs = (None, fs1)" and "d \<in> set ds"
  shows "fe_mkdir env d \<noteq> None \<or> fe_access env d \<noteq> None \<or> fe_write env (test_file d now) \<noteq> None"
  using assms
proof (induction env rq now ds fs rule: first_writable.induct)
  case (2 env rq now e ds fs)
  obtain check fs2 where c: "checkDirectoryPermissions env rq now e fs = (check, fs2)" by fastforce
  with 2 have n: "\<not> ac_ok check" by (auto split: if_splits)
  show ?case
  proof (cases "d = e")
    case True
    with c n show ?thesis
      by (auto simp: checkDirectoryPermissions_def Let_def split: option.splits if_splits)
  next
    case False
    with 2 c n show ?thesis by simp
  qed
qed simp

subsection \<open>Properties\<close>

text \<open>
  Further fact: the daemon's binary is found when it is anywhere among the places looked at; a
  packaged app prefers the binary in its resources, a development run its own build.
\<close>

theorem resolve_binary:
  "((\<exists>q. (Some q, True) \<in> set (candidates env) \<and> usable env q) \<longrightarrow> usable env (resolveDaemonBinary env)) \<and>
   (\<not> be_isDev env \<and> packaged env = Some p \<and> usable env p \<longrightarrow> resolveDaemonBinary env = p) \<and>
   (be_isDev env \<and> usable env (path_join (be_repoDebugDir env) (daemon_exe env)) \<longrightarrow>
      resolveDaemonBinary env = path_join (be_repoDebugDir env) (daemon_exe env))"
proof (intro conjI impI)
  assume "\<exists>q. (Some q, True) \<in> set (candidates env) \<and> usable env q"
  then obtain q where "(Some q, True) \<in> set (candidates env)" "usable env q" by blast
  then have "first_usable env (candidates env) \<noteq> None" using first_usable_None by blast
  then show "usable env (resolveDaemonBinary env)"
    using first_usable_Some [of env "candidates env"] by (auto simp: resolveDaemonBinary_def)
next
  assume "\<not> be_isDev env \<and> packaged env = Some p \<and> usable env p"
  then show "resolveDaemonBinary env = p" by (simp add: resolveDaemonBinary_def candidates_def Let_def)
next
  assume "be_isDev env \<and> usable env (path_join (be_repoDebugDir env) (daemon_exe env))"
  then show "resolveDaemonBinary env = path_join (be_repoDebugDir env) (daemon_exe env)"
    by (simp add: resolveDaemonBinary_def candidates_def Let_def split: option.split)
qed

definition packaged_app :: bin_env where
  "packaged_app = \<lparr>be_isDev = False, be_win32 = True, be_resourcesPath = Some ''res'', be_exeDir = ''app'',
     be_repoDebugDir = ''debug'', be_assetsBinDir = ''assets'', be_exists = (\<lambda>_. True),
     be_readable = (\<lambda>p. if starts_with p ''res'' then Some ''EACCES'' else None)\<rparr>"

theorem resolve_binary_witness:
  "usable packaged_app (resolveDaemonBinary packaged_app) \<and>
   resolveDaemonBinary packaged_app = ''app/bin/orc-daemon.exe''"
proof
  have "(Some ''app/bin/orc-daemon.exe'', True) \<in> set (candidates packaged_app) \<and>
      usable packaged_app ''app/bin/orc-daemon.exe''"
    by (simp add: candidates_def packaged_app_def path_join_def daemon_exe_def usable_def Let_def)
  with resolve_binary [of packaged_app undefined]
  show "usable packaged_app (resolveDaemonBinary packaged_app)" by blast
  show "resolveDaemonBinary packaged_app = ''app/bin/orc-daemon.exe''"
    by (simp add: resolveDaemonBinary_def candidates_def packaged_app_def path_join_def
        daemon_exe_def usable_def packaged_def Let_def)
qed

text \<open>
  Further fact: choosing a log directory never fails: it gives a directory it could write a test
  file in, or, when none can be verified, a file in the temporary directory with a warning.
  In an ES module the test file of the chosen directory is left behind.
\<close>

theorem log_directory_always_found:
  "\<exists>place fs1. findWritableLogDirectory env has_require now isDev userData tmpdir cwd fs = (Some place, fs1) \<and>
     (if lp_error place = None
      then \<exists>d \<in> set (log_candidates isDev userData tmpdir cwd). lp_path place = path_join d ''daemon.log'' \<and>
             fe_write env (test_file d now) = None \<and>
             (\<not> has_require \<longrightarrow> test_file d now \<in> set (fs_files fs1))
      else lp_path place = path_join tmpdir ''orc-daemon.log'' \<and>
             (\<forall>d \<in> set (log_candidates isDev userData tmpdir cwd). fe_mkdir env d \<noteq> None \<or>
                fe_access env d \<noteq> None \<or> fe_write env (test_file d now) \<noteq> None))"
proof -
  obtain r fs1 where f: "first_writable env has_require now (log_candidates isDev userData tmpdir cwd) fs = (r, fs1)"
    by fastforce
  show ?thesis
  proof (cases r)
    case (Some d)
    with f first_writable_Some [of env has_require now _ fs d fs1]
    have "d \<in> set (log_candidates isDev userData tmpdir cwd)" "fe_write env (test_file d now) = None"
      "\<not> has_require \<longrightarrow> test_file d now \<in> set (fs_files fs1)" by blast+
    with f Some show ?thesis by (auto simp: findWritableLogDirectory_def)
  next
    case None
    with f first_writable_None [of env has_require now _ fs fs1]
    have "\<forall>d \<in> set (log_candidates isDev userData tmpdir cwd). fe_mkdir env d \<noteq> None \<or>
        fe_access env d \<noteq> None \<or> fe_write env (test_file d now) \<noteq> None" by blast
    with f None show ?thesis by (simp add: findWritableLogDirectory_def)
  qed
qed

theorem log_directory_always_found_witness:
  "\<exists>place fs1. findWritableLogDirectory \<lparr>fe_mkdir = (\<lambda>_. None), fe_access = (\<lambda>_. None), fe_write = (\<lambda>_. None)\<rparr>
     False 7 False (Some ''u'') ''tmp'' None \<lparr>fs_dirs = [], fs_files = []\<rparr> = (Some place, fs1) \<and>
     test_file ''u/logs'' 7 \<in> set (fs_files fs1)"
proof -
  let ?env = "\<lparr>fe_mkdir = (\<lambda>_. None), fe_access = (\<lambda>_. None), fe_write = (\<lambda>_. None)\<rparr>"
  have "findWritableLogDirectory ?env False 7 False (Some ''u'') ''tmp'' None \<lparr>fs_dirs = [], fs_files = []\<rparr> =
      (Some \<lparr>lp_path = ''u/logs/daemon.log'', lp_error = None\<rparr>,
       \<lparr>fs_dirs = [''u/logs''], fs_files = [test_file ''u/logs'' 7]\<rparr>)"
    by (simp add: findWritableLogDirectory_def log_candidates_def path_join_def
        checkDirectoryPermissions_def)
  then show ?thesis
    using log_directory_always_found [of ?env False 7 False "Some ''u''" "''tmp''" None
        "\<lparr>fs_dirs = [], fs_files = []\<rparr>"]
    by simp
qed

end
