(* ===== verification/Supervisor.thy ===== *)
theory Supervisor
  imports PortHygiene DaemonFiles DaemonProbe
begin

text \<open>
  The supervisor of the daemon in the main process (\<open>main/main.ts\<close>): the module state, the
  start sequence, the exit handler with its restart timers, the graceful shutdown, the
  health monitor and the handlers that start, stop and restart the daemon.

  JavaScript runs one piece of code at a time, from one \<open>await\<close> to the next. Each such
  piece is one operation on the state here; what follows the \<open>await\<close> is a \<open>task\<close>. The
  theory \<open>SupervisorSys\<close> interleaves them. What an awaited call gave, the clock, and what the
  operating system answers are read from the environment \<open>sup_env\<close>. The loops that wait for
  the daemon are those of \<open>DaemonProbe\<close>; here their result is awaited. Writing log lines is
  left out, the choice of the log file is not.
\<close>

definition MAX_RESTART_ATTEMPTS :: nat where "MAX_RESTART_ATTEMPTS = 10"
definition INITIAL_RESTART_DELAY_MS :: nat where "INITIAL_RESTART_DELAY_MS = 5000"
definition MAX_RESTART_DELAY_MS :: nat where "MAX_RESTART_DELAY_MS = 30000"
definition DAEMON_STABILITY_PERIOD_MS :: nat where "DAEMON_STABILITY_PERIOD_MS = 60000"
definition MIN_RESTART_COOLDOWN_MS :: int where "MIN_RESTART_COOLDOWN_MS = 3000"
definition MAX_CONSECUTIVE_FAILURES :: nat where "MAX_CONSECUTIVE_FAILURES = 3"

datatype log_target = LogFile string | LogStderr

text \<open>
  A spawned process: \<open>ch_alive\<close> is \<open>exitCode === null\<close>, \<open>ch_killed\<close> the \<open>killed\<close> flag,
  \<open>ch_listener\<close> whether the exit handler is still attached. Its index is its handle.
\<close>

record child =
  ch_alive :: bool
  ch_killed :: bool
  ch_listener :: bool

datatype timer_kind = RestartTimer | CooldownTimer | StabilityTimer | ReportTimer | QuitTimer

record timer =
  tm_id :: nat
  tm_kind :: timer_kind
  tm_delay :: nat

record sup =
  daemonProc :: "nat option"
  daemonAdminToken :: string
  daemonSpawnedByApp :: bool
  daemonLogStream :: "log_target option"
  daemonHealthCheckInterval :: bool
  daemonRestartAttempts :: nat
  daemonRestartTimeout :: "nat option"
  lastRestartTime :: time
  isShuttingDown :: bool
  isRestarting :: bool
  currentDaemonLogPath :: "string option"
  consecutiveHealthFailures :: nat
  windowOpen :: bool
  children :: "child list"
  timers :: "timer list"
  nextTimer :: nat
  dialogs :: "string list"
  replies :: "(string \<times> string option) list"
  exited :: bool

definition sup_init :: sup where
  "sup_init = \<lparr>daemonProc = None, daemonAdminToken = [], daemonSpawnedByApp = False,
     daemonLogStream = None, daemonHealthCheckInterval = False, daemonRestartAttempts = 0,
     daemonRestartTimeout = None, lastRestartTime = 0, isShuttingDown = False, isRestarting = False,
     currentDaemonLogPath = None, consecutiveHealthFailures = 0, windowOpen = True, children = [],
     timers = [], nextTimer = 0, dialogs = [], replies = [], exited = False\<rparr>"

record sup_env =
  en_now :: time
  en_healthy :: bool
  en_cleanup :: cleanup_result
  en_bin :: bin_env
  en_bin2 :: bin_env
  en_token :: string
  en_logdir :: "log_place option"
  en_logpath :: string
  en_dircheck :: access_check
  en_tmpdir :: string
  en_logopen :: bool
  en_spawn_error :: "string option"
  en_pid :: "nat option"
  en_tasklist :: "string option"
  en_signal_ok :: bool

subsection \<open>Timers, children, dialogs\<close>

definition add_timer :: "timer_kind \<Rightarrow> nat \<Rightarrow> sup \<Rightarrow> sup" where
  "add_timer kind delay st =
     st\<lparr>timers := timers st @ [\<lparr>tm_id = nextTimer st, tm_kind = kind, tm_delay = delay\<rparr>],
        nextTimer := Suc (nextTimer st)\<rparr>"

text \<open>\<open>daemonRestartTimeout = setTimeout(...)\<close>: an older timer keeps running.\<close>

definition set_restart_timeout :: "timer_kind \<Rightarrow> nat \<Rightarrow> sup \<Rightarrow> sup" where
  "set_restart_timeout kind delay st =
     (add_timer kind delay st)\<lparr>daemonRestartTimeout := Some (nextTimer st)\<rparr>"

definition clear_restart_timeout :: "sup \<Rightarrow> sup" where
  "clear_restart_timeout st = (case daemonRestartTimeout st of
     None \<Rightarrow> st
   | Some i \<Rightarrow> st\<lparr>timers := filter (\<lambda>t. tm_id t \<noteq> i) (timers st), daemonRestartTimeout := None\<rparr>)"

definition show_error :: "string \<Rightarrow> sup \<Rightarrow> sup" where
  "show_error title st = st\<lparr>dialogs := dialogs st @ [title]\<rparr>"

definition reply :: "string \<Rightarrow> string option \<Rightarrow> sup \<Rightarrow> sup" where
  "reply channel err st = st\<lparr>replies := replies st @ [(channel, err)]\<rparr>"

definition set_child :: "nat \<Rightarrow> (child \<Rightarrow> child) \<Rightarrow> sup \<Rightarrow> sup" where
  "set_child p f st =
     (if p < length (children st) then st\<lparr>children := (children st)[p := f (children st ! p)]\<rparr> else st)"

definition child_alive :: "sup \<Rightarrow> nat \<Rightarrow> bool" where
  "child_alive st p \<longleftrightarrow> p < length (children st) \<and> ch_alive (children st ! p)"

definition child_killed :: "sup \<Rightarrow> nat \<Rightarrow> bool" where
  "child_killed st p \<longleftrightarrow> p < length (children st) \<and> ch_killed (children st ! p)"

subsection \<open>The start sequence\<close>

text \<open>Where \<open>startDaemonIfNeeded\<close> waits, with the locals that are still needed.\<close>

datatype start_pc =
    AwaitHealth
  | AwaitForceCleanup
  | AwaitPortRelease
  | AwaitCleanup
  | AwaitPeerCleanup
  | AwaitLogDir string
  | AwaitDirCheck string string
  | AwaitUp
  | AwaitReady
  | Returned bool

definition start_guard :: "sup \<Rightarrow> sup \<times> start_pc" where
  "start_guard st =
     (if isShuttingDown st then (st\<lparr>isRestarting := False\<rparr>, Returned False)
      else if isRestarting st then (st, Returned False)
      else ((clear_restart_timeout st)\<lparr>isRestarting := True\<rparr>, AwaitCleanup))"

definition start_after_health :: "sup_env \<Rightarrow> sup \<Rightarrow> sup \<times> start_pc" where
  "start_after_health env st =
     (if en_healthy env then (st, AwaitForceCleanup) else start_guard st)"

definition start_after_force_cleanup :: "sup_env \<Rightarrow> sup \<Rightarrow> sup \<times> start_pc" where
  "start_after_force_cleanup env st =
     (let r = en_cleanup env in
      if cr_cleaned r \<and> cr_pid r \<noteq> None \<and> cr_pid r \<noteq> Some 0 then (st, AwaitPortRelease)
      else if \<not> cr_cleaned r then (st\<lparr>isRestarting := False\<rparr>, Returned True)
      else start_guard st)"

text \<open>
  After the peer ports: the binary and its permissions. When the binary is not accessible the
  candidates are tried again (\<open>en_bin2\<close>); the binary used later is still the first one.
\<close>

definition start_binary :: "sup_env \<Rightarrow> sup \<Rightarrow> sup \<times> start_pc" where
  "start_binary env st =
     (let bin = resolveDaemonBinary (en_bin env);
          go_on = (st\<lparr>daemonAdminToken := en_token env\<rparr>, AwaitLogDir bin) in
      if ac_ok (checkBinaryPermissions (en_bin env) bin) then go_on
      else (let altBin = resolveDaemonBinary (en_bin2 env) in
        if altBin \<noteq> bin then
          (if ac_ok (checkBinaryPermissions (en_bin2 env) altBin) then go_on
           else (show_error ''Permission Error'' st, Returned False))
        else (show_error ''Permission Error'' st, Returned False)))"

definition start_after_logdir :: "sup_env \<Rightarrow> string \<Rightarrow> sup \<Rightarrow> sup \<times> start_pc" where
  "start_after_logdir env bin st =
     (let logFile = (case en_logdir env of Some r \<Rightarrow> lp_path r | None \<Rightarrow> en_logpath env) in
      (st\<lparr>currentDaemonLogPath := Some logFile\<rparr>, AwaitDirCheck bin logFile))"

definition open_log :: "sup_env \<Rightarrow> string \<Rightarrow> sup \<Rightarrow> sup" where
  "open_log env logFile st =
     (let temp = path_join (en_tmpdir env) ''orc-daemon.log'';
          file = (if ac_ok (en_dircheck env) then logFile else temp);
          st1 = (if ac_ok (en_dircheck env) then st else st\<lparr>currentDaemonLogPath := Some temp\<rparr>) in
      st1\<lparr>daemonLogStream := Some (if en_logopen env then LogFile file else LogStderr)\<rparr>)"

definition start_spawn :: "sup_env \<Rightarrow> string \<Rightarrow> string \<Rightarrow> sup \<Rightarrow> sup \<times> start_pc" where
  "start_spawn env bin logFile st =
     (let st1 = open_log env logFile st;
          missing = be_win32 (en_bin env) \<and> \<not> be_exists (en_bin env) bin in
      if missing \<or> en_spawn_error env \<noteq> None then
        ((show_error ''Daemon start failed'' (st1\<lparr>daemonLogStream := None\<rparr>))\<lparr>isRestarting := False\<rparr>,
         Returned False)
      else
        (st1\<lparr>daemonProc := Some (length (children st1)), daemonSpawnedByApp := True,
             children := children st1 @ [\<lparr>ch_alive = True, ch_killed = False, ch_listener = True\<rparr>]\<rparr>,
         AwaitUp))"

definition start_after_up :: "sup_env \<Rightarrow> sup \<Rightarrow> sup \<times> start_pc" where
  "start_after_up env st =
     (if en_healthy env then (st, AwaitReady)
      else ((show_error ''Daemon not responding'' st)\<lparr>isRestarting := False\<rparr>, Returned False))"

text \<open>The daemon counts as started whether or not it became ready.\<close>

definition start_after_ready :: "sup \<Rightarrow> sup \<times> start_pc" where
  "start_after_ready st =
     (st\<lparr>daemonRestartAttempts := 0, lastRestartTime := 0, isRestarting := False\<rparr>, Returned True)"

fun start_step :: "sup_env \<Rightarrow> start_pc \<Rightarrow> sup \<Rightarrow> sup \<times> start_pc" where
  "start_step env AwaitHealth st = start_after_health env st"
| "start_step env AwaitForceCleanup st = start_after_force_cleanup env st"
| "start_step env AwaitPortRelease st = start_guard st"
| "start_step env AwaitCleanup st = (st, AwaitPeerCleanup)"
| "start_step env AwaitPeerCleanup st = start_binary env st"
| "start_step env (AwaitLogDir bin) st = start_after_logdir env bin st"
| "start_step env (AwaitDirCheck bin logFile) st = start_spawn env bin logFile st"
| "start_step env AwaitUp st = start_after_up env st"
| "start_step env AwaitReady st = start_after_ready st"
| "start_step env (Returned b) st = (st, Returned b)"

text \<open>A start that nothing interrupts: one environment per piece, at most nine pieces.\<close>

fun start_run :: "(nat \<Rightarrow> sup_env) \<Rightarrow> nat \<Rightarrow> start_pc \<Rightarrow> sup \<Rightarrow> sup \<times> start_pc" where
  "start_run envs 0 pc st = (st, pc)"
| "start_run envs (Suc n) pc st =
     (let (st1, pc1) = start_step (envs 0) pc st in start_run (\<lambda>i. envs (Suc i)) n pc1 st1)"

definition startDaemonIfNeeded :: "(nat \<Rightarrow> sup_env) \<Rightarrow> sup \<Rightarrow> sup \<times> start_pc" where
  "startDaemonIfNeeded envs st = start_run envs 10 AwaitHealth st"

subsection \<open>Tasks\<close>

text \<open>
  What runs after an \<open>await\<close>. A start carries who called it, since the caller goes on when
  it returns; a graceful shutdown likewise.
\<close>

datatype start_caller =
    CallStartup
  | CallRestartTimer
  | CallCooldownTimer
  | CallMonitor
  | CallIpcStart
  | CallIpcRestart

datatype shutdown_caller = ShutdownQuit | ShutdownStop | ShutdownRestart

datatype shutdown_pc =
    AwaitPost nat "log_target option"
  | AwaitPoll nat "log_target option" time
  | ShutdownDone

datatype task =
    Starting start_caller start_pc
  | AwaitStartupHealth
  | AwaitRestartHealthy
  | AwaitStability
  | AwaitMonitorHealth
  | AwaitMonitorCleanup
  | AwaitIpcStartHealth
  | AwaitIpcRestartPause
  | Stopping shutdown_caller shutdown_pc
  | Finished

subsection \<open>The exit of the daemon\<close>

definition restart_delay :: "int option \<Rightarrow> nat \<Rightarrow> nat" where
  "restart_delay code attempts =
     (if code = Some 4 then min 1000 INITIAL_RESTART_DELAY_MS
      else min (INITIAL_RESTART_DELAY_MS * 2 ^ attempts) MAX_RESTART_DELAY_MS)"

text \<open>The exit handler. It clears \<open>daemonProc\<close> whichever process exited.\<close>

definition exit_handler :: "int option \<Rightarrow> sup \<Rightarrow> sup" where
  "exit_handler code st =
     (let st1 = st\<lparr>daemonProc := None\<rparr> in
      if isShuttingDown st1 \<or> \<not> daemonSpawnedByApp st1 then st1\<lparr>daemonLogStream := None\<rparr>
      else if MAX_RESTART_ATTEMPTS \<le> daemonRestartAttempts st1 then
        (let st2 = st1\<lparr>daemonLogStream := None\<rparr> in
         if windowOpen st2 then show_error ''Daemon Crashed'' st2 else st2)
      else
        (let delay = restart_delay code (daemonRestartAttempts st1) in
         set_restart_timeout RestartTimer delay
           (st1\<lparr>daemonRestartAttempts := Suc (daemonRestartAttempts st1)\<rparr>)))"

definition daemon_exit :: "nat \<Rightarrow> int option \<Rightarrow> sup \<Rightarrow> sup" where
  "daemon_exit p code st =
     (let st1 = set_child p (\<lambda>c. c\<lparr>ch_alive := False\<rparr>) st in
      if p < length (children st) \<and> ch_listener (children st ! p) then exit_handler code st1 else st1)"

subsection \<open>The timers\<close>

definition restart_timer :: "time \<Rightarrow> sup \<Rightarrow> sup \<times> task" where
  "restart_timer now st =
     (let st1 = st\<lparr>daemonRestartTimeout := None\<rparr> in
      if isShuttingDown st1 \<or> \<not> windowOpen st1 then (st1\<lparr>isRestarting := False\<rparr>, Finished)
      else if isRestarting st1 then (st1, Finished)
      else
        (let timeSinceLastRestart = now - lastRestartTime st1 in
         if timeSinceLastRestart < MIN_RESTART_COOLDOWN_MS
         then (set_restart_timeout CooldownTimer (nat (MIN_RESTART_COOLDOWN_MS - timeSinceLastRestart)) st1,
               Finished)
         else (st1\<lparr>lastRestartTime := now, isRestarting := True, daemonSpawnedByApp := False\<rparr>,
               Starting CallRestartTimer AwaitHealth)))"

definition cooldown_timer :: "sup \<Rightarrow> sup \<times> task" where
  "cooldown_timer st =
     (let st1 = st\<lparr>daemonRestartTimeout := None\<rparr> in
      if \<not> isShuttingDown st1 \<and> windowOpen st1 \<and> \<not> isRestarting st1
      then (let st2 = (case daemonProc st1 of
                         Some p \<Rightarrow> set_child p (\<lambda>c. c\<lparr>ch_listener := False\<rparr>) st1
                       | None \<Rightarrow> st1) in
            (st2\<lparr>isRestarting := True, daemonProc := None, daemonSpawnedByApp := False\<rparr>,
             Starting CallCooldownTimer AwaitHealth))
      else (st1, Finished))"

definition stability_timer :: "sup \<Rightarrow> sup \<times> task" where
  "stability_timer st = (if isShuttingDown st then (st, Finished) else (st, AwaitStability))"

text \<open>After \<open>await startDaemonIfNeeded()\<close>: what each caller does with the result.\<close>

definition start_returned :: "start_caller \<Rightarrow> bool \<Rightarrow> sup \<Rightarrow> sup \<times> task" where
  "start_returned caller started st = (case caller of
     CallStartup \<Rightarrow> (st, Finished)
   | CallRestartTimer \<Rightarrow> (st, AwaitRestartHealthy)
   | CallCooldownTimer \<Rightarrow> (st\<lparr>isRestarting := False\<rparr>, Finished)
   | CallMonitor \<Rightarrow> (if started then (add_timer ReportTimer 2000 st, Finished) else (st, Finished))
   | CallIpcStart \<Rightarrow>
       (reply ''daemon:start'' (if started then None else Some ''Failed to start daemon'') st, Finished)
   | CallIpcRestart \<Rightarrow>
       (reply ''daemon:restart'' (if started then None else Some ''Failed to restart daemon'') st, Finished))"

definition restart_healthy :: "sup_env \<Rightarrow> sup \<Rightarrow> sup \<times> task" where
  "restart_healthy env st =
     (let st1 = (if en_healthy env then add_timer StabilityTimer DAEMON_STABILITY_PERIOD_MS st else st) in
      (st1\<lparr>isRestarting := False\<rparr>, Finished))"

definition stability_checked :: "sup_env \<Rightarrow> sup \<Rightarrow> sup \<times> task" where
  "stability_checked env st =
     (if en_healthy env then (st\<lparr>daemonRestartAttempts := 0, lastRestartTime := 0\<rparr>, Finished)
      else (st, Finished))"

subsection \<open>Graceful shutdown\<close>

definition graceful_begin :: "sup \<Rightarrow> shutdown_pc" where
  "graceful_begin st = (case daemonProc st of
     None \<Rightarrow> ShutdownDone
   | Some p \<Rightarrow> if daemonSpawnedByApp st then AwaitPost p (daemonLogStream st) else ShutdownDone)"

definition graceful_finish :: "nat \<Rightarrow> log_target option \<Rightarrow> sup \<Rightarrow> sup" where
  "graceful_finish p logStream st =
     (let st1 = (if child_alive st p \<and> \<not> child_killed st p
                 then set_child p (\<lambda>c. c\<lparr>ch_killed := True\<rparr>) st else st) in
      case logStream of Some (LogFile _) \<Rightarrow> st1\<lparr>daemonLogStream := None\<rparr> | _ \<Rightarrow> st1)"

definition graceful_poll :: "time \<Rightarrow> nat \<Rightarrow> log_target option \<Rightarrow> time \<Rightarrow> sup \<Rightarrow> sup \<times> shutdown_pc" where
  "graceful_poll now p logStream start st =
     (if now - start < 3000 \<and> \<not> child_killed st p \<and> child_alive st p
      then (st, AwaitPoll p logStream start)
      else (graceful_finish p logStream st, ShutdownDone))"

fun graceful_step :: "sup_env \<Rightarrow> shutdown_pc \<Rightarrow> sup \<Rightarrow> sup \<times> shutdown_pc" where
  "graceful_step env (AwaitPost p logStream) st = graceful_poll (en_now env) p logStream (en_now env) st"
| "graceful_step env (AwaitPoll p logStream start) st = graceful_poll (en_now env) p logStream start st"
| "graceful_step env ShutdownDone st = (st, ShutdownDone)"

definition shutdown_returned :: "shutdown_caller \<Rightarrow> sup \<Rightarrow> sup \<times> task" where
  "shutdown_returned caller st = (case caller of
     ShutdownQuit \<Rightarrow> (st\<lparr>windowOpen := False, exited := True\<rparr>, Finished)
   | ShutdownStop \<Rightarrow> (reply ''daemon:stop'' None st, Finished)
   | ShutdownRestart \<Rightarrow> (st, AwaitIpcRestartPause))"

definition continue_stop :: "shutdown_caller \<Rightarrow> sup \<times> shutdown_pc \<Rightarrow> sup \<times> task" where
  "continue_stop caller r = (case r of
     (st, ShutdownDone) \<Rightarrow> shutdown_returned caller st
   | (st, pc) \<Rightarrow> (st, Stopping caller pc))"

subsection \<open>Quitting\<close>

text \<open>
  \<open>continueShutdown\<close>; the flag says whether it called \<open>e.preventDefault()\<close>, which Electron
  only looks at when the \<open>before-quit\<close> handler returns.
\<close>

definition continueShutdown :: "sup \<Rightarrow> sup \<times> task \<times> bool" where
  "continueShutdown st =
     (let st1 = (clear_restart_timeout st)\<lparr>daemonHealthCheckInterval := False\<rparr> in
      if daemonSpawnedByApp st1 then
        (case continue_stop ShutdownQuit (st1, graceful_begin st1) of (st2, t) \<Rightarrow> (st2, t, True))
      else (st1, Finished, False))"

text \<open>The \<open>before-quit\<close> handler, with whether the default was prevented in time.\<close>

definition before_quit :: "sup \<Rightarrow> sup \<times> task \<times> bool" where
  "before_quit st =
     (let st1 = st\<lparr>isShuttingDown := True, isRestarting := False\<rparr> in
      if windowOpen st1 then (add_timer QuitTimer 100 st1, Finished, False)
      else continueShutdown st1)"

definition quit_timer :: "sup \<Rightarrow> sup \<times> task" where
  "quit_timer st = (case continueShutdown st of (st1, t, _) \<Rightarrow> (st1, t))"

subsection \<open>The health monitor\<close>

definition monitor_tick :: "sup \<Rightarrow> sup \<times> task" where
  "monitor_tick st =
     (if isShuttingDown st then (st\<lparr>daemonHealthCheckInterval := False\<rparr>, Finished)
      else if windowOpen st then (st, AwaitMonitorHealth)
      else (st\<lparr>daemonHealthCheckInterval := False\<rparr>, Finished))"

text \<open>Is the process behind handle \<open>p\<close> dead? On Windows \<open>tasklist\<close> is asked when it has a pid.\<close>

definition process_dead :: "sup_env \<Rightarrow> sup \<Rightarrow> nat \<Rightarrow> bool" where
  "process_dead env st p =
     (if be_win32 (en_bin env) then
        (if \<not> child_alive st p then True
         else (case (en_pid env, en_tasklist env) of
           (Some pid, Some out) \<Rightarrow>
             \<not> js_includes (js_lower out) ''orc-daemon'' \<and> \<not> js_includes (js_lower out) (show_nat pid)
         | _ \<Rightarrow> False))
      else (case en_pid env of None \<Rightarrow> True | Some _ \<Rightarrow> \<not> en_signal_ok env))"

definition monitor_health :: "sup_env \<Rightarrow> sup \<Rightarrow> sup \<times> task" where
  "monitor_health env st =
     (if en_healthy env then (st\<lparr>consecutiveHealthFailures := 0\<rparr>, Finished)
      else
        (let st1 = st\<lparr>consecutiveHealthFailures := Suc (consecutiveHealthFailures st)\<rparr>;
             processDead = (if daemonSpawnedByApp st1 then
                 (case daemonProc st1 of None \<Rightarrow> True | Some p \<Rightarrow> process_dead env st1 p)
               else False) in
         if processDead \<or> MAX_CONSECUTIVE_FAILURES \<le> consecutiveHealthFailures st1 then
           (let st2 = (if processDead then st1\<lparr>daemonProc := None, daemonSpawnedByApp := False\<rparr> else st1) in
            if \<not> isRestarting st2 \<and> daemonRestartTimeout st2 = None \<and> \<not> daemonSpawnedByApp st2 then
              (if en_now env - lastRestartTime st2 < MIN_RESTART_COOLDOWN_MS then (st2, Finished)
               else (st2, AwaitMonitorCleanup))
            else (st2, Finished))
         else (st1, Finished)))"

definition monitor_cleanup :: "sup_env \<Rightarrow> sup \<Rightarrow> sup \<times> task" where
  "monitor_cleanup env st =
     (st\<lparr>consecutiveHealthFailures := 0, lastRestartTime := en_now env\<rparr>,
      Starting CallMonitor AwaitHealth)"

subsection \<open>Requests of the window\<close>

definition ipc_start :: "sup \<Rightarrow> sup \<times> task" where
  "ipc_start st =
     (if isRestarting st then
        (reply ''daemon:start'' (Some ''Daemon is already starting or restarting'') st, Finished)
      else if daemonProc st \<noteq> None \<and> daemonSpawnedByApp st then (st, AwaitIpcStartHealth)
      else (st, Starting CallIpcStart AwaitHealth))"

definition ipc_start_checked :: "sup_env \<Rightarrow> sup \<Rightarrow> sup \<times> task" where
  "ipc_start_checked env st =
     (if en_healthy env then (reply ''daemon:start'' None st, Finished)
      else (st, Starting CallIpcStart AwaitHealth))"

definition ipc_stop :: "sup \<Rightarrow> sup \<times> task" where
  "ipc_stop st =
     (if \<not> daemonSpawnedByApp st then
        (reply ''daemon:stop'' (Some ''Daemon was not started by this application'') st, Finished)
      else continue_stop ShutdownStop (st, graceful_begin st))"

definition ipc_restart :: "sup \<Rightarrow> sup \<times> task" where
  "ipc_restart st =
     (if isRestarting st then
        (reply ''daemon:restart'' (Some ''Daemon is already restarting'') st, Finished)
      else if daemonSpawnedByApp st \<and> daemonProc st \<noteq> None
      then continue_stop ShutdownRestart (st, graceful_begin st)
      else (st, Starting CallIpcRestart AwaitHealth))"

text \<open>\<open>daemon:status\<close>: it only reads; \<open>healthy\<close> is the probe's answer where it asks for one.\<close>

definition ipc_status :: "bool \<Rightarrow> sup \<Rightarrow> string" where
  "ipc_status healthy st =
     (if isRestarting st then ''starting''
      else (case daemonProc st of
        Some p \<Rightarrow>
          if daemonSpawnedByApp st then
            (if \<not> child_alive st p then ''stopped''
             else if healthy then ''running'' else ''starting'')
          else if healthy then ''running'' else ''stopped''
      | None \<Rightarrow> if healthy then ''running'' else ''stopped''))"

text \<open>The checks at startup and when the window is shown: start unless healthy.\<close>

definition startup_checked :: "sup_env \<Rightarrow> sup \<Rightarrow> sup \<times> task" where
  "startup_checked env st =
     (if en_healthy env then (st, Finished) else (st, Starting CallStartup AwaitHealth))"

subsection \<open>One piece of a task\<close>

definition continue_start :: "start_caller \<Rightarrow> sup \<times> start_pc \<Rightarrow> sup \<times> task" where
  "continue_start caller r = (case r of
     (st, Returned b) \<Rightarrow> start_returned caller b st
   | (st, pc) \<Rightarrow> (st, Starting caller pc))"

fun task_step :: "sup_env \<Rightarrow> task \<Rightarrow> sup \<Rightarrow> sup \<times> task" where
  "task_step env (Starting caller pc) st = continue_start caller (start_step env pc st)"
| "task_step env AwaitStartupHealth st = startup_checked env st"
| "task_step env AwaitRestartHealthy st = restart_healthy env st"
| "task_step env AwaitStability st = stability_checked env st"
| "task_step env AwaitMonitorHealth st = monitor_health env st"
| "task_step env AwaitMonitorCleanup st = monitor_cleanup env st"
| "task_step env AwaitIpcStartHealth st = ipc_start_checked env st"
| "task_step env AwaitIpcRestartPause st = (st, Starting CallIpcRestart AwaitHealth)"
| "task_step env (Stopping caller pc) st = continue_stop caller (graceful_step env pc st)"
| "task_step env Finished st = (st, Finished)"

text \<open>A timer that is due; the report timer only writes to the console.\<close>

definition fire :: "time \<Rightarrow> timer_kind \<Rightarrow> sup \<Rightarrow> sup \<times> task" where
  "fire now kind st = (case kind of
     RestartTimer \<Rightarrow> restart_timer now st
   | CooldownTimer \<Rightarrow> cooldown_timer st
   | StabilityTimer \<Rightarrow> stability_timer st
   | ReportTimer \<Rightarrow> (st, Finished)
   | QuitTimer \<Rightarrow> quit_timer st)"

subsection \<open>Lemmas on timers\<close>

lemma add_timer_simps [simp]:
  "daemonProc (add_timer k d st) = daemonProc st"
  "daemonSpawnedByApp (add_timer k d st) = daemonSpawnedByApp st"
  "daemonRestartAttempts (add_timer k d st) = daemonRestartAttempts st"
  "daemonRestartTimeout (add_timer k d st) = daemonRestartTimeout st"
  "isShuttingDown (add_timer k d st) = isShuttingDown st"
  "isRestarting (add_timer k d st) = isRestarting st"
  "windowOpen (add_timer k d st) = windowOpen st"
  "children (add_timer k d st) = children st"
  "timers (add_timer k d st) = timers st @ [\<lparr>tm_id = nextTimer st, tm_kind = k, tm_delay = d\<rparr>]"
  "nextTimer (add_timer k d st) = Suc (nextTimer st)"
  by (simp_all add: add_timer_def)

lemma set_restart_timeout_simps [simp]:
  "daemonProc (set_restart_timeout k d st) = daemonProc st"
  "daemonSpawnedByApp (set_restart_timeout k d st) = daemonSpawnedByApp st"
  "daemonRestartAttempts (set_restart_timeout k d st) = daemonRestartAttempts st"
  "daemonRestartTimeout (set_restart_timeout k d st) = Some (nextTimer st)"
  "isShuttingDown (set_restart_timeout k d st) = isShuttingDown st"
  "isRestarting (set_restart_timeout k d st) = isRestarting st"
  "windowOpen (set_restart_timeout k d st) = windowOpen st"
  "children (set_restart_timeout k d st) = children st"
  "timers (set_restart_timeout k d st) = timers st @ [\<lparr>tm_id = nextTimer st, tm_kind = k, tm_delay = d\<rparr>]"
  "nextTimer (set_restart_timeout k d st) = Suc (nextTimer st)"
  by (simp_all add: set_restart_timeout_def)

lemma clear_restart_timeout_simps [simp]:
  "daemonProc (clear_restart_timeout st) = daemonProc st"
  "daemonSpawnedByApp (clear_restart_timeout st) = daemonSpawnedByApp st"
  "daemonRestartAttempts (clear_restart_timeout st) = daemonRestartAttempts st"
  "daemonRestartTimeout (clear_restart_timeout st) = None"
  "isShuttingDown (clear_restart_timeout st) = isShuttingDown st"
  "isRestarting (clear_restart_timeout st) = isRestarting st"
  "windowOpen (clear_restart_timeout st) = windowOpen st"
  "children (clear_restart_timeout st) = children st"
  "dialogs (clear_restart_timeout st) = dialogs st"
  "nextTimer (clear_restart_timeout st) = nextTimer st"
  by (simp_all add: clear_restart_timeout_def split: option.split)

lemma timers_clear: "set (timers (clear_restart_timeout st)) \<subseteq> set (timers st)"
  by (auto simp: clear_restart_timeout_def split: option.split)

lemma show_error_simps [simp]:
  "daemonProc (show_error m st) = daemonProc st"
  "daemonSpawnedByApp (show_error m st) = daemonSpawnedByApp st"
  "daemonRestartAttempts (show_error m st) = daemonRestartAttempts st"
  "daemonRestartTimeout (show_error m st) = daemonRestartTimeout st"
  "isShuttingDown (show_error m st) = isShuttingDown st"
  "isRestarting (show_error m st) = isRestarting st"
  "windowOpen (show_error m st) = windowOpen st"
  "children (show_error m st) = children st"
  "timers (show_error m st) = timers st"
  "nextTimer (show_error m st) = nextTimer st"
  "dialogs (show_error m st) = dialogs st @ [m]"
  by (simp_all add: show_error_def)

lemma reply_simps [simp]:
  "daemonProc (reply c e st) = daemonProc st"
  "daemonSpawnedByApp (reply c e st) = daemonSpawnedByApp st"
  "daemonRestartAttempts (reply c e st) = daemonRestartAttempts st"
  "daemonRestartTimeout (reply c e st) = daemonRestartTimeout st"
  "isShuttingDown (reply c e st) = isShuttingDown st"
  "isRestarting (reply c e st) = isRestarting st"
  "windowOpen (reply c e st) = windowOpen st"
  "children (reply c e st) = children st"
  "timers (reply c e st) = timers st"
  "nextTimer (reply c e st) = nextTimer st"
  by (simp_all add: reply_def)

lemma set_child_simps [simp]:
  "daemonProc (set_child p f st) = daemonProc st"
  "daemonSpawnedByApp (set_child p f st) = daemonSpawnedByApp st"
  "daemonRestartAttempts (set_child p f st) = daemonRestartAttempts st"
  "daemonRestartTimeout (set_child p f st) = daemonRestartTimeout st"
  "isShuttingDown (set_child p f st) = isShuttingDown st"
  "isRestarting (set_child p f st) = isRestarting st"
  "windowOpen (set_child p f st) = windowOpen st"
  "length (children (set_child p f st)) = length (children st)"
  "timers (set_child p f st) = timers st"
  "nextTimer (set_child p f st) = nextTimer st"
  by (simp_all add: set_child_def)

lemma open_log_simps [simp]:
  "daemonProc (open_log env f st) = daemonProc st"
  "daemonSpawnedByApp (open_log env f st) = daemonSpawnedByApp st"
  "daemonRestartAttempts (open_log env f st) = daemonRestartAttempts st"
  "daemonRestartTimeout (open_log env f st) = daemonRestartTimeout st"
  "isShuttingDown (open_log env f st) = isShuttingDown st"
  "isRestarting (open_log env f st) = isRestarting st"
  "windowOpen (open_log env f st) = windowOpen st"
  "children (open_log env f st) = children st"
  "timers (open_log env f st) = timers st"
  "nextTimer (open_log env f st) = nextTimer st"
  "dialogs (open_log env f st) = dialogs st"
  by (simp_all add: open_log_def Let_def)

lemmas start_defs = start_after_health_def start_after_force_cleanup_def start_guard_def
  start_binary_def start_after_logdir_def start_spawn_def start_after_up_def start_after_ready_def Let_def

subsection \<open>The start sequence ends\<close>

fun start_rank :: "start_pc \<Rightarrow> nat" where
  "start_rank AwaitHealth = 9"
| "start_rank AwaitForceCleanup = 8"
| "start_rank AwaitPortRelease = 7"
| "start_rank AwaitCleanup = 6"
| "start_rank AwaitPeerCleanup = 5"
| "start_rank (AwaitLogDir _) = 4"
| "start_rank (AwaitDirCheck _ _) = 3"
| "start_rank AwaitUp = 2"
| "start_rank AwaitReady = 1"
| "start_rank (Returned _) = 0"

lemma start_step_rank: "0 < start_rank pc \<Longrightarrow> start_rank (snd (start_step env pc st)) < start_rank pc"
  by (cases pc) (auto simp: start_defs)

lemma start_run_returns: "start_rank pc \<le> n \<Longrightarrow> \<exists>b. snd (start_run envs n pc st) = Returned b"
proof (induction n arbitrary: envs pc st)
  case 0
  then show ?case by (cases pc) auto
next
  case (Suc n)
  obtain st1 pc1 where s: "start_step (envs 0) pc st = (st1, pc1)" by fastforce
  have "start_rank pc1 \<le> n"
  proof (cases "start_rank pc = 0")
    case True
    then obtain b where "pc = Returned b" by (cases pc) auto
    with s have "pc1 = Returned b" by auto
    then show ?thesis by simp
  next
    case False
    with start_step_rank [of pc "envs 0" st] s Suc.prems show ?thesis by simp
  qed
  from Suc.IH [OF this] s show ?case by simp
qed

text \<open>
  What holds of a start that found no other running, at each place where it waits: the
  state is still the one it began with, then only it restarts and nothing is spawned, then
  there is one new child.
\<close>

definition fresh_child :: child where
  "fresh_child = \<lparr>ch_alive = True, ch_killed = False, ch_listener = True\<rparr>"

definition start_inv :: "sup \<Rightarrow> start_pc \<Rightarrow> sup \<Rightarrow> bool" where
  "start_inv st0 pc st \<longleftrightarrow> isShuttingDown st = isShuttingDown st0 \<and> (case pc of
     Returned b \<Rightarrow>
       (children st = children st0 \<or> children st = children st0 @ [fresh_child]) \<and>
       (isRestarting st \<longrightarrow> \<not> b \<and> children st = children st0 \<and> dialogs st = dialogs st0 @ [''Permission Error'']) \<and>
       (b \<and> children st \<noteq> children st0 \<longrightarrow> daemonRestartAttempts st = 0 \<and>
          daemonProc st = Some (length (children st0)) \<and> daemonSpawnedByApp st)
   | AwaitHealth \<Rightarrow> st = st0
   | AwaitForceCleanup \<Rightarrow> st = st0
   | AwaitPortRelease \<Rightarrow> st = st0
   | AwaitUp \<Rightarrow> children st = children st0 @ [fresh_child] \<and> daemonProc st = Some (length (children st0)) \<and>
       daemonSpawnedByApp st
   | AwaitReady \<Rightarrow> children st = children st0 @ [fresh_child] \<and> daemonProc st = Some (length (children st0)) \<and>
       daemonSpawnedByApp st
   | _ \<Rightarrow> children st = children st0 \<and> dialogs st = dialogs st0)"

lemma start_step_inv:
  assumes "\<not> isShuttingDown st0" and "\<not> isRestarting st0" and "start_inv st0 pc st"
  shows "start_inv st0 (snd (start_step env pc st)) (fst (start_step env pc st))"
proof (cases pc)
  case (Returned b)
  with assms show ?thesis by simp
qed (use assms in \<open>auto simp: start_inv_def start_defs fresh_child_def\<close>)

lemma start_run_inv:
  assumes "\<not> isShuttingDown st0" and "\<not> isRestarting st0" and "start_inv st0 pc st"
  shows "start_inv st0 (snd (start_run envs n pc st)) (fst (start_run envs n pc st))"
  using assms(3)
proof (induction n arbitrary: envs pc st)
  case (Suc n)
  obtain st1 pc1 where s: "start_step (envs 0) pc st = (st1, pc1)" by fastforce
  with start_step_inv [OF assms(1,2) Suc.prems, of "envs 0"] have "start_inv st0 pc1 st1" by simp
  from Suc.IH [OF this] s show ?case by simp
qed simp

lemma start_run_Returned [simp]: "start_run envs n (Returned b) st = (st, Returned b)"
  by (induction n arbitrary: envs) simp_all

lemma start_run_add:
  "start_run envs (m + n) pc st =
     (let (st1, pc1) = start_run envs m pc st in start_run (\<lambda>i. envs (m + i)) n pc1 st1)"
  by (induction m arbitrary: envs pc st) (auto split: prod.split)

text \<open>A start made while another is marked as running does nothing unless the daemon is healthy.\<close>

lemma start_refused:
  assumes "isRestarting st" and "\<not> isShuttingDown st" and "\<not> en_healthy (envs 0)"
  shows "startDaemonIfNeeded envs st = (st, Returned False)"
  using assms start_run_add [of envs 1 9 AwaitHealth st]
  by (simp add: startDaemonIfNeeded_def start_defs)

subsection \<open>Properties\<close>

text \<open>
  Property C3: an undisturbed start always returns, spawning at most one process. It returns true
  with a process of its own only with the restart counter reset and the process recorded as
  the app's; and unless the binary's permission check failed it leaves no start marked as
  running.
\<close>

theorem start_outcomes:
  assumes "\<not> isShuttingDown st" and "\<not> isRestarting st"
    and "startDaemonIfNeeded envs st = (st1, pc)"
  shows "\<exists>b. pc = Returned b \<and>
    (children st1 = children st \<or> children st1 = children st @ [fresh_child]) \<and>
    (b \<and> children st1 \<noteq> children st \<longrightarrow> daemonRestartAttempts st1 = 0 \<and>
       daemonProc st1 = Some (length (children st)) \<and> daemonSpawnedByApp st1) \<and>
    (isRestarting st1 \<longrightarrow> \<not> b \<and> children st1 = children st \<and>
       dialogs st1 = dialogs st @ [''Permission Error''])"
proof -
  have "start_inv st (snd (startDaemonIfNeeded envs st)) (fst (startDaemonIfNeeded envs st))"
    unfolding startDaemonIfNeeded_def
    by (rule start_run_inv [OF assms(1,2)]) (simp add: start_inv_def)
  moreover obtain b where "pc = Returned b"
    using start_run_returns [of AwaitHealth 10 envs st] assms(3) unfolding startDaemonIfNeeded_def by auto
  ultimately show ?thesis using assms(3) by (simp add: start_inv_def)
qed

definition good_bin :: bin_env where
  "good_bin = \<lparr>be_isDev = False, be_win32 = False, be_resourcesPath = Some ''res'', be_exeDir = ''app'',
     be_repoDebugDir = ''debug'', be_assetsBinDir = ''assets'', be_exists = (\<lambda>_. True), be_readable = (\<lambda>_. None)\<rparr>"

definition sample_env :: "bool \<Rightarrow> sup_env" where
  "sample_env healthy = \<lparr>en_now = 100000, en_healthy = healthy,
     en_cleanup = \<lparr>cr_cleaned = False, cr_pid = None\<rparr>, en_bin = good_bin, en_bin2 = good_bin,
     en_token = ''secret'', en_logdir = Some \<lparr>lp_path = ''logs/daemon.log'', lp_error = None\<rparr>,
     en_logpath = ''logs/daemon.log'', en_dircheck = \<lparr>ac_ok = True, ac_error = None\<rparr>, en_tmpdir = ''tmp'',
     en_logopen = True, en_spawn_error = None, en_pid = Some 7, en_tasklist = None, en_signal_ok = True\<rparr>"

text \<open>The daemon is down at first and answers once it has been spawned.\<close>

definition sample_envs :: "nat \<Rightarrow> sup_env" where
  "sample_envs i = sample_env (5 \<le> i)"

lemma sup_init_simps [simp]:
  "\<not> isShuttingDown sup_init" "\<not> isRestarting sup_init" "daemonRestartAttempts sup_init = 0"
  "children sup_init = []" "timers sup_init = []" "daemonRestartTimeout sup_init = None" "windowOpen sup_init"
  by (simp_all add: sup_init_def)

lemma good_bin_ok [simp]: "ac_ok (checkBinaryPermissions good_bin p)"
  by (simp add: checkBinaryPermissions_def good_bin_def)

lemma sample_start:
  "startDaemonIfNeeded sample_envs sup_init =
     (sup_init\<lparr>daemonProc := Some 0, daemonAdminToken := ''secret'', daemonSpawnedByApp := True,
        daemonLogStream := Some (LogFile ''logs/daemon.log''), children := [fresh_child],
        currentDaemonLogPath := Some ''logs/daemon.log''\<rparr>, Returned True)"
  by (simp add: startDaemonIfNeeded_def eval_nat_numeral start_defs sample_envs_def sample_env_def
      sup_init_def open_log_def good_bin_def fresh_child_def clear_restart_timeout_def
      good_bin_ok [unfolded good_bin_def])

theorem start_outcomes_witness:
  "daemonRestartAttempts (fst (startDaemonIfNeeded sample_envs sup_init)) = 0 \<and>
   daemonProc (fst (startDaemonIfNeeded sample_envs sup_init)) = Some 0"
proof -
  have "\<not> isShuttingDown sup_init" "\<not> isRestarting sup_init" by (simp_all add: sup_init_def)
  from start_outcomes [OF this sample_start] show ?thesis
    by (simp add: sample_start)
qed

text \<open>
  Further fact: when neither binary candidate is accessible the start gives up but stays marked as
  running: from then on every start is refused while the daemon is down, and the window's
  request to start it is answered with \<open>already starting or restarting\<close>.
\<close>

theorem permission_failure_locks_out:
  assumes "\<not> isShuttingDown st" and "\<not> isRestarting st" and "\<not> en_healthy (envs 0)"
    and "\<not> ac_ok (checkBinaryPermissions (en_bin (envs 2)) (resolveDaemonBinary (en_bin (envs 2))))"
    and "\<not> ac_ok (checkBinaryPermissions (en_bin2 (envs 2)) (resolveDaemonBinary (en_bin2 (envs 2))))"
    and "st1 = fst (startDaemonIfNeeded envs st)"
  shows "isRestarting st1 \<and> snd (startDaemonIfNeeded envs st) = Returned False \<and>
    (\<forall>envs'. \<not> en_healthy (envs' 0) \<longrightarrow> startDaemonIfNeeded envs' st1 = (st1, Returned False)) \<and>
    ipc_start st1 = (reply ''daemon:start'' (Some ''Daemon is already starting or restarting'') st1, Finished)"
proof -
  have "startDaemonIfNeeded envs st =
      (show_error ''Permission Error'' ((clear_restart_timeout st)\<lparr>isRestarting := True\<rparr>), Returned False)"
    using assms(1-5) start_run_add [of envs 3 7 AwaitHealth st]
    by (simp add: startDaemonIfNeeded_def eval_nat_numeral start_defs)
  with assms(1,6) show ?thesis by (simp add: start_refused ipc_start_def)
qed

definition bad_env :: sup_env where
  "bad_env = (sample_env False)\<lparr>en_bin := good_bin\<lparr>be_readable := \<lambda>_. Some ''EACCES''\<rparr>,
     en_bin2 := good_bin\<lparr>be_readable := \<lambda>_. Some ''EACCES''\<rparr>\<rparr>"

theorem permission_failure_locks_out_witness:
  "isRestarting (fst (startDaemonIfNeeded (\<lambda>_. bad_env) sup_init))"
  by (rule permission_failure_locks_out [THEN conjunct1, of sup_init "\<lambda>_. bad_env"])
    (simp_all add: sup_init_def bad_env_def sample_env_def good_bin_def checkBinaryPermissions_def)

text \<open>
  Further fact: the restart timer never restarts the daemon. It marks a restart as running before it
  calls the start sequence, which refuses because of that mark; if some daemon answers
  meanwhile, the start returns without spawning too. So after a crash no process is spawned
  by the restart that was scheduled for it, however often it is tried.
\<close>

theorem restart_timer_never_spawns:
  assumes "restart_timer now st = (st1, Starting CallRestartTimer AwaitHealth)"
    and "startDaemonIfNeeded envs st1 = (st2, pc)"
  shows "children st2 = children st \<and> daemonProc st2 = daemonProc st \<and>
    (\<not> en_healthy (envs 0) \<longrightarrow> pc = Returned False)"
proof -
  have st1: "isRestarting st1" "\<not> isShuttingDown st1" "children st1 = children st" "daemonProc st1 = daemonProc st"
    using assms(1) by (auto simp: restart_timer_def Let_def split: if_splits)
  have "\<exists>b st3. start_run envs 3 AwaitHealth st1 = (st3, Returned b) \<and> children st3 = children st1 \<and>
      daemonProc st3 = daemonProc st1 \<and> (\<not> en_healthy (envs 0) \<longrightarrow> \<not> b)"
    using st1(1,2) by (auto simp: eval_nat_numeral start_defs)
  then obtain b st3 where "start_run envs 3 AwaitHealth st1 = (st3, Returned b)" "children st3 = children st1"
      "daemonProc st3 = daemonProc st1" "\<not> en_healthy (envs 0) \<longrightarrow> \<not> b" by blast
  moreover from this(1) have "startDaemonIfNeeded envs st1 = (st3, Returned b)"
    using start_run_add [of envs 3 7 AwaitHealth st1] by (simp add: startDaemonIfNeeded_def)
  ultimately show ?thesis using st1(3,4) assms(2) by auto
qed

theorem restart_timer_never_spawns_witness:
  "children (fst (startDaemonIfNeeded sample_envs
     (fst (restart_timer 100000 (sup_init\<lparr>daemonRestartAttempts := 1, daemonSpawnedByApp := True\<rparr>))))) = []"
proof -
  let ?st = "sup_init\<lparr>daemonRestartAttempts := 1, daemonSpawnedByApp := True\<rparr>"
  have "restart_timer 100000 ?st =
      (fst (restart_timer 100000 ?st), Starting CallRestartTimer AwaitHealth)"
    by (simp add: restart_timer_def sup_init_def MIN_RESTART_COOLDOWN_MS_def Let_def)
  from restart_timer_never_spawns [OF this, of sample_envs
      "fst (startDaemonIfNeeded sample_envs (fst (restart_timer 100000 ?st)))"
      "snd (startDaemonIfNeeded sample_envs (fst (restart_timer 100000 ?st)))"]
  show ?thesis by (simp add: sup_init_def)
qed

text \<open>
  Property C11: when a daemon started by the app exits, a restart is scheduled exactly when the app
  is not shutting down and fewer than ten restarts were counted; the counter goes up by one,
  and the delay is one second when the port was in use and otherwise doubles from five
  seconds up to thirty.
\<close>

theorem exit_schedules_restart:
  assumes "p < length (children st)" and "ch_listener (children st ! p)"
  shows "let st1 = daemon_exit p code st in
    daemonProc st1 = None \<and> \<not> child_alive st1 p \<and>
    (if isShuttingDown st \<or> \<not> daemonSpawnedByApp st \<or> 10 \<le> daemonRestartAttempts st
     then timers st1 = timers st \<and> daemonRestartAttempts st1 = daemonRestartAttempts st
     else timers st1 = timers st @ [\<lparr>tm_id = nextTimer st, tm_kind = RestartTimer,
              tm_delay = (if code = Some 4 then 1000
                          else min (5000 * 2 ^ daemonRestartAttempts st) 30000)\<rparr>] \<and>
          daemonRestartTimeout st1 = Some (nextTimer st) \<and>
          daemonRestartAttempts st1 = Suc (daemonRestartAttempts st))"
  using assms
  by (auto simp: daemon_exit_def exit_handler_def Let_def MAX_RESTART_ATTEMPTS_def restart_delay_def
      INITIAL_RESTART_DELAY_MS_def MAX_RESTART_DELAY_MS_def child_alive_def)
    (auto simp: set_child_def set_restart_timeout_def add_timer_def)

theorem exit_schedules_restart_witness:
  "daemonRestartAttempts (daemon_exit 0 (Some 1) (fst (startDaemonIfNeeded sample_envs sup_init))) = 1"
proof -
  have "0 < length (children (fst (startDaemonIfNeeded sample_envs sup_init)))"
    "ch_listener (children (fst (startDaemonIfNeeded sample_envs sup_init)) ! 0)"
    by (simp_all add: sample_start fresh_child_def)
  from exit_schedules_restart [OF this, of "Some 1"] show ?thesis
    by (simp add: sample_start Let_def)
qed

text \<open>
  Further fact: the health monitor never restarts a daemon of its own that hangs: as long as the
  process is not seen dead, no number of failed health checks leads to a restart, although
  after three it announces one.
\<close>

theorem monitor_ignores_hung_daemon:
  assumes "daemonSpawnedByApp st" and "daemonProc st = Some p" and "\<not> process_dead env st p"
  shows "snd (monitor_health env st) = Finished \<and>
    children (fst (monitor_health env st)) = children st \<and>
    (\<not> en_healthy env \<longrightarrow>
       consecutiveHealthFailures (fst (monitor_health env st)) = Suc (consecutiveHealthFailures st))"
proof -
  have "process_dead env (st\<lparr>consecutiveHealthFailures := n\<rparr>) p = process_dead env st p" for n
    by (simp add: process_dead_def child_alive_def)
  with assms show ?thesis by (simp add: monitor_health_def Let_def)
qed

theorem monitor_ignores_hung_daemon_witness:
  "snd (monitor_health (sample_env False)
     ((fst (startDaemonIfNeeded sample_envs sup_init))\<lparr>consecutiveHealthFailures := 99\<rparr>)) = Finished"
  by (rule monitor_ignores_hung_daemon [THEN conjunct1, of _ 0])
    (simp_all add: sample_start process_dead_def sample_env_def good_bin_def)

text \<open>
  Further fact: quitting prevents the default, so that the daemon is shut down first, exactly when
  the app owns a daemon and no window is open; with a window open the decision is put off
  until the handler has returned, and the app quits without waiting for the daemon.
\<close>

theorem quit_waits_only_without_window:
  "snd (snd (before_quit st)) \<longleftrightarrow> \<not> windowOpen st \<and> daemonSpawnedByApp st"
  by (auto simp: before_quit_def continueShutdown_def Let_def split: prod.split)

end
