(* ===== verification/SupervisorSys.thy ===== *)
theory SupervisorSys
  imports Supervisor
begin

text \<open>
  The supervisor as a system: the module state together with its suspended tasks, and the
  events that may come next in any order (a task goes on, a timer is due, the daemon exits,
  the window sends a request or is closed, the app quits). \<open>sys_exec\<close> performs one event;
  the reachable states are those of all sequences of events from the start of the app.
\<close>

type_synonym sys = "sup \<times> task list"

datatype sys_event =
    Resume nat sup_env
  | TimerDue nat time
  | DaemonExits nat "int option"
  | MonitorOn
  | MonitorTick
  | RequestStart
  | RequestStop
  | RequestRestart
  | WindowClosed
  | Quit

text \<open>At startup: the start itself, the safety check after it and the one of the window.\<close>

definition sys_init :: sys where
  "sys_init = (sup_init, [Starting CallStartup AwaitHealth, AwaitStartupHealth, AwaitStartupHealth])"

definition spawn_task :: "task list \<Rightarrow> sup \<times> task \<Rightarrow> sys" where
  "spawn_task ts r = (fst r, ts @ [snd r])"

fun sys_exec :: "sys_event \<Rightarrow> sys \<Rightarrow> sys option" where
  "sys_exec (Resume i env) (st, ts) =
     (if i < length ts
      then (let (st1, t) = task_step env (ts ! i) st in Some (st1, ts[i := t])) else None)"
| "sys_exec (TimerDue i now) (st, ts) =
     (case filter (\<lambda>t. tm_id t = i) (timers st) of
        [] \<Rightarrow> None
      | tm # _ \<Rightarrow> Some (spawn_task ts
          (fire now (tm_kind tm) (st\<lparr>timers := filter (\<lambda>t. tm_id t \<noteq> i) (timers st)\<rparr>))))"
| "sys_exec (DaemonExits p code) (st, ts) =
     (if child_alive st p then Some (daemon_exit p code st, ts) else None)"
| "sys_exec MonitorOn (st, ts) = Some (st\<lparr>daemonHealthCheckInterval := True\<rparr>, ts)"
| "sys_exec MonitorTick (st, ts) =
     (if daemonHealthCheckInterval st then Some (spawn_task ts (monitor_tick st)) else None)"
| "sys_exec RequestStart (st, ts) = (if windowOpen st then Some (spawn_task ts (ipc_start st)) else None)"
| "sys_exec RequestStop (st, ts) = (if windowOpen st then Some (spawn_task ts (ipc_stop st)) else None)"
| "sys_exec RequestRestart (st, ts) =
     (if windowOpen st then Some (spawn_task ts (ipc_restart st)) else None)"
| "sys_exec WindowClosed (st, ts) = Some (st\<lparr>windowOpen := False\<rparr>, ts)"
| "sys_exec Quit (st, ts) = (case before_quit st of (st1, t, _) \<Rightarrow> Some (st1, ts @ [t]))"

text \<open>Nothing happens after \<open>app.exit\<close>.\<close>

inductive sys_reach :: "sys \<Rightarrow> bool" where
  init: "sys_reach sys_init"
| step: "sys_reach s \<Longrightarrow> \<not> exited (fst s) \<Longrightarrow> sys_exec ev s = Some s' \<Longrightarrow> sys_reach s'"

fun sys_run :: "sys_event list \<Rightarrow> sys \<Rightarrow> sys option" where
  "sys_run [] s = Some s"
| "sys_run (ev # evs) s =
     (if exited (fst s) then None
      else (case sys_exec ev s of None \<Rightarrow> None | Some s1 \<Rightarrow> sys_run evs s1))"

inductive_cases sys_reachE: "sys_reach s"

lemma sys_run_reach: "sys_reach s \<Longrightarrow> sys_run evs s = Some s' \<Longrightarrow> sys_reach s'"
  by (induction evs arbitrary: s) (auto intro: sys_reach.step split: if_splits option.splits)

subsection \<open>The invariant of the state\<close>

definition timer_ok :: "timer \<Rightarrow> bool" where
  "timer_ok t \<longleftrightarrow>
     (tm_kind t = RestartTimer \<longrightarrow> 1000 \<le> tm_delay t \<and> tm_delay t \<le> 30000) \<and>
     (tm_kind t = CooldownTimer \<longrightarrow> 0 < tm_delay t)"

definition sup_inv :: "sup \<Rightarrow> bool" where
  "sup_inv st \<longleftrightarrow>
     daemonRestartAttempts st \<le> MAX_RESTART_ATTEMPTS \<and>
     distinct (map tm_id (timers st)) \<and>
     (\<forall>t \<in> set (timers st). tm_id t < nextTimer st \<and> timer_ok t) \<and>
     (\<forall>i. daemonRestartTimeout st = Some i \<longrightarrow>
        (\<exists>t \<in> set (timers st). tm_id t = i \<and> (tm_kind t = RestartTimer \<or> tm_kind t = CooldownTimer))) \<and>
     (\<forall>p. daemonProc st = Some p \<longrightarrow> p < length (children st))"

text \<open>The invariant reads six fields only.\<close>

lemma sup_inv_cong:
  assumes "daemonRestartAttempts st' = daemonRestartAttempts st" "timers st' = timers st"
    "nextTimer st' = nextTimer st" "daemonRestartTimeout st' = daemonRestartTimeout st"
    "daemonProc st' = daemonProc st" "length (children st') = length (children st)"
  shows "sup_inv st' \<longleftrightarrow> sup_inv st"
  using assms by (simp add: sup_inv_def)

lemma restart_delay_bounds: "1000 \<le> restart_delay code n \<and> restart_delay code n \<le> 30000"
proof -
  have "(1 :: nat) \<le> 2 ^ n" by simp
  then have "5000 \<le> 5000 * (2 :: nat) ^ n" by simp
  then show ?thesis
    by (simp add: restart_delay_def INITIAL_RESTART_DELAY_MS_def MAX_RESTART_DELAY_MS_def)
qed

lemma sup_inv_init: "sup_inv sup_init"
  by (simp add: sup_inv_def sup_init_def)

lemma sup_inv_add_timer:
  "sup_inv st \<Longrightarrow> timer_ok \<lparr>tm_id = nextTimer st, tm_kind = k, tm_delay = d\<rparr> \<Longrightarrow> sup_inv (add_timer k d st)"
  by (auto simp: sup_inv_def less_Suc_eq)

lemma sup_inv_set_timeout:
  "sup_inv st \<Longrightarrow> timer_ok \<lparr>tm_id = nextTimer st, tm_kind = k, tm_delay = d\<rparr> \<Longrightarrow>
   k = RestartTimer \<or> k = CooldownTimer \<Longrightarrow> sup_inv (set_restart_timeout k d st)"
  by (auto simp: sup_inv_def less_Suc_eq)

lemma sup_inv_clear: "sup_inv st \<Longrightarrow> sup_inv (clear_restart_timeout st)"
  by (auto simp: sup_inv_def clear_restart_timeout_def distinct_map_filter split: option.split)

text \<open>Updates of the other fields, and the harmless ones of these.\<close>

lemma sup_inv_updates [simp]:
  "sup_inv (st\<lparr>daemonAdminToken := a\<rparr>) \<longleftrightarrow> sup_inv st"
  "sup_inv (st\<lparr>daemonSpawnedByApp := b\<rparr>) \<longleftrightarrow> sup_inv st"
  "sup_inv (st\<lparr>daemonLogStream := l\<rparr>) \<longleftrightarrow> sup_inv st"
  "sup_inv (st\<lparr>daemonHealthCheckInterval := b\<rparr>) \<longleftrightarrow> sup_inv st"
  "sup_inv (st\<lparr>lastRestartTime := n\<rparr>) \<longleftrightarrow> sup_inv st"
  "sup_inv (st\<lparr>isShuttingDown := b\<rparr>) \<longleftrightarrow> sup_inv st"
  "sup_inv (st\<lparr>isRestarting := b\<rparr>) \<longleftrightarrow> sup_inv st"
  "sup_inv (st\<lparr>currentDaemonLogPath := p\<rparr>) \<longleftrightarrow> sup_inv st"
  "sup_inv (st\<lparr>consecutiveHealthFailures := f\<rparr>) \<longleftrightarrow> sup_inv st"
  "sup_inv (st\<lparr>windowOpen := b\<rparr>) \<longleftrightarrow> sup_inv st"
  "sup_inv (st\<lparr>exited := b\<rparr>) \<longleftrightarrow> sup_inv st"
  "sup_inv (show_error m st) \<longleftrightarrow> sup_inv st"
  "sup_inv (reply c e st) \<longleftrightarrow> sup_inv st"
  "sup_inv (set_child q f' st) \<longleftrightarrow> sup_inv st"
  "sup_inv (open_log env file st) \<longleftrightarrow> sup_inv st"
  by (rule sup_inv_cong; simp)+

lemma sup_inv_weaken:
  "sup_inv st \<Longrightarrow> sup_inv (st\<lparr>daemonProc := None\<rparr>)"
  "sup_inv st \<Longrightarrow> sup_inv (st\<lparr>daemonRestartAttempts := 0\<rparr>)"
  "sup_inv st \<Longrightarrow> sup_inv (st\<lparr>daemonRestartTimeout := None\<rparr>)"
  "sup_inv st \<Longrightarrow> daemonRestartAttempts st < MAX_RESTART_ATTEMPTS \<Longrightarrow>
    sup_inv (st\<lparr>daemonRestartAttempts := Suc (daemonRestartAttempts st)\<rparr>)"
  by (auto simp: sup_inv_def)

lemma sup_inv_spawn:
  "sup_inv st \<Longrightarrow> sup_inv (st\<lparr>daemonProc := Some (length (children st)), daemonSpawnedByApp := True,
      children := children st @ [c]\<rparr>)"
  by (auto simp: sup_inv_def)

lemmas sup_inv_intros = sup_inv_add_timer sup_inv_set_timeout sup_inv_clear sup_inv_weaken sup_inv_spawn

subsection \<open>Every piece of code keeps it\<close>

lemma sup_inv_start_guard: "sup_inv st \<Longrightarrow> sup_inv (fst (start_guard st))"
  by (simp add: start_guard_def sup_inv_clear)

lemma sup_inv_start_spawn: "sup_inv st \<Longrightarrow> sup_inv (fst (start_spawn env bin f st))"
proof -
  assume "sup_inv st"
  then have "sup_inv ((open_log env f st)\<lparr>daemonProc := Some (length (children (open_log env f st))),
      daemonSpawnedByApp := True, children := children (open_log env f st) @ [fresh_child]\<rparr>)"
    by (intro sup_inv_spawn) simp
  with \<open>sup_inv st\<close> show ?thesis by (simp add: start_spawn_def Let_def fresh_child_def)
qed

lemma sup_inv_start_step: "sup_inv st \<Longrightarrow> sup_inv (fst (start_step env pc st))"
proof (cases pc)
  case AwaitReady
  assume "sup_inv st"
  then show ?thesis unfolding AwaitReady by (auto simp: start_after_ready_def sup_inv_def)
qed (simp_all add: start_after_health_def start_after_force_cleanup_def start_binary_def
    start_after_logdir_def start_after_up_def sup_inv_start_guard sup_inv_start_spawn Let_def)

lemma timer_ok_others [simp]:
  "timer_ok \<lparr>tm_id = i, tm_kind = StabilityTimer, tm_delay = d\<rparr>"
  "timer_ok \<lparr>tm_id = i, tm_kind = ReportTimer, tm_delay = d\<rparr>"
  "timer_ok \<lparr>tm_id = i, tm_kind = QuitTimer, tm_delay = d\<rparr>"
  by (simp_all add: timer_ok_def)

lemma sup_inv_start_returned: "sup_inv st \<Longrightarrow> sup_inv (fst (start_returned c b st))"
  by (cases c) (simp_all add: start_returned_def sup_inv_add_timer)

lemma sup_inv_continue_start: "sup_inv (fst r) \<Longrightarrow> sup_inv (fst (continue_start c r))"
  by (cases r) (auto simp: continue_start_def sup_inv_start_returned split: start_pc.split)

lemma sup_inv_graceful_finish: "sup_inv st \<Longrightarrow> sup_inv (graceful_finish p l st)"
  by (auto simp: graceful_finish_def Let_def split: option.split log_target.split)

lemma sup_inv_graceful_step: "sup_inv st \<Longrightarrow> sup_inv (fst (graceful_step env pc st))"
  by (cases pc) (simp_all add: graceful_poll_def sup_inv_graceful_finish)

lemma sup_inv_shutdown_returned: "sup_inv st \<Longrightarrow> sup_inv (fst (shutdown_returned c st))"
  by (cases c) (simp_all add: shutdown_returned_def)

lemma sup_inv_continue_stop: "sup_inv (fst r) \<Longrightarrow> sup_inv (fst (continue_stop c r))"
  by (cases r) (auto simp: continue_stop_def sup_inv_shutdown_returned split: shutdown_pc.split)

lemma sup_inv_monitor_health: "sup_inv st \<Longrightarrow> sup_inv (fst (monitor_health env st))"
proof -
  assume inv: "sup_inv st"
  then have "sup_inv (st\<lparr>consecutiveHealthFailures := n\<rparr>\<lparr>daemonProc := None\<rparr>)" for n
    by (intro sup_inv_weaken) simp
  with inv show ?thesis
    by (auto simp: monitor_health_def Let_def)
qed

lemma sup_inv_task_step: "sup_inv st \<Longrightarrow> sup_inv (fst (task_step env t st))"
proof (cases t)
  case AwaitStability
  assume "sup_inv st"
  then show ?thesis unfolding AwaitStability by (auto simp: stability_checked_def sup_inv_def)
qed (simp_all add: sup_inv_continue_start sup_inv_start_step sup_inv_continue_stop
    sup_inv_graceful_step sup_inv_monitor_health startup_checked_def restart_healthy_def
    monitor_cleanup_def ipc_start_checked_def sup_inv_add_timer Let_def)

lemma sup_inv_exit_handler: "sup_inv st \<Longrightarrow> sup_inv (exit_handler code st)"
proof -
  assume inv: "sup_inv st"
  let ?st1 = "st\<lparr>daemonProc := None\<rparr>"
  have i1: "sup_inv ?st1" by (rule sup_inv_weaken(1) [OF inv])
  have "sup_inv (set_restart_timeout RestartTimer (restart_delay code (daemonRestartAttempts st))
      (?st1\<lparr>daemonRestartAttempts := Suc (daemonRestartAttempts ?st1)\<rparr>))"
    if "\<not> MAX_RESTART_ATTEMPTS \<le> daemonRestartAttempts st"
    using that sup_inv_weaken(4) [OF i1] restart_delay_bounds [of code]
    by (intro sup_inv_set_timeout) (simp_all add: timer_ok_def)
  with i1 show ?thesis by (simp add: exit_handler_def Let_def)
qed

lemma sup_inv_daemon_exit: "sup_inv st \<Longrightarrow> sup_inv (daemon_exit p code st)"
  by (simp add: daemon_exit_def Let_def sup_inv_exit_handler)

lemma sup_inv_continueShutdown: "sup_inv st \<Longrightarrow> sup_inv (fst (continueShutdown st))"
proof -
  assume "sup_inv st"
  let ?st1 = "(clear_restart_timeout st)\<lparr>daemonHealthCheckInterval := False\<rparr>"
  have inv: "sup_inv ?st1" using \<open>sup_inv st\<close> by (simp add: sup_inv_clear)
  then have "sup_inv (fst (continue_stop ShutdownQuit (?st1, graceful_begin ?st1)))"
    by (intro sup_inv_continue_stop) simp
  with inv show ?thesis
    by (cases "continue_stop ShutdownQuit (?st1, graceful_begin ?st1)")
      (simp add: continueShutdown_def Let_def)
qed

text \<open>
  A timer that fires is no longer pending. The two restart timers clear the handle first; the
  others are not the one it names.
\<close>

lemma sup_inv_fired:
  assumes "sup_inv st" and "tm \<in> set (timers st)"
    and "st1 = st\<lparr>timers := filter (\<lambda>t. tm_id t \<noteq> tm_id tm) (timers st)\<rparr>"
  shows "sup_inv (st1\<lparr>daemonRestartTimeout := None\<rparr>)"
    and "tm_kind tm \<noteq> RestartTimer \<Longrightarrow> tm_kind tm \<noteq> CooldownTimer \<Longrightarrow> sup_inv st1"
proof -
  show "sup_inv (st1\<lparr>daemonRestartTimeout := None\<rparr>)"
    using assms by (auto simp: sup_inv_def distinct_map_filter)
  assume k: "tm_kind tm \<noteq> RestartTimer" "tm_kind tm \<noteq> CooldownTimer"
  have "inj_on tm_id (set (timers st))" using assms(1) by (simp add: sup_inv_def distinct_map)
  then have "\<exists>t \<in> set (timers st1). tm_id t = i \<and> (tm_kind t = RestartTimer \<or> tm_kind t = CooldownTimer)"
    if "daemonRestartTimeout st = Some i" for i
    using that assms k unfolding sup_inv_def by (auto dest: inj_onD)
  with assms show "sup_inv st1" by (auto simp: sup_inv_def distinct_map_filter)
qed

lemma sup_inv_restart_timer:
  "sup_inv (st\<lparr>daemonRestartTimeout := None\<rparr>) \<Longrightarrow> sup_inv (fst (restart_timer now st))"
  by (auto simp: restart_timer_def Let_def timer_ok_def MIN_RESTART_COOLDOWN_MS_def intro!: sup_inv_set_timeout)

lemma sup_inv_cooldown_timer:
  "sup_inv (st\<lparr>daemonRestartTimeout := None\<rparr>) \<Longrightarrow> sup_inv (fst (cooldown_timer st))"
proof -
  assume inv: "sup_inv (st\<lparr>daemonRestartTimeout := None\<rparr>)"
  have upd: "s\<lparr>isRestarting := True, daemonProc := None, daemonSpawnedByApp := False\<rparr> =
      s\<lparr>daemonProc := None\<rparr>\<lparr>isRestarting := True\<rparr>\<lparr>daemonSpawnedByApp := False\<rparr>" for s :: sup
    by simp
  from inv show ?thesis
    unfolding cooldown_timer_def Let_def upd
    by (auto simp: sup_inv_weaken(1) split: option.split)
qed

lemma sup_inv_fire:
  assumes "sup_inv st" and "tm \<in> set (timers st)"
    and "st1 = st\<lparr>timers := filter (\<lambda>t. tm_id t \<noteq> tm_id tm) (timers st)\<rparr>"
  shows "sup_inv (fst (fire now (tm_kind tm) st1))"
proof (cases "tm_kind tm")
  case RestartTimer
  then show ?thesis
    using sup_inv_restart_timer [OF sup_inv_fired(1) [OF assms]] by (simp add: fire_def)
next
  case CooldownTimer
  then show ?thesis
    using sup_inv_cooldown_timer [OF sup_inv_fired(1) [OF assms]] by (simp add: fire_def)
next
  case QuitTimer
  then have "sup_inv (fst (continueShutdown st1))"
    by (intro sup_inv_continueShutdown sup_inv_fired(2) [OF assms]) simp_all
  then show ?thesis
    by (cases "continueShutdown st1") (simp add: QuitTimer fire_def quit_timer_def)
qed (use sup_inv_fired(2) [OF assms] in \<open>simp_all add: fire_def stability_timer_def\<close>)

lemma filter_Cons_D: "filter P xs = x # ys \<Longrightarrow> x \<in> set xs \<and> P x"
  using filter_eq_ConsD by fastforce

lemma sup_inv_exec:
  assumes "sup_inv (fst s)" and "sys_exec ev s = Some s'"
  shows "sup_inv (fst s')"
proof -
  obtain st ts where s: "s = (st, ts)" by (cases s)
  have inv: "sup_inv st" using assms(1) s by simp
  show ?thesis
  proof (cases ev)
    case (Resume i env)
    with assms(2) s sup_inv_task_step [OF inv, of env "ts ! i"] show ?thesis
      by (auto split: if_splits prod.splits)
  next
    case (TimerDue i now)
    with assms(2) s obtain tm tms where tm: "filter (\<lambda>t. tm_id t = i) (timers st) = tm # tms"
      and s': "fst s' = fst (fire now (tm_kind tm) (st\<lparr>timers := filter (\<lambda>t. tm_id t \<noteq> i) (timers st)\<rparr>))"
      by (auto simp: spawn_task_def split: list.splits)
    from filter_Cons_D [OF tm] show ?thesis
      unfolding s' using sup_inv_fire [OF inv, of tm] by blast
  next
    case (DaemonExits p code)
    with assms(2) s inv show ?thesis by (auto simp: sup_inv_daemon_exit split: if_splits)
  next
    case RequestStop
    have "sup_inv (fst (ipc_stop st))"
      using sup_inv_continue_stop [of "(st, graceful_begin st)"] inv by (simp add: ipc_stop_def)
    with RequestStop assms(2) s show ?thesis by (auto simp: spawn_task_def split: if_splits)
  next
    case RequestRestart
    have "sup_inv (fst (ipc_restart st))"
      using sup_inv_continue_stop [of "(st, graceful_begin st)"] inv by (simp add: ipc_restart_def)
    with RequestRestart assms(2) s show ?thesis by (auto simp: spawn_task_def split: if_splits)
  next
    case Quit
    have "sup_inv (fst (before_quit st))"
      using inv sup_inv_continueShutdown [of "st\<lparr>isShuttingDown := True, isRestarting := False\<rparr>"]
      by (simp add: before_quit_def sup_inv_add_timer Let_def)
    with Quit assms(2) s show ?thesis by (auto split: prod.splits)
  qed (use assms(2) s inv in \<open>auto simp: spawn_task_def monitor_tick_def ipc_start_def split: if_splits\<close>)
qed

lemma sys_reach_inv: "sys_reach s \<Longrightarrow> sup_inv (fst s)"
  by (induction rule: sys_reach.induct) (auto simp: sys_init_def sup_inv_init intro: sup_inv_exec)

subsection \<open>One start at a time\<close>

text \<open>A start between its guard and its return.\<close>

fun critical :: "task \<Rightarrow> bool" where
  "critical (Starting c AwaitCleanup) = True"
| "critical (Starting c AwaitPeerCleanup) = True"
| "critical (Starting c (AwaitLogDir b)) = True"
| "critical (Starting c (AwaitDirCheck b f)) = True"
| "critical (Starting c AwaitUp) = True"
| "critical (Starting c AwaitReady) = True"
| "critical t = False"

text \<open>Those that have set the mark \<open>isRestarting\<close>: these and the restarts of the timers.\<close>

fun holder :: "task \<Rightarrow> bool" where
  "holder (Starting CallRestartTimer AwaitHealth) = True"
| "holder (Starting CallCooldownTimer AwaitHealth) = True"
| "holder AwaitRestartHealthy = True"
| "holder t = critical t"

definition holders :: "task list \<Rightarrow> nat" where
  "holders ts = sum_list (map (\<lambda>t. if holder t then 1 else 0) ts)"

text \<open>
  The events of an app that keeps running: the window stays open, and no start finds the
  daemon already healthy.
\<close>

fun quiet :: "sys_event \<Rightarrow> sys \<Rightarrow> bool" where
  "quiet (Resume i env) (st, ts) =
     (\<forall>c. i < length ts \<and> ts ! i = Starting c AwaitHealth \<longrightarrow> \<not> en_healthy env)"
| "quiet WindowClosed s = False"
| "quiet Quit s = False"
| "quiet ev s = True"

inductive quiet_reach :: "sys \<Rightarrow> bool" where
  init: "quiet_reach sys_init"
| step: "quiet_reach s \<Longrightarrow> quiet ev s \<Longrightarrow> sys_exec ev s = Some s' \<Longrightarrow> quiet_reach s'"

text \<open>Tasks that occur in such runs.\<close>

fun quiet_task :: "task \<Rightarrow> bool" where
  "quiet_task (Starting c AwaitForceCleanup) = False"
| "quiet_task (Starting c AwaitPortRelease) = False"
| "quiet_task (Starting c (Returned b)) = False"
| "quiet_task (Starting c pc) = (pc = AwaitHealth \<or> (c \<noteq> CallRestartTimer \<and> c \<noteq> CallCooldownTimer))"
| "quiet_task (Stopping c pc) = (c \<noteq> ShutdownQuit)"
| "quiet_task t = True"

definition quiet_inv :: "sys \<Rightarrow> bool" where
  "quiet_inv s \<longleftrightarrow> (case s of (st, ts) \<Rightarrow>
     \<not> isShuttingDown st \<and> windowOpen st \<and> (\<forall>t \<in> set ts. quiet_task t) \<and>
     (\<forall>tm \<in> set (timers st). tm_kind tm \<noteq> QuitTimer) \<and>
     holders ts \<le> 1 \<and> (0 < holders ts \<longrightarrow> isRestarting st))"

lemma holders_append: "holders (ts @ [t]) = holders ts + (if holder t then 1 else 0)"
  by (simp add: holders_def)

lemma holders_update:
  "i < length ts \<Longrightarrow> holders (ts[i := t]) + (if holder (ts ! i) then 1 else 0) =
     holders ts + (if holder t then 1 else 0)"
proof (induction ts arbitrary: i)
  case (Cons x xs)
  then show ?case by (cases i) (auto simp: holders_def)
qed simp

lemma holders_member: "i < length ts \<Longrightarrow> holder (ts ! i) \<Longrightarrow> 0 < holders ts"
  by (induction ts arbitrary: i) (auto simp: holders_def nth_Cons split: nat.splits)

lemma critical_holder: "critical t \<Longrightarrow> holder t"
  by (cases t rule: holder.cases) auto

lemma length_critical_holders: "length (filter critical ts) \<le> holders ts"
  by (induction ts) (auto simp: holders_def dest: critical_holder)

text \<open>
  What a piece of a task does to the mark, seen from the holders: a task that becomes a
  holder found the mark free and set it; a holder that goes on keeps it.
\<close>

definition mark_step :: "task \<Rightarrow> sup \<Rightarrow> task \<Rightarrow> sup \<Rightarrow> bool" where
  "mark_step t st t' st' \<longleftrightarrow>
     isShuttingDown st' = isShuttingDown st \<and> windowOpen st' = windowOpen st \<and> quiet_task t' \<and>
     (\<forall>tm \<in> set (timers st'). tm_kind tm = QuitTimer \<longrightarrow> tm \<in> set (timers st)) \<and>
     (if holder t then holder t' \<longrightarrow> isRestarting st'
      else if holder t' then \<not> isRestarting st \<and> isRestarting st'
      else isRestarting st' = isRestarting st)"

lemma mark_step_start:
  assumes "quiet_task (Starting c pc)" and "\<not> isShuttingDown st" and "windowOpen st"
    and "pc = AwaitHealth \<Longrightarrow> \<not> en_healthy env"
    and "holder (Starting c pc) \<Longrightarrow> isRestarting st"
  shows "mark_step (Starting c pc) st
    (snd (continue_start c (start_step env pc st))) (fst (continue_start c (start_step env pc st)))"
proof (cases pc)
  case AwaitHealth
  with assms timers_clear [of st] show ?thesis
    by (cases c) (auto simp: mark_step_def continue_start_def start_returned_def start_defs)
next
  case AwaitPeerCleanup
  with assms show ?thesis
    by (cases c) (auto simp: mark_step_def continue_start_def start_returned_def start_defs)
next
  case (AwaitDirCheck b f)
  with assms show ?thesis
    by (cases c) (auto simp: mark_step_def continue_start_def start_returned_def start_defs)
next
  case AwaitUp
  with assms show ?thesis
    by (cases c) (auto simp: mark_step_def continue_start_def start_returned_def start_defs)
next
  case AwaitReady
  with assms show ?thesis
    by (cases c) (auto simp: mark_step_def continue_start_def start_returned_def start_defs)
qed (use assms in \<open>auto simp: mark_step_def continue_start_def start_defs\<close>)

lemma graceful_step_fields [simp]:
  "isShuttingDown (fst (graceful_step env pc st)) = isShuttingDown st"
  "windowOpen (fst (graceful_step env pc st)) = windowOpen st"
  "isRestarting (fst (graceful_step env pc st)) = isRestarting st"
  "timers (fst (graceful_step env pc st)) = timers st"
  by (cases pc; simp add: graceful_poll_def graceful_finish_def Let_def split: option.split log_target.split)+

lemma mark_step_stop:
  "c \<noteq> ShutdownQuit \<Longrightarrow> isShuttingDown (fst r) = isShuttingDown st \<Longrightarrow> windowOpen (fst r) = windowOpen st \<Longrightarrow>
   isRestarting (fst r) = isRestarting st \<Longrightarrow> timers (fst r) = timers st \<Longrightarrow> \<not> holder t \<Longrightarrow>
   mark_step t st (snd (continue_stop c r)) (fst (continue_stop c r))"
  by (cases r; cases c; cases "snd r")
    (auto simp: mark_step_def continue_stop_def shutdown_returned_def)

lemma mark_step_task:
  assumes "quiet_task t" and "\<not> isShuttingDown st" and "windowOpen st"
    and "\<And>c. t = Starting c AwaitHealth \<Longrightarrow> \<not> en_healthy env"
    and "holder t \<Longrightarrow> isRestarting st"
  shows "mark_step t st (snd (task_step env t st)) (fst (task_step env t st))"
proof (cases t)
  case (Starting c pc)
  with assms show ?thesis by (auto intro!: mark_step_start)
next
  case (Stopping c pc)
  with assms(1) show ?thesis by (auto intro!: mark_step_stop)
next
  case AwaitMonitorHealth
  then show ?thesis by (auto simp: mark_step_def monitor_health_def Let_def)
qed (use assms(2,3,5) in \<open>auto simp: mark_step_def startup_checked_def restart_healthy_def
    stability_checked_def monitor_cleanup_def ipc_start_checked_def Let_def\<close>)

lemma mark_step_fire:
  assumes "\<not> isShuttingDown st" and "windowOpen st" and "k \<noteq> QuitTimer"
  shows "mark_step Finished st (snd (fire now k st)) (fst (fire now k st))"
  using assms
  by (cases k) (auto simp: mark_step_def fire_def restart_timer_def cooldown_timer_def
      stability_timer_def Let_def split: option.split)

lemma quiet_inv_update:
  assumes "quiet_inv (st, ts)" and "i < length ts" and "mark_step (ts ! i) st t' st'"
  shows "quiet_inv (st', ts[i := t'])"
proof -
  note u = holders_update [OF assms(2), of t']
  have pos: "0 < holders ts" if "holder (ts ! i)" using holders_member [OF assms(2) that] .
  have tasks: "\<forall>t \<in> set (ts[i := t']). quiet_task t"
    using assms(1,3) set_update_subset_insert [of ts i t'] by (auto simp: quiet_inv_def mark_step_def)
  have inv: "holders ts \<le> 1" "0 < holders ts \<longrightarrow> isRestarting st"
    using assms(1) by (simp_all add: quiet_inv_def)
  have one: "holders (ts[i := t']) \<le> 1 \<and> (0 < holders (ts[i := t']) \<longrightarrow> isRestarting st')"
  proof (cases "holder (ts ! i)")
    case True
    then have "holder t' \<longrightarrow> isRestarting st'" using assms(3) by (simp add: mark_step_def)
    with True u pos inv show ?thesis by (cases "holder t'") simp_all
  next
    case False
    then have "if holder t' then \<not> isRestarting st \<and> isRestarting st' else isRestarting st' = isRestarting st"
      using assms(3) by (simp add: mark_step_def)
    with False u inv show ?thesis by (cases "holder t'") simp_all
  qed
  have "\<not> isShuttingDown st'" "windowOpen st'" "\<forall>tm \<in> set (timers st'). tm_kind tm \<noteq> QuitTimer"
    using assms(1,3) by (auto simp: quiet_inv_def mark_step_def)
  with tasks one show ?thesis by (simp add: quiet_inv_def)
qed

lemma quiet_inv_append:
  assumes "quiet_inv (st, ts)" and "mark_step Finished st t' st'"
  shows "quiet_inv (st', ts @ [t'])"
proof -
  have "\<not> isShuttingDown st'" "windowOpen st'" "\<forall>tm \<in> set (timers st'). tm_kind tm \<noteq> QuitTimer"
    "\<forall>t \<in> set (ts @ [t']). quiet_task t"
    using assms by (auto simp: quiet_inv_def mark_step_def)
  moreover have "holders (ts @ [t']) \<le> 1 \<and> (0 < holders (ts @ [t']) \<longrightarrow> isRestarting st')"
  proof (cases "holder t'")
    case True
    then have "\<not> isRestarting st" "isRestarting st'" using assms(2) by (simp_all add: mark_step_def)
    with True assms(1) show ?thesis by (simp add: quiet_inv_def holders_append)
  next
    case False
    then have "isRestarting st' = isRestarting st" using assms(2) by (simp add: mark_step_def)
    with False assms(1) show ?thesis by (simp add: quiet_inv_def holders_append)
  qed
  ultimately show ?thesis by (simp add: quiet_inv_def)
qed

lemma quiet_inv_spawn:
  "quiet_inv (st, ts) \<Longrightarrow> mark_step Finished st (snd r) (fst r) \<Longrightarrow> quiet_inv (spawn_task ts r)"
  by (simp add: spawn_task_def quiet_inv_append)

lemma quiet_inv_exec:
  assumes "quiet_inv s" and "quiet ev s" and "sys_exec ev s = Some s'"
  shows "quiet_inv s'"
proof -
  obtain st ts where s: "s = (st, ts)" by (cases s)
  have run: "\<not> isShuttingDown st" "windowOpen st" using assms(1) s by (simp_all add: quiet_inv_def)
  show ?thesis
  proof (cases ev)
    case (Resume i env)
    with assms(3) s have i: "i < length ts" and
      s': "s' = (fst (task_step env (ts ! i) st), ts[i := snd (task_step env (ts ! i) st)])"
      by (auto split: if_splits prod.splits)
    have "holder (ts ! i) \<Longrightarrow> isRestarting st"
      using assms(1) s holders_member [OF i] by (simp add: quiet_inv_def)
    moreover have "quiet_task (ts ! i)" using assms(1) s i by (simp add: quiet_inv_def)
    moreover have "\<not> en_healthy env" if "ts ! i = Starting c AwaitHealth" for c
      using assms(2) s Resume i that by simp
    ultimately have "mark_step (ts ! i) st (snd (task_step env (ts ! i) st)) (fst (task_step env (ts ! i) st))"
      using run by (intro mark_step_task)
    then show ?thesis
      unfolding s' using assms(1) s i by (intro quiet_inv_update) simp_all
  next
    case (TimerDue i now)
    let ?st1 = "st\<lparr>timers := filter (\<lambda>t. tm_id t \<noteq> i) (timers st)\<rparr>"
    from TimerDue assms(3) s obtain tm tms where tm: "filter (\<lambda>t. tm_id t = i) (timers st) = tm # tms"
      and s': "s' = spawn_task ts (fire now (tm_kind tm) ?st1)"
      by (auto split: list.splits)
    have "tm_kind tm \<noteq> QuitTimer"
      using filter_Cons_D [OF tm] assms(1) s by (simp add: quiet_inv_def)
    moreover have "quiet_inv (?st1, ts)" using assms(1) s by (simp add: quiet_inv_def)
    moreover have "mark_step Finished ?st1 (snd (fire now (tm_kind tm) ?st1)) (fst (fire now (tm_kind tm) ?st1))"
      using run calculation(1) by (intro mark_step_fire) simp_all
    ultimately show ?thesis unfolding s' by (intro quiet_inv_spawn)
  next
    case (DaemonExits p code)
    with assms(1,3) s show ?thesis
      by (auto simp: quiet_inv_def daemon_exit_def exit_handler_def Let_def split: if_splits)
  next
    case RequestStop
    have "mark_step Finished st (snd (ipc_stop st)) (fst (ipc_stop st))"
      using run mark_step_stop [of ShutdownStop "(st, graceful_begin st)" st Finished]
      by (auto simp: ipc_stop_def mark_step_def)
    with RequestStop assms s show ?thesis by (auto intro: quiet_inv_spawn split: if_splits)
  next
    case RequestRestart
    have "mark_step Finished st (snd (ipc_restart st)) (fst (ipc_restart st))"
      using run mark_step_stop [of ShutdownRestart "(st, graceful_begin st)" st Finished]
      by (auto simp: ipc_restart_def mark_step_def)
    with RequestRestart assms s show ?thesis by (auto intro: quiet_inv_spawn split: if_splits)
  next
    case RequestStart
    have "mark_step Finished st (snd (ipc_start st)) (fst (ipc_start st))"
      by (auto simp: ipc_start_def mark_step_def)
    with RequestStart assms s show ?thesis by (auto intro: quiet_inv_spawn split: if_splits)
  next
    case MonitorTick
    have "mark_step Finished st (snd (monitor_tick st)) (fst (monitor_tick st))"
      using run by (auto simp: monitor_tick_def mark_step_def)
    with MonitorTick assms s show ?thesis by (auto intro: quiet_inv_spawn split: if_splits)
  next
    case MonitorOn
    with assms s show ?thesis by (auto simp: quiet_inv_def)
  qed (use assms(2) in simp_all)
qed

lemma quiet_reach_inv: "quiet_reach s \<Longrightarrow> quiet_inv s"
proof (induction rule: quiet_reach.induct)
  case init
  show ?case by (simp add: quiet_inv_def sys_init_def holders_def)
qed (rule quiet_inv_exec)

subsection \<open>Shutdown\<close>

lemma critical_update:
  "i < length ts \<Longrightarrow> (critical t \<Longrightarrow> critical (ts ! i)) \<Longrightarrow>
   length (filter critical (ts[i := t])) \<le> length (filter critical ts)"
proof (induction ts arbitrary: i)
  case (Cons x xs)
  then show ?case by (cases i) auto
qed simp

lemma shutdown_start_step:
  assumes "isShuttingDown st" and "\<not> critical (Starting c pc)"
  shows "\<not> critical (snd (continue_start c (start_step env pc st)))"
proof (cases pc)
  case (Returned b)
  then show ?thesis by (cases c) (simp_all add: continue_start_def start_returned_def)
qed (use assms in \<open>auto simp: continue_start_def start_returned_def start_defs split: start_caller.split\<close>)

lemma start_step_shutting [simp]: "isShuttingDown (fst (start_step env pc st)) = isShuttingDown st"
  by (cases pc) (auto simp: start_defs)

lemma continue_start_shutting [simp]: "isShuttingDown (fst (continue_start c r)) = isShuttingDown (fst r)"
  by (cases r; cases "snd r"; cases c) (auto simp: continue_start_def start_returned_def)

lemma continue_stop_shutting [simp]:
  "isShuttingDown (fst (continue_stop c r)) = isShuttingDown (fst r)" "\<not> critical (snd (continue_stop c r))"
  by (cases r; cases "snd r"; cases c; simp add: continue_stop_def shutdown_returned_def)+

lemma task_step_shutting:
  assumes "isShuttingDown st"
  shows "isShuttingDown (fst (task_step env t st)) \<and> (critical (snd (task_step env t st)) \<longrightarrow> critical t)"
proof (cases t)
  case (Starting c pc)
  with assms shutdown_start_step [OF assms, of c pc env] show ?thesis by auto
qed (use assms in \<open>auto simp: startup_checked_def restart_healthy_def stability_checked_def
    monitor_health_def monitor_cleanup_def ipc_start_checked_def Let_def\<close>)

lemma continueShutdown_shutting:
  "isShuttingDown (fst (continueShutdown st)) = isShuttingDown st"
  "\<not> critical (fst (snd (continueShutdown st)))"
proof -
  let ?st1 = "(clear_restart_timeout st)\<lparr>daemonHealthCheckInterval := False\<rparr>"
  obtain st2 t where r: "continue_stop ShutdownQuit (?st1, graceful_begin ?st1) = (st2, t)" by fastforce
  with continue_stop_shutting [of ShutdownQuit "(?st1, graceful_begin ?st1)"]
  have "isShuttingDown st2 = isShuttingDown st" "\<not> critical t" by simp_all
  with r show "isShuttingDown (fst (continueShutdown st)) = isShuttingDown st"
    "\<not> critical (fst (snd (continueShutdown st)))"
    by (simp_all add: continueShutdown_def Let_def)
qed

lemma fire_shutting:
  assumes "isShuttingDown st"
  shows "isShuttingDown (fst (fire now k st)) \<and> \<not> critical (snd (fire now k st))"
  using assms continueShutdown_shutting [of st]
  by (cases k) (auto simp: fire_def restart_timer_def cooldown_timer_def stability_timer_def
      quit_timer_def Let_def split: prod.split)

subsection \<open>Properties\<close>

text \<open>
  Property C1: in every reachable state at most ten restarts are counted, every pending restart
  timer waits between one and thirty seconds, the timer the state names is pending (so that
  cancelling it works), and the process it names was spawned.
\<close>

theorem supervisor_invariant:
  assumes "sys_reach (st, ts)"
  shows "daemonRestartAttempts st \<le> 10 \<and>
    (\<forall>tm \<in> set (timers st). tm_kind tm = RestartTimer \<longrightarrow> 1000 \<le> tm_delay tm \<and> tm_delay tm \<le> 30000) \<and>
    (\<forall>i. daemonRestartTimeout st = Some i \<longrightarrow> (\<exists>tm \<in> set (timers st). tm_id tm = i)) \<and>
    (\<forall>p. daemonProc st = Some p \<longrightarrow> p < length (children st))"
  using sys_reach_inv [OF assms]
  by (auto simp: sup_inv_def timer_ok_def MAX_RESTART_ATTEMPTS_def)

definition down :: sup_env where "down = sample_env False"
definition up :: sup_env where "up = sample_env True"

text \<open>The start of the app up to the spawn of the daemon.\<close>

definition spawn_events :: "nat \<Rightarrow> sys_event list" where
  "spawn_events i = replicate 5 (Resume i down)"

definition spawned :: "sup \<Rightarrow> sup" where
  "spawned st = (clear_restart_timeout st)\<lparr>isRestarting := True, daemonAdminToken := ''secret'',
     currentDaemonLogPath := Some ''logs/daemon.log'', daemonLogStream := Some (LogFile ''logs/daemon.log''),
     daemonProc := Some (length (children st)), daemonSpawnedByApp := True,
     children := children st @ [fresh_child]\<rparr>"

lemma good_bin_fields [simp]: "be_win32 good_bin = False" "be_exists good_bin p"
  by (simp_all add: good_bin_def)

lemma env_fields [simp]:
  "en_healthy down = False" "en_healthy up = True" "en_bin down = good_bin" "cr_cleaned (en_cleanup down) = False"
  by (simp_all add: down_def up_def sample_env_def)

lemma down_start:
  assumes "\<not> isShuttingDown st" and "\<not> isRestarting st"
  shows "start_run (\<lambda>_. down) 5 AwaitHealth st = (spawned st, AwaitUp)"
  using assms
  by (simp add: start_defs eval_nat_numeral)
    (simp add: spawned_def open_log_def down_def sample_env_def fresh_child_def)

lemma start_step_exited [simp]: "exited (fst (start_step env pc st)) = exited st"
  by (cases pc) (auto simp: start_defs clear_restart_timeout_def open_log_def show_error_def split: option.split)

text \<open>Resuming one start again and again runs it without interruption.\<close>

lemma resume_start:
  assumes "i < length ts" and "ts ! i = Starting c pc" and "\<not> exited st"
    and "start_run (\<lambda>_. env) n pc st = (st1, pc1)" and "\<forall>b. pc1 \<noteq> Returned b"
  shows "sys_run (replicate n (Resume i env)) (st, ts) = Some (st1, ts[i := Starting c pc1])"
  using assms
proof (induction n arbitrary: st ts pc)
  case 0
  then show ?case using list_update_id [of ts i] by simp
next
  case (Suc n)
  obtain st2 pc2 where s: "start_step env pc st = (st2, pc2)" by fastforce
  with Suc.prems have run: "start_run (\<lambda>_. env) n pc2 st2 = (st1, pc1)" by simp
  have "pc2 \<noteq> Returned b" for b
  proof
    assume "pc2 = Returned b"
    with run have "pc1 = Returned b" by simp
    with Suc.prems(5) show False by blast
  qed
  then have "continue_start c (st2, pc2) = (st2, Starting c pc2)"
    by (cases pc2) (auto simp: continue_start_def)
  then have "sys_exec (Resume i env) (st, ts) = Some (st2, ts[i := Starting c pc2])"
    using Suc.prems(1,2) s by simp
  moreover have "\<not> exited st2" using Suc.prems(3) start_step_exited [of env pc st] s by simp
  ultimately show ?case
    using Suc.IH [of "ts[i := Starting c pc2]" pc2 st2] Suc.prems run by simp
qed

lemma resume_down:
  assumes "i < length ts" and "ts ! i = Starting c AwaitHealth" and "\<not> exited st"
    and "\<not> isShuttingDown st" and "\<not> isRestarting st"
  shows "sys_run (replicate 5 (Resume i down)) (st, ts) = Some (spawned st, ts[i := Starting c AwaitUp])"
  using assms by (intro resume_start [OF _ _ _ down_start]) simp_all

lemma sys_run_append:
  "sys_run (evs @ evs') s = Option.bind (sys_run evs s) (sys_run evs')"
  by (induction evs arbitrary: s) (auto split: option.split)

lemma spawned_simps [simp]:
  "children (spawned st) = children st @ [fresh_child]" "isRestarting (spawned st)"
  "isShuttingDown (spawned st) = isShuttingDown st" "daemonProc (spawned st) = Some (length (children st))"
  "daemonSpawnedByApp (spawned st)" "daemonRestartAttempts (spawned st) = daemonRestartAttempts st"
  "windowOpen (spawned st) = windowOpen st" "exited (spawned st) = exited st"
  by (simp_all add: spawned_def clear_restart_timeout_def split: option.split)

lemma sup_init_exited [simp]: "\<not> exited sup_init"
  by (simp add: sup_init_def)

lemma spawned_state:
  "sys_run (replicate 5 (Resume 0 down)) sys_init =
     Some (spawned sup_init, [Starting CallStartup AwaitUp, AwaitStartupHealth, AwaitStartupHealth])"
  unfolding sys_init_def by (subst resume_down) simp_all

theorem supervisor_invariant_witness:
  "daemonRestartAttempts (spawned sup_init) \<le> 10"
  using supervisor_invariant [OF sys_run_reach [OF sys_reach.init spawned_state]] by blast

text \<open>
  Property C2: in an app that keeps running with its window open, as long as no start finds a
  daemon already answering, at most one start at a time is between its guard and its
  return, whatever timers, requests, exits and health checks are interleaved, and the mark
  \<open>isRestarting\<close> is set while there is one.
\<close>

theorem one_start_at_a_time:
  assumes "quiet_reach (st, ts)"
  shows "length (filter critical ts) \<le> 1 \<and> (filter critical ts \<noteq> [] \<longrightarrow> isRestarting st)"
proof -
  have inv: "holders ts \<le> 1" "0 < holders ts \<longrightarrow> isRestarting st"
    using quiet_reach_inv [OF assms] by (simp_all add: quiet_inv_def)
  then show ?thesis
    using length_critical_holders [of ts] by (cases "0 < holders ts") auto
qed

lemma quiet_run:
  "quiet_reach (st, ts) \<Longrightarrow> \<not> en_healthy env \<Longrightarrow> i < length ts \<Longrightarrow>
   quiet_reach (fst (task_step env (ts ! i) st), ts[i := snd (task_step env (ts ! i) st)])"
  by (rule quiet_reach.step [of "(st, ts)" "Resume i env"]) (simp_all split: prod.split)

theorem one_start_at_a_time_witness:
  "length (filter critical [Starting CallStartup AwaitCleanup, AwaitStartupHealth, AwaitStartupHealth]) \<le> 1"
proof -
  have "quiet_reach ((clear_restart_timeout sup_init)\<lparr>isRestarting := True\<rparr>,
      [Starting CallStartup AwaitCleanup, AwaitStartupHealth, AwaitStartupHealth])"
    using quiet_run [OF quiet_reach.init [unfolded sys_init_def], of down 0]
    by (simp add: start_defs continue_start_def)
  from one_start_at_a_time [OF this] show ?thesis by blast
qed

text \<open>
  Further fact: without that restriction two daemons can be running. A start that finds the daemon
  answering and does not replace it clears the mark of a start still waiting; the next start
  passes its guard and spawns a second process, and the first one is no longer known.
\<close>

theorem two_daemons_reachable:
  "\<exists>st ts. sys_reach (st, ts) \<and> child_alive st 0 \<and> child_alive st 1 \<and> daemonProc st = Some 1 \<and>
     length (filter critical ts) = 2 \<and> windowOpen st \<and> \<not> isShuttingDown st"
proof -
  let ?ts = "\<lambda>t1 t2. [Starting CallStartup AwaitUp, t1, t2]"
  let ?st = "(spawned sup_init)\<lparr>isRestarting := False\<rparr>"
  let ?evs = "[Resume 1 down, Resume 1 up, Resume 1 down, Resume 2 down]"
  have "sys_run ?evs (spawned sup_init, ?ts AwaitStartupHealth AwaitStartupHealth) =
      Some (?st, ?ts Finished (Starting CallStartup AwaitHealth))"
    by (simp add: startup_checked_def start_defs continue_start_def start_returned_def numeral_2_eq_2)
  moreover have "sys_run (replicate 5 (Resume 2 down)) (?st, ?ts Finished (Starting CallStartup AwaitHealth)) =
      Some (spawned ?st, ?ts Finished (Starting CallStartup AwaitUp))"
    by (subst resume_down) (simp_all add: numeral_2_eq_2)
  ultimately have "sys_run (replicate 5 (Resume 0 down) @ ?evs @ replicate 5 (Resume 2 down)) sys_init =
      Some (spawned ?st, ?ts Finished (Starting CallStartup AwaitUp))"
    unfolding sys_run_append spawned_state bind.bind_lunit by (simp only: bind.bind_lunit)
  from sys_run_reach [OF sys_reach.init this] show ?thesis
    by (intro exI conjI) (assumption, simp_all add: child_alive_def fresh_child_def)
qed

text \<open>
  Further fact: once the app is shutting down it stays so, and no event lets another start pass
  its guard.
\<close>

theorem shutdown_admits_no_start:
  assumes "isShuttingDown st" and "sys_exec ev (st, ts) = Some (st1, ts1)"
  shows "isShuttingDown st1 \<and> length (filter critical ts1) \<le> length (filter critical ts)"
proof (cases ev)
  case (Resume i env)
  with assms(2) have i: "i < length ts" and
    s: "st1 = fst (task_step env (ts ! i) st)" "ts1 = ts[i := snd (task_step env (ts ! i) st)]"
    by (auto split: if_splits prod.splits)
  show ?thesis
    unfolding s using task_step_shutting [OF assms(1), of env "ts ! i"] critical_update [OF i] by blast
next
  case (TimerDue i now)
  with assms(2) obtain tm tms where "filter (\<lambda>t. tm_id t = i) (timers st) = tm # tms" and
    s: "(st1, ts1) = spawn_task ts (fire now (tm_kind tm) (st\<lparr>timers := filter (\<lambda>t. tm_id t \<noteq> i) (timers st)\<rparr>))"
    by (cases "filter (\<lambda>t. tm_id t = i) (timers st)") auto
  with fire_shutting [of "st\<lparr>timers := filter (\<lambda>t. tm_id t \<noteq> i) (timers st)\<rparr>" now "tm_kind tm"] assms(1)
  show ?thesis by (simp add: spawn_task_def)
next
  case (DaemonExits p code)
  with assms show ?thesis
    by (auto simp: daemon_exit_def exit_handler_def Let_def split: if_splits)
next
  case Quit
  with assms continueShutdown_shutting [of "st\<lparr>isShuttingDown := True, isRestarting := False\<rparr>"]
  show ?thesis by (auto simp: before_quit_def Let_def split: prod.splits if_splits)
next
  case RequestStop
  with assms continue_stop_shutting [of ShutdownStop "(st, graceful_begin st)"]
  show ?thesis by (auto simp: ipc_stop_def spawn_task_def split: if_splits)
next
  case RequestRestart
  with assms continue_stop_shutting [of ShutdownRestart "(st, graceful_begin st)"]
  show ?thesis by (auto simp: ipc_restart_def spawn_task_def split: if_splits)
qed (use assms in \<open>auto simp: spawn_task_def monitor_tick_def ipc_start_def split: if_splits\<close>)

theorem shutdown_admits_no_start_witness:
  "isShuttingDown (fst (task_step down AwaitStartupHealth (sup_init\<lparr>isShuttingDown := True\<rparr>)))"
  using shutdown_admits_no_start [of "sup_init\<lparr>isShuttingDown := True\<rparr>" "Resume 0 down" "[AwaitStartupHealth]"
      "fst (task_step down AwaitStartupHealth (sup_init\<lparr>isShuttingDown := True\<rparr>))"
      "[snd (task_step down AwaitStartupHealth (sup_init\<lparr>isShuttingDown := True\<rparr>))]"]
  by (simp split: prod.split)

text \<open>
  Further fact: a start that has already passed its guard does not look again: it can spawn the
  daemon after the app has begun to shut down.
\<close>

theorem spawn_during_shutdown:
  "\<exists>s s1. sys_reach s \<and> isShuttingDown (fst s) \<and> children (fst s) = [] \<and>
     sys_exec (Resume 0 down) s = Some s1 \<and> child_alive (fst s1) 0 \<and> isShuttingDown (fst s1)"
proof -
  let ?r = "start_run (\<lambda>_. down) 4 AwaitHealth sup_init"
  obtain st b f where r: "?r = (st, AwaitDirCheck b f)" and st: "children st = []" "\<not> exited st" "windowOpen st"
    by (simp add: start_defs eval_nat_numeral)
      (simp add: clear_restart_timeout_def sup_init_def)
  have "sys_run (replicate 4 (Resume 0 down)) sys_init =
      Some (st, [Starting CallStartup (AwaitDirCheck b f), AwaitStartupHealth, AwaitStartupHealth])"
    unfolding sys_init_def by (subst resume_start [OF _ _ _ r]) simp_all
  note reach = sys_run_reach [OF sys_reach.init this]
  let ?st = "add_timer QuitTimer 100 (st\<lparr>isShuttingDown := True, isRestarting := False\<rparr>)"
  let ?s = "(?st, [Starting CallStartup (AwaitDirCheck b f), AwaitStartupHealth, AwaitStartupHealth, Finished])"
  have "sys_reach ?s"
    by (rule sys_reach.step [OF reach, of Quit]) (simp_all add: st before_quit_def)
  moreover have "\<exists>s1. sys_exec (Resume 0 down) ?s = Some s1 \<and> child_alive (fst s1) 0 \<and> isShuttingDown (fst s1)"
    using st(1) by (simp add: start_spawn_def continue_start_def Let_def child_alive_def
        down_def sample_env_def)
  moreover have "isShuttingDown (fst ?s)" "children (fst ?s) = []" using st(1) by simp_all
  ultimately show ?thesis by blast
qed

text \<open>
  Further fact: stopping the daemon from the window does not last: when the process that was asked
  to shut down exits, a restart is scheduled as after a crash.
\<close>

theorem stop_is_undone:
  assumes "windowOpen st" and "\<not> isShuttingDown st" and "daemonRestartAttempts st < 10"
    and "daemonSpawnedByApp st" and "daemonProc st = Some p"
    and "child_alive st p" and "ch_listener (children st ! p)"
  shows "\<exists>st1 st2 ts1. sys_exec RequestStop (st, ts) = Some (st1, ts1) \<and>
    sys_exec (DaemonExits p code) (st1, ts1) = Some (st2, ts1) \<and>
    (\<exists>tm \<in> set (timers st2). daemonRestartTimeout st2 = Some (tm_id tm) \<and> tm_kind tm = RestartTimer) \<and>
    daemonRestartAttempts st2 = Suc (daemonRestartAttempts st)"
proof -
  have "sys_exec RequestStop (st, ts) = Some (st, ts @ [Stopping ShutdownStop (AwaitPost p (daemonLogStream st))])"
    using assms by (simp add: ipc_stop_def graceful_begin_def continue_stop_def spawn_task_def)
  moreover have "sys_exec (DaemonExits p code) (st, ts') = Some (daemon_exit p code st, ts')" for ts'
    using assms(6) by simp
  moreover have "(\<exists>tm \<in> set (timers (daemon_exit p code st)).
      daemonRestartTimeout (daemon_exit p code st) = Some (tm_id tm) \<and> tm_kind tm = RestartTimer) \<and>
    daemonRestartAttempts (daemon_exit p code st) = Suc (daemonRestartAttempts st)"
    using assms by (simp add: daemon_exit_def exit_handler_def Let_def child_alive_def MAX_RESTART_ATTEMPTS_def)
  ultimately show ?thesis by blast
qed

theorem stop_is_undone_witness:
  "\<exists>st1 st2 ts1. sys_exec RequestStop (spawned sup_init, []) = Some (st1, ts1) \<and>
    sys_exec (DaemonExits 0 (Some 0)) (st1, ts1) = Some (st2, ts1) \<and>
    (\<exists>tm \<in> set (timers st2). daemonRestartTimeout st2 = Some (tm_id tm) \<and> tm_kind tm = RestartTimer) \<and>
    daemonRestartAttempts st2 = Suc (daemonRestartAttempts (spawned sup_init))"
  by (rule stop_is_undone) (simp_all add: child_alive_def fresh_child_def)

text \<open>
  Further fact: the limit of ten restarts binds the exit handler only. When it has given up, with the
  message that automatic restart is disabled, the next health check of the monitor starts
  the daemon again.
\<close>

theorem monitor_ignores_restart_limit:
  assumes "daemonRestartAttempts st = 10" and "\<not> isShuttingDown st" and "windowOpen st"
    and "daemonSpawnedByApp st" and "\<not> isRestarting st" and "daemonRestartTimeout st = None"
    and "p < length (children st)" and "ch_listener (children st ! p)"
    and "\<not> en_healthy env" and "3000 \<le> en_now env - lastRestartTime st"
  shows "\<exists>st1 st2 st3. st1 = daemon_exit p code st \<and> timers st1 = timers st \<and>
    monitor_health env st1 = (st2, AwaitMonitorCleanup) \<and>
    monitor_cleanup env st2 = (st3, Starting CallMonitor AwaitHealth) \<and>
    snd (task_step env (Starting CallMonitor AwaitHealth) st3) = Starting CallMonitor AwaitCleanup"
proof -
  let ?st1 = "daemon_exit p code st"
  have x: "daemonProc ?st1 = None" "daemonSpawnedByApp ?st1" "\<not> isShuttingDown ?st1" "timers ?st1 = timers st"
      "\<not> isRestarting ?st1" "daemonRestartTimeout ?st1 = None" "lastRestartTime ?st1 = lastRestartTime st"
    using assms by (simp_all add: daemon_exit_def exit_handler_def Let_def MAX_RESTART_ATTEMPTS_def show_error_def set_child_def)
  then have "monitor_health env ?st1 =
      (?st1\<lparr>consecutiveHealthFailures := Suc (consecutiveHealthFailures ?st1), daemonProc := None,
         daemonSpawnedByApp := False\<rparr>, AwaitMonitorCleanup)"
    using assms by (simp add: monitor_health_def Let_def MIN_RESTART_COOLDOWN_MS_def)
  with x assms(9) show ?thesis
    by (simp add: monitor_cleanup_def start_defs continue_start_def)
qed

theorem monitor_ignores_restart_limit_witness:
  "\<exists>st1 st2 st3. st1 = daemon_exit 0 (Some 1)
      ((spawned sup_init)\<lparr>daemonRestartAttempts := 10, isRestarting := False\<rparr>) \<and>
    timers st1 = timers ((spawned sup_init)\<lparr>daemonRestartAttempts := 10, isRestarting := False\<rparr>) \<and>
    monitor_health down st1 = (st2, AwaitMonitorCleanup) \<and>
    monitor_cleanup down st2 = (st3, Starting CallMonitor AwaitHealth) \<and>
    snd (task_step down (Starting CallMonitor AwaitHealth) st3) = Starting CallMonitor AwaitCleanup"
proof (rule monitor_ignores_restart_limit)
  show "3000 \<le> en_now down - lastRestartTime ((spawned sup_init)\<lparr>daemonRestartAttempts := 10, isRestarting := False\<rparr>)"
    by (simp add: down_def sample_env_def spawned_def clear_restart_timeout_def sup_init_def)
  show "daemonRestartTimeout ((spawned sup_init)\<lparr>daemonRestartAttempts := 10, isRestarting := False\<rparr>) = None"
    by (simp add: spawned_def)
qed (simp_all add: fresh_child_def)

end
