(* ===== verification/Firewall.thy ===== *)
theory Firewall
  imports Prelude
begin

text \<open>
  The Windows firewall management of the main process (\<open>main/main.ts\<close>): checking for rules,
  building the \<open>netsh\<close> commands that add them, one by one or as one elevated PowerShell
  script, removing them, and the request handlers that validate what the window asks for.

  What a command prints or how it fails is an \<open>exec_outcome\<close> of the environment. A script is
  the list of its lines; its encoding for the command line is left out.
\<close>

datatype exec_outcome =
    ExecOk string
  | ExecError string string string

text \<open>\<open>(error.message || stderr || String(stdout || ''))\<close>.\<close>

fun error_text :: "string \<Rightarrow> string \<Rightarrow> string \<Rightarrow> string" where
  "error_text message stderr stdout =
     (if message \<noteq> [] then message else if stderr \<noteq> [] then stderr else stdout)"

definition unknown_or :: "string \<Rightarrow> string \<Rightarrow> string" where
  "unknown_or message stderr =
     (if message \<noteq> [] then message else if stderr \<noteq> [] then stderr else ''Unknown error'')"

definition isElevationError :: "string \<Rightarrow> bool" where
  "isElevationError msg =
     (let m = js_lower msg in
      js_includes m ''elevation'' \<or> js_includes m ''administrator'' \<or> js_includes m ''access denied'' \<or>
      js_includes m ''access is denied'' \<or> js_includes m ''requested operation requires'' \<or>
      js_includes m ''run as'' \<or> js_includes m ''permission'' \<or> js_includes m ''1223'' \<or>
      js_includes m ''canceled by the user'' \<or> js_includes m ''cancelled by the user'')"

definition RUN_AS_ADMIN_MSG :: string where
  "RUN_AS_ADMIN_MSG = ''Administrator rights are required. Right-click ORC TORRENT '' @ utf8 [226, 134, 146] @
     '' Run as administrator, then try the firewall fix again.''"

subsection \<open>Checking\<close>

record rule_info =
  ri_exists :: bool
  ri_managed :: bool
  ri_error :: "string option"
  ri_checkAccessDenied :: "bool option"

definition access_denied :: "string \<Rightarrow> bool" where
  "access_denied msg \<longleftrightarrow>
     isElevationError msg \<or> js_includes msg ''access is denied'' \<or> js_includes msg ''access denied''"

definition checkWindowsFirewallRule :: "string \<Rightarrow> exec_outcome \<Rightarrow> rule_info" where
  "checkWindowsFirewallRule ruleName outcome = (case outcome of
     ExecError message stderr stdout \<Rightarrow>
       \<lparr>ri_exists = False, ri_managed = False,
        ri_error = Some (if message \<noteq> [] then message else stderr),
        ri_checkAccessDenied = Some (access_denied (js_lower (error_text message stderr stdout)))\<rparr>
   | ExecOk stdout \<Rightarrow>
       \<lparr>ri_exists = (js_includes stdout ruleName \<and> \<not> js_includes stdout ''No rules match''),
        ri_managed = (js_includes stdout ''Group Policy'' \<or> js_includes stdout ''GP''),
        ri_error = None, ri_checkAccessDenied = None\<rparr>)"

definition checkWindowsFirewallOutboundRules :: "exec_outcome \<Rightarrow> bool \<times> bool option" where
  "checkWindowsFirewallOutboundRules outcome = (case outcome of
     ExecError message stderr stdout \<Rightarrow>
       (False, Some (access_denied (js_lower (error_text message stderr stdout))))
   | ExecOk stdout \<Rightarrow> (js_trim stdout \<noteq> [] \<and> js_includes (js_lower stdout) ''outbound'', None))"

definition checkIfFirewallManaged :: "exec_outcome \<Rightarrow> bool" where
  "checkIfFirewallManaged outcome = (case outcome of
     ExecError _ _ _ \<Rightarrow> False
   | ExecOk stdout \<Rightarrow> js_includes stdout ''Group Policy'' \<or> js_includes stdout ''GP'')"

definition FIREWALL_BASE_RULE_NAME :: string where
  "FIREWALL_BASE_RULE_NAME = ''ORC TORRENT BitTorrent Peer''"

definition firewall_check :: "bool \<Rightarrow> exec_outcome \<Rightarrow> exec_outcome \<Rightarrow> rule_info" where
  "firewall_check win32 inb outb =
     (if \<not> win32 then \<lparr>ri_exists = False, ri_managed = False, ri_error = None, ri_checkAccessDenied = None\<rparr>
      else (let inbound = checkWindowsFirewallRule FIREWALL_BASE_RULE_NAME inb;
                outbound = checkWindowsFirewallOutboundRules outb in
        \<lparr>ri_exists = (ri_exists inbound \<or> fst outbound), ri_managed = ri_managed inbound,
         ri_error = ri_error inbound,
         ri_checkAccessDenied = (case ri_checkAccessDenied inbound of Some b \<Rightarrow> Some b | None \<Rightarrow> snd outbound)\<rparr>))"

subsection \<open>Building commands\<close>

text \<open>\<open>s.replace(/c/g, "cc")\<close>: a quote is escaped by doubling it.\<close>

fun double_char :: "char \<Rightarrow> string \<Rightarrow> string" where
  "double_char q [] = []"
| "double_char q (c # s) = (if c = q then c # c # double_char q s else c # double_char q s)"

abbreviation escapeForCmd :: "string \<Rightarrow> string" where
  "escapeForCmd \<equiv> double_char CHR 0x22"

text \<open>A PowerShell single-quoted string.\<close>

definition ps_quote :: "string \<Rightarrow> string" where
  "ps_quote arg = CHR 0x27 # double_char CHR 0x27 arg @ [CHR 0x27]"

definition quoted :: "string \<Rightarrow> string" where
  "quoted s = CHR 0x22 # s @ [CHR 0x22]"

definition validProfiles :: "string list" where
  "validProfiles = [''private'', ''public'', ''domain'']"

definition profiles_to_use :: "string \<Rightarrow> string list" where
  "profiles_to_use profile = (if profile = ''all'' then validProfiles else [profile])"

definition protocols_to_use :: "string \<Rightarrow> string list" where
  "protocols_to_use protocol = (if protocol = ''both'' then [''tcp'', ''udp''] else [protocol])"

record port_rule =
  pr_port :: nat
  pr_protocol :: string
  pr_profile :: string

datatype direction = In | Out

definition direction_name :: "direction \<Rightarrow> string" where
  "direction_name d = (case d of In \<Rightarrow> ''in'' | Out \<Rightarrow> ''out'')"

definition direction_suffix :: "direction \<Rightarrow> string" where
  "direction_suffix d = (case d of In \<Rightarrow> [] | Out \<Rightarrow> '' Out'')"

definition rule_suffix :: "port_rule \<Rightarrow> string \<Rightarrow> string \<Rightarrow> string" where
  "rule_suffix r prof proto =
     (if 1 < length (profiles_to_use (pr_profile r)) \<or> 1 < length (protocols_to_use (pr_protocol r))
      then '' ('' @ prof @ ''/'' @ proto @ '')'' else [])"

text \<open>The \<open>netsh\<close> arguments of one rule; \<open>fullRuleNameWithDir\<close> is its name.\<close>

definition full_rule_name :: "string \<Rightarrow> port_rule \<Rightarrow> string \<Rightarrow> string \<Rightarrow> direction \<Rightarrow> string" where
  "full_rule_name base r prof proto d =
     base @ '' Port '' @ show_nat (pr_port r) @ direction_suffix d @ rule_suffix r prof proto"

definition netsh_args :: "string \<Rightarrow> string \<Rightarrow> port_rule \<Rightarrow> string \<Rightarrow> string \<Rightarrow> direction \<Rightarrow> string list" where
  "netsh_args base exePath r prof proto d =
     [''advfirewall'', ''firewall'', ''add'', ''rule'',
      ''name='' @ quoted (escapeForCmd (full_rule_name base r prof proto d)),
      ''dir='' @ direction_name d, ''action=allow'',
      ''program='' @ quoted (escapeForCmd exePath),
      ''profile='' @ prof, ''enable=yes'',
      ''localport='' @ show_nat (pr_port r), ''protocol='' @ proto]"

definition createNetshCommand :: "string list \<Rightarrow> string" where
  "createNetshCommand args =
     ''try {   $result = & netsh '' @ js_join '' '' (map ps_quote args) @ '' 2>&1; '' @
     ''  if ($LASTEXITCODE -eq 0) { $added++ } '' @
     ''  elseif ($result -match '' @ ps_quote ''already exists|object already exists'' @ '') { $skipped++ } '' @
     ''  else { Write-Warning '' @ quoted ''Failed to add rule: $result'' @ '' } } catch { '' @
     ''  if ($_.Exception.Message -match '' @ ps_quote ''already exists|object already exists'' @ '') { $skipped++ } '' @
     ''  else { Write-Warning '' @ quoted ''Error: $($_.Exception.Message)'' @ '' } }''"

definition rule_args :: "string \<Rightarrow> string \<Rightarrow> port_rule \<Rightarrow> string list list" where
  "rule_args base exePath r =
     concat (map (\<lambda>prof. concat (map (\<lambda>proto.
       [netsh_args base exePath r prof proto In, netsh_args base exePath r prof proto Out])
         (protocols_to_use (pr_protocol r)))) (profiles_to_use (pr_profile r)))"

definition batch_script :: "string \<Rightarrow> string \<Rightarrow> port_rule list \<Rightarrow> string list" where
  "batch_script base exePath rules =
     [''$ErrorActionPreference = '' @ quoted ''Continue'', ''$added = 0'', ''$skipped = 0''] @
     map createNetshCommand (concat (map (rule_args base exePath) rules)) @
     [''Write-Host '' @ quoted ''BATCH_RESULT: Added=$added Skipped=$skipped'',
      ''if ($added -gt 0 -or $skipped -gt 0) { exit 0 } else { exit 1 }'']"

record fw_result =
  fw_success :: bool
  fw_error :: "string option"
  fw_needsElevation :: "bool option"
  fw_added :: "nat option"
  fw_skipped :: "nat option"

definition fw_fail :: "string \<Rightarrow> fw_result" where
  "fw_fail msg = \<lparr>fw_success = False, fw_error = Some msg, fw_needsElevation = None,
                  fw_added = Some 0, fw_skipped = Some 0\<rparr>"

text \<open>The refusals of the handlers and of the single-rule operations carry no counts.\<close>

definition refuse :: "string \<Rightarrow> fw_result" where
  "refuse msg = \<lparr>fw_success = False, fw_error = Some msg, fw_needsElevation = None,
                 fw_added = None, fw_skipped = None\<rparr>"

definition fw_ok :: "nat \<Rightarrow> nat \<Rightarrow> fw_result" where
  "fw_ok added skipped = \<lparr>fw_success = True, fw_error = None, fw_needsElevation = None,
                          fw_added = Some added, fw_skipped = Some skipped\<rparr>"

definition fw_elevation :: fw_result where
  "fw_elevation = \<lparr>fw_success = False, fw_error = Some RUN_AS_ADMIN_MSG, fw_needsElevation = Some True,
                   fw_added = Some 0, fw_skipped = Some 0\<rparr>"

text \<open>The match of \<open>/BATCH_RESULT:\s*Added=(\d+)\s+Skipped=(\d+)/\<close> at one place, then anywhere.\<close>

definition match_counts_at :: "string \<Rightarrow> (nat \<times> nat) option" where
  "match_counts_at s =
     (let p0 = ''BATCH_RESULT:'' in
      if \<not> starts_with s p0 then None
      else (let s1 = dropWhile is_ws (drop (length p0) s) in
        if \<not> starts_with s1 ''Added='' then None
        else (let s2 = drop 6 s1; a = takeWhile is_digit s2; s3 = dropWhile is_digit s2;
                  s4 = dropWhile is_ws s3 in
          if a = [] \<or> s3 = s4 \<or> \<not> starts_with s4 ''Skipped='' then None
          else (let b = takeWhile is_digit (drop 8 s4) in
            if b = [] then None else Some (parse_digits a, parse_digits b)))))"

fun match_counts :: "string \<Rightarrow> (nat \<times> nat) option" where
  "match_counts [] = None"
| "match_counts (c # s) = (case match_counts_at (c # s) of Some r \<Rightarrow> Some r | None \<Rightarrow> match_counts s)"

text \<open>\<open>written\<close>: whether the temporary script file could be written, else the error.\<close>

definition addWindowsFirewallRulesBatch ::
    "string \<Rightarrow> string \<Rightarrow> port_rule list \<Rightarrow> string option \<Rightarrow> exec_outcome \<Rightarrow> fw_result \<times> string list" where
  "addWindowsFirewallRulesBatch base exePath rules write_error outcome =
     (if concat (map (rule_args base exePath) rules) = [] then (fw_ok 0 0, [])
      else (case write_error of
        Some e \<Rightarrow> (fw_fail (''Failed to create temporary script file: '' @ e), [])
      | None \<Rightarrow>
          ((case outcome of
              ExecError message stderr stdout \<Rightarrow>
                if isElevationError (js_lower (error_text message stderr stdout)) then fw_elevation
                else (case match_counts stdout of
                  Some (a, s) \<Rightarrow> if 0 < a \<or> 0 < s then fw_ok a s else fw_fail (unknown_or message stderr)
                | None \<Rightarrow> fw_fail (unknown_or message stderr))
            | ExecOk stdout \<Rightarrow>
                (case match_counts stdout of Some (a, s) \<Rightarrow> fw_ok a s | None \<Rightarrow> fw_ok 0 0)),
           batch_script base exePath rules)))"

subsection \<open>Adding one rule, command by command\<close>

text \<open>
  Commands run one after the other; what a command does may depend on the commands run
  before it, so the environment maps the commands issued so far and the next one to an outcome.
\<close>

definition single_args ::
    "string \<Rightarrow> string \<Rightarrow> nat option \<Rightarrow> string option \<Rightarrow> string \<Rightarrow> string \<Rightarrow> string \<Rightarrow> direction \<Rightarrow> string list" where
  "single_args ruleName exePath port scope prof proto ruleSuffix d =
     [''advfirewall'', ''firewall'', ''add'', ''rule'',
      ''name='' @ quoted (escapeForCmd (ruleName @ direction_suffix d @ ruleSuffix)),
      ''dir='' @ direction_name d, ''action=allow'',
      ''program='' @ quoted (escapeForCmd exePath),
      ''profile='' @ prof, ''enable=yes''] @
     (case port of Some p \<Rightarrow> [''localport='' @ show_nat p, ''protocol='' @ proto]
      | None \<Rightarrow> [''protocol='' @ proto]) @
     (case scope of Some sc \<Rightarrow> if sc \<noteq> [] then [''remoteip='' @ sc] else [] | None \<Rightarrow> [])"

definition single_suffix :: "string list \<Rightarrow> string list \<Rightarrow> nat option \<Rightarrow> string \<Rightarrow> string \<Rightarrow> string" where
  "single_suffix profs protos port prof proto =
     (let portSuffix = (case port of Some p \<Rightarrow> CHR '':'' # show_nat p | None \<Rightarrow> []) in
      if 1 < length profs \<or> 1 < length protos \<or> portSuffix \<noteq> []
      then '' ('' @ prof @ ''/'' @ proto @ portSuffix @ '')'' else [])"

definition single_commands ::
    "string \<Rightarrow> string \<Rightarrow> nat option \<Rightarrow> string \<Rightarrow> string \<Rightarrow> string option \<Rightarrow> string list list" where
  "single_commands ruleName exePath port protocol profile scope =
     (let profs = profiles_to_use profile; protos = protocols_to_use protocol in
      concat (map (\<lambda>prof. concat (map (\<lambda>proto.
        map (single_args ruleName exePath port scope prof proto (single_suffix profs protos port prof proto)) [In, Out])
        protos)) profs))"

definition fw_done :: fw_result where
  "fw_done = \<lparr>fw_success = True, fw_error = None, fw_needsElevation = None,
              fw_added = None, fw_skipped = None\<rparr>"

fun execute_adds ::
    "(string list list \<Rightarrow> string list \<Rightarrow> exec_outcome) \<Rightarrow> string list list \<Rightarrow> string list list
      \<Rightarrow> fw_result \<times> string list list" where
  "execute_adds ex issued [] = (fw_done, issued)"
| "execute_adds ex issued (c # cs) = (case ex issued c of
     ExecOk _ \<Rightarrow> execute_adds ex (issued @ [c]) cs
   | ExecError message stderr stdout \<Rightarrow>
       (let errorMsg = error_text message stderr stdout in
        if js_includes (js_lower errorMsg) ''already exists'' \<or> js_includes (js_lower errorMsg) ''object already exists''
        then execute_adds ex (issued @ [c]) cs
        else if isElevationError errorMsg then
          (\<lparr>fw_success = False, fw_error = Some RUN_AS_ADMIN_MSG, fw_needsElevation = Some True,
            fw_added = None, fw_skipped = None\<rparr>, issued @ [c])
        else (refuse (unknown_or message stderr), issued @ [c])))"

definition addWindowsFirewallRule ::
    "(string list list \<Rightarrow> string list \<Rightarrow> exec_outcome) \<Rightarrow> string \<Rightarrow> string \<Rightarrow> int option \<Rightarrow> string \<Rightarrow> string
      \<Rightarrow> string option \<Rightarrow> fw_result \<times> string list list" where
  "addWindowsFirewallRule ex ruleName exePath port protocol profile scope = (case port of
     Some p \<Rightarrow>
       if p < 1 \<or> 65535 < p then
         (refuse (''Invalid port: '' @ show_int p @ ''. Must be between 1 and 65535.''), [])
       else execute_adds ex [] (single_commands ruleName exePath (Some (nat p)) protocol profile scope)
   | None \<Rightarrow> execute_adds ex [] (single_commands ruleName exePath None protocol profile scope))"

subsection \<open>Removing rules\<close>

text \<open>
  The names listed by \<open>netsh ... show rule\<close>: the text after \<open>Rule Name:\<close> on a line (any case),
  up to a line terminator, trimmed; a line with nothing after the colon gives no name.
\<close>

fun after_label :: "string \<Rightarrow> string \<Rightarrow> string option" where
  "after_label lbl [] = None"
| "after_label lbl (c # s) =
     (if starts_with (js_lower (c # s)) (js_lower lbl) then Some (drop (length lbl) (c # s)) else after_label lbl s)"

definition listed_name :: "string \<Rightarrow> string option" where
  "listed_name line = (case after_label ''Rule Name:'' line of
     None \<Rightarrow> None
   | Some rest \<Rightarrow>
       (let nm = takeWhile (\<lambda>c. c \<noteq> CHR 0x0A \<and> c \<noteq> CHR 0x0D) (dropWhile is_ws rest) in
        if nm = [] then None else Some (js_trim nm)))"

definition found_names :: "string \<Rightarrow> exec_outcome \<Rightarrow> string list" where
  "found_names ruleName found = (case found of
     ExecError _ _ _ \<Rightarrow> []
   | ExecOk stdout \<Rightarrow>
       filter (\<lambda>nm. starts_with nm ruleName)
         (concat (map (\<lambda>l. case listed_name l of Some nm \<Rightarrow> [nm] | None \<Rightarrow> []) (js_split CHR 0x0A stdout))))"

datatype delete_cmd = Delete (target: string) (elevated: bool)

definition gone :: "string \<Rightarrow> bool" where
  "gone msg \<longleftrightarrow> js_includes msg ''not found'' \<or> js_includes msg ''cannot find''"

definition or_text :: "string \<Rightarrow> string \<Rightarrow> string" where
  "or_text message stderr = (if message \<noteq> [] then message else stderr)"

fun execute_deletes ::
    "(delete_cmd list \<Rightarrow> delete_cmd \<Rightarrow> exec_outcome) \<Rightarrow> delete_cmd list \<Rightarrow> string list
      \<Rightarrow> fw_result \<times> delete_cmd list" where
  "execute_deletes ex issued [] = (fw_done, issued)"
| "execute_deletes ex issued (nm # nms) =
     (let c = Delete nm False; issued' = issued @ [c] in
      case ex issued c of
        ExecOk _ \<Rightarrow> execute_deletes ex issued' nms
      | ExecError message stderr _ \<Rightarrow>
          (let errorMsg = js_lower (or_text message stderr) in
           if js_includes errorMsg ''access'' \<or> js_includes errorMsg ''denied'' \<or> js_includes errorMsg ''administrator''
           then (let e = Delete nm True; issued'' = issued' @ [e] in
             case ex issued' e of
               ExecOk _ \<Rightarrow> execute_deletes ex issued'' nms
             | ExecError emessage estderr _ \<Rightarrow>
                 if \<not> gone (js_lower (or_text emessage estderr))
                 then (refuse (unknown_or emessage estderr), issued'')
                 else execute_deletes ex issued'' nms)
           else if \<not> gone errorMsg then (refuse (unknown_or message stderr), issued')
           else execute_deletes ex issued' nms))"

definition removeWindowsFirewallRule ::
    "(delete_cmd list \<Rightarrow> delete_cmd \<Rightarrow> exec_outcome) \<Rightarrow> string \<Rightarrow> exec_outcome \<Rightarrow> fw_result \<times> delete_cmd list" where
  "removeWindowsFirewallRule ex ruleName found =
     (let ruleNames = found_names ruleName found in
      execute_deletes ex [] (if ruleNames = [] then [ruleName] else ruleNames))"

subsection \<open>The request handlers\<close>

definition MIN_PORT :: int where "MIN_PORT = 1"
definition MAX_PORT :: int where "MAX_PORT = 65535"
definition MAX_PORTS_BATCH :: nat where "MAX_PORTS_BATCH = 50"
definition VALID_PROTOCOLS :: "string list" where "VALID_PROTOCOLS = [''tcp'', ''udp'', ''both'']"
definition VALID_PROFILES :: "string list" where
  "VALID_PROFILES = [''private'', ''public'', ''domain'', ''all'']"

text \<open>A value from the window: an integer, or anything else.\<close>

datatype js_port = PortInt int | PortOther

definition valid_port :: "js_port \<Rightarrow> bool" where
  "valid_port p \<longleftrightarrow> (case p of PortInt i \<Rightarrow> MIN_PORT \<le> i \<and> i \<le> MAX_PORT | PortOther \<Rightarrow> False)"

definition port_number :: "js_port \<Rightarrow> nat" where
  "port_number p = (case p of PortInt i \<Rightarrow> nat i | PortOther \<Rightarrow> 0)"

definition or_default :: "'a option \<Rightarrow> 'a \<Rightarrow> 'a" where
  "or_default o' d = (case o' of Some x \<Rightarrow> x | None \<Rightarrow> d)"

definition not_windows :: string where
  "not_windows = ''Firewall management is only available on Windows''"

definition firewall_add_rules_batch ::
    "bool \<Rightarrow> string \<Rightarrow> js_port list \<Rightarrow> string option \<Rightarrow> string option \<Rightarrow> string option \<Rightarrow> exec_outcome
      \<Rightarrow> fw_result \<times> string list" where
  "firewall_add_rules_batch win32 exePath ports protocol profile write_error outcome =
     (if \<not> win32 then (refuse not_windows, [])
      else if ports = [] then (refuse ''At least one port is required'', [])
      else if MAX_PORTS_BATCH < length ports then
        (refuse (''Maximum '' @ show_nat MAX_PORTS_BATCH @ '' ports per batch''), [])
      else (let validPorts = filter valid_port ports in
        if length validPorts \<noteq> length ports then
          (refuse (''All ports must be integers between '' @ show_int MIN_PORT @ '' and '' @ show_int MAX_PORT), [])
        else (let proto = or_default protocol ''both''; prof = or_default profile ''all'' in
          if proto \<notin> set VALID_PROTOCOLS then
            (refuse (''Protocol must be one of: '' @ js_join '', '' VALID_PROTOCOLS), [])
          else if prof \<notin> set VALID_PROFILES then
            (refuse (''Profile must be one of: '' @ js_join '', '' VALID_PROFILES), [])
          else addWindowsFirewallRulesBatch FIREWALL_BASE_RULE_NAME exePath
                 (map (\<lambda>p. \<lparr>pr_port = port_number p, pr_protocol = proto, pr_profile = prof\<rparr>) validPorts)
                 write_error outcome)))"

definition firewall_add_rule ::
    "bool \<Rightarrow> string \<Rightarrow> js_port option \<Rightarrow> string option \<Rightarrow> string option \<Rightarrow> string option \<Rightarrow> exec_outcome
      \<Rightarrow> fw_result \<times> string list" where
  "firewall_add_rule win32 exePath port protocol profile write_error outcome =
     (if \<not> win32 then (refuse not_windows, [])
      else (let p = or_default port (PortInt 6881) in
        if \<not> valid_port p then
          (refuse (''Port must be an integer between '' @ show_int MIN_PORT @ '' and '' @ show_int MAX_PORT), [])
        else (let proto = or_default protocol ''both''; prof = or_default profile ''all'' in
          if proto \<notin> set VALID_PROTOCOLS then
            (refuse (''Protocol must be one of: '' @ js_join '', '' VALID_PROTOCOLS), [])
          else if prof \<notin> set VALID_PROFILES then
            (refuse (''Profile must be one of: '' @ js_join '', '' VALID_PROFILES), [])
          else addWindowsFirewallRulesBatch FIREWALL_BASE_RULE_NAME exePath
                 [\<lparr>pr_port = port_number p, pr_protocol = proto, pr_profile = prof\<rparr>] write_error outcome)))"

definition firewall_remove_rule ::
    "bool \<Rightarrow> (delete_cmd list \<Rightarrow> delete_cmd \<Rightarrow> exec_outcome) \<Rightarrow> exec_outcome \<Rightarrow> fw_result \<times> delete_cmd list" where
  "firewall_remove_rule win32 ex found =
     (if \<not> win32 then (fw_done, []) else removeWindowsFirewallRule ex FIREWALL_BASE_RULE_NAME found)"

definition firewall_check_managed :: "bool \<Rightarrow> exec_outcome \<Rightarrow> bool" where
  "firewall_check_managed win32 outcome = (win32 \<and> checkIfFirewallManaged outcome)"

subsection \<open>Names of the rules\<close>

definition rule_variants :: "port_rule \<Rightarrow> (string \<times> string \<times> direction) list" where
  "rule_variants r =
     concat (map (\<lambda>prof. concat (map (\<lambda>proto. [(prof, proto, In), (prof, proto, Out)])
       (protocols_to_use (pr_protocol r)))) (profiles_to_use (pr_profile r)))"

definition rule_names :: "string \<Rightarrow> port_rule \<Rightarrow> string list" where
  "rule_names base r = map (\<lambda>(prof, proto, d). full_rule_name base r prof proto d) (rule_variants r)"

lemma rule_args_variants:
  "rule_args base exePath r =
     map (\<lambda>(prof, proto, d). netsh_args base exePath r prof proto d) (rule_variants r)"
  by (simp add: rule_args_def rule_variants_def map_concat o_def)

lemma length_rule_variants:
  "length (rule_variants r) \<le> 12"
  by (simp add: rule_variants_def profiles_to_use_def protocols_to_use_def validProfiles_def)

lemma rule_variants_ne: "rule_variants r \<noteq> []"
  by (auto simp: rule_variants_def profiles_to_use_def protocols_to_use_def validProfiles_def)

lemma rule_variants_cong:
  "pr_protocol r = pr_protocol r' \<Longrightarrow> pr_profile r = pr_profile r' \<Longrightarrow> rule_variants r = rule_variants r'"
  by (simp add: rule_variants_def)

lemma distinct_rule_variants: "distinct (rule_variants r)"
  by (simp add: rule_variants_def profiles_to_use_def protocols_to_use_def validProfiles_def)

lemma digits_then_text:
  assumes "show_nat n @ x = show_nat m @ y"
    and "x = [] \<or> \<not> is_digit (hd x)" "y = [] \<or> \<not> is_digit (hd y)"
  shows "n = m \<and> x = y"
proof -
  have t: "takeWhile is_digit (show_nat k @ z) = show_nat k" if "z = [] \<or> \<not> is_digit (hd z)" for k z
    using that show_nat_digits [of k] by (cases z) (auto simp: takeWhile_append2)
  have "show_nat n = show_nat m"
    using t [OF assms(2)] t [OF assms(3)] assms(1) by metis
  with assms(1) show ?thesis by simp
qed

lemma rule_suffix_head: "rule_suffix r prof proto = [] \<or> hd (rule_suffix r prof proto) = CHR '' ''"
  by (simp add: rule_suffix_def)

lemma full_rule_name_inj:
  assumes "full_rule_name base r prof proto d = full_rule_name base r' prof' proto' d'"
  shows "pr_port r = pr_port r' \<and> direction_suffix d @ rule_suffix r prof proto
           = direction_suffix d' @ rule_suffix r' prof' proto'"
proof -
  have h: "x = [] \<or> \<not> is_digit (hd x)" if "x = direction_suffix e @ rule_suffix s p q" for x e s p q
    using that rule_suffix_head [of s p q]
    by (cases e) (auto simp: direction_suffix_def is_digit_def)
  show ?thesis
    by (rule digits_then_text [OF _ h [OF refl] h [OF refl]])
      (use assms in \<open>simp add: full_rule_name_def\<close>)
qed

lemma in_rule_variants:
  "(prof, proto, d) \<in> set (rule_variants r) \<longleftrightarrow>
     prof \<in> set (profiles_to_use (pr_profile r)) \<and> proto \<in> set (protocols_to_use (pr_protocol r))"
  by (cases d) (auto simp: rule_variants_def)

lemma In_out_text: "rule_suffix r prof proto \<noteq> direction_suffix Out @ rule_suffix r prof' proto'"
  by (simp add: rule_suffix_def direction_suffix_def)

lemma suffix_inj:
  assumes "direction_suffix d @ rule_suffix r prof proto = direction_suffix d' @ rule_suffix r prof' proto'"
    and "(prof, proto, d) \<in> set (rule_variants r)" "(prof', proto', d') \<in> set (rule_variants r)"
  shows "(prof, proto, d) = (prof', proto', d')"
proof -
  have d: "d = d'"
    using assms(1) In_out_text [of r prof proto prof' proto'] In_out_text [of r prof' proto' prof proto]
    by (cases d; cases d') (auto simp: direction_suffix_def)
  then have s: "rule_suffix r prof proto = rule_suffix r prof' proto'"
    using assms(1) by simp
  show ?thesis
  proof (cases "1 < length (profiles_to_use (pr_profile r)) \<or> 1 < length (protocols_to_use (pr_protocol r))")
    case True
    with s have "prof @ ''/'' @ proto @ '')'' = prof' @ ''/'' @ proto' @ '')''"
      by (simp add: rule_suffix_def)
    then show ?thesis
      using assms(2,3) d True
      by (auto simp: in_rule_variants profiles_to_use_def protocols_to_use_def validProfiles_def split: if_splits)
  next
    case False
    then show ?thesis
      using assms(2,3) d
      by (auto simp: in_rule_variants profiles_to_use_def protocols_to_use_def validProfiles_def split: if_splits)
  qed
qed

lemma distinct_rule_names: "distinct (rule_names base r)"
  unfolding rule_names_def distinct_map
proof (intro conjI distinct_rule_variants inj_onI)
  fix v v'
  assume v: "v \<in> set (rule_variants r)" "v' \<in> set (rule_variants r)"
    and e: "(case v of (prof, proto, d) \<Rightarrow> full_rule_name base r prof proto d)
          = (case v' of (prof, proto, d) \<Rightarrow> full_rule_name base r prof proto d)"
  obtain p q d p' q' d' where "v = (p, q, d)" "v' = (p', q', d')" by (cases v, cases v')
  with v e show "v = v'"
    by (simp only: prod.case) (rule suffix_inj [OF conjunct2 [OF full_rule_name_inj]])
qed

lemma in_rule_names:
  assumes "x \<in> set (rule_names base r)"
  obtains prof proto d where "x = full_rule_name base r prof proto d"
  using assms unfolding rule_names_def by auto

lemma rule_names_port:
  "x \<in> set (rule_names base r) \<Longrightarrow> x \<in> set (rule_names base r') \<Longrightarrow> pr_port r = pr_port r'"
  by (erule in_rule_names, erule in_rule_names)
    (rule conjunct1 [OF full_rule_name_inj], simp)

lemma distinct_batch_names:
  "distinct (map pr_port rules) \<Longrightarrow> distinct (concat (map (rule_names base) rules))"
proof (induction rules)
  case (Cons r rules)
  have "set (rule_names base r) \<inter> set (concat (map (rule_names base) rules)) = {}"
  proof -
    have "pr_port r' \<noteq> pr_port r" if "r' \<in> set rules" for r'
      using that Cons.prems by (metis (no_types) distinct.simps(2) image_eqI list.set_map list.simps(9))
    then show ?thesis
      by (simp only: disjoint_iff set_concat set_map) (auto dest: rule_names_port)
  qed
  with Cons show ?case by (simp add: distinct_rule_names)
qed simp

lemma base_name_not_added: "base \<notin> set (rule_names base r)"
  by (auto simp: rule_names_def full_rule_name_def)

subsection \<open>What the handlers run\<close>

lemma length_batch_args: "length (concat (map (rule_args base exePath) rules)) \<le> 12 * length rules"
proof (induction rules)
  case (Cons r rules)
  then show ?case
    using length_rule_variants [of r] by (simp add: rule_args_variants)
qed simp

lemma length_batch_script: "length (batch_script base exePath rules) \<le> 5 + 12 * length rules"
  using length_batch_args [of base exePath rules] by (simp add: batch_script_def)

lemma batch_args_ne: "rules \<noteq> [] \<Longrightarrow> concat (map (rule_args base exePath) rules) \<noteq> []"
  by (cases rules) (simp_all add: rule_args_variants rule_variants_ne)

lemma batch_script_of:
  assumes "addWindowsFirewallRulesBatch base exePath rules write_error outcome = (res, script)"
  shows "script = [] \<or> script = batch_script base exePath rules"
  using assms by (auto simp: addWindowsFirewallRulesBatch_def split: if_splits option.splits)

definition requested_rules :: "js_port list \<Rightarrow> string \<Rightarrow> string \<Rightarrow> port_rule list" where
  "requested_rules ports proto prof =
     map (\<lambda>p. \<lparr>pr_port = port_number p, pr_protocol = proto, pr_profile = prof\<rparr>) ports"

lemma filter_all: "length (filter P xs) = length xs \<Longrightarrow> filter P xs = xs"
  using length_filter_less [of _ xs P] by (metis filter_id_conv less_irrefl)

lemma valid_port_cases:
  assumes "valid_port p"
  obtains i where "p = PortInt i" "1 \<le> i" "i \<le> 65535"
  using assms by (cases p) (auto simp: valid_port_def MIN_PORT_def MAX_PORT_def)

lemma port_number_inj: "valid_port p \<Longrightarrow> valid_port q \<Longrightarrow> port_number p = port_number q \<Longrightarrow> p = q"
  by (erule valid_port_cases, erule valid_port_cases) (simp add: port_number_def)

lemma distinct_requested:
  assumes "\<forall>p \<in> set ports. valid_port p" "distinct ports"
  shows "distinct (map pr_port (requested_rules ports proto prof))"
proof -
  have "inj_on port_number (set ports)"
    using assms(1) port_number_inj by (auto simp: inj_on_def)
  moreover have "map pr_port (requested_rules ports proto prof) = map port_number ports"
    by (simp add: requested_rules_def)
  ultimately show ?thesis
    using assms(2) by (simp only: distinct_map simp_thms)
qed

text \<open>
  Property C16: the batch handler runs a script only on Windows, for 1 to 50 ports that are all
  integers between 1 and 65535 and for a protocol and a profile of the allowed lists; the script is
  the one for exactly those ports, it has at most 605 lines, and for distinct ports no two rules
  it adds share a name.
\<close>

theorem firewall_batch_validated:
  assumes "firewall_add_rules_batch win32 exePath ports protocol profile write_error outcome = (res, script)"
    and "script \<noteq> []"
  shows "\<exists>proto prof. win32 \<and> 1 \<le> length ports \<and> length ports \<le> 50
     \<and> (\<forall>p \<in> set ports. \<exists>i. p = PortInt i \<and> 1 \<le> i \<and> i \<le> 65535)
     \<and> proto = or_default protocol ''both'' \<and> prof = or_default profile ''all''
     \<and> proto \<in> set VALID_PROTOCOLS \<and> prof \<in> set VALID_PROFILES
     \<and> script = batch_script FIREWALL_BASE_RULE_NAME exePath (requested_rules ports proto prof)
     \<and> length script \<le> 605
     \<and> (distinct ports \<longrightarrow>
          distinct (concat (map (rule_names FIREWALL_BASE_RULE_NAME) (requested_rules ports proto prof))))"
proof -
  define proto prof where "proto = or_default protocol ''both''" and "prof = or_default profile ''all''"
  have w: "win32" "ports \<noteq> []" "length ports \<le> 50" "length (filter valid_port ports) = length ports"
    "proto \<in> set VALID_PROTOCOLS" "prof \<in> set VALID_PROFILES"
    using assms
    by (simp_all add: firewall_add_rules_batch_def Let_def MAX_PORTS_BATCH_def proto_def prof_def split: if_splits)
  have f: "filter valid_port ports = ports"
    using w(4) by (rule filter_all)
  then have v: "\<forall>p \<in> set ports. valid_port p" by (simp add: filter_id_conv)
  have "addWindowsFirewallRulesBatch FIREWALL_BASE_RULE_NAME exePath (requested_rules ports proto prof)
          write_error outcome = (res, script)"
    using assms(1) w f
    by (simp add: firewall_add_rules_batch_def Let_def MAX_PORTS_BATCH_def proto_def prof_def requested_rules_def)
  then have s: "script = batch_script FIREWALL_BASE_RULE_NAME exePath (requested_rules ports proto prof)"
    using batch_script_of assms(2) by blast
  have "length script \<le> 605"
    using length_batch_script [of FIREWALL_BASE_RULE_NAME exePath "requested_rules ports proto prof"] w(3)
    by (simp add: s requested_rules_def)
  moreover have "1 \<le> length ports" using w(2) by (cases ports) simp_all
  moreover have "\<forall>p \<in> set ports. \<exists>i. p = PortInt i \<and> 1 \<le> i \<and> i \<le> 65535"
    using v by (blast elim: valid_port_cases)
  ultimately show ?thesis
    using w s distinct_batch_names [OF distinct_requested [OF v]]
    by (rule_tac x = proto in exI, rule_tac x = prof in exI) (simp add: proto_def prof_def)
qed

theorem firewall_batch_validated_witness:
  "snd (firewall_add_rules_batch True ''a.exe'' [PortInt 6881, PortInt 6882] (Some ''tcp'') (Some ''private'') None (ExecOk [])) \<noteq> []
     \<and> distinct (concat (map (rule_names FIREWALL_BASE_RULE_NAME)
          (requested_rules [PortInt 6881, PortInt 6882] ''tcp'' ''private'')))"
proof -
  define r where "r = firewall_add_rules_batch True ''a.exe'' [PortInt 6881, PortInt 6882]
      (Some ''tcp'') (Some ''private'') None (ExecOk [])"
  have n: "snd r \<noteq> []"
    by (simp add: r_def firewall_add_rules_batch_def Let_def MAX_PORTS_BATCH_def valid_port_def MIN_PORT_def
        MAX_PORT_def or_default_def VALID_PROTOCOLS_def VALID_PROFILES_def addWindowsFirewallRulesBatch_def
        rule_args_variants rule_variants_ne batch_script_def)
  have "distinct (concat (map (rule_names FIREWALL_BASE_RULE_NAME)
          (requested_rules [PortInt 6881, PortInt 6882] ''tcp'' ''private'')))"
    using firewall_batch_validated [OF trans [OF r_def [symmetric] prod.collapse [symmetric]] n]
    by (simp add: or_default_def)
  with n show ?thesis by (simp add: r_def)
qed

subsection \<open>What removal reaches\<close>

lemma deletes_targets:
  "execute_deletes ex issued nms = (res, cmds) \<Longrightarrow>
     set issued \<subseteq> set cmds \<and> target ` set cmds \<subseteq> target ` set issued \<union> set nms \<and>
     (fw_success res \<longrightarrow> set nms \<subseteq> target ` set cmds)"
proof (induction nms arbitrary: issued)
  case (Cons nm nms)
  let ?one = "issued @ [Delete nm False]" and ?two = "issued @ [Delete nm False, Delete nm True]"
  have stop: "execute_deletes ex ?one nms = (res, cmds) \<or> execute_deletes ex ?two nms = (res, cmds)
      \<or> (\<not> fw_success res \<and> (cmds = ?one \<or> cmds = ?two))"
    using Cons.prems
    by (auto simp: Let_def refuse_def split: exec_outcome.splits if_splits)
  have t: "nm \<in> target ` set cmds" if "Delete nm False \<in> set cmds"
    using that by force
  show ?case
    using stop Cons.IH [of ?one] Cons.IH [of ?two] t by auto
qed (simp add: fw_done_def)

lemma found_names_prefix: "nm \<in> set (found_names ruleName found) \<Longrightarrow> starts_with nm ruleName"
  by (auto simp: found_names_def split: exec_outcome.splits)

text \<open>
  Further fact: removing rules only ever deletes rules whose name starts with the base name, it
  reports success only after a delete command for every listed rule, and, as \<open>netsh show rule
  name=\<close> lists the rules of exactly that name, it never names one of the rules that the batch
  handler adds: their names all carry a port.
\<close>

theorem removal_misses_added_rules:
  assumes "firewall_remove_rule win32 ex found = (res, cmds)"
    and "\<forall>nm \<in> set (found_names FIREWALL_BASE_RULE_NAME found). nm = FIREWALL_BASE_RULE_NAME"
  shows "(\<forall>c \<in> set cmds. starts_with (target c) FIREWALL_BASE_RULE_NAME
       \<and> target c \<notin> set (concat (map (rule_names FIREWALL_BASE_RULE_NAME) rules)))
     \<and> (win32 \<and> fw_success res \<longrightarrow> FIREWALL_BASE_RULE_NAME \<in> target ` set cmds)"
proof (cases win32)
  case False
  with assms show ?thesis by (simp add: firewall_remove_rule_def)
next
  case True
  define nms where "nms = (let r = found_names FIREWALL_BASE_RULE_NAME found in
    if r = [] then [FIREWALL_BASE_RULE_NAME] else r)"
  have e: "execute_deletes ex [] nms = (res, cmds)"
    using assms(1) True by (simp add: firewall_remove_rule_def removeWindowsFirewallRule_def nms_def Let_def)
  have b: "\<forall>nm \<in> set nms. nm = FIREWALL_BASE_RULE_NAME" "nms \<noteq> []"
    using assms(2) by (auto simp: nms_def Let_def)
  then have n: "FIREWALL_BASE_RULE_NAME \<in> set nms" by (cases nms) auto
  have t: "\<forall>c \<in> set cmds. target c = FIREWALL_BASE_RULE_NAME"
    using deletes_targets [OF e] b by auto
  show ?thesis
    using t n deletes_targets [OF e] base_name_not_added [of FIREWALL_BASE_RULE_NAME] by auto
qed

theorem removal_misses_added_rules_witness:
  "snd (firewall_remove_rule True (\<lambda>_ _. ExecOk []) (ExecError ''x'' [] []))
     = [Delete FIREWALL_BASE_RULE_NAME False]
   \<and> Delete (hd (rule_names FIREWALL_BASE_RULE_NAME (hd (requested_rules [PortInt 6881] ''both'' ''all'')))) False
       \<notin> set (snd (firewall_remove_rule True (\<lambda>_ _. ExecOk []) (ExecError ''x'' [] [])))"
proof -
  define r where "r = firewall_remove_rule True (\<lambda>_ _. ExecOk []) (ExecError ''x'' [] [])"
  have r: "snd r = [Delete FIREWALL_BASE_RULE_NAME False]"
    by (simp add: r_def firewall_remove_rule_def removeWindowsFirewallRule_def found_names_def)
  define rule where "rule = hd (requested_rules [PortInt 6881] ''both'' ''all'')"
  have "hd (rule_names FIREWALL_BASE_RULE_NAME rule) \<in> set (rule_names FIREWALL_BASE_RULE_NAME rule)"
    by (rule hd_in_set) (simp add: rule_names_def rule_variants_ne)
  moreover have "\<forall>c \<in> set (snd r). target c \<notin> set (concat (map (rule_names FIREWALL_BASE_RULE_NAME) [rule]))"
    using removal_misses_added_rules
      [OF trans [OF r_def [symmetric] prod.collapse [symmetric]], of "[rule]"]
    by (simp add: found_names_def)
  ultimately have "Delete (hd (rule_names FIREWALL_BASE_RULE_NAME rule)) False \<notin> set (snd r)"
    by auto
  with r show ?thesis by (simp add: r_def rule_def)
qed

end
