(* ===== verification/AppRefresh.thy ===== *)
theory AppRefresh
  imports Errors Types EventService
begin

text \<open>
  The refresh of the main page (\<open>renderer/ui/App.tsx\<close>): what one successful or failed round of
  requests does to the state (\<open>refreshAll\<close>), the transitions of torrents and of the network
  posture it turns into events and notifications, and the scheduling of rounds
  (\<open>scheduleRefresh\<close>, its debounce timer and the flag \<open>isRefreshing\<close>), where several rounds
  interleave at their awaits.

  The wallet and overlay answers are only stored; they are kept as opaque text.
\<close>

subsection \<open>Transitions\<close>

text \<open>
  Events are the arguments of \<open>createEvent\<close>; notifications are the calls of
  \<open>utils/notifications.ts\<close>.
\<close>

record event_draft =
  ed_type :: event_type
  ed_severity :: event_severity
  ed_message :: string
  ed_options :: event_options

datatype refresh_out =
    NotifyComplete string string
  | NotifyKillSwitch
  | PushEvent event_draft
  | Toast string string

record track =
  prevTorrentStates :: "(string, torrent_state) jmap"
  notifiedTorrents :: "string set"

definition torrent_event_draft ::
    "event_type \<Rightarrow> event_severity \<Rightarrow> string \<Rightarrow> string \<Rightarrow> string \<Rightarrow> (string \<times> string) list option \<Rightarrow> event_draft" where
  "torrent_event_draft typ sev msg tid name details =
     \<lparr>ed_type = typ, ed_severity = sev, ed_message = msg,
      ed_options = \<lparr>eo_torrentId = Some tid, eo_torrentName = Some name, eo_details = details\<rparr>\<rparr>"

definition transition_event ::
    "string \<Rightarrow> string \<Rightarrow> torrent_state \<Rightarrow> torrent_status \<Rightarrow> refresh_out list" where
  "transition_event tid name prev st =
     (let cur = ts_state st in
      if prev = cur then []
      else if cur = ErrorState then
        [PushEvent (torrent_event_draft EvTorrentError SevError
           (case ts_error st of Some e \<Rightarrow> if e \<noteq> [] then e else ''Torrent encountered an error''
            | None \<Rightarrow> ''Torrent encountered an error'') tid name
           (Some ((''previousState'', state_name prev) #
              (case ts_error st of Some e \<Rightarrow> [(''error'', e)] | None \<Rightarrow> []))))]
      else if cur = Downloading \<and> prev = Stopped then
        [PushEvent (torrent_event_draft EvTorrentStarted SevInfo ''Torrent started downloading'' tid name None)]
      else if cur = Seeding \<and> prev = Stopped then
        [PushEvent (torrent_event_draft EvTorrentStarted SevInfo ''Torrent started seeding'' tid name None)]
      else if cur = Stopped \<and> (prev = Downloading \<or> prev = Seeding) then
        [PushEvent (torrent_event_draft EvTorrentStopped SevInfo ''Torrent stopped'' tid name None)]
      else if cur = Checking then
        [PushEvent (torrent_event_draft EvPieceVerified SevInfo ''Verifying torrent pieces'' tid name None)]
      else [])"

definition completes :: "track \<Rightarrow> string \<Rightarrow> torrent_status \<Rightarrow> bool" where
  "completes tr tid st \<longleftrightarrow>
     jm_get (prevTorrentStates tr) tid = Some Downloading \<and> ts_state st = Seeding \<and>
     tid \<notin> notifiedTorrents tr"

text \<open>One result of the loop over the fetched statuses.\<close>

definition track_result :: "track \<Rightarrow> string \<times> torrent_status \<times> string \<Rightarrow> track \<times> refresh_out list" where
  "track_result tr r = (case r of (tid, st, name) \<Rightarrow>
     (let done = completes tr tid st;
          changed = (case jm_get (prevTorrentStates tr) tid of
            Some prev \<Rightarrow> transition_event tid name prev st | None \<Rightarrow> []) in
      (\<lparr>prevTorrentStates = jm_set tid (ts_state st) (prevTorrentStates tr),
        notifiedTorrents = (if done then insert tid (notifiedTorrents tr) else notifiedTorrents tr)\<rparr>,
       (if done then [NotifyComplete name tid,
          PushEvent (torrent_event_draft EvTorrentCompleted SevSuccess ''Download completed'' tid name None)]
        else []) @ changed)))"

fun track_results :: "track \<Rightarrow> (string \<times> torrent_status \<times> string) list \<Rightarrow> track \<times> refresh_out list" where
  "track_results tr [] = (tr, [])"
| "track_results tr (r # rs) =
     (let (tr1, o1) = track_result tr r; (tr2, o2) = track_results tr1 rs in (tr2, o1 @ o2))"

text \<open>Torrents that are gone are forgotten.\<close>

definition prune :: "string set \<Rightarrow> track \<Rightarrow> track" where
  "prune current tr =
     \<lparr>prevTorrentStates = filter (\<lambda>p. fst p \<in> current) (prevTorrentStates tr),
      notifiedTorrents = notifiedTorrents tr - (jm_keys (prevTorrentStates tr) - current)\<rparr>"

record posture_track =
  prevNetPostureState :: "posture_state option"
  killSwitchNotified :: bool

definition posture_name :: "posture_state \<Rightarrow> string" where
  "posture_name p = (case p of
     Unconfigured \<Rightarrow> ''unconfigured'' | Protected \<Rightarrow> ''protected'' | LeakRisk \<Rightarrow> ''leak_risk'')"

definition check_posture :: "net_posture \<Rightarrow> posture_track \<Rightarrow> posture_track \<times> refresh_out list" where
  "check_posture np pt =
     (let cur = np_state np;
          risk = np_leak_proof_enabled np \<and> prevNetPostureState pt = Some Protected \<and>
                 (cur = LeakRisk \<or> cur = Unconfigured);
          fresh = risk \<and> \<not> killSwitchNotified pt in
      (\<lparr>prevNetPostureState = Some cur,
        killSwitchNotified =
          (if risk then True else if cur = Protected then False else killSwitchNotified pt)\<rparr>,
       if fresh then
         [NotifyKillSwitch,
          PushEvent \<lparr>ed_type = EvVpnKillSwitch, ed_severity = SevWarning,
            ed_message = ''Network posture changed to leak risk'',
            ed_options = \<lparr>eo_torrentId = None, eo_torrentName = None,
              eo_details = Some [(''previousState'', posture_name Protected), (''currentState'', posture_name cur)]\<rparr>\<rparr>]
       else []))"

subsection \<open>One round\<close>

record refresh_io =
  io_torrents :: "thrown + torrent list"
  io_statuses :: "thrown + (string, torrent_status) jmap"
  io_wallet :: "thrown + string"
  io_overlay :: "thrown + string"
  io_posture :: "thrown + net_posture option"
  io_vpn :: "thrown + vpn_status"
  io_kill_switch :: "thrown + kill_switch_config option"

record app_data =
  ad_torrents :: "torrent list"
  ad_statuses :: "(string, torrent_status) jmap"
  ad_wallet :: "string option"
  ad_overlay :: "string option"
  ad_netPosture :: "net_posture option"
  ad_vpnStatus :: "vpn_status option"
  ad_killSwitch :: "kill_switch_config option"
  ad_track :: track
  ad_posture :: posture_track

definition app_init :: app_data where
  "app_init = \<lparr>ad_torrents = [], ad_statuses = [], ad_wallet = None, ad_overlay = None,
     ad_netPosture = None, ad_vpnStatus = None, ad_killSwitch = None,
     ad_track = \<lparr>prevTorrentStates = [], notifiedTorrents = {}\<rparr>,
     ad_posture = \<lparr>prevNetPostureState = None, killSwitchNotified = False\<rparr>\<rparr>"

text \<open>The new statuses are written over the old ones; both branches of the merge store them.\<close>

definition merge_statuses ::
    "(string, torrent_status) jmap \<Rightarrow> (string, torrent_status) jmap \<Rightarrow> (string, torrent_status) jmap" where
  "merge_statuses fetched prev = fold (\<lambda>(tid, st). jm_set tid st) fetched prev"

definition find_torrent :: "torrent list \<Rightarrow> string \<Rightarrow> torrent option" where
  "find_torrent ts tid = find (\<lambda>t. t_id t = tid) ts"

definition status_results ::
    "torrent list \<Rightarrow> (string, torrent_status) jmap \<Rightarrow> (string \<times> torrent_status \<times> string) list" where
  "status_results ts fetched =
     concat (map (\<lambda>(tid, st). case find_torrent ts tid of
       Some t \<Rightarrow> [(tid, st, t_name t)] | None \<Rightarrow> []) fetched)"

definition refresh_failed :: "thrown \<Rightarrow> refresh_out list" where
  "refresh_failed e = [Toast ''error'' (getErrorMessage e ''Failed to refresh data'')]"

text \<open>What follows the three stored answers: VPN, kill switch, transitions, posture.\<close>

definition refresh_tail :: "refresh_io \<Rightarrow> torrent list \<Rightarrow> (string, torrent_status) jmap \<Rightarrow> net_posture option
    \<Rightarrow> app_data \<Rightarrow> app_data \<times> refresh_out list" where
  "refresh_tail io ts fetched np d =
     (let d1 = (case io_vpn io of
            Inr v \<Rightarrow> d\<lparr>ad_vpnStatus := Some v\<rparr>
          | Inl _ \<Rightarrow> (case np of Some p \<Rightarrow> d\<lparr>ad_vpnStatus := Some (np_vpn_status p)\<rparr> | None \<Rightarrow> d));
          d2 = (case io_kill_switch io of
            Inr k \<Rightarrow> d1\<lparr>ad_killSwitch := k\<rparr>
          | Inl _ \<Rightarrow> (case np of Some p \<Rightarrow> d1\<lparr>ad_killSwitch := Some (np_kill_switch p)\<rparr> | None \<Rightarrow> d1));
          (tr, outs) = track_results (ad_track d2) (status_results ts fetched);
          d3 = d2\<lparr>ad_track := prune (t_id ` set ts) tr\<rparr> in
      case np of
        None \<Rightarrow> (d3, outs)
      | Some p \<Rightarrow> (let (pt, outs') = check_posture p (ad_posture d3) in
          (d3\<lparr>ad_posture := pt\<rparr>, outs @ outs')))"

definition refresh_round :: "refresh_io \<Rightarrow> app_data \<Rightarrow> app_data \<times> refresh_out list" where
  "refresh_round io d = (case io_torrents io of
     Inl e \<Rightarrow> (d, refresh_failed e)
   | Inr ts \<Rightarrow>
       (let d1 = d\<lparr>ad_torrents := ts\<rparr> in
        case io_statuses io of
          Inl e \<Rightarrow> (d1, refresh_failed e)
        | Inr fetched \<Rightarrow>
            (let d2 = d1\<lparr>ad_statuses := merge_statuses fetched (ad_statuses d1)\<rparr> in
             case io_wallet io of
               Inl e \<Rightarrow> (d2, refresh_failed e)
             | Inr w \<Rightarrow>
                 (let d3 = d2\<lparr>ad_wallet := Some w\<rparr> in
                  case io_overlay io of
                    Inl e \<Rightarrow> (d3, refresh_failed e)
                  | Inr ov \<Rightarrow>
                      (let d4 = d3\<lparr>ad_overlay := Some ov\<rparr> in
                       case io_posture io of
                         Inl e \<Rightarrow> (d4, refresh_failed e)
                       | Inr np \<Rightarrow> refresh_tail io ts fetched np (d4\<lparr>ad_netPosture := np\<rparr>))))))"

fun refresh_rounds :: "app_data \<Rightarrow> refresh_io list \<Rightarrow> app_data \<times> refresh_out list" where
  "refresh_rounds d [] = (d, [])"
| "refresh_rounds d (io # ios) =
     (let (d1, o1) = refresh_round io d; (d2, o2) = refresh_rounds d1 ios in (d2, o1 @ o2))"

subsection \<open>What the status bar shows\<close>

datatype daemon_health = HealthOffline | HealthHealthy | HealthError

definition daemonHealthState :: "bool \<Rightarrow> (string, torrent_status) jmap \<Rightarrow> daemon_health" where
  "daemonHealthState online statuses =
     (if \<not> online then HealthOffline
      else if \<exists>st \<in> snd ` set statuses. ts_state st = ErrorState then HealthError
      else HealthHealthy)"

definition daemonHealthDetails :: "bool \<Rightarrow> (string, torrent_status) jmap \<Rightarrow> int option \<Rightarrow> nat \<Rightarrow> string" where
  "daemonHealthDetails online statuses uptime_sec ntorrents =
     (if \<not> online then ''Daemon offline - Connecting...''
      else (let errorCount = length (filter (\<lambda>p. ts_state (snd p) = ErrorState) statuses) in
        if 0 < errorCount then show_nat errorCount @ '' torrent(s) with errors - Click for details''
        else (let uptime = (case uptime_sec of Some u \<Rightarrow> u div 60 | None \<Rightarrow> 0) in
          ''Daemon healthy - Uptime: '' @ show_int uptime @ '' minutes, '' @ show_nat ntorrents @ '' torrent(s)'')))"

definition globalStats :: "(string, torrent_status) jmap \<Rightarrow> int \<times> int" where
  "globalStats statuses =
     (sum_list (map (ts_up_rate_bps \<circ> snd) statuses), sum_list (map (ts_down_rate_bps \<circ> snd) statuses))"

subsection \<open>Scheduling\<close>

text \<open>
  A round is at its ping or loading; a round started by the scheduler also runs the
  scheduler's own \<open>finally\<close>, which clears the flag whatever the round did.
\<close>

definition MIN_REFRESH_INTERVAL_MS :: int where "MIN_REFRESH_INTERVAL_MS = 1000"

datatype phase = Pinging | Loading

record refresher =
  rf_isRefreshing :: bool
  rf_lastRefreshTime :: time
  rf_debounced :: "time option"
  rf_rounds :: "(phase \<times> bool) list"

definition refresher_init :: refresher where
  "refresher_init = \<lparr>rf_isRefreshing = False, rf_lastRefreshTime = 0, rf_debounced = None, rf_rounds = []\<rparr>"

datatype refresh_event =
    CallRefresh
  | Tick time
  | TimerFires time
  | PingDone nat bool
  | LoadDone nat

definition begin_round :: "bool \<Rightarrow> refresher \<Rightarrow> refresher" where
  "begin_round scheduled r = r\<lparr>rf_rounds := rf_rounds r @ [(Pinging, scheduled)]\<rparr>"

definition begin_scheduled :: "time \<Rightarrow> refresher \<Rightarrow> refresher" where
  "begin_scheduled now r = begin_round True (r\<lparr>rf_lastRefreshTime := now, rf_isRefreshing := True\<rparr>)"

definition scheduleRefresh :: "time \<Rightarrow> refresher \<Rightarrow> refresher" where
  "scheduleRefresh now r =
     (if rf_isRefreshing r then r
      else (let timeSinceLastRefresh = now - rf_lastRefreshTime r; r1 = r\<lparr>rf_debounced := None\<rparr> in
        if MIN_REFRESH_INTERVAL_MS \<le> timeSinceLastRefresh then begin_scheduled now r1
        else r1\<lparr>rf_debounced := Some (now + (MIN_REFRESH_INTERVAL_MS - timeSinceLastRefresh))\<rparr>))"

definition timer_fires :: "time \<Rightarrow> refresher \<Rightarrow> refresher" where
  "timer_fires now r = (case rf_debounced r of
     Some t \<Rightarrow> if t \<le> now then (begin_scheduled now r)\<lparr>rf_debounced := None\<rparr> else r
   | None \<Rightarrow> r)"

definition drop_nth :: "nat \<Rightarrow> 'a list \<Rightarrow> 'a list" where
  "drop_nth i xs = take i xs @ drop (Suc i) xs"

text \<open>The end of a round that returned early, and of one that loaded.\<close>

definition end_early :: "nat \<Rightarrow> bool \<Rightarrow> refresher \<Rightarrow> refresher" where
  "end_early i scheduled r =
     r\<lparr>rf_rounds := drop_nth i (rf_rounds r), rf_isRefreshing := (rf_isRefreshing r \<and> \<not> scheduled)\<rparr>"

definition ping_done :: "nat \<Rightarrow> bool \<Rightarrow> refresher \<Rightarrow> refresher" where
  "ping_done i ok r =
     (if i < length (rf_rounds r) then
        (case rf_rounds r ! i of
          (Pinging, scheduled) \<Rightarrow>
            if \<not> ok \<or> rf_isRefreshing r then end_early i scheduled r
            else r\<lparr>rf_isRefreshing := True, rf_rounds := (rf_rounds r)[i := (Loading, scheduled)]\<rparr>
        | (Loading, _) \<Rightarrow> r)
      else r)"

definition load_done :: "nat \<Rightarrow> refresher \<Rightarrow> refresher" where
  "load_done i r =
     (if i < length (rf_rounds r) then
        (case rf_rounds r ! i of
          (Loading, _) \<Rightarrow> r\<lparr>rf_rounds := drop_nth i (rf_rounds r), rf_isRefreshing := False\<rparr>
        | (Pinging, _) \<Rightarrow> r)
      else r)"

definition refresh_step :: "refresher \<Rightarrow> refresh_event \<Rightarrow> refresher" where
  "refresh_step r e = (case e of
     CallRefresh \<Rightarrow> begin_round False r
   | Tick now \<Rightarrow> scheduleRefresh now r
   | TimerFires now \<Rightarrow> timer_fires now r
   | PingDone i ok \<Rightarrow> ping_done i ok r
   | LoadDone i \<Rightarrow> load_done i r)"

abbreviation refresh_run :: "refresh_event list \<Rightarrow> refresher" where
  "refresh_run es \<equiv> foldl refresh_step refresher_init es"

definition loading :: "refresher \<Rightarrow> nat" where
  "loading r = length (filter (\<lambda>p. fst p = Loading) (rf_rounds r))"

subsection \<open>Which rounds load\<close>

lemma filter_drop_nth:
  "i < length xs \<Longrightarrow> length (filter P (drop_nth i xs)) = length (filter P xs) - (if P (xs ! i) then 1 else 0)"
  by (subst (2) id_take_nth_drop [of i xs]) (auto simp: drop_nth_def)

lemma filter_update:
  "i < length xs \<Longrightarrow> length (filter P (xs[i := y])) =
     length (filter P xs) - (if P (xs ! i) then 1 else 0) + (if P y then 1 else 0)"
  by (subst (2) id_take_nth_drop [of i xs]) (auto simp: upd_conv_take_nth_drop)

lemma set_drop_nth: "set (drop_nth i xs) \<subseteq> set xs"
  using set_take_subset [of i xs] set_drop_subset [of "Suc i" xs] by (auto simp: drop_nth_def)

lemma loading_pos: "i < length (rf_rounds r) \<Longrightarrow> fst (rf_rounds r ! i) = Loading \<Longrightarrow> 0 < loading r"
  unfolding loading_def by (rule length_pos_if_in_set [of "rf_rounds r ! i"]) simp

definition direct_event :: "refresh_event \<Rightarrow> bool" where
  "direct_event e \<longleftrightarrow> (case e of Tick _ \<Rightarrow> False | TimerFires _ \<Rightarrow> False | _ \<Rightarrow> True)"

definition scheduler_event :: "refresh_event \<Rightarrow> bool" where
  "scheduler_event e \<longleftrightarrow> e \<noteq> CallRefresh"

definition direct_inv :: "refresher \<Rightarrow> bool" where
  "direct_inv r \<longleftrightarrow> (\<forall>p \<in> set (rf_rounds r). \<not> snd p) \<and> loading r \<le> 1 \<and> (rf_isRefreshing r \<longleftrightarrow> loading r = 1)"

definition scheduler_inv :: "refresher \<Rightarrow> bool" where
  "scheduler_inv r \<longleftrightarrow> (rf_rounds r = [] \<and> \<not> rf_isRefreshing r) \<or>
     (rf_rounds r = [(Pinging, True)] \<and> rf_isRefreshing r \<and> rf_debounced r = None)"

lemma direct_step:
  assumes "direct_inv r" "direct_event e"
  shows "direct_inv (refresh_step r e)"
proof (cases e)
  case CallRefresh
  with assms show ?thesis
    by (simp add: refresh_step_def begin_round_def direct_inv_def loading_def)
next
  case (PingDone i ok)
  show ?thesis
  proof (cases "i < length (rf_rounds r) \<and> fst (rf_rounds r ! i) = Pinging")
    case True
    then obtain s where i: "i < length (rf_rounds r)" "rf_rounds r ! i = (Pinging, s)"
      by (metis prod.collapse)
    with assms have s: "\<not> s" by (force simp: direct_inv_def dest: nth_mem)
    have d: "direct_inv (end_early i s r)"
      using assms i s set_drop_nth [of i "rf_rounds r"]
      by (auto simp: direct_inv_def end_early_def loading_def filter_drop_nth)
    have u: "direct_inv (r\<lparr>rf_isRefreshing := True, rf_rounds := (rf_rounds r)[i := (Loading, s)]\<rparr>)"
      if "\<not> rf_isRefreshing r"
      using assms i s that set_update_subset_insert [of "rf_rounds r" i "(Loading, s)"]
      by (auto simp: direct_inv_def loading_def filter_update le_Suc_eq)
    show ?thesis
      using d u by (simp add: PingDone refresh_step_def ping_done_def i)
  next
    case False
    with assms show ?thesis
      by (auto simp: PingDone refresh_step_def ping_done_def split: prod.splits phase.splits)
  qed
next
  case (LoadDone i)
  show ?thesis
  proof (cases "i < length (rf_rounds r) \<and> fst (rf_rounds r ! i) = Loading")
    case True
    then obtain s where i: "i < length (rf_rounds r)" "rf_rounds r ! i = (Loading, s)"
      by (metis prod.collapse)
    have "loading r = 1"
      using assms(1) loading_pos [of i r] i by (simp add: direct_inv_def)
    then show ?thesis
      using assms i set_drop_nth [of i "rf_rounds r"]
      by (auto simp: LoadDone refresh_step_def load_done_def direct_inv_def loading_def filter_drop_nth)
  next
    case False
    with assms show ?thesis
      by (auto simp: LoadDone refresh_step_def load_done_def split: prod.splits phase.splits)
  qed
qed (use assms(2) in \<open>simp_all add: direct_event_def\<close>)

lemma scheduler_step:
  assumes "scheduler_inv r" "scheduler_event e"
  shows "scheduler_inv (refresh_step r e)"
  using assms
  by (cases e) (auto simp: scheduler_inv_def scheduler_event_def refresh_step_def scheduleRefresh_def
    begin_scheduled_def begin_round_def timer_fires_def ping_done_def load_done_def end_early_def
    drop_nth_def Let_def less_Suc_eq split: option.splits)

lemma run_keeps:
  assumes "\<And>r e. I r \<Longrightarrow> ok e \<Longrightarrow> I (refresh_step r e)" "I r" "\<forall>e \<in> set es. ok e"
  shows "I (foldl refresh_step r es)"
  using assms(2,3) by (induction es arbitrary: r) (auto intro: assms(1))

text \<open>
  Further fact: when refreshes are only called directly, at every moment at most one of them
  loads data, and the flag is set exactly while one does.
\<close>

theorem direct_refreshes_exclusive:
  assumes "\<forall>e \<in> set es. direct_event e"
  shows "loading (refresh_run es) \<le> 1 \<and> (rf_isRefreshing (refresh_run es) \<longleftrightarrow> loading (refresh_run es) = 1)"
proof -
  have "direct_inv refresher_init"
    by (simp add: direct_inv_def refresher_init_def loading_def)
  from run_keeps [of direct_inv direct_event, OF direct_step this assms]
  have "direct_inv (refresh_run es)" .
  then show ?thesis by (simp add: direct_inv_def)
qed

theorem direct_refreshes_exclusive_witness:
  "loading (refresh_run [CallRefresh, CallRefresh, PingDone 0 True, PingDone 1 True]) = 1"
proof -
  let ?es = "[CallRefresh, CallRefresh, PingDone 0 True, PingDone 1 True]"
  have "rf_isRefreshing (refresh_run ?es)"
    by (simp add: refresh_step_def begin_round_def refresher_init_def ping_done_def end_early_def drop_nth_def)
  then show ?thesis
    using direct_refreshes_exclusive [of ?es] by (simp add: direct_event_def)
qed

text \<open>
  Further fact: the periodic refresh never loads anything: with only the scheduler's ticks, its
  debounce timer and the rounds they start, no round ever gets past its ping, because the scheduler
  sets the flag before the round tests it.
\<close>

theorem scheduled_refresh_never_loads:
  assumes "\<forall>e \<in> set es. scheduler_event e"
  shows "loading (refresh_run es) = 0"
proof -
  have "scheduler_inv refresher_init"
    by (simp add: scheduler_inv_def refresher_init_def)
  from run_keeps [of scheduler_inv scheduler_event, OF scheduler_step this assms]
  have "scheduler_inv (refresh_run es)" .
  then show ?thesis by (auto simp: scheduler_inv_def loading_def)
qed

theorem scheduled_refresh_never_loads_witness:
  "loading (refresh_run [Tick 2000, PingDone 0 True, Tick 2500, TimerFires 3000, PingDone 0 True]) = 0 \<and>
   rf_lastRefreshTime (refresh_run [Tick 2000, PingDone 0 True, Tick 2500, TimerFires 3000]) = 3000"
  using scheduled_refresh_never_loads
    [of "[Tick 2000, PingDone 0 True, Tick 2500, TimerFires 3000, PingDone 0 True]"]
  by (simp add: scheduler_event_def refresh_step_def scheduleRefresh_def begin_scheduled_def begin_round_def
    timer_fires_def ping_done_def end_early_def drop_nth_def refresher_init_def MIN_REFRESH_INTERVAL_MS_def)

text \<open>
  Further fact: with both, the exclusion is broken: a scheduled round whose ping ends while a direct
  one loads clears the flag on its way out, and the next direct call loads beside the first.
\<close>

theorem scheduled_refresh_breaks_exclusion:
  "\<exists>es. loading (refresh_run es) = 2"
  by (rule exI [of _ "[Tick 500, CallRefresh, PingDone 0 True, TimerFires 1000, PingDone 1 True,
        CallRefresh, PingDone 1 True]"])
    (simp add: refresh_step_def scheduleRefresh_def begin_scheduled_def begin_round_def timer_fires_def
      ping_done_def end_early_def drop_nth_def refresher_init_def MIN_REFRESH_INTERVAL_MS_def loading_def)

subsection \<open>Completion notifications\<close>

definition is_completion :: "string \<Rightarrow> refresh_out \<Rightarrow> bool" where
  "is_completion tid o' = (case o' of NotifyComplete _ t \<Rightarrow> t = tid | _ \<Rightarrow> False)"

definition completions :: "string \<Rightarrow> refresh_out list \<Rightarrow> nat" where
  "completions tid outs = length (filter (is_completion tid) outs)"

lemma completions_simps [simp]:
  "completions tid [] = 0"
  "completions tid (xs @ ys) = completions tid xs + completions tid ys"
  "completions tid (NotifyComplete n t # xs) = (if t = tid then Suc (completions tid xs) else completions tid xs)"
  "completions tid (PushEvent e # xs) = completions tid xs"
  "completions tid (Toast k m # xs) = completions tid xs"
  "completions tid (NotifyKillSwitch # xs) = completions tid xs"
  by (simp_all add: completions_def is_completion_def)

lemma completions_transition [simp]: "completions tid (transition_event t n p st) = 0"
  by (simp add: transition_event_def Let_def)

lemma completions_posture [simp]: "completions tid (snd (check_posture np pt)) = 0"
  by (simp add: check_posture_def Let_def)

lemma completions_track_result:
  "completions tid (snd (track_result tr (t, st, n))) = (if t = tid \<and> completes tr tid st then 1 else 0)"
  by (auto simp: track_result_def Let_def split: option.splits)

lemma notified_track_result:
  "notifiedTorrents (fst (track_result tr (t, st, n))) =
     (if completes tr t st then insert t (notifiedTorrents tr) else notifiedTorrents tr)"
  by (simp add: track_result_def Let_def)

text \<open>A torrent is announced at most once, and then it is in the set of announced torrents.\<close>

lemma track_results_once:
  "completions tid (snd (track_results tr rs)) \<le> (if tid \<in> notifiedTorrents tr then 0 else 1) \<and>
   (0 < completions tid (snd (track_results tr rs)) \<or> tid \<in> notifiedTorrents tr
      \<longrightarrow> tid \<in> notifiedTorrents (fst (track_results tr rs)))"
proof (induction rs arbitrary: tr)
  case (Cons r rs)
  obtain t st n where r: "r = (t, st, n)" by (cases r)
  define tr1 where "tr1 = fst (track_result tr r)"
  have step: "fst (track_results tr (r # rs)) = fst (track_results tr1 rs)"
    "snd (track_results tr (r # rs)) = snd (track_result tr r) @ snd (track_results tr1 rs)"
    by (simp_all add: tr1_def split: prod.splits)
  have IH: "completions tid (snd (track_results tr1 rs)) \<le> (if tid \<in> notifiedTorrents tr1 then 0 else 1)"
    "0 < completions tid (snd (track_results tr1 rs)) \<or> tid \<in> notifiedTorrents tr1
      \<longrightarrow> tid \<in> notifiedTorrents (fst (track_results tr1 rs))"
    using Cons.IH [of tr1] by simp_all
  show ?case
  proof (cases "t = tid \<and> completes tr tid st")
    case True
    then have "tid \<in> notifiedTorrents tr1" "tid \<notin> notifiedTorrents tr"
      by (simp_all add: tr1_def r notified_track_result completes_def)
    with IH True show ?thesis
      unfolding step by (simp add: completions_track_result r)
  next
    case False
    then have "tid \<in> notifiedTorrents tr1 \<longleftrightarrow> tid \<in> notifiedTorrents tr"
      by (auto simp: tr1_def r notified_track_result)
    with IH False show ?thesis
      unfolding step by (auto simp: completions_track_result r split: if_splits)
  qed
qed simp

text \<open>What a round does to the tracker.\<close>

definition round_loads :: "refresh_io \<Rightarrow> (torrent list \<times> (string, torrent_status) jmap) option" where
  "round_loads io = (case (io_torrents io, io_statuses io, io_wallet io, io_overlay io, io_posture io) of
     (Inr ts, Inr fetched, Inr _, Inr _, Inr _) \<Rightarrow> Some (ts, fetched) | _ \<Rightarrow> None)"

lemma round_track:
  "completions tid (snd (refresh_round io d)) = (case round_loads io of
     Some (ts, f) \<Rightarrow> completions tid (snd (track_results (ad_track d) (status_results ts f))) | None \<Rightarrow> 0)"
  "ad_track (fst (refresh_round io d)) = (case round_loads io of
     Some (ts, f) \<Rightarrow> prune (t_id ` set ts) (fst (track_results (ad_track d) (status_results ts f)))
   | None \<Rightarrow> ad_track d)"
proof -
  have t: "completions tid (snd (refresh_tail io ts f np e)) =
      completions tid (snd (track_results (ad_track e) (status_results ts f)))"
    "ad_track (fst (refresh_tail io ts f np e)) =
      prune (t_id ` set ts) (fst (track_results (ad_track e) (status_results ts f)))" for ts f np e
    by (cases np; cases "io_vpn io"; cases "io_kill_switch io";
        simp add: refresh_tail_def Let_def split_beta)+
  show "completions tid (snd (refresh_round io d)) = (case round_loads io of
     Some (ts, f) \<Rightarrow> completions tid (snd (track_results (ad_track d) (status_results ts f))) | None \<Rightarrow> 0)"
    by (simp add: refresh_round_def round_loads_def t refresh_failed_def split: sum.split)
  show "ad_track (fst (refresh_round io d)) = (case round_loads io of
     Some (ts, f) \<Rightarrow> prune (t_id ` set ts) (fst (track_results (ad_track d) (status_results ts f)))
   | None \<Rightarrow> ad_track d)"
    by (simp add: refresh_round_def round_loads_def t split: sum.split)
qed

lemma completes_other:
  "t \<noteq> tid \<Longrightarrow> completes (fst (track_result tr (t, st, n))) tid st' = completes tr tid st'"
  by (auto simp: track_result_def completes_def jm_get_set Let_def)

lemma track_results_when:
  "distinct (map fst rs) \<Longrightarrow>
     0 < completions tid (snd (track_results tr rs)) \<longleftrightarrow> (\<exists>st n. (tid, st, n) \<in> set rs \<and> completes tr tid st)"
proof (induction rs arbitrary: tr)
  case (Cons r rs)
  obtain t st n where r: "r = (t, st, n)" by (cases r)
  define tr1 where "tr1 = fst (track_result tr r)"
  have s: "completions tid (snd (track_results tr (r # rs))) =
      (if t = tid \<and> completes tr tid st then 1 else 0) + completions tid (snd (track_results tr1 rs))"
    by (simp add: tr1_def r completions_track_result split_beta)
  have IH: "0 < completions tid (snd (track_results tr1 rs)) \<longleftrightarrow> (\<exists>st n. (tid, st, n) \<in> set rs \<and> completes tr1 tid st)"
    using Cons by simp
  show ?case
  proof (cases "t = tid")
    case True
    then have "\<forall>st n. (tid, st, n) \<notin> set rs"
      using Cons.prems r by (force simp: image_iff)
    with True IH show ?thesis unfolding s by (auto simp: r)
  next
    case False
    with IH show ?thesis
      unfolding s by (auto simp: r tr1_def completes_other)
  qed
qed simp

lemma in_status_results:
  "(tid, st, n) \<in> set (status_results ts f) \<longleftrightarrow>
     (tid, st) \<in> set f \<and> (\<exists>t. find_torrent ts tid = Some t \<and> n = t_name t)"
  by (force simp: status_results_def split: option.splits)

lemma distinct_status_results: "jm_ok f \<Longrightarrow> distinct (map fst (status_results ts f))"
proof (induction f)
  case (Cons p f)
  obtain tid st where p: "p = (tid, st)" by (cases p)
  have r: "status_results ts (p # f) = (case find_torrent ts tid of
      Some t \<Rightarrow> [(tid, st, t_name t)] | None \<Rightarrow> []) @ status_results ts f"
    by (simp add: status_results_def p)
  have "tid \<notin> fst ` set (status_results ts f)"
    using Cons.prems by (force simp: in_status_results jm_ok_def p)
  with Cons show ?case
    unfolding r by (auto simp: jm_ok_def split: option.splits)
qed (simp add: status_results_def)

definition lists_torrent :: "string \<Rightarrow> refresh_io \<Rightarrow> bool" where
  "lists_torrent tid io \<longleftrightarrow> (case io_torrents io of Inr ts \<Rightarrow> tid \<in> t_id ` set ts | Inl _ \<Rightarrow> True)"

lemma round_once:
  assumes "lists_torrent tid io"
  shows "completions tid (snd (refresh_round io d)) \<le> (if tid \<in> notifiedTorrents (ad_track d) then 0 else 1) \<and>
    (0 < completions tid (snd (refresh_round io d)) \<or> tid \<in> notifiedTorrents (ad_track d)
      \<longrightarrow> tid \<in> notifiedTorrents (ad_track (fst (refresh_round io d))))"
proof (cases "round_loads io")
  case None
  then show ?thesis by (simp add: round_track)
next
  case (Some p)
  obtain ts f where p: "p = (ts, f)" by (cases p)
  have "tid \<in> t_id ` set ts"
    using assms Some p by (auto simp: round_loads_def lists_torrent_def split: sum.splits)
  with track_results_once [of tid "ad_track d" "status_results ts f"] Some p show ?thesis
    by (auto simp: round_track prune_def)
qed

text \<open>
  Property C17: over any sequence of refreshes that keep listing a torrent its completion is
  announced at most once; and one refresh announces it exactly when everything loaded, the torrent
  was downloading at the last refresh, now seeds, and has not been announced.
\<close>

theorem completion_announced_once:
  assumes "\<forall>io \<in> set ios. lists_torrent tid io"
  shows "completions tid (snd (refresh_rounds d ios)) \<le> 1 \<and>
    (\<forall>ts f io. round_loads io = Some (ts, f) \<and> jm_ok f \<longrightarrow>
       (0 < completions tid (snd (refresh_round io d)) \<longleftrightarrow>
         tid \<in> t_id ` set ts \<and> tid \<notin> notifiedTorrents (ad_track d) \<and>
         jm_get (prevTorrentStates (ad_track d)) tid = Some Downloading \<and>
         (\<exists>st. (tid, st) \<in> set f \<and> ts_state st = Seeding)))"
proof
  have "completions tid (snd (refresh_rounds d ios)) \<le> (if tid \<in> notifiedTorrents (ad_track d) then 0 else 1)"
    using assms
  proof (induction ios arbitrary: d)
    case (Cons io ios)
    define d1 where "d1 = fst (refresh_round io d)"
    have s: "completions tid (snd (refresh_rounds d (io # ios))) =
        completions tid (snd (refresh_round io d)) + completions tid (snd (refresh_rounds d1 ios))"
      by (simp add: d1_def split_beta)
    have IH: "completions tid (snd (refresh_rounds d1 ios)) \<le> (if tid \<in> notifiedTorrents (ad_track d1) then 0 else 1)"
      using Cons by simp
    show ?case
      using IH round_once [of tid io d] Cons.prems unfolding s d1_def by (auto split: if_splits)
  qed simp
  then show "completions tid (snd (refresh_rounds d ios)) \<le> 1"
    by (simp split: if_splits)
  have f: "(\<exists>t. find_torrent ts tid = Some t) \<longleftrightarrow> tid \<in> t_id ` set ts" for ts
    by (auto simp: find_torrent_def find_None_iff image_iff simp flip: not_None_eq)
  show "\<forall>ts f io. round_loads io = Some (ts, f) \<and> jm_ok f \<longrightarrow>
       (0 < completions tid (snd (refresh_round io d)) \<longleftrightarrow>
         tid \<in> t_id ` set ts \<and> tid \<notin> notifiedTorrents (ad_track d) \<and>
         jm_get (prevTorrentStates (ad_track d)) tid = Some Downloading \<and>
         (\<exists>st. (tid, st) \<in> set f \<and> ts_state st = Seeding))"
    using f by (auto simp: round_track track_results_when distinct_status_results in_status_results completes_def)
qed

definition torrent_of :: "string \<Rightarrow> torrent" where
  "torrent_of tid = \<lparr>t_id = tid, t_name = ''n'', t_added_at_ms = 0, t_running = True, t_mode = ModeStandard,
     t_hops = 0, t_info_hash_hex = None, t_save_path = None\<rparr>"

definition status_in :: "string \<Rightarrow> torrent_state \<Rightarrow> torrent_status" where
  "status_in tid st = \<lparr>ts_id = tid, ts_state = st, ts_progress = 1, ts_down_rate_bps = 5, ts_up_rate_bps = 7,
     ts_eta_sec = 0, ts_total_bytes = 10, ts_downloaded_bytes = 10, ts_peers_seen = 1, ts_error = None\<rparr>"

definition io_of :: "(string \<times> torrent_state) list \<Rightarrow> refresh_io" where
  "io_of ts = \<lparr>io_torrents = Inr (map (torrent_of \<circ> fst) ts),
     io_statuses = Inr (map (\<lambda>(t, s). (t, status_in t s)) ts),
     io_wallet = Inr [], io_overlay = Inr [], io_posture = Inr None, io_vpn = Inl ThrownOther,
     io_kill_switch = Inl ThrownOther\<rparr>"

theorem completion_announced_once_witness:
  "completions ''a'' (snd (refresh_rounds app_init
     (map io_of [[(''a'', Downloading)], [(''a'', Seeding)], [(''a'', Downloading)], [(''a'', Seeding)]]))) = 1"
proof -
  let ?ios = "map io_of [[(''a'', Downloading)], [(''a'', Seeding)], [(''a'', Downloading)], [(''a'', Seeding)]]"
  have "completions ''a'' (snd (refresh_rounds app_init ?ios)) \<le> 1"
    using completion_announced_once [of ?ios "''a''" app_init]
    by (simp add: lists_torrent_def io_of_def torrent_of_def)
  moreover have "0 < completions ''a'' (snd (refresh_rounds app_init ?ios))"
    by (simp add: app_init_def io_of_def torrent_of_def status_in_def refresh_round_def refresh_tail_def
        status_results_def find_torrent_def track_result_def completes_def jm_get_def prune_def
        split: option.splits)
  ultimately show ?thesis by simp
qed

subsection \<open>Statuses of removed torrents\<close>

lemma merge_statuses_get:
  "jm_ok prev \<Longrightarrow> jm_get (merge_statuses fetched prev) tid =
     (case map_of (rev fetched) tid of Some st \<Rightarrow> Some st | None \<Rightarrow> jm_get prev tid)"
  unfolding merge_statuses_def by (rule jm.get_fold_put)

lemma merge_statuses_ok: "jm_ok prev \<Longrightarrow> jm_ok (merge_statuses fetched prev)"
  unfolding merge_statuses_def by (rule jm.ok_fold_put)

lemma refresh_tail_statuses [simp]: "ad_statuses (fst (refresh_tail io ts f np d)) = ad_statuses d"
  by (cases np; cases "io_vpn io"; cases "io_kill_switch io"; simp add: refresh_tail_def Let_def split_beta)

lemma round_statuses:
  "ad_statuses (fst (refresh_round io d)) = (case (io_torrents io, io_statuses io) of
     (Inr _, Inr f) \<Rightarrow> merge_statuses f (ad_statuses d) | _ \<Rightarrow> ad_statuses d)"
  by (simp add: refresh_round_def Let_def split: sum.split)

definition fetches_status :: "string \<Rightarrow> refresh_io \<Rightarrow> bool" where
  "fetches_status tid io \<longleftrightarrow> (case io_statuses io of Inr f \<Rightarrow> tid \<in> jm_keys f | Inl _ \<Rightarrow> False)"

lemma round_keeps_status:
  assumes "jm_ok (ad_statuses d)" "\<not> fetches_status tid io"
  shows "jm_ok (ad_statuses (fst (refresh_round io d))) \<and>
    jm_get (ad_statuses (fst (refresh_round io d))) tid = jm_get (ad_statuses d) tid"
proof (cases "\<exists>ts f. io_torrents io = Inr ts \<and> io_statuses io = Inr f")
  case True
  then obtain ts f where f: "io_torrents io = Inr ts" "io_statuses io = Inr f" by blast
  then have "map_of (rev f) tid = None"
    using assms(2) by (simp add: fetches_status_def jm_keys_def map_of_eq_None_iff)
  with f assms(1) show ?thesis
    by (simp add: round_statuses merge_statuses_get merge_statuses_ok)
next
  case False
  then show ?thesis
    using assms by (auto simp: round_statuses split: sum.split)
qed

text \<open>
  Further fact: the status of a torrent that is no longer fetched, for instance because it was
  removed, is never dropped: after any number of refreshes it is still in the map, and if it was an
  error the daemon is reported unhealthy for as long as it is online.
\<close>

theorem removed_error_status_stays:
  assumes "jm_ok (ad_statuses d)" and "jm_get (ad_statuses d) tid = Some st" and "ts_state st = ErrorState"
    and "\<forall>io \<in> set ios. \<not> fetches_status tid io"
  shows "jm_get (ad_statuses (fst (refresh_rounds d ios))) tid = Some st \<and>
    daemonHealthState True (ad_statuses (fst (refresh_rounds d ios))) = HealthError"
proof -
  have k: "jm_get (ad_statuses (fst (refresh_rounds d ios))) tid = Some st"
    using assms(1,2,4)
  proof (induction ios arbitrary: d)
    case (Cons io ios)
    then show ?case
      using round_keeps_status [of d tid io] Cons.IH [of "fst (refresh_round io d)"] by (simp add: split_beta)
  qed simp
  then have "(tid, st) \<in> set (ad_statuses (fst (refresh_rounds d ios)))"
    by (rule jm_get_in)
  then have "\<exists>s \<in> snd ` set (ad_statuses (fst (refresh_rounds d ios))). ts_state s = ErrorState"
    using assms(3) by force
  with k show ?thesis by (simp add: daemonHealthState_def)
qed

theorem removed_error_status_stays_witness:
  "ad_torrents (fst (refresh_rounds app_init [io_of [(''a'', ErrorState)], io_of []])) = [] \<and>
   daemonHealthState True (ad_statuses (fst (refresh_rounds app_init [io_of [(''a'', ErrorState)], io_of []])))
     = HealthError"
proof -
  define d where "d = fst (refresh_round (io_of [(''a'', ErrorState)]) app_init)"
  have d: "ad_statuses d = [(''a'', status_in ''a'' ErrorState)]"
    unfolding d_def round_statuses by (simp add: io_of_def merge_statuses_def app_init_def)
  have r: "fst (refresh_rounds app_init [io_of [(''a'', ErrorState)], io_of []]) =
      fst (refresh_rounds d [io_of []])"
    by (simp add: d_def split_beta)
  have "daemonHealthState True (ad_statuses (fst (refresh_rounds d [io_of []]))) = HealthError"
    using removed_error_status_stays [of d "''a''" "status_in ''a'' ErrorState" "[io_of []]"]
    by (simp add: d jm_get_def jm_ok_def status_in_def fetches_status_def io_of_def jm_keys_def)
  moreover have "ad_torrents (fst (refresh_rounds d [io_of []])) = []"
    by (simp add: refresh_round_def io_of_def refresh_tail_def Let_def split_beta)
  ultimately show ?thesis by (simp only: r simp_thms)
qed

end
