(* ===== verification/AppView.thy ===== *)
theory AppView
  imports Errors Types Vpn
begin

text \<open>
  The torrent list of the main page (\<open>renderer/ui/App.tsx\<close>) and what it does on request: the
  search, status and smart-view filters, the counts of active and paused torrents, the bulk
  operations (also in \<open>renderer/utils/useTorrentOperations.ts\<close>), pausing and resuming everything,
  and the effect that resumes stopped torrents when the daemon comes online.

  The effect of an operation is the list of what it does, in order. \<open>post\<close> is what the request
  of a path settles to; of several rejections \<open>Promise.all\<close> reports one, here the first of the list.
\<close>

subsection \<open>Filters\<close>

datatype status_filter =
    FilterAll | FilterDownloading | FilterSeeding | FilterCompleted | FilterChecking | FilterPaused | FilterError

datatype smart_view = HighRisk | PrivateMode | VpnRequired | LowHealth | Stalled

definition matches_search :: "string \<Rightarrow> torrent \<Rightarrow> bool" where
  "matches_search query t \<longleftrightarrow>
     js_includes (js_lower (t_name t)) query \<or> js_includes (js_lower (t_id t)) query"

definition matches_status :: "status_filter \<Rightarrow> torrent_status option \<Rightarrow> bool" where
  "matches_status f status = (case status of
     None \<Rightarrow> f = FilterPaused
   | Some s \<Rightarrow> (case f of
       FilterDownloading \<Rightarrow> ts_state s = Downloading
     | FilterSeeding \<Rightarrow> ts_state s = Seeding
     | FilterCompleted \<Rightarrow> ts_state s = Seeding \<and> 1 \<le> ts_progress s
     | FilterChecking \<Rightarrow> ts_state s = Checking
     | FilterPaused \<Rightarrow> ts_state s = Stopped
     | FilterError \<Rightarrow> ts_state s = ErrorState
     | FilterAll \<Rightarrow> True))"

text \<open>The health score, as a fraction.\<close>

definition health_score :: "torrent_status \<Rightarrow> rat" where
  "health_score s =
     ts_progress s * (1/2) + (if 0 < ts_peers_seen s then 3/10 else 0) +
     (if ts_state s = Seeding then 2/10
      else if ts_state s = Downloading \<and> 0 < ts_down_rate_bps s then 1/10 else 0)"

definition matches_view :: "smart_view \<Rightarrow> torrent \<Rightarrow> torrent_status option \<Rightarrow> bool" where
  "matches_view v t status = (case v of
     HighRisk \<Rightarrow> (case status of None \<Rightarrow> False | Some s \<Rightarrow> ts_state s = ErrorState \<or> health_score s < 1/2)
   | PrivateMode \<Rightarrow> t_mode t = ModePrivate \<or> t_mode t = ModeAnonymous
   | VpnRequired \<Rightarrow> t_mode t = ModePrivate \<or> t_mode t = ModeAnonymous
   | LowHealth \<Rightarrow> (case status of None \<Rightarrow> False | Some s \<Rightarrow> health_score s < 1/2)
   | Stalled \<Rightarrow> (case status of None \<Rightarrow> False
       | Some s \<Rightarrow> ts_progress s = 0 \<and> ts_peers_seen s = 0 \<and> ts_state s \<noteq> Seeding \<and> ts_down_rate_bps s = 0))"

definition filteredTorrents ::
    "torrent list \<Rightarrow> (string, torrent_status) jmap \<Rightarrow> string \<Rightarrow> status_filter \<Rightarrow> smart_view option \<Rightarrow> torrent list" where
  "filteredTorrents torrents statuses query statusFilter smartView =
     (let f1 = (if js_trim query \<noteq> [] then filter (matches_search (js_lower query)) torrents else torrents);
          f2 = (if statusFilter \<noteq> FilterAll
                then filter (\<lambda>t. matches_status statusFilter (jm_get statuses (t_id t))) f1 else f1) in
      case smartView of
        None \<Rightarrow> f2
      | Some v \<Rightarrow> filter (\<lambda>t. matches_view v t (jm_get statuses (t_id t))) f2)"

subsection \<open>Bulk operations\<close>

definition stopped_ids :: "torrent list \<Rightarrow> (string, torrent_status) jmap \<Rightarrow> string list" where
  "stopped_ids torrents statuses =
     map t_id (filter (\<lambda>t. case jm_get statuses (t_id t) of
                            None \<Rightarrow> False | Some s \<Rightarrow> ts_state s = Stopped) torrents)"

definition activeTorrentCount :: "torrent list \<Rightarrow> (string, torrent_status) jmap \<Rightarrow> nat" where
  "activeTorrentCount torrents statuses =
     length (filter (\<lambda>t. case jm_get statuses (t_id t) of None \<Rightarrow> False | Some s \<Rightarrow> is_active s) torrents)"

definition pausedTorrentCount :: "torrent list \<Rightarrow> (string, torrent_status) jmap \<Rightarrow> nat" where
  "pausedTorrentCount torrents statuses =
     length (filter (\<lambda>t. case jm_get statuses (t_id t) of
                           None \<Rightarrow> False | Some s \<Rightarrow> ts_state s = Stopped) torrents)"

datatype op_out =
    Loading string bool
  | Post string
  | ToastInfo string
  | ToastError string
  | Refresh

definition torrent_path :: "string \<Rightarrow> string \<Rightarrow> string" where
  "torrent_path verb tid = ''/torrents/'' @ tid @ ''/'' @ verb"

definition bulk_op ::
    "(string \<Rightarrow> thrown + unit) \<Rightarrow> string \<Rightarrow> string \<Rightarrow> string \<Rightarrow> string \<Rightarrow> string list \<Rightarrow> op_out list" where
  "bulk_op post opId verb success failure ids =
     [Loading opId True] @ map (Post \<circ> torrent_path verb) ids @
     (case all_ok (map (post \<circ> torrent_path verb) ids) of
        Inr _ \<Rightarrow> [ToastInfo (success @ show_nat (length ids) @ '' torrent(s)''), Refresh]
      | Inl e \<Rightarrow> [ToastError (getErrorMessage e failure)]) @
     [Loading opId False]"

definition handleBulkStart :: "(string \<Rightarrow> thrown + unit) \<Rightarrow> bool \<Rightarrow> string list \<Rightarrow> op_out list" where
  "handleBulkStart post online ids =
     (if \<not> online \<or> ids = [] then []
      else bulk_op post ''start'' ''start'' ''Started '' ''Failed to start torrent(s)'' ids)"

definition handleBulkStop :: "(string \<Rightarrow> thrown + unit) \<Rightarrow> bool \<Rightarrow> string list \<Rightarrow> op_out list" where
  "handleBulkStop post online ids =
     (if \<not> online \<or> ids = [] then []
      else bulk_op post ''stop'' ''stop'' ''Stopped '' ''Failed to stop torrent(s)'' ids)"

definition handleBulkPause :: "(string \<Rightarrow> thrown + unit) \<Rightarrow> bool \<Rightarrow> string list \<Rightarrow> op_out list" where
  "handleBulkPause post online ids = handleBulkStop post online ids"

definition handleBulkRemove :: "(string \<Rightarrow> thrown + unit) \<Rightarrow> bool \<Rightarrow> string list \<Rightarrow> op_out list" where
  "handleBulkRemove post online ids =
     (if \<not> online \<or> ids = [] then []
      else bulk_op post ''remove'' ''remove'' ''Removed '' ''Failed to remove torrent(s)'' ids)"

text \<open>The hook asks before removing, unless told not to, and has two more operations.\<close>

definition hook_bulk_remove ::
    "(string \<Rightarrow> thrown + unit) \<Rightarrow> bool \<Rightarrow> string list \<Rightarrow> bool \<Rightarrow> bool \<Rightarrow> op_out list" where
  "hook_bulk_remove post online ids confirmFirst confirmed =
     (if \<not> online \<or> ids = [] \<or> (confirmFirst \<and> \<not> confirmed) then []
      else bulk_op post ''remove'' ''remove'' ''Removed '' ''Failed to remove torrent(s)'' ids)"

definition handleForceRecheck :: "(string \<Rightarrow> thrown + unit) \<Rightarrow> bool \<Rightarrow> string list \<Rightarrow> op_out list" where
  "handleForceRecheck post online ids =
     (if \<not> online \<or> ids = [] then [ToastInfo ''Select torrent(s) to force recheck'']
      else bulk_op post ''recheck'' ''recheck'' ''Force recheck initiated for '' ''Failed to force recheck'' ids)"

definition handleForceAnnounce :: "(string \<Rightarrow> thrown + unit) \<Rightarrow> bool \<Rightarrow> string list \<Rightarrow> op_out list" where
  "handleForceAnnounce post online ids =
     (if \<not> online \<or> ids = [] then [ToastInfo ''Select torrent(s) to force announce'']
      else bulk_op post ''announce'' ''announce'' ''Force announce initiated for '' ''Failed to force announce'' ids)"

definition handlePauseAll ::
    "(string \<Rightarrow> thrown + unit) \<Rightarrow> bool \<Rightarrow> torrent list \<Rightarrow> (string, torrent_status) jmap \<Rightarrow> op_out list" where
  "handlePauseAll post online torrents statuses =
     (if \<not> online \<or> activeTorrentCount torrents statuses = 0 then []
      else (let activeIds = running_ids torrents statuses in
        if activeIds \<noteq> [] then
          handleBulkStop post online activeIds @
          [ToastInfo (''Paused all '' @ show_nat (length activeIds) @ '' active torrent(s)'')]
        else []))"

definition handleResumeAll ::
    "(string \<Rightarrow> thrown + unit) \<Rightarrow> bool \<Rightarrow> torrent list \<Rightarrow> (string, torrent_status) jmap \<Rightarrow> op_out list" where
  "handleResumeAll post online torrents statuses =
     (if \<not> online \<or> pausedTorrentCount torrents statuses = 0 then []
      else (let pausedIds = stopped_ids torrents statuses in
        if pausedIds \<noteq> [] then
          handleBulkStart post online pausedIds @
          [ToastInfo (''Resumed all '' @ show_nat (length pausedIds) @ '' paused torrent(s)'')]
        else []))"

subsection \<open>Resuming when the daemon comes online\<close>

record resume_refs =
  wasOnline :: bool
  hasAutoResumed :: bool

definition resume_init :: resume_refs where
  "resume_init = \<lparr>wasOnline = False, hasAutoResumed = False\<rparr>"

record resume_inputs =
  ri_online :: bool
  ri_killSwitch :: "kill_switch_config option"
  ri_vpnStatus :: "vpn_status option"
  ri_torrents :: "torrent list"
  ri_statuses :: "(string, torrent_status) jmap"

definition resume_posts :: "(string \<Rightarrow> thrown + unit) \<Rightarrow> string list \<Rightarrow> op_out list" where
  "resume_posts post ids =
     map (Post \<circ> torrent_path ''start'') ids @
     (case all_ok (map (post \<circ> torrent_path ''start'') ids) of
        Inr _ \<Rightarrow> [ToastInfo (if length ids = 1 then ''Resumed 1 torrent automatically''
                    else ''Resumed '' @ show_nat (length ids) @ '' torrents automatically''), Refresh]
      | Inl _ \<Rightarrow> [])"

definition auto_resume_effect ::
    "(string \<Rightarrow> thrown + unit) \<Rightarrow> resume_inputs \<Rightarrow> resume_refs \<Rightarrow> resume_refs \<times> op_out list" where
  "auto_resume_effect post ri refs =
     (let justCameOnline = ri_online ri \<and> \<not> wasOnline refs;
          r1 = refs\<lparr>wasOnline := ri_online ri\<rparr> in
      if \<not> justCameOnline \<or> hasAutoResumed refs then (r1, [])
      else (case ri_killSwitch ri of
        None \<Rightarrow> (r1, [])
      | Some ks \<Rightarrow>
          (let engaged = ks_enabled ks \<and> (ks_enforcement_state ks = KsEngaged \<or> ks_enforcement_state ks = KsArmed);
               detected = (case ri_vpnStatus ri of Some v \<Rightarrow> vs_detected v = Some True | None \<Rightarrow> False);
               vpnRequired = ks_enabled ks \<and> \<not> detected in
           if engaged \<or> vpnRequired then
             (r1\<lparr>hasAutoResumed := True\<rparr>,
              if vpnRequired then
                [ToastInfo ''Torrents paused: VPN required but not connected (kill switch active)''] else [])
           else
             (let ids = stopped_ids (ri_torrents ri) (ri_statuses ri) in
              (r1\<lparr>hasAutoResumed := True\<rparr>, if ids \<noteq> [] then resume_posts post ids else [])))))"

fun auto_resume_run ::
    "(string \<Rightarrow> thrown + unit) \<Rightarrow> resume_refs \<Rightarrow> resume_inputs list \<Rightarrow> resume_refs \<times> op_out list" where
  "auto_resume_run post refs [] = (refs, [])"
| "auto_resume_run post refs (ri # ris) =
     (let (r1, o1) = auto_resume_effect post ri refs; (r2, o2) = auto_resume_run post r1 ris in (r2, o1 @ o2))"

subsection \<open>Lemmas\<close>

lemma filteredTorrents_eq:
  "filteredTorrents torrents statuses query f v =
     filter (\<lambda>t. (js_trim query = [] \<or> matches_search (js_lower query) t) \<and>
                 (f = FilterAll \<or> matches_status f (jm_get statuses (t_id t))) \<and>
                 (case v of None \<Rightarrow> True | Some w \<Rightarrow> matches_view w t (jm_get statuses (t_id t)))) torrents"
  by (cases "js_trim query = []"; cases "f = FilterAll"; cases v)
    (simp_all add: filteredTorrents_def Let_def conj_commute conj_left_commute cong: filter_cong)

lemma posts_bulk: "Post p \<in> set (bulk_op post opId verb s f ids) \<longleftrightarrow> p \<in> torrent_path verb ` set ids"
  by (auto simp: bulk_op_def split: sum.split)

lemma active_count: "activeTorrentCount ts sts = length (running_ids ts sts)"
  by (simp add: activeTorrentCount_def running_ids_def)

lemma paused_count: "pausedTorrentCount ts sts = length (stopped_ids ts sts)"
  by (simp add: pausedTorrentCount_def stopped_ids_def)

lemma running_not_stopped:
  "x \<in> set (running_ids ts sts) \<Longrightarrow> x \<notin> set (stopped_ids ts sts)"
  by (force simp: running_ids_def stopped_ids_def is_active_def split: option.splits)

text \<open>Each torrent contributes to at most one of the two counts.\<close>

lemma counts_le: "activeTorrentCount ts sts + pausedTorrentCount ts sts \<le> length ts"
  by (induction ts) (auto simp: activeTorrentCount_def pausedTorrentCount_def is_active_def split: option.splits)

lemma handlePauseAll_eq:
  "handlePauseAll post online ts sts =
     (if \<not> online \<or> running_ids ts sts = [] then []
      else bulk_op post ''stop'' ''stop'' ''Stopped '' ''Failed to stop torrent(s)'' (running_ids ts sts) @
        [ToastInfo (''Paused all '' @ show_nat (length (running_ids ts sts)) @ '' active torrent(s)'')])"
  by (simp add: handlePauseAll_def active_count handleBulkStop_def Let_def)

lemma handleResumeAll_eq:
  "handleResumeAll post online ts sts =
     (if \<not> online \<or> stopped_ids ts sts = [] then []
      else bulk_op post ''start'' ''start'' ''Started '' ''Failed to start torrent(s)'' (stopped_ids ts sts) @
        [ToastInfo (''Resumed all '' @ show_nat (length (stopped_ids ts sts)) @ '' paused torrent(s)'')])"
  by (simp add: handleResumeAll_def paused_count handleBulkStart_def Let_def)

subsection \<open>Properties\<close>

text \<open>
  Further fact: pausing everything asks to stop exactly the torrents that download or seed,
  resuming everything to start exactly the stopped ones, no torrent is asked both, and both end by
  reporting success for all of them whether or not the requests succeeded.
\<close>

theorem pause_and_resume_all:
  "(\<forall>p. Post p \<in> set (handlePauseAll post online ts sts) \<longleftrightarrow>
       online \<and> p \<in> torrent_path ''stop'' ` set (running_ids ts sts)) \<and>
   (\<forall>p. Post p \<in> set (handleResumeAll post online ts sts) \<longleftrightarrow>
       online \<and> p \<in> torrent_path ''start'' ` set (stopped_ids ts sts)) \<and>
   set (running_ids ts sts) \<inter> set (stopped_ids ts sts) = {} \<and>
   activeTorrentCount ts sts + pausedTorrentCount ts sts \<le> length ts \<and>
   (handlePauseAll post online ts sts = [] \<or>
      last (handlePauseAll post online ts sts) =
        ToastInfo (''Paused all '' @ show_nat (activeTorrentCount ts sts) @ '' active torrent(s)'')) \<and>
   (handleResumeAll post online ts sts = [] \<or>
      last (handleResumeAll post online ts sts) =
        ToastInfo (''Resumed all '' @ show_nat (pausedTorrentCount ts sts) @ '' paused torrent(s)''))"
  using running_not_stopped [of _ ts sts] counts_le [of ts sts]
  by (auto simp: handlePauseAll_eq handleResumeAll_eq posts_bulk active_count paused_count)

text \<open>
  Further fact: the list shows, in their order, exactly the torrents that match the search, the
  status filter and the smart view; a torrent without a status counts as paused, and every torrent
  of low health is also of high risk.
\<close>

theorem shown_torrents:
  "filteredTorrents ts sts query f v =
     filter (\<lambda>t. (js_trim query = [] \<or> matches_search (js_lower query) t) \<and>
                 (f = FilterAll \<or> matches_status f (jm_get sts (t_id t))) \<and>
                 (case v of None \<Rightarrow> True | Some w \<Rightarrow> matches_view w t (jm_get sts (t_id t)))) ts \<and>
   (matches_status f None \<longleftrightarrow> f = FilterPaused) \<and>
   set (filteredTorrents ts sts query f (Some LowHealth)) \<subseteq> set (filteredTorrents ts sts query f (Some HighRisk))"
  unfolding filteredTorrents_eq
  by (auto simp: matches_status_def matches_view_def split: option.splits)

definition resume_allowed :: "resume_inputs \<Rightarrow> bool" where
  "resume_allowed ri \<longleftrightarrow> ri_online ri \<and> (case ri_killSwitch ri of
     None \<Rightarrow> False
   | Some ks \<Rightarrow> \<not> ks_enabled ks \<or>
       (ks_enforcement_state ks \<noteq> KsEngaged \<and> ks_enforcement_state ks \<noteq> KsArmed \<and>
        (case ri_vpnStatus ri of Some v \<Rightarrow> vs_detected v = Some True | None \<Rightarrow> False)))"

lemma effect_posts:
  "Post p \<in> set (snd (auto_resume_effect post ri refs)) \<longleftrightarrow>
     resume_allowed ri \<and> \<not> wasOnline refs \<and> \<not> hasAutoResumed refs \<and>
     p \<in> torrent_path ''start'' ` set (stopped_ids (ri_torrents ri) (ri_statuses ri))"
proof -
  have r: "Post p \<in> set (resume_posts post ids) \<longleftrightarrow> p \<in> torrent_path ''start'' ` set ids"
    for ids by (auto simp: resume_posts_def split: sum.split)
  show ?thesis
    by (cases "ri_killSwitch ri"; cases "ri_online ri \<and> \<not> wasOnline refs \<and> \<not> hasAutoResumed refs")
      (auto simp: auto_resume_effect_def Let_def resume_allowed_def r split: option.splits)
qed

lemma effect_refs:
  "wasOnline (fst (auto_resume_effect post ri refs)) = ri_online ri"
  "hasAutoResumed refs \<Longrightarrow> hasAutoResumed (fst (auto_resume_effect post ri refs))"
  by (auto simp: auto_resume_effect_def Let_def split: option.splits)

lemma effect_posts_once:
  "Post p \<in> set (snd (auto_resume_effect post ri refs)) \<Longrightarrow> hasAutoResumed (fst (auto_resume_effect post ri refs))"
  by (cases "ri_killSwitch ri") (auto simp: auto_resume_effect_def Let_def split: if_splits)

lemma auto_resume_run_Cons:
  "snd (auto_resume_run post refs (ri # ris)) = snd (auto_resume_effect post ri refs) @
     snd (auto_resume_run post (fst (auto_resume_effect post ri refs)) ris)"
  by (simp add: split_beta)

lemma resumed_no_posts: "hasAutoResumed refs \<Longrightarrow> Post p \<notin> set (snd (auto_resume_run post refs ris))"
proof (induction ris arbitrary: refs)
  case (Cons ri ris)
  then show ?case
    using effect_refs(2) [of refs post ri] by (simp del: auto_resume_run.simps add: auto_resume_run_Cons effect_posts)
qed simp

lemma run_posts_one:
  "Post p0 \<in> set (snd (auto_resume_run post refs ris)) \<Longrightarrow>
     \<exists>ri \<in> set ris. resume_allowed ri \<and>
       (\<forall>p. Post p \<in> set (snd (auto_resume_run post refs ris)) \<longleftrightarrow>
          p \<in> torrent_path ''start'' ` set (stopped_ids (ri_torrents ri) (ri_statuses ri)))"
proof (induction ris arbitrary: refs)
  case (Cons ri ris)
  define r1 where "r1 = fst (auto_resume_effect post ri refs)"
  have s: "snd (auto_resume_run post refs (ri # ris)) =
      snd (auto_resume_effect post ri refs) @ snd (auto_resume_run post r1 ris)"
    by (simp only: auto_resume_run_Cons r1_def)
  show ?case
  proof (cases "\<exists>q. Post q \<in> set (snd (auto_resume_effect post ri refs))")
    case True
    then obtain q where q: "Post q \<in> set (snd (auto_resume_effect post ri refs))" by blast
    then have "\<forall>p. Post p \<notin> set (snd (auto_resume_run post r1 ris))"
      using effect_posts_once resumed_no_posts unfolding r1_def by blast
    with q show ?thesis
      unfolding s by (auto simp: effect_posts)
  next
    case False
    with Cons.prems have "Post p0 \<in> set (snd (auto_resume_run post r1 ris))"
      unfolding s by auto
    from Cons.IH [OF this] False show ?thesis
      unfolding s by auto
  qed
qed simp

text \<open>
  Further fact: in any session torrents are resumed automatically at most at one moment: every start
  request of a run comes from one evaluation of the effect, one that saw the daemon online, a known
  kill switch that is neither engaged nor armed, and a VPN if it is enabled, and the requests are
  exactly for the torrents then stopped.
\<close>

theorem auto_resume_once:
  assumes "Post p0 \<in> set (snd (auto_resume_run post resume_init ris))"
  shows "\<exists>ri \<in> set ris. resume_allowed ri \<and>
    (\<forall>p. Post p \<in> set (snd (auto_resume_run post resume_init ris)) \<longleftrightarrow>
       p \<in> torrent_path ''start'' ` set (stopped_ids (ri_torrents ri) (ri_statuses ri)))"
  using run_posts_one [OF assms] .

definition sample_resume :: "bool \<Rightarrow> bool \<Rightarrow> resume_inputs" where
  "sample_resume online known = \<lparr>ri_online = online,
     ri_killSwitch = (if known then Some \<lparr>ks_enabled = False, ks_scope = TorrentOnly,
       ks_vpn_source = \<lparr>vsrc_auto_detect = True, vsrc_allowed_adapters = []\<rparr>, ks_grace_period_sec = 0,
       ks_triggers = \<lparr>kt_pause_all_torrents = True, kt_stop_seeding = True, kt_disable_dht_pex_lpd = False,
         kt_block_outbound = False\<rparr>, ks_enforcement_state = KsDisarmed, ks_last_enforcement_ms = None\<rparr> else None),
     ri_vpnStatus = None,
     ri_torrents = [\<lparr>t_id = ''a'', t_name = ''n'', t_added_at_ms = 0, t_running = False, t_mode = ModeStandard,
       t_hops = 0, t_info_hash_hex = None, t_save_path = None\<rparr>],
     ri_statuses = [(''a'', \<lparr>ts_id = ''a'', ts_state = Stopped, ts_progress = 0, ts_down_rate_bps = 0,
       ts_up_rate_bps = 0, ts_eta_sec = 0, ts_total_bytes = 0, ts_downloaded_bytes = 0, ts_peers_seen = 0,
       ts_error = None\<rparr>)]\<rparr>"

lemma sample_resume_stopped: "stopped_ids (ri_torrents (sample_resume b k)) (ri_statuses (sample_resume b k)) = [''a'']"
  by (simp add: sample_resume_def stopped_ids_def jm_get_def)

theorem auto_resume_once_witness:
  "\<forall>p. Post p \<in> set (snd (auto_resume_run (\<lambda>_. Inr ()) resume_init [sample_resume False True, sample_resume True True]))
     \<longleftrightarrow> p = ''/torrents/a/start''"
proof -
  let ?ris = "[sample_resume False True, sample_resume True True]"
  have p: "Post ''/torrents/a/start'' \<in> set (snd (auto_resume_run (\<lambda>_. Inr ()) resume_init ?ris))"
    unfolding auto_resume_run_Cons set_append Un_iff effect_posts
    using effect_refs(1) [of "\<lambda>_. Inr ()" "sample_resume False True" resume_init]
    by (simp add: sample_resume_stopped torrent_path_def)
      (simp add: sample_resume_def resume_allowed_def auto_resume_effect_def resume_init_def)
  from auto_resume_once [OF p] show ?thesis
    by (auto simp: sample_resume_stopped torrent_path_def)
qed

text \<open>
  Further fact: if the kill switch is not yet known when the daemon is first seen online, as at the
  start of the application, nothing is ever resumed for as long as the daemon stays online: only the
  first evaluation counts as coming online.
\<close>

theorem auto_resume_misses_start:
  assumes "ri_killSwitch ri = None" and "\<forall>r \<in> set (ri # ris). ri_online r"
  shows "snd (auto_resume_run post resume_init (ri # ris)) = []"
proof -
  have q: "wasOnline refs \<Longrightarrow> \<forall>r \<in> set rs. ri_online r \<Longrightarrow> snd (auto_resume_run post refs rs) = []" for refs rs
  proof (induction rs arbitrary: refs)
    case (Cons r rs)
    have "auto_resume_effect post r refs = (refs\<lparr>wasOnline := True\<rparr>, [])"
      using Cons.prems by (simp add: auto_resume_effect_def)
    with Cons show ?case by (simp del: auto_resume_run.simps add: auto_resume_run_Cons)
  qed simp
  have "auto_resume_effect post ri resume_init = (resume_init\<lparr>wasOnline := True\<rparr>, [])"
    using assms by (simp add: auto_resume_effect_def resume_init_def)
  with q [of "resume_init\<lparr>wasOnline := True\<rparr>" ris] assms(2) show ?thesis
    by (simp del: auto_resume_run.simps add: auto_resume_run_Cons)
qed

theorem auto_resume_misses_start_witness:
  "snd (auto_resume_run (\<lambda>_. Inr ()) resume_init [sample_resume True False, sample_resume True True]) = [] \<and>
   stopped_ids (ri_torrents (sample_resume True True)) (ri_statuses (sample_resume True True)) = [''a'']"
  using auto_resume_misses_start [of "sample_resume True False" "[sample_resume True True]" "\<lambda>_. Inr ()"]
  by (simp add: sample_resume_stopped) (simp add: sample_resume_def)

end
