(* ===== verification/OpenFiles.thy ===== *)
theory OpenFiles
  imports Prelude "HOL-Library.Multiset"
begin

text \<open>
  Magnet links and torrent files handed over by the operating system (\<open>main/main.ts\<close>): the
  command-line scan, the normalisation of a Windows path, reading the file, and delivery to the
  page, directly or through the two pending slots, the retry timer and the first
  \<open>ready-to-show\<close> of the window.

  \<open>path.resolve\<close> and \<open>path.basename\<close> depend on the platform and the working directory and are
  parameters. Dialogs are a title and the part of their text that varies.
\<close>

subsection \<open>Paths and arguments\<close>

abbreviation bs :: char where "bs \<equiv> CHR 0x5C"

definition quoted_by :: "char \<Rightarrow> string \<Rightarrow> bool" where
  "quoted_by q s \<longleftrightarrow> starts_with s [q] \<and> ends_with s [q]"

text \<open>\<open>s.replace(/a/g, b)\<close> for single characters.\<close>

definition replace_char :: "char \<Rightarrow> char \<Rightarrow> string \<Rightarrow> string" where
  "replace_char a b s = map (\<lambda>c. if c = a then b else c) s"

text \<open>\<open>resolve\<close> is None when \<open>path.resolve\<close> throws; \<open>sep\<close> is \<open>path.sep\<close>.\<close>

definition normalizeTorrentFilePath :: "(string \<Rightarrow> string option) \<Rightarrow> char \<Rightarrow> string \<Rightarrow> string" where
  "normalizeTorrentFilePath resolve sep filePath =
     (if filePath = [] then filePath
      else (let n0 = js_trim filePath;
                n1 = (if quoted_by CHR 0x22 n0 \<or> quoted_by CHR 0x27 n0 then butlast (tl n0) else n0);
                n2 = (if starts_with n1 ([bs, bs] @ ''?'' @ [bs] @ ''UNC'' @ [bs]) then [bs, bs] @ drop 8 n1 else n1) in
        if starts_with n2 [bs, bs] \<and> \<not> starts_with n2 ([bs, bs] @ ''?'') then replace_char CHR ''/'' bs n2
        else (case resolve n2 of Some p \<Rightarrow> p | None \<Rightarrow> replace_char CHR ''/'' sep n2)))"

fun extractMagnetFromArgv :: "string list \<Rightarrow> string option" where
  "extractMagnetFromArgv [] = None"
| "extractMagnetFromArgv (arg # argv) =
     (if arg \<noteq> [] \<and> starts_with (js_trim arg) ''magnet:?'' then Some (js_trim arg)
      else extractMagnetFromArgv argv)"

definition is_torrent_path :: "string \<Rightarrow> bool" where
  "is_torrent_path p \<longleftrightarrow> p \<noteq> [] \<and> ends_with (js_lower p) ''.torrent''"

definition checkTorrentFileAssociation :: "bool \<Rightarrow> bool \<Rightarrow> string + string \<Rightarrow> bool" where
  "checkTorrentFileAssociation win32 packed exe =
     (if \<not> win32 then True else if \<not> packed then False
      else (case exe of
        Inl _ \<Rightarrow> False
      | Inr execPath \<Rightarrow> js_includes execPath ''Program Files'' \<or> js_includes execPath ''AppData''))"

subsection \<open>State\<close>

datatype window = NoWindow | Blank | Loaded

record torrent_data =
  td_base64 :: string
  td_fileName :: string

datatype page_message = MagnetMsg string | FileMsg torrent_data

text \<open>A message sent, and whether the page had loaded when it was.\<close>

record open_state =
  os_window :: window
  os_shown :: bool
  os_pendingMagnetLinks :: "string list"
  os_pendingTorrentFile :: "torrent_data option"
  os_retry :: "(torrent_data \<times> nat) option"
  os_sent :: "(page_message \<times> bool) list"
  os_errors :: "(string \<times> string) list"

definition open_init :: open_state where
  "open_init = \<lparr>os_window = NoWindow, os_shown = False, os_pendingMagnetLinks = [], os_pendingTorrentFile = None,
                os_retry = None, os_sent = [], os_errors = []\<rparr>"

definition send :: "page_message \<Rightarrow> open_state \<Rightarrow> open_state" where
  "send m st = st\<lparr>os_sent := os_sent st @ [(m, os_window st = Loaded)]\<rparr>"

definition show_dialog :: "string \<Rightarrow> string \<Rightarrow> open_state \<Rightarrow> open_state" where
  "show_dialog title detail st = st\<lparr>os_errors := os_errors st @ [(title, detail)]\<rparr>"

subsection \<open>Magnet links\<close>

text \<open>\<open>throws\<close>: whether sending to the page throws.\<close>

definition handleMagnetLink :: "bool \<Rightarrow> string \<Rightarrow> open_state \<Rightarrow> open_state" where
  "handleMagnetLink throws magnetUrl st =
     (if magnetUrl = [] then st
      else (let trimmed = js_trim magnetUrl;
                store = st\<lparr>os_pendingMagnetLinks := os_pendingMagnetLinks st @ [trimmed]\<rparr> in
        if \<not> starts_with trimmed ''magnet:?'' then st
        else if os_window st \<noteq> NoWindow then (if throws then store else send (MagnetMsg trimmed) st)
        else store))"

subsection \<open>Torrent files\<close>

record file_env =
  fe_resolve :: "string \<Rightarrow> string option"
  fe_sep :: char
  fe_basename :: "string \<Rightarrow> string"
  fe_exists :: "string \<Rightarrow> bool"
  fe_size :: "string \<Rightarrow> nat option"
  fe_read :: "string \<Rightarrow> (string \<times> string option) + string"

abbreviation normalize :: "file_env \<Rightarrow> string \<Rightarrow> string" where
  "normalize env \<equiv> normalizeTorrentFilePath (fe_resolve env) (fe_sep env)"

text \<open>
  \<open>fe_size\<close> is None when the size cannot be determined (the check is then skipped);
  \<open>fe_read\<close> gives the base64 text or the message and code of the error.
\<close>

definition load_torrent :: "file_env \<Rightarrow> string \<Rightarrow> open_state \<Rightarrow> open_state \<times> torrent_data option" where
  "load_torrent env filePath st =
     (if \<not> is_torrent_path filePath then (st, None)
      else (let p = normalize env filePath in
        if \<not> fe_exists env p then (show_dialog ''Torrent File Not Found'' p st, None)
        else if (case fe_size env p of Some n \<Rightarrow> 7 * 1024 * 1024 < n | None \<Rightarrow> False)
          then ((if os_window st \<noteq> NoWindow then show_dialog ''Torrent File Error'' p st else st), None)
        else (case fe_read env p of
          Inl (message, code) \<Rightarrow> (show_dialog ''Torrent File Read Error'' message st, None)
        | Inr base64 \<Rightarrow> (st, Some \<lparr>td_base64 = base64, td_fileName = fe_basename env p\<rparr>))))"

definition sendToRenderer :: "bool \<Rightarrow> torrent_data \<Rightarrow> open_state \<Rightarrow> open_state \<times> bool" where
  "sendToRenderer throws d st =
     (if os_window st = Loaded \<and> \<not> throws then (send (FileMsg d) st, True) else (st, False))"

definition maxRetries :: nat where "maxRetries = 10"

definition handleTorrentFile :: "file_env \<Rightarrow> bool \<Rightarrow> string \<Rightarrow> open_state \<Rightarrow> open_state" where
  "handleTorrentFile env throws filePath st = (case load_torrent env filePath st of
     (st1, None) \<Rightarrow> st1
   | (st1, Some d) \<Rightarrow>
       (let (st2, sent) = sendToRenderer throws d st1 in
        if sent then st2
        else st2\<lparr>os_pendingTorrentFile := Some d, os_retry := Some (d, 0)\<rparr>))"

text \<open>The interval, every 500 ms.\<close>

definition retry_tick :: "bool \<Rightarrow> open_state \<Rightarrow> open_state" where
  "retry_tick throws st = (case os_retry st of
     None \<Rightarrow> st
   | Some (d, n) \<Rightarrow>
       (let retryCount = Suc n; (st1, sent) = sendToRenderer throws d st in
        if sent then st1\<lparr>os_pendingTorrentFile := None, os_retry := None\<rparr>
        else if maxRetries \<le> retryCount then
          (let st2 = st1\<lparr>os_retry := None\<rparr> in
           if os_window st2 \<noteq> NoWindow then show_dialog ''Torrent File Import Error'' (td_fileName d) st2 else st2)
        else st1\<lparr>os_retry := Some (d, retryCount)\<rparr>))"

text \<open>
  The end of the \<open>ready-to-show\<close> handler, which runs once for a window: pending links, then the
  pending file. \<open>magnets_throw\<close> is the number of links sent before one throws, if one does.
\<close>

definition ready_to_show :: "nat option \<Rightarrow> bool \<Rightarrow> open_state \<Rightarrow> open_state" where
  "ready_to_show magnets_throw file_throws st =
     (if os_shown st \<or> os_window st = NoWindow then st
      else (let st0 = st\<lparr>os_shown := True\<rparr>;
                st1 = (case magnets_throw of
                         Some k \<Rightarrow> fold (\<lambda>l. send (MagnetMsg l)) (take k (os_pendingMagnetLinks st0)) st0
                       | None \<Rightarrow> (fold (\<lambda>l. send (MagnetMsg l)) (os_pendingMagnetLinks st0) st0)
                              \<lparr>os_pendingMagnetLinks := []\<rparr>) in
        case os_pendingTorrentFile st1 of
          None \<Rightarrow> st1
        | Some d \<Rightarrow> if file_throws then st1 else (send (FileMsg d) st1)\<lparr>os_pendingTorrentFile := None\<rparr>))"

fun open_first :: "file_env \<Rightarrow> bool \<Rightarrow> bool \<Rightarrow> string list \<Rightarrow> open_state \<Rightarrow> open_state" where
  "open_first env throws complain [] st = st"
| "open_first env throws complain (arg # argv) st =
     (if is_torrent_path arg then
        (let p = normalize env arg in
         if fe_exists env p then handleTorrentFile env throws p st
         else open_first env throws complain argv
           (if complain \<and> os_window st \<noteq> NoWindow then show_dialog ''Torrent File Not Found'' p st else st))
      else open_first env throws complain argv st)"

definition second_instance :: "file_env \<Rightarrow> bool \<Rightarrow> string list \<Rightarrow> open_state \<Rightarrow> open_state" where
  "second_instance env throws commandLine st =
     open_first env throws True commandLine
       (case extractMagnetFromArgv commandLine of Some m \<Rightarrow> handleMagnetLink throws m st | None \<Rightarrow> st)"

text \<open>
  At the start of the application: the magnet link half a second later, and the first torrent file
  of the arguments that exists, once the page has loaded.
\<close>

fun startup_file :: "file_env \<Rightarrow> string list \<Rightarrow> string option" where
  "startup_file env [] = None"
| "startup_file env (arg # argv) =
     (if is_torrent_path arg \<and> fe_exists env (normalize env arg) then Some (normalize env arg)
      else startup_file env argv)"

definition try_open_file :: "file_env \<Rightarrow> bool \<Rightarrow> string \<Rightarrow> open_state \<Rightarrow> open_state option" where
  "try_open_file env throws p st = (if os_window st = Loaded then Some (handleTorrentFile env throws p st) else None)"

datatype open_event =
    OpenUrl string bool
  | OpenFile string bool
  | SecondInstance "string list" bool
  | RetryTick bool
  | ReadyToShow "nat option" bool
  | Window window

definition open_step :: "file_env \<Rightarrow> open_state \<Rightarrow> open_event \<Rightarrow> open_state" where
  "open_step env st e = (case e of
     OpenUrl url throws \<Rightarrow> if starts_with url ''magnet:?'' then handleMagnetLink throws url st else st
   | OpenFile p throws \<Rightarrow> if is_torrent_path p then handleTorrentFile env throws p st else st
   | SecondInstance argv throws \<Rightarrow> second_instance env throws argv st
   | RetryTick throws \<Rightarrow> retry_tick throws st
   | ReadyToShow a b \<Rightarrow> ready_to_show a b st
   | Window w \<Rightarrow> st\<lparr>os_window := w, os_shown := (os_shown st \<and> w \<noteq> NoWindow)\<rparr>)"

abbreviation open_run :: "file_env \<Rightarrow> open_event list \<Rightarrow> open_state \<Rightarrow> open_state" where
  "open_run env es st \<equiv> foldl (open_step env) st es"

subsection \<open>Magnet links are kept\<close>

text \<open>
  What the system hands over: the link of an \<open>open-url\<close> event, and of a command line the first
  argument that is a magnet link once trimmed (further links in the same command line are not opened).
\<close>

definition accepted_links :: "open_event \<Rightarrow> string list" where
  "accepted_links e = (case e of
     OpenUrl url _ \<Rightarrow> if starts_with url ''magnet:?'' then [js_trim url] else []
   | SecondInstance argv _ \<Rightarrow> take 1 (filter (\<lambda>l. starts_with l ''magnet:?'') (map js_trim argv))
   | _ \<Rightarrow> [])"

fun magnets_of :: "(page_message \<times> bool) list \<Rightarrow> string list" where
  "magnets_of [] = []"
| "magnets_of ((MagnetMsg l, b) # ms) = l # magnets_of ms"
| "magnets_of ((FileMsg d, b) # ms) = magnets_of ms"

lemma magnets_of_append [simp]: "magnets_of (xs @ ys) = magnets_of xs @ magnets_of ys"
  by (induction xs rule: magnets_of.induct) simp_all

definition links :: "open_state \<Rightarrow> string multiset" where
  "links st = mset (magnets_of (os_sent st)) + mset (os_pendingMagnetLinks st)"

lemma links_simps [simp]:
  "links (send (MagnetMsg l) st) = add_mset l (links st)"
  "links (send (FileMsg d) st) = links st"
  "links (show_dialog a b st) = links st"
  "links (st\<lparr>os_pendingTorrentFile := x\<rparr>) = links st"
  "links (st\<lparr>os_retry := y\<rparr>) = links st"
  "links (st\<lparr>os_shown := z\<rparr>) = links st"
  "links (st\<lparr>os_window := w\<rparr>) = links st"
  "links (st\<lparr>os_pendingMagnetLinks := os_pendingMagnetLinks st @ [l]\<rparr>) = add_mset l (links st)"
  by (simp_all add: links_def send_def show_dialog_def)

lemma is_ws_m: "\<not> is_ws CHR ''m''"
  by (simp add: is_ws_def)

lemma dropWhile_prefix: "\<not> P c \<Longrightarrow> prefix (c # p) s \<Longrightarrow> dropWhile P s = s"
  by (auto simp: prefix_def)

lemma prefix_rev_dropWhile:
  "prefix p s \<Longrightarrow> p \<noteq> [] \<Longrightarrow> \<not> P (last p) \<Longrightarrow> prefix p (rev (dropWhile P (rev s)))"
proof (induction s rule: rev_induct)
  case (snoc c s)
  show ?case
  proof (cases "P c")
    case True
    then have "p \<noteq> s @ [c]" using snoc.prems by auto
    then have "prefix p s" using snoc.prems(1) by (simp add: prefix_snoc)
    with snoc True show ?thesis by simp
  next
    case False
    with snoc show ?thesis by simp
  qed
qed simp

text \<open>Trimming keeps the prefix of a link, so links that pass the check are stored or sent trimmed.\<close>

lemma trim_magnet: "starts_with url ''magnet:?'' \<Longrightarrow> starts_with (js_trim url) ''magnet:?''"
  unfolding js_trim_def
  by (rule prefix_rev_dropWhile)
    (simp_all add: is_ws_def dropWhile_prefix [where c = "CHR ''m''" and p = "''agnet:?''"])

lemma dropWhile_dropWhile: "dropWhile P (dropWhile P xs) = dropWhile P xs"
  by (induction xs) auto

lemma trim_trim: "js_trim (js_trim s) = js_trim s"
proof -
  define t where "t = dropWhile is_ws s"
  have "dropWhile is_ws (rev (dropWhile is_ws (rev t))) = rev (dropWhile is_ws (rev t))"
  proof (cases "dropWhile is_ws (rev t) = []")
    case False
    then have "t \<noteq> []" by auto
    then have h: "\<not> is_ws (hd t)" unfolding t_def by (metis hd_dropWhile)
    obtain ys where ys: "rev t = ys @ dropWhile is_ws (rev t)"
      by (metis takeWhile_dropWhile_id)
    then have "t = rev (dropWhile is_ws (rev t)) @ rev ys"
      by (metis rev_append rev_rev_ident)
    then have "hd (rev (dropWhile is_ws (rev t))) = hd t"
      using False by (metis hd_append2 rev_is_Nil_conv)
    with h False show ?thesis
      by (cases "rev (dropWhile is_ws (rev t))") auto
  next
    case True
    show ?thesis unfolding True by simp
  qed
  then show ?thesis by (simp add: js_trim_def dropWhile_dropWhile flip: t_def)
qed

lemma extract_valid:
  "extractMagnetFromArgv argv = Some m \<Longrightarrow> starts_with m ''magnet:?'' \<and> js_trim m = m"
  by (induction argv) (auto simp: trim_trim split: if_splits)

lemma extract_first:
  "extractMagnetFromArgv argv =
    (case filter (\<lambda>l. starts_with l ''magnet:?'') (map js_trim argv) of [] \<Rightarrow> None | l # _ \<Rightarrow> Some l)"
  by (induction argv) (auto simp: js_trim_def)

lemma handleMagnet_links:
  assumes "starts_with url ''magnet:?''"
  shows "links (handleMagnetLink throws url st) = add_mset (js_trim url) (links st)"
  using assms trim_magnet [OF assms] by (cases url) (simp_all add: handleMagnetLink_def Let_def)

lemma handleTorrentFile_links [simp]: "links (handleTorrentFile env throws p st) = links st"
  by (auto simp: handleTorrentFile_def load_torrent_def sendToRenderer_def Let_def
      split: prod.splits option.splits sum.splits if_splits)

lemma open_first_links [simp]: "links (open_first env throws b argv st) = links st"
  by (induction env throws b argv st rule: open_first.induct) (simp_all add: Let_def)

lemma retry_tick_links [simp]: "links (retry_tick throws st) = links st"
  by (auto simp: retry_tick_def sendToRenderer_def Let_def split: option.splits prod.splits)

lemma fold_send_links: "links (fold (\<lambda>l. send (MagnetMsg l)) ls st) = mset ls + links st"
  by (induction ls arbitrary: st) simp_all

lemma fold_send_pending [simp]:
  "os_pendingMagnetLinks (fold (\<lambda>l. send (MagnetMsg l)) ls st) = os_pendingMagnetLinks st"
  by (induction ls arbitrary: st) (simp_all add: send_def)

lemma ready_to_show_links [simp]: "links (ready_to_show None b st) = links st"
proof -
  define st0 where "st0 = st\<lparr>os_shown := True\<rparr>"
  define st1 where "st1 = fold (\<lambda>l. send (MagnetMsg l)) (os_pendingMagnetLinks st0) st0"
  have "links st1 = mset (os_pendingMagnetLinks st) + links st"
    by (simp add: st1_def fold_send_links st0_def)
  moreover have "links st1 = mset (magnets_of (os_sent st1)) + mset (os_pendingMagnetLinks st)"
    by (simp add: links_def st1_def) (simp add: st0_def)
  ultimately have "links (st1\<lparr>os_pendingMagnetLinks := []\<rparr>) = links st"
    by (simp add: links_def)
  then show ?thesis
    by (auto simp: ready_to_show_def Let_def simp flip: st0_def st1_def split: option.splits)
qed

definition keeps_links :: "open_event \<Rightarrow> bool" where
  "keeps_links e \<longleftrightarrow> (case e of ReadyToShow (Some k) _ \<Rightarrow> False | _ \<Rightarrow> True)"

lemma open_step_links:
  assumes "keeps_links e"
  shows "links (open_step env st e) = links st + mset (accepted_links e)"
proof (cases e)
  case (SecondInstance argv throws)
  show ?thesis
  proof (cases "filter (\<lambda>l. starts_with l ''magnet:?'') (map js_trim argv)")
    case Nil
    then have "extractMagnetFromArgv argv = None" "accepted_links e = []"
      using SecondInstance by (simp_all add: extract_first accepted_links_def)
    then show ?thesis using SecondInstance by (simp add: open_step_def second_instance_def)
  next
    case (Cons l ls)
    then have x: "extractMagnetFromArgv argv = Some l" "accepted_links e = [l]"
      using SecondInstance by (simp_all add: extract_first accepted_links_def)
    with extract_valid [OF x(1)] SecondInstance show ?thesis
      by (simp add: open_step_def second_instance_def handleMagnet_links)
  qed
next
  case (ReadyToShow a b)
  with assms show ?thesis
    by (cases a) (simp_all add: open_step_def accepted_links_def keeps_links_def)
qed (simp_all add: open_step_def accepted_links_def handleMagnet_links)

text \<open>
  Property C20: no accepted magnet link is lost or duplicated by the main process. After any run the
  links sent to the page and those still pending are, counted and trimmed, exactly the links of the
  \<open>open-url\<close> events that start with the magnet scheme and the first magnet link of each
  command line of a second instance, unless flushing the pending links throws half-way.
\<close>

theorem magnet_links_conserved:
  assumes "\<forall>e \<in> set es. keeps_links e"
  shows "mset (magnets_of (os_sent (open_run env es open_init))) +
           mset (os_pendingMagnetLinks (open_run env es open_init))
         = mset (concat (map accepted_links es))"
proof -
  have "links (open_run env es st) = links st + mset (concat (map accepted_links es))" for st
    using assms by (induction es arbitrary: st) (simp_all add: open_step_links)
  then show ?thesis
    by (simp add: links_def [symmetric]) (simp add: links_def open_init_def)
qed

definition sample_files :: file_env where
  "sample_files = \<lparr>fe_resolve = Some, fe_sep = bs, fe_basename = (\<lambda>p. p), fe_exists = (\<lambda>_. True),
     fe_size = (\<lambda>_. None), fe_read = (\<lambda>p. Inr ''AA=='')\<rparr>"

definition link_events :: "open_event list" where
  "link_events = [OpenUrl ''magnet:?a'' False, Window Blank, SecondInstance [''app'', '' magnet:?b'', ''magnet:?c''] False,
     ReadyToShow None False]"

theorem magnet_links_conserved_witness:
  "mset (magnets_of (os_sent (open_run sample_files link_events open_init))) +
   mset (os_pendingMagnetLinks (open_run sample_files link_events open_init))
   = {#''magnet:?a'', ''magnet:?b''#}"
  using magnet_links_conserved [of link_events sample_files]
  by (simp add: keeps_links_def accepted_links_def js_trim_def is_ws_def link_events_def)

subsection \<open>Delivery of a torrent file\<close>

text \<open>The timer's ticks: what the window is at each of them and whether sending to the page throws.\<close>

definition ticks :: "(window \<times> bool) list \<Rightarrow> open_event list" where
  "ticks ws = concat (map (\<lambda>(w, throws). [Window w, RetryTick throws]) ws)"

definition can_send :: "window \<times> bool \<Rightarrow> bool" where
  "can_send x \<longleftrightarrow> fst x = Loaded \<and> \<not> snd x"

lemma ticks_simps [simp]: "ticks [] = []" "ticks ((w, b) # ws) = Window w # RetryTick b # ticks ws"
  by (simp_all add: ticks_def)

lemma ticks_idle: "os_retry st = None \<Longrightarrow> os_sent (open_run env (ticks ws) st) = os_sent st \<and>
    os_retry (open_run env (ticks ws) st) = None \<and>
    os_pendingTorrentFile (open_run env (ticks ws) st) = os_pendingTorrentFile st"
  by (induction ws arbitrary: st) (auto simp add: open_step_def retry_tick_def)

lemma ticks_deliver:
  assumes "os_retry st = Some (d, n)" "n < maxRetries"
  shows "(length (takeWhile (\<lambda>x. \<not> can_send x) ws) < min (maxRetries - n) (length ws) \<longrightarrow>
      os_sent (open_run env (ticks ws) st) = os_sent st @ [(FileMsg d, True)] \<and>
      os_retry (open_run env (ticks ws) st) = None \<and> os_pendingTorrentFile (open_run env (ticks ws) st) = None) \<and>
    (\<not> length (takeWhile (\<lambda>x. \<not> can_send x) ws) < min (maxRetries - n) (length ws) \<longrightarrow>
      os_sent (open_run env (ticks ws) st) = os_sent st)"
  using assms
proof (induction ws arbitrary: st n)
  case (Cons x ws)
  obtain w b where x: "x = (w, b)" by fastforce
  let ?st = "open_step env (open_step env st (Window w)) (RetryTick b)"
  have run: "open_run env (ticks (x # ws)) st = open_run env (ticks ws) ?st" by (simp add: x)
  have w: "open_step env st (Window w) = st\<lparr>os_window := w, os_shown := (os_shown st \<and> w \<noteq> NoWindow)\<rparr>"
    by (simp add: open_step_def)
  show ?case
  proof (cases "can_send x")
    case True
    have "os_retry ?st = None" "os_sent ?st = os_sent st @ [(FileMsg d, True)]" "os_pendingTorrentFile ?st = None"
      using Cons.prems True
      by (simp_all add: w x can_send_def) (simp_all add: open_step_def retry_tick_def sendToRenderer_def send_def Let_def)
    with ticks_idle [of ?st env ws] Cons.prems(2) True show ?thesis
      unfolding run by (simp add: maxRetries_def)
  next
    case False
    have s: "os_sent ?st = os_sent st"
      using Cons.prems False
      by (auto simp: w x can_send_def open_step_def retry_tick_def sendToRenderer_def show_dialog_def Let_def)
    show ?thesis
    proof (cases "maxRetries \<le> Suc n")
      case True
      then have "os_retry ?st = None"
        using Cons.prems False
        by (auto simp: w x can_send_def open_step_def retry_tick_def sendToRenderer_def show_dialog_def Let_def)
      with ticks_idle [of ?st env ws] s False True Cons.prems(2) show ?thesis
        unfolding run by simp
    next
      case more: False
      then have t: "os_retry ?st = Some (d, Suc n)" "Suc n < maxRetries"
        using Cons.prems False
        by (auto simp: w x can_send_def open_step_def retry_tick_def sendToRenderer_def Let_def)
      have c: "length (takeWhile (\<lambda>x. \<not> can_send x) (x # ws)) < min (maxRetries - n) (length (x # ws)) \<longleftrightarrow>
          length (takeWhile (\<lambda>x. \<not> can_send x) ws) < min (maxRetries - Suc n) (length ws)"
        using t(2) False by auto
      show ?thesis
        unfolding run c s [symmetric] by (rule Cons.IH [OF t])
    qed
  qed
qed simp

text \<open>
  Property C21: a torrent file that could not be sent when it was opened (no page has loaded, or sending
  threw) is sent exactly once by the retry timer, at its first tick that finds the page loaded
  and can send, if that is one of the first ten; otherwise the timer never sends it. Only the window
  changes in between: no other file is opened and the window is not shown for the first time.
\<close>

theorem torrent_file_delivery:
  assumes "load_torrent env filePath st = (st1, Some d)" and "os_window st1 \<noteq> Loaded \<or> throws"
  shows "(let st' = handleTorrentFile env throws filePath st; waited = length (takeWhile (\<lambda>x. \<not> can_send x) ws) in
    os_sent st' = os_sent st1 \<and> os_pendingTorrentFile st' = Some d \<and>
    os_sent (open_run env (ticks ws) st') =
      os_sent st1 @ (if waited < min 10 (length ws) then [(FileMsg d, True)] else []))"
proof -
  define st' where "st' = handleTorrentFile env throws filePath st"
  have h: "st' = st1\<lparr>os_pendingTorrentFile := Some d, os_retry := Some (d, 0)\<rparr>"
    using assms by (auto simp: st'_def handleTorrentFile_def sendToRenderer_def)
  have r: "os_retry st' = Some (d, 0)" "os_sent st' = os_sent st1" "os_pendingTorrentFile st' = Some d"
    by (simp_all add: h)
  have "0 < maxRetries" by (simp add: maxRetries_def)
  from ticks_deliver [OF r(1) this, of ws env] r show ?thesis
    unfolding Let_def st'_def [symmetric] maxRetries_def by simp
qed

lemma open_init_simps [simp]: "os_window open_init = NoWindow" "os_sent open_init = []"
  by (simp_all add: open_init_def)

theorem torrent_file_delivery_witness:
  "os_sent (open_run sample_files (ticks [(Blank, False), (Loaded, True), (Loaded, False), (Loaded, False)])
     (handleTorrentFile sample_files False ''a.torrent'' open_init))
   = [(FileMsg \<lparr>td_base64 = ''AA=='', td_fileName = ''a.torrent''\<rparr>, True)]"
proof -
  have "load_torrent sample_files ''a.torrent'' open_init =
      (open_init, Some \<lparr>td_base64 = ''AA=='', td_fileName = ''a.torrent''\<rparr>)"
    by (simp add: load_torrent_def is_torrent_path_def suffix_def js_lower_def lower_char_def sample_files_def
        normalizeTorrentFilePath_def quoted_by_def js_trim_def is_ws_def Let_def js_simps)
  from torrent_file_delivery [OF this, of False "[(Blank, False), (Loaded, True), (Loaded, False), (Loaded, False)]"]
  show ?thesis by (simp add: Let_def can_send_def)
qed

text \<open>
  Further fact: a file that waits when the window is shown for the first time goes to the page twice: the
  handler of \<open>ready-to-show\<close> sends it and empties the slot, but leaves the retry timer running, which
  sends it again at the next tick that can.
\<close>

theorem shown_file_sent_twice:
  assumes "os_retry st = Some (d, n)" "os_pendingTorrentFile st = Some d" "os_window st \<noteq> NoWindow" "\<not> os_shown st"
  shows "os_sent (open_run env [ReadyToShow None False, Window Loaded, RetryTick False] st) =
    os_sent st @ map (\<lambda>l. (MagnetMsg l, os_window st = Loaded)) (os_pendingMagnetLinks st) @
      [(FileMsg d, os_window st = Loaded), (FileMsg d, True)]"
proof -
  have f: "fold (\<lambda>l. send (MagnetMsg l)) ls x =
      x\<lparr>os_sent := os_sent x @ map (\<lambda>l. (MagnetMsg l, os_window x = Loaded)) ls\<rparr>" for ls x
    by (induction ls arbitrary: x) (simp_all add: send_def)
  show ?thesis
    using assms by (simp add: open_step_def ready_to_show_def f send_def retry_tick_def sendToRenderer_def Let_def)
qed

theorem shown_file_sent_twice_witness:
  "os_sent (open_run sample_files [ReadyToShow None False, Window Loaded, RetryTick False]
     (open_init\<lparr>os_window := Blank, os_retry := Some (\<lparr>td_base64 = ''AA=='', td_fileName = ''a.torrent''\<rparr>, 0),
        os_pendingTorrentFile := Some \<lparr>td_base64 = ''AA=='', td_fileName = ''a.torrent''\<rparr>\<rparr>)) =
   [(FileMsg \<lparr>td_base64 = ''AA=='', td_fileName = ''a.torrent''\<rparr>, False),
    (FileMsg \<lparr>td_base64 = ''AA=='', td_fileName = ''a.torrent''\<rparr>, True)]"
  by (subst shown_file_sent_twice) (simp_all add: open_init_def)

text \<open>Nothing but the two slots can bring a file to the page.\<close>

definition delivery_event :: "open_event \<Rightarrow> bool" where
  "delivery_event e \<longleftrightarrow> (case e of RetryTick _ \<Rightarrow> True | ReadyToShow _ _ \<Rightarrow> True | Window _ \<Rightarrow> True | _ \<Rightarrow> False)"

definition forgotten :: "torrent_data \<Rightarrow> open_state \<Rightarrow> bool" where
  "forgotten d st \<longleftrightarrow> FileMsg d \<notin> fst ` set (os_sent st) \<and> os_pendingTorrentFile st \<noteq> Some d \<and>
     (case os_retry st of Some (d', n) \<Rightarrow> d' \<noteq> d | None \<Rightarrow> True)"

lemma fold_send_fields:
  "fst ` set (os_sent (fold (\<lambda>l. send (MagnetMsg l)) ls st)) = MagnetMsg ` set ls \<union> fst ` set (os_sent st)"
  "os_retry (fold (\<lambda>l. send (MagnetMsg l)) ls st) = os_retry st"
  "os_pendingTorrentFile (fold (\<lambda>l. send (MagnetMsg l)) ls st) = os_pendingTorrentFile st"
  by (induction ls arbitrary: st) (auto simp: send_def)

lemma forgotten_step:
  assumes "forgotten d st" "delivery_event e"
  shows "forgotten d (open_step env st e)"
proof (cases e)
  case (ReadyToShow a b)
  with assms show ?thesis
    by (auto simp: open_step_def ready_to_show_def forgotten_def Let_def send_def fold_send_fields
        split: option.splits)
next
  case (RetryTick t)
  with assms show ?thesis
    by (auto simp: open_step_def retry_tick_def sendToRenderer_def forgotten_def Let_def send_def show_dialog_def
        split: option.splits prod.splits)
qed (use assms in \<open>auto simp: open_step_def forgotten_def delivery_event_def\<close>)

text \<open>
  Further fact: only one torrent file can wait: when a second one is opened before the page has
  loaded, the first is never sent, whatever the window and the timer do afterwards.
\<close>

theorem second_file_replaces_first:
  assumes "load_torrent env p1 st = (st1, Some d1)" and "os_window st1 \<noteq> Loaded"
    and "load_torrent env p2 (handleTorrentFile env False p1 st) = (st2, Some d2)" and "os_window st2 \<noteq> Loaded"
    and "d1 \<noteq> d2" and "FileMsg d1 \<notin> fst ` set (os_sent st)"
    and "\<forall>e \<in> set es. delivery_event e"
  shows "FileMsg d1 \<notin>
    fst ` set (os_sent (open_run env es (handleTorrentFile env False p2 (handleTorrentFile env False p1 st))))"
proof -
  have sent: "os_sent (fst (load_torrent env p s)) = os_sent s" for p s
    by (simp add: load_torrent_def Let_def show_dialog_def split: option.splits sum.splits)
  let ?s1 = "handleTorrentFile env False p1 st" and ?s2 = "handleTorrentFile env False p2 (handleTorrentFile env False p1 st)"
  have s1: "?s1 = st1\<lparr>os_pendingTorrentFile := Some d1, os_retry := Some (d1, 0)\<rparr>"
    using assms(1,2) by (simp add: handleTorrentFile_def sendToRenderer_def)
  have s2: "?s2 = st2\<lparr>os_pendingTorrentFile := Some d2, os_retry := Some (d2, 0)\<rparr>"
    using assms(3,4) by (simp add: handleTorrentFile_def [of env False p2] sendToRenderer_def)
  have "os_sent st2 = os_sent st"
    using sent [of p1 st] sent [of p2 ?s1] assms(1,3) s1 by simp
  with assms(5,6) have "forgotten d1 ?s2"
    unfolding s2 by (simp add: forgotten_def)
  then have "forgotten d1 (open_run env es ?s2)"
    using assms(7) by (induction es rule: rev_induct) (simp_all add: forgotten_step)
  then show ?thesis by (simp add: forgotten_def)
qed

lemma sample_load:
  assumes "is_torrent_path p" "js_trim p = p" "\<forall>q \<in> {CHR 0x22, CHR 0x27, bs}. \<not> starts_with p [q]"
  shows "load_torrent sample_files p st = (st, Some \<lparr>td_base64 = ''AA=='', td_fileName = p\<rparr>)"
proof -
  have "\<not> starts_with p (bs # x)" for x
    using assms(3) by (cases p) auto
  with assms show ?thesis
    by (simp add: load_torrent_def sample_files_def normalizeTorrentFilePath_def quoted_by_def is_torrent_path_def Let_def)
qed

theorem second_file_replaces_first_witness:
  "FileMsg \<lparr>td_base64 = ''AA=='', td_fileName = ''a.torrent''\<rparr> \<notin>
     fst ` set (os_sent (open_run sample_files [Window Loaded, RetryTick False, ReadyToShow None False]
       (handleTorrentFile sample_files False ''b.torrent'' (handleTorrentFile sample_files False ''a.torrent'' open_init))))
   \<and> FileMsg \<lparr>td_base64 = ''AA=='', td_fileName = ''b.torrent''\<rparr> \<in>
     fst ` set (os_sent (open_run sample_files [Window Loaded, RetryTick False, ReadyToShow None False]
       (handleTorrentFile sample_files False ''b.torrent'' (handleTorrentFile sample_files False ''a.torrent'' open_init))))"
proof -
  have p: "is_torrent_path x \<and> js_trim x = x \<and> (\<forall>q \<in> {CHR 0x22, CHR 0x27, bs}. \<not> starts_with x [q])"
    if "x = ''a.torrent'' \<or> x = ''b.torrent''" for x
    using that
    by (auto simp: is_torrent_path_def js_lower_def lower_char_def js_trim_def is_ws_def Let_def char_of_def bit_0
        suffix_to_prefix)
  have a: "load_torrent sample_files ''a.torrent'' st = (st, Some \<lparr>td_base64 = ''AA=='', td_fileName = ''a.torrent''\<rparr>)"
    and b: "load_torrent sample_files ''b.torrent'' st = (st, Some \<lparr>td_base64 = ''AA=='', td_fileName = ''b.torrent''\<rparr>)"
    for st using p by (simp_all add: sample_load)
  have h: "handleTorrentFile sample_files False x st =
      st\<lparr>os_pendingTorrentFile := Some d, os_retry := Some (d, 0)\<rparr>"
    if "load_torrent sample_files x st = (st, Some d)" "os_window st = NoWindow" for x st d
    using that by (simp add: handleTorrentFile_def sendToRenderer_def)
  have n: "os_window (handleTorrentFile sample_files False ''a.torrent'' open_init) = NoWindow"
    by (simp add: h [OF a])
  have "FileMsg \<lparr>td_base64 = ''AA=='', td_fileName = ''b.torrent''\<rparr> \<in>
     fst ` set (os_sent (open_run sample_files [Window Loaded, RetryTick False, ReadyToShow None False]
       (handleTorrentFile sample_files False ''b.torrent'' (handleTorrentFile sample_files False ''a.torrent'' open_init))))"
    unfolding h [OF b n] by (simp add: h [OF a] open_step_def retry_tick_def sendToRenderer_def send_def
        ready_to_show_def Let_def open_init_def)
  moreover have "os_window (handleTorrentFile sample_files False ''a.torrent'' open_init) \<noteq> Loaded"
    unfolding n by simp
  ultimately show ?thesis
    using second_file_replaces_first [OF a _ b, of open_init "[Window Loaded, RetryTick False, ReadyToShow None False]"]
    by (simp add: delivery_event_def)
qed

subsection \<open>Network paths\<close>

lemma js_trim_id: "s \<noteq> [] \<Longrightarrow> \<not> is_ws (hd s) \<Longrightarrow> \<not> is_ws (last s) \<Longrightarrow> js_trim s = s"
  by (simp add: js_trim_def dropWhile_eq_self_iff [THEN iffD2] hd_rev)

lemma normalize_unc:
  assumes "s \<noteq> []" "\<not> is_ws (last s)" "hd s \<noteq> CHR ''?''"
  shows "normalizeTorrentFilePath resolve sep (bs # bs # s) = replace_char CHR ''/'' bs (bs # bs # s)"
proof -
  have "js_trim (bs # bs # s) = bs # bs # s"
    using assms by (intro js_trim_id) (simp_all add: is_ws_def)
  with assms show ?thesis
    by (cases s) (simp_all add: normalizeTorrentFilePath_def quoted_by_def Let_def)
qed

text \<open>
  Further fact: a network path is never resolved against the working directory: the plain form, the
  long form and the quoted form of a share all become the same path with backslashes only, and
  normalising once more changes nothing.
\<close>

theorem network_paths_normalised:
  assumes "s \<noteq> []" and "\<not> is_ws (last s)" and "hd s \<noteq> CHR ''?''"
  shows "(let n = normalizeTorrentFilePath resolve sep; u = n (bs # bs # s) in
    u = replace_char CHR ''/'' bs (bs # bs # s) \<and> CHR ''/'' \<notin> set u \<and>
    n ([bs, bs] @ ''?'' @ [bs] @ ''UNC'' @ [bs] @ s) = u \<and>
    n (CHR 0x22 # bs # bs # s @ [CHR 0x22]) = u \<and> n u = u)"
proof -
  have u: "normalizeTorrentFilePath resolve sep (bs # bs # s) = replace_char CHR ''/'' bs (bs # bs # s)"
    using assms by (rule normalize_unc)
  have long: "normalizeTorrentFilePath resolve sep ([bs, bs] @ ''?'' @ [bs] @ ''UNC'' @ [bs] @ s) =
      replace_char CHR ''/'' bs (bs # bs # s)"
  proof -
    have "js_trim ([bs, bs] @ ''?'' @ [bs] @ ''UNC'' @ [bs] @ s) = [bs, bs] @ ''?'' @ [bs] @ ''UNC'' @ [bs] @ s"
      using assms by (intro js_trim_id) (simp_all add: is_ws_def)
    with assms show ?thesis
      by (cases s) (simp_all add: normalizeTorrentFilePath_def quoted_by_def Let_def)
  qed
  have quoted: "normalizeTorrentFilePath resolve sep (CHR 0x22 # bs # bs # s @ [CHR 0x22]) =
      replace_char CHR ''/'' bs (bs # bs # s)"
  proof -
    have "js_trim (CHR 0x22 # bs # bs # s @ [CHR 0x22]) = CHR 0x22 # bs # bs # s @ [CHR 0x22]"
      by (intro js_trim_id) (simp_all add: is_ws_def)
    moreover have "suffix [CHR 0x22] (CHR 0x22 # bs # bs # s @ [CHR 0x22])"
      by (simp add: suffix_def)
    ultimately show ?thesis
      using assms by (cases s) (simp_all add: normalizeTorrentFilePath_def quoted_by_def Let_def)
  qed
  define r where "r = replace_char CHR ''/'' bs s"
  have r: "replace_char CHR ''/'' bs (bs # bs # s) = bs # bs # r" by (simp add: replace_char_def r_def)
  have n: "CHR ''/'' \<notin> set (bs # bs # r)" by (auto simp: r_def replace_char_def)
  have "r \<noteq> []" "\<not> is_ws (last r)" "hd r \<noteq> CHR ''?''"
    using assms by (simp_all add: r_def replace_char_def last_map hd_map) (simp_all add: is_ws_def)
  then have "normalizeTorrentFilePath resolve sep (bs # bs # r) = replace_char CHR ''/'' bs (bs # bs # r)"
    by (rule normalize_unc)
  moreover have "replace_char CHR ''/'' bs (bs # bs # r) = bs # bs # r"
    by (auto simp: replace_char_def r_def)
  ultimately show ?thesis
    using long quoted n unfolding Let_def u r by simp
qed

theorem network_paths_normalised_witness:
  "normalizeTorrentFilePath (\<lambda>_. None) bs ([bs, bs] @ ''?'' @ [bs] @ ''UNC'' @ [bs] @ ''nas/a.torrent'') =
     [bs, bs] @ ''nas'' @ [bs] @ ''a.torrent''"
  using network_paths_normalised [of "''nas/a.torrent''" "\<lambda>_. None" bs]
  by (simp add: is_ws_def replace_char_def Let_def)

end
