(* ===== verification/FileTree.thy ===== *)
theory FileTree
  imports TorrentCache "HOL-Library.Multiset"
begin

text \<open>
  The tree of files shown before a torrent starts: \<open>buildFileTree\<close> of
  \<open>renderer/components/FileSelectionDialog.tsx\<close>.

  The source builds the tree by pushing shared node objects into the \<open>children\<close> arrays of
  other node objects, found through a map from joined paths to objects. The model keeps that
  aliasing: objects live in a store and are named by their position in it, the map and the
  \<open>children\<close> arrays hold names. \<open>read_node\<close> reads the finished object graph as a value of
  the recursive type \<open>FileNode\<close>. Its recursion is bounded by the length of the longest
  joined path: a child's path is longer than its parent's (\<open>build_invariant\<close>), so nothing
  is cut off (\<open>ids_cover\<close>).
\<close>

subsection \<open>Nodes\<close>

datatype file_node =
  FileNode (n_id: string) (n_name: string) (n_path: string) (n_size: int)
    (n_selected: bool) (n_children: "file_node list")

record node_obj =
  no_id :: string
  no_name :: string
  no_path :: string
  no_size :: int
  no_selected :: bool
  no_children :: "nat list"

record tree_builder =
  tb_objs :: "node_obj list"
  tb_nodeMap :: "(string, nat) jmap"
  tb_tree :: "nat list"

definition full_path :: "content_file \<Rightarrow> string" where
  "full_path e = js_join ''/'' (cf_path e)"

text \<open>\<open>a || b\<close> on strings.\<close>

definition str_or :: "string \<Rightarrow> string \<Rightarrow> string" where
  "str_or a b = (if a = [] then b else a)"

definition file_obj :: "nat \<Rightarrow> content_file \<Rightarrow> node_obj" where
  "file_obj index e =
     \<lparr> no_id = ''file-'' @ show_nat index,
       no_name = str_or (if cf_path e = [] then [] else last (cf_path e))
                   (str_or (full_path e) ''download''),
       no_path = str_or (full_path e) ''download'',
       no_size = cf_size e,
       no_selected = (cf_priority e \<noteq> ''skip''),
       no_children = [] \<rparr>"

definition dir_obj :: "string \<Rightarrow> string \<Rightarrow> node_obj" where
  "dir_obj currentPath part =
     \<lparr> no_id = ''dir-'' @ currentPath, no_name = part, no_path = currentPath,
       no_size = 0, no_selected = True, no_children = [] \<rparr>"

subsection \<open>Building\<close>

text \<open>A new object registered in \<open>nodeMap\<close>; the two places an object is pushed to.\<close>

definition register :: "string \<Rightarrow> node_obj \<Rightarrow> tree_builder \<Rightarrow> tree_builder" where
  "register key ob b =
     b\<lparr> tb_objs := tb_objs b @ [ob],
        tb_nodeMap := jm_set key (length (tb_objs b)) (tb_nodeMap b) \<rparr>"

definition push_child :: "nat \<Rightarrow> nat \<Rightarrow> tree_builder \<Rightarrow> tree_builder" where
  "push_child parent child b =
     b\<lparr> tb_objs := (tb_objs b)[parent := (tb_objs b ! parent)
          \<lparr> no_children := no_children (tb_objs b ! parent) @ [child] \<rparr>] \<rparr>"

definition push_root :: "nat \<Rightarrow> tree_builder \<Rightarrow> tree_builder" where
  "push_root child b = b\<lparr> tb_tree := tb_tree b @ [child] \<rparr>"

definition attach :: "nat option \<Rightarrow> nat \<Rightarrow> tree_builder \<Rightarrow> tree_builder" where
  "attach parent child b =
     (case parent of Some p \<Rightarrow> push_child p child b | None \<Rightarrow> push_root child b)"

definition extend_path :: "nat \<Rightarrow> string \<Rightarrow> string \<Rightarrow> string" where
  "extend_path i currentPath part = (if i = 0 then part else currentPath @ ''/'' @ part)"

fun make_dirs ::
    "nat \<Rightarrow> string list \<Rightarrow> string \<Rightarrow> nat option \<Rightarrow> tree_builder \<Rightarrow> nat option \<times> tree_builder" where
  "make_dirs i [] currentPath currentParent b = (currentParent, b)"
| "make_dirs i (part # parts) currentPath currentParent b =
     (let path = extend_path i currentPath part in
      case jm_get (tb_nodeMap b) path of
        Some d \<Rightarrow> make_dirs (Suc i) parts path (Some d) b
      | None \<Rightarrow>
          (let d = length (tb_objs b);
               b1 = attach currentParent d (register path (dir_obj path part) b) in
           make_dirs (Suc i) parts path (Some d) b1))"

definition add_entry :: "nat \<Rightarrow> content_file \<Rightarrow> tree_builder \<Rightarrow> tree_builder" where
  "add_entry index e b =
     (let node = length (tb_objs b);
          b1 = register (full_path e) (file_obj index e) b in
      if length (cf_path e) > 1 then
        (let parentParts = butlast (cf_path e) in
         case jm_get (tb_nodeMap b1) (js_join ''/'' parentParts) of
           Some p \<Rightarrow> push_child p node b1
         | None \<Rightarrow>
             (case make_dirs 0 parentParts [] None b1 of
                (Some p, b2) \<Rightarrow> push_child p node b2
              | (None, b2) \<Rightarrow> b2))
      else push_root node b1)"

fun add_entries :: "nat \<Rightarrow> content_file list \<Rightarrow> tree_builder \<Rightarrow> tree_builder" where
  "add_entries i [] b = b"
| "add_entries i (e # es) b = add_entries (Suc i) es (add_entry i e b)"

definition empty_builder :: tree_builder where
  "empty_builder = \<lparr> tb_objs = [], tb_nodeMap = [], tb_tree = [] \<rparr>"

fun read_node :: "nat \<Rightarrow> node_obj list \<Rightarrow> nat \<Rightarrow> file_node" where
  "read_node 0 objs n =
     (let ob = objs ! n in
      FileNode (no_id ob) (no_name ob) (no_path ob) (no_size ob) (no_selected ob) [])"
| "read_node (Suc depth) objs n =
     (let ob = objs ! n in
      FileNode (no_id ob) (no_name ob) (no_path ob) (no_size ob) (no_selected ob)
        (map (read_node depth objs) (no_children ob)))"

definition longest :: "content_file list \<Rightarrow> nat" where
  "longest es = foldr (\<lambda>e m. max (length (full_path e)) m) es 0"

definition buildFileTree :: "content_file list \<Rightarrow> file_node list" where
  "buildFileTree es =
     (let b = add_entries 0 es empty_builder in
      map (read_node (longest es) (tb_objs b)) (tb_tree b))"

text \<open>
  The shape of every traversal in the dialog: visit a node, then its children.
\<close>

lemma child_smaller [termination_simp]: "c \<in> set (n_children n) \<Longrightarrow> size c < size n"
proof (cases n)
  case (FileNode i nm p s sel cs)
  moreover assume "c \<in> set (n_children n)"
  ultimately have "c \<in> set cs" by simp
  then have "size c \<le> size_list size cs" by (rule size_list_estimation') simp
  then show ?thesis by (simp add: FileNode)
qed

fun preorder :: "file_node \<Rightarrow> file_node list" where
  "preorder n = n # concat (map preorder (n_children n))"

declare preorder.simps [simp del]

fun walk :: "(file_node \<Rightarrow> 's \<Rightarrow> 's) \<Rightarrow> file_node \<Rightarrow> 's \<Rightarrow> 's" where
  "walk visit n acc = fold (walk visit) (n_children n) (visit n acc)"

declare walk.simps [simp del]

definition all_nodes :: "file_node list \<Rightarrow> file_node list" where
  "all_nodes ns = concat (map preorder ns)"

lemma walk_fold: "walk visit n = fold visit (preorder n)"
proof (induction n)
  case (FileNode i nm p s sel cs)
  have "fold (walk visit) cs acc = fold visit (concat (map preorder cs)) acc" for acc
    using FileNode by (induction cs arbitrary: acc) auto
  then show ?case
    by (simp add: fun_eq_iff walk.simps [of visit "FileNode i nm p s sel cs"]
        preorder.simps [of "FileNode i nm p s sel cs"])
qed

lemma walk_forest: "fold (walk visit) ns acc = fold visit (all_nodes ns) acc"
  by (induction ns arbitrary: acc) (auto simp: all_nodes_def walk_fold)

subsection \<open>The object graph is a forest\<close>

declare mset_upt [simp del]

text \<open>
  Invariant of the builder. \<open>ks\<close> records the key each object was registered under and
  \<open>pend\<close> the objects not yet pushed anywhere: every other object is a root or
  a child, exactly once, and keys grow from a parent to its children.
\<close>

definition kids :: "node_obj list \<Rightarrow> nat multiset \<Rightarrow> nat multiset" where
  "kids objs M = (\<Sum>i \<in># M. mset (no_children (objs ! i)))"

definition owned :: "tree_builder \<Rightarrow> nat multiset" where
  "owned b = mset (tb_tree b) + kids (tb_objs b) (mset [0..<length (tb_objs b)])"

definition builder_ok :: "nat \<Rightarrow> string list \<Rightarrow> nat multiset \<Rightarrow> tree_builder \<Rightarrow> bool" where
  "builder_ok bound ks pend b \<longleftrightarrow>
     length ks = length (tb_objs b) \<and>
     mset [0..<length (tb_objs b)] = owned b + pend \<and>
     (\<forall>k i. jm_get (tb_nodeMap b) k = Some i \<longrightarrow> i < length ks \<and> ks ! i = k) \<and>
     (\<forall>i < length ks. \<forall>c \<in> set (no_children (tb_objs b ! i)). length (ks ! i) < length (ks ! c)) \<and>
     (\<forall>k \<in> set ks. length k \<le> bound)"

lemma kids_plus [simp]: "kids objs (M + N) = kids objs M + kids objs N"
  by (simp add: kids_def)

lemma kids_cong: "(\<And>i. i \<in># M \<Longrightarrow> no_children (objs ! i) = no_children (objs' ! i)) \<Longrightarrow>
    kids objs M = kids objs' M"
  by (simp add: kids_def cong: image_mset_cong)

lemma kids_append: "kids (objs @ [ob]) (mset [0..<length objs]) = kids objs (mset [0..<length objs])"
  by (rule kids_cong) (simp add: nth_append)

lemma kids_update:
  assumes "p < n"
  shows "kids (objs[p := (objs ! p)\<lparr> no_children := no_children (objs ! p) @ [c] \<rparr>]) (mset [0..<n]) =
    (if p < length objs then kids objs (mset [0..<n]) + {#c#} else kids objs (mset [0..<n]))"
proof (cases "p < length objs")
  case True
  have s: "mset [0..<n] = add_mset p (mset (remove1 p [0..<n]))"
    using assms by (simp add: insert_DiffM)
  have "kids (objs[p := (objs ! p)\<lparr> no_children := no_children (objs ! p) @ [c] \<rparr>])
      (mset (remove1 p [0..<n])) = kids objs (mset (remove1 p [0..<n]))"
    by (rule kids_cong) (auto simp: nth_list_update set_remove1_eq simp del: mset_remove1)
  with True show ?thesis
    unfolding s by (simp add: kids_def)
qed (simp add: list_update_beyond)

lemma builder_ok_register:
  assumes "builder_ok bound ks pend b" "length key \<le> bound" "no_children ob = []"
  shows "builder_ok bound (ks @ [key]) (add_mset (length (tb_objs b)) pend) (register key ob b)"
proof -
  let ?n = "length (tb_objs b)"
  have up: "mset [0..<Suc ?n] = add_mset ?n (mset [0..<?n])" by simp
  have "owned (register key ob b) = owned b"
    using assms(3) kids_append [of "tb_objs b" ob]
    by (simp add: owned_def register_def up kids_def del: upt.simps)
  moreover have ch: "\<forall>i < Suc ?n. \<forall>c \<in> set (no_children ((tb_objs b @ [ob]) ! i)).
      c < ?n \<and> i < ?n \<and> c \<in> set (no_children (tb_objs b ! i))"
  proof (intro allI impI ballI)
    fix i c assume i: "i < Suc ?n" and c: "c \<in> set (no_children ((tb_objs b @ [ob]) ! i))"
    with assms(3) have in': "i < ?n" by (cases "i = ?n") auto
    with c have c': "c \<in> set (no_children (tb_objs b ! i))" by (simp add: nth_append)
    have "c \<in># owned b"
      using in' c' by (auto simp: owned_def kids_def)
    moreover have "mset [0..<?n] = owned b + pend"
      using assms(1) by (simp add: builder_ok_def)
    ultimately have "c \<in># mset [0..<?n]" by (metis union_iff)
    with in' c' show "c < ?n \<and> i < ?n \<and> c \<in> set (no_children (tb_objs b ! i))" by simp
  qed
  moreover have len: "length ks = ?n" using assms(1) by (simp add: builder_ok_def)
  moreover have "length ((ks @ [key]) ! i) < length ((ks @ [key]) ! c)"
    if "i < Suc ?n" "c \<in> set (no_children ((tb_objs b @ [ob]) ! i))" for i c
  proof -
    have "c < ?n" "i < ?n" "c \<in> set (no_children (tb_objs b ! i))" using ch that by blast+
    then show ?thesis using assms(1) len by (simp add: builder_ok_def nth_append)
  qed
  moreover have "i < Suc ?n \<and> (ks @ [key]) ! i = k"
    if "jm_get (tb_nodeMap (register key ob b)) k = Some i" for k i
  proof (cases "k = key")
    case True
    with that len show ?thesis by (simp add: register_def jm_simps nth_append)
  next
    case False
    with that have "jm_get (tb_nodeMap b) k = Some i" by (simp add: register_def jm_simps)
    with assms(1) len have "i < ?n \<and> ks ! i = k" by (auto simp: builder_ok_def)
    then show ?thesis using len by (simp add: nth_append)
  qed
  moreover have "mset [0..<?n] = owned b + pend" "\<forall>k \<in> set ks. length k \<le> bound"
    using assms(1) by (simp_all add: builder_ok_def)
  ultimately show ?thesis
    using assms(2) up
    by (simp add: builder_ok_def register_def)
qed

lemma builder_ok_push_child:
  assumes "builder_ok bound ks (add_mset c pend) b" "p < length ks"
    "length (ks ! p) < length (ks ! c)"
  shows "builder_ok bound ks pend (push_child p c b)"
proof -
  have p: "p < length (tb_objs b)" using assms(1,2) by (simp add: builder_ok_def)
  have "owned (push_child p c b) = add_mset c (owned b)"
    using kids_update [OF p, of "tb_objs b" c] p by (simp add: owned_def push_child_def)
  with assms p show ?thesis
    by (auto simp: builder_ok_def push_child_def nth_list_update)
qed

lemma builder_ok_push_root:
  "builder_ok bound ks (add_mset c pend) b \<Longrightarrow> builder_ok bound ks pend (push_root c b)"
  by (auto simp: builder_ok_def push_root_def owned_def)

text \<open>What a node shows, apart from its children.\<close>

type_synonym node_view = "string \<times> string \<times> string \<times> int \<times> bool"

definition obj_view :: "node_obj \<Rightarrow> node_view" where
  "obj_view ob = (no_id ob, no_name ob, no_path ob, no_size ob, no_selected ob)"

definition node_view :: "file_node \<Rightarrow> node_view" where
  "node_view n = (n_id n, n_name n, n_path n, n_size n, n_selected n)"

definition dir_view :: "string \<times> string \<Rightarrow> node_view" where
  "dir_view d = obj_view (dir_obj (fst d) (snd d))"

definition views :: "tree_builder \<Rightarrow> node_view list" where
  "views b = map obj_view (tb_objs b)"

fun file_views :: "nat \<Rightarrow> content_file list \<Rightarrow> node_view list" where
  "file_views i [] = []"
| "file_views i (e # es) = obj_view (file_obj i e) # file_views (Suc i) es"

lemma views_simps [simp]:
  "views (register k ob b) = views b @ [obj_view ob]"
  "views (push_child p c b) = views b"
  "views (push_root c b) = views b"
  "views (attach par c b) = views b"
proof -
  show *: "views (push_child p c b) = views b" for p
    by (cases "p < length (tb_objs b)")
      (auto simp: views_def push_child_def map_update obj_view_def list_update_beyond
        intro!: list_update_same_conv [THEN iffD2])
  show "views (push_root c b) = views b" by (simp add: views_def push_root_def)
  then show "views (attach par c b) = views b"
    using * by (simp add: attach_def split: option.splits)
  show "views (register k ob b) = views b @ [obj_view ob]"
    by (simp add: views_def register_def)
qed

lemma map_simps [simp]:
  "tb_nodeMap (push_child p c b) = tb_nodeMap b"
  "tb_nodeMap (push_root c b) = tb_nodeMap b"
  "tb_nodeMap (attach par c b) = tb_nodeMap b"
  "tb_nodeMap (register k ob b) = jm_set k (length (tb_objs b)) (tb_nodeMap b)"
  by (simp_all add: push_child_def push_root_def attach_def register_def split: option.splits)

fun final_path :: "nat \<Rightarrow> string \<Rightarrow> string list \<Rightarrow> string" where
  "final_path i cur [] = cur"
| "final_path i cur (p # ps) = final_path (Suc i) (extend_path i cur p) ps"

lemma final_path_later: "0 < i \<Longrightarrow> final_path i cur ps = js_join ''/'' (cur # ps)"
proof (induction i cur ps rule: final_path.induct)
  case (2 i cur p ps)
  then show ?case by (cases ps) (simp_all add: extend_path_def)
qed simp

lemma final_path_join: "final_path 0 [] ps = js_join ''/'' ps"
  by (cases ps) (simp_all add: extend_path_def final_path_later)

lemma final_path_longer: "0 < i \<Longrightarrow> length cur \<le> length (final_path i cur ps)"
  by (subst final_path_later, assumption, cases ps) simp_all

text \<open>The path of the directory the loop stands at, if it stands at one.\<close>

definition at_dir :: "nat \<Rightarrow> string \<Rightarrow> nat option \<Rightarrow> string list \<Rightarrow> bool" where
  "at_dir i cur par ks \<longleftrightarrow>
     (if i = 0 then par = None else (\<exists>p. par = Some p \<and> p < length ks \<and> ks ! p = cur))"

lemma at_dir_append: "at_dir i cur par ks \<Longrightarrow> at_dir i cur par (ks @ ks')"
  by (auto simp: at_dir_def nth_append split: if_splits)

lemma builder_ok_new_dir:
  assumes "builder_ok bound ks pend b" "at_dir i cur par ks"
    "length (extend_path i cur part) \<le> bound"
  shows "builder_ok bound (ks @ [extend_path i cur part]) pend
    (attach par (length (tb_objs b)) (register (extend_path i cur part) (dir_obj path part) b))"
proof -
  let ?k = "extend_path i cur part" and ?n = "length (tb_objs b)"
  have n: "length ks = ?n" using assms(1) by (simp add: builder_ok_def)
  have r: "builder_ok bound (ks @ [?k]) (add_mset ?n pend) (register ?k (dir_obj path part) b)"
    using assms by (intro builder_ok_register) (simp_all add: dir_obj_def)
  show ?thesis
  proof (cases "i = 0")
    case True
    with assms(2) r show ?thesis
      by (simp add: at_dir_def attach_def builder_ok_push_root)
  next
    case False
    with assms(2) obtain p where p: "par = Some p" "p < length ks" "ks ! p = cur"
      by (auto simp: at_dir_def)
    have "builder_ok bound (ks @ [?k]) pend (push_child p ?n (register ?k (dir_obj path part) b))"
      by (rule builder_ok_push_child [OF r])
        (use p n False in \<open>simp_all add: nth_append extend_path_def\<close>)
    with p show ?thesis by (simp add: attach_def)
  qed
qed

text \<open>New directories: one per path, none for a path that is already taken.\<close>

definition fresh_dirs :: "tree_builder \<Rightarrow> (string \<times> string) list \<Rightarrow> tree_builder \<Rightarrow> bool" where
  "fresh_dirs b ds b' \<longleftrightarrow>
     distinct (map fst ds) \<and> fst ` set ds \<inter> jm_keys (tb_nodeMap b) = {} \<and>
     jm_keys (tb_nodeMap b) \<union> fst ` set ds \<subseteq> jm_keys (tb_nodeMap b')"

lemma make_dirs_ok:
  assumes "builder_ok bound ks pend b" "at_dir i cur par ks"
    "length (final_path i cur parts) \<le> bound"
    "make_dirs i parts cur par b = (par', b')"
  shows "\<exists>ks' ds. builder_ok bound (ks @ ks') pend b' \<and>
    at_dir (i + length parts) (final_path i cur parts) par' (ks @ ks') \<and>
    views b' = views b @ map dir_view ds \<and> fresh_dirs b ds b'"
  using assms
proof (induction i parts cur par b arbitrary: ks rule: make_dirs.induct)
  case (1 i cur par b)
  then show ?case
    by (intro exI [of _ "[]"]) (auto simp: fresh_dirs_def)
next
  case (2 i part parts cur par b)
  let ?k = "extend_path i cur part" and ?n = "length (tb_objs b)"
  have n: "length ks = ?n" using "2.prems"(1) by (simp add: builder_ok_def)
  have bound: "length ?k \<le> bound"
    using "2.prems"(3) final_path_longer [of "Suc i" ?k parts] by simp
  have len: "length (final_path (Suc i) ?k parts) \<le> bound" using "2.prems"(3) by simp
  show ?case
  proof (cases "jm_get (tb_nodeMap b) ?k")
    case (Some d)
    with "2.prems"(1) n have d: "d < length ks" "ks ! d = ?k" by (auto simp: builder_ok_def)
    have st: "make_dirs (Suc i) parts ?k (Some d) b = (par', b')"
      using "2.prems"(4) Some by (simp add: Let_def)
    have at: "at_dir (Suc i) ?k (Some d) ks" using d by (simp add: at_dir_def)
    from "2.IH"(2) [OF refl Some "2.prems"(1) at len st] show ?thesis by simp
  next
    case None
    let ?b1 = "attach par ?n (register ?k (dir_obj ?k part) b)"
    have ok: "builder_ok bound (ks @ [?k]) pend ?b1"
      by (rule builder_ok_new_dir [OF "2.prems"(1,2) bound])
    have at: "at_dir (Suc i) ?k (Some ?n) (ks @ [?k])" using n by (simp add: at_dir_def nth_append)
    have st: "make_dirs (Suc i) parts ?k (Some ?n) ?b1 = (par', b')"
      using "2.prems"(4) None by (simp add: Let_def)
    from "2.IH"(1) [OF refl None refl refl ok at len st] obtain ks' ds where
      r: "builder_ok bound ((ks @ [?k]) @ ks') pend b'"
        "at_dir (Suc i + length parts) (final_path (Suc i) ?k parts) par' ((ks @ [?k]) @ ks')"
        "views b' = views ?b1 @ map dir_view ds" "fresh_dirs ?b1 ds b'"
      by blast
    have "views b' = views b @ map dir_view ((?k, part) # ds)"
      using r(3) by (simp add: dir_view_def)
    moreover have "fresh_dirs b ((?k, part) # ds) b'"
      using r(4) None by (auto simp: fresh_dirs_def jm_simps jm_get_None)
    ultimately show ?thesis
      using r(1,2) by (intro exI [of _ "?k # ks'"] exI [of _ "(?k, part) # ds"]) simp
  qed
qed

lemma join_butlast:
  "length ps > 1 \<Longrightarrow> js_join ''/'' ps = js_join ''/'' (butlast ps) @ ''/'' @ last ps"
proof (induction ps rule: induct_list012)
  case (3 x y zs)
  then show ?case by (cases zs) simp_all
qed simp_all

lemma add_entry_ok:
  assumes "builder_ok bound ks {#} b" "length (full_path e) \<le> bound"
  shows "\<exists>ks' ds. builder_ok bound (ks @ ks') {#} (add_entry i e b) \<and>
    views (add_entry i e b) = views b @ obj_view (file_obj i e) # map dir_view ds \<and>
    fresh_dirs b ds (add_entry i e b)"
proof -
  let ?n = "length (tb_objs b)" and ?parts = "butlast (cf_path e)"
  let ?b1 = "register (full_path e) (file_obj i e) b" and ?ks1 = "ks @ [full_path e]"
  have n: "length ks = ?n" using assms(1) by (simp add: builder_ok_def)
  have ok1: "builder_ok bound ?ks1 {#?n#} ?b1"
    using builder_ok_register [OF assms, of "file_obj i e"] by (simp add: file_obj_def)
  have sub: "fresh_dirs ?b1 ds b' \<Longrightarrow> fresh_dirs b ds b'" for ds b'
    by (auto simp: fresh_dirs_def jm_simps)
  show ?thesis
  proof (cases "length (cf_path e) > 1")
    case False
    have "builder_ok bound ?ks1 {#} (push_root ?n ?b1)"
      using ok1 by (intro builder_ok_push_root) simp
    with False show ?thesis
      by (intro exI [of _ "[full_path e]"] exI [of _ "[]"])
        (auto simp: add_entry_def fresh_dirs_def jm_simps Let_def)
  next
    case True
    let ?pp = "js_join ''/'' ?parts"
    have shorter: "length ?pp < length (full_path e)"
      using join_butlast [OF True] by (simp add: full_path_def)
    show ?thesis
    proof (cases "jm_get (tb_nodeMap ?b1) ?pp")
      case (Some p)
      then have "p < length ?ks1 \<and> ?ks1 ! p = ?pp"
        using ok1 unfolding builder_ok_def by blast
      then have "builder_ok bound ?ks1 {#} (push_child p ?n ?b1)"
        using ok1 shorter n by (intro builder_ok_push_child) (auto simp: nth_append)
      with True Some show ?thesis
        by (intro exI [of _ "[full_path e]"] exI [of _ "[]"])
          (auto simp: add_entry_def fresh_dirs_def jm_simps Let_def)
    next
      case None
      obtain par b2 where m: "make_dirs 0 ?parts [] None ?b1 = (par, b2)"
        by (cases "make_dirs 0 ?parts [] None ?b1")
      have bound: "length (final_path 0 [] ?parts) \<le> bound"
        using shorter assms(2) by (simp add: final_path_join)
      have at: "at_dir 0 [] None ?ks1" by (simp add: at_dir_def)
      from make_dirs_ok [OF ok1 at bound m] obtain ks' ds where
        r: "builder_ok bound (?ks1 @ ks') {#?n#} b2"
          "at_dir (0 + length ?parts) (final_path 0 [] ?parts) par (?ks1 @ ks')"
          "views b2 = views ?b1 @ map dir_view ds" "fresh_dirs ?b1 ds b2"
        by blast
      have "length ?parts > 0" using True by simp
      with r(2) obtain p where p: "par = Some p" "p < length (?ks1 @ ks')" "(?ks1 @ ks') ! p = ?pp"
        unfolding at_dir_def final_path_join by (metis add_0 less_irrefl)
      have "(?ks1 @ ks') ! ?n = full_path e" using n by (simp add: nth_append)
      then have "builder_ok bound (?ks1 @ ks') {#} (push_child p ?n b2)"
        using builder_ok_push_child [of bound "?ks1 @ ks'" ?n "{#}" b2 p] r(1) p shorter by simp
      moreover have "add_entry i e b = push_child p ?n b2"
        using True None m p(1) by (simp add: add_entry_def Let_def)
      moreover have "fresh_dirs b ds (push_child p ?n b2)"
        using sub [OF r(4)] by (simp add: fresh_dirs_def)
      ultimately show ?thesis
        using r(3) by (intro exI [of _ "full_path e # ks'"] exI [of _ ds]) simp
    qed
  qed
qed

lemma fresh_dirs_append:
  "fresh_dirs b ds b' \<Longrightarrow> fresh_dirs b' ds' b'' \<Longrightarrow> fresh_dirs b (ds @ ds') b''"
proof -
  assume a: "fresh_dirs b ds b'" "fresh_dirs b' ds' b''"
  then have "fst ` set ds \<inter> fst ` set ds' = {}" unfolding fresh_dirs_def by blast
  moreover have "fst ` set ds' \<inter> jm_keys (tb_nodeMap b) = {}" "jm_keys (tb_nodeMap b) \<union> fst ` set ds \<subseteq> jm_keys (tb_nodeMap b'')"
    using a unfolding fresh_dirs_def by blast+
  ultimately show ?thesis
    using a unfolding fresh_dirs_def set_append image_Un map_append distinct_append set_map
    by (simp only: Int_Un_distrib2 Un_subset_iff) blast
qed

lemma add_entries_ok:
  assumes "builder_ok bound ks {#} b" "\<forall>e \<in> set es. length (full_path e) \<le> bound"
  shows "\<exists>ks' ds. builder_ok bound (ks @ ks') {#} (add_entries i es b) \<and>
    mset (views (add_entries i es b)) =
      mset (views b) + mset (file_views i es) + mset (map dir_view ds) \<and>
    fresh_dirs b ds (add_entries i es b)"
  using assms
proof (induction i es b arbitrary: ks rule: add_entries.induct)
  case (1 i b)
  then show ?case by (intro exI [of _ "[]"]) (simp add: fresh_dirs_def)
next
  case (2 i e es b)
  have "length (full_path e) \<le> bound" using "2.prems"(2) by simp
  from add_entry_ok [OF "2.prems"(1) this, of i] obtain ks1 ds1 where
    r1: "builder_ok bound (ks @ ks1) {#} (add_entry i e b)"
      "views (add_entry i e b) = views b @ obj_view (file_obj i e) # map dir_view ds1"
      "fresh_dirs b ds1 (add_entry i e b)"
    by blast
  have "\<forall>e \<in> set es. length (full_path e) \<le> bound" using "2.prems"(2) by simp
  from "2.IH" [OF r1(1) this] obtain ks2 ds2 where
    r2: "builder_ok bound ((ks @ ks1) @ ks2) {#} (add_entries i (e # es) b)"
      "mset (views (add_entries i (e # es) b)) =
        mset (views (add_entry i e b)) + mset (file_views (Suc i) es) + mset (map dir_view ds2)"
      "fresh_dirs (add_entry i e b) ds2 (add_entries i (e # es) b)"
    by auto
  then show ?case
    using r1(2) fresh_dirs_append [OF r1(3) r2(3)]
    by (intro exI [of _ "ks1 @ ks2"] exI [of _ "ds1 @ ds2"]) simp
qed

text \<open>The objects a traversal of the finished graph meets, in its order.\<close>

fun ids :: "nat \<Rightarrow> node_obj list \<Rightarrow> nat \<Rightarrow> nat list" where
  "ids 0 objs n = [n]"
| "ids (Suc d) objs n = n # concat (map (ids d objs) (no_children (objs ! n)))"

lemma preorder_read: "map node_view (preorder (read_node d objs n)) =
    map (\<lambda>i. obj_view (objs ! i)) (ids d objs n)"
proof (induction d arbitrary: n)
  case 0
  show ?case
    by (simp add: Let_def preorder.simps node_view_def obj_view_def)
next
  case (Suc d)
  have *: "map node_view (concat (map (preorder \<circ> read_node d objs) cs)) =
      map (\<lambda>i. obj_view (objs ! i)) (concat (map (ids d objs) cs))" for cs
    using Suc by (induction cs) simp_all
  show ?case
    by (simp add: Let_def preorder.simps [of "FileNode _ _ _ _ _ _"] *)
      (simp add: node_view_def obj_view_def)
qed

definition visited :: "nat \<Rightarrow> node_obj list \<Rightarrow> nat multiset \<Rightarrow> nat multiset" where
  "visited d objs M = (\<Sum>n \<in># M. mset (ids d objs n))"

lemma visited_plus [simp]: "visited d objs (M + N) = visited d objs M + visited d objs N"
  by (simp add: visited_def)

lemma visited_0: "visited 0 objs M = M"
  by (induction M) (simp_all add: visited_def)

lemma visited_mset: "visited d objs (mset xs) = mset (concat (map (ids d objs) xs))"
  by (induction xs) (simp_all add: visited_def)

lemma visited_Suc: "visited (Suc d) objs M = M + visited d objs (kids objs M)"
proof (induction M)
  case (add x M)
  have "visited (Suc d) objs (add_mset x M) =
      add_mset x (mset (concat (map (ids d objs) (no_children (objs ! x))))) + visited (Suc d) objs M"
    by (simp add: visited_def)
  moreover have "kids objs (add_mset x M) = mset (no_children (objs ! x)) + kids objs M"
    by (simp add: kids_def)
  ultimately show ?case
    using add by (simp add: visited_mset)
qed (simp add: visited_def kids_def)

text \<open>
  If every object is a root or somebody's child exactly once, a traversal to depth \<open>d\<close>
  misses only what lies \<open>d + 1\<close> levels below some object.
\<close>

lemma visited_unroll:
  "A = R + kids objs A \<Longrightarrow> A = visited d objs R + (kids objs ^^ Suc d) A"
proof (induction d arbitrary: A R)
  case 0
  then show ?case by (simp add: visited_0)
next
  case (Suc d)
  have "kids objs A = kids objs R + kids objs (kids objs A)"
    using arg_cong [OF Suc.prems, of "kids objs"] by simp
  from Suc.IH [OF this] have "kids objs A =
      visited d objs (kids objs R) + (kids objs ^^ Suc (Suc d)) A"
    by (simp only: funpow_Suc_right comp_def)
  then have "R + kids objs A = visited (Suc d) objs R + (kids objs ^^ Suc (Suc d)) A"
    by (simp add: visited_Suc ac_simps)
  with Suc.prems show ?case by metis
qed

lemma deep_keys:
  assumes "\<forall>i < length ks. \<forall>c \<in> set (no_children (objs ! i)). c < length ks \<and> length (ks ! i) < length (ks ! c)"
    "\<forall>i \<in># M. i < length ks"
  shows "\<forall>i \<in># (kids objs ^^ d) M. i < length ks \<and> d \<le> length (ks ! i)"
proof (induction d)
  case 0
  then show ?case using assms(2) by simp
next
  case (Suc d)
  show ?case
  proof
    fix c assume "c \<in># (kids objs ^^ Suc d) M"
    then obtain i where i: "i \<in># (kids objs ^^ d) M" "c \<in> set (no_children (objs ! i))"
      by (auto simp: kids_def)
    with Suc have "i < length ks" "d \<le> length (ks ! i)" by blast+
    with assms(1) i(2) have "c < length ks" "length (ks ! i) < length (ks ! c)" by blast+
    with \<open>d \<le> length (ks ! i)\<close> show "c < length ks \<and> Suc d \<le> length (ks ! c)" by simp
  qed
qed

lemma ids_cover:
  assumes ok: "builder_ok bound ks {#} b"
  shows "mset (concat (map (ids bound (tb_objs b)) (tb_tree b))) = mset [0..<length (tb_objs b)]"
proof -
  let ?objs = "tb_objs b" and ?A = "mset [0..<length (tb_objs b)]"
  have n: "length ks = length ?objs" and A: "?A = mset (tb_tree b) + kids ?objs ?A"
    using ok by (simp_all add: builder_ok_def owned_def)
  have "c < length ks" if "i < length ks" "c \<in> set (no_children (?objs ! i))" for i c
  proof -
    have "c \<in># kids ?objs ?A" using that n by (auto simp: kids_def)
    then have "c \<in># ?A" using A by (metis union_iff)
    then show ?thesis using n by simp
  qed
  then have edges: "\<forall>i < length ks. \<forall>c \<in> set (no_children (?objs ! i)).
      c < length ks \<and> length (ks ! i) < length (ks ! c)"
    using ok by (auto simp: builder_ok_def)
  have "\<forall>i \<in># ?A. i < length ks" using n by simp
  from deep_keys [OF edges this, of "Suc bound"]
  have "i < length ks \<and> Suc bound \<le> length (ks ! i)"
    if "i \<in># (kids ?objs ^^ Suc bound) ?A" for i
    using that by blast
  moreover have "\<forall>k \<in> set ks. length k \<le> bound" using ok by (simp add: builder_ok_def)
  ultimately have "i \<notin># (kids ?objs ^^ Suc bound) ?A" for i
    by (metis nth_mem not_less_eq_eq)
  then have "(kids ?objs ^^ Suc bound) ?A = {#}" by (metis multiset_nonemptyE)
  with visited_unroll [OF A, of bound] show ?thesis
    by (simp add: visited_mset)
qed

subsection \<open>Every entry is in the tree, once\<close>

lemma longest_le: "e \<in> set es \<Longrightarrow> length (full_path e) \<le> longest es"
  by (induction es) (auto simp: longest_def)

lemma views_at: "map (\<lambda>i. obj_view (tb_objs b ! i)) [0..<length (tb_objs b)] = views b"
  by (rule nth_equalityI) (simp_all add: views_def)

lemma build_invariant: "\<exists>ks ds. builder_ok (longest es) ks {#} (add_entries 0 es empty_builder) \<and>
    mset (views (add_entries 0 es empty_builder)) = mset (file_views 0 es) + mset (map dir_view ds) \<and>
    distinct (map fst ds)"
proof -
  have "builder_ok (longest es) [] {#} empty_builder"
    by (simp add: builder_ok_def empty_builder_def owned_def kids_def jm_simps)
  from add_entries_ok [OF this, of es 0] longest_le show ?thesis
    by (auto simp: fresh_dirs_def views_def empty_builder_def)
qed

lemma build_nodes: "mset (map node_view (all_nodes (buildFileTree es))) =
    mset (views (add_entries 0 es empty_builder))"
proof -
  let ?b = "add_entries 0 es empty_builder" and ?k = "longest es"
  obtain ks where ok: "builder_ok ?k ks {#} ?b" using build_invariant by blast
  have "map node_view (all_nodes (map (read_node ?k (tb_objs ?b)) ns)) =
      map (\<lambda>i. obj_view (tb_objs ?b ! i)) (concat (map (ids ?k (tb_objs ?b)) ns))" for ns
    by (induction ns) (simp_all add: all_nodes_def preorder_read)
  then have "mset (map node_view (all_nodes (buildFileTree es))) =
      image_mset (\<lambda>i. obj_view (tb_objs ?b ! i)) (mset [0..<length (tb_objs ?b)])"
    using ids_cover [OF ok] unfolding buildFileTree_def by (metis (no_types, lifting) mset_map)
  also have "\<dots> = mset (views ?b)"
    by (metis mset_map views_at)
  finally show ?thesis .
qed

lemma build_views: "\<exists>ds. distinct (map fst ds) \<and>
    mset (map node_view (all_nodes (buildFileTree es))) =
      mset (file_views 0 es) + mset (map dir_view ds)"
  using build_invariant [of es] unfolding build_nodes by blast

subsection \<open>The directories that are made up\<close>

text \<open>
  The reference: for each entry in turn, if no node stands yet under the path of its directory, one
  directory for each proper prefix of its path under which no node stands. \<open>taken\<close> are the paths
  under which a node stands.
\<close>

fun missing_dirs :: "string set \<Rightarrow> content_file list \<Rightarrow> (string \<times> string) list" where
  "missing_dirs taken [] = []"
| "missing_dirs taken (e # es) =
     (let taken1 = insert (js_join ''/'' (cf_path e)) taken;
          dirs = map (\<lambda>p. (js_join ''/'' p, last p)) (tl (prefixes (butlast (cf_path e))));
          made = (if js_join ''/'' (butlast (cf_path e)) \<in> taken1 then []
                 else filter (\<lambda>d. fst d \<notin> taken1) dirs) in
      made @ missing_dirs (taken1 \<union> fst ` set made) es)"

fun path_dirs :: "nat \<Rightarrow> string \<Rightarrow> string list \<Rightarrow> (string \<times> string) list" where
  "path_dirs i cur [] = []"
| "path_dirs i cur (part # parts) =
     (extend_path i cur part, part) # path_dirs (Suc i) (extend_path i cur part) parts"

lemma path_dirs_longer: "0 < i \<Longrightarrow> d \<in> set (path_dirs i cur ps) \<Longrightarrow> length cur < length (fst d)"
proof (induction i cur ps rule: path_dirs.induct)
  case (2 i cur part parts)
  then have "d = (extend_path i cur part, part) \<or> length (extend_path i cur part) < length (fst d)" by auto
  moreover have "length cur < length (extend_path i cur part)" using "2.prems"(1) by (simp add: extend_path_def)
  ultimately show ?case by auto
qed simp

lemma path_dirs_distinct: "distinct (map fst (path_dirs i cur ps))"
proof (induction i cur ps rule: path_dirs.induct)
  case (2 i cur part parts)
  then show ?case using path_dirs_longer [of "Suc i" _ "extend_path i cur part" parts] by fastforce
qed simp

lemma tl_prefixes_Cons: "tl (prefixes (x # xs)) = [x] # map (Cons x) (tl (prefixes xs))"
  by (cases xs) simp_all

lemma tl_prefixes_ne: "p \<in> set (tl (prefixes xs)) \<Longrightarrow> p \<noteq> []"
  by (cases xs) auto

lemma path_dirs_later: "0 < i \<Longrightarrow>
    path_dirs i cur ps = map (\<lambda>p. (js_join ''/'' (cur # p), last p)) (tl (prefixes ps))"
proof (induction i cur ps rule: path_dirs.induct)
  case (2 i cur part parts)
  have j: "js_join ''/'' ((cur @ ''/'' @ part) # p) = js_join ''/'' (cur # part # p)" for p
    by (cases p) simp_all
  show ?case
    unfolding tl_prefixes_Cons
    using 2 j by (auto simp: extend_path_def dest: tl_prefixes_ne)
qed simp

lemma path_dirs_prefixes: "path_dirs 0 [] ps = map (\<lambda>p. (js_join ''/'' p, last p)) (tl (prefixes ps))"
proof (cases ps)
  case (Cons part parts)
  show ?thesis
    unfolding Cons tl_prefixes_Cons
    by (auto simp: extend_path_def path_dirs_later dest: tl_prefixes_ne)
qed simp

lemma make_dirs_views:
  assumes "make_dirs i parts cur par b = (par', b')"
  shows "views b' = views b @ map dir_view (filter (\<lambda>d. fst d \<notin> jm_keys (tb_nodeMap b)) (path_dirs i cur parts)) \<and>
    jm_keys (tb_nodeMap b') = jm_keys (tb_nodeMap b) \<union> fst ` set (path_dirs i cur parts)"
  using assms
proof (induction i parts cur par b rule: make_dirs.induct)
  case (2 i part parts cur par b)
  let ?k = "extend_path i cur part" and ?n = "length (tb_objs b)"
  show ?case
  proof (cases "jm_get (tb_nodeMap b) ?k")
    case (Some d)
    then have k: "?k \<in> jm_keys (tb_nodeMap b)" by (metis jm_get_None option.distinct(1))
    have st: "make_dirs (Suc i) parts ?k (Some d) b = (par', b')"
      using "2.prems" Some by (simp add: Let_def)
    from "2.IH"(2) [OF refl Some st] k show ?thesis by auto
  next
    case None
    let ?b1 = "attach par ?n (register ?k (dir_obj ?k part) b)"
    have k: "?k \<notin> jm_keys (tb_nodeMap b)" using None by (simp add: jm_get_None)
    have st: "make_dirs (Suc i) parts ?k (Some ?n) ?b1 = (par', b')"
      using "2.prems" None by (simp add: Let_def)
    have keys: "jm_keys (tb_nodeMap ?b1) = insert ?k (jm_keys (tb_nodeMap b))" by (simp add: jm_simps)
    have "filter (\<lambda>d. fst d \<notin> jm_keys (tb_nodeMap ?b1)) (path_dirs (Suc i) ?k parts) =
        filter (\<lambda>d. fst d \<notin> jm_keys (tb_nodeMap b)) (path_dirs (Suc i) ?k parts)"
      unfolding keys by (rule filter_cong [OF refl]) (use path_dirs_longer in fastforce)
    with "2.IH"(1) [OF refl None refl refl st] k show ?thesis
      by (simp add: jm_simps dir_view_def)
  qed
qed simp

lemma add_entry_views:
  defines "made b e \<equiv> missing_dirs (jm_keys (tb_nodeMap b)) [e]"
  shows "views (add_entry i e b) = views b @ obj_view (file_obj i e) # map dir_view (made b e) \<and>
    jm_keys (tb_nodeMap (add_entry i e b)) =
      insert (full_path e) (jm_keys (tb_nodeMap b)) \<union> fst ` set (made b e)"
proof -
  let ?n = "length (tb_objs b)" and ?parts = "butlast (cf_path e)"
  let ?b1 = "register (full_path e) (file_obj i e) b"
  let ?dirs = "path_dirs 0 [] ?parts" and ?taken = "insert (full_path e) (jm_keys (tb_nodeMap b))"
  have keys: "jm_keys (tb_nodeMap ?b1) = ?taken" by (simp add: jm_simps)
  have made: "made b e = (if js_join ''/'' ?parts \<in> ?taken then [] else filter (\<lambda>d. fst d \<notin> ?taken) ?dirs)"
    by (simp add: made_def path_dirs_prefixes full_path_def Let_def)
  show ?thesis
  proof (cases "length (cf_path e) > 1")
    case False
    then have "?parts = []" by (cases "cf_path e"; cases "tl (cf_path e)") auto
    with False keys show ?thesis by (simp add: made add_entry_def Let_def)
  next
    case True
    show ?thesis
    proof (cases "jm_get (tb_nodeMap ?b1) (js_join ''/'' ?parts)")
      case (Some p)
      then have "js_join ''/'' ?parts \<in> ?taken" by (metis jm_get_None keys option.distinct(1))
      with True Some keys show ?thesis by (simp add: made add_entry_def Let_def del: map_simps(4))
    next
      case None
      then have no: "js_join ''/'' ?parts \<notin> ?taken" by (metis jm_get_None keys)
      obtain par b2 where m: "make_dirs 0 ?parts [] None ?b1 = (par, b2)"
        by (cases "make_dirs 0 ?parts [] None ?b1")
      note v = make_dirs_views [OF m, unfolded keys]
      have "views (add_entry i e b) = views b2 \<and> tb_nodeMap (add_entry i e b) = tb_nodeMap b2"
        using True None m by (auto simp: add_entry_def Let_def split: option.splits)
      with v no show ?thesis by (auto simp: made)
    qed
  qed
qed

lemma add_entries_views:
  "mset (views (add_entries i es b)) =
     mset (views b) + mset (file_views i es) + mset (map dir_view (missing_dirs (jm_keys (tb_nodeMap b)) es))"
proof (induction i es b rule: add_entries.induct)
  case (2 i e es b)
  note a = add_entry_views [of i e b]
  have m: "missing_dirs t (e # es) = missing_dirs t [e] @ missing_dirs (insert (full_path e) t \<union> fst ` set (missing_dirs t [e])) es" for t
    by (simp add: Let_def full_path_def)
  show ?case
    unfolding add_entries.simps m
    using 2 a by (simp del: missing_dirs.simps)
qed simp

lemma missing_dirs_distinct:
  "distinct (map fst (missing_dirs t es)) \<and> fst ` set (missing_dirs t es) \<inter> t = {}"
proof (induction es arbitrary: t)
  case (Cons e es)
  define t1 where "t1 = insert (js_join ''/'' (cf_path e)) t"
  define made where "made = (if js_join ''/'' (butlast (cf_path e)) \<in> t1 then []
      else filter (\<lambda>d. fst d \<notin> t1) (path_dirs 0 [] (butlast (cf_path e))))"
  have m: "missing_dirs t (e # es) = made @ missing_dirs (t1 \<union> fst ` set made) es"
    by (simp add: made_def t1_def Let_def path_dirs_prefixes)
  have "distinct (map fst made)"
    using path_dirs_distinct by (simp add: made_def distinct_map_filter)
  moreover have "fst ` set made \<inter> t1 = {}" by (auto simp: made_def)
  ultimately show ?case
    using Cons.IH [of "t1 \<union> fst ` set made"] unfolding m by (auto simp: t1_def)
qed simp

lemma build_missing_dirs:
  "mset (map node_view (all_nodes (buildFileTree es))) =
     mset (file_views 0 es) + mset (map dir_view (missing_dirs {} es))"
proof -
  have "mset (views (add_entries 0 es empty_builder)) =
      mset (file_views 0 es) + mset (map dir_view (missing_dirs {} es))"
    using add_entries_views [of 0 es empty_builder] by (simp add: empty_builder_def views_def jm_keys_def)
  with build_nodes [of es] show ?thesis by simp
qed

definition view_size :: "node_view \<Rightarrow> int" where
  "view_size v = (case v of (i, nm, p, s, sel) \<Rightarrow> s)"

lemma view_size_simps [simp]:
  "view_size (node_view n) = n_size n"
  "view_size (dir_view d) = 0"
  "view_size (obj_view (file_obj i e)) = cf_size e"
  by (simp_all add: view_size_def node_view_def dir_view_def obj_view_def dir_obj_def file_obj_def)

text \<open>
  The dialog recognises a file by a positive size. The nodes it recognises are the entries
  with a positive size, whatever directories were made up on the way.
\<close>

definition is_file :: "file_node \<Rightarrow> bool" where
  "is_file n \<longleftrightarrow> n_size n > 0"

definition tree_files :: "file_node list \<Rightarrow> file_node list" where
  "tree_files ns = filter is_file (all_nodes ns)"

lemma tree_files_views:
  "mset (map node_view (tree_files (buildFileTree es))) =
   mset (filter (\<lambda>v. view_size v > 0) (file_views 0 es))"
proof -
  obtain ds where "mset (map node_view (all_nodes (buildFileTree es))) =
      mset (file_views 0 es) + mset (map dir_view ds)"
    using build_views by blast
  then have "filter_mset (\<lambda>v. view_size v > 0) (mset (map node_view (all_nodes (buildFileTree es)))) =
      filter_mset (\<lambda>v. view_size v > 0) (mset (file_views 0 es))
        + filter_mset (\<lambda>v. view_size v > 0) (mset (map dir_view ds))"
    by (metis filter_union_mset)
  moreover have "filter_mset (\<lambda>v. view_size v > 0) (mset (map dir_view ds)) = {#}"
    by (induction ds) simp_all
  moreover have "map node_view (tree_files ns) = filter (\<lambda>v. view_size v > 0) (map node_view (all_nodes ns))"
    for ns by (simp add: tree_files_def filter_map comp_def is_file_def [abs_def])
  ultimately show ?thesis by (simp add: mset_filter)
qed

definition entry_path :: "content_file \<Rightarrow> string" where
  "entry_path e = str_or (full_path e) ''download''"

definition entry_view :: "content_file \<Rightarrow> string \<times> int \<times> bool" where
  "entry_view e = (entry_path e, cf_size e, cf_priority e \<noteq> ''skip'')"

definition file_view :: "file_node \<Rightarrow> string \<times> int \<times> bool" where
  "file_view n = (n_path n, n_size n, n_selected n)"

lemma tree_files_entries:
  "mset (map file_view (tree_files (buildFileTree es))) =
   mset (map entry_view (filter (\<lambda>e. cf_size e > 0) es))"
proof -
  let ?cut = "\<lambda>v :: node_view. case v of (i, nm, p, s, sel) \<Rightarrow> (p, s, sel)"
  have "map ?cut (filter (\<lambda>v. view_size v > 0) (file_views i es)) =
      map entry_view (filter (\<lambda>e. cf_size e > 0) es)" for i
    by (induction es arbitrary: i)
      (simp_all add: entry_view_def entry_path_def, simp_all add: obj_view_def file_obj_def)
  moreover have "map file_view ns = map ?cut (map node_view ns)" for ns
    by (simp add: file_view_def node_view_def)
  ultimately show ?thesis
    using arg_cong [OF tree_files_views, of "image_mset ?cut" es] by (metis mset_map)
qed

subsection \<open>Every node is under the directory its path names\<close>

text \<open>Entries as torrents have them: at least one component, none of them empty.\<close>

definition proper_path :: "string list \<Rightarrow> bool" where
  "proper_path p \<longleftrightarrow> p \<noteq> [] \<and> [] \<notin> set p"

definition child_of :: "node_obj \<Rightarrow> node_obj \<Rightarrow> bool" where
  "child_of p c \<longleftrightarrow> no_path c = no_path p @ ''/'' @ no_name c"

definition place_ok :: "tree_builder \<Rightarrow> bool" where
  "place_ok b \<longleftrightarrow>
     (\<forall>k i. jm_get (tb_nodeMap b) k = Some i \<longrightarrow>
        i < length (tb_objs b) \<and> no_path (tb_objs b ! i) = k) \<and>
     (\<forall>i < length (tb_objs b). \<forall>c \<in> set (no_children (tb_objs b ! i)).
        c < length (tb_objs b) \<and> child_of (tb_objs b ! i) (tb_objs b ! c)) \<and>
     (\<forall>r \<in> set (tb_tree b). r < length (tb_objs b) \<and> no_path (tb_objs b ! r) = no_name (tb_objs b ! r))"

lemma place_okD:
  assumes "place_ok b"
  shows "jm_get (tb_nodeMap b) k = Some i \<Longrightarrow> i < length (tb_objs b) \<and> no_path (tb_objs b ! i) = k"
    and "i < length (tb_objs b) \<Longrightarrow> c \<in> set (no_children (tb_objs b ! i)) \<Longrightarrow>
      c < length (tb_objs b) \<and> child_of (tb_objs b ! i) (tb_objs b ! c)"
    and "r \<in> set (tb_tree b) \<Longrightarrow> r < length (tb_objs b) \<and> no_path (tb_objs b ! r) = no_name (tb_objs b ! r)"
  using assms by (simp_all add: place_ok_def)

lemma place_ok_register:
  assumes "place_ok b" "no_children ob = []" "no_path ob = key"
  shows "place_ok (register key ob b)"
  unfolding place_ok_def
proof (intro conjI allI impI ballI)
  let ?b = "register key ob b"
  fix k i assume "jm_get (tb_nodeMap ?b) k = Some i"
  then have "i < Suc (length (tb_objs b)) \<and> no_path ((tb_objs b @ [ob]) ! i) = k"
    using place_okD(1) [OF assms(1), of k i] assms(3)
    by (cases "k = key") (auto simp: jm_simps nth_append)
  then show "i < length (tb_objs ?b)" "no_path (tb_objs ?b ! i) = k"
    by (simp_all add: register_def)
next
  let ?b = "register key ob b"
  fix i c assume i: "i < length (tb_objs ?b)" "c \<in> set (no_children (tb_objs ?b ! i))"
  then have i': "i < length (tb_objs b)" "c \<in> set (no_children (tb_objs b ! i))"
    using assms(2) by (auto simp: register_def nth_append less_Suc_eq split: if_splits)
  from place_okD(2) [OF assms(1) this] i'
  show "c < length (tb_objs ?b)" "child_of (tb_objs ?b ! i) (tb_objs ?b ! c)"
    by (simp_all add: register_def nth_append)
next
  let ?b = "register key ob b"
  fix r assume "r \<in> set (tb_tree ?b)"
  from place_okD(3) [OF assms(1), of r] this
  show "r < length (tb_objs ?b)" "no_path (tb_objs ?b ! r) = no_name (tb_objs ?b ! r)"
    by (simp_all add: register_def nth_append)
qed

lemma push_child_fields [simp]:
  "length (tb_objs (push_child p c b)) = length (tb_objs b)"
  "tb_tree (push_child p c b) = tb_tree b"
  "no_path (tb_objs (push_child p c b) ! i) = no_path (tb_objs b ! i)"
  "no_name (tb_objs (push_child p c b) ! i) = no_name (tb_objs b ! i)"
  "p < length (tb_objs b) \<Longrightarrow> no_children (tb_objs (push_child p c b) ! i) =
     no_children (tb_objs b ! i) @ (if i = p then [c] else [])"
  by (cases "p < length (tb_objs b)"; cases "i = p";
      simp add: push_child_def nth_list_update list_update_beyond)+

lemma place_ok_push_child:
  assumes "place_ok b" "p < length (tb_objs b)" "c < length (tb_objs b)"
    "child_of (tb_objs b ! p) (tb_objs b ! c)"
  shows "place_ok (push_child p c b)"
  using assms by (auto simp: place_ok_def child_of_def split: if_splits)

lemma place_ok_push_root:
  "place_ok b \<Longrightarrow> r < length (tb_objs b) \<Longrightarrow> no_path (tb_objs b ! r) = no_name (tb_objs b ! r) \<Longrightarrow>
    place_ok (push_root r b)"
  by (auto simp: place_ok_def push_root_def)

definition stands_at :: "nat \<Rightarrow> string \<Rightarrow> nat option \<Rightarrow> tree_builder \<Rightarrow> bool" where
  "stands_at i cur par b \<longleftrightarrow> (if i = 0 then par = None
     else (\<exists>p. par = Some p \<and> p < length (tb_objs b) \<and> no_path (tb_objs b ! p) = cur))"

text \<open>What no step of the builder changes about the objects that exist already.\<close>

definition keeps_objs :: "tree_builder \<Rightarrow> tree_builder \<Rightarrow> bool" where
  "keeps_objs b b' \<longleftrightarrow> length (tb_objs b) \<le> length (tb_objs b') \<and>
     (\<forall>i < length (tb_objs b). no_path (tb_objs b' ! i) = no_path (tb_objs b ! i) \<and>
        no_name (tb_objs b' ! i) = no_name (tb_objs b ! i))"

lemma keeps_trans: "keeps_objs a b \<Longrightarrow> keeps_objs b c \<Longrightarrow> keeps_objs a c"
  by (auto simp: keeps_objs_def)

lemma keeps_steps [simp]:
  "keeps_objs b b" "keeps_objs b (register k ob b)" "keeps_objs b (push_root c b)"
  "keeps_objs b (push_child p c b)" "keeps_objs b (attach par c b)"
  by (auto simp: keeps_objs_def register_def push_root_def attach_def nth_append split: option.splits)

lemma place_ok_attach:
  fixes part :: string and i :: nat
  assumes b: "place_ok b" and at: "stands_at i cur par b"
  defines "path \<equiv> extend_path i cur part"
  defines "b' \<equiv> attach par (length (tb_objs b)) (register path (dir_obj path part) b)"
  shows "place_ok b' \<and> stands_at (Suc i) path (Some (length (tb_objs b))) b' \<and> keeps_objs b b'"
proof -
  let ?r = "register path (dir_obj path part) b" and ?n = "length (tb_objs b)"
  have r: "place_ok ?r" using b by (intro place_ok_register) (simp_all add: dir_obj_def)
  have n: "tb_objs ?r ! ?n = dir_obj path part" "?n < length (tb_objs ?r)"
    by (simp_all add: register_def nth_append)
  have "keeps_objs b b'" unfolding b'_def by (rule keeps_trans [of _ ?r]) simp_all
  moreover have "place_ok b' \<and> no_path (tb_objs b' ! ?n) = path \<and> ?n < length (tb_objs b')"
  proof (cases "i = 0")
    case True
    with at have "b' = push_root ?n ?r" by (simp add: b'_def stands_at_def attach_def)
    moreover have "path = part" using True by (simp add: path_def extend_path_def)
    ultimately show ?thesis
      using place_ok_push_root [OF r n(2)] n by (simp add: dir_obj_def) (simp add: push_root_def)
  next
    case False
    with at obtain p where p: "par = Some p" "p < ?n" "no_path (tb_objs b ! p) = cur"
      by (auto simp: stands_at_def)
    then have "tb_objs ?r ! p = tb_objs b ! p" "p < length (tb_objs ?r)"
      by (simp_all add: register_def nth_append)
    with place_ok_push_child [OF r this(2) n(2)] p False n show ?thesis
      by (simp add: b'_def attach_def child_of_def dir_obj_def path_def extend_path_def)
  qed
  ultimately show ?thesis by (simp add: stands_at_def)
qed

lemma make_dirs_place:
  assumes "place_ok b" "stands_at i cur par b" "make_dirs i parts cur par b = (par', b')"
  shows "place_ok b' \<and> stands_at (i + length parts) (final_path i cur parts) par' b' \<and> keeps_objs b b'"
  using assms
proof (induction i parts cur par b rule: make_dirs.induct)
  case (2 i part parts cur par b)
  let ?k = "extend_path i cur part" and ?n = "length (tb_objs b)"
  show ?case
  proof (cases "jm_get (tb_nodeMap b) ?k")
    case (Some d)
    have at: "stands_at (Suc i) ?k (Some d) b"
      using place_okD(1) [OF "2.prems"(1) Some] by (simp add: stands_at_def)
    have st: "make_dirs (Suc i) parts ?k (Some d) b = (par', b')"
      using "2.prems"(3) Some by (simp add: Let_def)
    from "2.IH"(2) [OF refl Some "2.prems"(1) at st] show ?thesis by simp
  next
    case None
    let ?b1 = "attach par ?n (register ?k (dir_obj ?k part) b)"
    from place_ok_attach [OF "2.prems"(1,2), of part]
    have a: "place_ok ?b1" "stands_at (Suc i) ?k (Some ?n) ?b1" "keeps_objs b ?b1" by simp_all
    have st: "make_dirs (Suc i) parts ?k (Some ?n) ?b1 = (par', b')"
      using "2.prems"(3) None by (simp add: Let_def)
    from "2.IH"(1) [OF refl None refl refl a(1,2) st] a(3) show ?thesis
      by (auto intro: keeps_trans)
  qed
qed simp

lemma entry_child:
  "proper_path (cf_path e) \<Longrightarrow> length (cf_path e) > 1 \<Longrightarrow>
    no_path (file_obj i e) = js_join ''/'' (butlast (cf_path e)) @ ''/'' @ no_name (file_obj i e)"
proof -
  assume p: "proper_path (cf_path e)" "length (cf_path e) > 1"
  have "last (cf_path e) \<noteq> []"
    using p(1) last_in_set [of "cf_path e"] by (metis proper_path_def)
  with p join_butlast [OF p(2)] show ?thesis
    by (auto simp: file_obj_def full_path_def str_or_def)
qed

lemma entry_root:
  "proper_path (cf_path e) \<Longrightarrow> \<not> length (cf_path e) > 1 \<Longrightarrow>
    no_path (file_obj i e) = no_name (file_obj i e)"
  by (cases "cf_path e"; cases "tl (cf_path e)")
    (auto simp: file_obj_def proper_path_def full_path_def str_or_def)

lemma full_path_ne: "proper_path (cf_path e) \<Longrightarrow> full_path e \<noteq> []"
  by (cases "cf_path e"; cases "tl (cf_path e)") (auto simp: proper_path_def full_path_def)

lemma add_entry_place:
  assumes b: "place_ok b" and e: "proper_path (cf_path e)"
  shows "place_ok (add_entry i e b)"
proof -
  let ?n = "length (tb_objs b)" and ?b1 = "register (full_path e) (file_obj i e) b"
  let ?pp = "js_join ''/'' (butlast (cf_path e))"
  have b1: "place_ok ?b1"
    using b full_path_ne [OF e]
    by (intro place_ok_register) (simp_all add: file_obj_def str_or_def)
  have n: "tb_objs ?b1 ! ?n = file_obj i e" "?n < length (tb_objs ?b1)"
    by (simp_all add: register_def nth_append)
  show ?thesis
  proof (cases "length (cf_path e) > 1")
    case False
    with place_ok_push_root [OF b1 n(2)] n entry_root [OF e False, of i] show ?thesis
      by (simp add: add_entry_def Let_def)
  next
    case True
    have push: "place_ok (push_child p ?n b2)"
      if "place_ok b2" "keeps_objs ?b1 b2" "p < length (tb_objs b2)" "no_path (tb_objs b2 ! p) = ?pp"
      for p b2
      using place_ok_push_child [OF that(1,3), of ?n] that n entry_child [OF e True, of i]
      by (auto simp: child_of_def keeps_objs_def)
    show ?thesis
    proof (cases "jm_get (tb_nodeMap ?b1) ?pp")
      case (Some p)
      with place_okD(1) [OF b1 Some] push [OF b1] True show ?thesis
        by (simp add: add_entry_def Let_def del: map_simps)
    next
      case None
      obtain par b2 where m: "make_dirs 0 (butlast (cf_path e)) [] None ?b1 = (par, b2)"
        by (cases "make_dirs 0 (butlast (cf_path e)) [] None ?b1")
      have "stands_at 0 [] None ?b1" by (simp add: stands_at_def)
      from make_dirs_place [OF b1 this m] True obtain p where
        r: "place_ok b2" "keeps_objs ?b1 b2" "par = Some p" "p < length (tb_objs b2)"
          "no_path (tb_objs b2 ! p) = ?pp"
        by (auto simp: stands_at_def final_path_join)
      have "add_entry i e b = push_child p ?n b2"
        using True None m r(3) by (simp add: add_entry_def Let_def del: map_simps)
      with push [OF r(1,2,4,5)] show ?thesis by simp
    qed
  qed
qed

lemma add_entries_place:
  "place_ok b \<Longrightarrow> \<forall>e \<in> set es. proper_path (cf_path e) \<Longrightarrow> place_ok (add_entries i es b)"
  by (induction i es b rule: add_entries.induct) (simp_all add: add_entry_place)

fun placed_under :: "string \<Rightarrow> file_node \<Rightarrow> bool" where
  "placed_under pre n \<longleftrightarrow>
     n_path n = pre @ n_name n \<and> (\<forall>c \<in> set (n_children n). placed_under (n_path n @ ''/'') c)"

declare placed_under.simps [simp del]

lemma placed_read:
  "place_ok b \<Longrightarrow> n < length (tb_objs b) \<Longrightarrow> no_path (tb_objs b ! n) = pre @ no_name (tb_objs b ! n) \<Longrightarrow>
    placed_under pre (read_node d (tb_objs b) n)"
proof (induction d arbitrary: n pre)
  case 0
  then show ?case by (simp add: placed_under.simps [of _ "FileNode _ _ _ _ _ _"] Let_def)
next
  case (Suc d)
  have "placed_under (no_path (tb_objs b ! n) @ ''/'') (read_node d (tb_objs b) c)"
    if "c \<in> set (no_children (tb_objs b ! n))" for c
    using Suc.IH [of c "no_path (tb_objs b ! n) @ ''/''"] place_okD(2) [OF Suc.prems(1,2) that] Suc.prems(1)
    by (simp add: child_of_def)
  then show ?case
    using Suc.prems(3) by (simp add: placed_under.simps [of _ "FileNode _ _ _ _ _ _"] Let_def)
qed

lemma build_placed:
  assumes "\<forall>e \<in> set es. proper_path (cf_path e)"
  shows "\<forall>n \<in> set (buildFileTree es). placed_under [] n"
proof -
  have "place_ok empty_builder" by (simp add: place_ok_def empty_builder_def jm_simps)
  from add_entries_place [OF this assms, of 0] show ?thesis
    using place_okD(3) by (fastforce simp: buildFileTree_def Let_def intro: placed_read)
qed

lemma split_join:
  "ws \<noteq> [] \<Longrightarrow> \<forall>w \<in> set ws. c \<notin> set w \<Longrightarrow> js_split c (js_join [c] ws) = ws"
proof (induction ws rule: induct_list012)
  case (3 x y zs)
  then show ?case by (simp add: js_split_append)
qed (simp_all add: js_split_no_sep)

text \<open>
  Ordinary torrents: components without slashes, and no file where another entry has a directory.
\<close>

definition no_slashes :: "string list \<Rightarrow> bool" where
  "no_slashes p \<longleftrightarrow> p \<noteq> [] \<and> (\<forall>w \<in> set p. CHR ''/'' \<notin> set w)"

definition proper_parts :: "content_file list \<Rightarrow> string list set" where
  "proper_parts es = {p. p \<noteq> [] \<and> (\<exists>e \<in> set es. strict_prefix p (cf_path e))}"

lemma join_inj: "no_slashes p \<Longrightarrow> no_slashes q \<Longrightarrow> js_join ''/'' p = js_join ''/'' q \<longleftrightarrow> p = q"
  using split_join by (metis no_slashes_def)

lemma no_slashes_prefix: "no_slashes p \<Longrightarrow> prefix q p \<Longrightarrow> q \<noteq> [] \<Longrightarrow> no_slashes q"
  using set_mono_prefix by (fastforce simp: no_slashes_def)

lemma butlast_prefixes: "set (tl (prefixes (butlast xs))) = {p. p \<noteq> [] \<and> strict_prefix p xs}"
proof -
  have "prefixes (butlast xs) = [] # tl (prefixes (butlast xs))" by (cases "butlast xs") simp_all
  then have "set (prefixes (butlast xs)) = insert [] (set (tl (prefixes (butlast xs))))"
    by (metis list.set(2))
  then have "set (tl (prefixes (butlast xs))) = {p. p \<noteq> [] \<and> prefix p (butlast xs)}"
    using tl_prefixes_ne [of _ "butlast xs"] unfolding set_prefixes_eq by blast
  moreover have "p \<noteq> [] \<and> prefix p (butlast xs) \<longleftrightarrow> p \<noteq> [] \<and> strict_prefix p xs" for p
    by (cases xs rule: rev_cases) (auto simp: strict_prefix_def)
  ultimately show ?thesis by simp
qed

lemma fst_filter_map:
  "fst ` set (filter (\<lambda>d. fst d \<notin> A) (map (\<lambda>p. (f p, g p)) xs)) = f ` set xs - A"
  by (induction xs) auto

lemma missing_dirs_paths:
  assumes "\<forall>e \<in> set (before @ es). no_slashes (cf_path e)"
    and "\<forall>e \<in> set (before @ es). \<forall>f \<in> set (before @ es). \<not> strict_prefix (cf_path e) (cf_path f)"
    and "t = js_join ''/'' ` {p. p \<noteq> [] \<and> (\<exists>e \<in> set before. prefix p (cf_path e))}"
  shows "fst ` set (missing_dirs t es) = js_join ''/'' ` proper_parts es - t"
  using assms
proof (induction es arbitrary: before t)
  case Nil
  then show ?case by (simp add: proper_parts_def)
next
  case (Cons e es)
  let ?J = "js_join ''/''" and ?e = "cf_path e"
  let ?D = "?J ` {p. p \<noteq> [] \<and> strict_prefix p ?e}"
  define made where "made = (if ?J (butlast ?e) \<in> insert (?J ?e) t then []
      else filter (\<lambda>d. fst d \<notin> insert (?J ?e) t) (map (\<lambda>p. (?J p, last p)) (tl (prefixes (butlast ?e)))))"
  have m: "missing_dirs t (e # es) = made @ missing_dirs (insert (?J ?e) t \<union> fst ` set made) es"
    by (simp add: made_def Let_def)
  have ns: "no_slashes ?e" using Cons.prems(1) by simp
  have nsp: "no_slashes p" if "p \<noteq> []" "prefix p ?e" for p using no_slashes_prefix [OF ns that(2,1)] .
  have self: "?J ?e \<notin> ?D"
    using join_inj [OF ns nsp] by (auto simp: strict_prefix_def)
  have made: "fst ` set made = ?D - t"
  proof (cases "?J (butlast ?e) \<in> insert (?J ?e) t \<and> butlast ?e \<noteq> []")
    case True
    have bp: "strict_prefix (butlast ?e) ?e"
      using ns by (cases ?e rule: rev_cases) (auto simp: no_slashes_def strict_prefix_def)
    then have "?J (butlast ?e) \<noteq> ?J ?e"
      using join_inj [OF nsp [of "butlast ?e"] ns] True by (auto simp: strict_prefix_def)
    with True have "?J (butlast ?e) \<in> t" by simp
    then obtain q f where q: "q \<noteq> []" "f \<in> set before" "prefix q (cf_path f)" "?J (butlast ?e) = ?J q"
      using Cons.prems(3) by auto
    have "no_slashes q" using Cons.prems(1) q(1,2) no_slashes_prefix [OF _ q(3)] by simp
    with q(4) True bp nsp have "butlast ?e = q" using join_inj by (metis strict_prefix_def)
    have "?D \<subseteq> t"
    proof
      fix x assume "x \<in> ?D"
      then obtain p where p: "p \<noteq> []" "strict_prefix p ?e" "x = ?J p" by auto
      then have "prefix p (butlast ?e)" by (cases ?e rule: rev_cases) (auto simp: strict_prefix_def)
      then have "prefix p (cf_path f)" using q(3) \<open>butlast ?e = q\<close> by (metis prefix_order.trans)
      with p q(2) show "x \<in> t" unfolding Cons.prems(3) by auto
    qed
    then show ?thesis using True by (auto simp: made_def)
  next
    case False
    then show ?thesis
    proof (cases "butlast ?e = []")
      case True
      then have D: "{p. p \<noteq> [] \<and> strict_prefix p ?e} = {}" using butlast_prefixes [of ?e] by simp
      show ?thesis unfolding D by (simp add: made_def True)
    next
      case ne: False
      with False have "made = filter (\<lambda>d. fst d \<notin> insert (?J ?e) t) (map (\<lambda>p. (?J p, last p)) (tl (prefixes (butlast ?e))))"
        by (simp add: made_def)
      then have "fst ` set made = ?J ` set (tl (prefixes (butlast ?e))) - insert (?J ?e) t"
        by (simp only: fst_filter_map)
      then show ?thesis unfolding butlast_prefixes by (simp only: Diff_insert0 [OF self])
    qed
  qed
  have one: "{p. p \<noteq> [] \<and> prefix p ?e} = insert ?e {p. p \<noteq> [] \<and> strict_prefix p ?e}"
    using ns by (auto simp: strict_prefix_def no_slashes_def)
  have "{p. p \<noteq> [] \<and> (\<exists>f \<in> set (before @ [e]). prefix p (cf_path f))} =
      {p. p \<noteq> [] \<and> (\<exists>f \<in> set before. prefix p (cf_path f))} \<union> {p. p \<noteq> [] \<and> prefix p ?e}" by auto
  then have "insert (?J ?e) t \<union> fst ` set made =
      ?J ` {p. p \<noteq> [] \<and> (\<exists>f \<in> set (before @ [e]). prefix p (cf_path f))}"
    unfolding made Cons.prems(3) by (simp only: one image_Un image_insert) blast
  from Cons.IH [OF _ _ this] Cons.prems(1,2)
  have rest: "fst ` set (missing_dirs (insert (?J ?e) t \<union> fst ` set made) es) =
      ?J ` proper_parts es - (insert (?J ?e) t \<union> fst ` set made)" by simp
  have "?J ?e \<notin> ?J ` proper_parts es"
  proof
    assume "?J ?e \<in> ?J ` proper_parts es"
    then obtain p f where p: "p \<noteq> []" "f \<in> set es" "strict_prefix p (cf_path f)" "?J ?e = ?J p"
      by (auto simp: proper_parts_def)
    have "no_slashes p"
      using Cons.prems(1) p no_slashes_prefix [of "cf_path f" p] by (simp add: strict_prefix_def)
    then have "?e = p" using join_inj [OF ns] p(4) by blast
    with p(2,3) Cons.prems(2) show False by auto
  qed
  moreover have "proper_parts (e # es) = {p. p \<noteq> [] \<and> strict_prefix p ?e} \<union> proper_parts es"
    by (auto simp: proper_parts_def)
  ultimately show ?case
    unfolding m set_append image_Un rest unfolding made by (simp only: image_Un) blast
qed

lemma file_views_zip: "file_views i es = map (\<lambda>(k, e).
    (''file-'' @ show_nat k,
     str_or (if cf_path e = [] then [] else last (cf_path e)) (str_or (js_join ''/'' (cf_path e)) ''download''),
     str_or (js_join ''/'' (cf_path e)) ''download'', cf_size e, cf_priority e \<noteq> ''skip''))
    (zip [i..<i + length es] es)"
proof (induction es arbitrary: i)
  case (Cons e es)
  have "[i..<i + length (e # es)] = i # [Suc i..<Suc i + length es]" by (simp add: upt_rec)
  with Cons [of "Suc i"] show ?case by (simp add: obj_view_def file_obj_def full_path_def)
qed simp

text \<open>
  Property C6: \<open>buildFileTree\<close> keeps every entry and makes up exactly the directories that are
  missing. For any list of entries, also with repeated paths, empty paths or a file named
  like a directory, the nodes of the tree are one node per entry, with the entry's
  number, name, joined path, size and mark, and one node of size zero, selected, for each path of
  \<open>missing_dirs\<close>, in which no path occurs twice. In an ordinary torrent (components without
  slashes, no entry's path a proper prefix of another's) the paths of the
  directories are exactly the joined proper prefixes of the entries' paths.
\<close>

theorem tree_holds_every_entry:
  "mset (map node_view (all_nodes (buildFileTree es))) =
     mset (map (\<lambda>(k, e).
       (''file-'' @ show_nat k,
        str_or (if cf_path e = [] then [] else last (cf_path e)) (str_or (js_join ''/'' (cf_path e)) ''download''),
        str_or (js_join ''/'' (cf_path e)) ''download'', cf_size e, cf_priority e \<noteq> ''skip''))
       (zip [0..<length es] es)) +
     mset (map (\<lambda>(path, part). (''dir-'' @ path, part, path, 0, True)) (missing_dirs {} es)) \<and>
   distinct (map fst (missing_dirs {} es)) \<and>
   ((\<forall>e \<in> set es. no_slashes (cf_path e)) \<and>
    (\<forall>e \<in> set es. \<forall>f \<in> set es. \<not> strict_prefix (cf_path e) (cf_path f)) \<longrightarrow>
      fst ` set (missing_dirs {} es) =
        {js_join ''/'' p | p e. e \<in> set es \<and> p \<noteq> [] \<and> strict_prefix p (cf_path e)})"
proof (intro conjI impI)
  have "dir_view = (\<lambda>(path, part). (''dir-'' @ path, part, path, 0, True))"
    by (auto simp: fun_eq_iff dir_view_def obj_view_def dir_obj_def)
  then show "mset (map node_view (all_nodes (buildFileTree es))) =
     mset (map (\<lambda>(k, e).
       (''file-'' @ show_nat k,
        str_or (if cf_path e = [] then [] else last (cf_path e)) (str_or (js_join ''/'' (cf_path e)) ''download''),
        str_or (js_join ''/'' (cf_path e)) ''download'', cf_size e, cf_priority e \<noteq> ''skip''))
       (zip [0..<length es] es)) +
     mset (map (\<lambda>(path, part). (''dir-'' @ path, part, path, 0, True)) (missing_dirs {} es))"
    using build_missing_dirs [of es] unfolding file_views_zip by simp
  show "distinct (map fst (missing_dirs {} es))" using missing_dirs_distinct by blast
  assume o: "(\<forall>e \<in> set es. no_slashes (cf_path e)) \<and>
    (\<forall>e \<in> set es. \<forall>f \<in> set es. \<not> strict_prefix (cf_path e) (cf_path f))"
  then have "fst ` set (missing_dirs {} es) = js_join ''/'' ` proper_parts es - {}"
    by (intro missing_dirs_paths [of "[]"]) auto
  then show "fst ` set (missing_dirs {} es) =
      {js_join ''/'' p | p e. e \<in> set es \<and> p \<noteq> [] \<and> strict_prefix p (cf_path e)}"
    by (auto simp: proper_parts_def)
qed

definition two_tracks :: "content_file list" where
  "two_tracks =
     [\<lparr> cf_path = [''Album'', ''CD1'', ''a.flac''], cf_size = 30, cf_priority = ''normal'', cf_downloaded = False \<rparr>,
      \<lparr> cf_path = [''Album'', ''b.flac''], cf_size = 20, cf_priority = ''skip'', cf_downloaded = False \<rparr>]"

theorem tree_holds_every_entry_witness:
  "fst ` set (missing_dirs {} two_tracks) =
     {js_join ''/'' p | p e. e \<in> set two_tracks \<and> p \<noteq> [] \<and> strict_prefix p (cf_path e)} \<and>
   missing_dirs {} two_tracks = [(''Album'', ''Album''), (''Album/CD1'', ''CD1'')] \<and>
   size (mset (map node_view (all_nodes (buildFileTree two_tracks)))) = 4"
proof -
  have o: "(\<forall>e \<in> set two_tracks. no_slashes (cf_path e)) \<and>
    (\<forall>e \<in> set two_tracks. \<forall>f \<in> set two_tracks. \<not> strict_prefix (cf_path e) (cf_path f))"
    by (simp add: two_tracks_def no_slashes_def strict_prefix_def)
  have m: "missing_dirs {} two_tracks = [(''Album'', ''Album''), (''Album/CD1'', ''CD1'')]"
    by (simp add: two_tracks_def Let_def)
  show ?thesis
    using tree_holds_every_entry [of two_tracks] o unfolding m by (simp add: two_tracks_def)
qed

text \<open>
  Property C33: the tree is well formed. When the entries have proper paths, the path of every
  node is the path of the node it hangs under, a slash and its own name, down from roots
  whose path is their name.
\<close>

theorem tree_is_well_placed:
  "\<forall>e \<in> set es. proper_path (cf_path e) \<Longrightarrow> \<forall>n \<in> set (buildFileTree es). placed_under [] n"
  by (rule build_placed)

theorem tree_is_well_placed_witness:
  "list_all (placed_under []) (buildFileTree
      [\<lparr> cf_path = [''a'', ''b'', ''c''], cf_size = 3, cf_priority = ''normal'', cf_downloaded = False \<rparr>,
       \<lparr> cf_path = [''a'', ''d''], cf_size = 4, cf_priority = ''skip'', cf_downloaded = True \<rparr>])"
  unfolding list_all_iff by (rule tree_is_well_placed) (simp add: proper_path_def)

end
