(* ===== verification/DaemonApi.thy ===== *)
theory DaemonApi
  imports Api Types
begin

text \<open>
  The daemon's side of the interface, as far as the network panels rely on it: the table of routes
  (\<open>crates/orc-daemon/src/main.rs\<close>) and the handlers of the kill switch and of the posture, with the
  functions of \<open>crates/orc-core/src/lib.rs\<close> behind them. The router itself is the library axum: a
  path that no route has is answered with status 404, a method that the path's route does not have
  with 405; otherwise the handler decides. A field that a request type does not have is ignored.
\<close>

subsection \<open>Routes\<close>

text \<open>A pattern is split at its slashes; a part that begins with a colon stands for any value.\<close>

definition route_parts :: "string \<Rightarrow> string list" where
  "route_parts path = js_split CHR ''/'' path"

fun parts_match :: "string list \<Rightarrow> string list \<Rightarrow> bool" where
  "parts_match [] [] = True"
| "parts_match (p # ps) (v # vs) =
     ((if starts_with p '':'' then v \<noteq> [] else p = v) \<and> parts_match ps vs)"
| "parts_match _ _ = False"

definition daemon_routes :: "(string \<times> string list) list" where
  "daemon_routes =
     [(''/health'', [''GET'']),
      (''/version'', [''GET'']),
      (''/wallet'', [''GET'']),
      (''/overlay/status'', [''GET'']),
      (''/net/posture'', [''GET'']),
      (''/net/vpn-status'', [''GET'']),
      (''/net/kill-switch'', [''GET'', ''PATCH'']),
      (''/net/kill-switch/test'', [''POST'']),
      (''/v1/policy'', [''GET'', ''PATCH'']),
      (''/torrents'', [''GET'', ''POST'']),
      (''/torrents/:id'', [''GET'']),
      (''/torrents/:id/status'', [''GET'']),
      (''/torrents/:id/content'', [''GET'']),
      (''/torrents/:id/file-priority'', [''PATCH'']),
      (''/torrents/:id/profile'', [''PATCH'']),
      (''/torrents/:id/start'', [''POST'']),
      (''/torrents/:id/stop'', [''POST'']),
      (''/torrents/:id/remove'', [''POST'']),
      (''/torrents/:id/recheck'', [''POST'']),
      (''/torrents/:id/announce'', [''POST'']),
      (''/torrents/:id/peers'', [''GET'']),
      (''/torrents/:id/trackers'', [''GET'']),
      (''/torrents/:id/row-snapshot'', [''GET'']),
      (''/admin/shutdown'', [''POST''])]"

definition route_methods :: "string \<Rightarrow> string list option" where
  "route_methods path =
     map_option snd (find (\<lambda>r. parts_match (route_parts (fst r)) (route_parts path)) daemon_routes)"

definition router_status :: "string \<Rightarrow> string \<Rightarrow> int option" where
  "router_status meth path = (case route_methods path of
     None \<Rightarrow> Some 404
   | Some ms \<Rightarrow> if meth \<in> set ms then None else Some 405)"

subsection \<open>Kill switch and posture\<close>

record patch_kill_switch_request =
  pk_enabled :: "bool option"
  pk_scope :: "kill_switch_scope option"
  pk_grace_period_sec :: "nat option"
  pk_triggers :: "kill_switch_triggers option"

definition MAX_GRACE_PERIOD :: nat where "MAX_GRACE_PERIOD = 3600"

definition kill_switch_request_valid :: "patch_kill_switch_request \<Rightarrow> bool" where
  "kill_switch_request_valid req \<longleftrightarrow> (case pk_grace_period_sec req of Some gp \<Rightarrow> gp \<le> MAX_GRACE_PERIOD | None \<Rightarrow> True)"

definition patch_kill_switch :: "time \<Rightarrow> patch_kill_switch_request \<Rightarrow> kill_switch_config \<Rightarrow> kill_switch_config" where
  "patch_kill_switch now req k =
     (let k1 = (case pk_enabled req of
          Some e \<Rightarrow> k\<lparr> ks_enabled := e, ks_enforcement_state := (if e then KsArmed else KsDisarmed), ks_last_enforcement_ms := Some now \<rparr>
        | None \<Rightarrow> k);
          k2 = (case pk_scope req of Some s \<Rightarrow> k1\<lparr> ks_scope := s \<rparr> | None \<Rightarrow> k1);
          k3 = (case pk_grace_period_sec req of Some gp \<Rightarrow> k2\<lparr> ks_grace_period_sec := gp \<rparr> | None \<Rightarrow> k2) in
      case pk_triggers req of Some tr \<Rightarrow> k3\<lparr> ks_triggers := tr \<rparr> | None \<Rightarrow> k3)"

text \<open>The handler: the status of its answer and the configuration it leaves.\<close>

definition h_patch_kill_switch :: "time \<Rightarrow> patch_kill_switch_request \<Rightarrow> kill_switch_config \<Rightarrow> int \<times> kill_switch_config" where
  "h_patch_kill_switch now req k =
     (if kill_switch_request_valid req then (200, patch_kill_switch now req k) else (400, k))"

definition net_posture_reply :: "time \<Rightarrow> vpn_status \<Rightarrow> kill_switch_config \<Rightarrow> net_posture" where
  "net_posture_reply now vpn k =
     \<lparr> np_bind_interface = None, np_leak_proof_enabled = False, np_state = Unconfigured,
       np_last_change_ms = now, np_vpn_status = vpn, np_kill_switch = k \<rparr>"

definition kill_switch_test :: "kill_switch_config \<Rightarrow> bool \<times> string" where
  "kill_switch_test k =
     (if ks_enabled k then (True, ''Kill switch is enabled (simulation).'') else (False, ''Kill switch is disabled.''))"

section \<open>Properties\<close>

text \<open>The attempts of one call are those numbered from the log before it to the log after it.\<close>

definition answered_with :: "(response \<Rightarrow> bool) \<Rightarrow> (nat \<Rightarrow> attempt) \<Rightarrow> conn \<Rightarrow> conn \<Rightarrow> bool" where
  "answered_with P net c c' \<longleftrightarrow>
     list_all (\<lambda>k. case at_result (net k) of Inr r \<Rightarrow> P r | Inl _ \<Rightarrow> True) [length (sent c)..<length (sent c')]"

text \<open>
  A daemon that answers as its router does: if the router settles the request, every answer to the
  call has the router's status.
\<close>

definition routed :: "string \<Rightarrow> string \<Rightarrow> (nat \<Rightarrow> attempt) \<Rightarrow> conn \<Rightarrow> conn \<Rightarrow> bool" where
  "routed meth path =
     answered_with (\<lambda>r. case router_status meth path of Some st \<Rightarrow> r_status r = st | None \<Rightarrow> True)"

lemma fetchWithRetry_answer:
  "fst (fetchWithRetry net rq n c) = Inr r \<Longrightarrow>
   \<exists>k. length (sent c) \<le> k \<and> k < length (sent (snd (fetchWithRetry net rq n c))) \<and> at_result (net k) = Inr r"
proof (induction n arbitrary: c)
  case 0
  then show ?case
    by (subst fetchWithRetry.simps, subst (asm) fetchWithRetry.simps)
      (auto simp: Let_def split: sum.splits if_splits intro!: exI [of _ "length (sent c)"])
next
  case (Suc n)
  let ?a = "net (length (sent c))"
  let ?b = "begin_attempt (at_now ?a) rq c"
  have step: ?case if "sent d = sent c @ [rq]" "fetchWithRetry net rq (Suc n) c = fetchWithRetry net rq n d" for d
  proof -
    have "fst (fetchWithRetry net rq n d) = Inr r" using Suc.prems that(2) by simp
    from Suc.IH [OF this] obtain k where "length (sent d) \<le> k"
      "k < length (sent (snd (fetchWithRetry net rq n d)))" "at_result (net k) = Inr r" by blast
    then show ?thesis unfolding that(2) using that(1) by (intro exI [of _ k]) simp
  qed
  show ?case
  proof (cases "at_result ?a")
    case (Inr r')
    then have "fetchWithRetry net rq (Suc n) c = (Inr r', ?b\<lparr>connectionState := Connected\<rparr>)"
      by (subst fetchWithRetry.simps) (simp add: Let_def)
    then show ?thesis using Inr Suc.prems by (intro exI [of _ "length (sent c)"]) simp
  next
    case (Inl e)
    have "fetchWithRetry net rq (Suc n) c = fetchWithRetry net rq n (backoff ?b) \<or>
        fetchWithRetry net rq (Suc n) c = fetchWithRetry net rq n (backoff (?b\<lparr>connectionState := Reconnecting\<rparr>))"
      using Inl Suc.prems
      by (subst fetchWithRetry.simps, subst (asm) fetchWithRetry.simps, subst (2) fetchWithRetry.simps)
        (auto simp: Let_def split: if_splits)
    then show ?thesis using step [of "backoff ?b"] step [of "backoff (?b\<lparr>connectionState := Reconnecting\<rparr>)"] by auto
  qed
qed

lemma finish_json_refused:
  assumes "answered_with (\<lambda>r. \<not> r_ok r) net c (snd (finish_json read (fetchWithRetry net rq n c)))"
  shows "\<exists>e. fst (finish_json read (fetchWithRetry net rq n c)) = Inl (wrap_error e)"
proof -
  obtain x c' where x: "fetchWithRetry net rq n c = (x, c')" by fastforce
  show ?thesis
  proof (cases x)
    case (Inr r)
    have c': "snd (finish_json read (x, c')) = c'" by (simp add: finish_json_def Inr split: sum.split)
    obtain k where k: "length (sent c) \<le> k" "k < length (sent c')" "at_result (net k) = Inr r"
      using fetchWithRetry_answer [of net rq n c r] x Inr by auto
    have "\<forall>k \<in> {length (sent c)..<length (sent c')}. case at_result (net k) of Inl _ \<Rightarrow> True | Inr r \<Rightarrow> \<not> r_ok r"
      using assms unfolding x c' by (simp add: answered_with_def list_all_iff)
    from bspec [OF this, of k] have "\<not> r_ok r" using k by simp
    then show ?thesis by (auto simp: x Inr finish_json_def)
  qed (auto simp: x finish_json_def)
qed

lemma router_status_fails: "router_status meth path = Some st \<Longrightarrow> st = 404 \<or> st = 405"
  by (auto simp: router_status_def split: option.splits if_splits)

lemma routed_refused:
  assumes "routed meth path net c c'" "router_status meth path \<noteq> None"
  shows "answered_with (\<lambda>r. \<not> r_ok r) net c c'"
proof -
  obtain st where st: "router_status meth path = Some st" using assms(2) by auto
  then show ?thesis
    using assms(1) router_status_fails [OF st]
    by (auto simp: routed_def answered_with_def list_all_iff r_ok_def split: sum.splits)
qed

text \<open>A call that the router refuses throws an error that is an \<open>ApiError\<close>.\<close>

lemma verbs_refused:
  "router_status ''GET'' path \<noteq> None \<Longrightarrow> routed ''GET'' path net c (snd (getJson parse net path c)) \<Longrightarrow>
    \<exists>e. fst (getJson parse net path c) = Inl (wrap_error e)"
  "router_status ''POST'' path \<noteq> None \<Longrightarrow> routed ''POST'' path net c (snd (postJson parse empty_obj net path body tmo c)) \<Longrightarrow>
    \<exists>e. fst (postJson parse empty_obj net path body tmo c) = Inl (wrap_error e)"
  "router_status ''PATCH'' path \<noteq> None \<Longrightarrow> routed ''PATCH'' path net c (snd (patchJson parse empty_obj net path b c)) \<Longrightarrow>
    \<exists>e. fst (patchJson parse empty_obj net path b c) = Inl (wrap_error e)"
  unfolding getJson_def postJson_def patchJson_def Let_def
  by (blast intro: finish_json_refused routed_refused)+

lemma wrap_error_message: "\<exists>e. wrap_error x = ThrownError e"
  by (cases x) (auto simp: wrap_error_def createApiError_def isApiError_def)

lemma unrouted:
  "router_status ''PATCH'' ''/net/posture'' = Some 405"
  "router_status ''GET'' ''/net/adapters'' = Some 404"
  "router_status ''GET'' ''/net/route'' = Some 404"
  "router_status ''GET'' ''/net/dns'' = Some 404"
  "router_status ''GET'' ''/tor/status'' = Some 404"
  "router_status ''POST'' ''/net/vpn-status/refresh'' = Some 404"
  by code_simp+

lemma routed_requests:
  "router_status ''GET'' ''/net/posture'' = None"
  "router_status ''PATCH'' ''/net/kill-switch'' = None"
  "router_status ''POST'' ''/net/kill-switch/test'' = None"
  by code_simp+

end
