(* ===== verification/FileSelection.thy ===== *)
theory FileSelection
  imports FileTree TorrentFetcher DaemonApi
begin

text \<open>
  The dialog in which the user chooses the files of a torrent
  (\<open>renderer/components/FileSelectionDialog.tsx\<close>): its state, the effect that loads the file
  list with retries, the operations on the selection and the submission that
  sets the priority of every file.

  The React state and the refs of the component are one record. The loading effect is split
  where it awaits: \<open>load_effect\<close> is its synchronous part, \<open>load_settle\<close> what one attempt
  does when the fetch settles, \<open>load_step\<close> how attempts, timers, the retry button and redraws
  of \<open>App\<close> follow one another. Replies of the daemon are parameters.
\<close>

type_synonym selections = "(string, bool) jmap"

record dialog =
  dl_files :: "file_node list"
  dl_loading :: bool
  dl_expanded :: "string set"
  dl_selections :: selections
  dl_start :: bool
  dl_error :: "string option"
  dl_submitting :: bool
  dl_prevId :: "string option"
  dl_isLoading :: bool
  dl_saved :: "(string, selections) jmap"

definition dialog_init :: dialog where
  "dialog_init = \<lparr> dl_files = [], dl_loading = False, dl_expanded = {}, dl_selections = [],
     dl_start = True, dl_error = None, dl_submitting = False, dl_prevId = None,
     dl_isLoading = False, dl_saved = [] \<rparr>"

subsection \<open>Loading the file list\<close>

definition expand_all :: "file_node list \<Rightarrow> string set" where
  "expand_all files =
     fold (walk (\<lambda>n acc. if n_children n \<noteq> [] then insert (n_path n) acc else acc)) files {}"

definition setFiles :: "file_node list \<Rightarrow> dialog \<Rightarrow> dialog" where
  "setFiles files d = d\<lparr> dl_files := files,
     dl_expanded := (if files \<noteq> [] then expand_all files else dl_expanded d) \<rparr>"

fun check_node :: "selections \<Rightarrow> file_node \<Rightarrow> bool" where
  "check_node prev n \<longleftrightarrow> jm_get prev (n_path n) \<noteq> None \<or> list_ex (check_node prev) (n_children n)"

declare check_node.simps [simp del]

definition initial_choice :: "file_node \<Rightarrow> bool" where
  "initial_choice n = (if n_size n > 0 then n_selected n else True)"

definition addNewFiles :: "file_node list \<Rightarrow> selections \<Rightarrow> selections" where
  "addNewFiles tree prev = fold (walk (\<lambda>n merged.
     if jm_get merged (n_path n) = None then jm_set (n_path n) (initial_choice n) merged else merged))
     tree prev"

definition setSelections :: "file_node list \<Rightarrow> selections" where
  "setSelections tree = fold (walk (\<lambda>n. jm_set (n_path n) (initial_choice n))) tree []"

definition load_selections :: "file_node list \<Rightarrow> selections \<Rightarrow> selections" where
  "load_selections tree prev =
     (if list_ex (check_node prev) tree then addNewFiles tree prev else setSelections tree)"

text \<open>
  React runs the clean-up of the previous run first, which resets \<open>isLoadingRef\<close>; the test of
  that ref against duplicate loads therefore never stops a run and is not in the model.
\<close>

definition load_effect :: "bool \<Rightarrow> string option \<Rightarrow> dialog \<Rightarrow> bool \<times> dialog" where
  "load_effect isOpen torrentId d =
     (let d0 = d\<lparr> dl_isLoading := False \<rparr>;
          torrentIdChanged = (dl_prevId d0 \<noteq> torrentId) in
      if \<not> isOpen \<or> torrentId = None \<or> torrentId = Some [] then
        (let d1 = (if \<not> isOpen then
             (let saved = (case dl_prevId d0 of
                  Some p \<Rightarrow> if p \<noteq> [] \<and> dl_selections d0 \<noteq> [] then jm_set p (dl_selections d0) (dl_saved d0)
                           else dl_saved d0
                | None \<Rightarrow> dl_saved d0) in
              d0\<lparr> dl_saved := saved, dl_files := [], dl_selections := [], dl_expanded := {},
                 dl_prevId := None \<rparr>)
           else d0) in
         (False, d1\<lparr> dl_loading := False, dl_isLoading := False \<rparr>))
      else
        (let d1 = d0\<lparr> dl_prevId := torrentId, dl_isLoading := True, dl_loading := True,
                      dl_error := None \<rparr>;
             sel = (case jm_get (dl_saved d1) (the torrentId) of
                 Some s \<Rightarrow> if s \<noteq> [] \<and> torrentIdChanged then s else dl_selections d1
               | None \<Rightarrow> dl_selections d1) in
         (True, d1\<lparr> dl_selections := sel \<rparr>)))"

definition maxRetries_load :: nat where "maxRetries_load = 8"

definition load_delay :: "nat \<Rightarrow> time" where
  "load_delay retryCount = 500 * 2 ^ (retryCount - 1)"

definition load_options :: "nat \<Rightarrow> fetch_options" where
  "load_options retryCount = DEFAULT_OPTIONS
     \<lparr> fo_retries := 3, fo_retryDelay := 500, fo_forceRefresh := (retryCount > 0) \<rparr>"

definition isRetryable_load :: "string \<Rightarrow> bool" where
  "isRetryable_load errorMessage \<longleftrightarrow>
     js_includes errorMessage ''timed out'' \<or> js_includes errorMessage ''Connection failed'' \<or>
     js_includes errorMessage ''fetch'' \<or> js_includes errorMessage ''network'' \<or>
     js_includes errorMessage ''aborted''"

datatype load_next = LoadSettled | LoadRetry time | LoadFailed string

definition load_settle ::
    "thrown + torrent_content \<Rightarrow> nat \<Rightarrow> dialog \<Rightarrow> load_next \<times> nat \<times> dialog" where
  "load_settle reply retryCount d =
     (case reply of
        Inr content \<Rightarrow>
          if tcn_files content \<noteq> [] then
            (let fileTree = buildFileTree (tcn_files content) in
             (LoadSettled, retryCount,
              (setFiles fileTree d)\<lparr> dl_selections := load_selections fileTree (dl_selections d),
                 dl_loading := False, dl_isLoading := False, dl_error := None \<rparr>))
          else if retryCount < maxRetries_load then
            (LoadRetry (load_delay (Suc retryCount)), Suc retryCount, d)
          else
            (LoadSettled, retryCount, (setFiles [] d)\<lparr> dl_loading := False, dl_isLoading := False \<rparr>)
      | Inl e \<Rightarrow>
          (let errorMessage = getErrorMessage e ''Failed to load file list'' in
           if isRetryable_load errorMessage \<and> retryCount < maxRetries_load then
             (LoadRetry (load_delay (Suc retryCount)), Suc retryCount, d)
           else
             (LoadFailed errorMessage, retryCount,
              d\<lparr> dl_loading := False, dl_isLoading := False, dl_error := Some errorMessage \<rparr>)))"

lemma load_settle_retry:
  "load_settle reply rc d = (LoadRetry w, rc', d') \<Longrightarrow>
    rc < maxRetries_load \<and> rc' = Suc rc \<and> d' = d \<and> w = load_delay (Suc rc)"
  by (auto simp: load_settle_def Let_def split: sum.splits if_splits)

subsection \<open>Redraws\<close>

text \<open>
  The effect depends on \<open>onError\<close>, for which \<open>App\<close> passes a new function in every redraw. So each
  redraw of \<open>App\<close> cancels the running chain (its fetch settles without effect, its timer is
  cleared) and runs the effect again. An error is reported with \<open>onError\<close>, whose toast is state of \<open>App\<close> and
  so causes a redraw itself. \<open>lv_props\<close> holds \<open>isOpen\<close> and \<open>torrentId\<close>, \<open>lv_live\<close> says whether
  \<open>loadFilesRef\<close> is set, \<open>lv_count\<close> is the \<open>retryCount\<close> of the running effect.
\<close>

datatype load_phase = LoadIdle | LoadFetching | LoadWaiting time

record load_view =
  lv_dialog :: dialog
  lv_props :: "bool \<times> string option"
  lv_live :: bool
  lv_count :: nat
  lv_phase :: load_phase

datatype load_event =
  AppRedraw bool "string option" | FetchSettles "thrown + torrent_content" | RetryTimer | RetryPressed | StaleSettles

datatype load_output = FetchSent fetch_options | RetryIn time | LoadError string

definition redraw_load :: "bool \<Rightarrow> string option \<Rightarrow> load_view \<Rightarrow> load_view \<times> load_output list" where
  "redraw_load isOpen torrentId v =
     (case load_effect isOpen torrentId (lv_dialog v) of (starts, d) \<Rightarrow>
        (\<lparr> lv_dialog = d, lv_props = (isOpen, torrentId), lv_live = starts, lv_count = 0,
           lv_phase = (if starts then LoadFetching else LoadIdle) \<rparr>,
         if starts then [FetchSent (load_options 0)] else []))"

definition settle_load :: "thrown + torrent_content \<Rightarrow> load_view \<Rightarrow> load_view \<times> load_output list" where
  "settle_load reply v =
     (case load_settle reply (lv_count v) (lv_dialog v) of
        (LoadRetry w, rc, d) \<Rightarrow> (v\<lparr> lv_dialog := d, lv_count := rc, lv_phase := LoadWaiting w \<rparr>, [RetryIn w])
      | (LoadSettled, rc, d) \<Rightarrow> (v\<lparr> lv_dialog := d, lv_count := rc, lv_phase := LoadIdle \<rparr>, [])
      | (LoadFailed m, rc, d) \<Rightarrow>
          (case redraw_load (fst (lv_props v)) (snd (lv_props v)) (v\<lparr> lv_dialog := d \<rparr>) of
             (v', out) \<Rightarrow> (v', LoadError m # out)))"

text \<open>The button \<open>Retry Loading Files\<close>.\<close>

definition handleRetryLoad :: "load_view \<Rightarrow> load_view \<times> load_output list" where
  "handleRetryLoad v =
     (if lv_live v \<and> \<not> dl_isLoading (lv_dialog v) then
        (v\<lparr> lv_dialog := (lv_dialog v)\<lparr> dl_isLoading := True, dl_loading := True, dl_error := None \<rparr>,
            lv_phase := LoadFetching \<rparr>, [FetchSent (load_options (lv_count v))])
      else (v, []))"

fun load_step :: "load_event \<Rightarrow> load_view \<Rightarrow> load_view \<times> load_output list" where
  "load_step (AppRedraw isOpen torrentId) v = redraw_load isOpen torrentId v"
| "load_step (FetchSettles reply) v = (if lv_phase v = LoadFetching then settle_load reply v else (v, []))"
| "load_step RetryTimer v = (case lv_phase v of
     LoadWaiting w \<Rightarrow> (v\<lparr> lv_phase := LoadFetching \<rparr>, [FetchSent (load_options (lv_count v))])
   | _ \<Rightarrow> (v, []))"
| "load_step RetryPressed v = handleRetryLoad v"
| "load_step StaleSettles v = (v, [])"

fun run_load :: "load_event list \<Rightarrow> load_view \<Rightarrow> load_view \<times> load_output list" where
  "run_load [] v = (v, [])"
| "run_load (e # es) v = (case load_step e v of (v1, out) \<Rightarrow>
     (case run_load es v1 of (v2, out') \<Rightarrow> (v2, out @ out')))"

definition load_view_init :: load_view where
  "load_view_init = \<lparr> lv_dialog = dialog_init, lv_props = (False, None), lv_live = False, lv_count = 0,
     lv_phase = LoadIdle \<rparr>"

text \<open>
  The events of a load that nothing redraws, with \<open>n\<close> retries: the replies in turn, the timer between.
\<close>

definition undisturbed_load :: "(nat \<Rightarrow> thrown + torrent_content) \<Rightarrow> nat \<Rightarrow> load_event list" where
  "undisturbed_load fetch n = concat (map (\<lambda>k. [FetchSettles (fetch k), RetryTimer]) [0..<n]) @ [FetchSettles (fetch n)]"

subsection \<open>The selection\<close>

definition toggleExpand :: "string \<Rightarrow> dialog \<Rightarrow> dialog" where
  "toggleExpand path d = d\<lparr> dl_expanded :=
     (if path \<in> dl_expanded d then dl_expanded d - {path} else insert path (dl_expanded d)) \<rparr>"

definition save_for :: "string option \<Rightarrow> selections \<Rightarrow> dialog \<Rightarrow> dialog" where
  "save_for torrentId sel d = (case torrentId of
     Some t \<Rightarrow> if t \<noteq> [] then d\<lparr> dl_saved := jm_set t sel (dl_saved d) \<rparr> else d
   | None \<Rightarrow> d)"

definition toggleFileSelection :: "string option \<Rightarrow> string \<Rightarrow> bool \<Rightarrow> dialog \<Rightarrow> dialog" where
  "toggleFileSelection torrentId path selected d =
     (let sel = jm_set path selected (dl_selections d) in
      (save_for torrentId sel d)\<lparr> dl_selections := sel \<rparr>)"

definition toggleAll :: "string option \<Rightarrow> bool \<Rightarrow> dialog \<Rightarrow> dialog" where
  "toggleAll torrentId select d =
     (let sel = fold (walk (\<lambda>n next. if n_size n > 0 then jm_set (n_path n) select next else next))
                  (dl_files d) (dl_selections d) in
      (save_for torrentId sel d)\<lparr> dl_selections := sel \<rparr>)"

text \<open>\<open>fileSelections.get(path) ?? true\<close>.\<close>

definition chosen :: "selections \<Rightarrow> string \<Rightarrow> bool" where
  "chosen sel path = (case jm_get sel path of Some b \<Rightarrow> b | None \<Rightarrow> True)"

definition selectedSize :: "dialog \<Rightarrow> int" where
  "selectedSize d = fold (walk (\<lambda>n total.
     if n_size n > 0 \<and> chosen (dl_selections d) (n_path n) then total + n_size n else total))
     (dl_files d) 0"

definition allSelected :: "dialog \<Rightarrow> bool" where
  "allSelected d = (case fold (walk (\<lambda>n (hasFiles, allSel).
       if n_size n > 0 then (True, allSel \<and> chosen (dl_selections d) (n_path n))
       else (hasFiles, allSel))) (dl_files d) (False, True) of
     (hasFiles, allSel) \<Rightarrow> hasFiles \<and> allSel)"

definition totalSize :: "int option \<Rightarrow> dialog \<Rightarrow> int" where
  "totalSize torrentSize d = (case torrentSize of Some s \<Rightarrow> s
     | None \<Rightarrow> fold (walk (\<lambda>n total. total + n_size n)) (dl_files d) 0)"

text \<open>The check mark \<open>renderFileNode\<close> draws.\<close>

definition shown_selected :: "dialog \<Rightarrow> file_node \<Rightarrow> bool" where
  "shown_selected d n = (case jm_get (dl_selections d) (n_path n) of
     Some b \<Rightarrow> b | None \<Rightarrow> if n_size n = 0 then True else n_selected n)"

subsection \<open>Submission\<close>

definition path_parts :: "string \<Rightarrow> string list" where
  "path_parts path = filter (\<lambda>s. s \<noteq> []) (js_split (CHR ''/'') path)"

definition collectSelected :: "dialog \<Rightarrow> string list list" where
  "collectSelected d = fold (walk (\<lambda>n acc.
     if n_size n > 0 \<and> chosen (dl_selections d) (n_path n) then acc @ [path_parts (n_path n)] else acc))
     (dl_files d) []"

definition collectAll :: "dialog \<Rightarrow> string list list" where
  "collectAll d = fold (walk (\<lambda>n acc.
     if n_size n > 0 then acc @ [path_parts (n_path n)] else acc)) (dl_files d) []"

datatype file_priority = Skip | Download

record priority_patch =
  pp_path :: "string list"
  pp_priority :: file_priority

datatype confirm_outcome =
  Ignored | NotProceeded | Confirmed "string list list" bool | ConfirmFailed string

definition patches :: "file_priority \<Rightarrow> string list list \<Rightarrow> priority_patch list" where
  "patches pr paths = map (\<lambda>p. \<lparr> pp_path = p, pp_priority = pr \<rparr>) paths"

text \<open>
  \<open>proceed\<close> is the answer to \<open>window.confirm\<close>; \<open>accepted\<close> says which \<open>PATCH\<close> requests the
  daemon answers with success. The result holds the requests of the two waves in the order
  they are awaited.
\<close>

definition handleConfirm ::
    "bool \<Rightarrow> (priority_patch \<Rightarrow> bool) \<Rightarrow> string option \<Rightarrow> dialog \<Rightarrow>
      confirm_outcome \<times> priority_patch list \<times> dialog" where
  "handleConfirm proceed accepted torrentId d =
     (if torrentId = None \<or> torrentId = Some [] \<or> dl_loading d \<or> dl_submitting d then (Ignored, [], d)
      else
        (let selectedFiles = collectSelected d;
             d' = d\<lparr> dl_loading := False, dl_submitting := False \<rparr> in
         if dl_files d = [] then
           (if proceed then (Confirmed selectedFiles (dl_start d), [], d') else (NotProceeded, [], d'))
         else
           (let skips = patches Skip (collectAll d);
                downloads = patches Download selectedFiles in
            if filter accepted downloads = [] \<and> selectedFiles \<noteq> [] then
              (ConfirmFailed ''Failed to set file priorities. Please try again.'', skips @ downloads, d')
            else (Confirmed selectedFiles (dl_start d), skips @ downloads, d'))))"

subsection \<open>The daemon's answer to these requests\<close>

text \<open>
  The body of a request and the handler of \<open>PATCH /torrents/:id/file-priority\<close>
  (\<open>h_patch_file_priority\<close> in \<open>crates/orc-daemon/src/main.rs\<close>, \<open>PatchFilePriorityRequest\<close> in
  \<open>crates/orc-core/src/lib.rs\<close>). Both fields of the request type are required; a body that lacks one
  is answered with 422 before the handler runs. \<open>known\<close>: the torrent exists; \<open>updated\<close>: the
  torrent library took the new list of files.
\<close>

datatype body_field = TextField string | PathField "string list" | PathsField "string list list"

type_synonym json_body = "(string \<times> body_field) list"

definition patch_body :: "priority_patch \<Rightarrow> json_body" where
  "patch_body p = [(''path'', PathField (pp_path p)),
     (''priority'', TextField (case pp_priority p of Skip \<Rightarrow> ''skip'' | Download \<Rightarrow> ''download''))]"

record patch_file_priority_request =
  fp_paths :: "string list list"
  fp_priority :: string

definition file_priority_of_body :: "json_body \<Rightarrow> patch_file_priority_request option" where
  "file_priority_of_body b = (case (map_of b ''paths'', map_of b ''priority'') of
     (Some (PathsField ps), Some (TextField t)) \<Rightarrow> Some \<lparr> fp_paths = ps, fp_priority = t \<rparr>
   | _ \<Rightarrow> None)"

definition file_priority_valid :: "patch_file_priority_request \<Rightarrow> bool" where
  "file_priority_valid req \<longleftrightarrow> length (fp_paths req) \<le> 10000 \<and>
     fp_priority req \<in> set [''skip'', ''low'', ''normal'', ''high''] \<and>
     list_all (\<lambda>path. length path \<le> 100 \<and> list_all (\<lambda>w. length w \<le> 255) path) (fp_paths req)"

definition h_patch_file_priority :: "bool \<Rightarrow> bool \<Rightarrow> bool \<Rightarrow> json_body \<Rightarrow> int" where
  "h_patch_file_priority valid_id known updated b = (case file_priority_of_body b of
     None \<Rightarrow> 422
   | Some req \<Rightarrow>
       if \<not> valid_id then 400
       else if \<not> file_priority_valid req then 400
       else if \<not> known then 404
       else if \<not> updated then 400 else 200)"

subsection \<open>Traversals as functions of the list of files\<close>

lemma fold_sum_if: "fold (\<lambda>n t. if P n then t + f n else t) ns (c :: int) = c + (\<Sum>n \<leftarrow> filter P ns. f n)"
  by (induction ns arbitrary: c) auto

lemma fold_collect: "fold (\<lambda>n acc. if P n then acc @ [f n] else acc) ns xs = xs @ map f (filter P ns)"
  by (induction ns arbitrary: xs) auto

lemma fold_all: "fold (\<lambda>n (h, a). if P n then (True, a \<and> Q n) else (h, a)) ns (h0, a0) =
    (h0 \<or> (\<exists>n \<in> set ns. P n), a0 \<and> (\<forall>n \<in> set ns. P n \<longrightarrow> Q n))"
  by (induction ns arbitrary: h0 a0) auto

definition is_chosen :: "dialog \<Rightarrow> string \<times> int \<times> bool \<Rightarrow> bool" where
  "is_chosen d v = chosen (dl_selections d) (fst v)"

lemma selectedSize_files: "selectedSize d =
    (\<Sum>v \<leftarrow> filter (is_chosen d) (map file_view (tree_files (dl_files d))). fst (snd v))"
  unfolding selectedSize_def walk_forest fold_sum_if
  by (simp add: tree_files_def is_file_def [abs_def] is_chosen_def filter_map comp_def file_view_def
      conj_commute)

lemma collectSelected_files: "collectSelected d =
    map path_parts (filter (chosen (dl_selections d)) (map n_path (tree_files (dl_files d))))"
  unfolding collectSelected_def walk_forest fold_collect
  by (simp add: tree_files_def is_file_def [abs_def] filter_map comp_def conj_commute)

lemma collectAll_files: "collectAll d = map path_parts (map n_path (tree_files (dl_files d)))"
  unfolding collectAll_def walk_forest fold_collect
  by (simp add: tree_files_def is_file_def [abs_def])

lemma allSelected_files: "allSelected d \<longleftrightarrow> tree_files (dl_files d) \<noteq> [] \<and>
    (\<forall>n \<in> set (tree_files (dl_files d)). chosen (dl_selections d) (n_path n))"
  unfolding allSelected_def walk_forest fold_all
  by (auto simp: tree_files_def is_file_def filter_empty_conv)

lemma sum_list_permuted: "mset xs = mset ys \<Longrightarrow> (\<Sum>x \<leftarrow> filter P xs. f x) = (\<Sum>x \<leftarrow> filter P ys. (f x :: int))"
  by (metis mset_filter mset_map sum_mset_sum_list)

text \<open>The files of a dialog that shows the entries \<open>es\<close>.\<close>

definition shows_entries :: "content_file list \<Rightarrow> dialog \<Rightarrow> bool" where
  "shows_entries es d \<longleftrightarrow> dl_files d = buildFileTree es"

definition sized :: "content_file list \<Rightarrow> content_file list" where
  "sized es = filter (\<lambda>e. cf_size e > 0) es"

lemma shown_files:
  "shows_entries es d \<Longrightarrow> mset (map file_view (tree_files (dl_files d))) = mset (map entry_view (sized es))"
  unfolding shows_entries_def sized_def by (simp only: tree_files_entries)

lemma shown_paths:
  assumes "shows_entries es d"
  shows "mset (map n_path (tree_files (dl_files d))) = mset (map entry_path (sized es))"
proof -
  have "map n_path ns = map fst (map file_view ns)" for ns by (simp add: file_view_def)
  moreover have "map entry_path es = map fst (map entry_view es)" for es by (simp add: entry_view_def)
  ultimately show ?thesis using shown_files [OF assms] by (metis mset_map)
qed

lemma path_set:
  "shows_entries es d \<Longrightarrow> n_path ` set (tree_files (dl_files d)) = entry_path ` set (sized es)"
  using mset_eq_setD [OF shown_paths] by (metis list.set_map)

text \<open>
  Further fact: the size shown beside \<open>Selected:\<close>, computed by walking the
  tree, is the sum over the daemon's flat list of the sizes of the files whose path is chosen, for
  any list of entries and any selection: building the tree neither loses nor repeats a file,
  also when paths repeat or a file's path is the directory of another.
\<close>

theorem selected_size_is_flat:
  "shows_entries es d \<Longrightarrow>
    selectedSize d = (\<Sum>e \<leftarrow> filter (\<lambda>e. cf_size e > 0 \<and> chosen (dl_selections d) (entry_path e)) es. cf_size e)"
proof -
  assume s: "shows_entries es d"
  have "(\<Sum>v \<leftarrow> filter (is_chosen d) (map entry_view (sized es)). fst (snd v)) =
      (\<Sum>e \<leftarrow> filter (\<lambda>e. cf_size e > 0 \<and> chosen (dl_selections d) (entry_path e)) es. cf_size e)"
    by (simp add: filter_map comp_def entry_view_def is_chosen_def sized_def conj_commute)
  then show ?thesis
    using sum_list_permuted [OF shown_files [OF s]] by (simp add: selectedSize_files)
qed

definition sample_entries :: "content_file list" where
  "sample_entries =
     [\<lparr> cf_path = [''Album'', ''a.flac''], cf_size = 30, cf_priority = ''normal'', cf_downloaded = False \<rparr>,
      \<lparr> cf_path = [''Album'', ''b.flac''], cf_size = 20, cf_priority = ''skip'', cf_downloaded = False \<rparr>,
      \<lparr> cf_path = [''Album'', ''empty.log''], cf_size = 0, cf_priority = ''normal'', cf_downloaded = False \<rparr>]"

definition sample_dialog :: dialog where
  "sample_dialog = dialog_init\<lparr> dl_files := buildFileTree sample_entries,
     dl_selections := [(''Album/b.flac'', False)] \<rparr>"

theorem selected_size_is_flat_witness:
  "selectedSize sample_dialog =
    (\<Sum>e \<leftarrow> filter (\<lambda>e. cf_size e > 0 \<and> chosen (dl_selections sample_dialog) (entry_path e)) sample_entries. cf_size e)"
  by (rule selected_size_is_flat) (simp add: shows_entries_def sample_dialog_def)

subsection \<open>What a submission sends\<close>

definition clean_path :: "string list \<Rightarrow> bool" where
  "clean_path p \<longleftrightarrow> proper_path p \<and> (\<forall>w \<in> set p. CHR ''/'' \<notin> set w)"

lemma parts_of_entry: "clean_path (cf_path e) \<Longrightarrow> path_parts (entry_path e) = cf_path e"
  using split_join [of "cf_path e" "CHR ''/''"] full_path_ne [of e]
  by (auto simp: clean_path_def path_parts_def entry_path_def str_or_def full_path_def proper_path_def
      filter_id_conv)

lemma clean_entry_path: "clean_path (cf_path e) \<Longrightarrow> entry_path e = js_join ''/'' (cf_path e)"
  using full_path_ne [of e] by (simp add: clean_path_def entry_path_def str_or_def full_path_def)

text \<open>The listed files as a function of the daemon's list: one path per entry that has a size.\<close>

lemma collected_lists:
  assumes s: "shows_entries es d" and c: "\<forall>e \<in> set es. clean_path (cf_path e)"
  shows "mset (collectAll d) = mset (map cf_path (sized es))"
    and "mset (collectSelected d) =
      mset (map cf_path (filter (\<lambda>e. chosen (dl_selections d) (entry_path e)) (sized es)))"
proof -
  let ?ns = "map n_path (tree_files (dl_files d))"
  have parts: "map path_parts (map entry_path xs) = map cf_path xs" if "set xs \<subseteq> set (sized es)" for xs
    using c that by (auto simp: sized_def parts_of_entry)
  have "mset (collectAll d) = image_mset path_parts (mset ?ns)"
    unfolding collectAll_files mset_map ..
  also have "\<dots> = mset (map path_parts (map entry_path (sized es)))"
    unfolding shown_paths [OF s] by (simp only: mset_map)
  finally show "mset (collectAll d) = mset (map cf_path (sized es))"
    by (simp only: parts [OF subset_refl])
  have "mset (collectSelected d) = image_mset path_parts (filter_mset (chosen (dl_selections d)) (mset ?ns))"
    unfolding collectSelected_files mset_map mset_filter ..
  also have "\<dots> = mset (map path_parts (filter (chosen (dl_selections d)) (map entry_path (sized es))))"
    unfolding shown_paths [OF s] by (simp only: mset_map mset_filter)
  also have "filter (chosen (dl_selections d)) (map entry_path (sized es)) =
      map entry_path (filter (\<lambda>e. chosen (dl_selections d) (entry_path e)) (sized es))"
    by (simp add: filter_map comp_def)
  finally show "mset (collectSelected d) =
      mset (map cf_path (filter (\<lambda>e. chosen (dl_selections d) (entry_path e)) (sized es)))"
    by (subst (asm) parts) auto
qed

lemma confirm_result:
  assumes "tid \<noteq> []" "\<not> dl_loading d" "\<not> dl_submitting d" "dl_files d \<noteq> []"
    and "handleConfirm proceed accepted (Some tid) d = (outcome, requests, d')"
  shows "requests = patches Skip (collectAll d) @ patches Download (collectSelected d)"
    and "outcome = (if (\<forall>q \<in> set (patches Download (collectSelected d)). \<not> accepted q) \<and> collectSelected d \<noteq> []
        then ConfirmFailed ''Failed to set file priorities. Please try again.''
        else Confirmed (collectSelected d) (dl_start d))"
    and "dl_files d' = dl_files d" "dl_selections d' = dl_selections d" "\<not> dl_loading d'" "\<not> dl_submitting d'"
  using assms by (auto simp: handleConfirm_def Let_def filter_empty_conv split: if_splits)

text \<open>
  Property C4: a submission first asks to skip each listed file that has a size, once per entry
  of the daemon's list, and then to download each of them that is chosen, and asks nothing
  else (nothing for files of size zero); so the last request for a file is \<open>Download\<close> exactly when it is
  chosen. It fails exactly when something is chosen and no request to download succeeded;
  otherwise \<open>onConfirm\<close> gets the chosen paths. This holds whatever requests succeed
  (\<open>accepted\<close>), for entries whose path parts are not empty and have no slash, when the
  dialog is not loading or submitting and lists something.
\<close>

theorem confirm_sends_selection:
  assumes s: "shows_entries es d" and c: "\<forall>e \<in> set es. clean_path (cf_path e)"
    and ready: "tid \<noteq> []" "\<not> dl_loading d" "\<not> dl_submitting d" "dl_files d \<noteq> []"
    and run: "handleConfirm proceed accepted (Some tid) d = (outcome, requests, d')"
  shows "\<exists>skips downloads. requests = skips @ downloads \<and>
      mset skips = mset (map (\<lambda>e. \<lparr> pp_path = cf_path e, pp_priority = Skip \<rparr>)
        (filter (\<lambda>e. cf_size e > 0) es)) \<and>
      mset downloads = mset (map (\<lambda>e. \<lparr> pp_path = cf_path e, pp_priority = Download \<rparr>)
        (filter (\<lambda>e. cf_size e > 0 \<and> chosen (dl_selections d) (entry_path e)) es)) \<and>
      (outcome = ConfirmFailed ''Failed to set file priorities. Please try again.'' \<longleftrightarrow>
        downloads \<noteq> [] \<and> (\<forall>q \<in> set downloads. \<not> accepted q)) \<and>
      (outcome \<noteq> ConfirmFailed ''Failed to set file priorities. Please try again.'' \<longrightarrow>
        outcome = Confirmed (map pp_path downloads) (dl_start d))"
proof (intro exI conjI)
  let ?skips = "patches Skip (collectAll d)" and ?downs = "patches Download (collectSelected d)"
  note r = confirm_result [OF ready run] and l = collected_lists [OF s c]
  have m: "mset (patches pr ps) = image_mset (\<lambda>p. \<lparr> pp_path = p, pp_priority = pr \<rparr>) (mset ps)" for pr ps
    by (simp add: patches_def)
  show "requests = ?skips @ ?downs" by (rule r(1))
  show "mset ?skips = mset (map (\<lambda>e. \<lparr> pp_path = cf_path e, pp_priority = Skip \<rparr>)
        (filter (\<lambda>e. cf_size e > 0) es))"
    unfolding m l(1) by (simp add: sized_def image_mset.compositionality comp_def)
  show "mset ?downs = mset (map (\<lambda>e. \<lparr> pp_path = cf_path e, pp_priority = Download \<rparr>)
        (filter (\<lambda>e. cf_size e > 0 \<and> chosen (dl_selections d) (entry_path e)) es))"
    unfolding m l(2) by (simp add: sized_def image_mset.compositionality comp_def conj_commute)
  have e: "?downs = [] \<longleftrightarrow> collectSelected d = []" by (simp add: patches_def)
  show "(outcome = ConfirmFailed ''Failed to set file priorities. Please try again.'') =
      (?downs \<noteq> [] \<and> (\<forall>q \<in> set ?downs. \<not> accepted q))"
    unfolding r(2) e by auto
  show "outcome \<noteq> ConfirmFailed ''Failed to set file priorities. Please try again.'' \<longrightarrow>
      outcome = Confirmed (map pp_path ?downs) (dl_start d)"
    unfolding r(2) by (auto simp: patches_def comp_def)
qed

lemma sample_shown: "dl_files sample_dialog \<noteq> []" "shows_entries sample_entries sample_dialog"
  "\<not> dl_loading sample_dialog" "\<not> dl_submitting sample_dialog"
  "\<forall>e \<in> set sample_entries. clean_path (cf_path e)"
  by (simp_all add: sample_dialog_def sample_entries_def buildFileTree_def empty_builder_def Let_def
      add_entry_def register_def full_path_def jm_get_def push_child_def attach_def push_root_def
      extend_path_def shows_entries_def dialog_init_def clean_path_def proper_path_def)

theorem confirm_sends_selection_witness:
  "\<exists>skips downloads.
     fst (snd (handleConfirm True (\<lambda>_. False) (Some ''7'') sample_dialog)) = skips @ downloads \<and>
     mset (map pp_path skips) = {#[''Album'', ''a.flac''], [''Album'', ''b.flac'']#} \<and>
     mset (map pp_path downloads) = {#[''Album'', ''a.flac'']#} \<and>
     fst (handleConfirm True (\<lambda>_. False) (Some ''7'') sample_dialog) =
       ConfirmFailed ''Failed to set file priorities. Please try again.''"
proof -
  obtain out reqs d' where run: "handleConfirm True (\<lambda>_. False) (Some ''7'') sample_dialog = (out, reqs, d')"
    by (metis prod_cases3)
  have f: "filter (\<lambda>e. cf_size e > 0) sample_entries = take 2 sample_entries"
    "filter (\<lambda>e. cf_size e > 0 \<and> chosen (dl_selections sample_dialog) (entry_path e)) sample_entries =
      take 1 sample_entries"
    by (simp_all add: sample_entries_def sample_dialog_def chosen_def entry_path_def full_path_def str_or_def
        jm_get_def js_simps numeral_2_eq_2)
  obtain skips downloads where r: "reqs = skips @ downloads"
    "mset skips = mset (map (\<lambda>e. \<lparr> pp_path = cf_path e, pp_priority = Skip \<rparr>) (take 2 sample_entries))"
    "mset downloads = mset (map (\<lambda>e. \<lparr> pp_path = cf_path e, pp_priority = Download \<rparr>) (take 1 sample_entries))"
    "out = ConfirmFailed ''Failed to set file priorities. Please try again.'' \<longleftrightarrow> downloads \<noteq> []"
    using confirm_sends_selection [OF sample_shown(2,5) _ sample_shown(3,4,1) run] unfolding f by auto
  have "mset (map pp_path skips) = image_mset pp_path (mset skips)"
    "mset (map pp_path downloads) = image_mset pp_path (mset downloads)" by simp_all
  then show ?thesis
    using r unfolding run by (intro exI [of _ skips] exI [of _ downloads])
      (auto simp: sample_entries_def numeral_2_eq_2)
qed

text \<open>
  Property C5: with the daemon of this repository no submission with a chosen file can succeed.
  Its request type requires \<open>paths\<close>, which the dialog does not send, so every request is answered
  with 422 and every \<open>patchJson\<close> throws. The dialog reports the failure, keeps its files and choices, and
  can be submitted again with the same result. \<open>accepted p\<close> may hold only if the
  \<open>patchJson\<close> of \<open>p\<close> returned a value, all its replies having the handler's status.
\<close>

theorem daemon_refuses_selection:
  assumes s: "shows_entries es d"
    and ready: "tid \<noteq> []" "\<not> dl_loading d" "\<not> dl_submitting d" "dl_files d \<noteq> []"
    and daemon: "\<forall>p. accepted p \<longrightarrow> (\<exists>net c v.
      fst (patchJson parse z net (''/torrents/'' @ tid @ ''/file-priority'') (enc (patch_body p)) c) = Inr v \<and>
      answered_with (\<lambda>r. r_status r = h_patch_file_priority valid_id known updated (patch_body p)) net c
        (snd (patchJson parse z net (''/torrents/'' @ tid @ ''/file-priority'') (enc (patch_body p)) c)))"
    and "e \<in> set es" "cf_size e > 0" "chosen (dl_selections d) (entry_path e)"
    and run: "handleConfirm proceed accepted (Some tid) d = (outcome, requests, d')"
  shows "outcome = ConfirmFailed ''Failed to set file priorities. Please try again.'' \<and>
    dl_files d' = dl_files d \<and> dl_selections d' = dl_selections d \<and> \<not> dl_loading d' \<and> \<not> dl_submitting d'"
proof -
  have no: "\<not> accepted p" for p
  proof
    assume "accepted p"
    with daemon obtain net c v where v: "fst (patchJson parse z net (''/torrents/'' @ tid @ ''/file-priority'')
        (enc (patch_body p)) c) = Inr v"
      and a: "answered_with (\<lambda>r. r_status r = h_patch_file_priority valid_id known updated (patch_body p)) net c
        (snd (patchJson parse z net (''/torrents/'' @ tid @ ''/file-priority'') (enc (patch_body p)) c))" by blast
    have "h_patch_file_priority valid_id known updated (patch_body p) = 422"
      by (simp add: h_patch_file_priority_def file_priority_of_body_def patch_body_def)
    with a have "answered_with (\<lambda>r. \<not> r_ok r) net c
        (snd (patchJson parse z net (''/torrents/'' @ tid @ ''/file-priority'') (enc (patch_body p)) c))"
      unfolding answered_with_def by (auto simp: list_all_iff r_ok_def split: sum.splits)
    then show False using finish_json_refused v unfolding patchJson_def by fastforce
  qed
  have "entry_path e \<in> n_path ` set (tree_files (dl_files d))"
    using path_set [OF s] assms(7,8) by (auto simp: sized_def)
  then have "collectSelected d \<noteq> []"
    using assms(9) by (auto simp: collectSelected_files filter_empty_conv)
  then show ?thesis using confirm_result [OF ready run] no by simp
qed

definition refusing_net :: "nat \<Rightarrow> attempt" where
  "refusing_net n = \<lparr>at_now = int n, at_wasAborted = False, at_result =
     Inr \<lparr>r_status = 422, r_statusText = ''Unprocessable Entity'', r_text = Inr ''missing field paths''\<rparr>\<rparr>"

definition sample_patch :: "priority_patch \<Rightarrow> (thrown + string) \<times> conn" where
  "sample_patch p = patchJson Inr [] refusing_net (''/torrents/'' @ ''7'' @ ''/file-priority'')
     (concat (pp_path p)) conn_init"

theorem daemon_refuses_selection_witness:
  "fst (handleConfirm True (\<lambda>p. \<exists>v. fst (sample_patch p) = Inr v) (Some ''7'') sample_dialog) =
     ConfirmFailed ''Failed to set file priorities. Please try again.''"
proof -
  let ?acc = "\<lambda>p. \<exists>v. fst (sample_patch p) = Inr v"
  let ?enc = "\<lambda>b. case b of (_, PathField w) # _ \<Rightarrow> concat w | _ \<Rightarrow> []"
  let ?e = "hd sample_entries"
  have enc: "?enc (patch_body p) = concat (pp_path p)" for p by (simp add: patch_body_def)
  have "answered_with (\<lambda>r. r_status r = h_patch_file_priority True True True (patch_body p)) refusing_net
      conn_init (snd (sample_patch p))" for p
    by (auto simp: answered_with_def refusing_net_def h_patch_file_priority_def file_priority_of_body_def
        patch_body_def list_all_iff)
  then have daemon: "\<forall>p. ?acc p \<longrightarrow> (\<exists>net c v.
      fst (patchJson Inr [] net (''/torrents/'' @ ''7'' @ ''/file-priority'') (?enc (patch_body p)) c) = Inr v \<and>
      answered_with (\<lambda>r. r_status r = h_patch_file_priority True True True (patch_body p)) net c
        (snd (patchJson Inr [] net (''/torrents/'' @ ''7'' @ ''/file-priority'') (?enc (patch_body p)) c)))"
    unfolding enc sample_patch_def by blast
  obtain out reqs d' where run: "handleConfirm True ?acc (Some ''7'') sample_dialog = (out, reqs, d')"
    by (metis prod_cases3)
  have e: "?e \<in> set sample_entries" "cf_size ?e > 0" "chosen (dl_selections sample_dialog) (entry_path ?e)"
    by (simp_all add: sample_entries_def sample_dialog_def chosen_def entry_path_def full_path_def str_or_def
        jm_get_def js_simps)
  show ?thesis
    using daemon_refuses_selection [OF sample_shown(2) _ sample_shown(3,4,1) daemon e run]
    unfolding run by simp
qed

subsection \<open>Loading ends\<close>

lemma load_settle_stop:
  "load_settle reply rc d = (r, rc', d') \<Longrightarrow> \<forall>w. r \<noteq> LoadRetry w \<Longrightarrow> rc' = rc \<and> \<not> dl_isLoading d' \<and> \<not> dl_loading d'"
  by (auto simp: load_settle_def Let_def split: sum.splits if_splits)

lemma sum_doubling: "(\<Sum>k \<leftarrow> [0..<n]. 500 * 2 ^ k) = (500 * (2 ^ n - 1) :: int)"
  by (induction n) simp_all

lemma empty_reply: "tcn_files c = [] \<Longrightarrow> load_settle (Inr c) n d =
    (if n < maxRetries_load then (LoadRetry (load_delay (Suc n)), Suc n, d)
     else (LoadSettled, n, (setFiles [] d)\<lparr> dl_loading := False, dl_isLoading := False \<rparr>))"
  by (simp add: load_settle_def)

lemma run_load_append: "run_load (es @ fs) v =
    (case run_load es v of (v1, out) \<Rightarrow> (case run_load fs v1 of (v2, out') \<Rightarrow> (v2, out @ out')))"
  by (induction es arbitrary: v) (auto split: prod.splits)

lemma redraw_starts:
  assumes "torrentId \<noteq> None" "torrentId \<noteq> Some []"
  shows "\<exists>d. redraw_load True torrentId v = (\<lparr> lv_dialog = d, lv_props = (True, torrentId), lv_live = True,
      lv_count = 0, lv_phase = LoadFetching \<rparr>, [FetchSent (load_options 0)]) \<and>
      dl_loading d \<and> dl_isLoading d \<and> dl_error d = None"
  using assms by (auto simp: redraw_load_def load_effect_def Let_def split: option.splits)

text \<open>As long as every attempt is to be repeated, the dialog does not change.\<close>

lemma retrying_run:
  assumes "\<forall>k < n. \<exists>w. fst (load_settle (fetch k) k (lv_dialog v)) = LoadRetry w"
    and "lv_phase v = LoadFetching" "lv_count v = 0"
  shows "run_load (concat (map (\<lambda>k. [FetchSettles (fetch k), RetryTimer]) [0..<n])) v =
    (v\<lparr> lv_count := n \<rparr>,
     concat (map (\<lambda>k. [RetryIn (load_delay (Suc k)), FetchSent (load_options (Suc k))]) [0..<n]))"
  using assms(1)
proof (induction n)
  case 0
  then show ?case using assms(3) by simp
next
  case (Suc n)
  obtain w rc d where s: "load_settle (fetch n) n (lv_dialog v) = (LoadRetry w, rc, d)"
    using Suc.prems by (metis lessI prod.collapse)
  note r = load_settle_retry [OF s]
  have step: "load_step (FetchSettles (fetch n)) (v\<lparr> lv_count := n \<rparr>) =
      (v\<lparr> lv_count := Suc n, lv_phase := LoadWaiting (load_delay (Suc n)) \<rparr>, [RetryIn (load_delay (Suc n))])"
    using s r assms(2) by (simp add: settle_load_def)
  have timer: "load_step RetryTimer (v\<lparr> lv_count := Suc n, lv_phase := LoadWaiting (load_delay (Suc n)) \<rparr>) =
      (v\<lparr> lv_count := Suc n \<rparr>, [FetchSent (load_options (Suc n))])"
    using assms(2) by simp
  have "run_load (concat (map (\<lambda>k. [FetchSettles (fetch k), RetryTimer]) [0..<n])) v =
    (v\<lparr> lv_count := n \<rparr>,
     concat (map (\<lambda>k. [RetryIn (load_delay (Suc k)), FetchSent (load_options (Suc k))]) [0..<n]))"
    using Suc by simp
  then show ?case
    by (simp only: upt_Suc_append [OF le0] map_append concat_append run_load_append prod.case list.map
        concat.simps append_Nil2 run_load.simps step timer append.simps)
qed

lemma retries_end: "\<exists>n \<le> 8. (\<forall>k < n. \<exists>w. fst (load_settle (fetch k) k d) = LoadRetry w) \<and>
    (\<forall>w. fst (load_settle (fetch n) n d) \<noteq> LoadRetry w)"
proof -
  let ?P = "\<lambda>k. \<forall>w. fst (load_settle (fetch k) k d) \<noteq> LoadRetry w"
  have "?P 8"
    using load_settle_retry [of "fetch 8" 8 d] by (metis less_irrefl maxRetries_load_def prod.collapse)
  then have "?P (LEAST k. ?P k)" "(LEAST k. ?P k) \<le> 8" by (rule LeastI, rule Least_le)
  moreover have "\<forall>k < (LEAST k. ?P k). \<not> ?P k" using not_less_Least by blast
  ultimately show ?thesis by blast
qed

definition fetches_sent :: "load_output list \<Rightarrow> nat" where
  "fetches_sent out = length (filter (\<lambda>x. case x of FetchSent _ \<Rightarrow> True | _ \<Rightarrow> False) out)"

definition retry_waits :: "load_output list \<Rightarrow> time list" where
  "retry_waits out = concat (map (\<lambda>x. case x of RetryIn w \<Rightarrow> [w] | _ \<Rightarrow> []) out)"

lemma retry_outputs:
  defines "out n \<equiv> concat (map (\<lambda>k. [RetryIn (load_delay (Suc k)), FetchSent (load_options (Suc k))]) [0..<n])"
  shows "fetches_sent (out n @ zs) = n + fetches_sent zs"
    and "retry_waits (out n @ zs) = map (\<lambda>k. 500 * 2 ^ k) [0..<n] @ retry_waits zs"
    and "LoadError m \<notin> set (out n)"
proof -
  show "fetches_sent (out n @ zs) = n + fetches_sent zs" for zs
    by (induction n arbitrary: zs) (auto simp: out_def fetches_sent_def)
  show "retry_waits (out n @ zs) = map (\<lambda>k. 500 * 2 ^ k) [0..<n] @ retry_waits zs" for zs
    by (induction n arbitrary: zs) (auto simp: out_def retry_waits_def load_delay_def)
qed (auto simp: out_def)

text \<open>
  Property C23: a load that nothing redraws ends. From the redraw that starts it, whatever the
  daemon answers, it makes at most nine attempts and waits 500, 1000, 2000, ... ms between them, at most
  127.5 seconds in all. Then either it has stopped without an error and neither
  loading nor armed, or it has reported an error, and the redraw of \<open>App\<close> that this causes has
  started the load again. When the list stays empty (a magnet without metadata) all
  nine attempts are made and a press of the retry button makes exactly one
  more: the counter of the closure is not reset.
\<close>

theorem file_list_load_ends:
  assumes "torrentId \<noteq> None" "torrentId \<noteq> Some []"
    and start: "load_step (AppRedraw True torrentId) v = (v0, out0)"
  shows "\<exists>n \<le> 8. case run_load (undisturbed_load fetch n) v0 of (v1, out) \<Rightarrow>
     retry_waits out = map (\<lambda>k. 500 * 2 ^ k) [0..<n] \<and> sum_list (retry_waits out) \<le> 127500 \<and>
     (fetches_sent (out0 @ out) = n + 1 \<and> lv_phase v1 = LoadIdle \<and>
        \<not> dl_loading (lv_dialog v1) \<and> \<not> dl_isLoading (lv_dialog v1) \<and> (\<forall>m. LoadError m \<notin> set out) \<or>
      (\<exists>m front. out = front @ [LoadError m, FetchSent (load_options 0)] \<and> fetches_sent (out0 @ front) = n + 1 \<and>
        lv_phase v1 = LoadFetching \<and> lv_count v1 = 0 \<and> dl_error (lv_dialog v1) = None)) \<and>
     ((\<forall>k. \<exists>c. fetch k = Inr c \<and> tcn_files c = []) \<longrightarrow>
        n = 8 \<and> lv_phase v1 = LoadIdle \<and> dl_files (lv_dialog v1) = [] \<and>
        (case run_load [RetryPressed, FetchSettles (fetch n)] v1 of (v2, out2) \<Rightarrow>
           fetches_sent out2 = 1 \<and> lv_phase v2 = LoadIdle))"
proof -
  obtain d where v0: "v0 = \<lparr> lv_dialog = d, lv_props = (True, torrentId), lv_live = True,
      lv_count = 0, lv_phase = LoadFetching \<rparr>" and out0: "out0 = [FetchSent (load_options 0)]"
    using redraw_starts [OF assms(1,2), of v] start by auto
  obtain n where n: "n \<le> 8" and before: "\<forall>k < n. \<exists>w. fst (load_settle (fetch k) k d) = LoadRetry w"
    and last: "\<forall>w. fst (load_settle (fetch n) n d) \<noteq> LoadRetry w"
    using retries_end [of fetch d] by blast
  let ?front = "concat (map (\<lambda>k. [RetryIn (load_delay (Suc k)), FetchSent (load_options (Suc k))]) [0..<n])"
  obtain nx rc d1 where s: "load_settle (fetch n) n d = (nx, rc, d1)" by (metis prod_cases3)
  have nx: "\<forall>w. nx \<noteq> LoadRetry w" using last s by simp
  note stop = load_settle_stop [OF s nx]
  let ?vn = "v0\<lparr> lv_count := n \<rparr>"
  have run: "run_load (undisturbed_load fetch n) v0 =
      (case settle_load (fetch n) ?vn of (v1, out) \<Rightarrow> (v1, ?front @ out))"
    using retrying_run [of n fetch v0] before
    by (simp add: undisturbed_load_def run_load_append v0 split: prod.split)
  have sum: "(\<Sum>k \<leftarrow> [0..<n]. 500 * 2 ^ k) \<le> (127500 :: int)"
  proof -
    have "(2 :: int) ^ n \<le> 2 ^ 8" using n by (intro power_increasing) simp_all
    then show ?thesis unfolding sum_doubling by simp
  qed
  have empties: "n = 8 \<and> nx = LoadSettled \<and> d1 = (setFiles [] d)\<lparr> dl_loading := False, dl_isLoading := False \<rparr>"
    if all: "\<forall>k. \<exists>c. fetch k = Inr c \<and> tcn_files c = []"
  proof -
    obtain c where "fetch n = Inr c" "tcn_files c = []" using all by blast
    from empty_reply [OF this(2), of n d] this(1) s nx n show ?thesis
      by (auto simp: maxRetries_load_def split: if_splits)
  qed
  show ?thesis
  proof (cases nx)
    case LoadSettled
    then have sl: "settle_load (fetch n) ?vn = (v0\<lparr> lv_dialog := d1, lv_count := n, lv_phase := LoadIdle \<rparr>, [])"
      using s stop by (simp add: settle_load_def v0)
    have again: "fetches_sent (snd (run_load [RetryPressed, FetchSettles (fetch n)] (v0\<lparr> lv_dialog := d1, lv_count := n, lv_phase := LoadIdle \<rparr>))) = 1 \<and>
        lv_phase (fst (run_load [RetryPressed, FetchSettles (fetch n)] (v0\<lparr> lv_dialog := d1, lv_count := n, lv_phase := LoadIdle \<rparr>))) = LoadIdle"
      if all: "\<forall>k. \<exists>c. fetch k = Inr c \<and> tcn_files c = []"
    proof -
      obtain c where "fetch n = Inr c" "tcn_files c = []" using all by blast
      then show ?thesis
        using empties [OF all] stop
        by (simp add: v0 settle_load_def handleRetryLoad_def empty_reply maxRetries_load_def fetches_sent_def)
    qed
    let ?v1 = "v0\<lparr> lv_dialog := d1, lv_count := n, lv_phase := LoadIdle \<rparr>"
    have r: "run_load (undisturbed_load fetch n) v0 = (?v1, ?front)" unfolding run sl by simp
    have o: "retry_waits ?front = map (\<lambda>k. 500 * 2 ^ k) [0..<n]" "fetches_sent (out0 @ ?front) = n + 1"
      "\<forall>m. LoadError m \<notin> set ?front"
      using retry_outputs(1) [where n = n and zs = "[]"] retry_outputs(2) [where n = n and zs = "[]"]
        retry_outputs(3) [where n = n]
      by (simp_all add: out0 fetches_sent_def retry_waits_def)
    have st: "lv_phase ?v1 = LoadIdle" "\<not> dl_loading (lv_dialog ?v1)" "\<not> dl_isLoading (lv_dialog ?v1)"
      using stop by simp_all
    have em: "n = 8 \<and> lv_phase ?v1 = LoadIdle \<and> dl_files (lv_dialog ?v1) = [] \<and>
        (case run_load [RetryPressed, FetchSettles (fetch n)] ?v1 of (v2, out2) \<Rightarrow>
           fetches_sent out2 = 1 \<and> lv_phase v2 = LoadIdle)"
      if all: "\<forall>k. \<exists>c. fetch k = Inr c \<and> tcn_files c = []"
      using empties [OF all] again [OF all] by (simp add: setFiles_def case_prod_beta)
    show ?thesis
      by (rule exI [of _ n], unfold r prod.case o(1), intro conjI n impI disjI1 refl sum o(2,3) st)
        (drule em, elim conjE, assumption)+
  next
    case (LoadFailed m)
    obtain d2 where rd: "redraw_load True torrentId (?vn\<lparr> lv_dialog := d1 \<rparr>) = (\<lparr> lv_dialog = d2, lv_props = (True, torrentId),
        lv_live = True, lv_count = 0, lv_phase = LoadFetching \<rparr>, [FetchSent (load_options 0)])" "dl_error d2 = None"
      using redraw_starts [OF assms(1,2)] by blast
    have sl: "settle_load (fetch n) ?vn = (\<lparr> lv_dialog = d2, lv_props = (True, torrentId),
        lv_live = True, lv_count = 0, lv_phase = LoadFetching \<rparr>, [LoadError m, FetchSent (load_options 0)])"
      using s LoadFailed rd(1) by (simp add: settle_load_def v0)
    have no: "\<not> (\<forall>k. \<exists>c. fetch k = Inr c \<and> tcn_files c = [])" using empties LoadFailed by auto
    have "fetches_sent (out0 @ ?front) = n + 1" "retry_waits (?front @ [LoadError m, FetchSent (load_options 0)]) =
        map (\<lambda>k. 500 * 2 ^ k) [0..<n]"
      using retry_outputs(1) [of n "[]"] retry_outputs(2) by (simp_all add: out0 fetches_sent_def retry_waits_def)
    then show ?thesis
      using n sum no rd(2) by (intro exI [of _ n]) (auto simp: run sl)
  qed (use nx in simp)
qed

definition no_files :: torrent_content where "no_files = \<lparr> tcn_files = [] \<rparr>"

theorem file_list_load_ends_witness:
  "case run_load (AppRedraw True (Some ''7'') # undisturbed_load (\<lambda>_. Inr no_files) 8) load_view_init of (v1, out) \<Rightarrow>
     retry_waits out = map (\<lambda>k. 500 * 2 ^ k) [0..<8] \<and> lv_phase v1 = LoadIdle \<and> dl_files (lv_dialog v1) = []"
proof -
  obtain v0 out0 where start: "load_step (AppRedraw True (Some ''7'')) load_view_init = (v0, out0)" by fastforce
  have o: "retry_waits (out0 @ out) = retry_waits out" for out
    using start redraw_starts [of "Some ''7''" load_view_init] by (auto simp: retry_waits_def)
  let ?f = "\<lambda>_ :: nat. Inr no_files :: thrown + torrent_content"
  have all: "\<forall>k. \<exists>c. ?f k = Inr c \<and> tcn_files c = []" by (simp add: no_files_def)
  show ?thesis
  proof (rule exE [OF file_list_load_ends [OF _ _ start, of ?f]], goal_cases)
    case (3 n)
    obtain v1 out where r: "run_load (undisturbed_load ?f n) v0 = (v1, out)" by fastforce
    note h = conjunct2 [OF 3, unfolded r prod.case]
    have w: "retry_waits out = map (\<lambda>k. 500 * 2 ^ k) [0..<n]" using h by (elim conjE)
    have e: "n = 8" "lv_phase v1 = LoadIdle" "dl_files (lv_dialog v1) = []"
      using h all by (elim conjE, blast)+
    have "run_load (AppRedraw True (Some ''7'') # undisturbed_load ?f 8) load_view_init = (v1, out0 @ out)"
      using start r e(1) by (simp del: load_step.simps)
    then show ?case using w e by (simp add: o del: upt_rec_numeral)
  qed simp_all
qed

text \<open>
  Property C24: while the dialog is open the load is started over by every redraw of
  \<open>App\<close>: the counter of attempts goes back to zero, the pending timer is gone, the list is shown as
  loading and the last error is no longer shown. In particular a failure that is not repeated
  never stays: each one is reported once and the load begins again, so a daemon that keeps
  refusing makes one toast per attempt without end.
\<close>

theorem redraws_restart_load:
  assumes "torrentId \<noteq> None" "torrentId \<noteq> Some []" and "\<not> isRetryable_load (getErrorMessage e ''Failed to load file list'')"
  shows "case run_load (AppRedraw True torrentId # replicate n (FetchSettles (Inl e))) v of (v1, out) \<Rightarrow>
    out = FetchSent (load_options 0) # concat (replicate n
      [LoadError (getErrorMessage e ''Failed to load file list''), FetchSent (load_options 0)]) \<and>
    lv_phase v1 = LoadFetching \<and> lv_count v1 = 0 \<and> dl_loading (lv_dialog v1) \<and> dl_error (lv_dialog v1) = None"
proof -
  let ?E = "[LoadError (getErrorMessage e ''Failed to load file list''), FetchSent (load_options 0)]"
  let ?ok = "\<lambda>x. lv_phase x = LoadFetching \<and> lv_count x = 0 \<and> lv_props x = (True, torrentId) \<and>
    dl_loading (lv_dialog x) \<and> dl_error (lv_dialog x) = None"
  have step: "\<exists>x'. load_step (FetchSettles (Inl e)) x = (x', ?E) \<and> ?ok x'" if x: "?ok x" for x
  proof -
    let ?d = "(lv_dialog x)\<lparr> dl_loading := False, dl_isLoading := False,
        dl_error := Some (getErrorMessage e ''Failed to load file list'') \<rparr>"
    obtain d2 where "redraw_load True torrentId (x\<lparr> lv_dialog := ?d \<rparr>) = (\<lparr> lv_dialog = d2, lv_props = (True, torrentId),
        lv_live = True, lv_count = 0, lv_phase = LoadFetching \<rparr>, [FetchSent (load_options 0)])"
      "dl_loading d2" "dl_error d2 = None"
      using redraw_starts [OF assms(1,2)] by blast
    with x assms(3) show ?thesis by (simp add: settle_load_def load_settle_def Let_def)
  qed
  have many: "\<exists>x'. run_load (replicate n (FetchSettles (Inl e))) x = (x', concat (replicate n ?E)) \<and> ?ok x'"
    if "?ok x" for x
    using that
  proof (induction n arbitrary: x)
    case (Suc n)
    from step [OF Suc.prems] obtain x1 where x1: "load_step (FetchSettles (Inl e)) x = (x1, ?E)" "?ok x1" by blast
    from Suc.IH [OF x1(2)] x1(1) show ?case by (auto simp del: load_step.simps)
  qed simp
  obtain v0 where v0: "load_step (AppRedraw True torrentId) v = (v0, [FetchSent (load_options 0)])" "?ok v0"
    using redraw_starts [OF assms(1,2), of v] by auto
  from many [OF v0(2)] v0(1) show ?thesis by (auto simp del: load_step.simps)
qed

theorem redraws_restart_load_witness:
  "snd (run_load (AppRedraw True (Some ''7'') # replicate 2 (FetchSettles (Inl (ThrownString ''gone'')))) load_view_init) =
     [FetchSent (load_options 0), LoadError ''gone'', FetchSent (load_options 0), LoadError ''gone'', FetchSent (load_options 0)]"
  using redraws_restart_load [of "Some ''7''" "ThrownString ''gone''" 2 load_view_init]
  by (auto simp: getErrorMessage_def isRetryable_load_def js_simps numeral_2_eq_2 split: prod.splits)

subsection \<open>Choices over the life of the dialog\<close>

lemma check_preorder: "check_node prev n \<longleftrightarrow> (\<exists>m \<in> set (preorder n). jm_get prev (n_path m) \<noteq> None)"
proof (induction n)
  case (FileNode i nm p s sel cs)
  then show ?case
    by (subst check_node.simps, subst preorder.simps) (auto simp: list_ex_iff)
qed

lemma check_forest: "list_ex (check_node prev) ns \<longleftrightarrow>
    (\<exists>n \<in> set (all_nodes ns). jm_get prev (n_path n) \<noteq> None)"
  by (auto simp: list_ex_iff check_preorder all_nodes_def)

lemma add_keeps: "jm_get prev k = Some v \<Longrightarrow> jm_get (addNewFiles ns prev) k = Some v"
proof -
  have "jm_get m k = Some v \<Longrightarrow> jm_get (fold (\<lambda>n merged.
      if jm_get merged (n_path n) = None then jm_set (n_path n) (initial_choice n) merged else merged)
      xs m) k = Some v" for xs :: "file_node list" and m
  proof (induction xs arbitrary: m)
    case (Cons x xs)
    have "jm_get (if jm_get m (n_path x) = None then jm_set (n_path x) (initial_choice x) m else m) k = Some v"
      using Cons.prems by (auto simp: jm_simps)
    from Cons.IH [OF this] show ?case by simp
  qed simp
  then show "jm_get prev k = Some v \<Longrightarrow> jm_get (addNewFiles ns prev) k = Some v"
    unfolding addNewFiles_def walk_forest .
qed

definition covers :: "file_node list \<Rightarrow> selections \<Rightarrow> bool" where
  "covers ns sel \<longleftrightarrow> (\<forall>n \<in> set (all_nodes ns). n_path n \<in> jm_keys sel)"

lemma add_covers: "covers ns (addNewFiles ns prev)"
proof -
  have "n_path ` set xs \<union> jm_keys m \<subseteq> jm_keys (fold (\<lambda>n merged.
      if jm_get merged (n_path n) = None then jm_set (n_path n) (initial_choice n) merged else merged)
      xs m)" for xs :: "file_node list" and m
  proof (induction xs arbitrary: m)
    case (Cons x xs)
    have "n_path x \<in> jm_keys m \<or> jm_get m (n_path x) = None" by (simp add: jm_get_None)
    then show ?case
      using Cons [of m] Cons [of "jm_set (n_path x) (initial_choice x) m"]
      by (cases "jm_get m (n_path x) = None") (auto simp: jm_simps jm_get_None)
  qed simp
  then show ?thesis unfolding covers_def addNewFiles_def walk_forest by blast
qed

lemma fold_set_keys: "jm_keys (fold (\<lambda>n. jm_set (f n) (g n)) xs m) = f ` set xs \<union> jm_keys m"
  by (induction xs arbitrary: m) (auto simp: jm_simps)

lemma load_covers: "covers ns (load_selections ns prev)"
  using add_covers
  by (auto simp: load_selections_def setSelections_def walk_forest covers_def fold_set_keys)

lemma covers_agree: "covers (dl_files d) (dl_selections d) \<Longrightarrow> n \<in> set (all_nodes (dl_files d)) \<Longrightarrow>
    shown_selected d n = chosen (dl_selections d) (n_path n)"
  by (auto simp: covers_def shown_selected_def chosen_def split: option.splits) (metis jm_get_None option.distinct(1))+

lemma save_for_fields [simp]:
  "dl_files (save_for t s d) = dl_files d" "dl_selections (save_for t s d) = dl_selections d"
  "dl_prevId (save_for t s d) = dl_prevId d" "dl_loading (save_for t s d) = dl_loading d"
  by (auto simp: save_for_def split: option.splits)

lemma toggleAll_get: "jm_get (dl_selections (toggleAll t b d)) k =
    (if k \<in> n_path ` set (tree_files (dl_files d)) then Some b else jm_get (dl_selections d) k)"
proof -
  have "jm_get (fold (\<lambda>n next. if n_size n > 0 then jm_set (n_path n) b next else next) xs m) k =
    (if k \<in> n_path ` set (filter is_file xs) then Some b else jm_get m k)" for xs m
    by (induction xs arbitrary: m) (auto simp: is_file_def jm_simps)
  then show ?thesis by (simp add: toggleAll_def walk_forest tree_files_def Let_def)
qed

datatype choice = ChooseFile string bool | ChooseAll bool

fun make_choice :: "string option \<Rightarrow> choice \<Rightarrow> dialog \<Rightarrow> dialog" where
  "make_choice t (ChooseFile p b) d = toggleFileSelection t p b d"
| "make_choice t (ChooseAll b) d = toggleAll t b d"

lemma make_choice_files [simp]: "dl_files (make_choice t c d) = dl_files d"
  by (cases c) (simp_all add: toggleFileSelection_def toggleAll_def Let_def)

lemma make_choice_covers:
  "covers (dl_files d) (dl_selections d) \<Longrightarrow> covers (dl_files d) (dl_selections (make_choice t c d))"
proof (cases c)
  case (ChooseAll b)
  assume "covers (dl_files d) (dl_selections d)"
  moreover have "k \<in> jm_keys (dl_selections (toggleAll t b d))" if "k \<in> jm_keys (dl_selections d)" for k
    using that toggleAll_get [of t b d k] by (metis jm_get_None option.distinct(1))
  ultimately show ?thesis
    using ChooseAll by (simp add: covers_def)
qed (simp add: covers_def toggleFileSelection_def jm_simps Let_def)

lemma make_choices_files [simp]: "dl_files (fold (make_choice t) cs d) = dl_files d"
  by (induction cs arbitrary: d) simp_all

lemma make_choices_cover:
  "covers (dl_files d) (dl_selections d) \<Longrightarrow>
    covers (dl_files d) (dl_selections (fold (make_choice t) cs d))"
proof (induction cs arbitrary: d)
  case (Cons c cs)
  from Cons.IH [of "make_choice t c d"] make_choice_covers [OF Cons.prems] show ?case by simp
qed simp

text \<open>
  Further fact: the check marks tell the truth. After a list has been loaded into the dialog, in
  whatever state it was, and after any sequence of clicks on single files and on
  \<open>SELECT ALL/NONE\<close>, the mark drawn beside every node is the value the submission uses.
\<close>

theorem marks_agree_with_submission:
  assumes "tcn_files c \<noteq> []" "load_settle (Inr c) rc d = (r, rc', d1)"
    "d2 = fold (make_choice t) choices d1" "n \<in> set (all_nodes (dl_files d2))"
  shows "shown_selected d2 n = chosen (dl_selections d2) (n_path n)"
proof -
  have "covers (dl_files d1) (dl_selections d1)"
    using assms(1,2) load_covers by (auto simp: load_settle_def Let_def setFiles_def)
  from make_choices_cover [OF this, of t choices] assms(3,4) show ?thesis
    by (simp add: covers_agree)
qed

theorem marks_agree_with_submission_witness:
  "shown_selected (toggleAll None True (snd (snd (load_settle (Inr \<lparr> tcn_files = sample_entries \<rparr>) 0 dialog_init))))
     (hd (all_nodes (buildFileTree sample_entries)))
   = chosen (dl_selections (toggleAll None True (snd (snd (load_settle (Inr \<lparr> tcn_files = sample_entries \<rparr>) 0 dialog_init)))))
     (n_path (hd (all_nodes (buildFileTree sample_entries))))"
proof -
  have ne: "tcn_files \<lparr> tcn_files = sample_entries \<rparr> \<noteq> []" by (simp add: sample_entries_def)
  obtain r rc d1 where s: "load_settle (Inr \<lparr> tcn_files = sample_entries \<rparr>) 0 dialog_init = (r, rc, d1)"
    by (metis prod_cases3)
  have files: "dl_files d1 = buildFileTree sample_entries"
    using s by (auto simp: load_settle_def Let_def setFiles_def sample_entries_def)
  have "all_nodes (buildFileTree sample_entries) \<noteq> []"
    using arg_cong [OF tree_files_entries [of sample_entries], of size]
    by (auto simp: tree_files_def sample_entries_def)
  then show ?thesis
    using marks_agree_with_submission [OF ne s, of "fold (make_choice None) [ChooseAll True] d1" None
        "[ChooseAll True]" "hd (all_nodes (buildFileTree sample_entries))"] files s
      make_choice_files [of None "ChooseAll True" d1]
    by simp
qed

text \<open>
  Further fact: what the user chose survives closing the dialog. The page closes it by clearing
  \<open>isOpen\<close> and the torrent id; when the same torrent is opened again and its list
  arrives, every listed path the user had a choice for has that choice again, whatever
  the daemon reports as its priority.
\<close>

theorem choices_survive_reopening:
  assumes open_for: "dl_prevId d = Some tid" "tid \<noteq> []"
    and known: "jm_get (dl_selections d) k = Some v"
    and listed: "k \<in> n_path ` set (all_nodes (buildFileTree (tcn_files c)))" "tcn_files c \<noteq> []"
  defines "shut \<equiv> snd (load_effect False None d)"
  defines "reopened \<equiv> snd (load_effect True (Some tid) shut)"
  shows "jm_get (dl_selections (snd (snd (load_settle (Inr c) rc reopened)))) k = Some v"
proof -
  have ne: "dl_selections d \<noteq> []" using known by (auto simp: jm_simps)
  then have "dl_selections reopened = dl_selections d"
    using open_for by (simp add: reopened_def shut_def load_effect_def Let_def jm_simps)
  moreover have "list_ex (check_node (dl_selections d)) (buildFileTree (tcn_files c))"
    using known listed(1) by (auto simp: check_forest)
  ultimately have "dl_selections (snd (snd (load_settle (Inr c) rc reopened))) =
      addNewFiles (buildFileTree (tcn_files c)) (dl_selections d)"
    using listed(2) by (simp add: load_settle_def Let_def load_selections_def setFiles_def)
  then show ?thesis using add_keeps [OF known] by simp
qed

lemma sample_path: "''Album/b.flac'' \<in> n_path ` set (all_nodes (buildFileTree sample_entries))"
proof -
  have "entry_path ` set (sized sample_entries) =
      n_path ` set (tree_files (buildFileTree sample_entries))"
    using path_set [of sample_entries sample_dialog]
    by (simp add: shows_entries_def sample_dialog_def)
  moreover have "''Album/b.flac'' \<in> entry_path ` set (sized sample_entries)"
    by (simp add: sized_def sample_entries_def entry_path_def full_path_def str_or_def)
  ultimately show ?thesis by (auto simp: tree_files_def)
qed

definition open_dialog :: dialog where
  "open_dialog = sample_dialog\<lparr> dl_prevId := Some ''7'' \<rparr>"

theorem choices_survive_reopening_witness:
  "jm_get (dl_selections (snd (snd (load_settle (Inr \<lparr> tcn_files = sample_entries \<rparr>) 0
     (snd (load_effect True (Some ''7'') (snd (load_effect False None open_dialog)))))))) ''Album/b.flac''
   = Some False"
  using choices_survive_reopening [of open_dialog "''7''" "''Album/b.flac''" False
      "\<lparr> tcn_files = sample_entries \<rparr>" 0] sample_path
  by (simp add: open_dialog_def sample_dialog_def jm_get_def) (simp add: sample_entries_def)

text \<open>
  Further fact: a second torrent opened while the dialog is still open inherits the first one's
  state. The list and the selection of the first torrent stay until a list of the second
  arrives; if that load fails the dialog still holds the first torrent's files, and confirming
  sends their paths to the second torrent. If it succeeds, a path both torrents have keeps
  the first torrent's choice, whatever the daemon reports for the second.
\<close>

theorem next_torrent_inherits_choices:
  assumes "tid \<noteq> []" "jm_get (dl_saved d) tid = None"
  shows "let d1 = snd (load_effect True (Some tid) d) in
     dl_files d1 = dl_files d \<and> dl_selections d1 = dl_selections d \<and>
     (\<forall>e rc d2 msg. load_settle (Inl e) rc d1 = (LoadFailed msg, rc, d2) \<longrightarrow>
        collectAll d2 = collectAll d \<and> collectSelected d2 = collectSelected d \<and> \<not> dl_loading d2) \<and>
     (\<forall>c rc k v. jm_get (dl_selections d) k = Some v \<longrightarrow> tcn_files c \<noteq> [] \<longrightarrow>
        k \<in> n_path ` set (all_nodes (buildFileTree (tcn_files c))) \<longrightarrow>
        jm_get (dl_selections (snd (snd (load_settle (Inr c) rc d1)))) k = Some v)"
proof -
  define d1 where "d1 = snd (load_effect True (Some tid) d)"
  have s: "dl_files d1 = dl_files d" "dl_selections d1 = dl_selections d"
    using assms by (simp_all add: d1_def load_effect_def Let_def)
  have "collectAll d2 = collectAll d \<and> collectSelected d2 = collectSelected d \<and> \<not> dl_loading d2"
    if "load_settle (Inl e) rc d1 = (LoadFailed msg, rc, d2)" for e rc d2 msg
    using that s by (auto simp: load_settle_def Let_def collectAll_def collectSelected_def split: if_splits)
  moreover have "jm_get (dl_selections (snd (snd (load_settle (Inr c) rc d1)))) k = Some v"
    if k: "jm_get (dl_selections d) k = Some v" "tcn_files c \<noteq> []"
      "k \<in> n_path ` set (all_nodes (buildFileTree (tcn_files c)))" for c rc k v
  proof -
    have "list_ex (check_node (dl_selections d)) (buildFileTree (tcn_files c))"
      using k by (auto simp: check_forest)
    then have "dl_selections (snd (snd (load_settle (Inr c) rc d1))) =
        addNewFiles (buildFileTree (tcn_files c)) (dl_selections d)"
      using k(2) s by (simp add: load_settle_def Let_def load_selections_def setFiles_def)
    then show ?thesis using add_keeps [OF k(1)] by simp
  qed
  ultimately show ?thesis using s unfolding Let_def d1_def by blast
qed

theorem next_torrent_inherits_choices_witness:
  "jm_get (dl_selections (snd (snd (load_settle (Inr \<lparr> tcn_files = sample_entries \<rparr>) 0
     (snd (load_effect True (Some ''8'') open_dialog)))))) ''Album/b.flac'' = Some False"
proof -
  have a: "''8'' \<noteq> []" "jm_get (dl_saved open_dialog) ''8'' = None"
    "jm_get (dl_selections open_dialog) ''Album/b.flac'' = Some False"
    "tcn_files \<lparr> tcn_files = sample_entries \<rparr> \<noteq> []"
    by (simp_all add: open_dialog_def sample_dialog_def dialog_init_def jm_get_def)
      (simp add: sample_entries_def)
  from next_torrent_inherits_choices [OF a(1,2)] a(3,4) sample_path show ?thesis
    by (simp add: Let_def)
qed

text \<open>
  Further fact: \<open>SELECT ALL\<close> and \<open>SELECT NONE\<close>. Afterwards the button shows the opposite label
  (for a tree with a file), the selected size is everything or nothing, and the torrent's saved
  choices are the ones shown.
\<close>

theorem toggle_all_selects:
  assumes "tid \<noteq> []"
  defines "whole \<equiv> \<lambda>d. \<Sum>n \<leftarrow> tree_files (dl_files d). n_size n"
  shows "(allSelected (toggleAll (Some tid) b d) \<longleftrightarrow> b \<and> tree_files (dl_files d) \<noteq> []) \<and>
    selectedSize (toggleAll (Some tid) b d) = (if b then whole d else 0) \<and>
    jm_get (dl_saved (toggleAll (Some tid) b d)) tid = Some (dl_selections (toggleAll (Some tid) b d))"
proof -
  let ?d = "toggleAll (Some tid) b d" and ?F = "tree_files (dl_files d)"
  have f: "dl_files ?d = dl_files d" by (simp add: toggleAll_def Let_def)
  have c: "chosen (dl_selections ?d) (n_path n) = b" if "n \<in> set ?F" for n
    using that by (simp add: chosen_def toggleAll_get)
  have "filter (is_chosen ?d) (map file_view ?F) = (if b then map file_view ?F else [])"
    using c by (auto simp: is_chosen_def file_view_def filter_id_conv filter_empty_conv)
  then have "selectedSize ?d = (if b then whole d else 0)"
    unfolding selectedSize_files f whole_def by (simp add: comp_def file_view_def)
  moreover have "allSelected ?d \<longleftrightarrow> b \<and> ?F \<noteq> []"
    unfolding allSelected_files f using c by (auto simp: neq_Nil_conv)
  moreover have "jm_get (dl_saved ?d) tid = Some (dl_selections ?d)"
    using assms(1) by (simp add: toggleAll_def Let_def save_for_def jm_simps)
  ultimately show ?thesis by blast
qed

theorem toggle_all_selects_witness:
  "allSelected (toggleAll (Some ''7'') True sample_dialog) \<longleftrightarrow>
     tree_files (dl_files sample_dialog) \<noteq> []"
  using toggle_all_selects [of "''7''" True sample_dialog] by simp

end
