(* ===== verification/Base64.thy ===== *)
theory Base64
  imports InfoHash
begin

text \<open>
  Base64 as the page uses it to move torrent files: \<open>btoa\<close> and \<open>atob\<close> of the platform, and
  the loop of \<open>renderer/utils/format.ts\<close>, \<open>components/AddTorrent.tsx\<close> and \<open>ui/App.tsx\<close> that
  turns bytes into the binary string \<open>btoa\<close> reads, 32768 bytes at a time.
\<close>

subsection \<open>The code of a group\<close>

definition b64_char :: "nat \<Rightarrow> char" where
  "b64_char n = (if n < 26 then char_of (65 + n) else if n < 52 then char_of (97 + (n - 26))
     else if n < 62 then char_of (48 + (n - 52)) else if n = 62 then CHR ''+'' else CHR ''/'')"

definition b64_val :: "char \<Rightarrow> nat option" where
  "b64_val c = (let n = of_char c :: nat in
     if 65 \<le> n \<and> n \<le> 90 then Some (n - 65)
     else if 97 \<le> n \<and> n \<le> 122 then Some (n - 97 + 26)
     else if 48 \<le> n \<and> n \<le> 57 then Some (n - 48 + 52)
     else if c = CHR ''+'' then Some 62
     else if c = CHR ''/'' then Some 63
     else None)"

lemma b64_val_char [simp]: "n < 64 \<Longrightarrow> b64_val (b64_char n) = Some n"
  by (auto simp: b64_val_def b64_char_def Let_def)

text \<open>Groups of three bytes as four digits, big end first.\<close>

definition group3 :: "nat \<Rightarrow> nat \<Rightarrow> nat \<Rightarrow> nat list" where
  "group3 a b c =
     [a div 4, (a mod 4) * 16 + b div 16, (b mod 16) * 4 + c div 64, c mod 64]"

fun b64_digits :: "nat list \<Rightarrow> nat list" where
  "b64_digits [] = []"
| "b64_digits [a] = [a div 4, (a mod 4) * 16]"
| "b64_digits [a, b] = [a div 4, (a mod 4) * 16 + b div 16, (b mod 16) * 4]"
| "b64_digits (a # b # c # rest) = group3 a b c @ b64_digits rest"

definition padding :: "nat \<Rightarrow> string" where
  "padding n = (if n mod 3 = 1 then ''=='' else if n mod 3 = 2 then ''='' else [])"

definition btoa :: "byte list \<Rightarrow> string" where
  "btoa bytes = map b64_char (b64_digits (map unat bytes)) @ padding (length bytes)"

fun b64_bytes :: "nat list \<Rightarrow> nat list" where
  "b64_bytes [x, y] = [x * 4 + y div 16]"
| "b64_bytes [x, y, z] = [x * 4 + y div 16, (y mod 16) * 16 + z div 4]"
| "b64_bytes (x # y # z # w # rest) =
     [x * 4 + y div 16, (y mod 16) * 16 + z div 4, (z mod 4) * 64 + w] @ b64_bytes rest"
| "b64_bytes _ = []"

text \<open>
  The platform's forgiving decoder: white space is dropped, one or two closing \<open>=\<close> when the
  length is a multiple of four; \<open>None\<close> where it throws.
\<close>

definition strip_padding :: "string \<Rightarrow> string" where
  "strip_padding s =
     (if length s mod 4 \<noteq> 0 then s
      else if ends_with s ''=='' then take (length s - 2) s
      else if ends_with s ''='' then take (length s - 1) s
      else s)"

definition atob :: "string \<Rightarrow> byte list option" where
  "atob s =
     (let t = strip_padding (filter (\<lambda>c. \<not> is_ws c) s) in
      if length t mod 4 = 1 then None
      else if list_all (\<lambda>c. b64_val c \<noteq> None) t
        then Some (map word_of_nat (b64_bytes (map (\<lambda>c. the (b64_val c)) t)))
      else None)"

text \<open>\<open>for (i = 0; i < bytes.length; i += chunk) binary += String.fromCharCode(...bytes.slice(i, i + chunk))\<close>.\<close>

definition CHUNK :: nat where "CHUNK = 0x8000"

function to_binary :: "nat \<Rightarrow> byte list \<Rightarrow> byte list \<Rightarrow> byte list" where
  "to_binary i bytes binary =
     (if i < length bytes then to_binary (i + CHUNK) bytes (binary @ take CHUNK (drop i bytes)) else binary)"
  by pat_completeness auto
termination
  by (relation "measure (\<lambda>(i, bytes, binary). length bytes - i)") (auto simp: CHUNK_def)

declare to_binary.simps [simp del]

definition encode_file :: "byte list \<Rightarrow> string" where
  "encode_file bytes = btoa (to_binary 0 bytes [])"

subsection \<open>Round trip\<close>

lemma to_binary_eq: "to_binary i bytes binary = binary @ drop i bytes"
proof (induction i bytes binary rule: to_binary.induct)
  case (1 i bytes binary)
  show ?case
  proof (cases "i < length bytes")
    case True
    have "take CHUNK (drop i bytes) @ drop (i + CHUNK) bytes = drop i bytes"
      by (metis add.commute append_take_drop_id drop_drop)
    with 1 True show ?thesis by (subst to_binary.simps) simp
  qed (subst to_binary.simps, simp)
qed

lemma b64_digits_small: "\<forall>n \<in> set ns. n < 256 \<Longrightarrow> \<forall>d \<in> set (b64_digits ns). d < 64"
  by (induction ns rule: b64_digits.induct) (auto simp: group3_def)

lemma length_b64_digits: "length (b64_digits ns) =
    4 * (length ns div 3) + (if length ns mod 3 = 0 then 0 else length ns mod 3 + 1)"
proof (induction ns rule: b64_digits.induct)
  case (4 a b c rest)
  have "length (a # b # c # rest) = length rest + 3" by simp
  then have "length (a # b # c # rest) div 3 = length rest div 3 + 1"
      "length (a # b # c # rest) mod 3 = length rest mod 3"
    by simp_all
  with 4 show ?case by (simp only: b64_digits.simps length_append) (simp add: group3_def)
qed simp_all

lemma pack16: "b < 256 \<Longrightarrow> (q * 16 + b div 16) div 16 = q \<and> (q * 16 + b div 16) mod 16 = b div 16" for q b :: nat
proof -
  assume "b < 256"
  then have "b div 16 < 16" by (simp add: less_mult_imp_div_less)
  then show ?thesis by simp
qed

lemma pack4: "c < 256 \<Longrightarrow> (q * 4 + c div 64) div 4 = q \<and> (q * 4 + c div 64) mod 4 = c div 64" for q c :: nat
proof -
  assume "c < 256"
  then have "c div 64 < 4" by (simp add: less_mult_imp_div_less)
  then show ?thesis by simp
qed

lemma b64_bytes_group:
  assumes "a < 256" "b < 256" "c < 256"
  shows "b64_bytes (group3 a b c @ ds) = [a, b, c] @ b64_bytes ds"
  using pack16 [of b "a mod 4"] pack4 [of c "b mod 16"] assms by (simp add: group3_def)

lemma b64_bytes_digits: "\<forall>n \<in> set ns. n < 256 \<Longrightarrow> b64_bytes (b64_digits ns) = ns"
proof (induction ns rule: b64_digits.induct)
  case (2 a)
  then show ?case by simp
next
  case (3 a b)
  then show ?case using pack16 [of b "a mod 4"] by simp
next
  case (4 a b c rest)
  then show ?case by (simp only: b64_digits.simps) (simp add: b64_bytes_group)
qed simp

lemma b64_not_special: "d < 64 \<Longrightarrow> \<not> is_ws (b64_char d) \<and> b64_char d \<noteq> CHR ''=''"
proof -
  assume d: "d < 64"
  have "b64_val CHR ''='' = None" "\<forall>c. is_ws c \<longrightarrow> b64_val c = None"
    by (auto simp: b64_val_def is_ws_def)
  with b64_val_char [OF d] show ?thesis by (metis option.distinct(1))
qed

lemma strip_padding_btoa:
  assumes "\<forall>c \<in> set t. c \<noteq> CHR ''=''"
    "length t mod 4 = (if n mod 3 = 0 then 0 else n mod 3 + 1)"
  shows "strip_padding (t @ padding n) = t"
proof -
  have e: "\<not> ends_with t ''=''" "\<not> ends_with t ''==''"
    using assms(1) set_mono_suffix [of "''=''" t] set_mono_suffix [of "''==''" t] by auto
  have "n mod 3 = 0 \<or> n mod 3 = 1 \<or> n mod 3 = 2" by presburger
  then show ?thesis
  proof (elim disjE)
    assume "n mod 3 = 0"
    with e show ?thesis by (simp add: padding_def strip_padding_def)
  next
    assume n: "n mod 3 = 1"
    with assms(2) have "length t mod 4 = 2" by simp
    then have "(length t + 2) mod 4 = 0" by presburger
    moreover have "ends_with (t @ ''=='') ''==''" by (rule suffixI [OF refl])
    ultimately show ?thesis using n by (simp add: padding_def strip_padding_def)
  next
    assume n: "n mod 3 = 2"
    with assms(2) have "length t mod 4 = 3" by simp
    then have "(length t + 1) mod 4 = 0" by presburger
    moreover have "ends_with (t @ ''='') ''=''" by (rule suffixI [OF refl])
    moreover have "\<not> ends_with (t @ ''='') ''==''"
    proof
      assume "ends_with (t @ ''='') ''==''"
      then have "ends_with (t @ ''='') (''='' @ ''='')" by simp
      with e(1) show False by (simp only: same_suffix_suffix)
    qed
    ultimately show ?thesis using n by (simp add: padding_def strip_padding_def)
  qed
qed

lemma mod_digits: "(4 * q + (if r = 0 then 0 else r + 1)) mod 4 = (if r = 0 then 0 else r + 1)"
  if "r < 3" for q r :: nat
  using that by auto

lemma base64_both:
  "atob (encode_file bytes) = Some bytes \<and> length (encode_file bytes) = 4 * ((length bytes + 2) div 3)"
proof -
  let ?ns = "map unat bytes" and ?n = "length bytes"
  let ?t = "map b64_char (b64_digits ?ns)"
  have small: "\<forall>n \<in> set ?ns. n < 256"
  proof -
    have "unat b < 2 ^ LENGTH(8)" for b :: byte by (rule unsigned_less)
    then show ?thesis by simp
  qed
  note d = b64_digits_small [OF small]
  have enc: "encode_file bytes = ?t @ padding ?n"
    by (simp add: encode_file_def to_binary_eq btoa_def)
  have "\<forall>c \<in> set ?t. \<not> is_ws c" using d b64_not_special by auto
  moreover have "\<forall>c \<in> set (padding ?n). \<not> is_ws c" by (simp add: padding_def is_ws_def)
  ultimately have nows: "filter (\<lambda>c. \<not> is_ws c) (encode_file bytes) = encode_file bytes"
    unfolding enc filter_append by (metis filter_True)
  have len: "length ?t = 4 * (?n div 3) + (if ?n mod 3 = 0 then 0 else ?n mod 3 + 1)"
    by (simp add: length_b64_digits)
  have lm: "length ?t mod 4 = (if ?n mod 3 = 0 then 0 else ?n mod 3 + 1)"
    unfolding len by (rule mod_digits) simp
  have strip: "strip_padding (encode_file bytes) = ?t"
    unfolding enc using d b64_not_special lm by (intro strip_padding_btoa) auto
  have vals: "map (\<lambda>c. the (b64_val c)) ?t = b64_digits ?ns"
    using d by (simp add: map_idI)
  have ok: "list_all (\<lambda>c. b64_val c \<noteq> None) ?t"
    using d by (auto simp: list_all_iff)
  have "length ?t mod 4 \<noteq> 1" unfolding lm by simp
  then have "atob (encode_file bytes) = Some (map word_of_nat ?ns)"
    using ok vals b64_bytes_digits [OF small] by (simp add: atob_def nows strip Let_def)
  moreover have "length (encode_file bytes) = 4 * ((?n + 2) div 3)"
  proof -
    have "length (padding ?n) = (if ?n mod 3 = 0 then 0 else 3 - ?n mod 3)"
      by (auto simp: padding_def)
    then have "length (encode_file bytes) = 4 * (?n div 3) + (if ?n mod 3 = 0 then 0 else 4)"
      unfolding enc length_append len by auto
    moreover have "(?n + 2) div 3 = ?n div 3 + (if ?n mod 3 = 0 then 0 else 1)" by presburger
    ultimately show ?thesis by simp
  qed
  ultimately show ?thesis by (simp add: comp_def)
qed

lemma atob_encode: "atob (encode_file bytes) = Some bytes"
  using base64_both by blast

lemma length_encode: "length (encode_file bytes) = 4 * ((length bytes + 2) div 3)"
  using base64_both by blast

text \<open>
  Property C19: base64 round trip. Decoding what the page sends for a file gives back exactly
  its bytes, through the loop in chunks, for any length; the text has four characters per
  started group of three bytes, so that the encoding of the largest accepted file (7 MB)
  stays below the limit of 10 MB the page checks afterwards.
\<close>

theorem base64_roundtrip:
  "atob (encode_file bytes) = Some bytes \<and> length (encode_file bytes) = 4 * ((length bytes + 2) div 3) \<and>
   (length bytes \<le> 7 * 1024 * 1024 \<longrightarrow> length (encode_file bytes) < 10 * 1024 * 1024)"
proof -
  have "4 * ((n + 2) div 3) < 10 * 1024 * 1024" if "n \<le> 7 * 1024 * 1024" for n :: nat
  proof -
    have "(n + 2) div 3 \<le> (7 * 1024 * 1024 + 2) div 3" using that by (intro div_le_mono) simp
    then show ?thesis by simp
  qed
  then show ?thesis by (simp add: atob_encode length_encode)
qed

theorem base64_roundtrip_witness:
  "length (encode_file (replicate 1000 0)) < 10 * 1024 * 1024"
  using base64_roundtrip [of "replicate 1000 0"] by simp

end
