(* ===== verification/AddTorrents.thy ===== *)
theory AddTorrents
  imports Errors Types Base64 OpenFiles
begin

text \<open>
  The five ways a torrent is added: the panel \<open>components/AddTorrent.tsx\<close> (magnet link or URL,
  file) and \<open>ui/App.tsx\<close> (magnet link from the system, dropped file, file from the system),
  and the state machine in \<open>ui/App.tsx\<close> that opens the file dialog for an added torrent.

  A handler is a function from what it awaits to the list of what it does, in order: messages,
  the request, and the callbacks of the page. \<open>ar_list k\<close> is the reply to the \<open>k\<close>-th
  request for the list of torrents, \<open>ar_post\<close> the id in the reply to the add request.
  \<open>sha1\<close> and \<open>url_ok\<close> are the parameters of the info hash theory.
\<close>

subsection \<open>Replies, requests and effects\<close>

record add_replies =
  ar_list :: "nat \<Rightarrow> thrown + torrent list"
  ar_post :: "thrown + string option"

record add_body =
  ab_torrent_b64 :: "string option"
  ab_magnet :: "string option"
  ab_name_hint :: string
  ab_save_path :: "string option"

datatype add_out =
    AddError string
  | AddSuccess string
  | SelectTorrent string
  | ShowExisting string
  | PostTorrents add_body time
  | TorrentAdded string bool
  | ClearInput

definition ALREADY :: string where
  "ALREADY = ''Already added '' @ utf8 [226, 128, 148] @ '' showing existing torrent''"

definition REJECTED :: string where
  "REJECTED = ''Daemon rejected torrent add request''"

text \<open>\<open>items.find(t => t.info_hash_hex?.toLowerCase() === hash.toLowerCase())\<close>.\<close>

definition same_hash :: "string \<Rightarrow> torrent \<Rightarrow> bool" where
  "same_hash hash t \<longleftrightarrow> (case t_info_hash_hex t of Some h \<Rightarrow> js_lower h = js_lower hash | None \<Rightarrow> False)"

definition find_existing :: "string \<Rightarrow> torrent list \<Rightarrow> torrent option" where
  "find_existing hash items = List.find (same_hash hash) items"

definition show_existing :: "torrent \<Rightarrow> add_out list" where
  "show_existing t = [SelectTorrent (t_id t), ShowExisting (t_id t), AddSuccess ALREADY]"

text \<open>The test for duplicates before a request: a failing list request throws.\<close>

definition check_existing :: "string option \<Rightarrow> thrown + torrent list \<Rightarrow> thrown + torrent option" where
  "check_existing hash reply = (case hash of
     None \<Rightarrow> Inr None
   | Some h \<Rightarrow> if h = [] then Inr None
       else (case reply of Inl e \<Rightarrow> Inl e | Inr items \<Rightarrow> Inr (find_existing h items)))"

definition duplicate_message :: "string \<Rightarrow> bool" where
  "duplicate_message msg \<longleftrightarrow> (let m = js_lower msg in
     js_includes m ''already exists'' \<or> js_includes m ''file exists'' \<or> js_includes m ''duplicate'')"

text \<open>After an error: the existing torrent when the message says so and it can be found.\<close>

definition existing_after_error :: "string \<Rightarrow> string option \<Rightarrow> thrown + torrent list \<Rightarrow> torrent option" where
  "existing_after_error msg hash reply =
     (if duplicate_message msg then
        (case check_existing hash reply of Inr (Some t) \<Rightarrow> Some t | _ \<Rightarrow> None)
      else None)"

definition recover :: "(string \<Rightarrow> string) \<Rightarrow> string \<Rightarrow> thrown \<Rightarrow> string option \<Rightarrow> thrown + torrent list \<Rightarrow>
    add_out list \<Rightarrow> add_out list" where
  "recover wording fallback e hash reply after_show =
     (let msg = getErrorMessage e fallback in
      case existing_after_error msg hash reply of
        Some t \<Rightarrow> show_existing t @ after_show
      | None \<Rightarrow> [AddError (wording msg)])"

text \<open>The id in the reply, when there is one: \<open>res?.id\<close>.\<close>

definition reply_id :: "string option \<Rightarrow> string option" where
  "reply_id r = (case r of Some i \<Rightarrow> if i = [] then None else Some i | None \<Rightarrow> None)"

definition save_part :: "string option \<Rightarrow> string option" where
  "save_part savePath = (case savePath of Some p \<Rightarrow> if p = [] then None else Some p | None \<Rightarrow> None)"

definition MAX_TORRENT_BYTES :: nat where "MAX_TORRENT_BYTES = 7 * 1024 * 1024"
definition MAX_BASE64_SIZE :: nat where "MAX_BASE64_SIZE = 10 * 1024 * 1024"

definition mk_error :: "string \<Rightarrow> thrown" where
  "mk_error msg = ThrownError \<lparr> e_class = PlainErrorClass, e_name = ''Error'', e_message = msg, e_api = None \<rparr>"

text \<open>
  The callback \<open>onTorrentAdded\<close> that \<open>App\<close> passes to the panel: without a file dialog it pushes a toast
  of its own, before the one of the panel.
\<close>

definition panel_added :: "string \<Rightarrow> bool \<Rightarrow> add_out list" where
  "panel_added i showFileDialog =
     TorrentAdded i showFileDialog #
     (if showFileDialog then [] else [AddSuccess ''Torrent added and starting automatically...''])"

subsection \<open>The panel: magnet links and URLs\<close>

record http_file =
  hf_ok :: bool
  hf_statusText :: string
  hf_contentLength :: "int option"
  hf_body :: "byte list"

definition is_url :: "string \<Rightarrow> bool" where
  "is_url m \<longleftrightarrow> starts_with m ''http://'' \<or> starts_with m ''https://''"

text \<open>\<open>size_text\<close> prints the length of the text in MB.\<close>

definition url_bytes :: "(nat \<Rightarrow> string) \<Rightarrow> thrown + http_file \<Rightarrow> thrown + byte list \<times> string" where
  "url_bytes size_text response = (case response of
     Inl e \<Rightarrow> Inl e
   | Inr r \<Rightarrow>
       if \<not> hf_ok r then Inl (mk_error (''Failed to download torrent: '' @ hf_statusText r))
       else if (case hf_contentLength r of Some n \<Rightarrow> n > int MAX_TORRENT_BYTES | None \<Rightarrow> False)
         then Inl (mk_error ''Torrent file too large (max ~7MB)'')
       else if length (hf_body r) > MAX_TORRENT_BYTES then Inl (mk_error ''Torrent file too large (max ~7MB)'')
       else
         (let b64 = encode_file (hf_body r) in
          if length b64 > MAX_BASE64_SIZE
          then Inl (mk_error (''Encoded torrent file too large ('' @ size_text (length b64) @ ''MB). Maximum is 10MB.''))
          else Inr (hf_body r, b64)))"

definition is_abort :: "thrown \<Rightarrow> bool" where
  "is_abort t = (case t of ThrownError e \<Rightarrow> e_name e = ''AbortError'' | _ \<Rightarrow> False)"

definition url_failure :: "thrown \<Rightarrow> string option \<Rightarrow> thrown + torrent list \<Rightarrow> add_out list" where
  "url_failure e urlHash reply =
     (if is_abort e then [AddError ''Request timed out after 30 seconds'']
      else recover id ''Failed to download torrent from URL'' e urlHash reply [ClearInput])"

definition add_url ::
    "(byte list \<Rightarrow> byte list) \<Rightarrow> (nat \<Rightarrow> string) \<Rightarrow> thrown + http_file \<Rightarrow> add_replies \<Rightarrow> string option \<Rightarrow> nat \<Rightarrow>
      add_out list" where
  "add_url sha1 size_text response rs savePath k = (case url_bytes size_text response of
     Inl e \<Rightarrow> url_failure e None (ar_list rs k)
   | Inr (bytes, b64) \<Rightarrow>
       (let urlHash = infoHashFromTorrentBytes sha1 bytes in
        case check_existing urlHash (ar_list rs k) of
          Inl e \<Rightarrow> url_failure e urlHash (ar_list rs (Suc k))
        | Inr (Some t) \<Rightarrow> show_existing t @ [ClearInput]
        | Inr None \<Rightarrow>
            (let post = PostTorrents \<lparr> ab_torrent_b64 = Some b64, ab_magnet = None, ab_name_hint = ''torrent'',
                   ab_save_path = save_part savePath \<rparr> 60000 in
             post # (case ar_post rs of
                Inl e \<Rightarrow> url_failure e urlHash (ar_list rs (Suc k))
              | Inr r \<Rightarrow> (case reply_id r of
                    None \<Rightarrow> [AddError REJECTED]
                  | Some i \<Rightarrow> [ClearInput] @ panel_added i False @ [AddSuccess ''Torrent added from URL''])))))"

definition add_magnet ::
    "(string \<Rightarrow> bool) \<Rightarrow> (byte list \<Rightarrow> byte list) \<Rightarrow> (nat \<Rightarrow> string) \<Rightarrow> thrown + http_file \<Rightarrow> add_replies \<Rightarrow>
      string option \<Rightarrow> bool \<Rightarrow> string \<Rightarrow> add_out list" where
  "add_magnet url_ok sha1 size_text response rs savePath busy magnet =
     (if busy then []
      else if js_trim magnet = [] then [AddError ''Please enter a magnet link or torrent URL'']
      else
        (let m = js_trim magnet; hash = infoHashFromMagnet url_ok m;
             k = (if hash = None then 0 else 1);
             failed = (\<lambda>e. recover id ''Failed to add torrent'' e (infoHashFromMagnet url_ok magnet)
                        (ar_list rs k) [ClearInput]) in
         case check_existing hash (ar_list rs 0) of
           Inl e \<Rightarrow> failed e
         | Inr (Some t) \<Rightarrow> show_existing t @ [ClearInput]
         | Inr None \<Rightarrow>
             if is_url m then add_url sha1 size_text response rs savePath k
             else if \<not> starts_with m ''magnet:?'' then
               [AddError ''Invalid input: must be a magnet link (magnet:?...) or torrent URL (http:// or https://)'']
             else
               PostTorrents \<lparr> ab_torrent_b64 = None, ab_magnet = Some m, ab_name_hint = ''magnet'',
                 ab_save_path = save_part savePath \<rparr> 30000
               # (case ar_post rs of
                    Inl e \<Rightarrow> failed e
                  | Inr r \<Rightarrow> (case reply_id r of
                        None \<Rightarrow> [AddError REJECTED]
                      | Some i \<Rightarrow> [ClearInput] @ panel_added i False @
                          [AddSuccess ''Torrent added from magnet link. Metadata will be fetched automatically.'']))))"

subsection \<open>The panel: files\<close>

record picked_file =
  pf_name :: string
  pf_size :: nat
  pf_bytes :: "thrown + byte list"
  pf_encoded :: "thrown + string"

definition upload_wording :: "string \<Rightarrow> string" where
  "upload_wording msg =
     (if js_includes msg ''timed out'' \<or> js_includes msg ''timeout''
      then ''Upload timed out. The torrent file may be too large or the daemon is slow to respond. Try a smaller file or check daemon logs.''
      else msg)"

text \<open>\<open>pf_encoded\<close> is what \<open>fileToBase64\<close> settles to, a race of the encoding against a timer.\<close>

definition handleFileChange ::
    "(byte list \<Rightarrow> byte list) \<Rightarrow> add_replies \<Rightarrow> string option \<Rightarrow> bool \<Rightarrow> picked_file option \<Rightarrow> add_out list" where
  "handleFileChange sha1 rs savePath busy picked = (case picked of
     None \<Rightarrow> []
   | Some f \<Rightarrow>
       if busy then []
       else if \<not> ends_with (pf_name f) ''.torrent'' then [AddError ''Select a .torrent file'', ClearInput]
       else if pf_size f > MAX_TORRENT_BYTES then [AddError ''Torrent file too large (max 7MB)'', ClearInput]
       else
         (let failed = (\<lambda>e hash k. recover upload_wording ''Failed to import .torrent'' e hash (ar_list rs k) []) in
          case pf_bytes f of
            Inl e \<Rightarrow> failed e None 0
          | Inr bytes \<Rightarrow>
              (let hash = infoHashFromTorrentBytes sha1 bytes in
               case check_existing hash (ar_list rs 0) of
                 Inl e \<Rightarrow> failed e hash 1
               | Inr (Some t) \<Rightarrow> show_existing t
               | Inr None \<Rightarrow>
                   (case pf_encoded f of
                      Inl e \<Rightarrow> failed e hash 1
                    | Inr b64 \<Rightarrow>
                        PostTorrents \<lparr> ab_torrent_b64 = Some b64, ab_magnet = None, ab_name_hint = pf_name f,
                          ab_save_path = save_part savePath \<rparr> 60000
                        # (case ar_post rs of
                             Inl e \<Rightarrow> failed e hash 1
                           | Inr r \<Rightarrow> (case reply_id r of
                                 None \<Rightarrow> [AddError REJECTED]
                               | Some i \<Rightarrow> panel_added i True @ [AddSuccess ''Torrent file imported'']))))) @ [ClearInput])"

subsection \<open>The page: links and files from outside\<close>

definition NOT_CONNECTED :: string where
  "NOT_CONNECTED = ''Cannot add torrent: daemon not connected''"

definition addMagnetLink :: "bool \<Rightarrow> add_replies \<Rightarrow> string \<Rightarrow> add_out list" where
  "addMagnetLink online rs magnetUrl =
     (if \<not> online then [AddError NOT_CONNECTED]
      else
        PostTorrents \<lparr> ab_torrent_b64 = None, ab_magnet = Some magnetUrl, ab_name_hint = ''magnet'',
          ab_save_path = None \<rparr> 30000
        # (case ar_post rs of
             Inl e \<Rightarrow> [AddError (getErrorMessage e ''Failed to add torrent from magnet link'')]
           | Inr r \<Rightarrow> (case reply_id r of
                 None \<Rightarrow> [AddError REJECTED]
               | Some i \<Rightarrow> [TorrentAdded i False,
                   AddSuccess ''Torrent added from magnet link. File selection will be available after metadata is fetched.''])))"

definition handleDroppedFile ::
    "(byte list \<Rightarrow> byte list) \<Rightarrow> bool \<Rightarrow> add_replies \<Rightarrow> string \<Rightarrow> thrown + byte list \<Rightarrow> add_out list" where
  "handleDroppedFile sha1 online rs name content =
     (if \<not> online then [AddError NOT_CONNECTED]
      else if \<not> ends_with name ''.torrent'' then [AddError ''Invalid file type. Please drop a .torrent file.'']
      else
        (let failed = (\<lambda>e. [AddError (getErrorMessage e ''Failed to add dropped torrent file'')]) in
         case content of
           Inl e \<Rightarrow> failed e
         | Inr bytes \<Rightarrow>
             (case check_existing (infoHashFromTorrentBytes sha1 bytes) (ar_list rs 0) of
                Inl e \<Rightarrow> failed e
              | Inr (Some t) \<Rightarrow> show_existing t
              | Inr None \<Rightarrow>
                  PostTorrents \<lparr> ab_torrent_b64 = Some (encode_file bytes), ab_magnet = None,
                    ab_name_hint = name, ab_save_path = None \<rparr> 60000
                  # (case ar_post rs of
                       Inl e \<Rightarrow> failed e
                     | Inr r \<Rightarrow> (case reply_id r of
                           None \<Rightarrow> [AddError REJECTED]
                         | Some i \<Rightarrow> [TorrentAdded i True, AddSuccess (''Torrent added: '' @ name)])))))"

text \<open>\<open>atob_error\<close> is what \<open>atob\<close> throws on text it cannot decode.\<close>

definition handleTorrentFile_app ::
    "(byte list \<Rightarrow> byte list) \<Rightarrow> thrown \<Rightarrow> bool \<Rightarrow> add_replies \<Rightarrow> torrent_data \<Rightarrow> add_out list" where
  "handleTorrentFile_app sha1 atob_error online rs data =
     (if \<not> online then
        [AddError (NOT_CONNECTED @ ''. Please wait for the daemon to start and try again.'')]
      else
        (let failed = (\<lambda>e hash k. recover (\<lambda>msg. ''Failed to add torrent: '' @ msg)
               ''Failed to add torrent file'' e hash (ar_list rs k) []) in
         case atob (td_base64 data) of
           None \<Rightarrow> failed atob_error None 0
         | Some bytes \<Rightarrow>
             (let hash = infoHashFromTorrentBytes sha1 bytes in
              case check_existing hash (ar_list rs 0) of
                Inl e \<Rightarrow> failed e hash 1
              | Inr (Some t) \<Rightarrow> show_existing t
              | Inr None \<Rightarrow>
                  PostTorrents \<lparr> ab_torrent_b64 = Some (td_base64 data), ab_magnet = None,
                    ab_name_hint = td_fileName data, ab_save_path = None \<rparr> 60000
                  # (case ar_post rs of
                       Inl e \<Rightarrow> failed e hash 1
                     | Inr r \<Rightarrow> (case reply_id r of
                           None \<Rightarrow> [AddError REJECTED]
                         | Some i \<Rightarrow> [TorrentAdded i False,
                             AddSuccess (''Torrent added: '' @ td_fileName data @ '' - Starting automatically...'')])))))"

subsection \<open>Every attempt is answered\<close>

fun is_message :: "add_out \<Rightarrow> bool" where
  "is_message (AddError m) \<longleftrightarrow> True"
| "is_message (AddSuccess m) \<longleftrightarrow> True"
| "is_message _ \<longleftrightarrow> False"

fun is_post :: "add_out \<Rightarrow> bool" where
  "is_post (PostTorrents b t) \<longleftrightarrow> True"
| "is_post _ \<longleftrightarrow> False"

fun is_found :: "add_out \<Rightarrow> bool" where
  "is_found (TorrentAdded i b) \<longleftrightarrow> True"
| "is_found (ShowExisting i) \<longleftrightarrow> True"
| "is_found _ \<longleftrightarrow> False"

fun starts_alone :: "add_out \<Rightarrow> bool" where
  "starts_alone (TorrentAdded i b) \<longleftrightarrow> \<not> b"
| "starts_alone _ \<longleftrightarrow> False"

definition messages :: "add_out list \<Rightarrow> nat" where
  "messages out = length (filter is_message out)"

definition posts :: "add_out list \<Rightarrow> add_out list" where
  "posts out = filter is_post out"

text \<open>The toast left at the end: each toast replaces the one before.\<close>

definition last_toast :: "add_out list \<Rightarrow> add_out option" where
  "last_toast out = (if filter is_message out = [] then None else Some (last (filter is_message out)))"

text \<open>The last toast is a success exactly when a torrent was added or an existing one shown.\<close>

definition tells_outcome :: "add_out list \<Rightarrow> bool" where
  "tells_outcome out \<longleftrightarrow> (\<exists>m. last_toast out = Some (if list_ex is_found out then AddSuccess m else AddError m))"

lemma messages_simps [simp]:
  "messages [] = 0" "messages (x # xs) = (if is_message x then 1 else 0) + messages xs"
  "messages (xs @ ys) = messages xs + messages ys"
  by (simp_all add: messages_def)

lemma posts_simps [simp]:
  "posts [] = []" "posts (x # xs) = (if is_post x then [x] else []) @ posts xs"
  "posts (xs @ ys) = posts xs @ posts ys"
  by (simp_all add: posts_def)

lemma tells_simps [simp]:
  "tells_outcome [AddError m]" "tells_outcome [AddError m, ClearInput]"
  "tells_outcome (PostTorrents body tmo # out) \<longleftrightarrow> tells_outcome out"
  "tells_outcome (out @ [ClearInput]) \<longleftrightarrow> tells_outcome out"
  "tells_outcome (ClearInput # out) \<longleftrightarrow> tells_outcome out"
  "tells_outcome (show_existing t)" "tells_outcome [TorrentAdded i b, AddSuccess m]"
  by (auto simp: tells_outcome_def last_toast_def show_existing_def)

lemma show_existing_out [simp]: "messages (show_existing t) = 1" "posts (show_existing t) = []"
  "list_ex starts_alone (show_existing t) \<longleftrightarrow> False"
  by (simp_all add: show_existing_def)

lemma recover_out [simp]:
  "messages after = 0 \<Longrightarrow> messages (recover w fb e h r after) = 1"
  "posts after = [] \<Longrightarrow> posts (recover w fb e h r after) = []"
  "tells_outcome (recover w fb e h r [])" "tells_outcome (recover w fb e h r [ClearInput])"
  "\<not> list_ex starts_alone (recover w fb e h r [])" "\<not> list_ex starts_alone (recover w fb e h r [ClearInput])"
  by (simp_all add: recover_def Let_def split: option.splits)

lemma panel_added_out [simp]:
  "messages (panel_added i b) = (if b then 0 else 1)" "posts (panel_added i b) = []"
  "tells_outcome (panel_added i b @ [AddSuccess m])" "list_ex starts_alone (panel_added i b) \<longleftrightarrow> \<not> b"
  by (auto simp: panel_added_def tells_outcome_def last_toast_def)

lemma url_failure_out [simp]: "messages (url_failure e h r) = 1" "posts (url_failure e h r) = []"
  "tells_outcome (url_failure e h r)" "\<not> list_ex starts_alone (url_failure e h r)"
  by (simp_all add: url_failure_def)





subsection \<open>Duplicates and content\<close>

lemma find_existing_some:
  "t \<in> set items \<Longrightarrow> same_hash h t \<Longrightarrow> \<exists>u \<in> set items. same_hash h u \<and> find_existing h items = Some u"
  by (induction items) (auto simp: find_existing_def)

lemma check_existing_some:
  assumes "hash = Some h" "h \<noteq> []" "t \<in> set items" "same_hash h t"
  shows "\<exists>u \<in> set items. same_hash h u \<and> check_existing hash (Inr items) = Inr (Some u)"
  using find_existing_some [OF assms(3,4)] assms(1,2) by (auto simp: check_existing_def)

text \<open>
  Further fact: no second copy. When the list the daemon returns has a torrent with the hash the
  page computes for what is to be added, nothing is sent: a torrent with that hash is selected and
  shown, for a picked, dropped or system-opened file and for a magnet link in the panel. A
  magnet link from the system is not checked: it is always sent.
\<close>

theorem duplicates_are_shown:
  assumes listed: "ar_list rs 0 = Inr items" "t \<in> set items" "same_hash h t" "h \<noteq> []"
    and torrent_file: "infoHashFromTorrentBytes sha1 bytes = Some h" "ends_with name ''.torrent''"
    and magnet: "infoHashFromMagnet url_ok (js_trim link) = Some h" "js_trim link \<noteq> []"
  shows "\<exists>u \<in> set items. same_hash h u \<and>
    handleDroppedFile sha1 True rs name (Inr bytes) = show_existing u \<and>
    (n \<le> MAX_TORRENT_BYTES \<longrightarrow> handleFileChange sha1 rs sp False
       (Some \<lparr> pf_name = name, pf_size = n, pf_bytes = Inr bytes, pf_encoded = enc \<rparr>)
     = show_existing u @ [ClearInput]) \<and>
    handleTorrentFile_app sha1 err True rs \<lparr> td_base64 = encode_file bytes, td_fileName = name \<rparr> = show_existing u \<and>
    add_magnet url_ok sha1 st resp rs sp False link = show_existing u @ [ClearInput] \<and>
    length (posts (addMagnetLink True rs link)) = 1"
proof -
  obtain u where u: "u \<in> set items" "same_hash h u" "check_existing (Some h) (ar_list rs 0) = Inr (Some u)"
    using check_existing_some [OF refl listed(4,2,3)] listed(1) by auto
  have b: "atob (encode_file bytes) = Some bytes" by (rule atob_encode)
  have "handleDroppedFile sha1 True rs name (Inr bytes) = show_existing u"
    using u torrent_file by (simp add: handleDroppedFile_def Let_def)
  moreover have "n \<le> MAX_TORRENT_BYTES \<longrightarrow> handleFileChange sha1 rs sp False
       (Some \<lparr> pf_name = name, pf_size = n, pf_bytes = Inr bytes, pf_encoded = enc \<rparr>)
     = show_existing u @ [ClearInput]"
    using u torrent_file by (simp add: handleFileChange_def Let_def)
  moreover have "handleTorrentFile_app sha1 err True rs \<lparr> td_base64 = encode_file bytes, td_fileName = name \<rparr> = show_existing u"
    using u torrent_file b by (simp add: handleTorrentFile_app_def Let_def)
  moreover have "add_magnet url_ok sha1 st resp rs sp False link = show_existing u @ [ClearInput]"
    using u magnet by (simp add: add_magnet_def Let_def)
  moreover have "length (posts (addMagnetLink True rs link)) = 1"
    by (simp add: addMagnetLink_def split: sum.splits option.splits)
  ultimately show ?thesis using u by blast
qed

definition sample_link :: string where
  "sample_link = ''magnet:?xt=urn:btih:'' @ replicate 40 (CHR ''0'')"

definition sample_bytes :: "byte list" where
  "sample_bytes = infoMarker @ [0x64, 0x65]"

definition zero_sha :: "byte list \<Rightarrow> byte list" where
  "zero_sha x = replicate 20 0"

definition sample_torrent :: torrent where
  "sample_torrent = \<lparr> t_id = ''3'', t_name = ''x'', t_added_at_ms = 0, t_running = False, t_mode = ModeStandard,
     t_hops = 0, t_info_hash_hex = Some (replicate 40 (CHR ''0'')), t_save_path = None \<rparr>"

definition sample_replies :: add_replies where
  "sample_replies = \<lparr> ar_list = (\<lambda>_. Inr [sample_torrent]), ar_post = Inr (Some ''4'') \<rparr>"

theorem duplicates_are_shown_witness:
  "\<exists>u. handleDroppedFile zero_sha True sample_replies ''a.torrent'' (Inr sample_bytes) = show_existing u \<and>
     add_magnet (\<lambda>_. True) zero_sha (\<lambda>_. []) (Inl ThrownOther) sample_replies None False sample_link
       = show_existing u @ [ClearInput]"
proof -
  let ?h = "replicate 40 (CHR ''0'')"
  have a: "ar_list sample_replies 0 = Inr [sample_torrent]" "sample_torrent \<in> set [sample_torrent]"
      "same_hash ?h sample_torrent" "?h \<noteq> []"
    by (simp_all add: sample_replies_def same_hash_def sample_torrent_def)
  have b: "infoHashFromTorrentBytes zero_sha sample_bytes = Some ?h" by code_simp
  have c: "ends_with ''a.torrent'' ''.torrent''" by (simp add: suffix_def)
  have d: "infoHashFromMagnet (\<lambda>_. True) (js_trim sample_link) = Some ?h" by code_simp
  have e: "js_trim sample_link \<noteq> []" by code_simp
  from duplicates_are_shown [OF a b c d e] show ?thesis by blast
qed

text \<open>
  Further fact: the daemon gets the file. Whatever a dropped file or a file behind a URL holds, the
  text in the request decodes to exactly its bytes, a URL's file is at most 7 MB, and a file from
  the system is passed on as it came.
\<close>

theorem posted_content_is_the_file:
  "(PostTorrents b t \<in> set (handleDroppedFile sha1 online rs name (Inr bytes)) \<longrightarrow>
      online \<and> atob (the (ab_torrent_b64 b)) = Some bytes \<and> ab_name_hint b = name) \<and>
   (PostTorrents b t \<in> set (add_url sha1 st (Inr r) rs sp k) \<longrightarrow>
      hf_ok r \<and> atob (the (ab_torrent_b64 b)) = Some (hf_body r) \<and> length (hf_body r) \<le> MAX_TORRENT_BYTES \<and>
      ab_save_path b = save_part sp) \<and>
   (PostTorrents b t \<in> set (handleTorrentFile_app sha1 err online rs data) \<longrightarrow>
      online \<and> ab_torrent_b64 b = Some (td_base64 data) \<and> atob (td_base64 data) \<noteq> None)"
proof -
  have no: "posts out = [] \<Longrightarrow> PostTorrents b t \<notin> set out" for out
    by (auto simp: posts_def filter_empty_conv)
  have rec: "PostTorrents b t \<notin> set (recover w fb e h rep [])" "PostTorrents b t \<notin> set (url_failure e h rep)"
      "PostTorrents b t \<notin> set (show_existing u)" "PostTorrents b t \<notin> set (panel_added i yes)"
      for w fb e h rep u i yes
    by (rule no, simp)+
  have "PostTorrents b t \<in> set (handleDroppedFile sha1 online rs name (Inr bytes)) \<longrightarrow>
      online \<and> atob (the (ab_torrent_b64 b)) = Some bytes \<and> ab_name_hint b = name"
    using rec by (simp add: handleDroppedFile_def Let_def atob_encode split: sum.splits option.splits)
  moreover have "PostTorrents b t \<in> set (add_url sha1 st (Inr r) rs sp k) \<longrightarrow>
      hf_ok r \<and> atob (the (ab_torrent_b64 b)) = Some (hf_body r) \<and> length (hf_body r) \<le> MAX_TORRENT_BYTES \<and>
      ab_save_path b = save_part sp"
    using rec by (simp add: add_url_def url_bytes_def Let_def atob_encode split: sum.splits option.splits)
  moreover have "PostTorrents b t \<in> set (handleTorrentFile_app sha1 err online rs data) \<longrightarrow>
      online \<and> ab_torrent_b64 b = Some (td_base64 data) \<and> atob (td_base64 data) \<noteq> None"
    using rec by (simp add: handleTorrentFile_app_def Let_def split: sum.splits option.splits)
  ultimately show ?thesis by blast
qed

theorem posted_content_is_the_file_witness:
  "atob (the (ab_torrent_b64 \<lparr> ab_torrent_b64 = Some (encode_file [1, 2]), ab_magnet = None,
     ab_name_hint = ''n.torrent'', ab_save_path = None \<rparr>)) = Some [1, 2]"
proof -
  let ?b = "\<lparr> ab_torrent_b64 = Some (encode_file [1, 2]), ab_magnet = None,
     ab_name_hint = ''n.torrent'', ab_save_path = None \<rparr>"
  have "infoHashFromTorrentBytes zero_sha [1, 2] = None" by code_simp
  then have "PostTorrents ?b 60000 \<in> set (handleDroppedFile zero_sha True sample_replies ''n.torrent'' (Inr [1, 2]))"
    by (simp add: handleDroppedFile_def check_existing_def suffix_def Let_def sample_replies_def reply_id_def)
  with posted_content_is_the_file [of ?b 60000 zero_sha True sample_replies "''n.torrent''" "[1, 2]"]
  show ?thesis by blast
qed

subsection \<open>Opening the file dialog\<close>

text \<open>
  \<open>handleTorrentAdded(id, true)\<close> arms a timer of 100 ms; when it fires the torrent and its
  status are requested; when they settle the dialog, or the notice that the files are
  already there, opens. \<open>od_pending\<close> is \<open>pendingDialogOpenRef\<close>, \<open>od_handle\<close>
  \<open>dialogOpenTimeoutRef\<close>, \<open>od_armed\<close> the timers that have not fired, \<open>od_flight\<close> the
  requests under way, \<open>od_id\<close> and \<open>od_open\<close> what the dialog shows.
\<close>

record open_dialog_state =
  od_pending :: "string option"
  od_handle :: "nat option"
  od_armed :: "(nat \<times> string) list"
  od_next :: nat
  od_flight :: "string list"
  od_id :: "string option"
  od_open :: bool
  od_found :: "string option"

definition od_init :: open_dialog_state where
  "od_init = \<lparr> od_pending = None, od_handle = None, od_armed = [], od_next = 0, od_flight = [],
     od_id = None, od_open = False, od_found = None \<rparr>"

definition clear_timer :: "open_dialog_state \<Rightarrow> open_dialog_state" where
  "clear_timer s = (case od_handle s of
     None \<Rightarrow> s
   | Some h \<Rightarrow> s\<lparr> od_armed := filter (\<lambda>t. fst t \<noteq> h) (od_armed s), od_handle := None \<rparr>)"

definition od_added :: "string \<Rightarrow> open_dialog_state \<Rightarrow> open_dialog_state" where
  "od_added i s =
     (if od_pending s = Some i \<or> od_id s = Some i then s
      else
        (let s1 = clear_timer s; h = od_next s1 in
         s1\<lparr> od_pending := Some i, od_armed := od_armed s1 @ [(h, i)], od_handle := Some h,
            od_next := Suc h \<rparr>))"

text \<open>
  The replies: \<open>Inl\<close> when the torrent cannot be read; \<open>Inr None\<close> when only the status
  failed.
\<close>

definition already_present :: "torrent_status option \<Rightarrow> bool" where
  "already_present status = (case status of
     Some s \<Rightarrow> (ts_state s = Downloading \<or> ts_state s = Seeding) \<and> ts_downloaded_bytes s > 0
   | None \<Rightarrow> False)"

definition od_settle :: "string \<Rightarrow> thrown + torrent_status option \<Rightarrow> open_dialog_state \<Rightarrow> open_dialog_state" where
  "od_settle i reply s =
     (let s1 = s\<lparr> od_flight := remove1 i (od_flight s), od_handle := None \<rparr> in
      if od_pending s \<noteq> Some i then s1
      else (case reply of
          Inr status \<Rightarrow>
            if already_present status then s1\<lparr> od_found := Some i, od_pending := None \<rparr>
            else s1\<lparr> od_id := Some i, od_open := True, od_pending := None \<rparr>
        | Inl e \<Rightarrow> s1\<lparr> od_id := Some i, od_open := True, od_pending := None \<rparr>))"

text \<open>Cancel, Escape and the confirmation all reset the same refs.\<close>

definition od_close :: "open_dialog_state \<Rightarrow> open_dialog_state" where
  "od_close s = (clear_timer (s\<lparr> od_open := False, od_pending := None \<rparr>))\<lparr> od_id := None \<rparr>"

datatype od_event = Added string | Fired nat string | Settled string "thrown + torrent_status option" | Closed

inductive od_step :: "open_dialog_state \<Rightarrow> od_event \<Rightarrow> open_dialog_state \<Rightarrow> bool" where
  added: "od_step s (Added i) (od_added i s)"
| fired: "(h, i) \<in> set (od_armed s) \<Longrightarrow>
    od_step s (Fired h i) (s\<lparr> od_armed := remove1 (h, i) (od_armed s), od_flight := i # od_flight s \<rparr>)"
| settled: "i \<in> set (od_flight s) \<Longrightarrow> od_step s (Settled i reply) (od_settle i reply s)"
| closed: "od_open s \<Longrightarrow> od_step s Closed (od_close s)"

inductive_cases od_stepE: "od_step s ev s'"

inductive od_run :: "od_event list \<Rightarrow> open_dialog_state \<Rightarrow> bool" where
  start: "od_run [] od_init"
| step: "od_run evs s \<Longrightarrow> od_step s ev s' \<Longrightarrow> od_run (evs @ [ev]) s'"

text \<open>What the user asked for last, read off the events: the abstract state.\<close>

record asked =
  ask_wanted :: "string option"
  ask_shown :: "string option"

definition ask_event :: "od_event \<Rightarrow> asked \<Rightarrow> asked" where
  "ask_event ev a = (case ev of
     Added i \<Rightarrow> if ask_shown a = Some i then a else a\<lparr> ask_wanted := Some i \<rparr>
   | Fired h i \<Rightarrow> a
   | Settled i reply \<Rightarrow>
       if ask_wanted a \<noteq> Some i then a
       else if (\<exists>st. reply = Inr st \<and> already_present st) then a\<lparr> ask_wanted := None \<rparr>
       else \<lparr> ask_wanted = None, ask_shown = Some i \<rparr>
   | Closed \<Rightarrow> \<lparr> ask_wanted = None, ask_shown = None \<rparr>)"

definition ask_run :: "od_event list \<Rightarrow> asked" where
  "ask_run evs = fold ask_event evs \<lparr> ask_wanted = None, ask_shown = None \<rparr>"

definition od_abs :: "open_dialog_state \<Rightarrow> asked" where
  "od_abs s = \<lparr> ask_wanted = od_pending s, ask_shown = od_id s \<rparr>"

lemma clear_timer_fields [simp]:
  "od_pending (clear_timer s) = od_pending s" "od_id (clear_timer s) = od_id s"
  "od_open (clear_timer s) = od_open s" "od_flight (clear_timer s) = od_flight s"
  by (simp_all add: clear_timer_def split: option.splits)

lemma od_step_simulates: "od_step s ev s' \<Longrightarrow> od_abs s' = ask_event ev (od_abs s)"
  by (erule od_stepE)
    (auto simp: od_abs_def ask_event_def od_added_def od_settle_def od_close_def Let_def split: sum.splits)

lemma od_run_simulates: "od_run evs s \<Longrightarrow> od_abs s = ask_run evs"
  by (induction rule: od_run.induct)
    (auto simp: ask_run_def od_step_simulates, simp add: od_abs_def od_init_def)

lemma od_run_open: "od_run evs s \<Longrightarrow> od_open s \<longleftrightarrow> od_id s \<noteq> None"
proof (induction rule: od_run.induct)
  case (step evs s ev s')
  from step.hyps(2) step.IH show ?case
    by (cases rule: od_step.cases)
      (auto simp: od_added_def od_settle_def od_close_def Let_def split: sum.splits)
qed (simp add: od_init_def)

text \<open>
  Property C10: the dialog follows the last request. In every interleaving of added torrents, timers,
  replies and closings, the machine of refs and timers shows what the events alone determine
  (\<open>ask_run\<close>): the dialog is open exactly for the torrent added last whose replies arrived,
  replies for a torrent that was superseded or whose dialog was closed change nothing, and after
  a closing nothing opens until a torrent is added again.
\<close>

theorem dialog_follows_last_request:
  assumes "od_run evs s"
  shows "od_pending s = ask_wanted (ask_run evs) \<and> od_id s = ask_shown (ask_run evs) \<and>
    (od_open s \<longleftrightarrow> ask_shown (ask_run evs) \<noteq> None) \<and>
    (\<forall>i reply s'. od_pending s \<noteq> Some i \<longrightarrow> od_step s (Settled i reply) s' \<longrightarrow>
       od_id s' = od_id s \<and> od_open s' = od_open s \<and> od_found s' = od_found s)"
proof -
  have "od_abs s = ask_run evs" by (rule od_run_simulates [OF assms])
  then have a: "od_pending s = ask_wanted (ask_run evs)" "od_id s = ask_shown (ask_run evs)"
    by (simp_all add: od_abs_def flip: \<open>od_abs s = ask_run evs\<close>)
  moreover have "od_open s \<longleftrightarrow> ask_shown (ask_run evs) \<noteq> None"
    using od_run_open [OF assms] a by simp
  moreover have "od_id s' = od_id s \<and> od_open s' = od_open s \<and> od_found s' = od_found s"
    if "od_pending s \<noteq> Some i" "od_step s (Settled i reply) s'" for i reply s'
    using that by (auto elim!: od_stepE simp: od_settle_def Let_def)
  ultimately show ?thesis by blast
qed

theorem dialog_follows_last_request_witness:
  "ask_shown (ask_run [Added ''1'', Added ''2'', Fired 1 ''2'', Settled ''2'' (Inr None)]) = Some ''2'' \<and>
   (\<exists>s. od_run [Added ''1'', Added ''2'', Fired 1 ''2'', Settled ''2'' (Inr None)] s \<and> od_id s = Some ''2'')"
proof -
  have 1: "od_run [Added ''1''] (od_added ''1'' od_init)"
    using od_run.step [OF od_run.start od_step.added] by simp
  have 2: "od_run [Added ''1'', Added ''2''] (od_added ''2'' (od_added ''1'' od_init))"
    using od_run.step [OF 1 od_step.added] by simp
  let ?s2 = "od_added ''2'' (od_added ''1'' od_init)"
  have m: "(1, ''2'') \<in> set (od_armed ?s2)"
    by (simp add: od_added_def od_init_def clear_timer_def Let_def)
  let ?s3 = "?s2\<lparr> od_armed := remove1 (1, ''2'') (od_armed ?s2), od_flight := ''2'' # od_flight ?s2 \<rparr>"
  have 3: "od_run [Added ''1'', Added ''2'', Fired 1 ''2''] ?s3"
    using od_run.step [OF 2 od_step.fired [OF m]] by simp
  have 4: "od_run [Added ''1'', Added ''2'', Fired 1 ''2'', Settled ''2'' (Inr None)] (od_settle ''2'' (Inr None) ?s3)"
    using od_run.step [OF 3 od_step.settled [of "''2''" ?s3 "Inr None"]] by simp
  have e: "ask_shown (ask_run [Added ''1'', Added ''2'', Fired 1 ''2'', Settled ''2'' (Inr None)]) = Some ''2''"
    by (simp add: ask_run_def ask_event_def already_present_def)
  with dialog_follows_last_request [OF 4] 4 show ?thesis by metis
qed

end
