(* ===== verification/LogTail.thy ===== *)
theory LogTail
  imports Complex_Main Prelude
begin

text \<open>
  The daemon's log as the page sees it (\<open>main/main.ts\<close>, handlers
  \<open>daemon:read-logs\<close> and \<open>daemon:watch-logs\<close>): the last lines of the file, and the tail that is
  read by offset each time the file watcher reports a change.

  A file is its sequence of bytes; the log is ASCII text, so that bytes and characters agree.
  The watcher's reports (the two sizes) and the content at the time of the read are
  inputs of \<open>on_change\<close>, since the file may move on in between.
\<close>

definition LF :: char where "LF = CHR 0x0A"

definition blank :: "string \<Rightarrow> bool" where
  "blank line \<longleftrightarrow> js_trim line = []"

text \<open>\<open>content.split("\n").filter(line => line.trim().length > 0)\<close>.\<close>

definition log_lines :: "string \<Rightarrow> string list" where
  "log_lines content = filter (\<lambda>line. \<not> blank line) (js_split LF content)"

subsection \<open>Reading the last lines\<close>

text \<open>\<open>lines\<close> is \<open>None\<close> when the argument is not a finite number.\<close>

definition clamp_lines :: "rat option \<Rightarrow> nat" where
  "clamp_lines lines =
     (let requested = (case lines of Some n \<Rightarrow> \<lfloor>n\<rfloor> | None \<Rightarrow> 100) in
      nat (max 1 (min 10000 requested)))"

text \<open>\<open>xs.slice(-n)\<close> for positive \<open>n\<close>.\<close>

definition last_n :: "nat \<Rightarrow> 'a list \<Rightarrow> 'a list" where
  "last_n n xs = drop (length xs - n) xs"

text \<open>\<open>file\<close> is \<open>None\<close> when no path is known, the file is missing or reading it fails.\<close>

definition read_logs :: "rat option \<Rightarrow> string option \<Rightarrow> string list" where
  "read_logs lines file = (case file of
     None \<Rightarrow> []
   | Some content \<Rightarrow> last_n (clamp_lines lines) (log_lines content))"

subsection \<open>Watching\<close>

definition MAX_LOG_READ_BYTES :: nat where "MAX_LOG_READ_BYTES = 2 * 1024 * 1024"

text \<open>
  \<open>logWatchCallbacks\<close> holds per sender the registered callbacks; each is named by a number.
  \<open>lw_watchers\<close> is \<open>logWatchers\<close> with the offset \<open>lastSize\<close> of each path.
\<close>

record log_watch =
  lw_callbacks :: "(string, nat list) jmap"
  lw_watchers :: "(string, nat) jmap"
  lw_next :: nat

definition log_watch_init :: log_watch where
  "log_watch_init = \<lparr> lw_callbacks = [], lw_watchers = [], lw_next = 0 \<rparr>"

text \<open>
  \<open>fsize\<close> is the size \<open>statSync\<close> reports, \<open>None\<close> when the file is missing or that fails. The
  result is \<open>success\<close> and the number of the new callback.
\<close>

definition watch_logs ::
    "string option \<Rightarrow> nat option \<Rightarrow> string \<Rightarrow> log_watch \<Rightarrow> nat option \<times> log_watch" where
  "watch_logs currentDaemonLogPath fsize sender w = (case currentDaemonLogPath of
     None \<Rightarrow> (None, w)
   | Some path \<Rightarrow>
       if path = [] then (None, w)
       else
         (let cb = lw_next w;
              cbs = (case jm_get (lw_callbacks w) sender of Some l \<Rightarrow> l | None \<Rightarrow> []);
              watchers = (if jm_get (lw_watchers w) path = None
                then jm_set path (case fsize of Some s \<Rightarrow> s | None \<Rightarrow> 0) (lw_watchers w)
                else lw_watchers w) in
          (Some cb, \<lparr> lw_callbacks = jm_set sender (cbs @ [cb]) (lw_callbacks w),
                     lw_watchers = watchers, lw_next = Suc cb \<rparr>)))"

definition sender_destroyed :: "string \<Rightarrow> nat \<Rightarrow> log_watch \<Rightarrow> log_watch" where
  "sender_destroyed sender cb w = (case jm_get (lw_callbacks w) sender of
     None \<Rightarrow> w
   | Some l \<Rightarrow>
       (let l' = filter (\<lambda>c. c \<noteq> cb) l in
        w\<lparr> lw_callbacks := (if l' = [] then jm_del sender (lw_callbacks w)
                           else jm_set sender l' (lw_callbacks w)) \<rparr>))"

text \<open>
  \<open>Buffer.alloc(n)\<close> is filled with zero bytes; \<open>readSync\<close> overwrites what the file has at
  the position.
\<close>

definition read_at :: "string \<Rightarrow> nat \<Rightarrow> nat \<Rightarrow> string" where
  "read_at content start n =
     (let got = take n (drop start content) in got @ replicate (n - length got) (CHR 0x00))"

definition all_callbacks :: "log_watch \<Rightarrow> nat list" where
  "all_callbacks w = concat (map snd (lw_callbacks w))"

text \<open>
  One report of the watcher. \<open>content\<close> is \<open>None\<close> when the file is gone, \<open>opened\<close> is false
  when opening it fails. The result lists the calls of callbacks in order.
\<close>

definition on_change ::
    "string \<Rightarrow> nat \<Rightarrow> nat \<Rightarrow> string option \<Rightarrow> bool \<Rightarrow> log_watch \<Rightarrow> log_watch \<times> (nat \<times> string) list" where
  "on_change path cur prev content opened w = (case content of
     None \<Rightarrow> (w, [])
   | Some file \<Rightarrow>
     (case jm_get (lw_watchers w) path of
        None \<Rightarrow> (w, [])
      | Some start \<Rightarrow>
          if cur > prev then
            (if cur \<le> start \<or> \<not> opened then (w, [])
             else
               (let toRead = min (cur - start) MAX_LOG_READ_BYTES;
                    newLines = log_lines (read_at file start toRead) in
                (w\<lparr> lw_watchers := jm_set path (start + toRead) (lw_watchers w) \<rparr>,
                 concat (map (\<lambda>line. map (\<lambda>cb. (cb, line)) (all_callbacks w)) newLines))))
          else if cur < prev then
            (w\<lparr> lw_watchers := jm_set path 0 (lw_watchers w) \<rparr>, [])
          else (w, [])))"

definition lines_for :: "nat \<Rightarrow> (nat \<times> string) list \<Rightarrow> string list" where
  "lines_for cb calls = map snd (filter (\<lambda>c. fst c = cb) calls)"

text \<open>A file that only grows: the watcher reports after each appended chunk.\<close>

fun follow :: "string \<Rightarrow> string \<Rightarrow> string list \<Rightarrow> log_watch \<Rightarrow> log_watch \<times> (nat \<times> string) list" where
  "follow path body [] w = (w, [])"
| "follow path body (chunk # chunks) w =
     (case on_change path (length (body @ chunk)) (length body) (Some (body @ chunk)) True w of
        (w1, calls) \<Rightarrow>
          (case follow path (body @ chunk) chunks w1 of (w2, calls') \<Rightarrow> (w2, calls @ calls')))"

subsection \<open>Lemmas\<close>

lemma split_concat_lines:
  "js_split c (a @ [c] @ b) = js_split c a @ js_split c b"
proof (induction a)
  case (Cons x a)
  obtain w ws where "js_split c a = w # ws" using js_split_ne by (metis neq_Nil_conv)
  with Cons show ?case by auto
qed simp

lemma log_lines_append: "a = [] \<or> last a = LF \<Longrightarrow> log_lines (a @ b) = log_lines a @ log_lines b"
proof (cases "a = []")
  case False
  assume "a = [] \<or> last a = LF"
  with False obtain a' where a: "a = a' @ [LF]" by (metis append_butlast_last_id)
  have "js_split LF (a' @ [LF]) = js_split LF a' @ [[]]"
    using split_concat_lines [of LF a' "[]"] by simp
  with split_concat_lines [of LF a' b] show ?thesis
    by (simp add: a log_lines_def blank_def)
qed (simp add: log_lines_def blank_def)

lemma lines_for_broadcast:
  "lines_for cb (concat (map (\<lambda>line. map (\<lambda>c. (c, line)) cbs) ls)) =
   concat (map (\<lambda>line. replicate (count_list cbs cb) line) ls)"
proof -
  have "map snd (filter (\<lambda>c. fst c = cb) (map (\<lambda>c. (c, line)) cbs)) =
      replicate (count_list cbs cb) line" for line :: string
    by (induction cbs) auto
  then show ?thesis by (induction ls) (simp_all add: lines_for_def)
qed

lemma lines_for_one: "lines_for cb (map (\<lambda>c. (c, l)) cbs) = replicate (count_list cbs cb) l"
  using lines_for_broadcast [of cb cbs "[l]"] by simp

lemma lines_for_append: "lines_for cb (xs @ ys) = lines_for cb xs @ lines_for cb ys"
  by (simp add: lines_for_def)

lemma read_at_tail: "read_at (body @ chunk) (length body) (length chunk) = chunk"
  by (simp add: read_at_def)

lemma on_change_growth:
  assumes "jm_get (lw_watchers w) path = Some (length body)" "chunk \<noteq> []"
    "length chunk \<le> MAX_LOG_READ_BYTES"
  shows "on_change path (length (body @ chunk)) (length body) (Some (body @ chunk)) True w =
    (w\<lparr> lw_watchers := jm_set path (length (body @ chunk)) (lw_watchers w) \<rparr>,
     concat (map (\<lambda>line. map (\<lambda>cb. (cb, line)) (all_callbacks w)) (log_lines chunk)))"
  using assms by (simp add: on_change_def Let_def read_at_tail min_def)

text \<open>
  Property C32: tailing equals reading. While the log only grows, by chunks that end in a
  line feed and stay within the 2 MB cap, a callback registered once receives exactly the
  non-blank lines that were appended, in order and once each, whatever the chunking, and the
  offset ends at the end of the file.
\<close>

theorem tail_equals_read:
  fixes w :: log_watch and body :: string
  assumes "jm_get (lw_watchers w) path = Some (length body)"
    "\<forall>g \<in> set chunks. g \<noteq> [] \<and> last g = LF \<and> length g \<le> MAX_LOG_READ_BYTES"
    "count_list (all_callbacks w) cb = 1"
  shows "lines_for cb (snd (follow path body chunks w)) = log_lines (concat chunks) \<and>
    jm_get (lw_watchers (fst (follow path body chunks w))) path = Some (length (body @ concat chunks))"
  using assms
proof (induction chunks arbitrary: body w)
  case Nil
  then show ?case by (simp add: lines_for_def log_lines_def blank_def)
next
  case (Cons g gs)
  let ?w1 = "w\<lparr> lw_watchers := jm_set path (length (body @ g)) (lw_watchers w) \<rparr>"
  have g: "g \<noteq> []" "last g = LF" "length g \<le> MAX_LOG_READ_BYTES" using Cons.prems(2) by simp_all
  have 1: "jm_get (lw_watchers ?w1) path = Some (length (body @ g))" by (simp add: jm_simps)
  have 2: "\<forall>g \<in> set gs. g \<noteq> [] \<and> last g = LF \<and> length g \<le> MAX_LOG_READ_BYTES"
    using Cons.prems(2) by simp
  have 3: "count_list (all_callbacks ?w1) cb = 1" using Cons.prems(3) by (simp add: all_callbacks_def)
  obtain w2 calls where f: "follow path (body @ g) gs ?w1 = (w2, calls)"
    by (metis surj_pair)
  have "follow path body (g # gs) w =
      (w2, concat (map (\<lambda>line. map (\<lambda>cb. (cb, line)) (all_callbacks w)) (log_lines g)) @ calls)"
    using on_change_growth [OF Cons.prems(1) g(1,3)] f by simp
  moreover have "lines_for cb calls = log_lines (concat gs)"
      "jm_get (lw_watchers w2) path = Some (length (body @ g @ concat gs))"
    using Cons.IH [OF 1 2 3] f by simp_all
  moreover have "lines_for cb (concat (map (\<lambda>line. map (\<lambda>cb. (cb, line)) (all_callbacks w)) (log_lines g)))
      = log_lines g"
    using Cons.prems(3) by (simp add: lines_for_broadcast)
  ultimately show ?case
    using log_lines_append [of g "concat gs"] g by (simp add: lines_for_append)
qed

definition sample_watch :: log_watch where
  "sample_watch = snd (watch_logs (Some ''d.log'') (Some 0) ''1'' log_watch_init)"

theorem tail_equals_read_witness:
  "lines_for 0 (snd (follow ''d.log'' [] [''up'' @ [LF], ''a'' @ [LF] @ ''b'' @ [LF]] sample_watch)) =
     log_lines (''up'' @ [LF] @ ''a'' @ [LF] @ ''b'' @ [LF])"
proof -
  have "jm_get (lw_watchers sample_watch) ''d.log'' = Some (length ([] :: string))"
    "count_list (all_callbacks sample_watch) 0 = 1"
    by (simp_all add: sample_watch_def watch_logs_def log_watch_init_def Let_def jm_get_def all_callbacks_def)
  from tail_equals_read [OF this(1) _ this(2), of "[''up'' @ [LF], ''a'' @ [LF] @ ''b'' @ [LF]]"]
  show ?thesis by (simp add: LF_def MAX_LOG_READ_BYTES_def)
qed

text \<open>
  Further fact: what the tail gets wrong. A line the daemon writes in two pieces with a report
  in between is delivered as two lines, and a growth beyond the cap is delivered only up to
  the cap: the offset stays at \<open>start + 2 MB\<close> until the file grows again.
\<close>

theorem tail_splits_lines:
  assumes "jm_get (lw_watchers w) path = Some (length body)" "count_list (all_callbacks w) cb = 1"
  shows "(\<not> blank a \<and> \<not> blank b \<and> LF \<notin> set a \<and> LF \<notin> set b \<and>
        length a + length b < MAX_LOG_READ_BYTES \<longrightarrow>
      lines_for cb (snd (follow path body [a, b @ [LF]] w)) = [a, b]) \<and>
    (MAX_LOG_READ_BYTES < length g \<longrightarrow>
      jm_get (lw_watchers (fst (follow path body [g] w))) path = Some (length body + MAX_LOG_READ_BYTES) \<and>
      lines_for cb (snd (follow path body [g] w)) = log_lines (take MAX_LOG_READ_BYTES g))"
proof (intro conjI impI)
  assume h: "\<not> blank a \<and> \<not> blank b \<and> LF \<notin> set a \<and> LF \<notin> set b \<and> length a + length b < MAX_LOG_READ_BYTES"
  have a: "a \<noteq> []" "length a \<le> MAX_LOG_READ_BYTES" using h by (auto simp: blank_def)
  have b: "b @ [LF] \<noteq> []" "length (b @ [LF]) \<le> MAX_LOG_READ_BYTES" using h by auto
  let ?w1 = "w\<lparr> lw_watchers := jm_set path (length (body @ a)) (lw_watchers w) \<rparr>"
  have w1: "jm_get (lw_watchers ?w1) path = Some (length (body @ a))" by (simp add: jm_simps)
  have c: "count_list (all_callbacks ?w1) cb = 1" using assms(2) by (simp add: all_callbacks_def)
  have la: "log_lines a = [a]" using h by (simp add: log_lines_def js_split_no_sep)
  have "js_split LF (b @ [LF]) = [b, []]"
    using h split_concat_lines [of LF b "[]"] by (simp add: js_split_no_sep)
  then have lb: "log_lines (b @ [LF]) = [b]" using h by (simp add: log_lines_def) (simp add: blank_def)
  show "lines_for cb (snd (follow path body [a, b @ [LF]] w)) = [a, b]"
    using on_change_growth [OF assms(1) a] on_change_growth [OF w1 b] assms(2) c
    by (simp add: lines_for_append lines_for_one la lb)
next
  assume big: "MAX_LOG_READ_BYTES < length g"
  have "on_change path (length (body @ g)) (length body) (Some (body @ g)) True w =
    (w\<lparr> lw_watchers := jm_set path (length body + MAX_LOG_READ_BYTES) (lw_watchers w) \<rparr>,
     concat (map (\<lambda>line. map (\<lambda>cb. (cb, line)) (all_callbacks w)) (log_lines (take MAX_LOG_READ_BYTES g))))"
    using assms(1) big by (cases "g = []") (simp_all add: on_change_def Let_def read_at_def min_def)
  with assms(2) show "jm_get (lw_watchers (fst (follow path body [g] w))) path =
        Some (length body + MAX_LOG_READ_BYTES)"
      "lines_for cb (snd (follow path body [g] w)) = log_lines (take MAX_LOG_READ_BYTES g)"
    by (simp_all add: jm_simps lines_for_append lines_for_broadcast)
      (simp_all add: lines_for_def)?
qed

theorem tail_splits_lines_witness:
  "lines_for 0 (snd (follow ''d.log'' [] [''star'', ''ted'' @ [LF]] sample_watch)) = [''star'', ''ted'']"
proof -
  have "jm_get (lw_watchers sample_watch) ''d.log'' = Some (length ([] :: string))"
    "count_list (all_callbacks sample_watch) 0 = 1"
    by (simp_all add: sample_watch_def watch_logs_def log_watch_init_def Let_def jm_get_def all_callbacks_def)
  from tail_splits_lines [OF this, of "''star''" "''ted''" "[]"]
  show ?thesis by (simp add: LF_def MAX_LOG_READ_BYTES_def blank_def js_trim_def is_ws_def)
qed

text \<open>
  Further fact: the lines returned by \<open>daemon:read-logs\<close> are the last non-blank lines of the file, as
  many as asked for, at least one and at most ten thousand whatever was asked; an
  argument that is no finite number counts as 100.
\<close>

theorem read_logs_is_suffix:
  "suffix (read_logs lines (Some content)) (log_lines content) \<and>
   length (read_logs lines (Some content)) = min (length (log_lines content)) (clamp_lines lines) \<and>
   1 \<le> clamp_lines lines \<and> clamp_lines lines \<le> 10000 \<and>
   (\<forall>n. lines = Some (of_int n) \<and> 1 \<le> n \<and> n \<le> 10000 \<longrightarrow> int (clamp_lines lines) = n) \<and>
   clamp_lines None = 100 \<and> read_logs lines None = []"
proof -
  have c: "1 \<le> clamp_lines lines" "clamp_lines lines \<le> 10000" for lines
    by (simp_all add: clamp_lines_def Let_def le_nat_iff)
  have "\<forall>n. lines = Some (of_int n) \<and> 1 \<le> n \<and> n \<le> 10000 \<longrightarrow> int (clamp_lines lines) = n"
    by (auto simp: clamp_lines_def Let_def)
  moreover have "clamp_lines None = 100" "read_logs lines None = []"
      "suffix (read_logs lines (Some content)) (log_lines content)"
      "length (read_logs lines (Some content)) = min (length (log_lines content)) (clamp_lines lines)"
    by (simp_all add: clamp_lines_def read_logs_def last_n_def suffix_drop min_def)
  ultimately show ?thesis using c by blast
qed

theorem read_logs_is_suffix_witness:
  "int (clamp_lines (Some (of_int 250))) = 250"
  by (rule read_logs_is_suffix [THEN conjunct2, THEN conjunct2, THEN conjunct2, THEN conjunct2,
        THEN conjunct1, rule_format]) simp

text \<open>
  Further fact: a sender that asks twice is called twice for every line; when a registration ends
  exactly its own calls end, and the entry of the sender goes with its last registration.
\<close>

theorem registrations_multiply:
  fixes fsize :: "nat option"
  assumes "jm_ok (lw_callbacks w)" "path \<noteq> []" "jm_get (lw_callbacks w) s = None"
  defines "w1 \<equiv> snd (watch_logs (Some path) fsize s w)"
  defines "w2 \<equiv> snd (watch_logs (Some path) fsize s w1)"
  shows "jm_get (lw_callbacks w2) s = Some [lw_next w, Suc (lw_next w)] \<and>
    jm_get (lw_callbacks (sender_destroyed s (lw_next w) w2)) s = Some [Suc (lw_next w)] \<and>
    jm_get (lw_callbacks (sender_destroyed s (Suc (lw_next w)) (sender_destroyed s (lw_next w) w2))) s = None \<and>
    jm_get (lw_watchers w2) path = jm_get (lw_watchers w1) path"
  using assms
  by (auto simp: watch_logs_def sender_destroyed_def jm_simps Let_def split: option.splits)

theorem registrations_multiply_witness:
  "jm_get (lw_callbacks (snd (watch_logs (Some ''d.log'') None ''1''
     (snd (watch_logs (Some ''d.log'') None ''1'' log_watch_init))))) ''1'' = Some [0, 1]"
  using registrations_multiply [of log_watch_init "''d.log''" "''1''" None]
  by (simp add: log_watch_init_def jm_simps)

end
