(* ===== verification/NotificationSound.thy ===== *)
theory NotificationSound
  imports Prelude "HOL-Library.List_Lexorder" "HOL-Library.Char_ord"
begin

text \<open>
  The notification sound (\<open>main/main.ts\<close>): the handlers \<open>notification-sound:*\<close> and the
  \<open>app://\<close> protocol that serves the sound to the page.

  The state is what the handlers keep on disk: the meta file, the copied sound per extension
  (\<open>notification_sound.<ext>\<close> in the user data folder), and the folder of bundled sounds.
  Files are looked up by their full path in the bundled folder, so that a path that leaves it
  would be visible. Bytes of a sound are any type \<open>'b\<close>. Whether a copy or a write succeeds
  is an argument. \<open>decodeURIComponent\<close> and \<open>encodeURIComponent\<close> are parameters.
\<close>

subsection \<open>Paths\<close>

text \<open>
  \<open>path.basename\<close> and \<open>path.extname\<close>; \<open>win\<close> selects the Windows rules, where a backslash
  separates as well and a drive prefix is dropped.
\<close>

definition BACKSLASH :: char where "BACKSLASH = CHR 0x5C"

definition is_sep :: "bool \<Rightarrow> char \<Rightarrow> bool" where
  "is_sep win c \<longleftrightarrow> c = CHR ''/'' \<or> (win \<and> c = BACKSLASH)"

definition is_letter :: "char \<Rightarrow> bool" where
  "is_letter c \<longleftrightarrow> (let n = (of_char (lower_char c) :: nat) in 97 \<le> n \<and> n \<le> 122)"

definition drop_drive :: "bool \<Rightarrow> string \<Rightarrow> string" where
  "drop_drive win p = (case p of
     a # b # rest \<Rightarrow> if win \<and> is_letter a \<and> b = CHR '':'' then rest else p
   | _ \<Rightarrow> p)"

definition basename :: "bool \<Rightarrow> string \<Rightarrow> string" where
  "basename win p = rev (takeWhile (\<lambda>c. \<not> is_sep win c)
     (dropWhile (is_sep win) (rev (drop_drive win p))))"

definition extname :: "bool \<Rightarrow> string \<Rightarrow> string" where
  "extname win p =
     (let b = basename win p; after = takeWhile (\<lambda>c. c \<noteq> CHR ''.'') (rev b) in
      if CHR ''.'' \<notin> set b \<or> length after + 1 = length b \<or> b = ''..'' then []
      else CHR ''.'' # rev after)"

definition is_absolute :: "bool \<Rightarrow> string \<Rightarrow> bool" where
  "is_absolute win p \<longleftrightarrow> (case p of
     [] \<Rightarrow> False
   | a # rest \<Rightarrow> is_sep win a \<or>
       (win \<and> is_letter a \<and> (case rest of b # c # _ \<Rightarrow> b = CHR '':'' \<and> is_sep win c | _ \<Rightarrow> False)))"

subsection \<open>State\<close>

text \<open>\<open>notification_sound_meta.json\<close>: absent, not parseable, or an object with optional fields.\<close>

record sound_meta =
  sm_type :: "string option"
  sm_ext :: "string option"
  sm_filename :: "string option"

datatype meta_file = NoMeta | BadMeta | Meta sound_meta

record 'b sounds =
  sn_meta :: meta_file
  sn_custom :: "(string, 'b) jmap"
  sn_dir :: string
  sn_default :: "string \<Rightarrow> 'b option"

definition default_path :: "'b sounds \<Rightarrow> string \<Rightarrow> string" where
  "default_path s name = sn_dir s @ ''/'' @ name"

definition DEFAULT_SCHEME :: string where
  "DEFAULT_SCHEME = ''app://default-notification-sounds/''"

definition CUSTOM_URL :: string where
  "CUSTOM_URL = ''app://notification-sound''"

definition meta_ext :: "sound_meta \<Rightarrow> string" where
  "meta_ext m = (case sm_ext m of Some e \<Rightarrow> e | None \<Rightarrow> ''.wav'')"

subsection \<open>Handlers\<close>

text \<open>
  \<open>choose\<close>: \<open>picked\<close> is the path the user picked and its bytes; \<open>copied\<close> and \<open>written\<close> say which
  of the two file operations succeed.
\<close>

definition choose_sound ::
    "bool \<Rightarrow> (string \<times> 'b) option \<Rightarrow> bool \<Rightarrow> bool \<Rightarrow> 'b sounds \<Rightarrow> bool \<times> 'b sounds" where
  "choose_sound win picked copied written s = (case picked of
     None \<Rightarrow> (False, s)
   | Some (src, bytes) \<Rightarrow>
       (let e = js_lower (extname win src); ext = (if e = [] then ''.wav'' else e) in
        if \<not> copied then (False, s)
        else
          (let s1 = s\<lparr> sn_custom := jm_set ext bytes (sn_custom s) \<rparr> in
           if \<not> written then (False, s1)
           else (True, s1\<lparr> sn_meta := Meta (\<lparr> sm_type = Some ''custom'', sm_ext = Some ext,
                                            sm_filename = None \<rparr>) \<rparr>))))"

definition set_default :: "bool \<Rightarrow> string option \<Rightarrow> bool \<Rightarrow> 'b sounds \<Rightarrow> bool \<times> 'b sounds" where
  "set_default win filename written s = (case filename of
     None \<Rightarrow> (False, s)
   | Some f \<Rightarrow>
       if js_trim f = [] \<or> js_includes f ''..'' then (False, s)
       else
         (let base = basename win f in
          if js_lower (extname win base) \<noteq> ''.mp3'' then (False, s)
          else if sn_default s (default_path s base) = None then (False, s)
          else if \<not> written then (False, s)
          else (True, s\<lparr> sn_meta := Meta (\<lparr> sm_type = Some ''default'', sm_ext = None,
                                           sm_filename = Some base \<rparr>) \<rparr>)))"

text \<open>\<open>get-defaults\<close>: the entries of the folder are names with the answer of \<open>isFile()\<close>.\<close>

definition get_defaults :: "bool \<Rightarrow> (string \<times> bool) list option \<Rightarrow> string list" where
  "get_defaults win entries = (case entries of
     None \<Rightarrow> []
   | Some es \<Rightarrow> sort (map fst (filter (\<lambda>(name, isFile). isFile \<and> js_lower (extname win name) = ''.mp3'') es)))"

definition get_url :: "bool \<Rightarrow> (string \<Rightarrow> string) \<Rightarrow> 'b sounds \<Rightarrow> string option" where
  "get_url win encode s = (case sn_meta s of
     NoMeta \<Rightarrow> None
   | BadMeta \<Rightarrow> None
   | Meta m \<Rightarrow>
       (case sm_filename m of
          Some f \<Rightarrow>
            if sm_type m = Some ''default'' \<and> f \<noteq> [] then
              (if sn_default s (default_path s (basename win f)) \<noteq> None
               then Some (DEFAULT_SCHEME @ encode f) else None)
            else if jm_get (sn_custom s) (meta_ext m) \<noteq> None then Some CUSTOM_URL else None
        | None \<Rightarrow> if jm_get (sn_custom s) (meta_ext m) \<noteq> None then Some CUSTOM_URL else None))"

definition clear_sound :: "'b sounds \<Rightarrow> 'b sounds" where
  "clear_sound s = s\<lparr>
     sn_custom := fold jm_del [''.wav'', ''.mp3'', ''.ogg'', ''.m4a'', ''.aac''] (sn_custom s),
     sn_meta := NoMeta \<rparr>"

definition mime_of :: "string \<Rightarrow> string" where
  "mime_of ext = (if ext = ''.mp3'' then ''audio/mpeg'' else if ext = ''.ogg'' then ''audio/ogg''
     else if ext = ''.m4a'' then ''audio/mp4'' else ''audio/wav'')"

datatype audio_request = Builtin | DefaultSound string | CustomSound

definition custom_audio :: "'b sounds \<Rightarrow> ('b \<times> string) option" where
  "custom_audio s = (case sn_meta s of
     Meta m \<Rightarrow>
       if sm_type m = Some ''default'' then None
       else map_option (\<lambda>b. (b, mime_of (meta_ext m))) (jm_get (sn_custom s) (meta_ext m))
   | _ \<Rightarrow> None)"

definition default_audio :: "bool \<Rightarrow> string \<Rightarrow> 'b sounds \<Rightarrow> ('b \<times> string) option" where
  "default_audio win filename s =
     (let soundPath = default_path s (basename win filename) in
      if js_lower (extname win soundPath) \<noteq> ''.mp3'' then None
      else map_option (\<lambda>b. (b, ''audio/mpeg'')) (sn_default s soundPath))"

definition get_audio :: "bool \<Rightarrow> audio_request \<Rightarrow> 'b sounds \<Rightarrow> ('b \<times> string) option" where
  "get_audio win payload s = (case payload of
     Builtin \<Rightarrow> None
   | DefaultSound filename \<Rightarrow>
       if filename = [] \<or> js_includes filename ''..'' then None else default_audio win filename s
   | CustomSound \<Rightarrow> custom_audio s)"

text \<open>
  \<open>protocol.handle("app", ...)\<close>: the body and its type, \<open>None\<close> for status 404. \<open>decode\<close> is
  \<open>None\<close> where \<open>decodeURIComponent\<close> throws.
\<close>

definition strip_query :: "string \<Rightarrow> string" where
  "strip_query u = takeWhile (\<lambda>c. c \<noteq> CHR ''?'') u"

definition app_protocol ::
    "bool \<Rightarrow> (string \<Rightarrow> string option) \<Rightarrow> string \<Rightarrow> 'b sounds \<Rightarrow> ('b \<times> string) option" where
  "app_protocol win decode url s =
     (if url = CUSTOM_URL \<or> starts_with url (CUSTOM_URL @ ''?'') then custom_audio s
      else if starts_with url DEFAULT_SCHEME then
        (case decode (strip_query (drop (length DEFAULT_SCHEME) url)) of
           None \<Rightarrow> None
         | Some filename \<Rightarrow>
             if filename = [] \<or> js_includes filename ''..'' \<or> is_absolute win filename then None
             else default_audio win filename s)
      else None)"

subsection \<open>Lemmas on paths\<close>

lemma basename_no_sep: "c \<in> set (basename win p) \<Longrightarrow> \<not> is_sep win c"
  by (auto simp: basename_def dest: set_takeWhileD)

lemma suffix_drop_drive: "suffix (drop_drive win p) p"
  by (auto simp: drop_drive_def suffix_def split: list.splits)

lemma basename_sublist: "sublist (basename win p) p"
proof -
  let ?r = "rev (drop_drive win p)"
  have "prefix (takeWhile (\<lambda>c. \<not> is_sep win c) (dropWhile (is_sep win) ?r)) (dropWhile (is_sep win) ?r)"
    by (metis prefixI takeWhile_dropWhile_id)
  moreover have "suffix (dropWhile (is_sep win) ?r) ?r" by (rule suffix_dropWhile)
  ultimately have "sublist (takeWhile (\<lambda>c. \<not> is_sep win c) (dropWhile (is_sep win) ?r)) ?r"
    by (metis prefix_imp_sublist sublist_order.order.trans suffix_imp_sublist)
  then have "sublist (basename win p) (drop_drive win p)"
    unfolding basename_def by (metis rev_rev_ident sublist_rev)
  then show ?thesis
    using suffix_drop_drive by (metis sublist_order.order.trans suffix_imp_sublist)
qed

lemma drop_drive_join: "\<exists>d'. drop_drive win (d @ ''/'' @ b) = d' @ ''/'' @ b"
proof (cases d)
  case (Cons a d1)
  then show ?thesis
    by (cases d1) (auto simp: drop_drive_def)
qed (auto simp: drop_drive_def is_letter_def lower_char_def Let_def split: list.splits)

lemma dropWhile_base:
  "b \<noteq> [] \<Longrightarrow> \<forall>c \<in> set b. \<not> is_sep win c \<Longrightarrow> dropWhile (is_sep win) (rev b @ xs) = rev b @ xs"
  by (cases b rule: rev_cases) auto

lemma basename_join:
  assumes "b \<noteq> []" "\<forall>c \<in> set b. \<not> is_sep win c"
  shows "basename win (d @ ''/'' @ b) = b"
proof -
  obtain d' where d: "drop_drive win (d @ ''/'' @ b) = d' @ ''/'' @ b" using drop_drive_join by blast
  have "takeWhile (\<lambda>c. \<not> is_sep win c) (rev b @ CHR ''/'' # rev d') = rev b"
    using assms(2) by (subst takeWhile_append2) (auto simp: is_sep_def)
  with dropWhile_base [OF assms] show ?thesis
    unfolding basename_def d by simp
qed

lemma basename_id:
  assumes "\<forall>c \<in> set b. \<not> is_sep win c" "win \<longrightarrow> CHR '':'' \<notin> set b"
  shows "basename win b = b"
proof -
  have "drop_drive win b = b"
    using assms(2) by (auto simp: drop_drive_def split: list.splits)
  moreover have "takeWhile (\<lambda>c. \<not> is_sep win c) (rev b) = rev b"
    using assms(1) by (simp add: takeWhile_eq_all_conv)
  moreover have "dropWhile (is_sep win) (rev b) = rev b"
    using assms(1) by (cases b rule: rev_cases) auto
  ultimately show ?thesis unfolding basename_def by (simp only: rev_rev_ident)
qed

lemma extname_join:
  assumes "b \<noteq> []" "\<forall>c \<in> set b. \<not> is_sep win c" "win \<longrightarrow> CHR '':'' \<notin> set b"
  shows "extname win (d @ ''/'' @ b) = extname win b"
  using basename_join [OF assms(1,2)] basename_id [OF assms(2,3)] by (simp add: extname_def)

lemma extname_Nil_base: "basename win p = [] \<Longrightarrow> extname win p = []"
  by (simp add: extname_def)

lemma not_absolute_base: "\<forall>c \<in> set b. \<not> is_sep win c \<Longrightarrow> \<not> is_absolute win b"
  by (auto simp: is_absolute_def split: list.splits)

lemma default_audio_inside:
  assumes "default_audio win filename s = Some (b, m)"
  shows "sn_default s (default_path s (basename win filename)) = Some b \<and> m = ''audio/mpeg'' \<and>
    (\<forall>c \<in> set (basename win filename). \<not> is_sep win c)"
  using assms basename_no_sep [of _ win filename]
  by (auto simp: default_audio_def Let_def split: if_splits)

subsection \<open>What the page gets\<close>

text \<open>
  Further fact: a chosen sound is the one played. When the copy and the meta file are written,
  the handler answers true, the page gets the custom URL, and both the protocol and the preview
  return the bytes of the picked file with the type of its lower-cased extension, whatever
  sound was set before.
\<close>

theorem chosen_sound_roundtrip:
  "let e = js_lower (extname win src); ext = (if e = [] then ''.wav'' else e);
       r = choose_sound win (Some (src, bytes)) True True s in
   fst r \<and> get_url win encode (snd r) = Some CUSTOM_URL \<and>
   app_protocol win decode CUSTOM_URL (snd r) = Some (bytes, mime_of ext) \<and>
   get_audio win CustomSound (snd r) = Some (bytes, mime_of ext)"
  by (simp add: choose_sound_def get_url_def app_protocol_def get_audio_def custom_audio_def
      Let_def jm_simps meta_ext_def)

text \<open>
  Further fact: a bundled sound is the one played. When \<open>set-default\<close> accepts a name, the URL the
  page is given makes the protocol return the bytes of the bundled file of that base
  name, provided the URL encoding can be decoded and hides question marks, as
  \<open>encodeURIComponent\<close> does, and the name holds no colon.
\<close>

theorem default_sound_roundtrip:
  assumes enc: "\<And>x. decode (encode x) = Some x" "\<And>x. CHR ''?'' \<notin> set (encode x)"
    and name: "CHR '':'' \<notin> set (basename win f)"
    and set: "set_default win (Some f) True s = (True, s')"
  shows "\<exists>b url. sn_default s (default_path s (basename win f)) = Some b \<and>
    get_url win encode s' = Some url \<and> app_protocol win decode url s' = Some (b, ''audio/mpeg'')"
proof -
  let ?n = "basename win f"
  have ns: "\<forall>c \<in> set ?n. \<not> is_sep win c" using basename_no_sep by blast
  have base: "basename win ?n = ?n" using basename_id [OF ns] name by blast
  from set obtain b where b: "sn_default s (default_path s ?n) = Some b"
    and f: "\<not> js_includes f ''..''" "js_lower (extname win ?n) = ''.mp3''"
    and s': "s' = s\<lparr> sn_meta := Meta (\<lparr> sm_type = Some ''default'', sm_ext = None, sm_filename = Some ?n \<rparr>) \<rparr>"
    by (auto simp: set_default_def Let_def split: if_splits)
  have ne: "?n \<noteq> []"
  proof
    assume "?n = []"
    then have "extname win ?n = []" using base by (intro extname_Nil_base) metis
    with f(2) show False by (simp add: js_lower_def)
  qed
  have dots: "\<not> js_includes ?n ''..''"
    using f(1) basename_sublist [of win f] by (meson sublist_order.order.trans)
  have ext: "js_lower (extname win (default_path s ?n)) = ''.mp3''"
    unfolding default_path_def using extname_join [OF ne ns impI [OF name]] f(2) by metis
  have strip: "strip_query (encode ?n) = encode ?n"
    using enc(2) by (simp add: strip_query_def takeWhile_eq_all_conv) metis
  have url: "get_url win encode s' = Some (DEFAULT_SCHEME @ encode ?n)"
    using ne b by (simp add: get_url_def s' base default_path_def)
  have notcustom: "DEFAULT_SCHEME @ encode ?n \<noteq> CUSTOM_URL"
      "\<not> starts_with (DEFAULT_SCHEME @ encode ?n) (CUSTOM_URL @ ''?'')"
    by (simp_all add: DEFAULT_SCHEME_def CUSTOM_URL_def)
  have "default_audio win ?n s' = Some (b, ''audio/mpeg'')"
    using b ext by (simp add: default_audio_def base s' default_path_def)
  then have "app_protocol win decode (DEFAULT_SCHEME @ encode ?n) s' = Some (b, ''audio/mpeg'')"
    using notcustom strip enc(1) ne dots not_absolute_base [OF ns]
    by (simp add: app_protocol_def)
  with b url show ?thesis by blast
qed

definition sample_sounds :: "nat sounds" where
  "sample_sounds = \<lparr> sn_meta = NoMeta, sn_custom = [], sn_dir = ''/s'',
     sn_default = (\<lambda>p. if p = ''/s/Bell.mp3'' then Some 9 else None) \<rparr>"

definition hide_marks :: "string \<Rightarrow> string" where
  "hide_marks x = concat (map (\<lambda>c. if c = CHR ''?'' then ''%3F'' else if c = CHR ''%'' then ''%25'' else [c]) x)"

fun show_marks :: "string \<Rightarrow> string" where
  "show_marks (a # b # c # x) =
     (if a = CHR ''%'' then (if c = CHR ''F'' then CHR ''?'' else CHR ''%'') # show_marks x
      else a # show_marks (b # c # x))"
| "show_marks x = x"

lemma show_hide_marks: "show_marks (hide_marks x) = x"
proof (induction x)
  case (Cons a x)
  have "show_marks (a # y) = a # show_marks y" if "a \<noteq> CHR ''%''" for y
    using that by (cases y rule: show_marks.cases) (auto split: list.splits)
  with Cons show ?case by (auto simp: hide_marks_def)
qed (simp add: hide_marks_def)

theorem default_sound_roundtrip_witness:
  "\<exists>b url. sn_default sample_sounds (default_path sample_sounds (basename False ''Bell.mp3'')) = Some b \<and>
    get_url False hide_marks (snd (set_default False (Some ''Bell.mp3'') True sample_sounds)) = Some url \<and>
    app_protocol False (\<lambda>x. Some (show_marks x)) url
      (snd (set_default False (Some ''Bell.mp3'') True sample_sounds)) = Some (b, ''audio/mpeg'')"
proof (rule default_sound_roundtrip)
  show "Some (show_marks (hide_marks x)) = Some x" for x by (simp add: show_hide_marks)
  show "CHR ''?'' \<notin> set (hide_marks x)" for x by (auto simp: hide_marks_def split: if_splits)
  show "CHR '':'' \<notin> set (basename False ''Bell.mp3'')"
    by (simp add: basename_def drop_drive_def is_sep_def)
  have "fst (set_default False (Some ''Bell.mp3'') True sample_sounds)"
    by (simp add: set_default_def sample_sounds_def basename_def drop_drive_def is_sep_def extname_def
        js_lower_def lower_char_def js_trim_def is_ws_def default_path_def js_simps Let_def
        char_of_def bit_0)
  then show "set_default False (Some ''Bell.mp3'') True sample_sounds =
      (True, snd (set_default False (Some ''Bell.mp3'') True sample_sounds))"
    by (metis (full_types) prod.collapse)
qed

text \<open>
  Property C34: nothing else on the disk can be read through \<open>app://\<close>. Whatever the URL, its
  encoding and the meta file, a body the protocol returns is the copied custom sound or a
  file directly in the bundled folder, under a name without separators and without \<open>..\<close>.
\<close>

theorem protocol_stays_inside:
  assumes "app_protocol win decode url s = Some (b, m)"
  shows "(\<exists>ext. (ext, b) \<in> set (sn_custom s) \<and> m = mime_of ext) \<or>
    (\<exists>name. sn_default s (sn_dir s @ ''/'' @ name) = Some b \<and> m = ''audio/mpeg'' \<and>
       (\<forall>c \<in> set name. \<not> is_sep win c) \<and> \<not> js_includes name ''..'')"
proof (cases "url = CUSTOM_URL \<or> starts_with url (CUSTOM_URL @ ''?'')")
  case True
  with assms have "custom_audio s = Some (b, m)" by (simp add: app_protocol_def)
  then have "\<exists>ext. (ext, b) \<in> set (sn_custom s) \<and> m = mime_of ext"
    by (auto simp: custom_audio_def split: meta_file.splits if_splits dest: jm_get_in)
  then show ?thesis by blast
next
  case False
  with assms obtain f where f: "\<not> js_includes f ''..''" "default_audio win f s = Some (b, m)"
    by (auto simp: app_protocol_def split: if_splits option.splits)
  have "\<not> js_includes (basename win f) ''..''"
    using f(1) basename_sublist [of win f] by (meson sublist_order.order.trans)
  with default_audio_inside [OF f(2)] show ?thesis
    unfolding default_path_def by blast
qed

theorem protocol_stays_inside_witness:
  "(\<exists>ext. (ext, 5 :: nat) \<in> set (sn_custom (snd (choose_sound False (Some (''/x/a.wav'', 5)) True True sample_sounds)))
     \<and> ''audio/wav'' = mime_of ext) \<or>
   (\<exists>name. sn_default (snd (choose_sound False (Some (''/x/a.wav'', 5)) True True sample_sounds))
       (sn_dir (snd (choose_sound False (Some (''/x/a.wav'', 5)) True True sample_sounds)) @ ''/'' @ name) = Some 5 \<and>
     ''audio/wav'' = ''audio/mpeg'' \<and> (\<forall>c \<in> set name. \<not> is_sep False c) \<and> \<not> js_includes name ''..'')"
proof (rule protocol_stays_inside)
  show "app_protocol False Some CUSTOM_URL (snd (choose_sound False (Some (''/x/a.wav'', 5)) True True sample_sounds))
      = Some (5, ''audio/wav'')"
    by (simp add: app_protocol_def choose_sound_def custom_audio_def sample_sounds_def Let_def jm_get_def
        meta_ext_def mime_of_def extname_def basename_def drop_drive_def is_sep_def js_lower_def
        lower_char_def char_of_def bit_0)
qed

text \<open>
  Further fact: after \<open>clear\<close> no sound is set: no URL, no preview, no body for the custom URL.
  Of the copies only those with one of the five listed extensions are deleted.
\<close>

theorem clear_removes_sound:
  "get_url win encode (clear_sound s) = None \<and> get_audio win CustomSound (clear_sound s) = None \<and>
   app_protocol win decode CUSTOM_URL (clear_sound s) = None \<and>
   jm_get (sn_custom (clear_sound s)) ext =
     (if ext \<in> {''.wav'', ''.mp3'', ''.ogg'', ''.m4a'', ''.aac''} then None else jm_get (sn_custom s) ext)"
  by (simp add: clear_sound_def get_url_def get_audio_def custom_audio_def app_protocol_def jm_simps)

end
