(* ===== verification/Notifications.thy ===== *)
theory Notifications
  imports Errors
begin

text \<open>
  Desktop notifications of the page (\<open>renderer/utils/notifications.ts\<close>): the permission, which
  is asked for once and cached, the user's two switches in \<open>localStorage\<close>, and what is shown and
  played. What the platform answers is a record of replies per call.
\<close>

datatype permission = PermGranted | PermDenied | PermDefault

text \<open>
  \<open>np_key\<close> is the stored switch (\<open>Inl\<close> when reading throws); \<open>np_request\<close> what
  \<open>requestPermission\<close> settles to; \<open>np_icon\<close> what \<open>iconPath()\<close> gives, \<open>None\<close> when the bridge has
  no such function; \<open>np_throws\<close> whether the \<open>Notification\<close> constructor throws.
\<close>

record platform =
  np_key :: "thrown + string option"
  np_supported :: bool
  np_permission :: permission
  np_request :: "thrown + permission"
  np_icon :: "(thrown + string option) option"
  np_throws :: bool

record notify_state =
  ns_checked :: bool
  ns_granted :: bool
  ns_soundUrl :: "string option"
  ns_iconUrl :: "string option option"

definition notify_init :: notify_state where
  "notify_init = \<lparr> ns_checked = False, ns_granted = False, ns_soundUrl = None, ns_iconUrl = None \<rparr>"

datatype notify_out =
    AskPermission
  | ShowNotification string string "string option" string
  | PlaySound "string option"

definition is_drive :: "string \<Rightarrow> bool" where
  "is_drive s \<longleftrightarrow> (case s of
     a # b # c # rest \<Rightarrow> b = CHR '':'' \<and> c = CHR ''/'' \<and>
       (let n = (of_char (lower_char a) :: nat) in 97 \<le> n \<and> n \<le> 122)
   | _ \<Rightarrow> False)"

definition pathToFileUrl :: "string \<Rightarrow> string" where
  "pathToFileUrl path =
     (let normalized = map (\<lambda>c. if c = CHR 0x5C then CHR ''/'' else c) path in
      if is_drive normalized then ''file:///'' @ normalized else ''file://'' @ normalized)"

definition getAppIconUrl :: "platform \<Rightarrow> notify_state \<Rightarrow> string option \<times> notify_state" where
  "getAppIconUrl p s = (case ns_iconUrl s of
     Some cached \<Rightarrow> (cached, s)
   | None \<Rightarrow>
       let url = (case np_icon p of
           Some (Inr (Some path)) \<Rightarrow> if path = [] then None else Some (pathToFileUrl path)
         | _ \<Rightarrow> None) in
       (url, s\<lparr> ns_iconUrl := Some url \<rparr>))"

text \<open>\<open>getNotifyOnCompletion\<close> and \<open>getNotifyOnKillSwitch\<close> read different keys the same way.\<close>

definition getNotify :: "thrown + string option \<Rightarrow> bool" where
  "getNotify stored = (case stored of
     Inl e \<Rightarrow> True
   | Inr None \<Rightarrow> True
   | Inr (Some raw) \<Rightarrow> raw \<noteq> ''0'' \<and> raw \<noteq> ''false'')"

definition tag_char :: "char \<Rightarrow> bool" where
  "tag_char c \<longleftrightarrow> is_digit c \<or> (let n = (of_char (lower_char c) :: nat) in 97 \<le> n \<and> n \<le> 122) \<or>
     c = CHR ''_'' \<or> c = CHR ''-''"

definition completionTag :: "string option \<Rightarrow> string \<Rightarrow> time \<Rightarrow> string" where
  "completionTag torrentId torrentName now =
     (let tid = (case torrentId of Some i \<Rightarrow> i | None \<Rightarrow> []);
          safe = take 64 (filter tag_char torrentName) in
      if tid \<noteq> [] then ''torrent-complete-'' @ tid
      else if safe \<noteq> [] then ''torrent-complete-'' @ safe
      else ''torrent-complete-'' @ show_int now)"

definition setNotificationSoundUrl :: "string option \<Rightarrow> notify_state \<Rightarrow> notify_state" where
  "setNotificationSoundUrl url s = s\<lparr> ns_soundUrl := url \<rparr>"

definition ensurePermission :: "platform \<Rightarrow> notify_state \<Rightarrow> notify_out list \<times> bool \<times> notify_state" where
  "ensurePermission p s =
     (let known = (\<lambda>g. s\<lparr> ns_checked := True, ns_granted := g \<rparr>) in
      if ns_checked s then ([], ns_granted s, s)
      else if \<not> np_supported p then ([], False, known False)
      else if np_permission p = PermGranted then ([], True, known True)
      else if np_permission p = PermDenied then ([], False, known False)
      else (case np_request p of
          Inr r \<Rightarrow> ([AskPermission], r = PermGranted, known (r = PermGranted))
        | Inl e \<Rightarrow> ([AskPermission], False, known False)))"

text \<open>A custom sound when one is set, else the built-in tone.\<close>

definition play_sound :: "notify_state \<Rightarrow> notify_out" where
  "play_sound s = PlaySound (case ns_soundUrl s of Some u \<Rightarrow> if u = [] then None else Some u | None \<Rightarrow> None)"

definition notify :: "string \<Rightarrow> string \<Rightarrow> string \<Rightarrow> platform \<Rightarrow> notify_state \<Rightarrow> notify_out list \<times> notify_state" where
  "notify title body tag p s =
     (if \<not> getNotify (np_key p) then ([], s)
      else (case ensurePermission p s of
          (asked, granted, s1) \<Rightarrow>
            if \<not> granted then (asked, s1)
            else (case getAppIconUrl p s1 of
                (icon, s2) \<Rightarrow>
                  (asked @ (if np_throws p then [] else [ShowNotification title body icon tag]) @ [play_sound s2], s2))))"

definition showTorrentCompleteNotification ::
    "string \<Rightarrow> string option \<Rightarrow> time \<Rightarrow> platform \<Rightarrow> notify_state \<Rightarrow> notify_out list \<times> notify_state" where
  "showTorrentCompleteNotification name tid now p s =
     (let trimmed = js_trim name; displayName = (if trimmed = [] then ''Torrent'' else trimmed) in
      notify ''Torrent Complete'' (displayName @ '' has finished downloading'') (completionTag tid name now) p s)"

definition showKillSwitchNotification ::
    "string option \<Rightarrow> platform \<Rightarrow> notify_state \<Rightarrow> notify_out list \<times> notify_state" where
  "showKillSwitchNotification detail p s =
     notify ''Kill Switch Activated''
       (case detail of Some d \<Rightarrow> d
        | None \<Rightarrow> ''VPN not detected. Downloads/seeding stopped for privacy protection.'')
       ''kill-switch-activated'' p s"

definition showKillSwitchReleasedNotification :: "platform \<Rightarrow> notify_state \<Rightarrow> notify_out list \<times> notify_state" where
  "showKillSwitchReleasedNotification p s =
     notify ''Kill Switch Released'' ''VPN reconnected. You can resume torrents.'' ''kill-switch-released'' p s"

subsection \<open>Any sequence of notifications\<close>

datatype notice = Completed string "string option" time | KillSwitch "string option" | Released

definition show_notice :: "notice \<Rightarrow> platform \<Rightarrow> notify_state \<Rightarrow> notify_out list \<times> notify_state" where
  "show_notice n p s = (case n of
     Completed name tid now \<Rightarrow> showTorrentCompleteNotification name tid now p s
   | KillSwitch detail \<Rightarrow> showKillSwitchNotification detail p s
   | Released \<Rightarrow> showKillSwitchReleasedNotification p s)"

fun notices :: "(notice \<times> platform) list \<Rightarrow> notify_state \<Rightarrow> notify_out list \<times> notify_state" where
  "notices [] s = ([], s)"
| "notices ((n, p) # ns) s =
     (case show_notice n p s of (out, s1) \<Rightarrow> (case notices ns s1 of (out', s2) \<Rightarrow> (out @ out', s2)))"

definition asks :: "notify_out list \<Rightarrow> nat" where
  "asks out = length (filter (\<lambda>x. x = AskPermission) out)"

fun visible :: "notify_out \<Rightarrow> bool" where
  "visible AskPermission \<longleftrightarrow> False"
| "visible _ \<longleftrightarrow> True"

lemma asks_simps [simp]: "asks (xs @ ys) = asks xs + asks ys" "asks [] = 0"
    "asks (x # xs) = (if x = AskPermission then 1 else 0) + asks xs"
  by (simp_all add: asks_def)

lemma play_sound_no_ask [simp]: "play_sound s \<noteq> AskPermission"
  by (simp add: play_sound_def)

lemma notify_step:
  assumes "notify title body tag p s = (out, s')"
  shows "asks out \<le> (if ns_checked s then 0 else 1) \<and> (ns_checked s \<longrightarrow> ns_checked s' \<and> ns_granted s' = ns_granted s) \<and>
    (asks out = 1 \<longrightarrow> ns_checked s') \<and>
    ((\<exists>x \<in> set out. visible x) \<longrightarrow> ns_checked s' \<and> ns_granted s' \<and> getNotify (np_key p))"
proof -
  obtain asked granted s1 where e: "ensurePermission p s = (asked, granted, s1)" by (metis prod_cases3)
  have s1: "asks asked \<le> (if ns_checked s then 0 else 1)" "ns_checked s1" "ns_granted s1 = granted"
      "ns_checked s \<longrightarrow> s1 = s" "\<forall>x \<in> set asked. \<not> visible x"
    using e by (auto simp: ensurePermission_def Let_def asks_def split: if_splits sum.splits)
  obtain icon s2 where i: "getAppIconUrl p s1 = (icon, s2)" by (metis surj_pair)
  have s2: "ns_checked s2 = ns_checked s1" "ns_granted s2 = ns_granted s1"
    using i by (auto simp: getAppIconUrl_def Let_def split: option.splits)
  show ?thesis
    using assms s1 s2 by (cases "getNotify (np_key p)"; cases granted) (auto simp: notify_def e i split: if_splits)
qed

lemma show_notice_step:
  assumes "show_notice n p s = (out, s')"
  shows "asks out \<le> (if ns_checked s then 0 else 1) \<and> (ns_checked s \<longrightarrow> ns_checked s' \<and> ns_granted s' = ns_granted s) \<and>
    (asks out = 1 \<longrightarrow> ns_checked s') \<and>
    ((\<exists>x \<in> set out. visible x) \<longrightarrow> ns_checked s' \<and> ns_granted s' \<and> getNotify (np_key p))"
  using assms
  by (cases n) (simp_all add: show_notice_def showTorrentCompleteNotification_def
      showKillSwitchNotification_def showKillSwitchReleasedNotification_def Let_def notify_step)

lemma notices_step:
  "notices ns s = (out, s') \<Longrightarrow> asks out \<le> (if ns_checked s then 0 else 1) \<and>
    (ns_checked s \<longrightarrow> ns_checked s' \<and> ns_granted s' = ns_granted s) \<and>
    ((\<exists>x \<in> set out. visible x) \<longrightarrow> ns_granted s')"
proof (induction ns s arbitrary: out s' rule: notices.induct)
  case (2 n p ns s)
  obtain o1 s1 where a: "show_notice n p s = (o1, s1)" by (metis surj_pair)
  obtain o2 s2 where b: "notices ns s1 = (o2, s2)" by (metis surj_pair)
  have eq: "out = o1 @ o2" "s' = s2" using "2.prems" a b by simp_all
  note i = show_notice_step [OF a]
  have j: "asks o2 \<le> (if ns_checked s1 then 0 else 1)" "ns_checked s1 \<longrightarrow> ns_checked s2 \<and> ns_granted s2 = ns_granted s1"
      "(\<exists>x \<in> set o2. visible x) \<longrightarrow> ns_granted s2"
    using "2.IH" [OF a [symmetric] b] by blast+
  have "asks (o1 @ o2) \<le> (if ns_checked s then 0 else 1)"
    using i j(1) by (auto split: if_splits)
  moreover have "ns_checked s \<longrightarrow> ns_checked s2 \<and> ns_granted s2 = ns_granted s" using i j(2) by metis
  moreover have "(\<exists>x \<in> set (o1 @ o2). visible x) \<longrightarrow> ns_granted s2" using i j(2,3) by (metis Un_iff set_append)
  ultimately show ?case unfolding eq by blast
qed simp

text \<open>
  Further fact: over any sequence of notifications the user is asked for permission at most once, and nothing is
  shown or played unless the permission was found granted; what a switch in the settings turns off
  is neither shown nor played and does not even ask.
\<close>

theorem permission_asked_once:
  assumes "notices ns notify_init = (out, s')"
  shows "asks out \<le> 1 \<and> ((\<exists>x \<in> set out. visible x) \<longrightarrow> ns_granted s') \<and>
    (\<forall>n p s. \<not> getNotify (np_key p) \<longrightarrow> show_notice n p s = ([], s))"
proof -
  have "show_notice n p s = ([], s)" if "\<not> getNotify (np_key p)" for n p s
    using that by (cases n) (simp_all add: show_notice_def showTorrentCompleteNotification_def
      showKillSwitchNotification_def showKillSwitchReleasedNotification_def Let_def notify_def)
  then show ?thesis
    using notices_step [OF assms] by (simp add: notify_init_def)
qed

definition asking :: platform where
  "asking = \<lparr> np_key = Inr None, np_supported = True, np_permission = PermDefault, np_request = Inr PermGranted,
     np_icon = None, np_throws = False \<rparr>"

theorem permission_asked_once_witness:
  "asks (fst (notices [(Completed ''a'' (Some ''1'') 0, asking), (Released, asking)] notify_init)) \<le> 1"
proof -
  obtain out s' where "notices [(Completed ''a'' (Some ''1'') 0, asking), (Released, asking)] notify_init = (out, s')"
    by (metis surj_pair)
  with permission_asked_once [OF this] show ?thesis by simp
qed

text \<open>
  Further fact: one notification per torrent. The tag of a torrent with an id depends on the id alone; without
  an id it is made of at most 64 letters, digits, underscores and hyphens of the name, or of the time when
  none is left.
\<close>

theorem completion_tags:
  "(tid \<noteq> [] \<longrightarrow> completionTag (Some tid) n1 t1 = completionTag (Some tid) n2 t2) \<and>
   (\<exists>rest. completionTag None name now = ''torrent-complete-'' @ rest \<and>
      (rest = show_int now \<or> length rest \<le> 64 \<and> (\<forall>c \<in> set rest. tag_char c)))"
  by (auto simp: completionTag_def Let_def dest: in_set_takeD)

theorem completion_tags_witness:
  "completionTag (Some ''7'') ''a'' 1 = completionTag (Some ''7'') ''b'' 2"
  using completion_tags [of "''7''" "''a''" 1 "''b''" 2] by simp

end
