(* ===== verification/Format.thy ===== *)
theory Format
  imports Types
begin

text \<open>
  Text shown for sizes, rates, times and pieces (\<open>renderer/utils/format.ts\<close>,
  \<open>utils/useEmaEta.ts\<close>, \<open>utils/pieceVisualization.ts\<close>).

  Byte counts and rates are integers. Dividing an integer below \<open>2^53\<close> by 1024 is exact in
  the source's floating point, so the quotients are rationals here; \<open>toFixed\<close> rounds half
  up. The smoothing factor \<open>0.3\<close> is the rational \<open>3/10\<close>.
\<close>

subsection \<open>Sizes and rates\<close>

definition toFixed0 :: "rat \<Rightarrow> string" where
  "toFixed0 v = show_int \<lfloor>v + 1 / 2\<rfloor>"

definition toFixed1 :: "rat \<Rightarrow> string" where
  "toFixed1 v = (let n = \<lfloor>v * 10 + 1 / 2\<rfloor> in show_int (n div 10) @ ''.'' @ show_int (n mod 10))"

text \<open>The loop: at most \<open>left\<close> further units.\<close>

fun scale_units :: "nat \<Rightarrow> nat \<Rightarrow> rat \<Rightarrow> nat \<times> rat" where
  "scale_units 0 i v = (i, v)"
| "scale_units (Suc left) i v = (if v > 1024 then scale_units left (Suc i) (v / 1024) else (i, v))"

definition with_unit :: "string list \<Rightarrow> int \<Rightarrow> string" where
  "with_unit units n =
     (case scale_units (length units - 1) 0 (of_int n) of
        (i, v) \<Rightarrow> (if i = 0 then toFixed0 v else toFixed1 v) @ '' '' @ units ! i)"

definition byte_units :: "string list" where
  "byte_units = [''B'', ''KB'', ''MB'', ''GB'', ''TB'']"

definition rate_units :: "string list" where
  "rate_units = [''B/s'', ''KB/s'', ''MB/s'', ''GB/s'']"

definition fmtBytes :: "int \<Rightarrow> string" where
  "fmtBytes bytes = (if bytes < 1 then ''0 B'' else with_unit byte_units bytes)"

definition fmtBytesPerSec :: "int \<Rightarrow> string" where
  "fmtBytesPerSec bps = (if bps < 1 then ''0 B/s'' else with_unit rate_units bps)"

definition fmtPct :: "rat \<Rightarrow> string" where
  "fmtPct p = toFixed1 (max 0 (min 1 p) * 100) @ ''%''"

definition DOWN_ARROW :: string where "DOWN_ARROW = utf8 [226, 134, 147]"
definition UP_ARROW :: string where "UP_ARROW = utf8 [226, 134, 145]"
definition DASH :: string where "DASH = utf8 [226, 128, 148]"
definition INFINITY_SIGN :: string where "INFINITY_SIGN = utf8 [226, 136, 158]"

definition fmtSpeedDownUp :: "int \<Rightarrow> int \<Rightarrow> string" where
  "fmtSpeedDownUp downBps upBps =
     (let down = DOWN_ARROW @ '' '' @ fmtBytesPerSec downBps; up = UP_ARROW @ '' '' @ fmtBytesPerSec upBps in
      if downBps > 0 \<and> upBps > 0 then down @ '' '' @ up
      else if downBps > 0 then down
      else if upBps > 0 then up
      else DASH)"

definition fmtPeersSeeds :: "int \<Rightarrow> int option \<Rightarrow> string" where
  "fmtPeersSeeds peers seeds =
     (if peers = 0 \<and> (seeds = None \<or> seeds = Some 0) then ''0''
      else (case seeds of
          Some s \<Rightarrow> if s > 0 then show_int peers @ '' ('' @ show_int s @ '')'' else show_int peers
        | None \<Rightarrow> show_int peers))"

definition fmtSizeProgress :: "int \<Rightarrow> int \<Rightarrow> string" where
  "fmtSizeProgress downloadedBytes totalBytes =
     (if totalBytes = 0 then ''Downloading metadata...''
      else fmtBytes downloadedBytes @ '' / '' @ fmtBytes totalBytes)"

subsection \<open>Times\<close>

definition getEffectiveEta :: "int option \<Rightarrow> string option \<Rightarrow> int \<Rightarrow> int \<Rightarrow> int \<Rightarrow> int option" where
  "getEffectiveEta eta_sec state total_bytes downloaded_bytes down_rate_bps =
     (let backend = (case eta_sec of Some e \<Rightarrow> if e > 0 then Some e else None | None \<Rightarrow> None) in
      if state = Some ''downloading'' \<and> total_bytes > 0 \<and> downloaded_bytes < total_bytes \<and> down_rate_bps > 0
      then
        (let sec = ceil_div (total_bytes - downloaded_bytes) down_rate_bps in
         if sec > 0 then Some sec else backend)
      else backend)"

definition hms :: "int \<Rightarrow> string" where
  "hms s = (let h = s div 3600; m = (s mod 3600) div 60; ss = s mod 60 in
     if h > 0 then show_int h @ ''h '' @ show_int m @ ''m''
     else if m > 0 then show_int m @ ''m '' @ show_int ss @ ''s''
     else show_int ss @ ''s'')"

definition fmtEta :: "int option \<Rightarrow> string option \<Rightarrow> string" where
  "fmtEta sec state =
     (if state = Some ''checking'' then ''Checking...''
      else if state = Some ''seeding'' \<or> state = Some ''complete'' then ''Seeding''
      else if state = Some ''stopped'' \<or> state = Some ''paused'' then DASH
      else if state = Some ''error'' then DASH
      else (case sec of
          None \<Rightarrow> INFINITY_SIGN
        | Some n \<Rightarrow> if n \<le> 0 then INFINITY_SIGN else hms (min n (999 * 3600))))"

definition fmtTimeElapsed :: "time \<Rightarrow> time \<Rightarrow> string" where
  "fmtTimeElapsed now addedAtMs =
     (if addedAtMs \<le> 0 then DASH
      else
        (let elapsedSec = (now - addedAtMs) div 1000 in
         if elapsedSec < 60 then ''Just started''
         else
           (let h = elapsedSec div 3600; m = (elapsedSec mod 3600) div 60; s = elapsedSec mod 60;
                d = h div 24; hours = h mod 24 in
            if d > 0 then show_int d @ ''d '' @ show_int hours @ ''h''
            else if h > 0 then show_int h @ ''h '' @ show_int m @ ''m''
            else if m > 0 then show_int m @ ''m '' @ show_int s @ ''s''
            else show_int s @ ''s'')))"

subsection \<open>The smoothed rate\<close>

definition MIN_RATE_BPS :: rat where "MIN_RATE_BPS = 100"
definition EMA_ALPHA :: rat where "EMA_ALPHA = 3 / 10"

text \<open>\<open>em_deps\<close> holds the dependencies the rate effect last ran with.\<close>

record ema =
  em_deps :: "(int \<times> string) option"
  em_smoothedRate :: rat
  em_lastRate :: rat
  em_lastEta :: "int option"
  em_eta :: "int option"

definition ema_init :: ema where
  "ema_init = \<lparr> em_deps = None, em_smoothedRate = 0, em_lastRate = 0, em_lastEta = None, em_eta = None \<rparr>"

text \<open>The effects of the hook: a new rate or state, a new remainder, a tick of the timer.\<close>

definition ema_rate :: "int \<Rightarrow> string \<Rightarrow> ema \<Rightarrow> ema" where
  "ema_rate currentRateBps state e =
     (if state \<noteq> ''downloading'' \<or> currentRateBps \<le> 0 then e\<lparr> em_smoothedRate := 0, em_lastRate := 0 \<rparr>
      else
        (let newRate = (if em_lastRate e = 0 then of_int currentRateBps
             else EMA_ALPHA * of_int currentRateBps + (1 - EMA_ALPHA) * em_lastRate e) in
         e\<lparr> em_lastRate := newRate, em_smoothedRate := newRate \<rparr>))"

text \<open>React runs the rate effect after a render only when one of its dependencies changed.\<close>

definition ema_render :: "int \<Rightarrow> string \<Rightarrow> ema \<Rightarrow> ema" where
  "ema_render currentRateBps state e =
     (if em_deps e = Some (currentRateBps, state) then e
      else (ema_rate currentRateBps state e)\<lparr> em_deps := Some (currentRateBps, state) \<rparr>)"

definition ema_eta :: "int \<Rightarrow> int \<Rightarrow> string \<Rightarrow> ema \<Rightarrow> ema" where
  "ema_eta downloadedBytes totalBytes state e =
     (if state \<noteq> ''downloading'' \<or> totalBytes = 0 \<or> downloadedBytes \<ge> totalBytes
         \<or> em_smoothedRate e < MIN_RATE_BPS then e\<lparr> em_lastEta := None \<rparr>
      else
        (let etaSeconds = \<lceil>of_int (totalBytes - downloadedBytes) / em_smoothedRate e\<rceil> in
         e\<lparr> em_lastEta := (if etaSeconds > 0 then Some etaSeconds else None) \<rparr>))"

definition ema_tick :: "ema \<Rightarrow> ema" where
  "ema_tick e = e\<lparr> em_eta := em_lastEta e \<rparr>"

subsection \<open>Pieces\<close>

record piece_data =
  pd_index :: nat
  pd_completed :: bool
  pd_downloading :: bool
  pd_missing :: bool

definition calculatePieceStates :: "nat \<Rightarrow> int \<Rightarrow> nat set \<Rightarrow> piece_data list" where
  "calculatePieceStates totalPieces completedPieces downloadingPieces =
     map (\<lambda>i. let completed = (int i < completedPieces); downloading = (i \<in> downloadingPieces) in
       \<lparr> pd_index = i, pd_completed = completed, pd_downloading = downloading,
         pd_missing = (\<not> completed \<and> \<not> downloading) \<rparr>) [0..<totalPieces]"

definition estimatePiecesFromProgress :: "rat \<Rightarrow> nat \<Rightarrow> piece_data list" where
  "estimatePiecesFromProgress progress estimatedTotalPieces =
     calculatePieceStates estimatedTotalPieces \<lfloor>progress * of_nat estimatedTotalPieces\<rfloor> {}"

subsection \<open>Sizes are shown in the right unit\<close>

lemma scale_units_spec:
  assumes "scale_units left i v = (j, w)" "v > 0" "i > 0 \<longrightarrow> v > 1"
  shows "i \<le> j \<and> j \<le> i + left \<and> w * 1024 ^ (j - i) = v \<and> (j < i + left \<longrightarrow> w \<le> 1024) \<and>
    (j > 0 \<longrightarrow> w > 1)"
  using assms
proof (induction left i v rule: scale_units.induct)
  case (2 left i v)
  show ?case
  proof (cases "v > 1024")
    case True
    with "2.prems" have s: "scale_units left (Suc i) (v / 1024) = (j, w)" "v / 1024 > 0" "v / 1024 > 1"
      by (auto simp: field_simps)
    with "2.IH" [OF True s(1,2)]
    have r: "Suc i \<le> j \<and> j \<le> Suc i + left \<and> w * 1024 ^ (j - Suc i) = v / 1024 \<and>
        (j < Suc i + left \<longrightarrow> w \<le> 1024) \<and> (j > 0 \<longrightarrow> w > 1)" by blast
    then have "j - i = Suc (j - Suc i)" by linarith
    with r show ?thesis by (simp add: field_simps)
  next
    case False
    with "2.prems" show ?thesis by auto
  qed
qed auto

text \<open>
  Further fact: the unit of a size. The number shown, times the power of 1024 of its unit, is
  the byte count; it is above 1 in every unit but bytes and at most 1024 below terabytes. (The loop
  compares with \<open>>\<close>, so a full kilobyte is still shown as 1024 bytes.) The one decimal shown
  is within a twentieth.
\<close>

theorem size_unit_choice:
  assumes "1 \<le> n"
  shows "(\<exists>i v. i < length byte_units \<and>
      fmtBytes n = (if i = 0 then toFixed0 v else toFixed1 v) @ '' '' @ byte_units ! i \<and>
      v * 1024 ^ i = of_int n \<and> (i < 4 \<longrightarrow> v \<le> 1024) \<and> (i > 0 \<longrightarrow> v > 1) \<and>
      \<bar>of_int \<lfloor>v * 10 + 1 / 2\<rfloor> / 10 - v\<bar> \<le> 1 / 20) \<and>
    fmtBytes 1024 = ''1024 B''"
proof
  obtain i v where s: "scale_units 4 0 (of_int n) = (i, v)" by (metis surj_pair)
  have "(0 :: rat) < of_int n" using assms by simp
  from scale_units_spec [OF s this] have r: "i \<le> 4" "v * 1024 ^ i = of_int n"
      "i < 4 \<longrightarrow> v \<le> 1024" "i > 0 \<longrightarrow> v > 1"
    by simp_all
  have "fmtBytes n = (if i = 0 then toFixed0 v else toFixed1 v) @ '' '' @ byte_units ! i"
  proof -
    have "length byte_units - 1 = 4" by (simp add: byte_units_def)
    with assms s show ?thesis by (simp add: fmtBytes_def with_unit_def del: scale_units.simps)
  qed
  moreover have "\<bar>of_int \<lfloor>v * 10 + 1 / 2\<rfloor> / 10 - v\<bar> \<le> 1 / 20"
  proof -
    define z :: rat where "z = of_int \<lfloor>v * 10 + 1 / 2\<rfloor>"
    have "z \<le> v * 10 + 1 / 2" "v * 10 + 1 / 2 < z + 1"
      using floor_correct [of "v * 10 + 1 / 2"] by (simp_all add: z_def)
    then have "\<bar>z / 10 - v\<bar> \<le> 1 / 20" by linarith
    then show ?thesis by (simp add: z_def)
  qed
  ultimately show "\<exists>i v. i < length byte_units \<and>
      fmtBytes n = (if i = 0 then toFixed0 v else toFixed1 v) @ '' '' @ byte_units ! i \<and>
      v * 1024 ^ i = of_int n \<and> (i < 4 \<longrightarrow> v \<le> 1024) \<and> (i > 0 \<longrightarrow> v > 1) \<and>
      \<bar>of_int \<lfloor>v * 10 + 1 / 2\<rfloor> / 10 - v\<bar> \<le> 1 / 20"
    using r by (intro exI [of _ i] exI [of _ v]) (simp add: byte_units_def)
  show "fmtBytes 1024 = ''1024 B''"
  proof -
    have "show_nat 1024 = ''1024''" by code_simp
    moreover have "\<lfloor>1024 + 1 / 2 :: rat\<rfloor> = 1024" by (simp add: floor_eq_iff)
    moreover have "scale_units (length byte_units - 1) 0 (of_int 1024) = (0, 1024)"
      by (simp add: byte_units_def)
    ultimately show ?thesis
      by (simp add: fmtBytes_def with_unit_def toFixed0_def byte_units_def)
  qed
qed

theorem size_unit_choice_witness: "fmtBytes 1024 = ''1024 B''"
  using size_unit_choice [of 1] by simp

text \<open>
  Further fact: the remaining time. While a torrent downloads with something left and
  a positive rate, the time shown is the least number of seconds that suffices at that rate, whatever the
  daemon reports; otherwise it is the daemon's figure, and only a positive one.
\<close>

theorem effective_eta:
  "(state = Some ''downloading'' \<and> 0 < whole \<and> downloaded < whole \<and> 0 < rate \<longrightarrow>
      (\<exists>sec. getEffectiveEta eta state whole downloaded rate = Some sec \<and> 0 < sec \<and>
        whole - downloaded \<le> sec * rate \<and> (sec - 1) * rate < whole - downloaded)) \<and>
   (\<not> (state = Some ''downloading'' \<and> 0 < whole \<and> downloaded < whole \<and> 0 < rate) \<longrightarrow>
      getEffectiveEta eta state whole downloaded rate =
        (case eta of Some e \<Rightarrow> if e > 0 then Some e else None | None \<Rightarrow> None))"
proof (intro conjI impI)
  assume a: "state = Some ''downloading'' \<and> 0 < whole \<and> downloaded < whole \<and> 0 < rate"
  then have "0 < ceil_div (whole - downloaded) rate" by (intro ceil_div_pos) simp_all
  with a ceil_div_bounds [of rate "whole - downloaded"]
  show "\<exists>sec. getEffectiveEta eta state whole downloaded rate = Some sec \<and> 0 < sec \<and>
        whole - downloaded \<le> sec * rate \<and> (sec - 1) * rate < whole - downloaded"
    by (simp add: getEffectiveEta_def Let_def)
qed (auto simp: getEffectiveEta_def Let_def)

theorem effective_eta_witness:
  "\<exists>sec. getEffectiveEta None (Some ''downloading'') 1000 1 100 = Some sec \<and> 0 < sec \<and>
     1000 - 1 \<le> sec * 100 \<and> (sec - 1) * 100 < 1000 - (1 :: int)"
  using effective_eta [of "Some ''downloading''" 1000 1 100 None] by simp

subsection \<open>Smoothing\<close>

lemma ema_rate_bounds:
  assumes "0 < lo" "lo \<le> of_int r" "of_int r \<le> hi"
    "em_lastRate e = 0 \<or> lo \<le> em_lastRate e \<and> em_lastRate e \<le> hi"
  shows "lo \<le> em_lastRate (ema_rate r ''downloading'' e) \<and> em_lastRate (ema_rate r ''downloading'' e) \<le> hi \<and>
    em_smoothedRate (ema_rate r ''downloading'' e) = em_lastRate (ema_rate r ''downloading'' e)"
proof -
  have "0 < r" using assms(1,2) by (metis less_le_trans of_int_0_less_iff)
  moreover have "lo \<le> 3 / 10 * of_int r + 7 / 10 * em_lastRate e"
      "3 / 10 * of_int r + 7 / 10 * em_lastRate e \<le> hi" if "em_lastRate e \<noteq> 0"
    using assms that by auto
  ultimately show ?thesis
    using assms by (auto simp: ema_rate_def EMA_ALPHA_def Let_def)
qed

lemma ema_render_bounds:
  assumes "0 < lo" "lo \<le> of_int r" "of_int r \<le> hi"
    "em_smoothedRate e = em_lastRate e \<and> lo \<le> em_lastRate e \<and> em_lastRate e \<le> hi
      \<or> em_lastRate e = 0 \<and> em_deps e \<noteq> Some (r, ''downloading'')"
  shows "em_smoothedRate (ema_render r ''downloading'' e) = em_lastRate (ema_render r ''downloading'' e) \<and>
    lo \<le> em_lastRate (ema_render r ''downloading'' e) \<and> em_lastRate (ema_render r ''downloading'' e) \<le> hi"
  using assms ema_rate_bounds [of lo r hi e] by (auto simp: ema_render_def)

lemma ema_renders_bounds:
  assumes "0 < lo" "\<forall>r \<in> set rs. lo \<le> of_int r \<and> of_int r \<le> hi"
    "em_smoothedRate e = em_lastRate e \<and> lo \<le> em_lastRate e \<and> em_lastRate e \<le> hi"
  shows "let e' = fold (\<lambda>r. ema_render r ''downloading'') rs e in
    em_smoothedRate e' = em_lastRate e' \<and> lo \<le> em_lastRate e' \<and> em_lastRate e' \<le> hi"
  using assms(2,3)
proof (induction rs arbitrary: e)
  case (Cons r rs)
  have "lo \<le> of_int r" "of_int r \<le> hi" using Cons.prems(1) by simp_all
  from ema_render_bounds [OF assms(1) this, of e] Cons.prems(2)
  have "em_smoothedRate (ema_render r ''downloading'' e) = em_lastRate (ema_render r ''downloading'' e) \<and>
      lo \<le> em_lastRate (ema_render r ''downloading'' e) \<and> em_lastRate (ema_render r ''downloading'' e) \<le> hi"
    by blast
  from Cons.IH [OF _ this] Cons.prems(1) show ?case by simp
qed simp

text \<open>
  Further fact: the smoothed rate stays among the observed ones. From a fresh hook, after
  any renders with rates between \<open>lo\<close> and \<open>hi\<close>, the smoothed rate lies between them, and so does
  the estimate: it is the rounded-up quotient by that rate, unless the rate is below 100 bytes per
  second.
\<close>

theorem smoothed_rate_bounded:
  assumes "0 < lo" "\<forall>r \<in> set (r0 # rs). lo \<le> of_int r \<and> of_int r \<le> hi"
    "downloaded < whole" "whole \<noteq> 0"
  shows "let e = fold (\<lambda>r. ema_render r ''downloading'') (r0 # rs) ema_init;
        rate = em_smoothedRate e in
      lo \<le> rate \<and> rate \<le> hi \<and>
      em_eta (ema_tick (ema_eta downloaded whole ''downloading'' e)) =
        (if rate < 100 then None else Some \<lceil>of_int (whole - downloaded) / rate\<rceil>)"
proof -
  let ?e1 = "ema_render r0 ''downloading'' ema_init"
  have "em_smoothedRate ?e1 = em_lastRate ?e1 \<and> lo \<le> em_lastRate ?e1 \<and> em_lastRate ?e1 \<le> hi"
    using assms(1,2) by (intro ema_render_bounds) (simp_all add: ema_init_def)
  from ema_renders_bounds [OF assms(1) _ this, of rs] assms(2)
  have b: "lo \<le> em_smoothedRate (fold (\<lambda>r. ema_render r ''downloading'') (r0 # rs) ema_init) \<and>
      em_smoothedRate (fold (\<lambda>r. ema_render r ''downloading'') (r0 # rs) ema_init) \<le> hi"
    by (simp add: Let_def)
  moreover have "0 < \<lceil>of_int (whole - downloaded) / rate\<rceil>" if "lo \<le> rate" for rate :: rat
    using that assms(1,3) by (simp add: zero_less_ceiling)
  ultimately show ?thesis
    using assms(3,4) by (auto simp: Let_def ema_tick_def ema_eta_def MIN_RATE_BPS_def)
qed

theorem smoothed_rate_bounded_witness:
  "(200 :: rat) \<le> em_smoothedRate (fold (\<lambda>r. ema_render r ''downloading'') [200, 400, 300] ema_init)"
  using smoothed_rate_bounded [of 200 200 "[400, 300]" 400 0 1000] by (simp add: Let_def)

text \<open>
  Further fact: smoothing stops when the rate is steady. The effect depends on the rate's
  value, so renders that report the same rate again do not feed the average: after a
  jump from \<open>a\<close> to a steady \<open>b\<close> the smoothed rate stays at \<open>0.3 b + 0.7 a\<close> for ever instead of
  approaching \<open>b\<close>.
\<close>

theorem steady_rate_is_not_smoothed:
  assumes "0 < a" "0 < b" "a \<noteq> b"
  shows "em_smoothedRate (((\<lambda>e. ema_render b ''downloading'' e) ^^ Suc n) (ema_render a ''downloading'' ema_init))
    = 3 / 10 * of_int b + 7 / 10 * of_int a"
proof -
  let ?e = "ema_render b ''downloading'' (ema_render a ''downloading'' ema_init)"
  have "ema_render b ''downloading'' ?e = ?e" by (simp add: ema_render_def)
  then have "((\<lambda>e. ema_render b ''downloading'' e) ^^ n) ?e = ?e" by (induction n) simp_all
  moreover have "em_smoothedRate ?e = 3 / 10 * of_int b + 7 / 10 * of_int a"
    using assms by (simp add: ema_render_def ema_rate_def ema_init_def EMA_ALPHA_def Let_def)
  ultimately show ?thesis by (simp only: funpow_Suc_right comp_def)
qed

theorem steady_rate_is_not_smoothed_witness:
  "em_smoothedRate (((\<lambda>e. ema_render 100000 ''downloading'' e) ^^ Suc 500)
     (ema_render 1000 ''downloading'' ema_init)) = 3 / 10 * of_int 100000 + 7 / 10 * of_int 1000"
  by (rule steady_rate_is_not_smoothed) simp_all

subsection \<open>Pieces\<close>

text \<open>
  Further fact: the piece map. It has one entry per piece, in order; when no piece beyond the completed
  ones is out of range, each is completed, downloading or missing, a piece is missing exactly when it
  is neither of the others, and the completed ones are the first \<open>min completed whole\<close>.
\<close>

theorem piece_map:
  "let ps = calculatePieceStates whole completed downloading in
   map pd_index ps = [0..<whole] \<and>
   (\<forall>p \<in> set ps. pd_missing p \<longleftrightarrow> \<not> pd_completed p \<and> \<not> pd_downloading p) \<and>
   (\<forall>p \<in> set ps. pd_downloading p \<longleftrightarrow> pd_index p \<in> downloading) \<and>
   length (filter pd_completed ps) = min (nat completed) whole"
proof -
  have "length (filter (\<lambda>i. int i < completed) [0..<n]) = min (nat completed) n" for n
    by (induction n) (auto simp: min_def)
  then show ?thesis
    by (simp add: calculatePieceStates_def Let_def comp_def filter_map map_idI)
qed

theorem piece_map_witness:
  "length (filter pd_completed (calculatePieceStates 5 3 {4})) = 3"
  using piece_map [of 5 3 "{4}"] by (simp add: Let_def)

end
