(* ===== verification/Policy.thy ===== *)
theory Policy
  imports Errors Types
begin

text \<open>
  The policy the page expresses (\<open>renderer/utils/usePolicy.ts\<close>, \<open>renderer/types/policy.ts\<close>) and
  the two handlers of \<open>components/SecuritySettings.tsx\<close>. The daemon computes the effective
  policy; its replies are arguments. The callbacks of the hook close over the state of the
  render that made them, so that state is an argument (\<open>rendered\<close>) beside the current one.
\<close>

subsection \<open>Orders\<close>

text \<open>The levels are ordered by how much they protect.\<close>

instantiation tri_state :: linorder
begin

definition less_eq_tri_state :: "tri_state \<Rightarrow> tri_state \<Rightarrow> bool" where
  "less_eq_tri_state a b \<longleftrightarrow> a = TriOff \<or> b = TriRequire \<or> a = b"

definition less_tri_state :: "tri_state \<Rightarrow> tri_state \<Rightarrow> bool" where
  "less_tri_state a b \<longleftrightarrow> a \<le> b \<and> a \<noteq> b"

instance
proof
  fix a b c :: tri_state
  show "a < b \<longleftrightarrow> a \<le> b \<and> \<not> b \<le> a"
    by (cases a; cases b) (simp_all add: less_tri_state_def less_eq_tri_state_def)
  show "a \<le> a" by (simp add: less_eq_tri_state_def)
  show "a \<le> b \<Longrightarrow> b \<le> c \<Longrightarrow> a \<le> c"
    by (cases a; cases b; cases c) (simp_all add: less_eq_tri_state_def)
  show "a \<le> b \<Longrightarrow> b \<le> a \<Longrightarrow> a = b"
    by (cases a; cases b) (simp_all add: less_eq_tri_state_def)
  show "a \<le> b \<or> b \<le> a"
    by (cases a; cases b) (simp_all add: less_eq_tri_state_def)
qed

end

instantiation padding_level :: linorder
begin

definition less_eq_padding_level :: "padding_level \<Rightarrow> padding_level \<Rightarrow> bool" where
  "less_eq_padding_level a b \<longleftrightarrow> a = PadOff \<or> b = PadHigh \<or> a = b"

definition less_padding_level :: "padding_level \<Rightarrow> padding_level \<Rightarrow> bool" where
  "less_padding_level a b \<longleftrightarrow> a \<le> b \<and> a \<noteq> b"

instance
proof
  fix a b c :: padding_level
  show "a < b \<longleftrightarrow> a \<le> b \<and> \<not> b \<le> a"
    by (cases a; cases b) (simp_all add: less_padding_level_def less_eq_padding_level_def)
  show "a \<le> a" by (simp add: less_eq_padding_level_def)
  show "a \<le> b \<Longrightarrow> b \<le> c \<Longrightarrow> a \<le> c"
    by (cases a; cases b; cases c) (simp_all add: less_eq_padding_level_def)
  show "a \<le> b \<Longrightarrow> b \<le> a \<Longrightarrow> a = b"
    by (cases a; cases b) (simp_all add: less_eq_padding_level_def)
  show "a \<le> b \<or> b \<le> a"
    by (cases a; cases b) (simp_all add: less_eq_padding_level_def)
qed

end

subsection \<open>State of the daemon's policy\<close>

record effective_policy =
  ep_desired :: desired_policy
  ep_network_allowed :: bool
  ep_discovery_allowed :: bool
  ep_direct_peer_allowed :: bool

datatype warning_severity = WarnInfo | WarnWarn | WarnBlock

record policy_warning =
  pw_code :: string
  pw_message :: string
  pw_severity :: warning_severity

record toggle_disabled =
  td_disabled :: bool
  td_reason :: "string option"

record policy_state =
  ps_desired :: desired_policy
  ps_effective :: effective_policy
  ps_warnings :: "policy_warning list"
  ps_disabled :: "(string \<times> toggle_disabled) list"
  ps_version :: nat
  ps_lastUpdatedMs :: time

text \<open>A field of a \<open>Partial<DesiredPolicy>\<close>; the object has each field at most once.\<close>

datatype policy_field =
    Set_anonymous_mode bool
  | Set_peer_encryption tri_state
  | Set_dht_hardening bool
  | Set_enforce_private_torrents bool
  | Set_ip_blocklist bool
  | Set_kill_switch bool
  | Set_bind_interface_only bool
  | Set_overlay_padding padding_level
  | Set_sybil_resistance bool
  | Set_relay_pow_required bool
  | Set_relay_subnet_diversity bool
  | Set_relay_reputation_weighting bool
  | Set_ipv6_enabled bool
  | Set_upnp_natpmp_enabled bool
  | Set_circuit_rotation_enabled bool
  | Set_deny_direct_exits bool
  | Set_minimize_fingerprinting bool
  | Set_profile "policy_profile option"

fun set_field :: "policy_field \<Rightarrow> desired_policy \<Rightarrow> desired_policy" where
  "set_field (Set_anonymous_mode v) p = p\<lparr> dp_anonymous_mode := v \<rparr>"
| "set_field (Set_peer_encryption v) p = p\<lparr> dp_peer_encryption := v \<rparr>"
| "set_field (Set_dht_hardening v) p = p\<lparr> dp_dht_hardening := v \<rparr>"
| "set_field (Set_enforce_private_torrents v) p = p\<lparr> dp_enforce_private_torrents := v \<rparr>"
| "set_field (Set_ip_blocklist v) p = p\<lparr> dp_ip_blocklist := v \<rparr>"
| "set_field (Set_kill_switch v) p = p\<lparr> dp_kill_switch := v \<rparr>"
| "set_field (Set_bind_interface_only v) p = p\<lparr> dp_bind_interface_only := v \<rparr>"
| "set_field (Set_overlay_padding v) p = p\<lparr> dp_overlay_padding := v \<rparr>"
| "set_field (Set_sybil_resistance v) p = p\<lparr> dp_sybil_resistance := v \<rparr>"
| "set_field (Set_relay_pow_required v) p = p\<lparr> dp_relay_pow_required := v \<rparr>"
| "set_field (Set_relay_subnet_diversity v) p = p\<lparr> dp_relay_subnet_diversity := v \<rparr>"
| "set_field (Set_relay_reputation_weighting v) p = p\<lparr> dp_relay_reputation_weighting := v \<rparr>"
| "set_field (Set_ipv6_enabled v) p = p\<lparr> dp_ipv6_enabled := v \<rparr>"
| "set_field (Set_upnp_natpmp_enabled v) p = p\<lparr> dp_upnp_natpmp_enabled := v \<rparr>"
| "set_field (Set_circuit_rotation_enabled v) p = p\<lparr> dp_circuit_rotation_enabled := v \<rparr>"
| "set_field (Set_deny_direct_exits v) p = p\<lparr> dp_deny_direct_exits := v \<rparr>"
| "set_field (Set_minimize_fingerprinting v) p = p\<lparr> dp_minimize_fingerprinting := v \<rparr>"
| "set_field (Set_profile v) p = p\<lparr> dp_profile := v \<rparr>"

text \<open>\<open>{ ...state.desired, ...patch }\<close>.\<close>

definition merge_patch :: "policy_field list \<Rightarrow> desired_policy \<Rightarrow> desired_policy" where
  "merge_patch patch desired = fold set_field patch desired"

definition profile_policy :: "policy_profile \<Rightarrow> desired_policy" where
  "profile_policy profile =
     \<lparr> dp_anonymous_mode = (profile = ProfileAnonymous),
       dp_peer_encryption = (if profile = ProfileStandard then TriPrefer else TriRequire),
       dp_dht_hardening = (profile \<noteq> ProfileStandard),
       dp_enforce_private_torrents = True,
       dp_ip_blocklist = (profile \<noteq> ProfileStandard),
       dp_kill_switch = (profile \<noteq> ProfileStandard),
       dp_bind_interface_only = (profile \<noteq> ProfileStandard),
       dp_overlay_padding = (if profile = ProfileAnonymous then PadLow
         else if profile = ProfileHardened then PadLow else PadOff),
       dp_sybil_resistance = (profile \<noteq> ProfileStandard),
       dp_relay_pow_required = (profile \<noteq> ProfileStandard),
       dp_relay_subnet_diversity = (profile \<noteq> ProfileStandard),
       dp_relay_reputation_weighting = (profile \<noteq> ProfileStandard),
       dp_ipv6_enabled = (profile \<noteq> ProfileAnonymous),
       dp_upnp_natpmp_enabled = (profile \<noteq> ProfileAnonymous),
       dp_circuit_rotation_enabled = (profile = ProfileAnonymous),
       dp_deny_direct_exits = (profile = ProfileAnonymous),
       dp_minimize_fingerprinting = (profile = ProfileAnonymous),
       dp_profile = Some profile \<rparr>"

subsection \<open>The hook\<close>

record policy_hook =
  ph_state :: "policy_state option"
  ph_error :: "string option"
  ph_loading :: bool

definition policy_hook_init :: policy_hook where
  "policy_hook_init = \<lparr> ph_state = None, ph_error = None, ph_loading = False \<rparr>"



definition policy_refresh :: "bool \<Rightarrow> thrown + policy_state \<Rightarrow> policy_hook \<Rightarrow> policy_hook" where
  "policy_refresh online reply h =
     (if \<not> online then h\<lparr> ph_state := None \<rparr>
      else (case reply of
          Inr s \<Rightarrow> h\<lparr> ph_error := None, ph_state := Some s \<rparr>
        | Inl e \<Rightarrow> h\<lparr> ph_error := Some (message_or ''Failed to load policy'' e) \<rparr>))"

text \<open>
  What a caller of \<open>update\<close> and \<open>applyProfile\<close> gets: \<open>undefined\<close>, a new state or the exception.
\<close>

datatype policy_result = Undefined | Updated policy_state | Threw thrown

text \<open>
  The common body: send \<open>desired\<close> as \<open>desired_patch\<close>; \<open>reply\<close> answers the \<open>PATCH\<close>, \<open>again\<close> the
  refresh after a failure. The first component of the result is the request.
\<close>

definition send_policy ::
    "string \<Rightarrow> bool \<Rightarrow> desired_policy \<Rightarrow> thrown + policy_state \<Rightarrow> thrown + policy_state \<Rightarrow>
      policy_hook \<Rightarrow> desired_policy option \<times> policy_result \<times> policy_hook" where
  "send_policy fallback online desired reply again h =
     (let h1 = h\<lparr> ph_loading := True, ph_error := None \<rparr> in
      case reply of
        Inr s \<Rightarrow> (Some desired, Updated s, h1\<lparr> ph_state := Some s, ph_loading := False \<rparr>)
      | Inl e \<Rightarrow>
          (let h2 = policy_refresh online again (h1\<lparr> ph_error := Some (message_or fallback e) \<rparr>) in
           (Some desired, Threw e, h2\<lparr> ph_loading := False \<rparr>)))"

definition policy_update ::
    "bool \<Rightarrow> policy_state option \<Rightarrow> policy_field list \<Rightarrow> thrown + policy_state \<Rightarrow> thrown + policy_state \<Rightarrow>
      policy_hook \<Rightarrow> desired_policy option \<times> policy_result \<times> policy_hook" where
  "policy_update online rendered patch reply again h = (case rendered of
     None \<Rightarrow> (None, Undefined, h)
   | Some s \<Rightarrow>
       if \<not> online then (None, Undefined, h)
       else send_policy ''Failed to update policy'' online (merge_patch patch (ps_desired s)) reply again h)"

definition applyProfile ::
    "bool \<Rightarrow> policy_profile \<Rightarrow> thrown + policy_state \<Rightarrow> thrown + policy_state \<Rightarrow>
      policy_hook \<Rightarrow> desired_policy option \<times> policy_result \<times> policy_hook" where
  "applyProfile online profile reply again h =
     (if \<not> online then (None, Undefined, h)
      else send_policy ''Failed to apply profile'' online (profile_policy profile) reply again h)"

subsection \<open>The handlers of the settings page\<close>

datatype settings_toast = SettingsSuccess string | SettingsError string

definition handleToggle :: "policy_field \<Rightarrow> bool \<Rightarrow> policy_state option \<Rightarrow> thrown + policy_state \<Rightarrow>
    thrown + policy_state \<Rightarrow> policy_hook \<Rightarrow> settings_toast list \<times> policy_hook" where
  "handleToggle field online rendered reply again h =
     (if rendered = None then ([], h)
      else (case policy_update online rendered [field] reply again h of
          (_, Updated s, h') \<Rightarrow> ([SettingsSuccess ''Policy updated''], h')
        | (_, Undefined, h') \<Rightarrow> ([], h')
        | (_, Threw e, h') \<Rightarrow> ([SettingsError (message_or ''Failed to update policy'' e)], h')))"

definition profile_name :: "policy_profile \<Rightarrow> string" where
  "profile_name p = (case p of ProfileStandard \<Rightarrow> ''standard'' | ProfileHardened \<Rightarrow> ''hardened''
     | ProfileAnonymous \<Rightarrow> ''anonymous'')"

definition handleProfileChange :: "policy_profile \<Rightarrow> bool \<Rightarrow> thrown + policy_state \<Rightarrow>
    thrown + policy_state \<Rightarrow> policy_hook \<Rightarrow> settings_toast list \<times> policy_hook" where
  "handleProfileChange profile online reply again h =
     (case applyProfile online profile reply again h of
        (_, Threw e, h') \<Rightarrow> ([SettingsError (message_or ''Failed to apply profile'' e)], h')
      | (_, _, h') \<Rightarrow> ([SettingsSuccess (''Applied '' @ profile_name profile @ '' profile'')], h'))"

definition isDisabled :: "policy_state \<Rightarrow> string \<Rightarrow> bool" where
  "isDisabled s key = (case map_of (ps_disabled s) key of Some t \<Rightarrow> td_disabled t | None \<Rightarrow> False)"

definition getDisabledReason :: "policy_state \<Rightarrow> string \<Rightarrow> string option" where
  "getDisabledReason s key = (case map_of (ps_disabled s) key of Some t \<Rightarrow> td_reason t | None \<Rightarrow> None)"

subsection \<open>Profiles get stricter\<close>

text \<open>\<open>at_least q p\<close>: no protection of \<open>p\<close> is weaker or missing in \<open>q\<close>.\<close>

definition at_least :: "desired_policy \<Rightarrow> desired_policy \<Rightarrow> bool" where
  "at_least q p \<longleftrightarrow>
     (dp_anonymous_mode p \<longrightarrow> dp_anonymous_mode q) \<and>
     dp_peer_encryption p \<le> dp_peer_encryption q \<and>
     (dp_dht_hardening p \<longrightarrow> dp_dht_hardening q) \<and>
     (dp_enforce_private_torrents p \<longrightarrow> dp_enforce_private_torrents q) \<and>
     (dp_ip_blocklist p \<longrightarrow> dp_ip_blocklist q) \<and>
     (dp_kill_switch p \<longrightarrow> dp_kill_switch q) \<and>
     (dp_bind_interface_only p \<longrightarrow> dp_bind_interface_only q) \<and>
     dp_overlay_padding p \<le> dp_overlay_padding q \<and>
     (dp_sybil_resistance p \<longrightarrow> dp_sybil_resistance q) \<and>
     (dp_relay_pow_required p \<longrightarrow> dp_relay_pow_required q) \<and>
     (dp_relay_subnet_diversity p \<longrightarrow> dp_relay_subnet_diversity q) \<and>
     (dp_relay_reputation_weighting p \<longrightarrow> dp_relay_reputation_weighting q) \<and>
     (dp_ipv6_enabled q \<longrightarrow> dp_ipv6_enabled p) \<and>
     (dp_upnp_natpmp_enabled q \<longrightarrow> dp_upnp_natpmp_enabled p) \<and>
     (dp_circuit_rotation_enabled p \<longrightarrow> dp_circuit_rotation_enabled q) \<and>
     (dp_deny_direct_exits p \<longrightarrow> dp_deny_direct_exits q) \<and>
     (dp_minimize_fingerprinting p \<longrightarrow> dp_minimize_fingerprinting q)"

definition profile_rank :: "policy_profile \<Rightarrow> nat" where
  "profile_rank p = (case p of ProfileStandard \<Rightarrow> 0 | ProfileHardened \<Rightarrow> 1 | ProfileAnonymous \<Rightarrow> 2)"

text \<open>
  Further fact: the profiles are a ladder. Applying a profile sends one request whose policy protects at
  least as much in every field as that of any profile below it (standard, hardened, anonymous),
  names the profile, and does not depend on the policy that was in force.
\<close>

theorem profiles_are_ordered:
  assumes "profile_rank p \<le> profile_rank q" "applyProfile True p rp ap hp = (Some dp, resp, hp')"
    "applyProfile True q rq aq hq = (Some dq, resq, hq')"
  shows "at_least dq dp \<and> dp_profile dq = Some q \<and> (at_least dp dq \<longrightarrow> p = q)"
proof -
  have d: "dp = profile_policy p" "dq = profile_policy q"
    using assms(2,3) by (auto simp: applyProfile_def send_policy_def Let_def split: sum.splits)
  show ?thesis
    using assms(1) unfolding d
    by (cases p; cases q)
      (simp_all add: profile_rank_def at_least_def profile_policy_def less_eq_tri_state_def
        less_eq_padding_level_def)
qed

definition sample_policy :: policy_state where
  "sample_policy =
     (let d = profile_policy ProfileHardened in
      \<lparr> ps_desired = d,
        ps_effective = \<lparr> ep_desired = d, ep_network_allowed = True, ep_discovery_allowed = True,
          ep_direct_peer_allowed = True \<rparr>,
        ps_warnings = [], ps_disabled = [], ps_version = 1, ps_lastUpdatedMs = 0 \<rparr>)"

theorem profiles_are_ordered_witness:
  "at_least (profile_policy ProfileAnonymous) (profile_policy ProfileStandard)"
  using profiles_are_ordered [of ProfileStandard ProfileAnonymous "Inr sample_policy" "Inr sample_policy"
      policy_hook_init _ _ _ "Inr sample_policy" "Inr sample_policy" policy_hook_init]
  by (simp add: applyProfile_def send_policy_def profile_rank_def Let_def)

subsection \<open>What toggles and failures do\<close>

lemma send_policy_request: "fst (send_policy fb True d reply again h) = Some d"
  by (simp add: send_policy_def Let_def split: sum.splits)

text \<open>
  Further fact: a failed change is reported by a toast but not by the hook. After a failure the
  handler shows the error's message and the hook is not loading; the hook's own error is
  cleared by the refresh that follows when that succeeds, and replaced by the refresh's error
  when it fails, so the message the change set is never what remains.
\<close>

theorem failed_change_message:
  assumes "rendered = Some s" "policy_update True rendered patch (Inl e) again h = (req, result, h')"
  shows "req = Some (merge_patch patch (ps_desired s)) \<and> result = Threw e \<and> \<not> ph_loading h' \<and>
    (case again of
       Inr s' \<Rightarrow> ph_error h' = None \<and> ph_state h' = Some s'
     | Inl e' \<Rightarrow> ph_error h' = Some (message_or ''Failed to load policy'' e') \<and> ph_state h' = ph_state h)"
  using assms
  by (auto simp: policy_update_def send_policy_def policy_refresh_def Let_def split: sum.splits)

theorem failed_change_message_witness:
  "ph_error (snd (snd (policy_update True (Some sample_policy) [Set_ip_blocklist False]
     (Inl (ThrownString ''x'')) (Inr sample_policy) policy_hook_init))) = None"
proof -
  obtain req res h' where "policy_update True (Some sample_policy) [Set_ip_blocklist False]
     (Inl (ThrownString ''x'')) (Inr sample_policy) policy_hook_init = (req, res, h')"
    by (metis prod_cases3)
  with failed_change_message [OF refl this] show ?thesis by simp
qed

text \<open>
  Further fact: a toggle sends the whole policy it was drawn with. The request of a toggle is the
  rendered policy with that field set, so the profile stays named although the policy no longer
  is that profile, and a second toggle made before the page is drawn again restores
  the first field to its old value. A change of profile while offline sends nothing and reports success.
\<close>

theorem toggle_sends_rendered_policy:
  assumes "rendered = Some s"
  shows "fst (policy_update True rendered [f] reply again h) = Some (set_field f (ps_desired s)) \<and>
    fst (policy_update True rendered [Set_ip_blocklist b] reply again h) =
      Some ((ps_desired s)\<lparr> dp_ip_blocklist := b \<rparr>) \<and>
    (\<forall>d2. fst (policy_update True rendered [Set_kill_switch k] reply2 again2 h2) = Some d2 \<longrightarrow>
       dp_ip_blocklist d2 = dp_ip_blocklist (ps_desired s) \<and> dp_profile d2 = dp_profile (ps_desired s)) \<and>
    handleProfileChange p False reply again h =
      ([SettingsSuccess (''Applied '' @ profile_name p @ '' profile'')], h)"
  using assms
  by (simp add: policy_update_def send_policy_request merge_patch_def handleProfileChange_def applyProfile_def)

theorem toggle_sends_rendered_policy_witness:
  "fst (policy_update True (Some sample_policy) [Set_upnp_natpmp_enabled False] (Inr sample_policy)
     (Inr sample_policy) policy_hook_init)
   = Some (set_field (Set_upnp_natpmp_enabled False) (ps_desired sample_policy))"
  using toggle_sends_rendered_policy [OF refl, of sample_policy "Set_upnp_natpmp_enabled False"
      "Inr sample_policy" "Inr sample_policy" policy_hook_init] by simp

end
