(* ===== verification/JsSort.thy ===== *)
theory JsSort
  imports Complex_Main "HOL-Library.Multiset"
begin

text \<open>
  The array sort of the language, which the tables of torrents, peers and trackers share: stable,
  driven by a comparator that gives a number. A comparator is lawful when it is antisymmetric and
  transitive; that contract is the locale \<open>comparator\<close>, under which the sort gives a
  permutation in order.
\<close>

fun insert_stable :: "('a \<Rightarrow> 'a \<Rightarrow> rat) \<Rightarrow> 'a \<Rightarrow> 'a list \<Rightarrow> 'a list" where
  "insert_stable cmp x [] = [x]"
| "insert_stable cmp x (y # ys) = (if cmp x y \<le> 0 then x # y # ys else y # insert_stable cmp x ys)"

definition js_sort :: "('a \<Rightarrow> 'a \<Rightarrow> rat) \<Rightarrow> 'a list \<Rightarrow> 'a list" where
  "js_sort cmp xs = foldr (insert_stable cmp) xs []"

lemma insert_stable_key:
  "insert_stable (\<lambda>a b. f a - f b) x xs = insort_key f x xs"
  by (induction xs) simp_all

lemma js_sort_key: "js_sort (\<lambda>a b. f a - f b) xs = sort_key f xs"
proof -
  have "insert_stable (\<lambda>a b. f a - f b) = insort_key f"
    by (intro ext) (rule insert_stable_key)
  then show ?thesis by (simp add: js_sort_def sort_key_def)
qed

lemma mset_insert_stable [simp]: "mset (insert_stable cmp x xs) = add_mset x (mset xs)"
  by (induction xs) simp_all

lemma mset_js_sort [simp]: "mset (js_sort cmp xs) = mset xs"
  by (induction xs) (simp_all add: js_sort_def)

lemma sorted_insert_stable:
  assumes total: "\<And>a b. cmp a b \<le> 0 \<or> cmp b a \<le> (0 :: rat)"
    and trans: "\<And>a b c. cmp a b \<le> 0 \<Longrightarrow> cmp b c \<le> 0 \<Longrightarrow> cmp a c \<le> 0"
  shows "sorted_wrt (\<lambda>a b. cmp a b \<le> 0) xs \<Longrightarrow> sorted_wrt (\<lambda>a b. cmp a b \<le> 0) (insert_stable cmp x xs)"
proof (induction xs)
  case (Cons y ys)
  show ?case
  proof (cases "cmp x y \<le> 0")
    case True
    with Cons.prems trans show ?thesis by auto
  next
    case False
    with total [of x y] have yx: "cmp y x \<le> 0" by blast
    have "set (insert_stable cmp x ys) = insert x (set ys)"
      by (metis mset_insert_stable set_mset_mset set_mset_add_mset_insert)
    with yx False Cons show ?thesis by simp
  qed
qed simp

lemma sorted_js_sort:
  assumes "\<And>a b. cmp a b \<le> 0 \<or> cmp b a \<le> (0 :: rat)"
    "\<And>a b c. cmp a b \<le> 0 \<Longrightarrow> cmp b c \<le> 0 \<Longrightarrow> cmp a c \<le> 0"
  shows "sorted_wrt (\<lambda>a b. cmp a b \<le> 0) (js_sort cmp xs)"
  by (induction xs) (simp_all add: js_sort_def sorted_insert_stable [OF assms])

subsection \<open>Lawful comparators\<close>

locale comparator =
  fixes cmp :: "'a \<Rightarrow> 'a \<Rightarrow> rat"
  assumes flip: "cmp b a = - cmp a b"
    and trans: "cmp a b \<le> 0 \<Longrightarrow> cmp b c \<le> 0 \<Longrightarrow> cmp a c \<le> 0"
begin

lemma ordered: "sorted_wrt (\<lambda>a b. cmp a b \<le> 0) (js_sort cmp xs)"
proof (rule sorted_js_sort)
  show "cmp a b \<le> 0 \<or> cmp b a \<le> 0" for a b using flip [of b a] by linarith
qed (rule trans)

lemma descending: "comparator (\<lambda>a b. - cmp a b)"
proof
  show "- cmp b a = - (- cmp a b)" for a b using flip [of b a] by simp
  show "- cmp a b \<le> 0 \<Longrightarrow> - cmp b c \<le> 0 \<Longrightarrow> - cmp a c \<le> 0" for a b c
    using trans [of c b a] flip [of c b] flip [of b a] flip [of c a] by simp
qed

text \<open>Rows compared by a field.\<close>

lemma by_field: "comparator (\<lambda>a b. cmp (f a) (f b))"
  by unfold_locales (auto intro: trans flip)

end

text \<open>Numbers: \<open>a - b\<close>.\<close>

interpretation numbers: comparator "\<lambda>a b. a - b"
  by unfold_locales auto

lemma js_sort_lawful:
  "comparator cmp \<Longrightarrow> mset (js_sort cmp xs) = mset xs \<and> sorted_wrt (\<lambda>a b. cmp a b \<le> 0) (js_sort cmp xs)"
  by (simp add: comparator.ordered)

end
