(* ===== verification/TorrentTable.thy ===== *)
theory TorrentTable
  imports Format Errors JsSort
begin

text \<open>
  The table of torrents (\<open>components/torrents/TorrentTable.tsx\<close>), the page around it
  (\<open>components/torrents/TorrentPortfolio.tsx\<close>), the selection it edits (\<open>handleTorrentSelect\<close> in
  \<open>ui/App.tsx\<close>) and the data of a row's strip (\<open>components/torrents/TorrentRowSignal.tsx\<close>).

  Fractions of the source are rationals. \<open>collate\<close> is \<open>localeCompare\<close>. The array sort of the
  language is stable, which \<open>js_sort\<close> is. A set iterates in insertion order and is a list of
  distinct ids.
\<close>

subsection \<open>Columns and sorting\<close>

datatype sort_column =
    ColName | ColProgress | ColDownloaded | ColStatus | ColSize | ColEta | ColSpeed | ColSeeds | ColPeers
  | ColDownSpeed | ColUpSpeed | ColRatio | ColQueue | ColAdded | ColAvailability | ColHealth

datatype sort_direction = Asc | Desc

datatype cell = CText string | CNum rat

definition status_health :: "torrent_status \<Rightarrow> rat" where
  "status_health s = (let health = ts_progress s * (1/2) + (if ts_peers_seen s > 0 then 3/10 else 0) +
       (if ts_state s = Seeding then 2/10
        else if ts_state s = Downloading \<and> ts_down_rate_bps s > 0 then 1/10 else 0) in
     min 1 health)"

definition status_availability :: "torrent_status \<Rightarrow> rat" where
  "status_availability s = min 1 (ts_progress s + min (of_nat (ts_peers_seen s) / 10) (3/10))"

definition num_or :: "(torrent_status \<Rightarrow> rat) \<Rightarrow> torrent_status option \<Rightarrow> cell" where
  "num_or f status = CNum (case status of Some s \<Rightarrow> f s | None \<Rightarrow> 0)"

definition getCellValue :: "(string, torrent_status) jmap \<Rightarrow> torrent \<Rightarrow> sort_column \<Rightarrow> cell" where
  "getCellValue statuses t col =
     (let status = jm_get statuses (t_id t) in
      case col of
        ColName \<Rightarrow> CText (t_name t)
      | ColProgress \<Rightarrow> num_or ts_progress status
      | ColStatus \<Rightarrow> CText (case status of Some s \<Rightarrow> state_name (ts_state s) | None \<Rightarrow> ''stopped'')
      | ColSize \<Rightarrow> num_or (\<lambda>s. of_int (ts_total_bytes s)) status
      | ColEta \<Rightarrow> num_or (\<lambda>s. of_int (ts_eta_sec s)) status
      | ColDownloaded \<Rightarrow> num_or (\<lambda>s. of_int (ts_downloaded_bytes s) / of_int (max 1 (ts_total_bytes s))) status
      | ColSpeed \<Rightarrow> num_or (\<lambda>s. of_int (ts_down_rate_bps s + ts_up_rate_bps s)) status
      | ColSeeds \<Rightarrow> CNum 0
      | ColPeers \<Rightarrow> num_or (\<lambda>s. of_nat (ts_peers_seen s)) status
      | ColDownSpeed \<Rightarrow> num_or (\<lambda>s. of_int (ts_down_rate_bps s)) status
      | ColUpSpeed \<Rightarrow> num_or (\<lambda>s. of_int (ts_up_rate_bps s)) status
      | ColRatio \<Rightarrow> CNum 0
      | ColQueue \<Rightarrow> CNum 0
      | ColAdded \<Rightarrow> CNum (of_int (t_added_at_ms t))
      | ColAvailability \<Rightarrow> num_or status_availability status
      | ColHealth \<Rightarrow> num_or status_health status)"

text \<open>
  The comparator. A column gives text for every torrent or a number for every torrent; a mixed
  pair does not occur.
\<close>

definition compare_cells :: "(string \<Rightarrow> string \<Rightarrow> rat) \<Rightarrow> sort_direction \<Rightarrow> cell \<Rightarrow> cell \<Rightarrow> rat" where
  "compare_cells collate dir a b =
     (case (a, b) of
        (CText x, CText y) \<Rightarrow> (let cmp = collate x y in if dir = Asc then cmp else - cmp)
      | (CNum x, CNum y) \<Rightarrow> (if dir = Asc then x - y else y - x)
      | _ \<Rightarrow> 0)"

definition sortedTorrents ::
    "(string \<Rightarrow> string \<Rightarrow> rat) \<Rightarrow> (string, torrent_status) jmap \<Rightarrow> sort_column \<Rightarrow> sort_direction \<Rightarrow>
      torrent list \<Rightarrow> torrent list" where
  "sortedTorrents collate statuses col dir ts =
     js_sort (\<lambda>a b. compare_cells collate dir (getCellValue statuses a col) (getCellValue statuses b col)) ts"

definition handleSort :: "sort_column \<Rightarrow> sort_column \<times> sort_direction \<Rightarrow> sort_column \<times> sort_direction" where
  "handleSort column st = (case st of (col, dir) \<Rightarrow>
     if col = column then (col, if dir = Asc then Desc else Asc) else (column, Asc))"

definition formatStatus :: "torrent_state \<Rightarrow> string" where
  "formatStatus s = (case s of Downloading \<Rightarrow> ''Downloading'' | Seeding \<Rightarrow> ''Seeding'' | Checking \<Rightarrow> ''Checking''
     | Stopped \<Rightarrow> ''Paused'' | ErrorState \<Rightarrow> ''Error'')"

definition getStatusClass :: "torrent_state \<Rightarrow> string" where
  "getStatusClass s = (case s of Seeding \<Rightarrow> ''ok'' | Downloading \<Rightarrow> ''active'' | ErrorState \<Rightarrow> ''error'' | _ \<Rightarrow> [])"

text \<open>\<open>TorrentEtaCell\<close>: the smoothed estimate when there is one.\<close>

definition displayEta :: "int option \<Rightarrow> torrent_status \<Rightarrow> int option" where
  "displayEta emaEta s =
     (let effective = getEffectiveEta (Some (ts_eta_sec s)) (Some (state_name (ts_state s)))
            (ts_total_bytes s) (ts_downloaded_bytes s) (ts_down_rate_bps s) in
      if ts_state s = Downloading then (case emaEta of Some e \<Rightarrow> Some e | None \<Rightarrow> effective)
      else effective)"

text \<open>\<open>handleResizeStart\<close>: the width while the mouse moves.\<close>

definition resized_width :: "int \<Rightarrow> int \<Rightarrow> int \<Rightarrow> int" where
  "resized_width startWidth startX clientX = max 50 (startWidth + (clientX - startX))"

subsection \<open>Selection\<close>

type_synonym selected = "string list"

definition set_add :: "'a \<Rightarrow> 'a list \<Rightarrow> 'a list" where
  "set_add x xs = (if x \<in> set xs then xs else xs @ [x])"

definition handleTorrentSelect :: "string \<Rightarrow> bool \<Rightarrow> selected \<Rightarrow> selected" where
  "handleTorrentSelect i multi prev =
     (if multi then (if i \<in> set prev then filter (\<lambda>j. j \<noteq> i) prev else prev @ [i]) else [i])"

definition headAllSelected :: "torrent list \<Rightarrow> selected \<Rightarrow> bool" where
  "headAllSelected ts sel \<longleftrightarrow> ts \<noteq> [] \<and> (\<forall>t \<in> set ts. t_id t \<in> set sel)"

definition headSomeSelected :: "torrent list \<Rightarrow> selected \<Rightarrow> bool" where
  "headSomeSelected ts sel \<longleftrightarrow> (\<exists>t \<in> set ts. t_id t \<in> set sel)"

text \<open>The check box of a row.\<close>

definition row_checkbox :: "string \<Rightarrow> selected \<Rightarrow> selected" where
  "row_checkbox i sel = handleTorrentSelect i False sel"

text \<open>
  \<open>handleSelectAll\<close> of the portfolio reads the selection of its render and queues one update
  per id; \<open>ts\<close> are all torrents, not the filtered ones.
\<close>

definition handleSelectAll :: "torrent list \<Rightarrow> bool \<Rightarrow> selected \<Rightarrow> selected" where
  "handleSelectAll ts select rendered =
     (if select then
        fold (\<lambda>t sel. if t_id t \<in> set rendered then sel else handleTorrentSelect (t_id t) True sel) ts rendered
      else fold (\<lambda>i sel. handleTorrentSelect i False sel) rendered rendered)"

subsection \<open>The portfolio\<close>

datatype portfolio_filter = PfAll | PfDownloading | PfSeeding | PfCompleted | PfError

definition portfolio_matches :: "portfolio_filter \<Rightarrow> torrent_status option \<Rightarrow> bool" where
  "portfolio_matches f status = (case status of
     None \<Rightarrow> f = PfError
   | Some s \<Rightarrow> (case f of
       PfDownloading \<Rightarrow> ts_state s = Downloading
     | PfSeeding \<Rightarrow> ts_state s = Seeding
     | PfCompleted \<Rightarrow> ts_state s = Seeding \<and> ts_progress s \<ge> 1
     | PfError \<Rightarrow> ts_state s = ErrorState
     | PfAll \<Rightarrow> True))"

definition portfolio_filtered ::
    "torrent list \<Rightarrow> string \<Rightarrow> portfolio_filter \<Rightarrow> (string, torrent_status) jmap \<Rightarrow> torrent list" where
  "portfolio_filtered ts query f statuses =
     (let found = (if js_trim query \<noteq> [] then
            filter (\<lambda>t. js_includes (js_lower (t_name t)) (js_lower query) \<or>
              js_includes (js_lower (t_id t)) (js_lower query)) ts
          else ts) in
      if f \<noteq> PfAll then filter (\<lambda>t. portfolio_matches f (jm_get statuses (t_id t))) found else found)"

definition activeCount :: "torrent list \<Rightarrow> (string, torrent_status) jmap \<Rightarrow> nat" where
  "activeCount ts statuses = length (filter (\<lambda>t. case jm_get statuses (t_id t) of
     Some s \<Rightarrow> ts_state s = Downloading \<or> ts_state s = Seeding | None \<Rightarrow> False) ts)"

text \<open>
  Saved layouts in \<open>localStorage\<close>: the list of layouts, \<open>None\<close> where the stored text does not
  parse. Saving under an existing name replaces the first layout of that name.
\<close>

record layout =
  ly_name :: string
  ly_columns :: "sort_column list"
  ly_savedAt :: time

fun replace_layout :: "layout \<Rightarrow> layout list \<Rightarrow> layout list" where
  "replace_layout l [] = [l]"
| "replace_layout l (m # ms) = (if ly_name m = ly_name l then l # ms else m # replace_layout l ms)"

definition handleSaveLayout :: "string \<Rightarrow> sort_column list \<Rightarrow> time \<Rightarrow> layout list option \<Rightarrow> layout list option" where
  "handleSaveLayout name visibleColumns now stored = (case stored of
     None \<Rightarrow> None
   | Some ls \<Rightarrow> Some (replace_layout \<lparr> ly_name = name, ly_columns = visibleColumns, ly_savedAt = now \<rparr> ls))"

definition handleLoadLayout :: "string \<Rightarrow> layout list option \<Rightarrow> sort_column list \<Rightarrow> sort_column list" where
  "handleLoadLayout name stored visible = (case stored of
     None \<Rightarrow> visible
   | Some ls \<Rightarrow> (case List.find (\<lambda>l. ly_name l = name) ls of
       Some l \<Rightarrow> fold set_add (ly_columns l) [] | None \<Rightarrow> visible))"

subsection \<open>The strip of a row\<close>

text \<open>A reply of the slow poll replaces the snapshot, one of the fast poll mostly not.\<close>

definition slow_poll :: "thrown + torrent_row_snapshot \<Rightarrow> torrent_row_snapshot option \<Rightarrow> torrent_row_snapshot option" where
  "slow_poll reply snap = (case reply of Inr d \<Rightarrow> Some d | Inl e \<Rightarrow> snap)"

definition fast_poll :: "thrown + torrent_row_snapshot \<Rightarrow> torrent_row_snapshot option \<Rightarrow> torrent_row_snapshot option" where
  "fast_poll reply snap = (case reply of
     Inl e \<Rightarrow> snap
   | Inr d \<Rightarrow> (case snap of
       Some p \<Rightarrow> if length (rs_pieces_bins d) = length (rs_pieces_bins p)
         then Some (p\<lparr> rs_heartbeat_samples := rs_heartbeat_samples d \<rparr>) else Some d
     | None \<Rightarrow> Some d))"

definition bin_color :: "piece_bin \<Rightarrow> string option" where
  "bin_color b = (if pb_pieces_in_bin b = 0 then None
     else if pb_have_ratio b \<ge> 1 then Some ''#4ade80''
     else if pb_min_avail b = 0 then Some ''#ef4444''
     else if pb_min_avail b \<le> 2 then Some ''#fbbf24''
     else Some ''#3b82f6'')"

definition smooth :: "rat list \<Rightarrow> rat list" where
  "smooth xs = map (\<lambda>i. let s = xs ! i in
     if length xs \<le> 2 then s
     else if i = 0 then (s + xs ! 1) / 2
     else if i = length xs - 1 then (xs ! (i - 1) + s) / 2
     else (xs ! (i - 1) + s + xs ! (i + 1)) / 3) [0..<length xs]"

text \<open>The heights of the 120 points of the heartbeat line, in units of the strip's height.\<close>

definition heartbeat_points :: "rat list \<Rightarrow> rat list" where
  "heartbeat_points samples =
     (let smoothed = smooth samples; maxSample = foldr max smoothed 1; scale = maxSample + maxSample * (1/10) in
      map (\<lambda>i. 1 - (if i < length smoothed then smoothed ! i else 0) / scale) [0..<120])"

subsection \<open>Sorting\<close>

definition number_of :: "cell \<Rightarrow> rat" where
  "number_of c = (case c of CNum x \<Rightarrow> x | CText s \<Rightarrow> 0)"

definition text_of :: "cell \<Rightarrow> string" where
  "text_of c = (case c of CText s \<Rightarrow> s | CNum x \<Rightarrow> [])"

definition is_text_column :: "sort_column \<Rightarrow> bool" where
  "is_text_column col \<longleftrightarrow> col = ColName \<or> col = ColStatus"

lemma cell_num: "\<not> is_text_column col \<Longrightarrow> \<exists>x. getCellValue statuses t col = CNum x"
  by (cases col) (simp_all add: is_text_column_def getCellValue_def num_or_def Let_def)

lemma cell_text: "is_text_column col \<Longrightarrow> \<exists>s. getCellValue statuses t col = CText s"
  by (auto simp: is_text_column_def getCellValue_def Let_def)

lemma compare_num:
  assumes "\<not> is_text_column col"
  shows "compare_cells collate dir (getCellValue st a col) (getCellValue st b col) =
    (if dir = Asc then number_of (getCellValue st a col) - number_of (getCellValue st b col)
     else (- number_of (getCellValue st a col)) - (- number_of (getCellValue st b col)))"
proof -
  obtain x y where "getCellValue st a col = CNum x" "getCellValue st b col = CNum y"
    using cell_num [OF assms] by metis
  then show ?thesis by (simp add: compare_cells_def number_of_def)
qed

text \<open>
  Further fact: the table shows every torrent it is given exactly once. By a numeric column the rows are
  the stable sort by its number (by the negated number when descending), so that torrents with equal
  numbers keep the order of the list in both directions.
\<close>

theorem numeric_sort:
  "mset (sortedTorrents collate statuses col dir ts) = mset ts \<and>
   (\<not> is_text_column col \<longrightarrow>
      sortedTorrents collate statuses col Asc ts = sort_key (\<lambda>t. number_of (getCellValue statuses t col)) ts \<and>
      sortedTorrents collate statuses col Desc ts = sort_key (\<lambda>t. - number_of (getCellValue statuses t col)) ts)"
  by (simp add: sortedTorrents_def compare_num js_sort_key
      js_sort_key [where f = "\<lambda>t. - number_of (getCellValue statuses t col)", simplified])

theorem numeric_sort_witness:
  "sortedTorrents (\<lambda>a b. 0) [] ColAdded Asc [] = sort_key (\<lambda>t. number_of (getCellValue [] t ColAdded)) []"
  using numeric_sort [of "\<lambda>a b. 0" "[]" ColAdded Asc "[]"] by (simp add: is_text_column_def)

text \<open>
  Further fact: by a text column the rows are in the order of the collation, reversed when
  descending, for any collation that is a total preorder, as \<open>localeCompare\<close> is.
\<close>

theorem text_sort:
  assumes total: "\<And>x y. collate x y \<le> 0 \<or> collate y x \<le> 0"
    and anti: "\<And>x y. collate x y \<le> 0 \<longleftrightarrow> collate y x \<ge> 0"
    and trans: "\<And>x y z. collate x y \<le> 0 \<Longrightarrow> collate y z \<le> 0 \<Longrightarrow> collate x z \<le> 0"
    and col: "is_text_column col"
  shows "sorted_wrt (\<lambda>a b. let x = text_of (getCellValue statuses a col); y = text_of (getCellValue statuses b col) in
      if dir = Asc then collate x y \<le> 0 else collate y x \<le> 0)
    (sortedTorrents collate statuses col dir ts)"
proof -
  let ?v = "\<lambda>t. text_of (getCellValue statuses t col)"
  let ?cmp = "\<lambda>a b. compare_cells collate dir (getCellValue statuses a col) (getCellValue statuses b col)"
  have c: "?cmp a b = (if dir = Asc then collate (?v a) (?v b) else - collate (?v a) (?v b))" for a b
    using cell_text [OF col, of statuses a] cell_text [OF col, of statuses b]
    by (auto simp: compare_cells_def text_of_def Let_def)
  have le: "?cmp a b \<le> 0 \<longleftrightarrow> (if dir = Asc then collate (?v a) (?v b) \<le> 0 else collate (?v b) (?v a) \<le> 0)" for a b
    unfolding c using anti [of "?v b" "?v a"] by simp
  have "sorted_wrt (\<lambda>a b. ?cmp a b \<le> 0) (js_sort ?cmp ts)"
  proof (rule sorted_js_sort)
    show "?cmp a b \<le> 0 \<or> ?cmp b a \<le> 0" for a b
      unfolding le using total by auto
    show "?cmp a b \<le> 0 \<Longrightarrow> ?cmp b d \<le> 0 \<Longrightarrow> ?cmp a d \<le> 0" for a b d
      unfolding le using trans by (auto split: if_splits)
  qed
  then show ?thesis by (simp add: le sortedTorrents_def Let_def)
qed

definition by_length :: "string \<Rightarrow> string \<Rightarrow> rat" where
  "by_length x y = of_nat (length x) - of_nat (length y)"

theorem text_sort_witness:
  "sorted_wrt (\<lambda>a b. by_length (text_of (getCellValue [] a ColName)) (text_of (getCellValue [] b ColName)) \<le> 0)
    (sortedTorrents by_length [] ColName Asc [])"
proof -
  have "by_length x y \<le> 0 \<or> by_length y x \<le> 0" "by_length x y \<le> 0 \<longleftrightarrow> by_length y x \<ge> 0"
      "by_length x y \<le> 0 \<Longrightarrow> by_length y z \<le> 0 \<Longrightarrow> by_length x z \<le> 0" for x y z
    by (auto simp: by_length_def)
  from text_sort [OF this, where col = ColName and statuses = "[]" and dir = Asc and ts = "[]"] show ?thesis
    by (simp add: is_text_column_def Let_def)
qed

subsection \<open>Selection\<close>

lemma fold_single: "fold (\<lambda>i sel. handleTorrentSelect i False sel) is sel = (if is = [] then sel else [last is])"
  by (induction "is" arbitrary: sel) (auto simp: handleTorrentSelect_def)

lemma fold_toggle:
  assumes "distinct (map t_id ts)" "set rendered \<subseteq> set sel"
    "\<forall>t \<in> set ts. t_id t \<in> set sel \<longrightarrow> t_id t \<in> set rendered"
  shows "set (fold (\<lambda>t sel. if t_id t \<in> set rendered then sel else handleTorrentSelect (t_id t) True sel) ts sel)
    = set sel \<union> t_id ` set ts"
  using assms
proof (induction ts arbitrary: sel)
  case (Cons t ts)
  have d: "distinct (map t_id ts)" "t_id t \<notin> t_id ` set ts" using Cons.prems(1) by simp_all
  show ?case
  proof (cases "t_id t \<in> set rendered")
    case True
    have "\<forall>t \<in> set ts. t_id t \<in> set sel \<longrightarrow> t_id t \<in> set rendered" using Cons.prems(3) by simp
    from Cons.IH [OF d(1) Cons.prems(2) this] True Cons.prems(2) show ?thesis by auto
  next
    case False
    with Cons.prems(3) have new: "t_id t \<notin> set sel" by simp
    have "\<forall>u \<in> set ts. t_id u \<in> set (sel @ [t_id t]) \<longrightarrow> t_id u \<in> set rendered"
    proof (intro ballI impI)
      fix u assume u: "u \<in> set ts" "t_id u \<in> set (sel @ [t_id t])"
      then have "t_id u \<noteq> t_id t" using d(2) by (metis imageI)
      with u Cons.prems(3) show "t_id u \<in> set rendered" by simp
    qed
    moreover have "set rendered \<subseteq> set (sel @ [t_id t])" using Cons.prems(2) by auto
    ultimately show ?thesis
      using Cons.IH [OF d(1), of "sel @ [t_id t]"] False new by (simp add: handleTorrentSelect_def)
  qed
qed simp

text \<open>
  Further fact: the check box in the head of the table. Selecting all selects every torrent of
  the list, also those the filter hides; deselecting all leaves the last selected torrent selected
  instead of none; and the check box of a row selects that torrent alone, also when it is clicked to
  be cleared.
\<close>

theorem select_all_box:
  "(distinct (map t_id ts) \<longrightarrow> set (handleSelectAll ts True sel) = set sel \<union> t_id ` set ts) \<and>
   handleSelectAll ts False sel = (if sel = [] then [] else [last sel]) \<and>
   row_checkbox i sel = [i]"
proof -
  have "set (handleSelectAll ts True sel) = set sel \<union> t_id ` set ts" if "distinct (map t_id ts)"
    using fold_toggle [OF that, of sel sel] by (auto simp: handleSelectAll_def)
  then show ?thesis
    by (simp add: handleSelectAll_def fold_single row_checkbox_def) (simp add: handleTorrentSelect_def)
qed

theorem select_all_box_witness:
  "set (handleSelectAll [] True [''9'']) = {''9''} \<and> handleSelectAll [] False [''1'', ''2''] = [''2'']"
  using select_all_box [of "[]" "[''9'']"] select_all_box [of "[]" "[''1'', ''2'']"] by simp

subsection \<open>Layouts and the strip\<close>

lemma fold_set_add: "distinct (ys @ xs) \<Longrightarrow> fold set_add xs ys = ys @ xs"
  by (induction xs arbitrary: ys) (auto simp: set_add_def)

lemma find_replaced: "List.find (\<lambda>m. ly_name m = ly_name l) (replace_layout l ms) = Some l"
  by (induction ms) auto

lemma find_other: "n \<noteq> ly_name l \<Longrightarrow>
    List.find (\<lambda>m. ly_name m = n) (replace_layout l ms) = List.find (\<lambda>m. ly_name m = n) ms"
  by (induction ms) auto

text \<open>
  Further fact: a saved layout comes back. When the stored layouts can be read, loading a name after
  saving columns under it gives those columns, and other names load as before.
\<close>

theorem layout_roundtrip:
  assumes "distinct cols"
  shows "handleLoadLayout name (handleSaveLayout name cols now (Some ls)) visible = cols \<and>
    (other \<noteq> name \<longrightarrow> handleLoadLayout other (handleSaveLayout name cols now (Some ls)) visible =
       handleLoadLayout other (Some ls) visible)"
  using find_replaced [of "\<lparr> ly_name = name, ly_columns = cols, ly_savedAt = now \<rparr>" ls]
    find_other [of other "\<lparr> ly_name = name, ly_columns = cols, ly_savedAt = now \<rparr>" ls]
    fold_set_add [of "[]" cols] assms
  by (simp add: handleLoadLayout_def handleSaveLayout_def)

theorem layout_roundtrip_witness:
  "handleLoadLayout ''a'' (handleSaveLayout ''a'' [ColName, ColEta] 5 (Some [])) [ColSize] = [ColName, ColEta]"
  using layout_roundtrip [of "[ColName, ColEta]" "''a''" 5 "[]" "[ColSize]" "''b''"] by simp

lemma smooth_nonneg: "\<forall>x \<in> set xs. 0 \<le> x \<Longrightarrow> \<forall>y \<in> set (smooth xs). 0 \<le> y"
  by (auto simp: smooth_def Let_def intro!: divide_nonneg_pos add_nonneg_nonneg)

lemma foldr_max_ge: "1 \<le> foldr max xs (1 :: rat) \<and> (\<forall>x \<in> set xs. x \<le> foldr max xs 1)"
  by (induction xs) (auto simp: max_def)

text \<open>
  Further fact: the heartbeat line stays inside its strip. For samples that are not negative each of the 120
  points lies between 1/11 of the height from the top and the bottom.
\<close>

theorem heartbeat_in_strip:
  assumes "\<forall>x \<in> set samples. 0 \<le> x"
  shows "length (heartbeat_points samples) = 120 \<and> (\<forall>y \<in> set (heartbeat_points samples). 1 / 11 \<le> y \<and> y \<le> 1)"
proof -
  let ?m = "foldr max (smooth samples) 1"
  have m: "1 \<le> ?m" "\<forall>x \<in> set (smooth samples). x \<le> ?m" using foldr_max_ge by blast+
  have v: "0 \<le> v / (?m + ?m * (1/10)) \<and> v / (?m + ?m * (1/10)) \<le> 10 / 11" if "0 \<le> v" "v \<le> ?m" for v
  proof -
    have "0 < ?m + ?m * (1/10)" using m(1) by simp
    with that m(1) show ?thesis by (simp add: field_simps)
  qed
  have "1 / 11 \<le> 1 - (if i < length (smooth samples) then smooth samples ! i else 0) / (?m + ?m * (1/10)) \<and>
      1 - (if i < length (smooth samples) then smooth samples ! i else 0) / (?m + ?m * (1/10)) \<le> 1" for i
  proof (cases "i < length (smooth samples)")
    case True
    then have s: "smooth samples ! i \<in> set (smooth samples)" by simp
    with v [of "smooth samples ! i"] m(2) smooth_nonneg [OF assms] True show ?thesis by auto
  qed simp
  then show ?thesis by (auto simp: heartbeat_points_def Let_def)
qed

theorem heartbeat_in_strip_witness:
  "length (heartbeat_points [5, 0, 7]) = 120 \<and> (\<forall>y \<in> set (heartbeat_points [5, 0, 7]). 1 / 11 \<le> y \<and> y \<le> 1)"
  by (rule heartbeat_in_strip) simp

end
