(* ===== verification/PageShell.thy ===== *)
theory PageShell
  imports Prelude
begin

text \<open>
  The frame of the page: the boot screen (\<open>components/BootGate.tsx\<close>), drag and drop
  (\<open>components/DropZone.tsx\<close>), keyboard shortcuts (\<open>utils/keyboard.ts\<close>) and debouncing
  (\<open>utils/useDebounce.ts\<close>).
  Timers are given by the time they fire.
\<close>

subsection \<open>Booting\<close>

datatype boot_phase = Booting | Ready | DaemonDown

text \<open>
  The health request: it answers with \<open>ok\<close> after a time, or fails after one; an abort after
  three seconds is a failure.
\<close>

datatype health_fetch = Answers time bool | Fails time | Hangs

definition pingDaemon :: "health_fetch \<Rightarrow> time \<times> bool" where
  "pingDaemon f = (case f of
     Answers t ok \<Rightarrow> if t < 3000 then (t, ok) else (3000, False)
   | Fails t \<Rightarrow> (min t 3000, False)
   | Hangs \<Rightarrow> (3000, False))"

text \<open>The phase at time \<open>now\<close> after mounting; \<open>unmounted\<close> is when the component goes, if it does.\<close>

definition boot_phase_at :: "health_fetch \<Rightarrow> time option \<Rightarrow> time \<Rightarrow> boot_phase" where
  "boot_phase_at f unmounted now =
     (case pingDaemon f of (t, daemonOk) \<Rightarrow>
        let done_at = max t 4000; alive = (case unmounted of Some u \<Rightarrow> done_at < u | None \<Rightarrow> True) in
        if now < done_at \<or> \<not> alive then Booting
        else if daemonOk then Ready else DaemonDown)"

text \<open>
  Further fact: the boot screen lasts exactly four seconds, however the health request goes; then the page is
  ready exactly when the daemon answered with success within three seconds.
\<close>

theorem boot_takes_four_seconds:
  "boot_phase_at f None now =
     (if now < 4000 then Booting
      else if \<exists>t. f = Answers t True \<and> t < 3000 then Ready else DaemonDown)"
  by (cases f) (auto simp: boot_phase_at_def pingDaemon_def Let_def max_def min_def)

subsection \<open>Drag and drop\<close>

record drop_zone =
  dz_isDragging :: bool
  dz_counter :: int

definition drop_init :: drop_zone where
  "drop_init = \<lparr> dz_isDragging = False, dz_counter = 0 \<rparr>"

definition drag_enter :: "bool \<Rightarrow> bool \<Rightarrow> drop_zone \<Rightarrow> drop_zone" where
  "drag_enter disabled carries d =
     (if disabled then d
      else d\<lparr> dz_counter := dz_counter d + 1, dz_isDragging := (carries \<or> dz_isDragging d) \<rparr>)"

definition drag_leave :: "drop_zone \<Rightarrow> drop_zone" where
  "drag_leave d =
     (let c = dz_counter d - 1 in
      d\<lparr> dz_counter := c, dz_isDragging := (if c = 0 then False else dz_isDragging d) \<rparr>)"

record drop_data =
  dd_files :: "string list"
  dd_text :: string
  dd_url :: string

datatype drop_action = DropFile nat | DropMagnet string

fun first_torrent :: "nat \<Rightarrow> string list \<Rightarrow> nat option" where
  "first_torrent i [] = None"
| "first_torrent i (f # fs) = (if ends_with f ''.torrent'' then Some i else first_torrent (Suc i) fs)"

definition handle_drop :: "bool \<Rightarrow> drop_data \<Rightarrow> drop_zone \<Rightarrow> drop_action option \<times> drop_zone" where
  "handle_drop disabled data d =
     (let d' = d\<lparr> dz_isDragging := False, dz_counter := 0 \<rparr> in
      if disabled then (None, d')
      else (case first_torrent 0 (dd_files data) of
          Some i \<Rightarrow> (Some (DropFile i), d')
        | None \<Rightarrow>
            if starts_with (js_trim (dd_text data)) ''magnet:?'' then (Some (DropMagnet (js_trim (dd_text data))), d')
            else if starts_with (js_trim (dd_url data)) ''magnet:?'' then (Some (DropMagnet (js_trim (dd_url data))), d')
            else (None, d')))"

datatype drag_event = Enter bool | Leave

fun drag :: "bool \<Rightarrow> drag_event \<Rightarrow> drop_zone \<Rightarrow> drop_zone" where
  "drag disabled (Enter carries) d = drag_enter disabled carries d"
| "drag disabled Leave d = drag_leave d"

text \<open>How deep the pointer is after a sequence of events, and whether it ever left too often.\<close>

fun depth :: "drag_event list \<Rightarrow> int" where
  "depth [] = 0"
| "depth (Enter c # evs) = depth evs + 1"
| "depth (Leave # evs) = depth evs - 1"

lemma enabled_counter: "dz_counter (fold (drag False) evs d) = dz_counter d + depth evs"
  by (induction evs arbitrary: d rule: depth.induct)
    (auto simp: drag_enter_def drag_leave_def Let_def)

text \<open>
  Further fact: the overlay. While drops are enabled, entering and leaving as often ends without
  overlay; but one pass of the pointer while they are disabled (the daemon is offline) counts
  the leaving only, after which, once enabled, the pointer can enter and leave again and the
  overlay stays until something is dropped.
\<close>

theorem overlay_counter:
  "(depth (evs @ [Leave]) = 0 \<longrightarrow> \<not> dz_isDragging (fold (drag False) (evs @ [Leave]) drop_init)) \<and>
   (let offline = fold (drag True) [Enter True, Leave] drop_init;
        online = fold (drag False) [Enter True, Leave] offline in
    dz_counter offline = -1 \<and> dz_isDragging online \<and> dz_counter online = -1 \<and>
    \<not> dz_isDragging (snd (handle_drop dis data online)))"
proof -
  have "\<not> dz_isDragging (fold (drag False) (evs @ [Leave]) drop_init)" if "depth (evs @ [Leave]) = 0"
  proof -
    have "depth (evs @ [Leave]) = depth evs - 1" by (induction evs rule: depth.induct) simp_all
    with that enabled_counter [of evs drop_init] show ?thesis
      by (simp add: drag_leave_def drop_init_def Let_def)
  qed
  then show ?thesis
    by (simp add: drag_enter_def drag_leave_def drop_init_def handle_drop_def Let_def split: option.splits)
qed

theorem overlay_counter_witness:
  "\<not> dz_isDragging (fold (drag False) ([Enter True, Enter True, Leave] @ [Leave]) drop_init)"
  using overlay_counter [of "[Enter True, Enter True, Leave]"] by simp

text \<open>
  Further fact: a drop does one thing at most: the first torrent file if there is one, else the magnet link
  in the text, else the one in the URL; nothing while disabled.
\<close>

theorem drop_takes_first:
  "(case fst (handle_drop disabled data d) of
      Some (DropFile i) \<Rightarrow> \<not> disabled \<and> i < length (dd_files data) \<and> ends_with (dd_files data ! i) ''.torrent'' \<and>
        (\<forall>j < i. \<not> ends_with (dd_files data ! j) ''.torrent'')
    | Some (DropMagnet m) \<Rightarrow> \<not> disabled \<and> starts_with m ''magnet:?'' \<and>
        (\<forall>f \<in> set (dd_files data). \<not> ends_with f ''.torrent'') \<and>
        (m = js_trim (dd_text data) \<or> m = js_trim (dd_url data))
    | None \<Rightarrow> disabled \<or> (\<forall>f \<in> set (dd_files data). \<not> ends_with f ''.torrent''))"
proof -
  have some: "first_torrent k fs = Some i \<Longrightarrow> k \<le> i \<and> i - k < length fs \<and> ends_with (fs ! (i - k)) ''.torrent'' \<and>
      (\<forall>j < i - k. \<not> ends_with (fs ! j) ''.torrent'')" for k i fs
  proof (induction k fs rule: first_torrent.induct)
    case (2 k f fs)
    show ?case
    proof (cases "ends_with f ''.torrent''")
      case False
      with 2 have r: "Suc k \<le> i \<and> i - Suc k < length fs \<and> ends_with (fs ! (i - Suc k)) ''.torrent'' \<and>
          (\<forall>j < i - Suc k. \<not> ends_with (fs ! j) ''.torrent'')" by simp
      then have "i - k = Suc (i - Suc k)" by linarith
      with r False show ?thesis by (auto simp: less_Suc_eq_0_disj)
    next
      case True
      with 2 show ?thesis by simp
    qed
  qed simp
  have none: "first_torrent k fs = None \<Longrightarrow> \<forall>f \<in> set fs. \<not> ends_with f ''.torrent''" for k fs
    by (induction k fs rule: first_torrent.induct) (auto split: if_splits)
  show ?thesis
    using some [of 0 "dd_files data"] none [of 0 "dd_files data"]
    by (cases "first_torrent 0 (dd_files data)") (auto simp: handle_drop_def Let_def)
qed

theorem drop_takes_first_witness:
  "fst (handle_drop False \<lparr> dd_files = [''a.txt'', ''b.torrent''], dd_text = [], dd_url = [] \<rparr> drop_init) = Some (DropFile 1)"
  using drop_takes_first [of False "\<lparr> dd_files = [''a.txt'', ''b.torrent''], dd_text = [], dd_url = [] \<rparr>" drop_init]
  by (simp add: handle_drop_def suffix_to_prefix)

subsection \<open>Keyboard shortcuts\<close>

record parsed_shortcut =
  sc_key :: string
  sc_ctrl :: bool
  sc_shift :: bool
  sc_alt :: bool
  sc_meta :: bool

definition parseShortcut :: "string \<Rightarrow> parsed_shortcut" where
  "parseShortcut shortcut =
     (let parts = map js_trim (js_split (CHR ''+'') (js_lower shortcut)) in
      \<lparr> sc_key = last parts,
        sc_ctrl = (''ctrl'' \<in> set parts \<or> ''control'' \<in> set parts),
        sc_shift = (''shift'' \<in> set parts),
        sc_alt = (''alt'' \<in> set parts),
        sc_meta = (''meta'' \<in> set parts \<or> ''cmd'' \<in> set parts) \<rparr>)"

text \<open>A key press and where it happens: in an input, a text area or editable content.\<close>

record key_event =
  ke_key :: string
  ke_code :: string
  ke_ctrl :: bool
  ke_shift :: bool
  ke_alt :: bool
  ke_meta :: bool
  ke_editing :: bool

record key_shortcut =
  ks_key :: string
  ks_ctrl :: "bool option"
  ks_shift :: "bool option"
  ks_alt :: "bool option"
  ks_meta :: "bool option"

definition wanted :: "bool option \<Rightarrow> bool \<Rightarrow> bool" where
  "wanted m pressed \<longleftrightarrow> m = None \<or> m = Some pressed"

definition matchesShortcut :: "key_event \<Rightarrow> key_shortcut \<Rightarrow> bool" where
  "matchesShortcut e s \<longleftrightarrow>
     (js_lower (ke_key e) = js_lower (ks_key s) \<or> js_lower (ke_code e) = js_lower (''key'' @ ks_key s)) \<and>
     wanted (ks_ctrl s) (ke_ctrl e \<or> ke_meta e) \<and> wanted (ks_shift s) (ke_shift e) \<and>
     wanted (ks_alt s) (ke_alt e) \<and> wanted (ks_meta s) (ke_meta e)"

text \<open>\<open>handleKeyDown\<close>: the shortcut whose handler runs, by position.\<close>

definition handleKeyDown :: "key_shortcut list \<Rightarrow> bool \<Rightarrow> key_event \<Rightarrow> nat option" where
  "handleKeyDown shortcuts enabled e =
     (if \<not> enabled then None
      else if ke_editing e \<and> (ke_key e = ''Escape'' \<or> \<not> (ke_ctrl e \<or> ke_meta e)) then None
      else map_option fst (List.find (\<lambda>(i, s). matchesShortcut e s) (enumerate 0 shortcuts)))"

definition shortcut_of :: "parsed_shortcut \<Rightarrow> key_shortcut" where
  "shortcut_of p = \<lparr> ks_key = sc_key p, ks_ctrl = Some (sc_ctrl p), ks_shift = Some (sc_shift p),
     ks_alt = Some (sc_alt p), ks_meta = Some (sc_meta p) \<rparr>"

lemma find_enumerate:
  "List.find (\<lambda>(i, s). P s) (enumerate k xs) = Some (i, s) \<Longrightarrow>
    k \<le> i \<and> i - k < length xs \<and> s = xs ! (i - k) \<and> P s \<and> (\<forall>j < i - k. \<not> P (xs ! j))"
proof (induction xs arbitrary: k)
  case (Cons x xs)
  show ?case
  proof (cases "P x")
    case False
    with Cons have r: "Suc k \<le> i \<and> i - Suc k < length xs \<and> s = xs ! (i - Suc k) \<and> P s \<and>
        (\<forall>j < i - Suc k. \<not> P (xs ! j))" by simp
    then have "i - k = Suc (i - Suc k)" by linarith
    with r False show ?thesis by (auto simp: less_Suc_eq_0_disj)
  next
    case True
    with Cons.prems show ?thesis by auto
  qed
qed simp

text \<open>
  Further fact: a key press runs at most one shortcut, the first that matches; while text is edited
  none runs for \<open>Escape\<close> or for a key without \<open>Ctrl\<close> or \<open>Cmd\<close>. A parsed shortcut with \<open>Ctrl\<close>
  asks for \<open>Cmd\<close> not to be pressed, so it does not match the press of \<open>Cmd\<close> that stands for
  \<open>Ctrl\<close> elsewhere.
\<close>

theorem one_shortcut_runs:
  "(case handleKeyDown shortcuts enabled e of
      Some i \<Rightarrow> enabled \<and> i < length shortcuts \<and> matchesShortcut e (shortcuts ! i) \<and>
        (\<forall>j < i. \<not> matchesShortcut e (shortcuts ! j)) \<and>
        \<not> (ke_editing e \<and> (ke_key e = ''Escape'' \<or> \<not> (ke_ctrl e \<or> ke_meta e)))
    | None \<Rightarrow> True) \<and>
   (sc_ctrl p \<and> \<not> sc_meta p \<and> ke_meta e \<longrightarrow> \<not> matchesShortcut e (shortcut_of p))"
proof -
  have "case handleKeyDown shortcuts enabled e of
      Some i \<Rightarrow> enabled \<and> i < length shortcuts \<and> matchesShortcut e (shortcuts ! i) \<and>
        (\<forall>j < i. \<not> matchesShortcut e (shortcuts ! j)) \<and>
        \<not> (ke_editing e \<and> (ke_key e = ''Escape'' \<or> \<not> (ke_ctrl e \<or> ke_meta e)))
    | None \<Rightarrow> True"
  proof (cases "handleKeyDown shortcuts enabled e")
    case (Some i)
    then have g: "enabled" "\<not> (ke_editing e \<and> (ke_key e = ''Escape'' \<or> \<not> (ke_ctrl e \<or> ke_meta e)))"
      by (auto simp: handleKeyDown_def split: if_splits)
    with Some obtain s where "List.find (\<lambda>(i, s). matchesShortcut e s) (enumerate 0 shortcuts) = Some (i, s)"
      by (auto simp: handleKeyDown_def)
    from find_enumerate [of "matchesShortcut e", OF this] have "i < length shortcuts"
        "matchesShortcut e (shortcuts ! i)" "\<forall>j < i. \<not> matchesShortcut e (shortcuts ! j)"
      by auto
    with g Some show ?thesis by simp
  qed simp
  then show ?thesis by (simp add: matchesShortcut_def shortcut_of_def wanted_def)
qed

theorem one_shortcut_runs_witness:
  "\<not> matchesShortcut \<lparr> ke_key = ''m'', ke_code = ''KeyM'', ke_ctrl = False, ke_shift = False, ke_alt = False,
      ke_meta = True, ke_editing = False \<rparr> (shortcut_of (parseShortcut ''Ctrl+M''))"
proof -
  have p: "sc_ctrl (parseShortcut ''Ctrl+M'') \<and> \<not> sc_meta (parseShortcut ''Ctrl+M'')" by code_simp
  let ?e = "\<lparr> ke_key = ''m'', ke_code = ''KeyM'', ke_ctrl = False, ke_shift = False, ke_alt = False,
      ke_meta = True, ke_editing = False \<rparr>"
  show ?thesis
    using one_shortcut_runs [where shortcuts = "[]" and enabled = True and e = ?e
        and p = "parseShortcut ''Ctrl+M''"] p by simp
qed

subsection \<open>Debouncing\<close>

text \<open>
  \<open>useDebounce\<close>: the value returned and the timer of the last change, with the time it fires
  and the value it sets. A change clears the timer of the one before unless that has fired.
\<close>

record 'a debounce =
  db_value :: 'a
  db_timer :: "(time \<times> 'a) option"

definition debounce_at :: "time \<Rightarrow> 'a debounce \<Rightarrow> 'a" where
  "debounce_at now d = (case db_timer d of
     Some (t, v) \<Rightarrow> if t \<le> now then v else db_value d | None \<Rightarrow> db_value d)"

definition debounce_change :: "time \<Rightarrow> time \<times> 'a \<Rightarrow> 'a debounce \<Rightarrow> 'a debounce" where
  "debounce_change delay ch d = (case ch of (now, v) \<Rightarrow>
     \<lparr> db_value = debounce_at now d, db_timer = Some (now + delay, v) \<rparr>)"

fun burst :: "time \<Rightarrow> (time \<times> 'a) list \<Rightarrow> bool" where
  "burst delay ((t1, v1) # (t2, v2) # cs) \<longleftrightarrow> t1 \<le> t2 \<and> t2 < t1 + delay \<and> burst delay ((t2, v2) # cs)"
| "burst delay _ \<longleftrightarrow> True"

lemma fold_burst:
  "burst delay cs \<Longrightarrow> cs \<noteq> [] \<Longrightarrow> debounce_at (fst (hd cs)) d = db_value d \<Longrightarrow>
    fold (debounce_change delay) cs d =
      \<lparr> db_value = db_value d, db_timer = Some (fst (last cs) + delay, snd (last cs)) \<rparr>"
proof (induction delay cs arbitrary: d rule: burst.induct)
  case (1 delay t1 v1 t2 v2 cs)
  let ?d = "debounce_change delay (t1, v1) d"
  have v: "db_value ?d = db_value d" using "1.prems"(3) by (simp add: debounce_change_def)
  have "debounce_at t2 ?d = db_value ?d"
    using "1.prems"(1) by (simp add: debounce_change_def debounce_at_def)
  with "1.IH" [of ?d] "1.prems"(1) v show ?case by simp
qed (auto simp: debounce_change_def split_beta)

text \<open>
  Further fact: while changes come less than the delay apart the debounced value stays what it was; the
  last of them takes effect exactly the delay after it, and none in between ever does.
\<close>

theorem debounce_burst:
  assumes "burst delay cs" "cs \<noteq> []" "db_timer d = None"
  shows "debounce_at now (fold (debounce_change delay) cs d) =
    (if fst (last cs) + delay \<le> now then snd (last cs) else db_value d)"
  using fold_burst [OF assms(1,2), of d] assms(3) by (simp add: debounce_at_def)

theorem debounce_burst_witness:
  "debounce_at 700 (fold (debounce_change 300) [(0, ''u''), (100, ''ub''), (250, ''ubu'')]
     \<lparr> db_value = [], db_timer = None \<rparr>) = ''ubu''"
  using debounce_burst [of 300 "[(0, ''u''), (100, ''ub''), (250, ''ubu'')]" "\<lparr> db_value = [], db_timer = None \<rparr>" 700]
  by simp

end
