(* ===== verification/PeerCountry.thy ===== *)
theory PeerCountry
  imports Prelude
begin

text \<open>
  The flag and name shown for a peer (\<open>renderer/utils/country.ts\<close>). Code points of a flag are
  numbers; the regular expression for private IPv4 addresses is written as its prefixes.
  \<open>display_name\<close> is \<open>Intl.DisplayNames\<close>: \<open>None\<close> where it throws, an empty text for no name.
\<close>

definition GLOBE :: nat where "GLOBE = 0x1F310"
definition HOUSE :: nat where "HOUSE = 0x1F3E0"

definition countryCodeToFlag :: "string \<Rightarrow> nat list" where
  "countryCodeToFlag code =
     (if length code \<noteq> 2 then [GLOBE] else map (\<lambda>c. 127397 + of_char c) (js_upper code))"

definition countryCodeToName :: "(string \<Rightarrow> string option) \<Rightarrow> string \<Rightarrow> string" where
  "countryCodeToName display_name code =
     (if length code \<noteq> 2 then ''Unknown''
      else (case display_name (js_upper code) of
          None \<Rightarrow> js_upper code
        | Some n \<Rightarrow> if n = [] then js_upper code else n))"

text \<open>\<open>/^(10\.|192\.168\.|127\.)|^172\.(1[6-9]|2[0-9]|3[0-1])\./\<close>.\<close>

definition PRIVATE_IPV4 :: "string \<Rightarrow> bool" where
  "PRIVATE_IPV4 ip \<longleftrightarrow>
     starts_with ip ''10.'' \<or> starts_with ip ''192.168.'' \<or> starts_with ip ''127.'' \<or>
     (starts_with ip ''172.'' \<and>
       (case drop 4 ip of
          a # b # c # rest \<Rightarrow> c = CHR ''.'' \<and>
            ((a = CHR ''1'' \<and> is_digit b \<and> digit_val b \<ge> 6) \<or> (a = CHR ''2'' \<and> is_digit b) \<or>
             (a = CHR ''3'' \<and> (b = CHR ''0'' \<or> b = CHR ''1'')))
        | _ \<Rightarrow> False))"

definition getSpecialFlag :: "string \<Rightarrow> nat option" where
  "getSpecialFlag ip =
     (if PRIVATE_IPV4 ip then Some HOUSE
      else if ip = ''::1'' \<or> starts_with ip ''fe80:'' \<or> starts_with ip ''fc00:'' \<or> starts_with ip ''fd00:''
        then Some HOUSE
      else None)"

record peer_country =
  pc_flag :: "nat list"
  pc_name :: string
  pc_title :: string
  pc_isSpecial :: bool

definition getPeerCountryInfo :: "(string \<Rightarrow> string option) \<Rightarrow> string option \<Rightarrow> string \<Rightarrow> peer_country" where
  "getPeerCountryInfo display_name country ip = (case getSpecialFlag ip of
     Some f \<Rightarrow> \<lparr> pc_flag = [f], pc_name = ''Local Network'', pc_title = ''Local Network'', pc_isSpecial = True \<rparr>
   | None \<Rightarrow>
       let code = (case country of Some c \<Rightarrow> c | None \<Rightarrow> []) in
       if code = [] then \<lparr> pc_flag = [GLOBE], pc_name = ''Unknown'', pc_title = ''Unknown'', pc_isSpecial = False \<rparr>
       else
         (let name = countryCodeToName display_name code;
              title = (if name \<noteq> js_upper code then name @ '' ('' @ js_upper code @ '')'' else name) in
          \<lparr> pc_flag = countryCodeToFlag code, pc_name = name, pc_title = title, pc_isSpecial = False \<rparr>))"

subsection \<open>Private addresses\<close>

text \<open>An IPv4 address as four numbers, printed with dots.\<close>

definition show_ipv4 :: "nat \<Rightarrow> nat \<Rightarrow> nat \<Rightarrow> nat \<Rightarrow> string" where
  "show_ipv4 a b c d = show_nat a @ ''.'' @ show_nat b @ ''.'' @ show_nat c @ ''.'' @ show_nat d"

lemma dot_not_digit: "CHR ''.'' \<notin> set (show_nat n)"
  by (rule not_digit_in_show_nat) (simp add: is_digit_def)

lemma prefix_dotted:
  "CHR ''.'' \<notin> set p \<Longrightarrow> CHR ''.'' \<notin> set n \<Longrightarrow>
    prefix (p @ CHR ''.'' # q) (n @ CHR ''.'' # rest) \<longleftrightarrow> n = p \<and> prefix q rest"
proof (induction p arbitrary: n)
  case Nil
  then show ?case by (cases n) auto
next
  case (Cons x p)
  then show ?case by (cases n) auto
qed

lemma show_nat_numeral: "show_nat 10 = ''10''" "show_nat 127 = ''127''" "show_nat 192 = ''192''"
    "show_nat 168 = ''168''" "show_nat 172 = ''172''"
  by code_simp+

lemma starts_octet:
  "CHR ''.'' \<notin> set (show_nat k) \<Longrightarrow> starts_with (show_nat a @ CHR ''.'' # rest) (show_nat k @ ''.'') \<longleftrightarrow> a = k"
  using prefix_dotted [OF _ dot_not_digit [of a], of "show_nat k" "[]" rest] by simp

text \<open>Two-digit numbers.\<close>

lemma show_nat_small: "n < 10 \<Longrightarrow> show_nat n = [digit_char n]"
  by (subst show_nat.simps) simp

lemma show_nat_two: "10 \<le> n \<Longrightarrow> n < 100 \<Longrightarrow> show_nat n = [digit_char (n div 10), digit_char (n mod 10)]"
  by (subst show_nat.simps) (simp add: show_nat_small)

lemma show_nat_long: "100 \<le> n \<Longrightarrow> 3 \<le> length (show_nat n)"
proof -
  assume "100 \<le> n"
  then have "10 \<le> n div 10" by simp
  then have "2 \<le> length (show_nat (n div 10))"
    by (subst show_nat.simps) (simp add: Suc_le_eq)
  with \<open>100 \<le> n\<close> show ?thesis by (subst show_nat.simps) simp
qed

lemma digit_char_eq [simp]: "i < 10 \<Longrightarrow> j < 10 \<Longrightarrow> digit_char i = digit_char j \<longleftrightarrow> i = j"
  using digit_val_digit_char by metis

lemma digit_literals: "CHR ''0'' = digit_char 0" "CHR ''1'' = digit_char 1" "CHR ''2'' = digit_char 2"
    "CHR ''3'' = digit_char 3"
  by code_simp+

definition second_octet :: "string \<Rightarrow> bool" where
  "second_octet t \<longleftrightarrow> (case t of
     a # b # c # rest \<Rightarrow> c = CHR ''.'' \<and>
       ((a = CHR ''1'' \<and> is_digit b \<and> digit_val b \<ge> 6) \<or> (a = CHR ''2'' \<and> is_digit b) \<or>
        (a = CHR ''3'' \<and> (b = CHR ''0'' \<or> b = CHR ''1'')))
   | _ \<Rightarrow> False)"

lemma tens: "q < 10 \<Longrightarrow> r < 10 \<Longrightarrow> (q = 1 \<and> 6 \<le> r) \<or> q = 2 \<or> (q = 3 \<and> (r = 0 \<or> r = 1)) \<longleftrightarrow>
    16 \<le> 10 * q + r \<and> 10 * q + r \<le> 31" for q r :: nat
  by presburger

lemma second_octet: "second_octet (show_nat n @ CHR ''.'' # rest) \<longleftrightarrow> 16 \<le> n \<and> n \<le> 31"
proof -
  consider "n < 10" | "10 \<le> n" "n < 100" | "100 \<le> n" by linarith
  then show ?thesis
  proof cases
    case 1
    have "\<not> is_digit (CHR ''.'')" "CHR ''.'' \<noteq> CHR ''0''" "CHR ''.'' \<noteq> CHR ''1''"
      by (simp_all add: is_digit_def)
    with 1 show ?thesis by (cases rest) (simp_all add: second_octet_def show_nat_small)
  next
    case 2
    let ?q = "n div 10" and ?r = "n mod 10"
    have q: "?q < 10" "?r < 10" and n: "n = 10 * ?q + ?r" using 2 by simp_all
    have "second_octet (show_nat n @ CHR ''.'' # rest) \<longleftrightarrow>
        (?q = 1 \<and> 6 \<le> ?r) \<or> ?q = 2 \<or> (?q = 3 \<and> (?r = 0 \<or> ?r = 1))"
      using q by (simp add: second_octet_def show_nat_two [OF 2] digit_literals)
    also have "\<dots> \<longleftrightarrow> 16 \<le> 10 * ?q + ?r \<and> 10 * ?q + ?r \<le> 31" by (rule tens [OF q])
    also have "\<dots> \<longleftrightarrow> 16 \<le> n \<and> n \<le> 31" using n by simp
    finally show ?thesis .
  next
    case 3
    then obtain x y z zs where s: "show_nat n = x # y # z # zs"
      using show_nat_long [OF 3] by (metis Suc_le_length_iff numeral_3_eq_3)
    have "z \<noteq> CHR ''.''" using dot_not_digit [of n] s by auto
    with s 3 show ?thesis by (simp add: second_octet_def)
  qed
qed

text \<open>
  Further fact: the regular expression is right. An IPv4 address printed in decimal is taken for
  private or local exactly when its first octets are 10, 127, 192.168 or 172.16 to 172.31; its peer
  then is shown as \<open>Local Network\<close>, and any other IPv4 address never is.
\<close>

theorem private_ipv4_octets:
  "PRIVATE_IPV4 (show_ipv4 a b c d) \<longleftrightarrow>
     a = 10 \<or> a = 127 \<or> (a = 192 \<and> b = 168) \<or> (a = 172 \<and> 16 \<le> b \<and> b \<le> 31)"
proof -
  let ?ip = "show_ipv4 a b c d"
  let ?r3 = "show_nat c @ CHR ''.'' # show_nat d"
  have ip: "?ip = show_nat a @ CHR ''.'' # show_nat b @ CHR ''.'' # ?r3" by (simp add: show_ipv4_def)
  have one: "starts_with ?ip (show_nat k @ ''.'') \<longleftrightarrow> a = k" for k
    unfolding ip by (rule starts_octet [OF dot_not_digit])
  have two: "starts_with ?ip (show_nat k @ ''.'' @ show_nat l @ ''.'') \<longleftrightarrow> a = k \<and> b = l" for k l
    unfolding ip
    using prefix_dotted [of "show_nat k" "show_nat a"] starts_octet [OF dot_not_digit, of l b]
    by (simp add: dot_not_digit)
  have "drop 4 ?ip = show_nat b @ CHR ''.'' # ?r3" if "a = 172"
    using that by (simp add: show_ipv4_def show_nat_numeral)
  then have third: "a = 172 \<Longrightarrow> second_octet (drop 4 ?ip) \<longleftrightarrow> 16 \<le> b \<and> b \<le> 31"
    by (simp add: second_octet)
  have "PRIVATE_IPV4 ?ip \<longleftrightarrow> starts_with ?ip (show_nat 10 @ ''.'') \<or>
      starts_with ?ip (show_nat 192 @ ''.'' @ show_nat 168 @ ''.'') \<or> starts_with ?ip (show_nat 127 @ ''.'') \<or>
      (starts_with ?ip (show_nat 172 @ ''.'') \<and> second_octet (drop 4 ?ip))"
    by (simp add: PRIVATE_IPV4_def second_octet_def show_nat_numeral)
  then show ?thesis unfolding one two using third by blast
qed

text \<open>
  Further fact: a private IPv6 address beginning with \<open>fc\<close> or \<open>fd\<close> is recognised only when it begins
  with \<open>fc00:\<close> or \<open>fd00:\<close>; a unique local address such as \<open>fd12::1\<close> is shown with the flag and name
  of whatever country was looked up for it.
\<close>

theorem unique_local_missed:
  "getPeerCountryInfo names (Some code) ''fd12:3456::1'' =
     (if code = [] then \<lparr> pc_flag = [GLOBE], pc_name = ''Unknown'', pc_title = ''Unknown'', pc_isSpecial = False \<rparr>
      else \<lparr> pc_flag = countryCodeToFlag code, pc_name = countryCodeToName names code,
        pc_title = (if countryCodeToName names code \<noteq> js_upper code
          then countryCodeToName names code @ '' ('' @ js_upper code @ '')'' else countryCodeToName names code),
        pc_isSpecial = False \<rparr>) \<and>
   getSpecialFlag (''fd00:'' @ rest) = Some HOUSE"
  by (simp add: getPeerCountryInfo_def getSpecialFlag_def PRIVATE_IPV4_def Let_def)

text \<open>
  Further fact: the flag of a two-letter code is its two regional indicators: for letters both code points
  lie in the block from A to Z and give the upper-case letters back.
\<close>

theorem flag_of_letters:
  assumes "length code = 2" "\<forall>c \<in> set (js_upper code). 65 \<le> (of_char c :: nat) \<and> of_char c \<le> (90 :: nat)"
  shows "(\<forall>p \<in> set (countryCodeToFlag code). 0x1F1E6 \<le> p \<and> p \<le> 0x1F1FF) \<and>
    map (\<lambda>p. char_of (p - 127397)) (countryCodeToFlag code) = js_upper code"
  using assms by (auto simp: countryCodeToFlag_def comp_def map_idI)

theorem flag_of_letters_witness:
  "map (\<lambda>p. char_of (p - 127397)) (countryCodeToFlag ''de'') = ''DE''"
proof -
  have u: "js_upper ''de'' = ''DE''" by code_simp
  have "\<forall>c \<in> set (js_upper ''de''). 65 \<le> (of_char c :: nat) \<and> of_char c \<le> (90 :: nat)"
    unfolding u by simp
  from flag_of_letters [OF _ this] u show ?thesis by simp
qed

end
