(* ===== verification/FilesTab.thy ===== *)
theory FilesTab
  imports FileSelection
begin

text \<open>
  The files of a torrent in the inspector (\<open>components/inspector/FilesTab.tsx\<close>): its own copy
  of \<open>buildFileTree\<close> with priorities instead of marks, loading with retries, and the
  priority of a single file with its optimistic update. As in the theory of the dialog, node
  objects live in a store and arrays of children hold names.
\<close>

subsection \<open>Nodes\<close>

datatype tab_priority = PrSkip | PrNormal | PrHigh

datatype tab_node =
  TabNode (tn_id: string) (tn_name: string) (tn_path: string) (tn_size: int)
    (tn_priority: tab_priority) (tn_downloaded: int) (tn_children: "tab_node list")

record tab_obj =
  to_id :: string
  to_name :: string
  to_path :: string
  to_size :: int
  to_priority :: tab_priority
  to_downloaded :: int
  to_children :: "nat list"

record tab_builder =
  bt_objs :: "tab_obj list"
  bt_nodeMap :: "(string, nat) jmap"
  bt_tree :: "nat list"

text \<open>The priority shown for what the daemon reports.\<close>

definition entry_priority :: "string \<Rightarrow> tab_priority" where
  "entry_priority p = (if p = ''skip'' then PrSkip
     else if p = ''high'' \<or> p = ''download'' then PrHigh else PrNormal)"

definition tab_file :: "nat \<Rightarrow> content_file \<Rightarrow> tab_obj" where
  "tab_file index e =
     \<lparr> to_id = ''file-'' @ show_nat index,
       to_name = str_or (if cf_path e = [] then [] else last (cf_path e))
                   (str_or (full_path e) ''download''),
       to_path = str_or (full_path e) ''download'',
       to_size = cf_size e,
       to_priority = entry_priority (cf_priority e),
       to_downloaded = (if cf_downloaded e then cf_size e else 0),
       to_children = [] \<rparr>"

definition tab_dir :: "string \<Rightarrow> string \<Rightarrow> tab_obj" where
  "tab_dir currentPath part =
     \<lparr> to_id = ''dir-'' @ currentPath, to_name = part, to_path = currentPath, to_size = 0,
       to_priority = PrNormal, to_downloaded = 0, to_children = [] \<rparr>"

subsection \<open>Building\<close>

definition tab_register :: "string \<Rightarrow> tab_obj \<Rightarrow> tab_builder \<Rightarrow> tab_builder" where
  "tab_register key ob b =
     b\<lparr> bt_objs := bt_objs b @ [ob], bt_nodeMap := jm_set key (length (bt_objs b)) (bt_nodeMap b) \<rparr>"

definition tab_push_child :: "nat \<Rightarrow> nat \<Rightarrow> tab_builder \<Rightarrow> tab_builder" where
  "tab_push_child parent child b =
     b\<lparr> bt_objs := (bt_objs b)[parent := (bt_objs b ! parent)
          \<lparr> to_children := to_children (bt_objs b ! parent) @ [child] \<rparr>] \<rparr>"

definition tab_push_root :: "nat \<Rightarrow> tab_builder \<Rightarrow> tab_builder" where
  "tab_push_root child b = b\<lparr> bt_tree := bt_tree b @ [child] \<rparr>"

fun tab_dirs ::
    "nat \<Rightarrow> string list \<Rightarrow> string \<Rightarrow> nat option \<Rightarrow> tab_builder \<Rightarrow> nat option \<times> tab_builder" where
  "tab_dirs i [] currentPath currentParent b = (currentParent, b)"
| "tab_dirs i (part # parts) currentPath currentParent b =
     (let path = extend_path i currentPath part in
      case jm_get (bt_nodeMap b) path of
        Some d \<Rightarrow> tab_dirs (Suc i) parts path (Some d) b
      | None \<Rightarrow>
          (let d = length (bt_objs b);
               b1 = tab_register path (tab_dir path part) b;
               b2 = (case currentParent of
                   Some p \<Rightarrow> tab_push_child p d b1 | None \<Rightarrow> tab_push_root d b1) in
           tab_dirs (Suc i) parts path (Some d) b2))"

definition tab_entry :: "nat \<Rightarrow> content_file \<Rightarrow> tab_builder \<Rightarrow> tab_builder" where
  "tab_entry index e b =
     (let node = length (bt_objs b);
          b1 = tab_register (full_path e) (tab_file index e) b in
      if length (cf_path e) > 1 then
        (case jm_get (bt_nodeMap b1) (js_join ''/'' (butlast (cf_path e))) of
           Some p \<Rightarrow> tab_push_child p node b1
         | None \<Rightarrow>
             (case tab_dirs 0 (butlast (cf_path e)) [] None b1 of
                (Some p, b2) \<Rightarrow> tab_push_child p node b2
              | (None, b2) \<Rightarrow> b2))
      else tab_push_root node b1)"

fun tab_entries :: "nat \<Rightarrow> content_file list \<Rightarrow> tab_builder \<Rightarrow> tab_builder" where
  "tab_entries i [] b = b"
| "tab_entries i (e # es) b = tab_entries (Suc i) es (tab_entry i e b)"

definition tab_empty :: tab_builder where
  "tab_empty = \<lparr> bt_objs = [], bt_nodeMap = [], bt_tree = [] \<rparr>"

fun tab_read :: "nat \<Rightarrow> tab_obj list \<Rightarrow> nat \<Rightarrow> tab_node" where
  "tab_read 0 objs n =
     (let ob = objs ! n in
      TabNode (to_id ob) (to_name ob) (to_path ob) (to_size ob) (to_priority ob) (to_downloaded ob) [])"
| "tab_read (Suc depth) objs n =
     (let ob = objs ! n in
      TabNode (to_id ob) (to_name ob) (to_path ob) (to_size ob) (to_priority ob) (to_downloaded ob)
        (map (tab_read depth objs) (to_children ob)))"

definition buildFileTree_tab :: "content_file list \<Rightarrow> tab_node list" where
  "buildFileTree_tab es =
     (let b = tab_entries 0 es tab_empty in
      map (tab_read (longest es) (bt_objs b)) (bt_tree b))"

subsection \<open>The tree of the dialog\<close>

fun erase_node :: "tab_node \<Rightarrow> file_node" where
  "erase_node (TabNode i nm p s pr d cs) = FileNode i nm p s (pr \<noteq> PrSkip) (map erase_node cs)"

definition erase_obj :: "tab_obj \<Rightarrow> node_obj" where
  "erase_obj ob = \<lparr> no_id = to_id ob, no_name = to_name ob, no_path = to_path ob, no_size = to_size ob,
     no_selected = (to_priority ob \<noteq> PrSkip), no_children = to_children ob \<rparr>"

definition erase_builder :: "tab_builder \<Rightarrow> tree_builder" where
  "erase_builder b = \<lparr> tb_objs = map erase_obj (bt_objs b), tb_nodeMap = bt_nodeMap b, tb_tree = bt_tree b \<rparr>"

lemma erase_fields [simp]:
  "tb_nodeMap (erase_builder b) = bt_nodeMap b" "length (tb_objs (erase_builder b)) = length (bt_objs b)"
  by (simp_all add: erase_builder_def)

lemma erase_tab_file [simp]: "erase_obj (tab_file i e) = file_obj i e"
  by (simp add: erase_obj_def tab_file_def file_obj_def entry_priority_def)

lemma erase_tab_dir [simp]: "erase_obj (tab_dir p w) = dir_obj p w"
  by (simp add: erase_obj_def tab_dir_def dir_obj_def)

lemma erase_register [simp]:
  "erase_builder (tab_register k ob b) = register k (erase_obj ob) (erase_builder b)"
  by (simp add: erase_builder_def tab_register_def register_def)

lemma erase_push_child [simp]:
  "erase_builder (tab_push_child p c b) = push_child p c (erase_builder b)"
proof (cases "p < length (bt_objs b)")
  case True
  have "erase_obj ((bt_objs b ! p)\<lparr> to_children := to_children (bt_objs b ! p) @ [c] \<rparr>) =
      (map erase_obj (bt_objs b) ! p)\<lparr> no_children := no_children (map erase_obj (bt_objs b) ! p) @ [c] \<rparr>"
    using True by (simp add: erase_obj_def)
  then show ?thesis
    by (simp add: erase_builder_def tab_push_child_def push_child_def map_update)
qed (simp add: erase_builder_def tab_push_child_def push_child_def list_update_beyond)

lemma erase_push_root [simp]: "erase_builder (tab_push_root c b) = push_root c (erase_builder b)"
  by (simp add: erase_builder_def tab_push_root_def push_root_def)

lemma erase_tab_dirs:
  "tab_dirs i parts cur par b = (r, b') \<Longrightarrow> make_dirs i parts cur par (erase_builder b) = (r, erase_builder b')"
  by (induction i parts cur par b rule: tab_dirs.induct)
    (auto simp: Let_def attach_def split: option.splits)

lemma erase_tab_entry [simp]: "erase_builder (tab_entry i e b) = add_entry i e (erase_builder b)"
proof -
  let ?b1 = "tab_register (full_path e) (tab_file i e) b"
  obtain r b2 where d: "tab_dirs 0 (butlast (cf_path e)) [] None ?b1 = (r, b2)"
    by (metis surj_pair)
  have m: "tb_nodeMap (register (full_path e) (file_obj i e) (erase_builder b)) = bt_nodeMap ?b1"
    by (simp add: register_def tab_register_def)
  have e: "make_dirs 0 (butlast (cf_path e)) [] None (register (full_path e) (file_obj i e) (erase_builder b)) =
      (r, erase_builder b2)"
    using erase_tab_dirs [OF d] by simp
  show ?thesis
    by (cases "length (cf_path e) > 1";
        cases "jm_get (bt_nodeMap ?b1) (js_join ''/'' (butlast (cf_path e)))"; cases r)
      (simp_all add: tab_entry_def add_entry_def Let_def d e m del: map_simps)
qed

lemma erase_tab_entries [simp]: "erase_builder (tab_entries i es b) = add_entries i es (erase_builder b)"
  by (induction i es b rule: tab_entries.induct) simp_all

lemma erase_read:
  "n < length objs \<Longrightarrow> \<forall>ob \<in> set objs. \<forall>c \<in> set (to_children ob). c < length objs \<Longrightarrow>
    erase_node (tab_read d objs n) = read_node d (map erase_obj objs) n"
proof (induction d arbitrary: n)
  case (Suc d)
  have "c < length objs" if "c \<in> set (to_children (objs ! n))" for c
    using Suc.prems that nth_mem by blast
  with Suc show ?case by (simp add: Let_def erase_obj_def)
qed (simp add: Let_def erase_obj_def)

lemma builder_in_range:
  assumes "builder_ok bound ks {#} b"
  shows "(\<forall>ob \<in> set (tb_objs b). \<forall>c \<in> set (no_children ob). c < length (tb_objs b)) \<and>
    (\<forall>n \<in> set (tb_tree b). n < length (tb_objs b))"
proof -
  have own: "mset [0..<length (tb_objs b)] = owned b" using assms by (simp add: builder_ok_def)
  have lt: "c < length (tb_objs b)" if "c \<in># owned b" for c
  proof -
    from that have "c \<in># mset [0..<length (tb_objs b)]" unfolding own .
    then show ?thesis by (simp only: set_mset_mset) simp
  qed
  have "c \<in># owned b" if "i < length (tb_objs b)" "c \<in> set (no_children (tb_objs b ! i))" for i c
    using that by (auto simp: owned_def kids_def)
  moreover have "c \<in># owned b" if "c \<in> set (tb_tree b)" for c
    using that by (simp add: owned_def)
  ultimately show ?thesis using lt by (metis in_set_conv_nth)
qed

lemma built_in_range:
  "let b = add_entries 0 es empty_builder in
    (\<forall>ob \<in> set (tb_objs b). \<forall>c \<in> set (no_children ob). c < length (tb_objs b)) \<and>
    (\<forall>n \<in> set (tb_tree b). n < length (tb_objs b))"
proof -
  let ?b = "add_entries 0 es empty_builder"
  have "builder_ok (longest es) [] {#} empty_builder"
    by (simp add: builder_ok_def empty_builder_def owned_def kids_def jm_simps)
  from add_entries_ok [OF this, of es 0] longest_le obtain ks where "builder_ok (longest es) ks {#} ?b"
    by blast
  from builder_in_range [OF this] show ?thesis by (simp only: Let_def)
qed

lemma erase_tree: "map erase_node (buildFileTree_tab es) = buildFileTree es"
proof -
  let ?b = "tab_entries 0 es tab_empty"
  have e: "erase_builder tab_empty = empty_builder"
    by (simp add: erase_builder_def tab_empty_def empty_builder_def)
  have objs: "map erase_obj (bt_objs ?b) = tb_objs (add_entries 0 es empty_builder)"
      "bt_tree ?b = tb_tree (add_entries 0 es empty_builder)"
    using erase_tab_entries [of 0 es tab_empty, unfolded e, symmetric] by (simp_all add: erase_builder_def)
  have kids: "no_children (erase_obj ob) = to_children ob" for ob by (simp add: erase_obj_def)
  have r: "\<forall>ob \<in> set (bt_objs ?b). \<forall>c \<in> set (to_children ob). c < length (bt_objs ?b)"
      "\<forall>n \<in> set (bt_tree ?b). n < length (bt_objs ?b)"
    using built_in_range [of es] by (simp_all add: Let_def objs(2) kids flip: objs(1))
  then have "map (erase_node \<circ> tab_read (longest es) (bt_objs ?b)) (bt_tree ?b) =
      map (read_node (longest es) (map erase_obj (bt_objs ?b))) (bt_tree ?b)"
    by (intro map_cong refl) (simp add: erase_read)
  then show ?thesis
    by (simp add: buildFileTree_tab_def buildFileTree_def Let_def objs)
qed

subsection \<open>The tab\<close>

record files_tab =
  ft_files :: "tab_node list"
  ft_loading :: bool
  ft_error :: "string option"
  ft_expanded :: "string set"

datatype tab_out =
    TabError string
  | TabSuccess string
  | TabUpdated
  | TabInvalidate
  | TabPatch "string list" string

text \<open>The effect when the torrent or the connection changes: whether it loads, and the state.\<close>

definition tab_effect :: "bool \<Rightarrow> files_tab \<Rightarrow> bool \<times> files_tab" where
  "tab_effect online t =
     (if \<not> online then (False, t\<lparr> ft_files := [], ft_error := None, ft_loading := False \<rparr>)
      else (True, t\<lparr> ft_loading := True, ft_error := None \<rparr>))"

definition tab_options :: "nat \<Rightarrow> fetch_options" where
  "tab_options attempt = DEFAULT_OPTIONS
     \<lparr> fo_retries := 2, fo_retryDelay := 500, fo_forceRefresh := (attempt > 0) \<rparr>"

definition tab_retryable :: "string \<Rightarrow> bool" where
  "tab_retryable message \<longleftrightarrow> js_includes message ''Connection failed'' \<or> js_includes message ''fetch'' \<or>
     js_includes message ''network''"

datatype tab_next = TabDone | TabRetry time

definition tab_settle ::
    "thrown + torrent_content \<Rightarrow> nat \<Rightarrow> files_tab \<Rightarrow> tab_next \<times> tab_out list \<times> files_tab" where
  "tab_settle reply attempt t = (case reply of
     Inr content \<Rightarrow> (TabDone, [], t\<lparr> ft_files := buildFileTree_tab (tcn_files content), ft_loading := False, ft_error := None \<rparr>)
   | Inl e \<Rightarrow>
       (let message = message_or ''Failed to load files'' e in
        if attempt < 3 \<and> tab_retryable message then (TabRetry (1000 * 2 ^ attempt), [], t)
        else (TabDone, [TabError message], t\<lparr> ft_error := Some message, ft_loading := False \<rparr>)))"

function tab_load ::
    "(nat \<Rightarrow> thrown + torrent_content) \<Rightarrow> nat \<Rightarrow> files_tab \<Rightarrow> time list \<times> tab_out list \<times> files_tab" where
  "tab_load fetch attempt t = (case tab_settle (fetch attempt) attempt t of
     (TabDone, out, t') \<Rightarrow> ([], out, t')
   | (TabRetry w, out, t') \<Rightarrow>
       (case tab_load fetch (Suc attempt) t' of (ws, out', t'') \<Rightarrow> (w # ws, out @ out', t'')))"
  by pat_completeness auto

lemma tab_settle_retry: "tab_settle reply attempt t = (TabRetry w, out, t') \<Longrightarrow>
    attempt < 3 \<and> out = [] \<and> t' = t \<and> w = 1000 * 2 ^ attempt \<and> (\<exists>e. reply = Inl e)"
  by (auto simp: tab_settle_def Let_def split: sum.splits if_splits)

termination tab_load
  by (relation "measure (\<lambda>(f, a, t). 3 - a)") (auto dest!: sym [THEN tab_settle_retry])

declare tab_load.simps [simp del]

text \<open>The button \<open>RETRY\<close>, and the reload after a failed change.\<close>

definition handleRetry_tab :: "bool \<Rightarrow> thrown + torrent_content \<Rightarrow> files_tab \<Rightarrow> tab_out list \<times> files_tab" where
  "handleRetry_tab online reply t =
     (if \<not> online then ([], t\<lparr> ft_loading := False \<rparr>)
      else (case reply of
          Inr content \<Rightarrow> ([TabInvalidate], t\<lparr> ft_error := None, ft_files := buildFileTree_tab (tcn_files content), ft_loading := False \<rparr>)
        | Inl e \<Rightarrow>
            (let message = message_or ''Failed to load files'' e in
             ([TabInvalidate, TabError message], t\<lparr> ft_error := Some message, ft_loading := False \<rparr>))))"

fun findFileNode :: "string \<Rightarrow> tab_node list \<Rightarrow> tab_node option" where
  "findFileNode targetId [] = None"
| "findFileNode targetId (TabNode i nm p s pr d cs # ns) =
     (if i = targetId then Some (TabNode i nm p s pr d cs)
      else (case findFileNode targetId cs of
          Some found \<Rightarrow> Some found | None \<Rightarrow> findFileNode targetId ns))"

fun updateNode :: "string \<Rightarrow> tab_priority \<Rightarrow> tab_node \<Rightarrow> tab_node" where
  "updateNode fileId priority (TabNode i nm p s pr d cs) =
     (if i = fileId then TabNode i nm p s priority d cs
      else TabNode i nm p s pr d (map (updateNode fileId priority) cs))"

definition apiPriority :: "tab_priority \<Rightarrow> string" where
  "apiPriority p = (case p of PrHigh \<Rightarrow> ''download'' | PrNormal \<Rightarrow> ''normal'' | PrSkip \<Rightarrow> ''skip'')"

text \<open>\<open>reply\<close> answers the \<open>PATCH\<close>, \<open>again\<close> the reload after its failure.\<close>

definition handlePriorityChange ::
    "bool \<Rightarrow> string \<Rightarrow> tab_priority \<Rightarrow> thrown + unit \<Rightarrow> thrown + torrent_content \<Rightarrow> files_tab \<Rightarrow>
      tab_out list \<times> files_tab" where
  "handlePriorityChange online fileId priority reply again t =
     (if \<not> online then ([], t)
      else (case findFileNode fileId (ft_files t) of
          None \<Rightarrow> ([TabError ''File not found''], t)
        | Some fileNode \<Rightarrow>
            (let pathArray = path_parts (tn_path fileNode) in
             if pathArray = [] then ([TabError ''Invalid file path''], t)
             else
               (let t1 = t\<lparr> ft_files := map (updateNode fileId priority) (ft_files t) \<rparr>;
                    req = TabPatch pathArray (apiPriority priority) in
                case reply of
                  Inr _ \<Rightarrow> ([req, TabInvalidate, TabUpdated, TabSuccess ''File priority updated''], t1)
                | Inl e \<Rightarrow>
                    (case handleRetry_tab online again t1 of
                      (out, t2) \<Rightarrow> ([req, TabInvalidate, TabError (message_or ''Failed to update file priority'' e)] @ out, t2))))))"

definition toggleExpand_tab :: "string \<Rightarrow> files_tab \<Rightarrow> files_tab" where
  "toggleExpand_tab path t = t\<lparr> ft_expanded :=
     (if path \<in> ft_expanded t then ft_expanded t - {path} else insert path (ft_expanded t)) \<rparr>"

text \<open>The progress of a row, in percent.\<close>

definition row_progress :: "tab_node \<Rightarrow> rat" where
  "row_progress n = (if tn_size n > 0 then of_int (tn_downloaded n) / of_int (tn_size n) * 100 else 0)"

subsection \<open>Lemmas on ids\<close>

fun tab_preorder :: "tab_node \<Rightarrow> tab_node list" where
  "tab_preorder (TabNode i nm p s pr d cs) = TabNode i nm p s pr d cs # concat (map tab_preorder cs)"

definition tab_nodes :: "tab_node list \<Rightarrow> tab_node list" where
  "tab_nodes ns = concat (map tab_preorder ns)"

lemma erase_fields_node [simp]: "n_id (erase_node n) = tn_id n" "n_path (erase_node n) = tn_path n"
  by (cases n; simp)+

lemma preorder_erase: "preorder (erase_node n) = map erase_node (tab_preorder n)"
  by (induction n) (simp add: preorder.simps [of "FileNode _ _ _ _ _ _"] map_concat comp_def cong: map_cong)

lemma all_nodes_erase: "all_nodes (map erase_node ns) = map erase_node (tab_nodes ns)"
  by (simp add: all_nodes_def tab_nodes_def map_concat comp_def preorder_erase)

lemma findFileNode_find: "findFileNode t ns = List.find (\<lambda>n. tn_id n = t) (tab_nodes ns)"
proof (induction t ns rule: findFileNode.induct)
  case (2 t i nm p s pr d cs ns)
  have app: "List.find P (xs @ ys) = (case List.find P xs of Some x \<Rightarrow> Some x | None \<Rightarrow> List.find P ys)"
    for P :: "tab_node \<Rightarrow> bool" and xs ys by (induction xs) auto
  from 2 show ?case
    by (auto simp: tab_nodes_def app split: option.splits)
qed (simp add: tab_nodes_def)

lemma file_views_nth: "i < length es \<Longrightarrow> file_views k es ! i = obj_view (file_obj (k + i) (es ! i))"
proof (induction k es arbitrary: i rule: file_views.induct)
  case (2 k e es)
  then show ?case by (cases i) simp_all
qed simp

lemma length_file_views [simp]: "length (file_views k es) = length es"
  by (induction k es rule: file_views.induct) simp_all

lemma file_view_ids: "map fst (file_views k es) = map (\<lambda>i. ''file-'' @ show_nat i) [k..<k + length es]"
  by (rule nth_equalityI) (simp_all add: file_views_nth obj_view_def file_obj_def)

lemma tree_ids_distinct: "distinct (map n_id (all_nodes (buildFileTree es)))"
proof -
  obtain ds where ds: "distinct (map fst ds)"
    "mset (map node_view (all_nodes (buildFileTree es))) = mset (file_views 0 es) + mset (map dir_view ds)"
    using build_views by blast
  have "n_id = fst \<circ> node_view" by (simp add: node_view_def fun_eq_iff)
  then have "mset (map n_id (all_nodes (buildFileTree es))) = mset (map fst (file_views 0 es @ map dir_view ds))"
    using arg_cong [OF ds(2), of "image_mset fst"] by (simp flip: mset_map)
  moreover have "map fst (map dir_view ds) = map (\<lambda>p. ''dir-'' @ p) (map fst ds)"
    by (simp add: dir_view_def obj_view_def dir_obj_def)
  then have "distinct (map fst (file_views 0 es @ map dir_view ds))"
    using ds(1) by (simp add: file_view_ids distinct_map inj_on_def) auto
  ultimately show ?thesis by (metis mset_eq_imp_distinct_iff)
qed

lemma entry_in_tree:
  "i < length es \<Longrightarrow> \<exists>n \<in> set (all_nodes (buildFileTree es)). node_view n = obj_view (file_obj i (es ! i))"
proof -
  assume i: "i < length es"
  obtain ds where "mset (map node_view (all_nodes (buildFileTree es))) = mset (file_views 0 es) + mset (map dir_view ds)"
    using build_views by blast
  moreover have "obj_view (file_obj i (es ! i)) \<in> set (file_views 0 es)"
    using file_views_nth [OF i, of 0] i by (metis add_0 length_file_views nth_mem)
  ultimately have "obj_view (file_obj i (es ! i)) \<in> set (map node_view (all_nodes (buildFileTree es)))"
    using mset_eq_setD [of "map node_view (all_nodes (buildFileTree es))" "file_views 0 es @ map dir_view ds"] by simp
  then show ?thesis by auto
qed

lemma found_entry:
  assumes "i < length es"
  shows "\<exists>n. findFileNode (''file-'' @ show_nat i) (buildFileTree_tab es) = Some n \<and> tn_path n = entry_path (es ! i)"
proof -
  let ?ns = "tab_nodes (buildFileTree_tab es)"
  have all: "all_nodes (buildFileTree es) = map erase_node ?ns"
    by (simp add: all_nodes_erase flip: erase_tree)
  have d: "distinct (map tn_id ?ns)"
    using tree_ids_distinct [of es] by (simp add: all comp_def)
  obtain n where n: "n \<in> set ?ns" "node_view (erase_node n) = obj_view (file_obj i (es ! i))"
    using entry_in_tree [OF assms] all by auto
  then have v: "tn_id n = ''file-'' @ show_nat i" "tn_path n = entry_path (es ! i)"
    by (simp_all add: node_view_def obj_view_def file_obj_def entry_path_def)
  obtain m where m: "List.find (\<lambda>n. tn_id n = ''file-'' @ show_nat i) ?ns = Some m"
  proof -
    have "List.find (\<lambda>n. tn_id n = ''file-'' @ show_nat i) ?ns \<noteq> None"
      using n(1) v(1) by (auto simp: find_None_iff)
    then show ?thesis using that by auto
  qed
  then have "m \<in> set ?ns" "tn_id m = tn_id n" unfolding v(1) find_Some_iff by auto
  with d n(1) have "m = n" unfolding distinct_map inj_on_def by blast
  with m v show ?thesis by (simp add: findFileNode_find)
qed

text \<open>What a row shows besides its children, and the effect of a changed priority on it.\<close>

definition tab_view :: "tab_node \<Rightarrow> string \<times> string \<times> int \<times> tab_priority \<times> int" where
  "tab_view n = (tn_id n, tn_path n, tn_size n, tn_priority n, tn_downloaded n)"

definition with_priority :: "string \<Rightarrow> tab_priority \<Rightarrow> string \<times> string \<times> int \<times> tab_priority \<times> int \<Rightarrow>
    string \<times> string \<times> int \<times> tab_priority \<times> int" where
  "with_priority fileId pr v = (case v of (i, p, s, q, d) \<Rightarrow> (i, p, s, if i = fileId then pr else q, d))"

lemma with_priority_id: "fst v \<noteq> f \<Longrightarrow> with_priority f pr v = v"
  by (auto simp: with_priority_def split: prod.splits)

lemma fst_tab_view [simp]: "fst (tab_view n) = tn_id n"
  by (simp add: tab_view_def)

lemma updateNode_views:
  "distinct (map tn_id (tab_preorder n)) \<Longrightarrow>
    map tab_view (tab_preorder (updateNode f pr n)) = map (with_priority f pr) (map tab_view (tab_preorder n))"
proof (induction n)
  case (TabNode i nm p s q d cs)
  show ?case
  proof (cases "i = f")
    case True
    with TabNode.prems have "\<forall>m \<in> set (concat (map tab_preorder cs)). tn_id m \<noteq> f" by auto
    then have "map (with_priority f pr) (map tab_view (concat (map tab_preorder cs))) =
        map tab_view (concat (map tab_preorder cs))"
    proof (intro map_idI with_priority_id)
      fix v assume "v \<in> set (map tab_view (concat (map tab_preorder cs)))"
      then obtain m where "m \<in> set (concat (map tab_preorder cs))" "v = tab_view m" by auto
      then show "fst v \<noteq> f" using \<open>\<forall>m \<in> set (concat (map tab_preorder cs)). tn_id m \<noteq> f\<close> by (metis fst_tab_view)
    qed
    with True show ?thesis by (simp add: tab_view_def with_priority_def)
  next
    case False
    have "map tab_view (tab_preorder (updateNode f pr c)) = map (with_priority f pr) (map tab_view (tab_preorder c))"
      if c: "c \<in> set cs" for c
    proof (rule TabNode.IH [OF c])
      have "sublist (tab_preorder c) (concat (map tab_preorder cs))"
        using c by (metis concat.simps(2) concat_append list.simps(9) map_append split_list sublist_appendI)
      with TabNode.prems show "distinct (map tn_id (tab_preorder c))"
        by (auto simp: sublist_def simp del: map_concat)
    qed
    then have "map tab_view (concat (map (tab_preorder \<circ> updateNode f pr) cs)) =
        map (with_priority f pr) (map tab_view (concat (map tab_preorder cs)))"
      by (simp add: map_concat comp_def cong: map_cong)
    moreover have "tab_view (TabNode i nm p s q d (map (updateNode f pr) cs)) =
        with_priority f pr (tab_view (TabNode i nm p s q d cs))"
      using False by (simp add: tab_view_def with_priority_def)
    ultimately show ?thesis using False by (simp add: comp_def)
  qed
qed

lemma updateNodes_views:
  "distinct (map tn_id (tab_nodes ns)) \<Longrightarrow>
    map tab_view (tab_nodes (map (updateNode f pr) ns)) = map (with_priority f pr) (map tab_view (tab_nodes ns))"
  by (induction ns) (simp_all add: tab_nodes_def updateNode_views)

lemma tab_ids_distinct: "distinct (map tn_id (tab_nodes (buildFileTree_tab es)))"
  using tree_ids_distinct [of es] by (simp add: all_nodes_erase comp_def flip: erase_tree)

lemma priority_change:
  assumes "findFileNode fid (ft_files t) = Some n" "path_parts (tn_path n) = p" "p \<noteq> []"
    "distinct (map tn_id (tab_nodes (ft_files t)))"
    "handlePriorityChange True fid pr reply again t = (out, t')"
  shows "hd out = TabPatch p (apiPriority pr) \<and>
    (\<forall>x \<in> set (tl out). \<forall>p q. x \<noteq> TabPatch p q) \<and>
    (reply = Inr () \<longrightarrow> map tab_view (tab_nodes (ft_files t')) =
       map (with_priority fid pr) (map tab_view (tab_nodes (ft_files t)))) \<and>
    (\<forall>e c. reply = Inl e \<longrightarrow> again = Inr c \<longrightarrow>
       ft_files t' = buildFileTree_tab (tcn_files c) \<and> ft_error t' = None)"
  using assms(3,5) updateNodes_views [OF assms(4), of fid pr]
  by (cases reply; cases again) (auto simp: handlePriorityChange_def Let_def assms(1,2) handleRetry_tab_def)

text \<open>
  Property C36: the inspector and the dialog show the same tree. Each has its own
  \<open>buildFileTree\<close>; for every list of entries, the inspector's tree with a priority read as
  selected unless it is \<open>skip\<close> is the dialog's tree, node for node, and a priority shown and sent
  back is shown again unchanged.
\<close>

theorem inspector_tree_is_dialog_tree:
  "map erase_node (buildFileTree_tab es) = buildFileTree es \<and>
   entry_priority (apiPriority pr) = pr"
  by (simp add: erase_tree entry_priority_def apiPriority_def split: tab_priority.splits)

text \<open>
  Further fact: changing the priority of the file with index \<open>i\<close> in the inspector sends exactly
  one request, for that file's path. If the daemon accepts it that row alone shows the new
  priority; if not, and the list can be read again, the tree shown is the daemon's.
\<close>

theorem priority_change_hits_the_file:
  assumes "ft_files t = buildFileTree_tab es" "i < length es" "clean_path (cf_path (es ! i))"
    and "handlePriorityChange True (''file-'' @ show_nat i) pr reply again t = (out, t')"
  shows "hd out = TabPatch (cf_path (es ! i)) (apiPriority pr) \<and>
    (\<forall>x \<in> set (tl out). \<forall>p q. x \<noteq> TabPatch p q) \<and>
    (reply = Inr () \<longrightarrow> map tab_view (tab_nodes (ft_files t')) =
       map (with_priority (''file-'' @ show_nat i) pr) (map tab_view (tab_nodes (ft_files t)))) \<and>
    (\<forall>e c. reply = Inl e \<longrightarrow> again = Inr c \<longrightarrow>
       ft_files t' = buildFileTree_tab (tcn_files c) \<and> ft_error t' = None)"
proof -
  obtain n where n: "findFileNode (''file-'' @ show_nat i) (ft_files t) = Some n" "tn_path n = entry_path (es ! i)"
    using found_entry [OF assms(2)] assms(1) by auto
  have p: "path_parts (tn_path n) = cf_path (es ! i)" using parts_of_entry [OF assms(3)] n(2) by simp
  have ne: "cf_path (es ! i) \<noteq> []" using assms(3) by (auto simp: clean_path_def proper_path_def)
  have d: "distinct (map tn_id (tab_nodes (ft_files t)))" using tab_ids_distinct assms(1) by simp
  show ?thesis by (rule priority_change [OF n(1) p ne d assms(4)])
qed

definition sample_tab :: files_tab where
  "sample_tab = \<lparr> ft_files = buildFileTree_tab sample_entries, ft_loading = False, ft_error = None, ft_expanded = {} \<rparr>"

theorem priority_change_hits_the_file_witness:
  "hd (fst (handlePriorityChange True (''file-'' @ show_nat 1) PrHigh (Inr ()) (Inl ThrownOther) sample_tab)) =
    TabPatch [''Album'', ''b.flac''] ''download''"
  using priority_change_hits_the_file [of sample_tab sample_entries 1 PrHigh "Inr ()" "Inl ThrownOther"]
  by (cases "handlePriorityChange True (''file-'' @ show_nat 1) PrHigh (Inr ()) (Inl ThrownOther) sample_tab")
    (simp add: sample_tab_def sample_entries_def clean_path_def proper_path_def apiPriority_def)

lemma tab_load_waits:
  "tab_load fetch attempt t = (ws, out, t') \<Longrightarrow> attempt \<le> 3 \<Longrightarrow>
    \<exists>n. attempt + length ws = n \<and> n \<le> 3 \<and> ws = map (\<lambda>k. 1000 * 2 ^ k) [attempt..<n] \<and>
      (\<forall>k \<in> {attempt..<n}. \<exists>e. fetch k = Inl e) \<and>
      (\<exists>out'. tab_settle (fetch n) n t = (TabDone, out, t'))"
proof (induction fetch attempt t arbitrary: ws out t' rule: tab_load.induct)
  case (1 fetch attempt t)
  obtain nx o1 t1 where s: "tab_settle (fetch attempt) attempt t = (nx, o1, t1)" by (metis prod_cases3)
  show ?case
  proof (cases nx)
    case TabDone
    with s "1.prems" have "ws = [] \<and> out = o1 \<and> t' = t1" by (simp add: tab_load.simps [of fetch attempt])
    with s TabDone "1.prems"(2) show ?thesis by auto
  next
    case (TabRetry w)
    from tab_settle_retry [OF s [unfolded TabRetry]]
    have r: "attempt < 3" "o1 = []" "t1 = t" "w = 1000 * 2 ^ attempt" "\<exists>e. fetch attempt = Inl e" by auto
    obtain ws2 o2 t2 where l: "tab_load fetch (Suc attempt) t1 = (ws2, o2, t2)" by (metis prod_cases3)
    have e: "ws = w # ws2" "out = o2" "t' = t2"
      using "1.prems"(1) s TabRetry l r(2) by (simp_all add: tab_load.simps [of fetch attempt])
    from "1.IH" [OF s [symmetric] TabRetry refl l] r(1) obtain n where
      n: "Suc attempt + length ws2 = n" "n \<le> 3" "ws2 = map (\<lambda>k. 1000 * 2 ^ k) [Suc attempt..<n]"
        "\<forall>k \<in> {Suc attempt..<n}. \<exists>e. fetch k = Inl e" "tab_settle (fetch n) n t1 = (TabDone, o2, t2)"
      by (metis Suc_leI)
    have up: "[attempt..<n] = attempt # [Suc attempt..<n]" using n(1) by (simp add: upt_conv_Cons)
    have "\<forall>k \<in> {attempt..<n}. \<exists>e. fetch k = Inl e"
      using n(4) r(5) by (metis Suc_leI atLeastLessThan_iff le_neq_implies_less)
    with n e r up show ?thesis by auto
  qed
qed

text \<open>
  Further fact: loading the files of the inspector ends after at most four requests, with waits of
  1, 2 and 4 seconds; then the tab is not loading, and either shows the tree of the reply without an
  error or has reported its error exactly once.
\<close>

theorem inspector_load_ends:
  "case tab_load fetch 0 t of (ws, out, t') \<Rightarrow>
     length ws \<le> 3 \<and> ws = map (\<lambda>k. 1000 * 2 ^ k) [0..<length ws] \<and> \<not> ft_loading t' \<and>
     (case fetch (length ws) of
        Inr c \<Rightarrow> out = [] \<and> ft_error t' = None \<and> ft_files t' = buildFileTree_tab (tcn_files c)
      | Inl e \<Rightarrow> (\<exists>m. out = [TabError m] \<and> ft_error t' = Some m))"
proof -
  obtain ws out t' where l: "tab_load fetch 0 t = (ws, out, t')" by (metis prod_cases3)
  from tab_load_waits [OF l] have n: "length ws \<le> 3" "ws = map (\<lambda>k. 1000 * 2 ^ k) [0..<length ws]"
    "tab_settle (fetch (length ws)) (length ws) t = (TabDone, out, t')" by auto
  then show ?thesis
    unfolding l by (auto simp: tab_settle_def Let_def split: sum.splits if_splits)
qed

end
