(* ===== verification/Swarm.thy ===== *)
theory Swarm
  imports Errors Types PeerCountry JsSort
begin

text \<open>
  Peers and trackers of a torrent as the inspector shows them: \<open>PeersTab.tsx\<close>,
  \<open>TrackersTab.tsx\<close>, \<open>SwarmTab.tsx\<close> and the two requests of \<open>OverviewTab.tsx\<close>, all under
  \<open>components/inspector/\<close>. \<open>collate\<close> is \<open>localeCompare\<close>, \<open>display_name\<close> that of the country
  names. Rates and counts are whole numbers, a progress is a fraction.
\<close>

subsection \<open>Peers\<close>

record peer =
  pe_id :: string
  pe_ip :: string
  pe_port :: nat
  pe_client :: "string option"
  pe_down_rate :: int
  pe_up_rate :: int
  pe_uploaded :: "int option"
  pe_progress :: "rat option"
  pe_snubbed :: bool
  pe_choked :: bool
  pe_incoming :: bool
  pe_encrypted :: bool
  pe_country :: "string option"

record peers_tab =
  pt_peers :: "peer list"
  pt_loading :: bool

text \<open>\<open>fetchPeers\<close> of the peers tab: only a client error clears the list and is reported.\<close>

definition fetchPeers :: "bool \<Rightarrow> thrown + peer list \<Rightarrow> peers_tab \<Rightarrow> string option \<times> peers_tab" where
  "fetchPeers online reply t =
     (if \<not> online then (None, t)
      else (case reply of
          Inr ps \<Rightarrow> (None, t\<lparr> pt_peers := ps, pt_loading := False \<rparr>)
        | Inl e \<Rightarrow>
            if isClientError e
              then (Some (message_or ''Failed to fetch peers'' e), t\<lparr> pt_peers := [], pt_loading := False \<rparr>)
            else (None, t\<lparr> pt_loading := False \<rparr>)))"

definition is_seed :: "peer \<Rightarrow> bool" where
  "is_seed p \<longleftrightarrow> (case pe_progress p of Some x \<Rightarrow> x \<ge> 1 | None \<Rightarrow> False)"

definition count_of :: "('a \<Rightarrow> bool) \<Rightarrow> 'a list \<Rightarrow> nat" where
  "count_of P xs = length (filter P xs)"



definition str_opt :: "string option \<Rightarrow> string" where
  "str_opt s = (case s of Some x \<Rightarrow> x | None \<Rightarrow> [])"

text \<open>The text filter of the tab.\<close>

definition peer_matches :: "(string \<Rightarrow> string option) \<Rightarrow> string \<Rightarrow> peer \<Rightarrow> bool" where
  "peer_matches display_name lowerFilter p \<longleftrightarrow>
     js_includes (js_lower (pe_ip p)) lowerFilter \<or>
     (case pe_client p of Some c \<Rightarrow> js_includes (js_lower c) lowerFilter | None \<Rightarrow> False) \<or>
     (case pe_country p of Some c \<Rightarrow> js_includes (js_lower c) lowerFilter | None \<Rightarrow> False) \<or>
     js_includes (js_lower (pc_name (getPeerCountryInfo display_name (pe_country p) (pe_ip p)))) lowerFilter"

datatype peer_field =
    FieldIp | FieldCountry | FieldClient | FieldProgress | FieldDownRate | FieldUpRate | FieldUploaded | FieldStatus

definition activity_score :: "peer \<Rightarrow> nat" where
  "activity_score p = (if pe_snubbed p then 0 else if pe_choked p then 1
     else 2 + (if pe_down_rate p > 0 then 1 else 0) + (if pe_up_rate p > 0 then 1 else 0))"

definition peer_cmp :: "(string \<Rightarrow> string \<Rightarrow> rat) \<Rightarrow> peer_field \<Rightarrow> peer \<Rightarrow> peer \<Rightarrow> rat" where
  "peer_cmp collate field a b = (case field of
     FieldIp \<Rightarrow> collate (pe_ip a) (pe_ip b)
   | FieldCountry \<Rightarrow> collate (str_opt (pe_country a)) (str_opt (pe_country b))
   | FieldClient \<Rightarrow> collate (str_opt (pe_client a)) (str_opt (pe_client b))
   | FieldProgress \<Rightarrow> (case pe_progress a of Some x \<Rightarrow> x | None \<Rightarrow> 0) - (case pe_progress b of Some x \<Rightarrow> x | None \<Rightarrow> 0)
   | FieldDownRate \<Rightarrow> of_int (pe_down_rate a) - of_int (pe_down_rate b)
   | FieldUpRate \<Rightarrow> of_int (pe_up_rate a) - of_int (pe_up_rate b)
   | FieldUploaded \<Rightarrow> of_int (case pe_uploaded a of Some x \<Rightarrow> x | None \<Rightarrow> 0) - of_int (case pe_uploaded b of Some x \<Rightarrow> x | None \<Rightarrow> 0)
   | FieldStatus \<Rightarrow> of_nat (activity_score a) - of_nat (activity_score b))"

definition filteredPeers ::
    "(string \<Rightarrow> string \<Rightarrow> rat) \<Rightarrow> (string \<Rightarrow> string option) \<Rightarrow> string \<Rightarrow> peer_field \<Rightarrow> bool \<Rightarrow> peer list \<Rightarrow> peer list" where
  "filteredPeers collate display_name query field asc peers =
     (let found = (if query \<noteq> [] then filter (peer_matches display_name (js_trim (js_lower query))) peers else peers) in
      js_sort (\<lambda>a b. if asc then peer_cmp collate field a b else - peer_cmp collate field a b) found)"

definition handleSort_peers :: "peer_field \<Rightarrow> peer_field \<times> bool \<Rightarrow> peer_field \<times> bool" where
  "handleSort_peers field st = (case st of (current, asc) \<Rightarrow>
     if current = field then (current, \<not> asc)
     else (field, \<not> (field = FieldDownRate \<or> field = FieldUpRate)))"

text \<open>
  \<open>parseClient\<close>. The first expression is \<open>^-?([A-Za-z]{2})(\d{4})-?\<close>; the table is indexed by
  the code in upper case, its keys are as written there. The other expressions are a name without
  regard to case, an optional slash or space and an optional version.
\<close>

definition is_alpha :: "char \<Rightarrow> bool" where
  "is_alpha c \<longleftrightarrow> (let n = (of_char (lower_char c) :: nat) in 97 \<le> n \<and> n \<le> 122)"

definition MICRO_TORRENT :: string where
  "MICRO_TORRENT = utf8 [194, 181] @ ''Torrent''"

definition clientCodes :: "(string \<times> string) list" where
  "clientCodes = [(''qB'', ''qBittorrent''), (''TR'', ''Transmission''), (''UT'', MICRO_TORRENT), (''DE'', ''Deluge''),
     (''LT'', ''libtorrent''), (''BC'', ''BitComet''), (''AZ'', ''Azureus''), (''BT'', ''BitTorrent''),
     (''FD'', ''Free Download Manager''), (''SD'', ''Thunder''), (''XL'', ''Xunlei''), (''AG'', ''Ares'')]"

definition peer_id_code :: "string \<Rightarrow> (string \<times> string) option" where
  "peer_id_code client =
     (let s = (case client of c # cs \<Rightarrow> if c = CHR ''-'' then cs else client | [] \<Rightarrow> []) in
      if length s \<ge> 6 \<and> list_all is_alpha (take 2 s) \<and> list_all is_digit (take 4 (drop 2 s))
      then Some (take 2 s, take 4 (drop 2 s)) else None)"

fun after_name :: "string \<Rightarrow> string \<Rightarrow> string option" where
  "after_name name s =
     (if prefix (js_lower name) (js_lower s) then Some (drop (length name) s)
      else (case s of [] \<Rightarrow> None | c # cs \<Rightarrow> after_name name cs))"

definition version_of :: "string \<Rightarrow> string" where
  "version_of rest = takeWhile (\<lambda>c. is_digit c \<or> c = CHR ''.'')
     (case rest of c # cs \<Rightarrow> if c = CHR ''/'' \<or> is_ws c then cs else rest | [] \<Rightarrow> [])"

fun match_client :: "string list \<Rightarrow> string \<Rightarrow> (string \<times> string) option" where
  "match_client [] client = None"
| "match_client (name # names) client = (case after_name name client of
     Some rest \<Rightarrow> Some (name, version_of rest) | None \<Rightarrow> match_client names client)"

definition parseClient :: "string option \<Rightarrow> string \<times> string" where
  "parseClient client = (case client of
     None \<Rightarrow> (''Unknown'', [])
   | Some c \<Rightarrow>
       if c = [] then (''Unknown'', [])
       else (case peer_id_code c of
           Some (letters, ver) \<Rightarrow>
             (let code = js_upper letters in
              (case map_of clientCodes code of Some n \<Rightarrow> n | None \<Rightarrow> code,
               [ver ! 0, CHR ''.'', ver ! 1, CHR ''.'', ver ! 2]))
         | None \<Rightarrow>
             (case match_client [''qBittorrent'', ''Transmission'', MICRO_TORRENT, ''libtorrent'', ''Deluge''] c of
                Some r \<Rightarrow> r
              | None \<Rightarrow> (take 20 c, []))))"

datatype conn_flag = FlagEncrypted | FlagIncoming | FlagOutgoing

definition getConnectionFlags :: "peer \<Rightarrow> conn_flag list" where
  "getConnectionFlags p = (if pe_encrypted p then [FlagEncrypted] else []) @
     (if pe_incoming p then [FlagIncoming] else [FlagOutgoing])"

datatype peer_status = PeerSnubbed | PeerChoked | PeerActive | PeerDownloading | PeerUploading | PeerIdle

definition getPeerStatus :: "peer \<Rightarrow> peer_status" where
  "getPeerStatus p =
     (if pe_snubbed p then PeerSnubbed
      else if pe_choked p \<and> pe_down_rate p = 0 \<and> pe_up_rate p = 0 then PeerChoked
      else if pe_down_rate p > 0 \<and> pe_up_rate p > 0 then PeerActive
      else if pe_down_rate p > 0 then PeerDownloading
      else if pe_up_rate p > 0 then PeerUploading
      else PeerIdle)"

definition uniqueIPs :: "peer list \<Rightarrow> nat" where
  "uniqueIPs peers = length (remdups (map pe_ip peers))"

definition country_key :: "(string \<Rightarrow> string option) \<Rightarrow> peer \<Rightarrow> string" where
  "country_key display_name p =
     (if pc_isSpecial (getPeerCountryInfo display_name (pe_country p) (pe_ip p)) then ''local''
      else (let c = js_upper (str_opt (pe_country p)) in if c = [] then utf8 [226, 128, 148] else c))"

definition uniqueCountries :: "(string \<Rightarrow> string option) \<Rightarrow> peer list \<Rightarrow> nat" where
  "uniqueCountries display_name peers = length (remdups (map (country_key display_name) peers))"

text \<open>The two lines of the status field of the header.\<close>

definition status_line :: "torrent_status \<Rightarrow> peer list \<Rightarrow> string \<times> string" where
  "status_line s peers =
     (if ts_state s = Downloading \<and> peers = [] \<and> ts_down_rate_bps s = 0 \<and> ts_up_rate_bps s = 0
        then ''connecting'' @ utf8 [226, 128, 166] else state_name (ts_state s),
      case ts_state s of
        Downloading \<Rightarrow> if peers = [] \<and> ts_down_rate_bps s = 0 then ''Searching for peers'' else ''Active''
      | Seeding \<Rightarrow> ''Seeding'' | Stopped \<Rightarrow> ''Paused'' | Checking \<Rightarrow> ''Checking'' | ErrorState \<Rightarrow> ''Error'')"

subsection \<open>Trackers\<close>

datatype tracker_status = TrUnknown | TrWorking | TrUpdating | TrError | TrNotWorking | TrDisabled

record tracker =
  tr_url :: string
  tr_status :: tracker_status
  tr_seeders :: "int option"
  tr_leechers :: "int option"
  tr_last_announce_ms :: "time option"
  tr_next_announce_ms :: "time option"

record trackers_tab =
  tt_trackers :: "tracker list"
  tt_loading :: bool

definition fetchTrackers :: "bool \<Rightarrow> thrown + tracker list \<Rightarrow> trackers_tab \<Rightarrow> trackers_tab" where
  "fetchTrackers online reply t =
     (if \<not> online then t
      else t\<lparr> tt_trackers := (case reply of Inr ts \<Rightarrow> ts | Inl e \<Rightarrow> []), tt_loading := False \<rparr>)"

datatype announce_out = PostAnnounce string | AnnounceUpdated | AnnounceSuccess string | AnnounceError string | RefetchIn time

definition handleForceAnnounce_tab :: "bool \<Rightarrow> string \<Rightarrow> thrown + unit \<Rightarrow> announce_out list" where
  "handleForceAnnounce_tab online tid reply =
     (if \<not> online then []
      else PostAnnounce (''/torrents/'' @ tid @ ''/announce'') #
        (case reply of
           Inr _ \<Rightarrow> [AnnounceUpdated, AnnounceSuccess ''Force announce sent to all trackers'', RefetchIn 1000]
         | Inl e \<Rightarrow> [AnnounceError (message_or ''Failed to force announce'' e)]))"

datatype tracker_type = TypeHttp | TypeUdp | TypeWss | TypeDht

definition getTrackerType :: "string \<Rightarrow> tracker_type" where
  "getTrackerType url =
     (if starts_with url ''udp://'' then TypeUdp
      else if starts_with url ''wss://'' \<or> starts_with url ''ws://'' then TypeWss
      else if url = ''** DHT **'' \<or> js_includes url ''dht'' then TypeDht
      else TypeHttp)"

definition or_zero :: "int option \<Rightarrow> int" where
  "or_zero x = (case x of Some n \<Rightarrow> n | None \<Rightarrow> 0)"



datatype tracker_field = TfUrl | TfStatus | TfSeeders | TfLeechers | TfLastAnnounce

definition statusOrder :: "tracker_status \<Rightarrow> nat" where
  "statusOrder s = (case s of TrWorking \<Rightarrow> 0 | TrUpdating \<Rightarrow> 1 | TrUnknown \<Rightarrow> 2 | TrError \<Rightarrow> 3 | TrNotWorking \<Rightarrow> 3 | TrDisabled \<Rightarrow> 4)"

definition or_else :: "int \<Rightarrow> int option \<Rightarrow> rat" where
  "or_else d x = of_int (case x of Some n \<Rightarrow> n | None \<Rightarrow> d)"

definition tracker_cmp :: "(string \<Rightarrow> string \<Rightarrow> rat) \<Rightarrow> tracker_field \<Rightarrow> tracker \<Rightarrow> tracker \<Rightarrow> rat" where
  "tracker_cmp collate field a b = (case field of
     TfUrl \<Rightarrow> collate (tr_url a) (tr_url b)
   | TfStatus \<Rightarrow> of_nat (statusOrder (tr_status a)) - of_nat (statusOrder (tr_status b))
   | TfSeeders \<Rightarrow> or_else (-1) (tr_seeders a) - or_else (-1) (tr_seeders b)
   | TfLeechers \<Rightarrow> or_else (-1) (tr_leechers a) - or_else (-1) (tr_leechers b)
   | TfLastAnnounce \<Rightarrow> or_else 0 (tr_last_announce_ms a) - or_else 0 (tr_last_announce_ms b))"

definition sortedTrackers :: "(string \<Rightarrow> string \<Rightarrow> rat) \<Rightarrow> tracker_field \<Rightarrow> bool \<Rightarrow> tracker list \<Rightarrow> tracker list" where
  "sortedTrackers collate field asc ts =
     js_sort (\<lambda>a b. if asc then tracker_cmp collate field a b else - tracker_cmp collate field a b) ts"

definition handleSort_trackers :: "tracker_field \<Rightarrow> tracker_field \<times> bool \<Rightarrow> tracker_field \<times> bool" where
  "handleSort_trackers field st = (case st of (current, asc) \<Rightarrow>
     if current = field then (current, \<not> asc) else (field, True))"



definition formatTimestamp :: "time \<Rightarrow> time option \<Rightarrow> string" where
  "formatTimestamp now ms = (case ms of
     None \<Rightarrow> utf8 [226, 128, 148]
   | Some m \<Rightarrow>
       (let diff = now - m in
        if diff < 0 then
          (let absDiff = - diff in
           if absDiff < 60000 then ''in '' @ show_int (ceil_div absDiff 1000) @ ''s''
           else if absDiff < 3600000 then ''in '' @ show_int (ceil_div absDiff 60000) @ ''m''
           else ''in '' @ show_int (absDiff div 3600000) @ ''h'')
        else if diff < 60000 then ''Just now''
        else if diff < 3600000 then show_int (diff div 60000) @ ''m ago''
        else if diff < 86400000 then show_int (diff div 3600000) @ ''h ago''
        else show_int (diff div 86400000) @ ''d ago''))"

definition getStatusInfo :: "tracker_status \<Rightarrow> string \<times> string" where
  "getStatusInfo s = (case s of
     TrWorking \<Rightarrow> (''ok'', ''Working'') | TrUpdating \<Rightarrow> (''updating'', ''Updating'')
   | TrError \<Rightarrow> (''error'', ''Error'') | TrNotWorking \<Rightarrow> (''error'', ''Error'')
   | TrDisabled \<Rightarrow> (''disabled'', ''Disabled'') | TrUnknown \<Rightarrow> ([], ''Unknown''))"

subsection \<open>The swarm tab and the overview\<close>

record swarm_tab =
  sw_peers :: "peer list"
  sw_trackers :: "tracker list"

definition swarm_peers :: "bool \<Rightarrow> bool \<Rightarrow> thrown + peer list \<Rightarrow> swarm_tab \<Rightarrow> string option \<times> swarm_tab" where
  "swarm_peers online reportError reply t =
     (if \<not> online then (None, t)
      else (case reply of
          Inr ps \<Rightarrow> (None, t\<lparr> sw_peers := ps \<rparr>)
        | Inl e \<Rightarrow> (if reportError then Some (message_or ''Failed to load peers'' e) else None, t\<lparr> sw_peers := [] \<rparr>)))"

definition swarm_trackers :: "bool \<Rightarrow> bool \<Rightarrow> thrown + tracker list \<Rightarrow> swarm_tab \<Rightarrow> string option \<times> swarm_tab" where
  "swarm_trackers online reportError reply t =
     (if \<not> online then (None, t)
      else (case reply of
          Inr ts \<Rightarrow> (None, t\<lparr> sw_trackers := ts \<rparr>)
        | Inl e \<Rightarrow> (if reportError then Some (message_or ''Failed to load trackers'' e) else None, t\<lparr> sw_trackers := [] \<rparr>)))"

definition peer_active :: "peer \<Rightarrow> bool" where
  "peer_active p \<longleftrightarrow> \<not> pe_snubbed p \<and> \<not> pe_choked p \<and> (pe_down_rate p > 0 \<or> pe_up_rate p > 0)"

record swarm_stats =
  ss_connected :: nat
  ss_peersSeen :: nat
  ss_seeds :: nat
  ss_leechers :: int
  ss_downloading :: nat
  ss_uploading :: nat
  ss_active :: nat
  ss_trackerSeeders :: int
  ss_trackerLeechers :: int
  ss_hasTrackerSwarm :: bool

definition swarmStats :: "torrent_status option \<Rightarrow> swarm_tab \<Rightarrow> swarm_stats" where
  "swarmStats status t =
     (let seeds = count_of is_seed (sw_peers t); connected = length (sw_peers t);
          seeders = sum_list (map (or_zero \<circ> tr_seeders) (sw_trackers t));
          leechers = sum_list (map (or_zero \<circ> tr_leechers) (sw_trackers t)) in
      \<lparr> ss_connected = connected,
        ss_peersSeen = (case status of Some s \<Rightarrow> ts_peers_seen s | None \<Rightarrow> 0),
        ss_seeds = seeds, ss_leechers = int connected - int seeds,
        ss_downloading = count_of (\<lambda>p. pe_down_rate p > 0) (sw_peers t),
        ss_uploading = count_of (\<lambda>p. pe_up_rate p > 0) (sw_peers t),
        ss_active = count_of peer_active (sw_peers t),
        ss_trackerSeeders = seeders, ss_trackerLeechers = leechers,
        ss_hasTrackerSwarm = (seeders > 0 \<or> leechers > 0) \<rparr>)"

definition DHT_URL :: string where "DHT_URL = ''** DHT **''"


record overview =
  ov_seeders :: "int option"
  ov_leechers :: "int option"
  ov_total :: nat
  ov_active :: nat
  ov_seeds :: nat
  ov_downloading :: nat
  ov_uploading :: nat

definition positive :: "int \<Rightarrow> int option" where
  "positive n = (if n > 0 then Some n else None)"

definition fetchTrackerStats :: "bool \<Rightarrow> thrown + tracker list \<Rightarrow> overview \<Rightarrow> overview" where
  "fetchTrackerStats online reply v =
     (if \<not> online then v
      else (case reply of
          Inl e \<Rightarrow> v
        | Inr ts \<Rightarrow>
            (case fold (\<lambda>t (s, l, hasData).
                 (s + or_zero (tr_seeders t), l + or_zero (tr_leechers t),
                  hasData \<or> tr_seeders t \<noteq> None \<or> tr_leechers t \<noteq> None)) ts (0, 0, False) of
               (s, l, hasData) \<Rightarrow>
                 if hasData then v\<lparr> ov_seeders := positive s, ov_leechers := positive l \<rparr> else v)))"


subsection \<open>Rows in order\<close>

lemma number_comparator: "comparator (\<lambda>a b. f a - f b)"
  by (rule numbers.by_field)

lemma peer_comparator:
  assumes "comparator collate"
  shows "comparator (peer_cmp collate field)"
  by (cases field)
    (simp_all add: peer_cmp_def [abs_def] number_comparator comparator.by_field [OF assms])

lemma tracker_comparator:
  assumes "comparator collate"
  shows "comparator (tracker_cmp collate field)"
  by (cases field)
    (simp_all add: tracker_cmp_def [abs_def] number_comparator comparator.by_field [OF assms])

lemma sorted_either_way:
  assumes "comparator cmp"
  shows "mset (js_sort (\<lambda>a b. if asc then cmp a b else - cmp a b) xs) = mset xs \<and>
    sorted_wrt (\<lambda>a b. if asc then cmp a b \<le> 0 else 0 \<le> cmp a b) (js_sort (\<lambda>a b. if asc then cmp a b else - cmp a b) xs)"
  using js_sort_lawful [OF assms] js_sort_lawful [OF comparator.descending [OF assms]]
  by (cases asc) simp_all

text \<open>
  Further fact: the tables of peers and trackers show each matching row exactly once, in the order
  of the chosen column and direction, for every lawful collation.
\<close>

theorem inspector_rows_in_order:
  assumes "comparator collate"
  shows "mset (filteredPeers collate display_name query field asc ps) =
      (if query = [] then mset ps else filter_mset (peer_matches display_name (js_trim (js_lower query))) (mset ps)) \<and>
    sorted_wrt (\<lambda>a b. if asc then peer_cmp collate field a b \<le> 0 else 0 \<le> peer_cmp collate field a b)
      (filteredPeers collate display_name query field asc ps) \<and>
    mset (sortedTrackers collate tfield asc ts) = mset ts \<and>
    sorted_wrt (\<lambda>a b. if asc then tracker_cmp collate tfield a b \<le> 0 else 0 \<le> tracker_cmp collate tfield a b)
      (sortedTrackers collate tfield asc ts)"
  using sorted_either_way [OF peer_comparator [OF assms]] sorted_either_way [OF tracker_comparator [OF assms]]
  by (simp add: filteredPeers_def sortedTrackers_def Let_def)

definition by_size :: "string \<Rightarrow> string \<Rightarrow> rat" where
  "by_size a b = of_nat (length a) - of_nat (length b)"

definition sample_tracker :: tracker where
  "sample_tracker = \<lparr> tr_url = ''udp://t'', tr_status = TrError, tr_seeders = Some 3, tr_leechers = None,
     tr_last_announce_ms = None, tr_next_announce_ms = None \<rparr>"

definition dht_row :: tracker where
  "dht_row = sample_tracker\<lparr> tr_url := DHT_URL, tr_status := TrWorking, tr_seeders := None \<rparr>"

theorem inspector_rows_in_order_witness:
  "mset (sortedTrackers by_size TfStatus True [sample_tracker, dht_row]) = mset [sample_tracker, dht_row]"
proof -
  have "comparator by_size" unfolding by_size_def [abs_def] by (rule number_comparator)
  from inspector_rows_in_order [OF this, of _ _ _ _ _ TfStatus "[sample_tracker, dht_row]"] show ?thesis by blast
qed

subsection \<open>The tabs agree\<close>

lemma tracker_fold:
  "fold (\<lambda>t (s, l, h). (s + or_zero (tr_seeders t), l + or_zero (tr_leechers t),
      h \<or> tr_seeders t \<noteq> None \<or> tr_leechers t \<noteq> None)) ts (s0, l0, h0) =
   (s0 + sum_list (map (or_zero \<circ> tr_seeders) ts), l0 + sum_list (map (or_zero \<circ> tr_leechers) ts),
    h0 \<or> (\<exists>t \<in> set ts. tr_seeders t \<noteq> None \<or> tr_leechers t \<noteq> None))"
  by (induction ts arbitrary: s0 l0 h0) (auto simp: algebra_simps)

lemma fetchTrackerStats_Inr:
  "fetchTrackerStats True (Inr ts) v =
    (if \<exists>t \<in> set ts. tr_seeders t \<noteq> None \<or> tr_leechers t \<noteq> None
     then v\<lparr> ov_seeders := positive (sum_list (map (or_zero \<circ> tr_seeders) ts)),
            ov_leechers := positive (sum_list (map (or_zero \<circ> tr_leechers) ts)) \<rparr>
     else v)"
  unfolding fetchTrackerStats_def sum.case tracker_fold by (simp del: not_None_eq)



definition sample_peer :: peer where
  "sample_peer = \<lparr> pe_id = ''1'', pe_ip = ''10.0.0.1'', pe_port = 6881, pe_client = None, pe_down_rate = 5, pe_up_rate = 0,
     pe_uploaded = None, pe_progress = Some 1, pe_snubbed = False, pe_choked = False, pe_incoming = False,
     pe_encrypted = True, pe_country = None \<rparr>"


text \<open>
  Further fact: what the overview shows is not reset. When a later reply has no counts, or the
  request fails, the totals of the trackers stay as they were, while the swarm tab shows zero.
\<close>

theorem overview_totals_stay:
  assumes "\<forall>t \<in> set ts. tr_seeders t = None \<and> tr_leechers t = None"
  shows "fetchTrackerStats True (Inr ts) v = v \<and> fetchTrackerStats True (Inl e) v = v \<and>
    ss_trackerSeeders (swarmStats st (snd (swarm_trackers True r (Inr ts) t))) = 0 \<and>
    ss_trackerSeeders (swarmStats st (snd (swarm_trackers True r (Inl e) t))) = 0"
proof -
  have "sum_list (map (or_zero \<circ> tr_seeders) ts) = 0"
    using assms by (induction ts) (simp_all add: or_zero_def)
  then show ?thesis
    using assms by (simp add: fetchTrackerStats_Inr swarmStats_def swarm_trackers_def Let_def)
      (simp add: fetchTrackerStats_def)
qed

definition shown_before :: overview where
  "shown_before = \<lparr> ov_seeders = Some 9, ov_leechers = None, ov_total = 0, ov_active = 0, ov_seeds = 0,
     ov_downloading = 0, ov_uploading = 0 \<rparr>"

theorem overview_totals_stay_witness:
  "ov_seeders (fetchTrackerStats True (Inr [dht_row]) shown_before) = Some 9"
  using overview_totals_stay [of "[dht_row]"]
  by (simp add: dht_row_def sample_tracker_def shown_before_def)

subsection \<open>Labels\<close>

text \<open>
  Further fact: a peer id of qBittorrent is not recognised: the code is looked up in upper case and
  the table has it in mixed case, so the name shown is \<open>QB\<close>; the codes in upper case are found.
\<close>

theorem qbittorrent_code_unknown:
  assumes "length ver = 4" "list_all is_digit ver"
  shows "fst (parseClient (Some (''-qB'' @ ver @ rest))) = ''QB'' \<and>
    parseClient (Some (''-TR'' @ ver @ rest)) = (''Transmission'', [ver ! 0, CHR ''.'', ver ! 1, CHR ''.'', ver ! 2])"
proof -
  have u: "js_upper ''qB'' = ''QB''" "js_upper ''TR'' = ''TR''" by code_simp+
  have a: "is_alpha CHR ''q'' \<and> is_alpha CHR ''B'' \<and> is_alpha CHR ''T'' \<and> is_alpha CHR ''R''" by code_simp
  show ?thesis
    using assms a by (simp add: parseClient_def peer_id_code_def Let_def u) (simp add: clientCodes_def u)
qed

theorem qbittorrent_code_unknown_witness:
  "fst (parseClient (Some ''-qB4520-'')) = ''QB''"
  using qbittorrent_code_unknown [of "''4520''" "''-''"] by (simp add: is_digit_def)

text \<open>
  Further fact: the order by status and the label shown disagree: a peer that chokes us while data
  flows is labelled active, but ranks below every idle peer.
\<close>

theorem active_choked_ranks_below_idle:
  assumes "pe_choked a" "\<not> pe_snubbed a" "pe_down_rate a > 0" "pe_up_rate a > 0"
    "\<not> pe_choked b" "\<not> pe_snubbed b" "pe_down_rate b = 0" "pe_up_rate b = 0"
  shows "getPeerStatus a = PeerActive \<and> getPeerStatus b = PeerIdle \<and> peer_cmp collate FieldStatus a b < 0"
  using assms by (simp add: getPeerStatus_def peer_cmp_def activity_score_def)

theorem active_choked_ranks_below_idle_witness:
  "getPeerStatus (sample_peer\<lparr> pe_choked := True, pe_up_rate := 1 \<rparr>) = PeerActive"
  using active_choked_ranks_below_idle [of "sample_peer\<lparr> pe_choked := True, pe_up_rate := 1 \<rparr>" "sample_peer\<lparr> pe_down_rate := 0 \<rparr>"]
  by (simp add: sample_peer_def)

text \<open>
  Further fact: times of announcements. A time ahead is rounded up and a time past rounded down, in
  seconds, minutes, hours or days; a time less than a minute ahead is never shown as zero seconds.
\<close>

theorem announce_time_text:
  "(0 < d \<and> d < 60000 \<longrightarrow> (\<exists>n. formatTimestamp now (Some (now + d)) = ''in '' @ show_int n @ ''s'' \<and>
      1 \<le> n \<and> n \<le> 60 \<and> (n - 1) * 1000 < d \<and> d \<le> n * 1000)) \<and>
   (0 \<le> d \<and> d < 60000 \<longrightarrow> formatTimestamp now (Some (now - d)) = ''Just now'') \<and>
   (60000 \<le> d \<and> d < 3600000 \<longrightarrow> (\<exists>n. formatTimestamp now (Some (now - d)) = show_int n @ ''m ago'' \<and>
      1 \<le> n \<and> n \<le> 59 \<and> n * 60000 \<le> d \<and> d < (n + 1) * 60000))"
proof -
  have c: "1 \<le> ceil_div d 1000 \<and> ceil_div d 1000 \<le> 60 \<and> (ceil_div d 1000 - 1) * 1000 < d \<and> d \<le> ceil_div d 1000 * 1000"
    if "0 < d" "d < 60000"
    using that ceil_div_bounds [of 1000 d] ceil_div_pos [of d 1000] by auto
  have m: "1 \<le> d div 60000 \<and> d div 60000 \<le> 59 \<and> d div 60000 * 60000 \<le> d \<and> d < (d div 60000 + 1) * 60000"
    if "60000 \<le> d" "d < 3600000"
  proof -
    have "d = d div 60000 * 60000 + d mod 60000" "0 \<le> d mod 60000" "d mod 60000 < 60000" by simp_all
    moreover have "1 \<le> q \<and> q \<le> 59 \<and> q * 60000 \<le> d \<and> d < (q + 1) * 60000"
      if "d = q * 60000 + r" "0 \<le> r" "r < 60000" for q r :: int
    proof -
      have "d < q * 60000 + 60000" "1 \<le> q" "q \<le> 59" "q * 60000 \<le> d"
        using that \<open>60000 \<le> d\<close> \<open>d < 3600000\<close> by linarith+
      then show ?thesis by (simp add: distrib_right)
    qed
    ultimately show ?thesis by blast
  qed
  show ?thesis
    using c m by (auto simp: formatTimestamp_def Let_def)
qed

theorem announce_time_text_witness:
  "formatTimestamp 0 (Some (0 - 5)) = ''Just now''"
  using announce_time_text [of 5 0] by simp

end
