(* ===== verification/Shell.thy ===== *)
theory Shell
  imports Prelude "HOL-Library.State_Monad"
begin

text \<open>
  What the build scripts (\<open>scripts/build.ts\<close>, \<open>dist.ts\<close>, \<open>dev.ts\<close>) ask of Node and of the
  operating system. A script is a computation of \<open>State_Monad\<close> over the record of what it has
  done so far: every call is appended with the answer it got, and the answers are given by
  \<open>os\<close>, which sees everything done before. So no assumption is made about how programs, locks and
  the file system behave; a property that needs one names it.

  \<open>emits P m\<close> says that everything \<open>m\<close> does satisfies \<open>P\<close>, and \<open>cost\<close> adds up what it does; their
  rules follow the structure of a script. \<open>outcome\<close> is a step that may throw or end the process.
  What is printed on the console is left out.
\<close>

subsection \<open>Calls and answers\<close>

text \<open>A synchronous child process: it could not be run, or its status, output and error.\<close>

datatype child_result =
    SpawnThrew
  | Spawned (sp_status: "int option") (sp_stdout: string) (sp_error: bool)

text \<open>\<open>execSync\<close>: it returns, or throws an error that may carry a status.\<close>

datatype executed = ExecDone string | ExecFailed "int option"

datatype fs_op =
    RemoveTree string
  | RemoveFile string
  | WriteFile string
  | Rename string string
  | CopyFile string string
  | MakeDir string
  | MakeLink string string

datatype os_event =
    Spawn string "string list" child_result
  | Exec string executed
  | Exists string bool
  | Fs fs_op "string option"
  | MadeTemp string "string option"
  | Listed string "(string \<times> bool) list option"
  | FileSize string "nat option"
  | Stamped string
  | Slept nat

type_synonym trace = "os_event list"

record os =
  os_spawn :: "trace \<Rightarrow> string \<Rightarrow> string list \<Rightarrow> child_result"
  os_exec :: "trace \<Rightarrow> string \<Rightarrow> executed"
  os_exists :: "trace \<Rightarrow> string \<Rightarrow> bool"
  os_fs :: "trace \<Rightarrow> fs_op \<Rightarrow> string option"
  os_temp :: "trace \<Rightarrow> string \<Rightarrow> string option"
  os_list :: "trace \<Rightarrow> string \<Rightarrow> (string \<times> bool) list option"
  os_size :: "trace \<Rightarrow> string \<Rightarrow> nat option"
  os_stamp :: "trace \<Rightarrow> string"

type_synonym 'a script = "(trace, 'a) state"

definition act :: "(trace \<Rightarrow> 'a) \<Rightarrow> ('a \<Rightarrow> os_event) \<Rightarrow> 'a script" where
  "act answer ev = State (\<lambda>t. (answer t, t @ [ev (answer t)]))"

lemma run_act [simp]: "run_state (act f ev) t = (f t, t @ [ev (f t)])"
  by (simp add: act_def)

definition spawnSync :: "os \<Rightarrow> string \<Rightarrow> string list \<Rightarrow> child_result script" where
  "spawnSync os cmd args = act (\<lambda>t. os_spawn os t cmd args) (Spawn cmd args)"

definition execSync :: "os \<Rightarrow> string \<Rightarrow> executed script" where
  "execSync os command = act (\<lambda>t. os_exec os t command) (Exec command)"

definition existsSync :: "os \<Rightarrow> string \<Rightarrow> bool script" where
  "existsSync os path = act (\<lambda>t. os_exists os t path) (Exists path)"

text \<open>A file operation gives the message of what it throws, or nothing.\<close>

definition fsSync :: "os \<Rightarrow> fs_op \<Rightarrow> string option script" where
  "fsSync os f = act (\<lambda>t. os_fs os t f) (Fs f)"

definition mkdtempSync :: "os \<Rightarrow> string \<Rightarrow> string option script" where
  "mkdtempSync os pre = act (\<lambda>t. os_temp os t pre) (MadeTemp pre)"

definition readdirSync :: "os \<Rightarrow> string \<Rightarrow> (string \<times> bool) list option script" where
  "readdirSync os path = act (\<lambda>t. os_list os t path) (Listed path)"

text \<open>\<open>statSync\<close>, for a file its size; for a directory \<open>Some 1\<close> stands for any positive size.\<close>

definition statSync :: "os \<Rightarrow> string \<Rightarrow> nat option script" where
  "statSync os path = act (\<lambda>t. os_size os t path) (FileSize path)"

definition stamp :: "os \<Rightarrow> string script" where
  "stamp os = act (os_stamp os) Stamped"

definition sleepSync :: "nat \<Rightarrow> unit script" where
  "sleepSync ms = act (\<lambda>t. ()) (\<lambda>_. Slept ms)"

definition ok_status :: "child_result \<Rightarrow> bool" where
  "ok_status r = (case r of Spawned st out e \<Rightarrow> st = Some 0 | SpawnThrew \<Rightarrow> False)"

text \<open>The output of a program that ended well and printed something.\<close>

definition good_output :: "child_result \<Rightarrow> string option" where
  "good_output r = (case r of
      Spawned st out e \<Rightarrow> if st = Some 0 \<and> out \<noteq> [] then Some out else None
    | SpawnThrew \<Rightarrow> None)"

subsection \<open>Everything a script does\<close>

definition emits :: "(os_event \<Rightarrow> bool) \<Rightarrow> 'a script \<Rightarrow> bool" where
  "emits P m \<longleftrightarrow> (\<forall>t. \<exists>es. snd (run_state m t) = t @ es \<and> (\<forall>e \<in> set es. P e))"

lemma emits_act [intro!]: "(\<And>x. P (ev x)) \<Longrightarrow> emits P (act f ev)"
  by (simp add: emits_def)

lemma emits_return [intro!]: "emits P (State_Monad.return x)"
  by (simp add: emits_def)

lemma emits_bind [intro]:
  assumes "emits P m" "\<And>x. emits P (f x)"
  shows "emits P (State_Monad.bind m f)"
  unfolding emits_def
proof
  fix t
  obtain x t1 where r: "run_state m t = (x, t1)" by fastforce
  obtain es where es: "t1 = t @ es" "\<forall>e \<in> set es. P e" using assms(1) r unfolding emits_def by (metis snd_conv)
  obtain es' where es': "snd (run_state (f x) t1) = t1 @ es'" "\<forall>e \<in> set es'. P e"
    using assms(2) [of x] unfolding emits_def by blast
  show "\<exists>es. snd (run_state (State_Monad.bind m f) t) = t @ es \<and> (\<forall>e \<in> set es. P e)"
    using r es es' by (intro exI [of _ "es @ es'"]) auto
qed

lemma emits_if [intro!]: "(b \<Longrightarrow> emits P m) \<Longrightarrow> (\<not> b \<Longrightarrow> emits P n) \<Longrightarrow> emits P (if b then m else n)"
  by simp

lemma emits_case_option [intro!]:
  "emits P m \<Longrightarrow> (\<And>x. emits P (f x)) \<Longrightarrow> emits P (case opt of None \<Rightarrow> m | Some x \<Rightarrow> f x)"
  by (cases opt) auto

lemma emits_case_prod [intro!]: "(\<And>x y. emits P (f x y)) \<Longrightarrow> emits P (case p of (x, y) \<Rightarrow> f x y)"
  by (cases p) auto

lemma emits_sys [intro!]:
  "(\<And>r. P (Spawn cmd args r)) \<Longrightarrow> emits P (spawnSync os cmd args)"
  "(\<And>r. P (Exec command r)) \<Longrightarrow> emits P (execSync os command)"
  "(\<And>b. P (Exists path b)) \<Longrightarrow> emits P (existsSync os path)"
  "(\<And>m. P (Fs f m)) \<Longrightarrow> emits P (fsSync os f)"
  "(\<And>d. P (MadeTemp pre d)) \<Longrightarrow> emits P (mkdtempSync os pre)"
  "(\<And>l. P (Listed path l)) \<Longrightarrow> emits P (readdirSync os path)"
  "(\<And>n. P (FileSize path n)) \<Longrightarrow> emits P (statSync os path)"
  "(\<And>x. P (Stamped x)) \<Longrightarrow> emits P (stamp os)"
  "P (Slept ms) \<Longrightarrow> emits P (sleepSync ms)"
  unfolding spawnSync_def execSync_def existsSync_def fsSync_def mkdtempSync_def readdirSync_def statSync_def
    stamp_def sleepSync_def by (auto intro: emits_act)

lemmas emits_rules = emits_return emits_bind emits_if emits_case_option emits_sys

lemma emits_mono: "emits P m \<Longrightarrow> (\<And>e. P e \<Longrightarrow> Q e) \<Longrightarrow> emits Q m"
  unfolding emits_def by meson

lemma emits_run: "emits P m \<Longrightarrow> run_state m t = (x, t') \<Longrightarrow> \<exists>es. t' = t @ es \<and> (\<forall>e \<in> set es. P e)"
  by (metis emits_def snd_conv)

subsection \<open>What a script costs\<close>

text \<open>The sum of a weight over what is done, at most \<open>n\<close>.\<close>

definition weight :: "(os_event \<Rightarrow> nat) \<Rightarrow> trace \<Rightarrow> nat" where
  "weight w t = sum_list (map w t)"

definition costs :: "(os_event \<Rightarrow> nat) \<Rightarrow> nat \<Rightarrow> 'a script \<Rightarrow> bool" where
  "costs w n m \<longleftrightarrow> (\<forall>t. weight w (snd (run_state m t)) \<le> weight w t + n)"

lemma weight_simps [simp]: "weight w [] = 0" "weight w (e # t) = w e + weight w t" "weight w (t @ u) = weight w t + weight w u"
  by (simp_all add: weight_def)

lemma costs_act: "(\<And>x. w (ev x) \<le> n) \<Longrightarrow> costs w n (act f ev)"
  by (simp add: costs_def)

lemma costs_return: "costs w 0 (State_Monad.return x)"
  by (simp add: costs_def)

lemma costs_bind:
  assumes "costs w a m" "\<And>x. costs w b (f x)"
  shows "costs w (a + b) (State_Monad.bind m f)"
  unfolding costs_def
proof
  fix t
  obtain x t1 where r: "run_state m t = (x, t1)" by fastforce
  have "weight w t1 \<le> weight w t + a" using assms(1) r by (metis costs_def snd_conv)
  moreover have "weight w (snd (run_state (f x) t1)) \<le> weight w t1 + b" using assms(2) by (simp add: costs_def)
  ultimately show "weight w (snd (run_state (State_Monad.bind m f) t)) \<le> weight w t + (a + b)" using r by simp
qed

lemma costs_mono: "costs w a m \<Longrightarrow> a \<le> n \<Longrightarrow> costs w n m"
  unfolding costs_def by (meson add_le_cancel_left order_trans)

lemma costs_if:
  assumes "costs w a m" "costs w b k"
  shows "costs w (max a b) (if c then m else k)"
  using costs_mono [OF assms(1), of "max a b"] costs_mono [OF assms(2), of "max a b"] by simp

lemma costs_case_option:
  assumes "costs w a m" "\<And>x. costs w b (f x)"
  shows "costs w (max a b) (case opt of None \<Rightarrow> m | Some x \<Rightarrow> f x)"
proof (cases opt)
  case None
  then show ?thesis using costs_mono [OF assms(1), of "max a b"] by simp
next
  case (Some x)
  then show ?thesis using costs_mono [OF assms(2), of "max a b" x] by simp
qed

lemmas costs_rules = costs_return costs_bind costs_if costs_case_option

lemma emits_costs:
  assumes "emits (\<lambda>e. w e = 0) m"
  shows "costs w n m"
  unfolding costs_def
proof
  fix t
  obtain es where "snd (run_state m t) = t @ es" "\<forall>e \<in> set es. w e = 0" using assms by (auto simp: emits_def)
  moreover have "\<forall>e \<in> set es. w e = 0 \<Longrightarrow> weight w es = 0" for es by (induction es) auto
  ultimately show "weight w (snd (run_state m t)) \<le> weight w t + n" by simp
qed

definition sleep_of :: "os_event \<Rightarrow> nat" where
  "sleep_of e = (case e of Slept ms \<Rightarrow> ms | _ \<Rightarrow> 0)"

lemma sleep_of_simps [simp]:
  "sleep_of (Slept n) = n" "sleep_of (Spawn c a r) = 0" "sleep_of (Exec c ex) = 0" "sleep_of (Exists p b) = 0"
  "sleep_of (Fs f m) = 0" "sleep_of (MadeTemp p q) = 0" "sleep_of (Listed p l) = 0" "sleep_of (FileSize p s) = 0"
  "sleep_of (Stamped x) = 0"
  by (simp_all add: sleep_of_def)

text \<open>What each call costs in waiting: nothing but \<open>sleepSync\<close> waits.\<close>

lemma sys_costs:
  "costs sleep_of 0 (spawnSync os cmd args)" "costs sleep_of 0 (execSync os command)" "costs sleep_of 0 (existsSync os path)"
  "costs sleep_of 0 (fsSync os f)" "costs sleep_of 0 (mkdtempSync os pre)" "costs sleep_of 0 (readdirSync os path)"
  "costs sleep_of 0 (statSync os path)" "costs sleep_of 0 (stamp os)" "costs sleep_of n (sleepSync n)"
  unfolding spawnSync_def execSync_def existsSync_def fsSync_def mkdtempSync_def readdirSync_def statSync_def
    stamp_def sleepSync_def by (rule costs_act, simp)+

text \<open>Every call is one event.\<close>

lemma sys_counts:
  "costs (\<lambda>_. 1) 1 (spawnSync os cmd args)" "costs (\<lambda>_. 1) 1 (execSync os command)" "costs (\<lambda>_. 1) 1 (existsSync os path)"
  "costs (\<lambda>_. 1) 1 (fsSync os f)" "costs (\<lambda>_. 1) 1 (mkdtempSync os pre)" "costs (\<lambda>_. 1) 1 (readdirSync os path)"
  "costs (\<lambda>_. 1) 1 (statSync os path)" "costs (\<lambda>_. 1) 1 (stamp os)" "costs (\<lambda>_. 1) 1 (sleepSync n)"
  unfolding spawnSync_def execSync_def existsSync_def fsSync_def mkdtempSync_def readdirSync_def statSync_def
    stamp_def sleepSync_def by (rule costs_act, simp)+

lemmas sys_defs = spawnSync_def execSync_def existsSync_def fsSync_def mkdtempSync_def readdirSync_def statSync_def
  stamp_def sleepSync_def

subsection \<open>Steps that may end the process\<close>

datatype 'a outcome = Done 'a | Threw string | Exited int

definition afterwards :: "'a outcome script \<Rightarrow> ('a \<Rightarrow> 'b outcome script) \<Rightarrow> 'b outcome script" where
  "afterwards m f = State_Monad.bind m (\<lambda>r. case r of
      Done x \<Rightarrow> f x
    | Threw msg \<Rightarrow> State_Monad.return (Threw msg)
    | Exited n \<Rightarrow> State_Monad.return (Exited n))"

definition done_with :: "'a script \<Rightarrow> 'a outcome script" where
  "done_with m = State_Monad.bind m (\<lambda>x. State_Monad.return (Done x))"

definition exit_with :: "int \<Rightarrow> 'a outcome script" where
  "exit_with n = State_Monad.return (Exited n)"

lemma run_afterwards:
  "run_state (afterwards m f) t = (case run_state m t of
      (Done x, t1) \<Rightarrow> run_state (f x) t1 | (Threw msg, t1) \<Rightarrow> (Threw msg, t1) | (Exited n, t1) \<Rightarrow> (Exited n, t1))"
  by (auto simp: afterwards_def split: prod.splits outcome.splits)

lemma run_done_with [simp]: "run_state (done_with m) t = (Done (fst (run_state m t)), snd (run_state m t))"
  by (simp add: done_with_def split: prod.splits)

lemma run_exit_with [simp]: "run_state (exit_with n) t = (Exited n, t)"
  by (simp add: exit_with_def)

lemma emits_afterwards [intro!]: "emits P m \<Longrightarrow> (\<And>x. emits P (f x)) \<Longrightarrow> emits P (afterwards m f)"
  unfolding afterwards_def by (intro emits_bind) (auto split: outcome.splits)

lemma emits_done_with [intro!]: "emits P m \<Longrightarrow> emits P (done_with m)"
  unfolding done_with_def by (intro emits_bind) auto

lemma emits_exit_with [intro!]: "emits P (exit_with n)"
  unfolding exit_with_def by auto

subsection \<open>What a finished script has done\<close>

text \<open>
  \<open>does Es m\<close>: whenever \<open>m\<close> ends normally it has done something of each of \<open>Es\<close>, in that order;
  \<open>returns Q m\<close>: what it then returns satisfies \<open>Q\<close>.
\<close>

fun in_order :: "(os_event \<Rightarrow> bool) list \<Rightarrow> trace \<Rightarrow> bool" where
  "in_order [] es = True"
| "in_order (E # Es) es = (\<exists>u e v. es = u @ e # v \<and> E e \<and> in_order Es v)"

definition does :: "(os_event \<Rightarrow> bool) list \<Rightarrow> 'a outcome script \<Rightarrow> bool" where
  "does Es m \<longleftrightarrow> (\<forall>t x t'. run_state m t = (Done x, t') \<longrightarrow> (\<exists>es. t' = t @ es \<and> in_order Es es))"

definition returns :: "('a \<Rightarrow> bool) \<Rightarrow> 'a outcome script \<Rightarrow> bool" where
  "returns Q m \<longleftrightarrow> (\<forall>t x t'. run_state m t = (Done x, t') \<longrightarrow> Q x)"

abbreviation extends :: "'a script \<Rightarrow> bool" where
  "extends \<equiv> emits (\<lambda>_. True)"

lemma in_order_single: "in_order [E] es \<longleftrightarrow> (\<exists>e \<in> set es. E e)"
proof
  assume "\<exists>e \<in> set es. E e"
  then obtain e where e: "e \<in> set es" "E e" by blast
  then obtain u v where "es = u @ e # v" using split_list by fastforce
  then show "in_order [E] es" using e(2) unfolding in_order.simps by blast
qed auto

lemma in_order_prepend: "in_order Es v \<Longrightarrow> in_order Es (u @ v)"
proof (cases Es)
  case (Cons E Es2)
  assume "in_order Es v"
  then obtain a e b where "v = a @ e # b" "E e" "in_order Es2 b" using Cons by auto
  then show ?thesis unfolding Cons in_order.simps by (intro exI [of _ "u @ a"] exI [of _ e] exI [of _ b]) simp
qed simp

lemma in_order_append: "in_order Es u \<Longrightarrow> in_order Es2 v \<Longrightarrow> in_order (Es @ Es2) (u @ v)"
proof (induction Es arbitrary: u)
  case Nil
  then show ?case by (simp add: in_order_prepend)
next
  case (Cons E Es)
  then obtain a e b where abe: "u = a @ e # b" "E e" "in_order Es b" by auto
  have "in_order (Es @ Es2) (b @ v)" using Cons.IH [OF abe(3) Cons.prems(2)] .
  then show ?case using abe(1,2) unfolding append_Cons in_order.simps
    by (intro exI [of _ a] exI [of _ e] exI [of _ "b @ v"]) simp
qed

lemma does_extends: "extends m \<Longrightarrow> does [] m"
  unfolding does_def emits_def by (metis in_order.simps(1) snd_conv)

lemma does_bind:
  assumes "extends m" "\<And>x. does Es (f x)"
  shows "does Es (State_Monad.bind m f)"
  unfolding does_def
proof (intro allI impI)
  fix t y t'
  assume r: "run_state (State_Monad.bind m f) t = (Done y, t')"
  obtain x t1 where m: "run_state m t = (x, t1)" by fastforce
  obtain u where u: "t1 = t @ u" using assms(1) m unfolding emits_def by (metis snd_conv)
  have "run_state (f x) t1 = (Done y, t')" using r m by simp
  then obtain v where "t' = t1 @ v" "in_order Es v" using assms(2) unfolding does_def by blast
  then show "\<exists>es. t' = t @ es \<and> in_order Es es" using u in_order_prepend [of Es v u] by auto
qed

lemma does_afterwards:
  assumes "does Es m" "returns Q m" "\<And>x. Q x \<Longrightarrow> does Es2 (f x)"
  shows "does (Es @ Es2) (afterwards m f)"
  unfolding does_def
proof (intro allI impI)
  fix t y t'
  assume r: "run_state (afterwards m f) t = (Done y, t')"
  then obtain x t1 where m: "run_state m t = (Done x, t1)" "run_state (f x) t1 = (Done y, t')"
    by (auto simp: run_afterwards split: prod.splits outcome.splits)
  obtain u where u: "t1 = t @ u" "in_order Es u" using assms(1) m(1) unfolding does_def by blast
  have "Q x" using assms(2) m(1) unfolding returns_def by blast
  then obtain v where "t' = t1 @ v" "in_order Es2 v" using assms(3) m(2) unfolding does_def by blast
  then show "\<exists>es. t' = t @ es \<and> in_order (Es @ Es2) es" using u in_order_append [of Es u Es2 v] by auto
qed

lemma returns_any: "returns (\<lambda>_. True) m"
  by (simp add: returns_def)

lemmas does_then = does_afterwards [OF _ returns_any]

lemma does_if: "(b \<Longrightarrow> does Es m) \<Longrightarrow> (\<not> b \<Longrightarrow> does Es k) \<Longrightarrow> does Es (if b then m else k)"
  by simp

lemma does_exit: "does Es (exit_with n)"
  by (simp add: does_def)

lemma does_throw: "does Es (State_Monad.return (Threw msg))"
  by (simp add: does_def)

lemma does_done_with: "extends m \<Longrightarrow> does [] (done_with m)"
  by (rule does_extends) (rule emits_done_with)

subsection \<open>Commands and paths\<close>

text \<open>\<open>isAbsolute\<close> and \<open>base_name\<close> of Node; a path is joined with the separator of the platform.\<close>

definition path_sep :: "bool \<Rightarrow> char \<Rightarrow> bool" where
  "path_sep isWin c \<longleftrightarrow> c = CHR ''/'' \<or> isWin \<and> c = CHR 0x5C"

definition isAbsolute :: "bool \<Rightarrow> string \<Rightarrow> bool" where
  "isAbsolute isWin p = (case p of [] \<Rightarrow> False
     | c # cs \<Rightarrow> path_sep isWin c \<or> isWin \<and> (case cs of d # s # _ \<Rightarrow> d = CHR '':'' \<and> path_sep True s \<and>
         upper_char c \<in> set ''ABCDEFGHIJKLMNOPQRSTUVWXYZ'' | _ \<Rightarrow> False))"

definition base_name :: "bool \<Rightarrow> string \<Rightarrow> string" where
  "base_name isWin p = rev (takeWhile (\<lambda>c. \<not> path_sep isWin c) (rev p))"

definition sep :: "bool \<Rightarrow> string" where
  "sep isWin = (if isWin then [CHR 0x5C] else ''/'')"

definition joined :: "bool \<Rightarrow> string list \<Rightarrow> string" where
  "joined isWin = js_join (sep isWin)"

definition resolveCmd :: "bool \<Rightarrow> string \<Rightarrow> string" where
  "resolveCmd isWin cmd =
     (if isAbsolute isWin cmd then cmd
      else if \<not> isWin then cmd
      else if cmd = ''npm'' then cmd @ ''.cmd''
      else cmd)"

definition localBin :: "bool \<Rightarrow> string \<Rightarrow> string \<Rightarrow> string" where
  "localBin isWin projectRoot tool =
     joined isWin [projectRoot, ''node_modules'', ''.bin'', tool @ (if isWin then ''.cmd'' else [])]"

text \<open>\<open>arg.replace(/"/g, '\\"')\<close> between quotes.\<close>

fun escape_quotes :: "string \<Rightarrow> string" where
  "escape_quotes [] = []"
| "escape_quotes (c # s) = (if c = CHR 0x22 then CHR 0x5C # c # escape_quotes s else c # escape_quotes s)"

definition in_quotes :: "string \<Rightarrow> string" where
  "in_quotes s = CHR 0x22 # s @ [CHR 0x22]"

end
