(* ===== verification/CleanDist.thy ===== *)
theory CleanDist
  imports Shell PortHygiene Firewall
begin

text \<open>
  The part of \<open>scripts/dist.ts\<close> that clears the output directory before packaging: which processes
  hold files in it, which of them are killed, and the escalating ways to delete it. Programs
  (\<open>tasklist\<close>, \<open>taskkill\<close>, \<open>powershell.exe\<close>, \<open>handle.exe\<close>, \<open>openfiles\<close>, \<open>wmic\<close>, \<open>robocopy\<close> and the
  others) answer through \<open>os\<close>; their output is parsed as the script parses it. Of the PowerShell
  scripts the model keeps the lines with the path and the names; the constant rest is not written
  out.
\<close>

subsection \<open>The environment\<close>

record dist_env =
  de_isWin :: bool
  de_root :: string
  de_tmpdir :: string
  de_AUTO_KILL :: "string option"
  de_USE_TEMP :: "string option"
  de_PACK_DIR_ONLY :: "string option"
  de_SKIP_SYMLINK :: "string option"
  de_LOCALAPPDATA :: "string option"
  de_USERNAME :: "string option"
  de_USER :: "string option"

text \<open>\<open>v === "1" || v === "true"\<close>\<close>

definition env_on :: "string option \<Rightarrow> bool" where
  "env_on v \<longleftrightarrow> v = Some ''1'' \<or> v = Some ''true''"

definition winUnpackedDir :: "dist_env \<Rightarrow> string" where
  "winUnpackedDir env = joined (de_isWin env) [de_root env, ''dist'', ''win-unpacked'']"

record process_info =
  pr_name :: string
  pr_pid :: int
  pr_path :: "string option"

subsection \<open>Finding processes\<close>

definition escapedPath :: "string \<Rightarrow> string" where
  "escapedPath p = double_char CHR 0x27 (double_char CHR 0x5C p)"

definition ps_args :: "string \<Rightarrow> string list" where
  "ps_args script = [''-NoProfile'', ''-NonInteractive'', ''-Command'', script]"

definition literal :: "string \<Rightarrow> string" where
  "literal p = CHR 0x27 # escapedPath p @ [CHR 0x27]"

definition find_by_path_script :: "string \<Rightarrow> string" where
  "find_by_path_script targetPath = ''$targetPath = '' @ literal targetPath @ [CHR 0x0A] @
     ''$procs = Get-CimInstance Win32_Process -ErrorAction SilentlyContinue | Where-Object { '' @
     ''$_.ExecutablePath -and $_.ExecutablePath.StartsWith($targetPath, [System.StringComparison]::OrdinalIgnoreCase) }''"

definition suspiciousProcesses :: "string list" where
  "suspiciousProcesses = [''explorer'', ''electron'', ''Code'', ''devenv'', ''MsMpEng'', ''AvastSvc'']"

definition find_locking_script :: "string \<Rightarrow> string" where
  "find_locking_script dir = ''$dir = '' @ literal dir @ [CHR 0x0A] @
     ''$suspiciousProcesses = @('' @ js_join '', '' (map ps_quote suspiciousProcesses) @ '')''"

definition pid_or_zero :: "string \<Rightarrow> int" where
  "pid_or_zero s = (case js_parseInt s of Some n \<Rightarrow> n | None \<Rightarrow> 0)"

definition third :: "string list \<Rightarrow> string option" where
  "third parts = (if length parts > 2 \<and> parts ! 2 \<noteq> [] then Some (parts ! 2) else None)"

definition process_line :: "string \<Rightarrow> process_info list" where
  "process_line line =
     (let parts = js_split CHR ''|'' line in
      if length parts \<ge> 2 then
        (let nm = parts ! 0; pid = pid_or_zero (parts ! 1) in
         if nm \<noteq> [] \<and> pid > 0 then [\<lparr> pr_name = nm, pr_pid = pid, pr_path = third parts \<rparr>] else [])
      else [])"

definition findProcessesByExecutablePathPowerShell :: "dist_env \<Rightarrow> os \<Rightarrow> string \<Rightarrow> process_info list script" where
  "findProcessesByExecutablePathPowerShell env os targetPath =
     (if \<not> de_isWin env then State_Monad.return []
      else do {
        result \<leftarrow> spawnSync os ''powershell.exe'' (ps_args (find_by_path_script targetPath));
        State_Monad.return (case good_output result of
            None \<Rightarrow> []
          | Some out \<Rightarrow> if js_trim out = [] then []
              else concat (map process_line (filter (\<lambda>l. js_trim l \<noteq> []) (js_split CHR 0x0A (js_trim out)))))
      })"

definition locking_of_output :: "string \<Rightarrow> process_info option" where
  "locking_of_output out =
     (let parts = js_split CHR ''|'' (js_trim out) in
      if js_trim out \<noteq> [] \<and> length parts \<ge> 2 then
        Some \<lparr> pr_name = parts ! 0, pr_pid = pid_or_zero (parts ! 1), pr_path = third parts \<rparr>
      else None)"

definition findProcessLockingFilePowerShell :: "dist_env \<Rightarrow> os \<Rightarrow> string \<Rightarrow> process_info option script" where
  "findProcessLockingFilePowerShell env os dirPath =
     (if \<not> de_isWin env then State_Monad.return None
      else do {
        result \<leftarrow> spawnSync os ''powershell.exe'' (ps_args (find_locking_script dirPath));
        State_Monad.return (case good_output result of None \<Rightarrow> None | Some out \<Rightarrow> locking_of_output out)
      })"

text \<open>
  \<open>line.match(/(\S+\.exe)\s+pid:\s+(\d+)/i)\<close>: white space ends the name and surrounds \<open>pid:\<close>, so
  the match is over the words of the line.
\<close>

fun words_of :: "string \<Rightarrow> string list" where
  "words_of [] = []"
| "words_of (c # s) =
     (if is_ws c then words_of s
      else (case s of
          [] \<Rightarrow> [[c]]
        | d # _ \<Rightarrow> if is_ws d then [c] # words_of s
                   else (case words_of s of [] \<Rightarrow> [[c]] | w # ws \<Rightarrow> (c # w) # ws)))"

fun handle_match :: "string list \<Rightarrow> process_info option" where
  "handle_match (a # b # c # ws) =
     (if ends_with (js_lower a) ''.exe'' \<and> length a > 4 \<and> js_lower b = ''pid:'' \<and> is_digit (hd c)
      then Some \<lparr> pr_name = a, pr_pid = int (parse_digits (takeWhile is_digit c)), pr_path = None \<rparr>
      else handle_match (b # c # ws))"
| "handle_match _ = None"

definition handle_output :: "string \<Rightarrow> process_info option" where
  "handle_output out =
     (case concat (map (\<lambda>l. case handle_match (words_of l) of Some p \<Rightarrow> [p] | None \<Rightarrow> []) (js_split CHR 0x0A out)) of
        [] \<Rightarrow> None | p # _ \<Rightarrow> Some p)"

definition findProcessLockingFileHandleExe :: "dist_env \<Rightarrow> os \<Rightarrow> string \<Rightarrow> process_info option script" where
  "findProcessLockingFileHandleExe env os dirPath =
     (if \<not> de_isWin env then State_Monad.return None
      else do {
        handleCheck \<leftarrow> spawnSync os ''handle.exe'' [''/?''];
        (case handleCheck of
           SpawnThrew \<Rightarrow> State_Monad.return None
         | Spawned st out err \<Rightarrow>
             if st \<noteq> Some 0 \<and> err then State_Monad.return None
             else do {
               result \<leftarrow> spawnSync os ''handle.exe'' [dirPath];
               State_Monad.return (case good_output result of None \<Rightarrow> None | Some text \<Rightarrow> handle_output text)
             })
      })"

text \<open>\<open>line.match(/"([^"]+)"/g)\<close>, without the quotes, and the first \<open>(\d+)\<close> in parentheses.\<close>

function quoted_fields :: "string \<Rightarrow> string list" where
  "quoted_fields [] = []"
| "quoted_fields (c # s) =
     (let body = takeWhile (\<lambda>x. x \<noteq> CHR 0x22) s; rest = dropWhile (\<lambda>x. x \<noteq> CHR 0x22) s in
      if c = CHR 0x22 \<and> body \<noteq> [] \<and> rest \<noteq> [] then body # quoted_fields (tl rest)
      else quoted_fields s)"
  by pat_completeness auto

termination
proof (relation "measure length")
  fix c s body rest
  assume "body = takeWhile (\<lambda>x. x \<noteq> CHR 0x22) s" "rest = dropWhile (\<lambda>x. x \<noteq> CHR 0x22) s"
  then have "length rest \<le> length s" by (simp add: length_dropWhile_le)
  then show "(tl rest, c # s) \<in> measure length" by simp
qed auto

fun paren_number :: "string \<Rightarrow> nat option" where
  "paren_number [] = None"
| "paren_number (c # s) =
     (let ds = takeWhile is_digit s in
      if c = CHR ''('' \<and> ds \<noteq> [] \<and> starts_with (dropWhile is_digit s) '')'' then Some (parse_digits ds)
      else paren_number s)"

definition openfiles_line :: "string \<Rightarrow> string \<Rightarrow> process_info list" where
  "openfiles_line dirPath line =
     (if js_trim line = [] \<or> js_includes line ''HOSTNAME'' \<or> \<not> js_includes line dirPath then []
      else (let matches = quoted_fields line in
        if length matches \<ge> 5 then
          (let accessedBy = matches ! 2; openFile = matches ! 4 in
           if js_includes (js_lower openFile) (js_lower dirPath) then
             (let before = js_trim (hd (js_split CHR ''('' accessedBy));
                  processName = (if before \<noteq> [] then before else accessedBy) in
              case paren_number accessedBy of
                Some pid \<Rightarrow> [\<lparr> pr_name = processName, pr_pid = int pid, pr_path = Some openFile \<rparr>]
              | None \<Rightarrow> [])
           else [])
        else []))"

definition first_of :: "'a list \<Rightarrow> 'a option" where
  "first_of xs = (case xs of [] \<Rightarrow> None | x # _ \<Rightarrow> Some x)"

definition query_openfiles :: "os \<Rightarrow> string \<Rightarrow> process_info option script" where
  "query_openfiles os dirPath = do {
     result \<leftarrow> spawnSync os ''openfiles'' [''/query'', ''/fo'', ''csv'', ''/v''];
     State_Monad.return (case good_output result of
         None \<Rightarrow> None
       | Some out \<Rightarrow> first_of (concat (map (openfiles_line dirPath) (js_split CHR 0x0A out))))
   }"

text \<open>\<open>output.match(/Node,\s*(\d+)/)\<close> on the output of \<open>wmic\<close>.\<close>

fun node_pid :: "string \<Rightarrow> nat option" where
  "node_pid [] = None"
| "node_pid (c # s) =
     (let rest = dropWhile is_ws (drop 5 (c # s)); ds = takeWhile is_digit rest in
      if starts_with (c # s) ''Node,'' \<and> ds \<noteq> [] then Some (parse_digits ds) else node_pid s)"

definition commonLockingProcesses :: "string list" where
  "commonLockingProcesses = [''MsMpEng.exe'', ''MsMpEngCP.exe'', ''AvastSvc.exe'', ''avgnt.exe'']"

definition wmic_args :: "string \<Rightarrow> string list" where
  "wmic_args procName = [''process'', ''where'', ''name='' @ in_quotes procName, ''get'', ''processid'', ''/format:csv'']"

fun query_wmic :: "os \<Rightarrow> string list \<Rightarrow> process_info option script" where
  "query_wmic os [] = State_Monad.return None"
| "query_wmic os (procName # names) = do {
     result \<leftarrow> spawnSync os ''wmic'' (wmic_args procName);
     (case (case good_output result of None \<Rightarrow> None | Some out \<Rightarrow> node_pid out) of
        Some pid \<Rightarrow> State_Monad.return (Some \<lparr> pr_name = procName, pr_pid = int pid, pr_path = None \<rparr>)
      | None \<Rightarrow> query_wmic os names)
   }"

definition findProcessLockingFile :: "dist_env \<Rightarrow> os \<Rightarrow> string \<Rightarrow> process_info option script" where
  "findProcessLockingFile env os dirPath =
     (if \<not> de_isWin env then State_Monad.return None
      else do {
        psResult \<leftarrow> findProcessLockingFilePowerShell env os dirPath;
        (case psResult of
           Some p \<Rightarrow> State_Monad.return (Some p)
         | None \<Rightarrow> do {
             handleResult \<leftarrow> findProcessLockingFileHandleExe env os dirPath;
             (case handleResult of
                Some p \<Rightarrow> State_Monad.return (Some p)
              | None \<Rightarrow> do {
                  opened \<leftarrow> query_openfiles os dirPath;
                  (case opened of
                     Some p \<Rightarrow> State_Monad.return (Some p)
                   | None \<Rightarrow> query_wmic os commonLockingProcesses)
                })
           })
      })"

subsection \<open>Killing processes\<close>

definition taskkill :: "os \<Rightarrow> string list \<Rightarrow> child_result script" where
  "taskkill os args = spawnSync os ''taskkill'' (''/F'' # args)"

definition killProcessByPid :: "dist_env \<Rightarrow> os \<Rightarrow> int \<Rightarrow> bool script" where
  "killProcessByPid env os pid =
     (if \<not> de_isWin env \<or> pid \<le> 0 then State_Monad.return False
      else do { result \<leftarrow> taskkill os [''/PID'', show_int pid]; State_Monad.return (ok_status result) })"

text \<open>\<open>output.match(/(\d+)\s+process\(es\)/)\<close>\<close>

fun killed_count :: "string \<Rightarrow> nat option" where
  "killed_count [] = None"
| "killed_count (c # s) =
     (let rest = dropWhile is_digit (c # s) in
      if is_digit c \<and> rest \<noteq> [] \<and> is_ws (hd rest) \<and> starts_with (dropWhile is_ws rest) ''process(es)''
      then Some (parse_digits (takeWhile is_digit (c # s)))
      else killed_count s)"

definition killProcessByName :: "dist_env \<Rightarrow> os \<Rightarrow> string \<Rightarrow> nat script" where
  "killProcessByName env os processName =
     (if \<not> de_isWin env then State_Monad.return 0
      else do {
        result \<leftarrow> taskkill os [''/IM'', processName];
        State_Monad.return
          (if ok_status result then (case killed_count (sp_stdout result) of Some n \<Rightarrow> n | None \<Rightarrow> 1) else 0)
      })"

text \<open>Runs one \<open>taskkill\<close> per target and counts those that ended well.\<close>

fun kill_all :: "os \<Rightarrow> string list list \<Rightarrow> nat script" where
  "kill_all os [] = State_Monad.return 0"
| "kill_all os (args # others) = do {
     killResult \<leftarrow> taskkill os args;
     n \<leftarrow> kill_all os others;
     State_Monad.return (if ok_status killResult then Suc n else n)
   }"

fun running_names :: "os \<Rightarrow> string list \<Rightarrow> string list script" where
  "running_names os [] = State_Monad.return []"
| "running_names os (procName # names) = do {
     r \<leftarrow> spawnSync os ''tasklist'' [''/FI'', ''IMAGENAME eq '' @ procName, ''/NH'', ''/FO'', ''CSV''];
     others \<leftarrow> running_names os names;
     State_Monad.return
       (if (case good_output r of None \<Rightarrow> False | Some out \<Rightarrow> js_includes (js_trim out) procName)
        then procName # others else others)
   }"

definition app_processes :: "string list" where
  "app_processes = [''ORC TORRENT.exe'', ''orc-daemon.exe'', ''electron.exe'']"

text \<open>Kills what runs from the output directory; true when the fallback by name is skipped.\<close>

definition kill_by_path :: "dist_env \<Rightarrow> os \<Rightarrow> bool script" where
  "kill_by_path env os = do {
     procsByPath \<leftarrow> findProcessesByExecutablePathPowerShell env os (winUnpackedDir env);
     killedCount \<leftarrow> kill_all os (map (\<lambda>p. [''/PID'', show_int (pr_pid p)]) procsByPath);
     (if killedCount > 0 then do { sleepSync 2000; State_Monad.return True } else State_Monad.return False)
   }"

definition kill_by_name :: "dist_env \<Rightarrow> os \<Rightarrow> unit script" where
  "kill_by_name env os = do {
     running \<leftarrow> running_names os app_processes;
     (if running \<noteq> [] \<and> env_on (de_AUTO_KILL env) then do {
        killedCount \<leftarrow> kill_all os (map (\<lambda>p. [''/IM'', p]) running);
        (if killedCount > 0 then sleepSync 2000 else State_Monad.return ())
      } else State_Monad.return ())
   }"

definition checkRunningProcesses :: "dist_env \<Rightarrow> os \<Rightarrow> unit script" where
  "checkRunningProcesses env os =
     (if \<not> de_isWin env then State_Monad.return ()
      else if \<not> env_on (de_AUTO_KILL env) then kill_by_name env os
      else do {
        there \<leftarrow> existsSync os (winUnpackedDir env);
        handled \<leftarrow> (if there then kill_by_path env os else State_Monad.return False);
        (if handled then State_Monad.return () else kill_by_name env os)
      })"

subsection \<open>Deleting\<close>

definition tryWindowsRmdir :: "dist_env \<Rightarrow> os \<Rightarrow> string \<Rightarrow> bool script" where
  "tryWindowsRmdir env os dirPath =
     (if \<not> de_isWin env then State_Monad.return False
      else do {
        result \<leftarrow> spawnSync os ''cmd.exe'' [''/c'', ''rmdir'', ''/s'', ''/q'', dirPath];
        (if ok_status result then do { there \<leftarrow> existsSync os dirPath; State_Monad.return (\<not> there) }
         else State_Monad.return False)
      })"

definition remove_script :: "string \<Rightarrow> string" where
  "remove_script dirPath = ''Remove-Item -LiteralPath '' @ literal dirPath @ '' -Recurse -Force -ErrorAction Stop''"

definition tryPowerShellRemove :: "dist_env \<Rightarrow> os \<Rightarrow> string \<Rightarrow> bool script" where
  "tryPowerShellRemove env os dirPath =
     (if \<not> de_isWin env then State_Monad.return False
      else do {
        result \<leftarrow> spawnSync os ''powershell.exe'' (ps_args (remove_script dirPath));
        (if ok_status result then do { there \<leftarrow> existsSync os dirPath; State_Monad.return (\<not> there) }
         else State_Monad.return False)
      })"

text \<open>\<open>rmSync(dir)\<close> in a \<open>try\<close>, and whether the directory is gone.\<close>

definition node_remove :: "os \<Rightarrow> string \<Rightarrow> bool script" where
  "node_remove os dirPath = do {
     thrown \<leftarrow> fsSync os (RemoveTree dirPath);
     (if thrown = None then do { there \<leftarrow> existsSync os dirPath; State_Monad.return (\<not> there) }
      else State_Monad.return False)
   }"

text \<open>The first of several ways that works.\<close>

fun first_true :: "bool script list \<Rightarrow> bool script" where
  "first_true [] = State_Monad.return False"
| "first_true (m # ms) = do { ok \<leftarrow> m; (if ok then State_Monad.return True else first_true ms) }"

definition currentUser :: "dist_env \<Rightarrow> string" where
  "currentUser env = (case de_USERNAME env of Some u \<Rightarrow> u | None \<Rightarrow>
     (case de_USER env of Some u \<Rightarrow> u | None \<Rightarrow> ''Administrators''))"

definition tryTakeOwnershipAndDelete :: "dist_env \<Rightarrow> os \<Rightarrow> string \<Rightarrow> bool script" where
  "tryTakeOwnershipAndDelete env os dirPath =
     (if \<not> de_isWin env then State_Monad.return False
      else do {
        takeownResult \<leftarrow> spawnSync os ''takeown'' [''/f'', dirPath, ''/r'', ''/d'', ''y''];
        (if takeownResult = SpawnThrew then State_Monad.return False
         else do {
           icacls1 \<leftarrow> spawnSync os ''icacls'' [dirPath, ''/grant'', currentUser env @ '':F'', ''/T'', ''/q''];
           (if icacls1 = SpawnThrew then State_Monad.return False
            else do {
              icacls2 \<leftarrow> spawnSync os ''icacls'' [dirPath, ''/grant'', ''Administrators:F'', ''/T'', ''/q''];
              (if icacls2 = SpawnThrew then State_Monad.return False
               else do {
                 sleepSync 1000;
                 first_true [tryWindowsRmdir env os dirPath, tryPowerShellRemove env os dirPath, node_remove os dirPath]
               })
            })
         })
      })"

text \<open>A program that could not be run has the status \<open>null\<close>, which compares as zero.\<close>

definition robocopy_ok :: "child_result \<Rightarrow> bool" where
  "robocopy_ok r = (case r of
      SpawnThrew \<Rightarrow> False
    | Spawned st out err \<Rightarrow> (case st of None \<Rightarrow> True | Some k \<Rightarrow> k \<le> 7))"

definition tryRobocopyMirrorDelete :: "dist_env \<Rightarrow> os \<Rightarrow> string \<Rightarrow> bool script" where
  "tryRobocopyMirrorDelete env os dirPath =
     (if \<not> de_isWin env then State_Monad.return False
      else do {
        now \<leftarrow> stamp os;
        made \<leftarrow> mkdtempSync os (joined True [de_tmpdir env, ''empty_'' @ now @ ''_'']);
        (case made of
           None \<Rightarrow> State_Monad.return False
         | Some tempEmptyDir \<Rightarrow> do {
             result \<leftarrow> spawnSync os ''robocopy'' [tempEmptyDir, dirPath, ''/MIR'', ''/NFL'', ''/NDL'', ''/NJH'',
               ''/NJS'', ''/NP'', ''/R:0'', ''/W:0''];
             (if result = SpawnThrew then State_Monad.return False
              else do {
                _ \<leftarrow> fsSync os (RemoveTree tempEmptyDir);
                (if robocopy_ok result then do { sleepSync 500; tryWindowsRmdir env os dirPath }
                 else State_Monad.return False)
              })
           })
      })"

definition dirname :: "bool \<Rightarrow> string \<Rightarrow> string" where
  "dirname isWin p = rev (tl (dropWhile (\<lambda>c. \<not> path_sep isWin c) (rev p)))"

definition temp_name :: "string \<Rightarrow> string \<Rightarrow> string" where
  "temp_name dirPath mark = joined True [dirname True dirPath, ''_temp_delete_'' @ mark]"

definition delete_renamed :: "dist_env \<Rightarrow> os \<Rightarrow> string \<Rightarrow> bool script" where
  "delete_renamed env os tempName = do {
     sleepSync 1000;
     first_true [tryTakeOwnershipAndDelete env os tempName, tryWindowsRmdir env os tempName,
       tryPowerShellRemove env os tempName, tryRobocopyMirrorDelete env os tempName, node_remove os tempName]
   }"

definition tryRenameThenDelete :: "dist_env \<Rightarrow> os \<Rightarrow> string \<Rightarrow> bool script" where
  "tryRenameThenDelete env os dirPath =
     (if \<not> de_isWin env then State_Monad.return False
      else do {
        mark \<leftarrow> stamp os;
        thrown \<leftarrow> fsSync os (Rename dirPath (temp_name dirPath mark));
        (if thrown \<noteq> None then State_Monad.return False else delete_renamed env os (temp_name dirPath mark))
      })"

subsection \<open>Who may be killed\<close>

definition safeToKill :: "string list" where
  "safeToKill = [''electron.exe'', ''ORC TORRENT.exe'', ''orc-daemon.exe'', ''Code.exe'']"

definition systemProcesses :: "string list" where
  "systemProcesses = [''svchost.exe'', ''dwm.exe'', ''winlogon.exe'', ''csrss.exe'', ''lsass.exe'']"

definition canAutoKill :: "string \<Rightarrow> bool" where
  "canAutoKill nm \<longleftrightarrow> (\<exists>s \<in> set safeToKill. js_includes (js_lower nm) (js_lower s))"

definition isSystemProcess :: "string \<Rightarrow> bool" where
  "isSystemProcess nm \<longleftrightarrow> (\<exists>s \<in> set systemProcesses. js_includes (js_lower nm) s)"

definition spared :: "string \<Rightarrow> bool" where
  "spared nm \<longleftrightarrow> js_lower nm = ''explorer.exe'' \<or> \<not> canAutoKill nm \<and> isSystemProcess nm"

definition autoResolveFileLocks :: "dist_env \<Rightarrow> os \<Rightarrow> string \<Rightarrow> bool script" where
  "autoResolveFileLocks env os dir =
     (if \<not> de_isWin env then State_Monad.return False
      else do {
        lockingProcess \<leftarrow> findProcessLockingFile env os dir;
        (case lockingProcess of
           None \<Rightarrow> State_Monad.return False
         | Some p \<Rightarrow>
             if spared (pr_name p) then State_Monad.return False
             else do {
               killed \<leftarrow> (if pr_pid p > 0 then killProcessByPid env os (pr_pid p) else State_Monad.return False);
               killed' \<leftarrow> (if \<not> killed \<and> pr_name p \<noteq> [] then do {
                   n \<leftarrow> killProcessByName env os (pr_name p); State_Monad.return (n > 0) }
                 else State_Monad.return killed);
               (if killed' then do { sleepSync 3000; State_Monad.return True } else State_Monad.return False)
             })
      })"

subsection \<open>Cleaning the output directory\<close>

definition max_attempts :: nat where "max_attempts = 5"

text \<open>One round of the loop; the last check of a round is made again before the next.\<close>

definition clean_round :: "dist_env \<Rightarrow> os \<Rightarrow> string \<Rightarrow> nat \<Rightarrow> bool script" where
  "clean_round env os dir attempt = do {
     (if attempt > 0 then sleepSync 2000 else State_Monad.return ());
     first_true
       ([node_remove os dir, tryWindowsRmdir env os dir, tryPowerShellRemove env os dir] @
        (if attempt \<ge> 2 then [tryTakeOwnershipAndDelete env os dir] else []) @
        (if attempt \<ge> 3 then [tryRobocopyMirrorDelete env os dir] else []) @
        (if attempt = max_attempts - 1 then [tryRenameThenDelete env os dir] else []) @
        [do { there \<leftarrow> existsSync os dir; State_Monad.return (\<not> there) }])
   }"

definition last_try :: "dist_env \<Rightarrow> os \<Rightarrow> string \<Rightarrow> bool script" where
  "last_try env os dir =
     (if \<not> de_isWin env then State_Monad.return False
      else do {
        resolved \<leftarrow> autoResolveFileLocks env os dir;
        gone \<leftarrow> (if resolved then do { sleepSync 2000; node_remove os dir } else State_Monad.return False);
        (if gone then State_Monad.return True
         else do { _ \<leftarrow> findProcessLockingFile env os dir; State_Monad.return False })
      })"

definition cleanDistDirectory :: "dist_env \<Rightarrow> os \<Rightarrow> bool script" where
  "cleanDistDirectory env os = do {
     there \<leftarrow> existsSync os (winUnpackedDir env);
     (if \<not> there then State_Monad.return True
      else do {
        _ \<leftarrow> (if de_isWin env then autoResolveFileLocks env os (winUnpackedDir env) else State_Monad.return False);
        sleepSync 2000;
        ok \<leftarrow> first_true (map (clean_round env os (winUnpackedDir env)) [0..<max_attempts]);
        (if ok then State_Monad.return True
         else do {
           stillExists \<leftarrow> existsSync os (winUnpackedDir env);
           (if \<not> stillExists then State_Monad.return True else last_try env os (winUnpackedDir env))
         })
      })
   }"

section \<open>Properties\<close>

subsection \<open>Searching only asks\<close>

text \<open>Neither waits nor kills nor changes a file.\<close>

definition only_asks :: "os_event \<Rightarrow> bool" where
  "only_asks e = (case e of Slept n \<Rightarrow> False | Spawn c args r \<Rightarrow> c \<noteq> ''taskkill'' | Exists p b \<Rightarrow> True | _ \<Rightarrow> False)"

lemma only_asks_simps [simp]: "only_asks (Exists p b)" "only_asks (Spawn c args r) \<longleftrightarrow> c \<noteq> ''taskkill''"
  by (simp_all add: only_asks_def)

lemma search_asks:
  "emits only_asks (findProcessLockingFilePowerShell env os dir)"
  "emits only_asks (findProcessLockingFileHandleExe env os dir)"
  "emits only_asks (query_openfiles os dir)" "emits only_asks (query_wmic os names)"
proof -
  show "emits only_asks (findProcessLockingFilePowerShell env os dir)"
    unfolding findProcessLockingFilePowerShell_def by (intro emits_rules) simp_all
  show "emits only_asks (findProcessLockingFileHandleExe env os dir)"
    unfolding findProcessLockingFileHandleExe_def
    by (intro emits_rules) (auto split: child_result.split intro!: emits_rules)
  show "emits only_asks (query_openfiles os dir)"
    unfolding query_openfiles_def by (intro emits_rules) simp_all
  show "emits only_asks (query_wmic os names)"
    by (induction names) (auto intro!: emits_rules)
qed

lemma findProcess_asks: "emits only_asks (findProcessLockingFile env os dir)"
  unfolding findProcessLockingFile_def by (intro emits_rules search_asks)

subsection \<open>Waiting is bounded\<close>

lemma costs_first_true:
  "list_all2 (\<lambda>m a. costs w a m) ms ns \<Longrightarrow> costs w (sum_list ns) (first_true ms)"
proof (induction ms ns rule: list_all2_induct)
  case Nil
  then show ?case by (simp add: costs_return)
next
  case (Cons m ms n ns)
  have "costs w (n + max 0 (sum_list ns)) (first_true (m # ms))"
    unfolding first_true.simps by (intro costs_rules Cons)
  then show ?case by simp
qed

lemma delete_waits:
  "costs sleep_of 0 (tryWindowsRmdir env os d)"
  "costs sleep_of 0 (tryPowerShellRemove env os d)"
  "costs sleep_of 0 (node_remove os d)"
  unfolding tryWindowsRmdir_def tryPowerShellRemove_def node_remove_def
  by (rule costs_mono, (rule costs_rules sys_costs)+, simp)+

lemma ownership_waits: "costs sleep_of 1000 (tryTakeOwnershipAndDelete env os d)"
proof -
  have "costs sleep_of (sum_list [0, 0, 0])
      (first_true [tryWindowsRmdir env os d, tryPowerShellRemove env os d, node_remove os d])"
    by (rule costs_first_true) (simp add: delete_waits)
  then have last: "costs sleep_of 0
      (first_true [tryWindowsRmdir env os d, tryPowerShellRemove env os d, node_remove os d])" by simp
  show ?thesis
    unfolding tryTakeOwnershipAndDelete_def by (rule costs_mono, (rule costs_rules sys_costs last)+, simp)
qed

lemma robocopy_waits: "costs sleep_of 500 (tryRobocopyMirrorDelete env os d)"
  unfolding tryRobocopyMirrorDelete_def
  by (rule costs_mono, (rule costs_rules sys_costs delete_waits)+, simp)

lemma rename_waits: "costs sleep_of 2500 (tryRenameThenDelete env os d)"
proof -
  have "costs sleep_of (sum_list [1000, 0, 0, 500, 0])
      (first_true [tryTakeOwnershipAndDelete env os t, tryWindowsRmdir env os t,
             tryPowerShellRemove env os t, tryRobocopyMirrorDelete env os t, node_remove os t])" for t
    by (rule costs_first_true) (simp add: delete_waits ownership_waits robocopy_waits)
  then have ways: "costs sleep_of 1500
      (first_true [tryTakeOwnershipAndDelete env os t, tryWindowsRmdir env os t,
             tryPowerShellRemove env os t, tryRobocopyMirrorDelete env os t, node_remove os t])" for t by simp
  have last: "costs sleep_of 2500 (delete_renamed env os t)" for t
    unfolding delete_renamed_def by (rule costs_mono, (rule costs_rules sys_costs ways)+, simp)
  show ?thesis
    unfolding tryRenameThenDelete_def by (rule costs_mono, (rule costs_rules sys_costs last)+, simp)
qed

lemma resolve_waits: "costs sleep_of 3000 (autoResolveFileLocks env os d)"
proof -
  have search: "costs sleep_of 0 (findProcessLockingFile env os d)"
    by (rule emits_costs, rule emits_mono [OF findProcess_asks]) (auto simp: only_asks_def sleep_of_def split: os_event.splits)
  have kill: "costs sleep_of 0 (killProcessByPid env os pid)" "costs sleep_of 0 (killProcessByName env os nm)" for pid nm
    unfolding killProcessByPid_def killProcessByName_def taskkill_def
    by (rule costs_mono, (rule costs_rules sys_costs)+, simp)+
  show ?thesis
    unfolding autoResolveFileLocks_def by (rule costs_mono, (rule costs_rules sys_costs search kill)+, simp)
qed

text \<open>The waiting of round \<open>attempt\<close>.\<close>

definition round_wait :: "nat \<Rightarrow> nat" where
  "round_wait attempt = (if attempt > 0 then 2000 else 0) + (if attempt \<ge> 2 then 1000 else 0) +
     (if attempt \<ge> 3 then 500 else 0) + (if attempt = max_attempts - 1 then 2500 else 0)"

lemma round_waits: "costs sleep_of (round_wait attempt) (clean_round env os d attempt)"
proof -
  have ways: "costs sleep_of (sum_list ([0, 0, 0] @ (if attempt \<ge> 2 then [1000] else []) @
      (if attempt \<ge> 3 then [500] else []) @ (if attempt = max_attempts - 1 then [2500] else []) @ [0]))
     (first_true
       ([node_remove os d, tryWindowsRmdir env os d, tryPowerShellRemove env os d] @
        (if attempt \<ge> 2 then [tryTakeOwnershipAndDelete env os d] else []) @
        (if attempt \<ge> 3 then [tryRobocopyMirrorDelete env os d] else []) @
        (if attempt = max_attempts - 1 then [tryRenameThenDelete env os d] else []) @
        [do { there \<leftarrow> existsSync os d; State_Monad.return (\<not> there) }]))"
  proof (rule costs_first_true, intro list_all2_appendI)
    show "list_all2 (\<lambda>m a. costs sleep_of a m) [do { there \<leftarrow> existsSync os d; State_Monad.return (\<not> there) }] [0]"
      by simp (rule costs_mono, (rule costs_rules sys_costs)+, simp)
  qed (simp_all add: delete_waits ownership_waits robocopy_waits rename_waits)
  have pause: "costs sleep_of (if attempt > 0 then 2000 else 0) (if attempt > 0 then sleepSync 2000 else State_Monad.return ())"
    using sys_costs(9) [of 2000] costs_return [of sleep_of "()"] by simp
  show ?thesis
    unfolding clean_round_def by (rule costs_mono, rule costs_bind, rule pause, rule ways) (simp add: round_wait_def)
qed

lemma rounds_wait:
  "costs sleep_of 14500 (first_true (map (clean_round env os d) [0..<max_attempts]))"
proof -
  have "costs sleep_of (sum_list (map round_wait [0..<max_attempts])) (first_true (map (clean_round env os d) [0..<max_attempts]))"
    by (rule costs_first_true) (simp add: list_all2_map1 list_all2_map2 list.rel_refl round_waits)
  moreover have "sum_list (map round_wait [0..<max_attempts]) = 14500"
    by (simp add: max_attempts_def round_wait_def upt_rec)
  ultimately show ?thesis by simp
qed

text \<open>
  Further fact: cleaning the output directory always returns and waits at most 24.5 seconds in all,
  whatever the programs it calls and the file system answer.
\<close>

theorem cleaning_is_bounded:
  "weight sleep_of (snd (run_state (cleanDistDirectory env os) t)) \<le> weight sleep_of t + 24500"
proof -
  have last: "costs sleep_of 5000 (last_try env os d)" for d
  proof -
    have search: "costs sleep_of 0 (findProcessLockingFile env os d)"
      by (rule emits_costs, rule emits_mono [OF findProcess_asks]) (auto simp: only_asks_def sleep_of_def split: os_event.splits)
    show ?thesis
      unfolding last_try_def by (rule costs_mono, (rule costs_rules sys_costs resolve_waits delete_waits search)+, simp)
  qed
  have "costs sleep_of 24500 (cleanDistDirectory env os)"
    unfolding cleanDistDirectory_def
    by (rule costs_mono, (rule costs_rules sys_costs resolve_waits rounds_wait last)+, simp)
  then show ?thesis by (simp add: costs_def)
qed

subsection \<open>What is killed\<close>

lemma kill_events:
  "emits (\<lambda>e. \<exists>r. e = Spawn ''taskkill'' [''/F'', ''/PID'', show_int pid] r \<and> pid > 0) (killProcessByPid env os pid)"
  "emits (\<lambda>e. \<exists>r. e = Spawn ''taskkill'' [''/F'', ''/IM'', nm] r) (killProcessByName env os nm)"
  unfolding killProcessByPid_def killProcessByName_def taskkill_def by (auto intro!: emits_rules)

lemma killed_really:
  "run_state (killProcessByPid env os pid) t = (True, t') \<Longrightarrow>
     \<exists>r. t' = t @ [Spawn ''taskkill'' [''/F'', ''/PID'', show_int pid] r] \<and> ok_status r"
  "run_state (killProcessByName env os nm) t = (n, t') \<Longrightarrow> n > 0 \<Longrightarrow>
     \<exists>r. t' = t @ [Spawn ''taskkill'' [''/F'', ''/IM'', nm] r] \<and> ok_status r"
  unfolding killProcessByPid_def killProcessByName_def taskkill_def spawnSync_def
  by (auto split: if_splits)

definition kill_target :: "process_info \<Rightarrow> os_event \<Rightarrow> bool" where
  "kill_target p e \<longleftrightarrow> (\<exists>r. e = Spawn ''taskkill'' [''/F'', ''/PID'', show_int (pr_pid p)] r \<and> pr_pid p > 0 \<or>
     e = Spawn ''taskkill'' [''/F'', ''/IM'', pr_name p] r)"

lemma resolve_step:
  assumes found: "run_state (findProcessLockingFile env os dir) t = (Some p, t1)"
    and win: "de_isWin env" and ok: "\<not> spared (pr_name p)"
    and run: "run_state (autoResolveFileLocks env os dir) t = (b, t')"
  shows "\<exists>es. t' = t1 @ es \<and> (\<forall>args r. Spawn ''taskkill'' args r \<in> set es \<longrightarrow> kill_target p (Spawn ''taskkill'' args r)) \<and>
    (b \<longrightarrow> (\<exists>args r. Spawn ''taskkill'' args r \<in> set es \<and> ok_status r))"
proof -
  let ?K = "\<lambda>e. kill_target p e \<or> e = Slept 3000"
  obtain k t2 where k: "run_state (if pr_pid p > 0 then killProcessByPid env os (pr_pid p) else State_Monad.return False) t1 = (k, t2)"
    by fastforce
  have "emits ?K (if pr_pid p > 0 then killProcessByPid env os (pr_pid p) else State_Monad.return False)"
    by (rule emits_if; (rule emits_mono [OF kill_events(1)])?; (rule emits_return)?) (auto simp: kill_target_def)
  then obtain es1 where es1: "t2 = t1 @ es1" "\<forall>e \<in> set es1. ?K e" using emits_run [OF _ k] by blast
  have k1: "k \<Longrightarrow> \<exists>args r. Spawn ''taskkill'' args r \<in> set es1 \<and> ok_status r"
    using k killed_really(1) [of env os "pr_pid p" t1 t2] es1(1) by (auto split: if_splits)
  obtain k' t3 where k': "run_state (if \<not> k \<and> pr_name p \<noteq> [] then
      State_Monad.bind (killProcessByName env os (pr_name p)) (\<lambda>n. State_Monad.return (n > 0)) else State_Monad.return k) t2 = (k', t3)"
    by fastforce
  have "emits ?K (if \<not> k \<and> pr_name p \<noteq> [] then
      State_Monad.bind (killProcessByName env os (pr_name p)) (\<lambda>n. State_Monad.return (n > 0)) else State_Monad.return k)"
    by (intro emits_if emits_bind emits_return emits_mono [OF kill_events(2)]) (auto simp: kill_target_def)
  then obtain es2 where es2: "t3 = t2 @ es2" "\<forall>e \<in> set es2. ?K e" using emits_run [OF _ k'] by blast
  have k2: "k' \<Longrightarrow> k \<or> (\<exists>args r. Spawn ''taskkill'' args r \<in> set es2 \<and> ok_status r)"
    using k' es2(1) killed_really(2) [of env os "pr_name p" t2] by (auto split: if_splits prod.splits)
  have t': "t' = (if k' then t3 @ [Slept 3000] else t3)" "b = k'"
    using run k k' win ok by (auto simp: autoResolveFileLocks_def found sleepSync_def split: if_splits)
  define es where "es = es1 @ es2 @ (if k' then [Slept 3000] else [])"
  have "t' = t1 @ es" using t' es1(1) es2(1) by (simp add: es_def)
  moreover have "\<forall>e \<in> set es. ?K e" using es1(2) es2(2) by (auto simp: es_def)
  moreover have "b \<longrightarrow> (\<exists>args r. Spawn ''taskkill'' args r \<in> set es \<and> ok_status r)"
    using k1 k2 t'(2) by (auto simp: es_def)
  ultimately show ?thesis by (intro exI [of _ es]) auto
qed

text \<open>
  Further fact: an attempt to resolve locks runs \<open>taskkill\<close> only on the process the search has just
  found, by its number or its name, and only if that process is not the Explorer and is no system
  process unless it also bears the name of one of the four that may always be killed. It reports
  success only if one of these runs of \<open>taskkill\<close> ended well.
\<close>

theorem lock_resolution_spares_the_system:
  assumes "run_state (autoResolveFileLocks env os dir) t = (b, t')"
  shows "\<exists>es. t' = t @ es \<and>
    (\<forall>args r. Spawn ''taskkill'' args r \<in> set es \<longrightarrow>
       (\<exists>p. fst (run_state (findProcessLockingFile env os dir) t) = Some p \<and>
          js_lower (pr_name p) \<noteq> ''explorer.exe'' \<and> (isSystemProcess (pr_name p) \<longrightarrow> canAutoKill (pr_name p)) \<and>
          kill_target p (Spawn ''taskkill'' args r))) \<and>
    (b \<longrightarrow> (\<exists>args r. Spawn ''taskkill'' args r \<in> set es \<and> ok_status r))"
proof -
  obtain found t1 where s: "run_state (findProcessLockingFile env os dir) t = (found, t1)" by fastforce
  obtain es0 where es0: "t1 = t @ es0" "\<forall>e \<in> set es0. only_asks e" using emits_run [OF findProcess_asks s] by blast
  have quiet: "Spawn ''taskkill'' args r \<notin> set es0" for args r using es0(2) by auto
  show ?thesis
  proof (cases "de_isWin env \<and> (\<exists>p. found = Some p \<and> \<not> spared (pr_name p))")
    case True
    then obtain p where p: "found = Some p" "\<not> spared (pr_name p)" "de_isWin env" by blast
    obtain es where es: "t' = t1 @ es" "\<forall>args r. Spawn ''taskkill'' args r \<in> set es \<longrightarrow> kill_target p (Spawn ''taskkill'' args r)"
      "b \<longrightarrow> (\<exists>args r. Spawn ''taskkill'' args r \<in> set es \<and> ok_status r)"
      using resolve_step [OF s [unfolded p(1)] p(3,2) assms] by blast
    show ?thesis
      using es p quiet unfolding s es0(1) spared_def by (intro exI [of _ "es0 @ es"]) auto
  next
    case False
    then have "\<not> b" "t' = t \<or> t' = t1"
      using assms s by (auto simp: autoResolveFileLocks_def split: if_splits option.splits)
    then show ?thesis using quiet es0(1) by auto
  qed
qed

definition locked_env :: dist_env where
  "locked_env = \<lparr> de_isWin = True, de_root = ''r'', de_tmpdir = ''t'', de_AUTO_KILL = None, de_USE_TEMP = None,
     de_PACK_DIR_ONLY = None, de_SKIP_SYMLINK = None, de_LOCALAPPDATA = None, de_USERNAME = None, de_USER = None \<rparr>"

text \<open>A system where PowerShell reports one process and everything else fails.\<close>

definition reporting :: "string \<Rightarrow> os" where
  "reporting out = \<lparr> os_spawn = (\<lambda>t c args. if c = ''powershell.exe'' then Spawned (Some 0) out False
       else if c = ''taskkill'' then Spawned (Some 0) [] False else Spawned None [] True),
     os_exec = (\<lambda>t c. ExecFailed None), os_exists = (\<lambda>t p. True), os_fs = (\<lambda>t f. Some ''EBUSY''),
     os_temp = (\<lambda>t p. None), os_list = (\<lambda>t p. None), os_size = (\<lambda>t p. None), os_stamp = (\<lambda>t. ''0'') \<rparr>"

lemma reporting_found:
  assumes "locking_of_output out = Some p" "de_isWin env"
  shows "run_state (findProcessLockingFile env (reporting out) dir) t =
    (Some p, t @ [Spawn ''powershell.exe'' (ps_args (find_locking_script dir)) (Spawned (Some 0) out False)])"
proof -
  have "out \<noteq> []" using assms(1) by (auto simp: locking_of_output_def Let_def)
  then show ?thesis
    using assms by (simp add: findProcessLockingFile_def findProcessLockingFilePowerShell_def spawnSync_def
        reporting_def good_output_def)
qed

theorem lock_resolution_spares_the_system_witness:
  "\<exists>es. snd (run_state (autoResolveFileLocks locked_env (reporting ''explorer.exe|7'') ''d'') []) = es \<and>
    (\<exists>args r. Spawn ''taskkill'' args r \<in> set es) = False"
proof -
  let ?os = "reporting ''explorer.exe|7''"
  have p: "locking_of_output ''explorer.exe|7'' = Some \<lparr> pr_name = ''explorer.exe'', pr_pid = 7, pr_path = None \<rparr>"
    by code_simp
  have l: "js_lower ''explorer.exe'' = ''explorer.exe''" by code_simp
  obtain b t' where r: "run_state (autoResolveFileLocks locked_env ?os ''d'') [] = (b, t')" by fastforce
  show ?thesis
    using lock_resolution_spares_the_system [OF r] reporting_found [OF p, of locked_env "''d''" "[]"] l r
    by (auto simp: locked_env_def)
qed

text \<open>
  Further fact: the antivirus is not among the processes that are spared, although the search only_asks
  for it by name: when PowerShell names it, it is killed.
\<close>

theorem antivirus_is_killed:
  assumes "de_isWin env" "locking_of_output out = Some p" "pr_pid p > 0"
    and "pr_name p = nm @ ''.exe''" "nm \<in> set suspiciousProcesses" "nm \<noteq> ''explorer''"
  shows "fst (run_state (autoResolveFileLocks env (reporting out) dir) t) \<and>
    Spawn ''taskkill'' [''/F'', ''/PID'', show_int (pr_pid p)] (Spawned (Some 0) [] False)
      \<in> set (snd (run_state (autoResolveFileLocks env (reporting out) dir) t))"
proof -
  have names: "\<not> spared (n @ ''.exe'')" if "n \<in> set [''electron'', ''Code'', ''devenv'', ''MsMpEng'', ''AvastSvc'']" for n
  proof -
    have "\<not> spared ''electron.exe''" "\<not> spared ''Code.exe''" "\<not> spared ''devenv.exe''" "\<not> spared ''MsMpEng.exe''"
      "\<not> spared ''AvastSvc.exe''" by code_simp+
    then show ?thesis using that by auto
  qed
  have "\<not> spared (pr_name p)"
    using names [of nm] assms(4,5,6) by (auto simp: suspiciousProcesses_def)
  then show ?thesis
    using assms(1,3) reporting_found [OF assms(2,1), of dir t]
    by (simp add: autoResolveFileLocks_def killProcessByPid_def taskkill_def spawnSync_def sleepSync_def ok_status_def)
      (simp add: reporting_def ok_status_def)
qed

theorem antivirus_is_killed_witness:
  "fst (run_state (autoResolveFileLocks locked_env (reporting ''MsMpEng.exe|1234|C:'') ''d'') [])"
proof -
  have "locking_of_output ''MsMpEng.exe|1234|C:'' = Some \<lparr> pr_name = ''MsMpEng.exe'', pr_pid = 1234, pr_path = Some ''C:'' \<rparr>"
    by code_simp
  then show ?thesis
    using antivirus_is_killed [of locked_env "''MsMpEng.exe|1234|C:''" _ "''MsMpEng''" "''d''" "[]"]
    by (simp add: locked_env_def suspiciousProcesses_def)
qed

subsection \<open>Searches that find nothing\<close>

text \<open>A single-quoted string of PowerShell: only the quotes of the text are doubled in it.\<close>

definition spells :: "string \<Rightarrow> string \<Rightarrow> bool" where
  "spells text lit \<longleftrightarrow> lit = CHR 0x27 # double_char CHR 0x27 text @ [CHR 0x27]"

lemma literal_spells: "spells (double_char CHR 0x5C p) (literal p)"
  by (simp add: spells_def literal_def escapedPath_def)

lemma double_has_two: "CHR 0x5C \<in> set p \<Longrightarrow> sublist [CHR 0x5C, CHR 0x5C] (double_char CHR 0x5C p)"
  by (induction "CHR 0x5C" p rule: double_char.induct) (auto simp: sublist_Cons_right prefix_Cons)

lemma lower_backslash: "lower_char c = CHR 0x5C \<longleftrightarrow> c = CHR 0x5C"
proof -
  define n where "n = (of_char c :: nat)"
  have c: "c = char_of n" by (simp add: n_def)
  have n: "n < 256" unfolding n_def by (rule nat_of_char_less_256)
  have "(of_char (lower_char c) :: nat) = (if 65 \<le> n \<and> n \<le> 90 then n + 32 else n)"
    using n by (simp add: lower_char_def Let_def flip: n_def)
  then have "(of_char (lower_char c) :: nat) = 92 \<longleftrightarrow> n = 92" by auto
  moreover have "x = CHR 0x5C \<longleftrightarrow> (of_char x :: nat) = 92" for x :: char
    using of_char_eq_iff [of x "CHR 0x5C", where ?'a = nat] by simp
  ultimately show ?thesis by (simp add: n_def)
qed

lemma prefix_single: "prefix [a] x \<longleftrightarrow> x \<noteq> [] \<and> hd x = a"
  by (cases x) auto

lemma lower_two: "sublist [CHR 0x5C, CHR 0x5C] (js_lower x) \<longleftrightarrow> sublist [CHR 0x5C, CHR 0x5C] x"
proof (induction x)
  case (Cons a x)
  have "lower_char a = CHR 0x5C \<longleftrightarrow> a = CHR 0x5C" "x \<noteq> [] \<Longrightarrow> lower_char (hd x) = CHR 0x5C \<longleftrightarrow> hd x = CHR 0x5C"
    by (rule lower_backslash)+
  then show ?case
    using Cons by (cases x) (auto simp: js_lower_def sublist_Cons_right prefix_single)
qed (simp add: js_lower_def)

text \<open>
  Further fact: the scripts double the backslashes of the path, but PowerShell takes backslashes in a
  single-quoted string as they are. So for every path with a backslash the string it compares with
  has a double backslash, and no ordinary path begins with it or contains it: processes running
  from the output directory are never found by their path.
\<close>

theorem path_search_finds_nothing:
  assumes "CHR 0x5C \<in> set targetPath" "\<not> sublist [CHR 0x5C, CHR 0x5C] executablePath"
  shows "\<exists>compared. spells compared (literal targetPath) \<and>
    \<not> starts_with (js_lower executablePath) (js_lower compared) \<and>
    \<not> js_includes (js_lower executablePath) (js_lower compared)"
proof -
  have "\<not> js_includes (js_lower executablePath) (js_lower (double_char CHR 0x5C targetPath))"
    using double_has_two [OF assms(1)] assms(2) lower_two [of executablePath] lower_two [of "double_char CHR 0x5C targetPath"]
      sublist_order.order_trans by blast
  then show ?thesis
    using literal_spells [of targetPath] prefix_imp_sublist by blast
qed

theorem path_search_finds_nothing_witness:
  "\<exists>compared. spells compared (literal [CHR ''C'', CHR '':'', CHR 0x5C, CHR ''d'']) \<and>
    \<not> starts_with (js_lower [CHR ''C'', CHR '':'', CHR 0x5C, CHR ''d'', CHR 0x5C, CHR ''x'']) (js_lower compared)"
  using path_search_finds_nothing [of "[CHR ''C'', CHR '':'', CHR 0x5C, CHR ''d'']"
      "[CHR ''C'', CHR '':'', CHR 0x5C, CHR ''d'', CHR 0x5C, CHR ''x'']"]
  by (auto simp: sublist_Cons_right prefix_single)

lemma node_pid_Some:
  "node_pid s = Some n \<Longrightarrow> \<exists>a b. s = a @ ''Node,'' @ b \<and> takeWhile is_digit (dropWhile is_ws b) \<noteq> []"
proof (induction s)
  case (Cons c s)
  show ?case
  proof (cases "starts_with (c # s) ''Node,'' \<and> takeWhile is_digit (dropWhile is_ws (drop 5 (c # s))) \<noteq> []")
    case True
    then obtain b where "c # s = ''Node,'' @ b" by (auto elim: prefixE)
    then show ?thesis using True by (intro exI [of _ "[]"] exI [of _ b]) simp
  next
    case False
    then have "node_pid s = Some n" using Cons.prems by (auto simp: Let_def simp del: drop_Suc_Cons split: if_splits)
    then obtain a b where "s = a @ ''Node,'' @ b" "takeWhile is_digit (dropWhile is_ws b) \<noteq> []" using Cons.IH by blast
    then show ?thesis by (intro exI [of _ "c # a"] exI [of _ b]) simp
  qed
qed simp

lemma node_pid_None:
  assumes "\<And>a b. s = a @ ''Node,'' @ b \<Longrightarrow> takeWhile is_digit (dropWhile is_ws b) = []"
  shows "node_pid s = None"
proof (cases "node_pid s")
  case (Some n)
  then show ?thesis using node_pid_Some [OF Some] assms by blast
qed

lemma suffix_past: "suffix xs (u @ [l] @ h) \<Longrightarrow> l \<notin> set xs \<Longrightarrow> suffix xs h"
  by (auto simp: suffix_append suffix_Cons)

lemma two_commas:
  assumes "a @ CHR '','' # b = u @ CHR '','' # v @ CHR '','' # w"
    and "CHR '','' \<notin> set u" "CHR '','' \<notin> set v" "CHR '','' \<notin> set w"
  shows "a = u \<and> b = v @ CHR '','' # w \<or> a = u @ CHR '','' # v \<and> b = w"
  using assms by (auto simp: append_eq_append_conv2 Cons_eq_append_conv append_eq_Cons_conv)

text \<open>
  Further fact: for the output \<open>wmic\<close> documents (a header \<open>Node,ProcessId\<close> and a line with the
  computer's name and the number) the expression finds no number, unless the computer's name ends
  in \<open>Node\<close>: the last strategy never names a process.
\<close>

theorem wmic_finds_nothing:
  assumes "list_all is_ws pre" "list_all is_ws gap" "gap \<noteq> []" "CHR '','' \<notin> set host" "\<not> ends_with host ''Node''"
    and "CHR '','' \<notin> set rest"
  shows "node_pid (pre @ ''Node,ProcessId'' @ gap @ host @ '','' @ rest) = None"
proof (rule node_pid_None)
  fix a b
  assume ab: "pre @ ''Node,ProcessId'' @ gap @ host @ '','' @ rest = a @ ''Node,'' @ b"
  have "\<not> is_ws CHR '',''" by (simp add: is_ws_def)
  then have ws: "CHR '','' \<notin> set x" if "list_all is_ws x" for x using that unfolding list_all_iff by blast
  have "(a @ ''Node'') @ CHR '','' # b = (pre @ ''Node'') @ CHR '','' # (''ProcessId'' @ gap @ host) @ CHR '','' # rest"
    using ab by simp
  from two_commas [OF this] consider
      "b = (''ProcessId'' @ gap @ host) @ CHR '','' # rest"
    | "a @ ''Node'' = (pre @ ''Node'') @ CHR '','' # ''ProcessId'' @ gap @ host"
    using ws assms by auto
  then show "takeWhile is_digit (dropWhile is_ws b) = []"
  proof cases
    case 1
    then show ?thesis by (simp add: is_ws_def is_digit_def)
  next
    case 2
    obtain g l where g: "gap = g @ [l]" "is_ws l" using assms(2,3) by (cases gap rule: rev_cases) auto
    have "\<not> is_ws CHR ''N''" "\<not> is_ws CHR ''o''" "\<not> is_ws CHR ''d''" "\<not> is_ws CHR ''e''" by (simp_all add: is_ws_def)
    then have l: "l \<notin> set ''Node''" using g(2) by auto
    have "(pre @ ''Node'' @ '','' @ ''ProcessId'' @ g) @ [l] @ host = a @ ''Node''" using 2 g(1) by simp
    then have "suffix ''Node'' host" by (rule suffix_past [OF suffixI l])
    then show ?thesis using assms(5) by simp
  qed
qed

theorem wmic_finds_nothing_witness:
  "node_pid (CHR 0x0A # ''Node,ProcessId'' @ CHR 0x0A # ''DESKTOP,4711'') = None"
  using wmic_finds_nothing [of "[CHR 0x0A]" "[CHR 0x0A]" "''DESKTOP''" "''4711''"]
  by (simp add: is_ws_def suffix_def append_eq_Cons_conv)

subsection \<open>Cleaned means gone\<close>

text \<open>
  What is relied on of Windows, for the output directory \<open>p\<close>: what is gone stays gone while only
  directories are removed, their owners and rights changed, and others mirrored (\<open>robocopy /MIR\<close> creates a
  missing destination, so a call with \<open>p\<close> or something below it as destination is not among these); a
  directory that was renamed to a name outside of it is no longer there; a new temporary directory is
  another one. No other program works on the directory meanwhile.
\<close>

definition leaves_gone :: "string \<Rightarrow> os_event \<Rightarrow> bool" where
  "leaves_gone p e = (case e of
      Spawn c args r \<Rightarrow>
        (c = ''cmd.exe'' \<and> take 2 args = [''/c'', ''rmdir'']) \<or> c = ''takeown'' \<or> c = ''icacls'' \<or>
        (c = ''powershell.exe'' \<and> (\<exists>q. args = ps_args (remove_script q))) \<or>
        (c = ''robocopy'' \<and> length args > 1 \<and> \<not> prefix p (args ! 1))
    | Exists q b \<Rightarrow> True
    | Fs f thrown \<Rightarrow> (case f of RemoveTree q \<Rightarrow> True | RemoveFile q \<Rightarrow> True | _ \<Rightarrow> False)
    | MadeTemp pre d \<Rightarrow> d \<noteq> Some p
    | Stamped x \<Rightarrow> True
    | Slept n \<Rightarrow> True
    | _ \<Rightarrow> False)"

lemma leaves_gone_simps [simp]:
  "leaves_gone p (Exists q b)" "leaves_gone p (Slept n)" "leaves_gone p (Stamped x)"
  "leaves_gone p (Fs (RemoveTree q) thrown)"
  "leaves_gone p (Spawn ''cmd.exe'' (''/c'' # ''rmdir'' # args) r)" "leaves_gone p (Spawn ''takeown'' args r)"
  "leaves_gone p (Spawn ''icacls'' args r)" "leaves_gone p (Spawn ''powershell.exe'' (ps_args (remove_script q)) r)"
  "leaves_gone p (Spawn ''robocopy'' (a # q # args) r) \<longleftrightarrow> \<not> prefix p q"
  by (auto simp: leaves_gone_def)

definition keeps_gone :: "os \<Rightarrow> string \<Rightarrow> bool" where
  "keeps_gone os p \<longleftrightarrow>
     (\<forall>t e. \<not> os_exists os t p \<longrightarrow> leaves_gone p e \<longrightarrow> \<not> os_exists os (t @ [e]) p) \<and>
     (\<forall>t q. \<not> prefix p q \<longrightarrow> \<not> os_exists os (t @ [Fs (Rename p q) None]) p) \<and>
     (\<forall>t pre. os_temp os t pre \<noteq> Some p)"

definition truthful :: "os \<Rightarrow> string \<Rightarrow> bool script \<Rightarrow> bool" where
  "truthful os p m \<longleftrightarrow> (\<forall>t t'. run_state m t = (True, t') \<longrightarrow> \<not> os_exists os t' p)"

lemma stays_gone:
  assumes "keeps_gone os p" "emits (\<lambda>e. leaves_gone p e) m" "\<not> os_exists os t p"
  shows "\<not> os_exists os (snd (run_state m t)) p"
proof -
  obtain es where es: "snd (run_state m t) = t @ es" "\<forall>e \<in> set es. leaves_gone p e"
    using assms(2) unfolding emits_def by blast
  have "\<not> os_exists os (t @ es) p" using es(2)
  proof (induction es rule: rev_induct)
    case (snoc e es)
    then have "\<not> os_exists os (t @ es) p" "leaves_gone p e" by auto
    then have "\<not> os_exists os ((t @ es) @ [e]) p" using assms(1) unfolding keeps_gone_def by blast
    then show ?case by simp
  qed (simp add: assms(3))
  then show ?thesis using es(1) by simp
qed

lemma truthful_False: "truthful os p (State_Monad.return False)"
  by (simp add: truthful_def)

lemma truthful_bind: "(\<And>x. truthful os p (f x)) \<Longrightarrow> truthful os p (State_Monad.bind m f)"
  by (auto simp: truthful_def split: prod.splits)

lemma truthful_if: "truthful os p m \<Longrightarrow> truthful os p k \<Longrightarrow> truthful os p (if b then m else k)"
  by simp

lemma truthful_check:
  "keeps_gone os p \<Longrightarrow> truthful os p (State_Monad.bind (existsSync os p) (\<lambda>there. State_Monad.return (\<not> there)))"
  by (auto simp: truthful_def existsSync_def keeps_gone_def)

lemma truthful_case_option:
  "truthful os p m \<Longrightarrow> (\<And>x. truthful os p (f x)) \<Longrightarrow> truthful os p (case opt of None \<Rightarrow> m | Some x \<Rightarrow> f x)"
  by (cases opt) auto

lemma truthful_first_true: "list_all (truthful os p) ms \<Longrightarrow> truthful os p (first_true ms)"
proof (induction ms)
  case (Cons m ms)
  then have "truthful os p m" "truthful os p (first_true ms)" by auto
  then show ?case by (fastforce simp: truthful_def split: prod.splits if_splits)
qed (simp add: truthful_False)

lemma truthful_or:
  "truthful os p m \<Longrightarrow> truthful os p k \<Longrightarrow>
   truthful os p (State_Monad.bind m (\<lambda>ok. if ok then State_Monad.return True else k))"
  by (fastforce simp: truthful_def split: prod.splits if_splits)

lemma truthful_guard:
  "keeps_gone os p \<Longrightarrow> truthful os p m \<Longrightarrow>
   truthful os p (State_Monad.bind (existsSync os p) (\<lambda>there. if \<not> there then State_Monad.return True else m))"
  by (auto simp: truthful_def existsSync_def keeps_gone_def split: if_splits)

lemmas truthful_rules = truthful_False truthful_bind truthful_if truthful_check truthful_case_option

lemma delete_truthful:
  assumes "keeps_gone os p"
  shows "truthful os p (tryWindowsRmdir env os p)" "truthful os p (tryPowerShellRemove env os p)"
    "truthful os p (node_remove os p)" "truthful os p (tryRobocopyMirrorDelete env os p)"
proof -
  show r: "truthful os p (tryWindowsRmdir env os p)"
    unfolding tryWindowsRmdir_def using assms by (intro truthful_rules)
  show "truthful os p (tryPowerShellRemove env os p)"
    unfolding tryPowerShellRemove_def using assms by (intro truthful_rules)
  show "truthful os p (node_remove os p)"
    unfolding node_remove_def using assms by (intro truthful_rules)
  show "truthful os p (tryRobocopyMirrorDelete env os p)"
    unfolding tryRobocopyMirrorDelete_def using r by (intro truthful_rules)
qed

lemma ownership_truthful: "keeps_gone os p \<Longrightarrow> truthful os p (tryTakeOwnershipAndDelete env os p)"
  unfolding tryTakeOwnershipAndDelete_def
  by (intro truthful_rules truthful_first_true) (simp_all add: delete_truthful)

lemma emits_first_true: "list_all (emits P) ms \<Longrightarrow> emits P (first_true ms)"
  by (induction ms) (auto intro!: emits_rules)

lemma delete_harmless:
  "emits (\<lambda>e. leaves_gone p e) (tryWindowsRmdir env os q)"
  "emits (\<lambda>e. leaves_gone p e) (tryPowerShellRemove env os q)"
  "emits (\<lambda>e. leaves_gone p e) (node_remove os q)"
  "emits (\<lambda>e. leaves_gone p e) (tryTakeOwnershipAndDelete env os q)"
proof -
  show 1: "emits (\<lambda>e. leaves_gone p e) (tryWindowsRmdir env os q)"
    "emits (\<lambda>e. leaves_gone p e) (tryPowerShellRemove env os q)"
    "emits (\<lambda>e. leaves_gone p e) (node_remove os q)"
    unfolding tryWindowsRmdir_def tryPowerShellRemove_def node_remove_def by (intro emits_rules; simp)+
  show "emits (\<lambda>e. leaves_gone p e) (tryTakeOwnershipAndDelete env os q)"
    unfolding tryTakeOwnershipAndDelete_def by (intro emits_rules emits_first_true) (simp_all add: 1)
qed

lemma robocopy_harmless:
  assumes "keeps_gone os p" "\<not> prefix p q"
  shows "emits (\<lambda>e. leaves_gone p e) (tryRobocopyMirrorDelete env os q)"
proof -
  have temp: "emits (\<lambda>e. leaves_gone p e) (mkdtempSync os pre)" for pre
    using assms by (simp add: emits_def mkdtempSync_def leaves_gone_def keeps_gone_def)
  show ?thesis
    unfolding tryRobocopyMirrorDelete_def
    by (intro emits_return emits_bind emits_if emits_case_option temp delete_harmless emits_sys) (simp_all add: assms(2))
qed

lemma temp_elsewhere:
  assumes "de_isWin env"
  shows "\<not> prefix (winUnpackedDir env) (temp_name (winUnpackedDir env) mark)"
proof -
  let ?dir = "de_root env @ [CHR 0x5C] @ ''dist'' @ [CHR 0x5C]"
  have p: "winUnpackedDir env = ?dir @ ''win-unpacked''"
    using assms by (simp add: winUnpackedDir_def joined_def sep_def)
  have "dirname True (winUnpackedDir env) @ [CHR 0x5C] = ?dir"
    unfolding p by (simp add: dirname_def path_sep_def)
  then have "temp_name (winUnpackedDir env) mark = ?dir @ ''_temp_delete_'' @ mark"
    by (simp add: temp_name_def joined_def sep_def)
  then show ?thesis unfolding p by simp
qed

lemma rename_truthful:
  assumes "keeps_gone os p" and elsewhere: "\<And>mark. \<not> prefix p (temp_name p mark)"
  shows "truthful os p (tryRenameThenDelete env os p)"
proof -
  have away: "\<not> os_exists os (snd (run_state (delete_renamed env os q) (t @ [Fs (Rename p q) None]))) p"
    if q: "\<not> prefix p q" for q t
  proof (rule stays_gone [OF assms(1)])
    show "emits (\<lambda>e. leaves_gone p e) (delete_renamed env os q)"
      unfolding delete_renamed_def
      by (intro emits_bind emits_sys emits_first_true) (simp_all add: delete_harmless robocopy_harmless [OF assms(1) q])
    show "\<not> os_exists os (t @ [Fs (Rename p q) None]) p" using assms(1) q by (simp add: keeps_gone_def)
  qed
  show ?thesis
    unfolding truthful_def
  proof (intro allI impI)
    fix t t'
    assume r: "run_state (tryRenameThenDelete env os p) t = (True, t')"
    let ?q = "temp_name p (os_stamp os t)"
    have "t' = snd (run_state (delete_renamed env os ?q) ((t @ [Stamped (os_stamp os t)]) @ [Fs (Rename p ?q) None]))"
      using r unfolding tryRenameThenDelete_def stamp_def fsSync_def
      by (auto split: if_splits)
    then show "\<not> os_exists os t' p"
      using away [OF elsewhere, where t = "t @ [Stamped (os_stamp os t)]"] by (simp only: not_False_eq_True)
  qed
qed

lemma rename_only_on_windows: "\<not> de_isWin env \<Longrightarrow> truthful os p (tryRenameThenDelete env os p)"
  by (simp add: tryRenameThenDelete_def truthful_False)

lemma round_truthful:
  assumes "keeps_gone os (winUnpackedDir env)"
  shows "truthful os (winUnpackedDir env) (clean_round env os (winUnpackedDir env) attempt)"
proof -
  have "truthful os (winUnpackedDir env) (tryRenameThenDelete env os (winUnpackedDir env))"
    using rename_truthful [OF assms temp_elsewhere] rename_only_on_windows by (cases "de_isWin env") blast+
  then show ?thesis
    unfolding clean_round_def using assms
    by (intro truthful_rules truthful_first_true) (auto simp: delete_truthful ownership_truthful truthful_check)
qed

text \<open>
  Property C38: when the clean-up says that the output directory is gone, it is: whichever of the
  ways reported it, also after the directory was renamed and its new name deleted, and although mirroring an
  empty directory onto it may bring it back. It is relied on that what is gone stays gone while directories are
  removed, renamed or given to another owner and others mirrored, and that nothing else works on it.
\<close>

theorem cleaned_means_gone:
  assumes "keeps_gone os (winUnpackedDir env)" "run_state (cleanDistDirectory env os) t = (True, t')"
  shows "\<not> os_exists os t' (winUnpackedDir env)"
proof -
  let ?p = "winUnpackedDir env"
  have rounds: "truthful os ?p (first_true (map (clean_round env os ?p) [0..<max_attempts]))"
    using round_truthful [OF assms(1)] by (intro truthful_first_true) (simp add: list_all_iff)
  have last: "truthful os ?p (last_try env os ?p)"
    unfolding last_try_def
    by (intro truthful_or truthful_rules delete_truthful assms)
  have "truthful os ?p (cleanDistDirectory env os)"
    unfolding cleanDistDirectory_def
    by (intro truthful_guard truthful_bind truthful_or rounds last assms(1))
  then show ?thesis using assms(2) by (simp add: truthful_def)
qed

text \<open>A system where removing and renaming work.\<close>

definition removed_in :: "string \<Rightarrow> trace \<Rightarrow> bool" where
  "removed_in p t \<longleftrightarrow> list_ex (\<lambda>e. case e of
      Fs f thrown \<Rightarrow> (case f of RemoveTree q \<Rightarrow> q = p | Rename a b \<Rightarrow> a = p | _ \<Rightarrow> False)
    | _ \<Rightarrow> False) t"

definition obedient :: os where
  "obedient = \<lparr> os_spawn = (\<lambda>t c args. Spawned None [] True), os_exec = (\<lambda>t c. ExecFailed None),
     os_exists = (\<lambda>t p. \<not> removed_in p t), os_fs = (\<lambda>t f. None), os_temp = (\<lambda>t p. None),
     os_list = (\<lambda>t p. None), os_size = (\<lambda>t p. None), os_stamp = (\<lambda>t. ''0'') \<rparr>"

text \<open>
  A Windows system on which Node cannot remove the directory but \<open>rmdir\<close> can, and on which
  \<open>robocopy\<close> creates its destination.
\<close>

fun there :: "string \<Rightarrow> os_event list \<Rightarrow> bool" where
  "there p [] = True"
| "there p (Spawn c args r # es) =
     (if c = ''cmd.exe'' \<and> r = Spawned (Some 0) [] False \<and> args \<noteq> [] \<and> last args = p then False
      else (c = ''robocopy'' \<and> length args > 1 \<and> prefix p (args ! 1)) \<or> there p es)"
| "there p (Fs f thrown # es) =
     (case f of
        Rename a b \<Rightarrow> if thrown = None \<and> a = p \<and> \<not> prefix p b then False else b = p \<or> there p es
      | MakeDir q \<Rightarrow> q = p \<or> there p es
      | _ \<Rightarrow> there p es)"
| "there p (e # es) = there p es"

definition windows_like :: os where
  "windows_like = \<lparr> os_spawn = (\<lambda>t c args. if c = ''cmd.exe'' then Spawned (Some 0) [] False else Spawned None [] True),
     os_exec = (\<lambda>t c. ExecFailed None), os_exists = (\<lambda>t p. there p (rev t)), os_fs = (\<lambda>t f. Some ''EBUSY''),
     os_temp = (\<lambda>t p. None), os_list = (\<lambda>t p. None), os_size = (\<lambda>t p. None), os_stamp = (\<lambda>t. ''0'') \<rparr>"

lemma windows_like_law: "keeps_gone windows_like p"
proof -
  have "\<not> there p (e # es)" if "\<not> there p es" "leaves_gone p e" for e es
    using that by (cases e) (auto simp: leaves_gone_def split: fs_op.splits)
  then show ?thesis by (simp add: keeps_gone_def windows_like_def)
qed

lemma windows_like_simps [simp]:
  "os_spawn windows_like t c args = (if c = ''cmd.exe'' then Spawned (Some 0) [] False else Spawned None [] True)"
  "os_exists windows_like t p = there p (rev t)" "os_fs windows_like t f = Some ''EBUSY''"
  by (simp_all add: windows_like_def)

lemma locked_env_win [simp]: "de_isWin locked_env"
  by (simp add: locked_env_def)

lemma rmdir_works: "run_state (tryWindowsRmdir locked_env windows_like p) t =
    (True, t @ [Spawn ''cmd.exe'' [''/c'', ''rmdir'', ''/s'', ''/q'', p] (Spawned (Some 0) [] False), Exists p False])"
  by (simp add: tryWindowsRmdir_def spawnSync_def ok_status_def existsSync_def)

theorem cleaned_means_gone_witness:
  "de_isWin locked_env \<and> fst (run_state (cleanDistDirectory locked_env windows_like) []) \<and>
   \<not> os_exists windows_like (snd (run_state (cleanDistDirectory locked_env windows_like) [])) (winUnpackedDir locked_env)"
proof -
  obtain r t1 where auto: "run_state (autoResolveFileLocks locked_env windows_like (winUnpackedDir locked_env))
      [Exists (winUnpackedDir locked_env) True] = (r, t1)" by fastforce
  have "fst (run_state (cleanDistDirectory locked_env windows_like) [])"
    by (simp add: cleanDistDirectory_def clean_round_def max_attempts_def upt_conv_Cons node_remove_def existsSync_def
        fsSync_def sleepSync_def auto rmdir_works)
  then obtain t' where t': "run_state (cleanDistDirectory locked_env windows_like) [] = (True, t')"
    by (metis (full_types) prod.collapse)
  show ?thesis using cleaned_means_gone [OF windows_like_law t'] t' by (simp del: windows_like_simps)
qed

end
