(* ===== verification/Packaging.thy ===== *)
theory Packaging
  imports CleanDist
begin

text \<open>
  The rest of \<open>scripts/dist.ts\<close>: running commands, the gates before packaging, the temporary output
  directory that is used when the normal one is locked, the arguments of \<open>electron-builder\<close>, and the
  script as a whole, from its first check to the move of the output. A command that fails ends the
  process with its status. What is printed is left out.
\<close>

subsection \<open>Running a command\<close>

definition special_char :: "string \<Rightarrow> bool" where
  "special_char arg \<longleftrightarrow> list_ex (\<lambda>c. c \<in> set '' &|><'') arg"

definition quote_arg :: "string \<Rightarrow> string" where
  "quote_arg arg = (if special_char arg then in_quotes (escape_quotes arg) else arg)"

definition status_or_one :: "int option \<Rightarrow> int" where
  "status_or_one st = (case st of Some n \<Rightarrow> n | None \<Rightarrow> 1)"

definition exec_or_exit :: "os \<Rightarrow> string \<Rightarrow> unit outcome script" where
  "exec_or_exit os command = do {
     r \<leftarrow> execSync os command;
     (case r of ExecDone out \<Rightarrow> State_Monad.return (Done ()) | ExecFailed st \<Rightarrow> exit_with (status_or_one st))
   }"

definition cmd_line :: "string \<Rightarrow> string list \<Rightarrow> string" where
  "cmd_line finalCmd args =
     (if args \<noteq> [] then in_quotes finalCmd @ '' '' @ js_join '' '' args else in_quotes finalCmd)"

definition run :: "bool \<Rightarrow> os \<Rightarrow> string \<Rightarrow> string list \<Rightarrow> unit outcome script" where
  "run isWin os cmd args =
     (let finalCmd = resolveCmd isWin cmd in
      if isWin \<and> cmd = ''npm'' then exec_or_exit os (''npm '' @ js_join '' '' (map quote_arg args))
      else if isWin \<and> (ends_with finalCmd ''.cmd'' \<or> ends_with finalCmd ''.bat'') then exec_or_exit os (cmd_line finalCmd args)
      else do {
        r \<leftarrow> spawnSync os finalCmd args;
        (case r of
           SpawnThrew \<Rightarrow> State_Monad.return (Threw ''spawn'')
         | Spawned st out err \<Rightarrow>
             if st = Some 0 then State_Monad.return (Done ())
             else if err then exit_with 1
             else exit_with (status_or_one st))
      })"

subsection \<open>Tool versions\<close>

definition trimmed_output :: "child_result \<Rightarrow> string" where
  "trimmed_output r = (case good_output r of Some out \<Rightarrow> js_trim out | None \<Rightarrow> ''unknown'')"

definition getToolVersion :: "os \<Rightarrow> string \<Rightarrow> string script" where
  "getToolVersion os tool = do {
     r \<leftarrow> spawnSync os tool [''--version''];
     State_Monad.return (trimmed_output r)
   }"

definition getElectronBuilderVersion :: "dist_env \<Rightarrow> os \<Rightarrow> string script" where
  "getElectronBuilderVersion env os = do {
     there \<leftarrow> existsSync os (localBin (de_isWin env) (de_root env) ''electron-builder'');
     (if \<not> there then State_Monad.return ''not installed''
      else do {
        r \<leftarrow> spawnSync os (localBin (de_isWin env) (de_root env) ''electron-builder'') [''--version''];
        State_Monad.return (trimmed_output r)
      })
   }"

definition printToolVersions :: "dist_env \<Rightarrow> os \<Rightarrow> unit script" where
  "printToolVersions env os = do {
     _ \<leftarrow> getToolVersion os ''npm'';
     _ \<leftarrow> getElectronBuilderVersion env os;
     State_Monad.return ()
   }"

subsection \<open>Gates\<close>

definition throw_or :: "string option \<Rightarrow> 'a outcome script \<Rightarrow> 'a outcome script" where
  "throw_or thrown m = (case thrown of Some msg \<Rightarrow> State_Monad.return (Threw msg) | None \<Rightarrow> m)"

definition hasSymlinkPrivilege :: "dist_env \<Rightarrow> os \<Rightarrow> bool outcome script" where
  "hasSymlinkPrivilege env os =
     (if \<not> de_isWin env then State_Monad.return (Done True)
      else do {
        made \<leftarrow> mkdtempSync os (joined True [de_tmpdir env, ''orc-symlink-test-'']);
        (case made of
           None \<Rightarrow> State_Monad.return (Threw ''mkdtemp'')
         | Some dir \<Rightarrow> do {
             wrote \<leftarrow> fsSync os (WriteFile (joined True [dir, ''target.txt'']));
             ok \<leftarrow> (if wrote \<noteq> None then State_Monad.return False
               else do {
                 linked \<leftarrow> fsSync os (MakeLink (joined True [dir, ''target.txt'']) (joined True [dir, ''link.txt'']));
                 State_Monad.return (linked = None)
               });
             _ \<leftarrow> fsSync os (RemoveTree dir);
             State_Monad.return (Done ok)
           })
      })"

definition clearWinCodeSignCache :: "dist_env \<Rightarrow> os \<Rightarrow> unit outcome script" where
  "clearWinCodeSignCache env os =
     (if \<not> de_isWin env then State_Monad.return (Done ())
      else (case de_LOCALAPPDATA env of
          None \<Rightarrow> State_Monad.return (Done ())
        | Some localAppData \<Rightarrow> do {
            let cacheDir = joined True [localAppData, ''electron-builder'', ''Cache'', ''winCodeSign''];
            there \<leftarrow> existsSync os cacheDir;
            (if there then do {
               thrown \<leftarrow> fsSync os (RemoveTree cacheDir);
               throw_or thrown (State_Monad.return (Done ()))
             } else State_Monad.return (Done ()))
          }))"

definition symlink_gate :: "dist_env \<Rightarrow> os \<Rightarrow> unit outcome script" where
  "symlink_gate env os =
     (if \<not> de_isWin env then State_Monad.return (Done ())
      else afterwards (hasSymlinkPrivilege env os) (\<lambda>ok.
        if ok \<or> de_SKIP_SYMLINK env = Some ''1'' then State_Monad.return (Done ()) else exit_with 2))"

subsection \<open>The temporary output directory\<close>

definition scheduleDeletionOnReboot :: "dist_env \<Rightarrow> os \<Rightarrow> (string \<Rightarrow> string) \<Rightarrow> string \<Rightarrow> bool script" where
  "scheduleDeletionOnReboot env os psScript dirPath =
     (if \<not> de_isWin env then State_Monad.return False
      else do {
        result \<leftarrow> spawnSync os ''powershell.exe'' (ps_args (psScript (escapedPath dirPath)));
        State_Monad.return (case good_output result of
            None \<Rightarrow> False | Some out \<Rightarrow> js_includes (js_trim out) ''SCHEDULED'')
      })"

text \<open>
  The depth of the recursion is bounded by the stack, a deeper tree throws. \<open>readdirSync\<close> gives the
  names of the entries and whether each is a directory.
\<close>

fun copyDirectoryRecursive :: "bool \<Rightarrow> os \<Rightarrow> nat \<Rightarrow> string \<Rightarrow> string \<Rightarrow> unit outcome script"
and copy_entries :: "bool \<Rightarrow> os \<Rightarrow> nat \<Rightarrow> string \<Rightarrow> string \<Rightarrow> (string \<times> bool) list \<Rightarrow> unit outcome script" where
  "copyDirectoryRecursive isWin os 0 src dest = State_Monad.return (Threw ''RangeError'')"
| "copyDirectoryRecursive isWin os (Suc depth) src dest = do {
     there \<leftarrow> existsSync os src;
     (if \<not> there then State_Monad.return (Threw (''Source directory does not exist: '' @ src))
      else do {
        target \<leftarrow> existsSync os dest;
        made \<leftarrow> (if target then State_Monad.return None else fsSync os (MakeDir dest));
        throw_or made (do {
          entries \<leftarrow> readdirSync os src;
          (case entries of
             None \<Rightarrow> State_Monad.return (Threw ''readdir'')
           | Some es \<Rightarrow> copy_entries isWin os depth src dest es)
        })
      })
   }"
| "copy_entries isWin os depth src dest [] = State_Monad.return (Done ())"
| "copy_entries isWin os depth src dest ((nm, isDirectory) # es) =
     afterwards
       (if isDirectory then copyDirectoryRecursive isWin os depth (joined isWin [src, nm]) (joined isWin [dest, nm])
        else do {
          thrown \<leftarrow> fsSync os (CopyFile (joined isWin [src, nm]) (joined isWin [dest, nm]));
          throw_or thrown (State_Monad.return (Done ()))
        })
       (\<lambda>_. copy_entries isWin os depth src dest es)"

text \<open>The loop that deletes the source after it was copied.\<close>

fun remove_source :: "os \<Rightarrow> string \<Rightarrow> nat list \<Rightarrow> bool script" where
  "remove_source os src [] = State_Monad.return False"
| "remove_source os src (i # is) = do {
     thrown \<leftarrow> fsSync os (RemoveTree src);
     gone \<leftarrow> (if thrown = None then do { there \<leftarrow> existsSync os src; State_Monad.return (\<not> there) }
       else if i < 2 then do { sleepSync 1000; State_Monad.return False }
       else State_Monad.return False);
     (if gone then State_Monad.return True else remove_source os src is)
   }"

definition moveDirectorySafe :: "bool \<Rightarrow> os \<Rightarrow> nat \<Rightarrow> string \<Rightarrow> string \<Rightarrow> bool script" where
  "moveDirectorySafe isWin os depth src dest = do {
     thrown \<leftarrow> fsSync os (Rename src dest);
     (if thrown = None then State_Monad.return True
      else do {
        copied \<leftarrow> copyDirectoryRecursive isWin os depth src dest;
        (case copied of
           Done u \<Rightarrow> do {
             removed \<leftarrow> remove_source os src [0, 1, 2];
             (if removed then State_Monad.return True else existsSync os dest)
           }
         | Threw msg \<Rightarrow> State_Monad.return False
         | Exited n \<Rightarrow> State_Monad.return False)
      })
   }"

text \<open>Whether a file can be written in a directory and removed again.\<close>

definition probe_locked :: "os \<Rightarrow> string \<Rightarrow> bool script" where
  "probe_locked os testFile = do {
     wrote \<leftarrow> fsSync os (WriteFile testFile);
     (if wrote \<noteq> None then State_Monad.return True
      else do { removed \<leftarrow> fsSync os (RemoveFile testFile); State_Monad.return (removed \<noteq> None) })
   }"

definition shouldUseTempOutputWorkaround :: "dist_env \<Rightarrow> os \<Rightarrow> string \<Rightarrow> bool script" where
  "shouldUseTempOutputWorkaround env os dir =
     (if \<not> de_isWin env then State_Monad.return False
      else if env_on (de_USE_TEMP env) then State_Monad.return True
      else do {
        there \<leftarrow> existsSync os dir;
        (if there then probe_locked os (joined True [dir, ''.test-delete'']) else State_Monad.return False)
      })"

definition getTempOutputDirectory :: "dist_env \<Rightarrow> os \<Rightarrow> string \<Rightarrow> string option outcome script" where
  "getTempOutputDirectory env os dir = do {
     use \<leftarrow> shouldUseTempOutputWorkaround env os dir;
     (if \<not> use then State_Monad.return (Done None)
      else do {
        made \<leftarrow> mkdtempSync os (joined (de_isWin env) [de_tmpdir env, ''orc-builder-output-'']);
        State_Monad.return (case made of None \<Rightarrow> Threw ''mkdtemp'' | Some d \<Rightarrow> Done (Some d))
      })
   }"

definition moveTempOutputToFinal :: "dist_env \<Rightarrow> os \<Rightarrow> nat \<Rightarrow> string \<Rightarrow> string \<Rightarrow> bool outcome script" where
  "moveTempOutputToFinal env os depth tempOutputDir finalDir =
     (if \<not> de_isWin env then State_Monad.return (Done False)
      else do {
        let tempWinUnpacked = joined True [tempOutputDir, ''win-unpacked''];
        there \<leftarrow> existsSync os tempWinUnpacked;
        (if \<not> there then State_Monad.return (Done False)
         else do {
           parent \<leftarrow> existsSync os (dirname True finalDir);
           made \<leftarrow> (if parent then State_Monad.return None else fsSync os (MakeDir (dirname True finalDir)));
           throw_or made (do {
             moved \<leftarrow> moveDirectorySafe True os depth tempWinUnpacked finalDir;
             (if moved then do { _ \<leftarrow> fsSync os (RemoveTree tempOutputDir); State_Monad.return (Done True) }
              else State_Monad.return (Done False))
           })
         })
      })"

subsection \<open>The last clean-up before packaging\<close>

definition lock_message :: "string \<Rightarrow> bool" where
  "lock_message msg \<longleftrightarrow> (let m = js_lower msg in
     js_includes m ''being used'' \<or> js_includes m ''cannot access'' \<or> js_includes m ''locked'')"

text \<open>Each method gives whether the directory is cleaned, and whether its error speaks of a lock.\<close>

definition direct_removal :: "os \<Rightarrow> string \<Rightarrow> (bool \<times> bool) script" where
  "direct_removal os dir = do {
     thrown \<leftarrow> fsSync os (RemoveTree dir);
     (case thrown of
        Some msg \<Rightarrow> State_Monad.return (False, lock_message msg)
      | None \<Rightarrow> do { there \<leftarrow> existsSync os dir; State_Monad.return (\<not> there, False) })
   }"

definition renamed_removal :: "os \<Rightarrow> string \<Rightarrow> (bool \<times> bool) script" where
  "renamed_removal os dir = do {
     mark \<leftarrow> stamp os;
     let tempName = dir @ ''_delete_'' @ mark;
     thrown \<leftarrow> fsSync os (Rename dir tempName);
     (case thrown of
        Some msg \<Rightarrow> State_Monad.return (False, lock_message msg)
      | None \<Rightarrow> do { sleepSync 1000; direct_removal os tempName })
   }"

definition still_there :: "os \<Rightarrow> string \<Rightarrow> bool \<Rightarrow> bool script" where
  "still_there os dir cleaned = (if cleaned then State_Monad.return False else existsSync os dir)"

definition final_cleanup :: "dist_env \<Rightarrow> os \<Rightarrow> string \<Rightarrow> (string option \<times> bool) outcome script" where
  "final_cleanup env os dir = do {
     resolved \<leftarrow> autoResolveFileLocks env os dir;
     (if resolved then sleepSync 2000 else State_Monad.return ());
     hasLocks \<leftarrow> probe_locked os (joined True [dir, ''.test-delete-check'']);
     m1 \<leftarrow> direct_removal os dir;
     left1 \<leftarrow> still_there os dir (fst m1);
     m2 \<leftarrow> (if left1 then renamed_removal os dir else State_Monad.return (fst m1, False));
     left2 \<leftarrow> still_there os dir (fst m2);
     cleaned \<leftarrow> (if left2 then first_true [tryWindowsRmdir env os dir, tryPowerShellRemove env os dir]
       else State_Monad.return (fst m2));
     left3 \<leftarrow> still_there os dir cleaned;
     (if left3 \<or> hasLocks \<or> snd m1 \<or> snd m2
      then afterwards (getTempOutputDirectory env os dir) (\<lambda>d. State_Monad.return (Done (d, True)))
      else State_Monad.return (Done (None, False)))
   }"

definition choose_output :: "dist_env \<Rightarrow> os \<Rightarrow> string \<Rightarrow> (string option \<times> bool) outcome script" where
  "choose_output env os dir =
     (if \<not> de_isWin env then State_Monad.return (Done (None, False))
      else do {
        there \<leftarrow> existsSync os dir;
        (if there then final_cleanup env os dir
         else if env_on (de_USE_TEMP env) then
           afterwards (getTempOutputDirectory env os dir) (\<lambda>d. State_Monad.return (Done (d, d \<noteq> None)))
         else State_Monad.return (Done (None, False)))
      })"

subsection \<open>Arguments and icon\<close>

definition electronBuilderArgs :: "bool \<Rightarrow> string option \<Rightarrow> string list" where
  "electronBuilderArgs packDirOnly tempOutputDir =
     (if packDirOnly then [''--dir'', ''--publish'', ''never''] else [''--publish'', ''never'']) @
     (case tempOutputDir of Some d \<Rightarrow> [''--config.directories.output'', d] | None \<Rightarrow> [])"

text \<open>\<open>electronBuilderArgs.length = 2\<close>, then the arguments are pushed again.\<close>

definition late_args :: "string list \<Rightarrow> string \<Rightarrow> string list" where
  "late_args args tempOutputDir =
     take 2 args @ [''--publish'', ''never'', ''--config.directories.output'', tempOutputDir]"

definition ps_file :: "string \<Rightarrow> string list" where
  "ps_file script = [''-NoProfile'', ''-NonInteractive'', ''-ExecutionPolicy'', ''Bypass'', ''-File'', script]"

definition if_exists :: "os \<Rightarrow> string \<Rightarrow> bool \<Rightarrow> bool script" where
  "if_exists os path wanted = (if wanted then existsSync os path else State_Monad.return False)"

text \<open>Runs a script of the repository when it is wanted: whether it ended well.\<close>

definition run_icon_script :: "os \<Rightarrow> string list \<Rightarrow> bool \<Rightarrow> bool outcome script" where
  "run_icon_script os args wanted =
     (if wanted then do {
        r \<leftarrow> spawnSync os ''powershell.exe'' args;
        State_Monad.return (if r = SpawnThrew then Threw ''spawn'' else Done (ok_status r))
      } else State_Monad.return (Done False))"

definition generate_icon :: "os \<Rightarrow> string \<Rightarrow> string \<Rightarrow> string \<Rightarrow> bool \<Rightarrow> bool outcome script" where
  "generate_icon os resize create sourceIco iconOk = do {
     src \<leftarrow> if_exists os sourceIco (\<not> iconOk);
     tool \<leftarrow> if_exists os resize src;
     afterwards (run_icon_script os (ps_file resize) tool) (\<lambda>ok1. do {
       maker \<leftarrow> if_exists os create (\<not> (iconOk \<or> ok1));
       afterwards (run_icon_script os (ps_file create) maker) (\<lambda>ok2.
         State_Monad.return (Done (iconOk \<or> ok1 \<or> ok2)))
     })
   }"

definition prepare_icon :: "dist_env \<Rightarrow> os \<Rightarrow> string \<Rightarrow> unit outcome script" where
  "prepare_icon env os repoRoot =
     (if \<not> de_isWin env then State_Monad.return (Done ())
      else do {
        let assetsIcon = joined True [de_root env, ''assets'', ''icons'', ''icon.ico''];
        let ico = joined True [repoRoot, ''icons'', ''orc-torrent.ico''];
        let resize = joined True [de_root env, ''scripts'', ''resize-icon.ps1''];
        there \<leftarrow> existsSync os ico;
        copied \<leftarrow> (if there then fsSync os (CopyFile ico assetsIcon) else State_Monad.return None);
        throw_or copied (do {
          iconOk \<leftarrow> existsSync os assetsIcon;
          afterwards (generate_icon os resize (joined True [de_root env, ''scripts'', ''create-icon.ps1''])
              (joined True [de_root env, ''assets'', ''icons'', ''orc_ico(1).ico'']) iconOk) (\<lambda>ok. do {
            tool \<leftarrow> if_exists os resize ok;
            icon \<leftarrow> if_exists os assetsIcon tool;
            afterwards (run_icon_script os (ps_file resize @ [''-Source'', assetsIcon]) icon) (\<lambda>_. do {
              _ \<leftarrow> if_exists os assetsIcon (\<not> ok);
              State_Monad.return (Done ())
            })
          })
        })
      })"

subsection \<open>The script\<close>

definition late_check :: "dist_env \<Rightarrow> os \<Rightarrow> string \<Rightarrow> string option \<Rightarrow> string list \<Rightarrow>
    (string option \<times> string list) outcome script" where
  "late_check env os dir tempOutputDir args =
     (if tempOutputDir \<noteq> None \<or> \<not> de_isWin env then State_Monad.return (Done (tempOutputDir, args))
      else do {
        there \<leftarrow> existsSync os dir;
        inner \<leftarrow> if_exists os (joined True [dir, ''resources'']) there;
        definitelyLocked \<leftarrow> (if inner then probe_locked os (joined True [dir, ''resources'', ''.lock-test''])
          else State_Monad.return False);
        (if definitelyLocked then
           afterwards (getTempOutputDirectory env os dir) (\<lambda>d. State_Monad.return (Done
             (case d of None \<Rightarrow> (None, args) | Some t \<Rightarrow> (Some t, late_args args t))))
         else State_Monad.return (Done (tempOutputDir, args)))
      })"

definition package_app :: "dist_env \<Rightarrow> os \<Rightarrow> string \<Rightarrow> nat \<Rightarrow> string \<Rightarrow> string option \<times> bool \<Rightarrow> unit outcome script" where
  "package_app env os repoRoot depth dir chosen = do {
     (if de_isWin env \<and> \<not> snd chosen then sleepSync 2000 else State_Monad.return ());
     let eb = localBin (de_isWin env) (de_root env) ''electron-builder'';
     there \<leftarrow> existsSync os eb;
     (if \<not> there then exit_with 1
      else afterwards (prepare_icon env os repoRoot) (\<lambda>_.
        afterwards (late_check env os dir (fst chosen) (electronBuilderArgs (env_on (de_PACK_DIR_ONLY env)) (fst chosen))) (\<lambda>(temp, args).
        afterwards (run (de_isWin env) os eb args) (\<lambda>_.
          (case temp of
             Some t \<Rightarrow> if de_isWin env then
                 afterwards (moveTempOutputToFinal env os depth t dir) (\<lambda>_. State_Monad.return (Done ()))
               else State_Monad.return (Done ())
           | None \<Rightarrow> State_Monad.return (Done ()))))))
   }"

definition packaging :: "dist_env \<Rightarrow> os \<Rightarrow> string \<Rightarrow> nat \<Rightarrow> unit outcome script" where
  "packaging env os repoRoot depth =
     afterwards (done_with (printToolVersions env os)) (\<lambda>_.
     afterwards (symlink_gate env os) (\<lambda>_.
     afterwards (clearWinCodeSignCache env os) (\<lambda>_.
     afterwards (done_with (checkRunningProcesses env os)) (\<lambda>_.
     afterwards (done_with (cleanDistDirectory env os)) (\<lambda>_.
     afterwards (run (de_isWin env) os ''npm'' [''run'', ''build'']) (\<lambda>_.
     afterwards (choose_output env os (winUnpackedDir env)) (\<lambda>chosen.
       package_app env os repoRoot depth (winUnpackedDir env) chosen)))))))"

section \<open>Properties\<close>

subsection \<open>Build, then package\<close>

text \<open>A successful run of a command.\<close>

definition ran_ok :: "bool \<Rightarrow> string \<Rightarrow> string list \<Rightarrow> os_event \<Rightarrow> bool" where
  "ran_ok isWin cmd args e \<longleftrightarrow>
     (\<exists>out. e = Exec (''npm '' @ js_join '' '' (map quote_arg args)) (ExecDone out) \<and> isWin \<and> cmd = ''npm'') \<or>
     (\<exists>out. e = Exec (cmd_line (resolveCmd isWin cmd) args) (ExecDone out) \<and> isWin) \<or>
     (\<exists>r. e = Spawn (resolveCmd isWin cmd) args r \<and> ok_status r)"

lemma run_Done:
  assumes "run_state (run isWin os cmd args) t = (Done u, t')"
  shows "\<exists>e. t' = t @ [e] \<and> ran_ok isWin cmd args e"
  using assms unfolding run_def exec_or_exit_def execSync_def spawnSync_def Let_def
  by (auto simp: ran_ok_def ok_status_def split: if_splits executed.splits child_result.splits)

lemma extends_asks: "emits only_asks m \<Longrightarrow> extends m"
  by (erule emits_mono) simp

lemma clean_extends: "extends (cleanDistDirectory env os)" "extends (autoResolveFileLocks env os dir)"
  "extends (tryWindowsRmdir env os dir)" "extends (tryPowerShellRemove env os dir)"
proof -
  show rmdir: "extends (tryWindowsRmdir env os d)" and ps: "extends (tryPowerShellRemove env os d)" for d
    unfolding tryWindowsRmdir_def tryPowerShellRemove_def by (intro emits_rules TrueI)+
  have node: "extends (node_remove os d)" for d
    unfolding node_remove_def by (intro emits_rules TrueI)
  have own: "extends (tryTakeOwnershipAndDelete env os d)" for d
    unfolding tryTakeOwnershipAndDelete_def by (intro emits_rules emits_first_true TrueI) (simp_all add: rmdir ps node)
  have robo: "extends (tryRobocopyMirrorDelete env os d)" for d
    unfolding tryRobocopyMirrorDelete_def by (intro emits_rules TrueI rmdir)
  have ren: "extends (tryRenameThenDelete env os d)" for d
    unfolding tryRenameThenDelete_def delete_renamed_def
    by (intro emits_rules emits_first_true TrueI) (simp_all add: rmdir ps node own robo)
  have search: "extends (findProcessLockingFile env os d)" for d
    by (rule extends_asks [OF findProcess_asks])
  show res: "extends (autoResolveFileLocks env os d)" for d
    unfolding autoResolveFileLocks_def killProcessByPid_def killProcessByName_def taskkill_def
    by (intro emits_rules TrueI search)
  have round: "extends (clean_round env os d i)" for d i
    unfolding clean_round_def
    by (intro emits_rules emits_first_true TrueI) (auto simp: rmdir ps node own robo ren intro!: emits_rules)
  have last: "extends (last_try env os d)" for d
    unfolding last_try_def by (intro emits_rules TrueI res node search)
  show "extends (cleanDistDirectory env os)"
    unfolding cleanDistDirectory_def
    by (intro emits_rules emits_first_true TrueI res last) (auto simp: round list_all_iff)
qed

lemma kill_extends: "extends (kill_all os targets)" "extends (running_names os names)"
  by (induction targets; auto simp: taskkill_def intro!: emits_rules)
    (induction names; auto intro!: emits_rules)

lemma gate_extends:
  "extends (printToolVersions env os)" "extends (symlink_gate env os)" "extends (clearWinCodeSignCache env os)"
  "extends (checkRunningProcesses env os)"
proof -
  show "extends (printToolVersions env os)"
    unfolding printToolVersions_def getToolVersion_def getElectronBuilderVersion_def by (intro emits_rules TrueI)
  show "extends (symlink_gate env os)"
    unfolding symlink_gate_def hasSymlinkPrivilege_def by (intro emits_rules emits_afterwards emits_exit_with TrueI)
  show "extends (clearWinCodeSignCache env os)"
    unfolding clearWinCodeSignCache_def throw_or_def Let_def by (intro emits_rules TrueI)
  have path: "extends (kill_by_path env os)"
    unfolding kill_by_path_def findProcessesByExecutablePathPowerShell_def by (intro emits_rules TrueI kill_extends)
  have name: "extends (kill_by_name env os)"
    unfolding kill_by_name_def by (intro emits_rules TrueI kill_extends)
  show "extends (checkRunningProcesses env os)"
    unfolding checkRunningProcesses_def by (intro emits_rules TrueI path name)
qed

lemma output_extends: "extends (choose_output env os dir)" "extends (late_check env os dir temp args)"
  "extends (prepare_icon env os repoRoot)"
proof -
  have probe: "extends (probe_locked os f)" for f
    unfolding probe_locked_def by (intro emits_rules TrueI)
  have temp: "extends (getTempOutputDirectory env os d)" for d
    unfolding getTempOutputDirectory_def shouldUseTempOutputWorkaround_def by (intro emits_rules TrueI probe)
  have direct: "extends (direct_removal os d)" for d
    unfolding direct_removal_def by (intro emits_rules TrueI)
  have renamed: "extends (renamed_removal os d)" for d
    unfolding renamed_removal_def Let_def by (intro emits_rules TrueI direct)
  have left: "extends (still_there os d c)" for d c
    unfolding still_there_def by (intro emits_rules TrueI)
  have final: "extends (final_cleanup env os d)" for d
    unfolding final_cleanup_def
    by (intro emits_rules emits_first_true emits_afterwards TrueI probe temp direct renamed left clean_extends)
      (simp_all add: clean_extends)
  show "extends (choose_output env os dir)"
    unfolding choose_output_def by (intro emits_rules emits_afterwards TrueI temp final)
  have cond: "extends (if_exists os f b)" for f b
    unfolding if_exists_def by (intro emits_rules TrueI)
  show "extends (late_check env os dir temp args)"
    unfolding late_check_def by (intro emits_rules emits_afterwards TrueI temp probe cond)
  have icon: "extends (run_icon_script os a b)" for a b
    unfolding run_icon_script_def by (intro emits_rules TrueI)
  show "extends (prepare_icon env os repoRoot)"
    unfolding prepare_icon_def generate_icon_def throw_or_def Let_def
    by (intro emits_rules emits_afterwards TrueI icon cond)
qed

lemma late_check_keeps: "''never'' \<in> set args \<Longrightarrow> returns (\<lambda>(temp, args'). ''never'' \<in> set args') (late_check env os dir temp args)"
  unfolding returns_def late_check_def
  by (auto simp: late_args_def run_afterwards split: if_splits prod.splits outcome.splits option.splits)

lemma move_extends: "extends (moveTempOutputToFinal env os depth temp dir)"
proof -
  have copy: "extends (copyDirectoryRecursive w os n a b)" "extends (copy_entries w os n a b es)" for w n a b es
    by (induction w os n a b and w os n a b es rule: copyDirectoryRecursive_copy_entries.induct)
      (auto simp: throw_or_def intro!: emits_rules)
  have remove: "extends (remove_source os a is)" for a "is"
    by (induction "is") (auto intro!: emits_rules)
  have safe: "extends (moveDirectorySafe w os n a b)" for w n a b
    unfolding moveDirectorySafe_def
    by (intro emits_rules TrueI copy) (auto split: outcome.splits intro!: emits_rules remove)
  show ?thesis
    unfolding moveTempOutputToFinal_def throw_or_def Let_def by (intro emits_rules TrueI safe)
qed

lemma run_does: "does [ran_ok isWin cmd args] (run isWin os cmd args)"
  using run_Done unfolding does_def by fastforce

lemma package_app_does:
  "does [\<lambda>e. \<exists>args. ran_ok (de_isWin env) (localBin (de_isWin env) (de_root env) ''electron-builder'') args e \<and> ''never'' \<in> set args]
     (package_app env os repoRoot depth dir chosen)"
proof -
  let ?eb = "localBin (de_isWin env) (de_root env) ''electron-builder''"
  let ?E = "\<lambda>e. \<exists>args. ran_ok (de_isWin env) ?eb args e \<and> ''never'' \<in> set args"
  have built: "does [?E] (run (de_isWin env) os ?eb args)" if "''never'' \<in> set args" for args
    using run_Done that unfolding does_def by fastforce
  have tail: "does [] (case temp of
             Some t \<Rightarrow> if de_isWin env then
                 afterwards (moveTempOutputToFinal env os depth t dir) (\<lambda>_. State_Monad.return (Done ()))
               else State_Monad.return (Done ())
           | None \<Rightarrow> State_Monad.return (Done ()))" for temp
    by (rule does_extends) (intro emits_rules emits_afterwards move_extends)
  have middle: "does ([?E] @ []) (afterwards (run (de_isWin env) os ?eb args) (\<lambda>_.
          (case temp of
             Some t \<Rightarrow> if de_isWin env then
                 afterwards (moveTempOutputToFinal env os depth t dir) (\<lambda>_. State_Monad.return (Done ()))
               else State_Monad.return (Done ())
           | None \<Rightarrow> State_Monad.return (Done ()))))" if "''never'' \<in> set args" for args temp
    by (rule does_then [OF built [OF that] tail])
  have never: "''never'' \<in> set (electronBuilderArgs b d)" for b d
    by (auto simp: electronBuilderArgs_def)
  have "does ([] @ [] @ [?E] @ []) (afterwards (prepare_icon env os repoRoot) (\<lambda>_.
        afterwards (late_check env os dir (fst chosen) (electronBuilderArgs (env_on (de_PACK_DIR_ONLY env)) (fst chosen))) (\<lambda>(temp, args).
        afterwards (run (de_isWin env) os ?eb args) (\<lambda>_.
          (case temp of
             Some t \<Rightarrow> if de_isWin env then
                 afterwards (moveTempOutputToFinal env os depth t dir) (\<lambda>_. State_Monad.return (Done ()))
               else State_Monad.return (Done ())
           | None \<Rightarrow> State_Monad.return (Done ()))))))"
    by (rule does_then [OF does_extends [OF output_extends(3)]],
        rule does_afterwards [OF does_extends [OF output_extends(2)] late_check_keeps [OF never]])
      (auto simp: case_prod_beta intro: middle [simplified])
  then show ?thesis
    unfolding package_app_def Let_def
    by (intro does_bind does_if does_exit emits_rules TrueI) simp_all
qed

text \<open>
  Further fact: the packaging script ends normally only after \<open>npm run build\<close> and then
  \<open>electron-builder\<close> were run and ended well, and the builder was told \<open>never\<close> to publish; a command
  that fails ends the script, with the status of the command where it has one.
\<close>

theorem packaging_builds_then_packages:
  "does [ran_ok (de_isWin env) ''npm'' [''run'', ''build''],
         \<lambda>e. \<exists>args. ran_ok (de_isWin env) (localBin (de_isWin env) (de_root env) ''electron-builder'') args e \<and>
           ''never'' \<in> set args]
     (packaging env os repoRoot depth) \<and>
   (case run_state (run (de_isWin env) os cmd args) t of
      (Done u, t') \<Rightarrow> ran_ok (de_isWin env) cmd args (last t')
    | (Threw msg, t') \<Rightarrow> \<not> ran_ok (de_isWin env) cmd args (last t')
    | (Exited n, t') \<Rightarrow> \<not> ran_ok (de_isWin env) cmd args (last t') \<and>
        (\<forall>c st. last t' = Exec c (ExecFailed (Some st)) \<longrightarrow> n = st) \<and>
        (\<forall>c a st out. last t' = Spawn c a (Spawned (Some st) out False) \<longrightarrow> n = st))"
proof
  show "does [ran_ok (de_isWin env) ''npm'' [''run'', ''build''],
         \<lambda>e. \<exists>args. ran_ok (de_isWin env) (localBin (de_isWin env) (de_root env) ''electron-builder'') args e \<and>
           ''never'' \<in> set args]
     (packaging env os repoRoot depth)"
    unfolding packaging_def
    using does_then [OF does_done_with [OF gate_extends(1)]
        does_then [OF does_extends [OF gate_extends(2)]
        does_then [OF does_extends [OF gate_extends(3)]
        does_then [OF does_done_with [OF gate_extends(4)]
        does_then [OF does_done_with [OF clean_extends(1)]
        does_then [OF run_does does_then [OF does_extends [OF output_extends(1)] package_app_does]]]]]]]
    by simp
qed (auto simp: run_def exec_or_exit_def execSync_def spawnSync_def Let_def ran_ok_def ok_status_def status_or_one_def
      split: if_splits executed.splits child_result.splits option.splits)

definition failing :: "int \<Rightarrow> os" where
  "failing n = obedient\<lparr> os_spawn := (\<lambda>t c args. Spawned (Some n) [] False) \<rparr>"

theorem packaging_builds_then_packages_witness:
  "fst (run_state (run False (failing 3) ''make'' []) []) = Exited 3"
proof -
  have r: "\<exists>n. run_state (run False (failing 3) ''make'' []) [] = (Exited n, [Spawn ''make'' [] (Spawned (Some 3) [] False)])"
    by (simp add: run_def resolveCmd_def isAbsolute_def path_sep_def spawnSync_def failing_def)
  show ?thesis
    using packaging_builds_then_packages [of "locked_env\<lparr> de_isWin := False \<rparr>" "failing 3" "[]" 0 "''make''" "[]" "[]"] r
    by (auto simp: locked_env_def)
qed

subsection \<open>Arguments of the builder\<close>

text \<open>
  Further fact: when only the late check finds the directory locked, the arguments are rebuilt from
  their first two: \<open>--publish\<close> is then given twice, and with \<open>--dir\<close> the first \<open>--publish\<close> is
  followed by the second instead of \<open>never\<close>.
\<close>

theorem late_lock_garbles_arguments:
  assumes "run_state (late_check env os dir None (electronBuilderArgs packDirOnly None)) t = (Done (Some d, args), t')"
  shows "count_list args ''--publish'' = 2 + count_list [d] ''--publish'' \<and>
    (packDirOnly \<longrightarrow> take 3 args = [''--dir'', ''--publish'', ''--publish''])"
proof -
  have "args = late_args (electronBuilderArgs packDirOnly None) d"
    using assms unfolding late_check_def
    by (auto simp: run_afterwards split: if_splits prod.splits outcome.splits option.splits)
  then show ?thesis
    by (simp add: late_args_def electronBuilderArgs_def)
qed

text \<open>A system where files cannot be written and the rest works.\<close>

definition read_only :: os where
  "read_only = obedient\<lparr> os_fs := (\<lambda>t f. case f of WriteFile p \<Rightarrow> Some ''EPERM'' | _ \<Rightarrow> None), os_temp := (\<lambda>t p. Some ''tmp'') \<rparr>"

theorem late_lock_garbles_arguments_witness:
  "\<exists>args t'. run_state (late_check locked_env read_only ''d'' None (electronBuilderArgs True None)) [] = (Done (Some ''tmp'', args), t') \<and>
    take 3 args = [''--dir'', ''--publish'', ''--publish'']"
proof -
  have "\<exists>args t'. run_state (late_check locked_env read_only ''d'' None (electronBuilderArgs True None)) [] = (Done (Some ''tmp'', args), t')"
    by (simp add: late_check_def getTempOutputDirectory_def shouldUseTempOutputWorkaround_def probe_locked_def if_exists_def
        existsSync_def fsSync_def mkdtempSync_def run_afterwards locked_env_def read_only_def obedient_def removed_in_def env_on_def)
  then show ?thesis using late_lock_garbles_arguments by blast
qed

text \<open>
  Further fact: a directory that cannot be deleted does not by itself move the output elsewhere. The
  temporary directory is used only when an environment variable only_asks for it, or when a file can not
  be written in the directory or not be removed again; otherwise the builder runs on the locked one.
\<close>

theorem workaround_needs_failed_probe:
  assumes "run_state (choose_output env os dir) t = (Done (Some d, needed), t')"
  shows "env_on (de_USE_TEMP env) \<or>
    (\<exists>msg. Fs (WriteFile (joined True [dir, ''.test-delete''])) (Some msg) \<in> set t' \<or>
       Fs (RemoveFile (joined True [dir, ''.test-delete''])) (Some msg) \<in> set t')"
proof (rule ccontr)
  assume no: "\<not> ?thesis"
  have temp: "run_state (getTempOutputDirectory env os dir) u = (Done (Some d), t') \<Longrightarrow> False" for u
    using no unfolding getTempOutputDirectory_def shouldUseTempOutputWorkaround_def probe_locked_def
    by (auto simp: existsSync_def fsSync_def mkdtempSync_def split: if_splits option.splits)
  show False
    using assms temp no unfolding choose_output_def final_cleanup_def
    by (auto simp: run_afterwards split: if_splits prod.splits outcome.splits option.splits)
qed

theorem workaround_needs_failed_probe_witness:
  "\<exists>d needed t'. run_state (choose_output (locked_env\<lparr> de_USE_TEMP := Some ''1'' \<rparr>) (read_only\<lparr> os_exists := \<lambda>t p. False \<rparr>) ''d'') [] =
     (Done (Some d, needed), t') \<and> env_on (Some ''1'')"
proof -
  let ?env = "locked_env\<lparr> de_USE_TEMP := Some ''1'' \<rparr>" and ?os = "read_only\<lparr> os_exists := \<lambda>t p. False \<rparr>"
  have r: "run_state (choose_output ?env ?os ''d'') [] =
      (Done (Some ''tmp'', True), [Exists ''d'' False, MadeTemp (joined True [''t'', ''orc-builder-output-'']) (Some ''tmp'')])"
    by (simp add: choose_output_def getTempOutputDirectory_def shouldUseTempOutputWorkaround_def existsSync_def
        mkdtempSync_def run_afterwards locked_env_def read_only_def obedient_def env_on_def)
  show ?thesis using workaround_needs_failed_probe [OF r] r by auto
qed

subsection \<open>Arguments with spaces\<close>

text \<open>
  How the command line is read again: double quotes group, spaces outside of them separate.
\<close>

fun cmd_words :: "bool \<Rightarrow> string \<Rightarrow> string \<Rightarrow> string list" where
  "cmd_words inside acc [] = (if acc = [] then [] else [rev acc])"
| "cmd_words inside acc (c # s) =
     (if c = CHR 0x22 then cmd_words (\<not> inside) acc s
      else if c = CHR '' '' \<and> \<not> inside then (if acc = [] then cmd_words False [] s else rev acc # cmd_words False [] s)
      else cmd_words inside (c # acc) s)"

definition spaced :: "string \<Rightarrow> string list" where
  "spaced s = filter (\<lambda>w. w \<noteq> []) (js_split CHR '' '' s)"

lemma cmd_words_plain:
  "CHR 0x22 \<notin> set s \<Longrightarrow> CHR '' '' \<notin> set acc \<Longrightarrow> cmd_words False acc s = spaced (rev acc @ s)"
proof (induction s arbitrary: acc)
  case Nil
  then show ?case by (simp add: spaced_def js_split_no_sep)
next
  case (Cons c s)
  show ?case
  proof (cases "c = CHR '' ''")
    case True
    then show ?thesis using Cons js_split_append [of "CHR '' ''" "rev acc" s] by (simp add: spaced_def)
  next
    case False
    moreover have "c \<noteq> CHR 0x22" using Cons.prems(1) by auto
    ultimately show ?thesis using Cons by simp
  qed
qed

lemma cmd_words_quoted:
  "CHR 0x22 \<notin> set q \<Longrightarrow> cmd_words True acc (q @ CHR 0x22 # rest) = cmd_words False (rev q @ acc) rest"
  by (induction q arbitrary: acc) auto

lemma spaced_join: "args \<noteq> [] \<Longrightarrow> spaced (js_join '' '' args) = concat (map spaced args)"
proof (induction "'' ''" args rule: js_join.induct)
  case (3 x y ys)
  have split: "js_split CHR '' '' (a @ CHR '' '' # b) = js_split CHR '' '' a @ js_split CHR '' '' b" for a b :: string
    by (induction a) (auto split: list.splits)
  show ?case using 3 split by (simp add: spaced_def)
qed auto

lemma spaced_id: "spaced a = [a] \<longleftrightarrow> a \<noteq> [] \<and> CHR '' '' \<notin> set a"
proof
  have no_space: "\<forall>w \<in> set (js_split CHR '' '' a). CHR '' '' \<notin> set w" for a :: string
    by (induction a) (auto split: list.splits)
  assume "spaced a = [a]"
  then have "a \<in> set (spaced a)" by simp
  then show "a \<noteq> [] \<and> CHR '' '' \<notin> set a" using no_space by (auto simp: spaced_def)
qed (simp add: spaced_def js_split_no_sep)

text \<open>
  Further fact: on Windows the local tools are batch files, and their arguments are joined without
  quotes. What the tool reads are the words of the arguments: an argument with a space, as a
  temporary directory below a user name with a space, arrives as several.
\<close>

theorem spaces_split_arguments:
  assumes "finalCmd \<noteq> []" "CHR 0x22 \<notin> set finalCmd" "args \<noteq> []" "list_all (\<lambda>a. CHR 0x22 \<notin> set a) args"
  shows "cmd_words False [] (cmd_line finalCmd args) = finalCmd # concat (map spaced args) \<and>
    (list_all (\<lambda>a. a \<noteq> [] \<and> CHR '' '' \<notin> set a) args \<longrightarrow> cmd_words False [] (cmd_line finalCmd args) = finalCmd # args) \<and>
    (list_ex (\<lambda>a. CHR '' '' \<in> set a) args \<longrightarrow> cmd_words False [] (cmd_line finalCmd args) \<noteq> finalCmd # args)"
proof -
  have quotes: "CHR 0x22 \<notin> set (js_join '' '' args)"
    using assms(4) by (induction "'' ''" args rule: js_join.induct) auto
  have words: "cmd_words False [] (cmd_line finalCmd args) = finalCmd # concat (map spaced args)"
    using assms(1,3) cmd_words_quoted [OF assms(2), of "[]" "CHR '' '' # js_join '' '' args"]
      cmd_words_plain [OF quotes, of "[]"] spaced_join [OF assms(3)]
    by (simp add: cmd_line_def in_quotes_def)
  have same: "concat (map spaced as) = as" if "list_all (\<lambda>a. a \<noteq> [] \<and> CHR '' '' \<notin> set a) as" for as
    using that by (induction as) (auto simp: spaced_id)
  have no_space: "CHR '' '' \<notin> set w" if "w \<in> set (spaced a)" for w a
  proof -
    have "\<forall>w \<in> set (js_split CHR '' '' a). CHR '' '' \<notin> set w" by (induction a) (auto split: list.splits)
    then show ?thesis using that by (auto simp: spaced_def)
  qed
  have "concat (map spaced args) \<noteq> args" if "list_ex (\<lambda>a. CHR '' '' \<in> set a) args"
  proof
    assume "concat (map spaced args) = args"
    then have "a \<in> set (concat (map spaced args))" if "a \<in> set args" for a using that by simp
    then show False using \<open>list_ex _ args\<close> no_space by (fastforce simp: list_ex_iff)
  qed
  then show ?thesis using words same by auto
qed

theorem spaces_split_arguments_witness:
  "cmd_words False [] (cmd_line ''eb.cmd'' [''--dir'', ''C:/John Doe'']) = [''eb.cmd'', ''--dir'', ''C:/John'', ''Doe'']"
  using spaces_split_arguments [of "''eb.cmd''" "[''--dir'', ''C:/John Doe'']"] by (simp add: spaced_def)

end
