(* ===== verification/BuildScript.thy ===== *)
theory BuildScript
  imports Packaging
begin

text \<open>
  \<open>scripts/build.ts\<close>: commands with retries, the prerequisites, the clean-up of old output, and the
  steps of the build: the daemon, the page and the compiled main process. A script that throws ends
  with status 1. Durations and what is printed are left out.
\<close>

subsection \<open>Configuration\<close>

definition RETRY_BACKOFF_MS :: nat where "RETRY_BACKOFF_MS = 750"
definition MAX_RETRY_BACKOFF_MS :: nat where "MAX_RETRY_BACKOFF_MS = 3000"
definition BINARY_WAIT_ATTEMPTS :: nat where "BINARY_WAIT_ATTEMPTS = 5"
definition BINARY_WAIT_INITIAL_MS :: nat where "BINARY_WAIT_INITIAL_MS = 200"
definition COPY_RETRY_ATTEMPTS :: nat where "COPY_RETRY_ATTEMPTS = 3"
definition COPY_RETRY_INITIAL_MS :: nat where "COPY_RETRY_INITIAL_MS = 300"

record build_env =
  bd_isWin :: bool
  bd_root :: string
  bd_repo :: string
  bd_USE_EXISTING :: "string option"
  bd_CLEAN :: "string option"
  bd_BUILD_MODE :: "string option"

definition isCompileError :: "bool \<Rightarrow> string \<Rightarrow> int \<Rightarrow> bool" where
  "isCompileError isWin resolvedCmd status \<longleftrightarrow>
     status \<noteq> 0 \<and> (let tool = js_lower (base_name isWin resolvedCmd) in
       starts_with tool ''vite'' \<or> starts_with tool ''tsc'')"

definition escapeArg :: "string \<Rightarrow> string" where
  "escapeArg arg =
     (if list_ex (\<lambda>c. c \<in> set '' &|><'' \<or> c = CHR 0x22) arg then in_quotes (escape_quotes arg) else arg)"

subsection \<open>A command with retries\<close>

datatype try_result = AtDone | AtExit int | AtRetry int

definition cmd_file :: "bool \<Rightarrow> string \<Rightarrow> bool" where
  "cmd_file isWin resolved \<longleftrightarrow> isWin \<and> (ends_with resolved ''.cmd'' \<or> ends_with resolved ''.bat'')"

text \<open>What an error that was thrown leads to.\<close>

definition caught :: "bool \<Rightarrow> string \<Rightarrow> bool \<Rightarrow> int option \<Rightarrow> try_result" where
  "caught isWin resolved last_one st =
     (let status = status_or_one st in
      if status = 0 then AtDone
      else if isCompileError isWin resolved status then AtExit status
      else if last_one then AtExit status
      else AtRetry status)"

definition sh_attempt :: "bool \<Rightarrow> os \<Rightarrow> nat \<Rightarrow> string \<Rightarrow> string list \<Rightarrow> nat \<Rightarrow> try_result script" where
  "sh_attempt isWin os retries resolved args attempt = do {
     (if attempt > 0 then sleepSync (min (RETRY_BACKOFF_MS * attempt) MAX_RETRY_BACKOFF_MS) else State_Monad.return ());
     (if cmd_file isWin resolved then do {
        r \<leftarrow> execSync os (cmd_line resolved (map escapeArg args));
        State_Monad.return (case r of
            ExecDone out \<Rightarrow> AtDone
          | ExecFailed st \<Rightarrow> caught isWin resolved (retries \<le> attempt) st)
      } else do {
        r \<leftarrow> spawnSync os resolved args;
        State_Monad.return (case r of
            SpawnThrew \<Rightarrow> caught isWin resolved (retries \<le> attempt) None
          | Spawned st out err \<Rightarrow>
              if status_or_one st = 0 then AtDone
              else if err then (if attempt < retries then AtRetry (status_or_one st) else AtExit 1)
              else if isCompileError isWin resolved (status_or_one st) then AtExit (status_or_one st)
              else AtRetry (status_or_one st))
      })
   }"

fun sh_loop :: "bool \<Rightarrow> os \<Rightarrow> nat \<Rightarrow> string \<Rightarrow> string list \<Rightarrow> int \<Rightarrow> nat list \<Rightarrow> unit outcome script" where
  "sh_loop isWin os retries resolved args lastStatus [] = exit_with lastStatus"
| "sh_loop isWin os retries resolved args lastStatus (attempt # attempts) = do {
     r \<leftarrow> sh_attempt isWin os retries resolved args attempt;
     (case r of
        AtDone \<Rightarrow> State_Monad.return (Done ())
      | AtExit n \<Rightarrow> exit_with n
      | AtRetry n \<Rightarrow> sh_loop isWin os retries resolved args n attempts)
   }"

definition sh :: "bool \<Rightarrow> os \<Rightarrow> string \<Rightarrow> string list \<Rightarrow> nat \<Rightarrow> unit outcome script" where
  "sh isWin os cmd args retries = sh_loop isWin os retries (resolveCmd isWin cmd) args 1 [0..<Suc retries]"

subsection \<open>Prerequisites\<close>

definition checkCommand :: "bool \<Rightarrow> os \<Rightarrow> string \<Rightarrow> string list \<Rightarrow> bool script" where
  "checkCommand isWin os cmd args =
     (if isWin \<and> cmd = ''npm'' then do {
        r \<leftarrow> execSync os (''npm '' @ js_join '' '' (map escapeArg args));
        State_Monad.return (case r of ExecDone out \<Rightarrow> True | ExecFailed st \<Rightarrow> False)
      } else do {
        r \<leftarrow> spawnSync os (resolveCmd isWin cmd) args;
        State_Monad.return (ok_status r)
      })"

definition printVersion :: "bool \<Rightarrow> os \<Rightarrow> string \<Rightarrow> unit script" where
  "printVersion isWin os cmd =
     (if isWin \<and> cmd = ''npm'' then do { _ \<leftarrow> execSync os ''npm --version''; State_Monad.return () }
      else do { _ \<leftarrow> spawnSync os (resolveCmd isWin cmd) [''--version'']; State_Monad.return () })"

definition daemon_file :: "build_env \<Rightarrow> string" where
  "daemon_file env = (if bd_isWin env then ''orc-daemon.exe'' else ''orc-daemon'')"

definition assets_bin :: "build_env \<Rightarrow> string" where
  "assets_bin env = joined (bd_isWin env) [bd_root env, ''assets'', ''bin'']"

definition target_binary :: "build_env \<Rightarrow> string" where
  "target_binary env = joined (bd_isWin env) [bd_root env, ''assets'', ''bin'', daemon_file env]"

definition useExistingDaemonBinary :: "build_env \<Rightarrow> os \<Rightarrow> bool script" where
  "useExistingDaemonBinary env os =
     (if bd_USE_EXISTING env \<noteq> Some ''1'' then State_Monad.return False else existsSync os (target_binary env))"

fun check_all :: "bool \<Rightarrow> os \<Rightarrow> bool \<Rightarrow> string list \<Rightarrow> bool script" where
  "check_all isWin os skipCargo [] = State_Monad.return True"
| "check_all isWin os skipCargo (cmd # cmds) =
     (if cmd = ''cargo'' \<and> skipCargo then check_all isWin os skipCargo cmds
      else do {
        present \<leftarrow> checkCommand isWin os cmd [''--version''];
        (if present then printVersion isWin os cmd else State_Monad.return ());
        rest \<leftarrow> check_all isWin os skipCargo cmds;
        State_Monad.return (present \<and> rest)
      })"

definition verifyPrerequisites :: "build_env \<Rightarrow> os \<Rightarrow> unit outcome script" where
  "verifyPrerequisites env os = do {
     skipCargo \<leftarrow> useExistingDaemonBinary env os;
     allPresent \<leftarrow> check_all (bd_isWin env) os skipCargo [''cargo'', ''node'', ''npm''];
     (if allPresent then State_Monad.return (Done ()) else exit_with 1)
   }"

definition ensureNodeDeps :: "build_env \<Rightarrow> os \<Rightarrow> (string \<times> string) outcome script" where
  "ensureNodeDeps env os = do {
     let vite = localBin (bd_isWin env) (bd_root env) ''vite'';
     let tsc = localBin (bd_isWin env) (bd_root env) ''tsc'';
     v \<leftarrow> existsSync os vite;
     c \<leftarrow> if_exists os tsc v;
     (if c then State_Monad.return (Done (vite, tsc)) else exit_with 1)
   }"

subsection \<open>Artifacts\<close>

fun clean_paths :: "os \<Rightarrow> string list \<Rightarrow> unit script" where
  "clean_paths os [] = State_Monad.return ()"
| "clean_paths os (p # ps) = do {
     there \<leftarrow> existsSync os p;
     _ \<leftarrow> (if there then fsSync os (RemoveTree p) else State_Monad.return None);
     clean_paths os ps
   }"

definition pathsToClean :: "build_env \<Rightarrow> string list" where
  "pathsToClean env = map (joined (bd_isWin env))
     [[bd_root env, ''dist'', ''renderer''], [bd_root env, ''dist'', ''main''], [bd_root env, ''dist'', ''preload''],
      [bd_root env, ''assets'', ''bin'']]"

definition cleanBuildArtifacts :: "build_env \<Rightarrow> os \<Rightarrow> unit script" where
  "cleanBuildArtifacts env os =
     (if \<not> env_on (bd_CLEAN env) then State_Monad.return () else clean_paths os (pathsToClean env))"

definition verifyBuildOutput :: "os \<Rightarrow> string \<Rightarrow> unit outcome script" where
  "verifyBuildOutput os path = do {
     there \<leftarrow> existsSync os path;
     (if \<not> there then exit_with 1
      else do {
        bytes \<leftarrow> statSync os path;
        (case bytes of
           None \<Rightarrow> exit_with 1
         | Some n \<Rightarrow> if n = 0 then exit_with 1 else State_Monad.return (Done ()))
      })
   }"

subsection \<open>Steps\<close>

fun wait_for_binary :: "os \<Rightarrow> string \<Rightarrow> nat list \<Rightarrow> bool script" where
  "wait_for_binary os path [] = State_Monad.return False"
| "wait_for_binary os path (i # is) = do {
     there \<leftarrow> existsSync os path;
     (if there then State_Monad.return True
      else do { sleepSync (BINARY_WAIT_INITIAL_MS * (i + 1)); wait_for_binary os path is })
   }"

fun copy_binary :: "os \<Rightarrow> string \<Rightarrow> string \<Rightarrow> nat list \<Rightarrow> unit outcome script" where
  "copy_binary os src dest [] = exit_with 1"
| "copy_binary os src dest (i # is) = do {
     thrown \<leftarrow> fsSync os (CopyFile src dest);
     (if thrown = None then verifyBuildOutput os dest
      else if i = COPY_RETRY_ATTEMPTS - 1 then exit_with 1
      else do { sleepSync (COPY_RETRY_INITIAL_MS * (i + 1)); copy_binary os src dest is })
   }"

definition cargo_args :: "build_env \<Rightarrow> string list" where
  "cargo_args env = (if bd_BUILD_MODE env = Some ''debug'' then [''build'', ''-p'', ''orc-daemon'']
     else [''build'', ''--release'', ''-p'', ''orc-daemon''])"

definition rust_binary :: "build_env \<Rightarrow> string" where
  "rust_binary env = joined (bd_isWin env) [bd_repo env, ''crates'', ''target'',
     if bd_BUILD_MODE env = Some ''debug'' then ''debug'' else ''release'', daemon_file env]"

definition install_binary :: "build_env \<Rightarrow> os \<Rightarrow> unit outcome script" where
  "install_binary env os = do {
     there \<leftarrow> existsSync os (assets_bin env);
     made \<leftarrow> (if there then State_Monad.return None else fsSync os (MakeDir (assets_bin env)));
     throw_or made (copy_binary os (rust_binary env) (target_binary env) [0..<COPY_RETRY_ATTEMPTS])
   }"

definition cargo_build :: "build_env \<Rightarrow> os \<Rightarrow> unit outcome script" where
  "cargo_build env os = do {
     cargo \<leftarrow> checkCommand (bd_isWin env) os ''cargo'' [''--version''];
     (if \<not> cargo then exit_with 1
      else do {
        dir \<leftarrow> existsSync os (joined (bd_isWin env) [bd_repo env, ''crates'']);
        (if \<not> dir then exit_with 1
         else afterwards (sh (bd_isWin env) os ''cargo'' (cargo_args env) 2) (\<lambda>_. do {
           appeared \<leftarrow> wait_for_binary os (rust_binary env) [0..<BINARY_WAIT_ATTEMPTS];
           (if \<not> appeared then exit_with 1
            else afterwards (verifyBuildOutput os (rust_binary env)) (\<lambda>_. install_binary env os))
         }))
      })
   }"

definition buildRustDaemon :: "build_env \<Rightarrow> os \<Rightarrow> unit outcome script" where
  "buildRustDaemon env os = do {
     existing \<leftarrow> useExistingDaemonBinary env os;
     (if existing then verifyBuildOutput os (target_binary env) else cargo_build env os)
   }"

definition buildRenderer :: "build_env \<Rightarrow> os \<Rightarrow> string \<Rightarrow> unit outcome script" where
  "buildRenderer env os vite =
     afterwards (sh (bd_isWin env) os vite [''build''] 1) (\<lambda>_. do {
       _ \<leftarrow> existsSync os (joined (bd_isWin env) [bd_root env, ''dist'', ''renderer'']);
       State_Monad.return (Done ())
     })"

definition compile_config :: "build_env \<Rightarrow> os \<Rightarrow> string \<Rightarrow> string \<Rightarrow> string \<Rightarrow> unit outcome script" where
  "compile_config env os tsc config outDir =
     afterwards (sh (bd_isWin env) os tsc [''-p'', config] 1) (\<lambda>_. do {
       _ \<leftarrow> existsSync os (joined (bd_isWin env) [bd_root env, ''dist'', outDir]);
       State_Monad.return (Done ())
     })"

definition compileTypeScript :: "build_env \<Rightarrow> os \<Rightarrow> string \<Rightarrow> unit outcome script" where
  "compileTypeScript env os tsc =
     afterwards (compile_config env os tsc ''tsconfig.main.json'' ''main'') (\<lambda>_.
       compile_config env os tsc ''tsconfig.preload.json'' ''preload'')"

definition build_steps :: "build_env \<Rightarrow> os \<Rightarrow> unit outcome script" where
  "build_steps env os =
     afterwards (verifyPrerequisites env os) (\<lambda>_.
     afterwards (done_with (cleanBuildArtifacts env os)) (\<lambda>_.
     afterwards (ensureNodeDeps env os) (\<lambda>(vite, tsc).
     afterwards (buildRustDaemon env os) (\<lambda>_.
     afterwards (buildRenderer env os vite) (\<lambda>_.
       compileTypeScript env os tsc)))))"

definition build_main :: "build_env \<Rightarrow> os \<Rightarrow> unit outcome script" where
  "build_main env os = do {
     r \<leftarrow> build_steps env os;
     State_Monad.return (case r of Threw msg \<Rightarrow> Exited 1 | _ \<Rightarrow> r)
   }"

section \<open>Properties\<close>

subsection \<open>Retries\<close>

text \<open>A run of the command, and one that succeeded.\<close>

definition sh_run :: "bool \<Rightarrow> string \<Rightarrow> string list \<Rightarrow> os_event \<Rightarrow> bool" where
  "sh_run isWin resolved args e \<longleftrightarrow>
     (if cmd_file isWin resolved then \<exists>r. e = Exec (cmd_line resolved (map escapeArg args)) r
      else \<exists>r. e = Spawn resolved args r)"

definition sh_ok :: "os_event \<Rightarrow> bool" where
  "sh_ok e \<longleftrightarrow> (case e of
      Exec c r \<Rightarrow> (case r of ExecDone out \<Rightarrow> True | ExecFailed st \<Rightarrow> st = Some 0)
    | Spawn c a r \<Rightarrow> ok_status r
    | _ \<Rightarrow> False)"

definition is_run :: "os_event \<Rightarrow> bool" where
  "is_run e \<longleftrightarrow> (case e of Exec c r \<Rightarrow> True | Spawn c a r \<Rightarrow> True | _ \<Rightarrow> False)"

lemma is_run_simps [simp]: "is_run (Exec c r)" "is_run (Spawn c a sp)" "\<not> is_run (Slept n)"
  by (simp_all add: is_run_def)

lemma sh_run_simps: "sh_run isWin resolved args e \<Longrightarrow> is_run e \<and> sleep_of e = 0"
  by (auto simp: sh_run_def split: if_splits)

definition pause_before :: "nat \<Rightarrow> os_event list" where
  "pause_before attempt = (if attempt > 0 then [Slept (min (RETRY_BACKOFF_MS * attempt) MAX_RETRY_BACKOFF_MS)] else [])"

lemma status_or_one_zero [simp]: "status_or_one st = 0 \<longleftrightarrow> st = Some 0"
  by (simp add: status_or_one_def split: option.splits)

text \<open>What one attempt does, and what its result says.\<close>

definition attempt_fits :: "bool \<Rightarrow> string \<Rightarrow> os_event \<Rightarrow> try_result \<Rightarrow> bool" where
  "attempt_fits isWin resolved e r \<longleftrightarrow>
     (r = AtDone \<longleftrightarrow> sh_ok e) \<and> (\<forall>n. r = AtExit n \<longrightarrow> n \<noteq> 0) \<and> (\<forall>n. r = AtRetry n \<longrightarrow> n \<noteq> 0) \<and>
     (cmd_file isWin resolved \<and> (\<forall>n. n \<noteq> 0 \<longrightarrow> isCompileError isWin resolved n) \<longrightarrow> (\<forall>n. r \<noteq> AtRetry n))"

lemma caught_fits:
  assumes "r = caught isWin resolved b st"
  shows "(r = AtDone \<longleftrightarrow> st = Some 0) \<and> (\<forall>n. r = AtExit n \<longrightarrow> n \<noteq> 0) \<and> (\<forall>n. r = AtRetry n \<longrightarrow> n \<noteq> 0) \<and>
    ((\<forall>n. n \<noteq> 0 \<longrightarrow> isCompileError isWin resolved n) \<longrightarrow> (\<forall>n. r \<noteq> AtRetry n))"
  using assms by (auto simp: caught_def Let_def split: if_splits)

lemma sh_attempt_does:
  assumes "run_state (sh_attempt isWin os retries resolved args attempt) t = (r, t')"
  shows "\<exists>e. t' = t @ pause_before attempt @ [e] \<and> sh_run isWin resolved args e \<and> attempt_fits isWin resolved e r"
proof -
  obtain t0 where t0: "run_state (if attempt > 0 then sleepSync (min (RETRY_BACKOFF_MS * attempt) MAX_RETRY_BACKOFF_MS)
      else State_Monad.return ()) t = ((), t0)" "t0 = t @ pause_before attempt"
    by (auto simp: sleepSync_def pause_before_def)
  show ?thesis
  proof (cases "cmd_file isWin resolved")
    case True
    define x where "x = os_exec os t0 (cmd_line resolved (map escapeArg args))"
    have r: "r = (case x of ExecDone out \<Rightarrow> AtDone | ExecFailed st \<Rightarrow> caught isWin resolved (retries \<le> attempt) st)"
      "t' = t0 @ [Exec (cmd_line resolved (map escapeArg args)) x]"
      using assms t0(1) True by (simp_all add: sh_attempt_def execSync_def x_def)
    have "attempt_fits isWin resolved (Exec (cmd_line resolved (map escapeArg args)) x) r"
      using r(1) caught_fits [OF refl, of isWin resolved "retries \<le> attempt"]
      by (cases x) (simp_all add: attempt_fits_def sh_ok_def)
    then show ?thesis using r(2) t0(2) True by (auto simp: sh_run_def)
  next
    case False
    define x where "x = os_spawn os t0 resolved args"
    have r: "r = (case x of
            SpawnThrew \<Rightarrow> caught isWin resolved (retries \<le> attempt) None
          | Spawned st out err \<Rightarrow>
              if status_or_one st = 0 then AtDone
              else if err then (if attempt < retries then AtRetry (status_or_one st) else AtExit 1)
              else if isCompileError isWin resolved (status_or_one st) then AtExit (status_or_one st)
              else AtRetry (status_or_one st))"
      "t' = t0 @ [Spawn resolved args x]"
      using assms t0(1) False by (simp_all add: sh_attempt_def spawnSync_def x_def)
    have "attempt_fits isWin resolved (Spawn resolved args x) r"
    proof (cases x)
      case SpawnThrew
      then show ?thesis
        using r(1) caught_fits [OF refl, of isWin resolved "retries \<le> attempt" None] False
        by (simp add: attempt_fits_def sh_ok_def ok_status_def)
    next
      case (Spawned st out err)
      then show ?thesis using r(1) False by (simp add: attempt_fits_def sh_ok_def ok_status_def)
    qed
    then show ?thesis using r(2) t0(2) False by (auto simp: sh_run_def)
  qed
qed

lemma sh_loop_does:
  assumes "run_state (sh_loop isWin os retries resolved args lastStatus attempts) t = (r, t')" "attempts \<noteq> []" "lastStatus \<noteq> 0"
  shows "\<exists>es. t' = t @ es \<and> es \<noteq> [] \<and> length (filter is_run es) \<le> length attempts \<and>
    weight sleep_of es \<le> sum_list (map (\<lambda>i. weight sleep_of (pause_before i)) attempts) \<and>
    sh_run isWin resolved args (last es) \<and>
    (r = Done () \<longleftrightarrow> sh_ok (last es)) \<and> (\<forall>m. r \<noteq> Threw m) \<and> (\<forall>n. r = Exited n \<longrightarrow> n \<noteq> 0) \<and>
    (cmd_file isWin resolved \<and> (\<forall>n. n \<noteq> 0 \<longrightarrow> isCompileError isWin resolved n) \<longrightarrow> length (filter is_run es) = 1)"
  using assms
proof (induction attempts arbitrary: lastStatus t)
  case (Cons a as)
  obtain x t1 where x: "run_state (sh_attempt isWin os retries resolved args a) t = (x, t1)" by fastforce
  obtain e where e: "t1 = t @ pause_before a @ [e]" "sh_run isWin resolved args e" "attempt_fits isWin resolved e x"
    using sh_attempt_does [OF x] by blast
  have one: "filter is_run (pause_before a) = []" "is_run e" "sleep_of e = 0"
    using sh_run_simps [OF e(2)] by (auto simp: pause_before_def)
  show ?case
  proof (cases "\<exists>n. x = AtRetry n \<and> as \<noteq> []")
    case True
    then obtain n where n: "x = AtRetry n" "as \<noteq> []" by blast
    have "run_state (sh_loop isWin os retries resolved args n as) t1 = (r, t')" using Cons.prems(1) x n by simp
    moreover have "n \<noteq> 0" using e(3) n by (simp add: attempt_fits_def)
    ultimately obtain es where es: "t' = t1 @ es" "es \<noteq> []" "length (filter is_run es) \<le> length as"
      "weight sleep_of es \<le> sum_list (map (\<lambda>i. weight sleep_of (pause_before i)) as)" "sh_run isWin resolved args (last es)"
      "r = Done () \<longleftrightarrow> sh_ok (last es)" "\<forall>m. r \<noteq> Threw m" "\<forall>n. r = Exited n \<longrightarrow> n \<noteq> 0"
      using Cons.IH n(2) by blast
    have "\<not> (cmd_file isWin resolved \<and> (\<forall>n. n \<noteq> 0 \<longrightarrow> isCompileError isWin resolved n))"
      using e(3) n(1) by (auto simp: attempt_fits_def)
    then show ?thesis
      using es e(1) one by (intro exI [of _ "(pause_before a @ [e]) @ es"]) auto
  next
    case False
    have "run_state (case x of AtDone \<Rightarrow> State_Monad.return (Done ()) | AtExit n \<Rightarrow> exit_with n
        | AtRetry n \<Rightarrow> exit_with n) t1 = (r, t')"
      using Cons.prems(1) x False by (cases x) auto
    then have "t' = t1" "r = Done () \<longleftrightarrow> x = AtDone" "\<forall>m. r \<noteq> Threw m" "\<forall>n. r = Exited n \<longrightarrow> x = AtExit n \<or> x = AtRetry n"
      by (cases x; auto)+
    then show ?thesis
      using e one by (intro exI [of _ "pause_before a @ [e]"]) (auto simp: attempt_fits_def)
  qed
qed simp

lemma backoff_bound: "sum_list (map (\<lambda>i. weight sleep_of (pause_before i)) [0..<Suc retries]) \<le> 3000 * retries"
proof (induction retries)
  case 0
  then show ?case by (simp add: pause_before_def)
next
  case (Suc n)
  have "weight sleep_of (pause_before (Suc n)) \<le> 3000" by (simp add: pause_before_def MAX_RETRY_BACKOFF_MS_def)
  then show ?case using Suc by (simp del: upt_Suc add: upt_Suc_append)
qed

text \<open>
  Further fact: a command of the build is run at least once and at most one time more than its
  retries, with at most three seconds of waiting per retry; the last thing done is a run of it. The
  build goes on exactly if that run succeeded, and otherwise the process ends with a status that is
  not zero.
\<close>

theorem sh_is_bounded:
  assumes "run_state (sh isWin os cmd args retries) t = (r, t')"
  shows "\<exists>es. t' = t @ es \<and> es \<noteq> [] \<and> length (filter is_run es) \<le> Suc retries \<and>
    weight sleep_of es \<le> 3000 * retries \<and> sh_run isWin (resolveCmd isWin cmd) args (last es) \<and>
    (r = Done () \<longleftrightarrow> sh_ok (last es)) \<and> (r = Done () \<or> (\<exists>n. r = Exited n \<and> n \<noteq> 0))"
proof -
  obtain es where "t' = t @ es" "es \<noteq> []" "length (filter is_run es) \<le> length [0..<Suc retries]"
    "weight sleep_of es \<le> sum_list (map (\<lambda>i. weight sleep_of (pause_before i)) [0..<Suc retries])"
    "sh_run isWin (resolveCmd isWin cmd) args (last es)" "r = Done () \<longleftrightarrow> sh_ok (last es)" "\<forall>m. r \<noteq> Threw m"
    "\<forall>n. r = Exited n \<longrightarrow> n \<noteq> 0"
    using sh_loop_does [OF assms [unfolded sh_def]] by (auto simp del: upt_Suc)
  then show ?thesis
    using backoff_bound [of retries] by (intro exI [of _ es]) (cases r; auto simp del: upt_Suc)
qed

theorem sh_is_bounded_witness:
  "\<exists>es. snd (run_state (sh False (failing 3) ''cargo'' [''build''] 2) []) = es \<and> length (filter is_run es) \<le> 3 \<and> weight sleep_of es \<le> 6000"
proof -
  obtain r t' where r: "run_state (sh False (failing 3) ''cargo'' [''build''] 2) [] = (r, t')" by fastforce
  show ?thesis using sh_is_bounded [OF r] r by auto
qed

lemma basename_joined:
  assumes "list_all (\<lambda>c. \<not> path_sep True c) f"
  shows "base_name True (joined True [a, b, c, f]) = f"
proof -
  have "base_name True (x @ CHR 0x5C # f) = f" for x
    using assms by (simp add: base_name_def takeWhile_append path_sep_def list_all_iff)
  from this [of "a @ CHR 0x5C # b @ CHR 0x5C # c"] show ?thesis
    by (simp add: joined_def sep_def)
qed

text \<open>
  Further fact: on Windows \<open>vite\<close> and \<open>tsc\<close> are run exactly once, although the build allows a retry:
  every failure of them counts as a compilation error.
\<close>

theorem compilers_never_retry:
  assumes "tool \<in> set [''vite'', ''tsc'']" "isAbsolute True root"
    and "run_state (sh True os (localBin True root tool) args retries) t = (r, t')"
  shows "\<exists>es. t' = t @ es \<and> length (filter is_run es) = 1 \<and> (sh_ok (last es) \<longleftrightarrow> r = Done ())"
proof -
  let ?cmd = "localBin True root tool"
  have "isAbsolute True (root @ x)" for x using assms(2) by (auto simp: isAbsolute_def split: list.splits)
  then have abs: "resolveCmd True ?cmd = ?cmd"
    by (simp add: resolveCmd_def localBin_def joined_def)
  have batch: "cmd_file True ?cmd"
  proof -
    have "?cmd = (root @ sep True @ ''node_modules'' @ sep True @ ''.bin'' @ sep True @ tool) @ ''.cmd''"
      by (simp add: localBin_def joined_def)
    then show ?thesis by (simp only: cmd_file_def) (blast intro: suffixI)
  qed
  have "base_name True ?cmd = tool @ ''.cmd''"
    unfolding localBin_def using assms(1) by (intro basename_joined [THEN trans]) (auto simp: path_sep_def)
  then have "n \<noteq> 0 \<Longrightarrow> isCompileError True ?cmd n" for n
    using assms(1) by (auto simp: isCompileError_def js_lower_def lower_char_def)
  then show ?thesis
    using sh_loop_does [OF assms(3) [unfolded sh_def abs]] batch by (auto simp del: upt_Suc)
qed

theorem compilers_never_retry_witness:
  "\<exists>es. snd (run_state (sh True (failing 3) (localBin True [CHR 0x5C] ''tsc'') [] 1) []) = es \<and> length (filter is_run es) = 1"
proof -
  obtain r t' where r: "run_state (sh True (failing 3) (localBin True [CHR 0x5C] ''tsc'') [] 1) [] = (r, t')" by fastforce
  show ?thesis using compilers_never_retry [OF _ _ r] r by (auto simp: isAbsolute_def path_sep_def)
qed

subsection \<open>What a finished build has done\<close>

definition ran :: "build_env \<Rightarrow> string \<Rightarrow> string list \<Rightarrow> os_event \<Rightarrow> bool" where
  "ran env cmd args e \<longleftrightarrow> sh_run (bd_isWin env) (resolveCmd (bd_isWin env) cmd) args e \<and> sh_ok e"

definition good_file :: "string \<Rightarrow> os_event \<Rightarrow> bool" where
  "good_file path e \<longleftrightarrow> (\<exists>n. e = FileSize path (Some n) \<and> n \<noteq> 0)"

lemma sh_does: "does [ran env cmd args] (sh (bd_isWin env) os cmd args retries)"
  unfolding does_def
proof (intro allI impI)
  fix t x t'
  assume "run_state (sh (bd_isWin env) os cmd args retries) t = (Done x, t')"
  then obtain es where es: "t' = t @ es" "es \<noteq> []" "ran env cmd args (last es)"
    using sh_loop_does [of "bd_isWin env" os retries "resolveCmd (bd_isWin env) cmd" args 1 "[0..<Suc retries]" t "Done x" t']
    by (auto simp: sh_def ran_def simp del: upt_Suc)
  then show "\<exists>es. t' = t @ es \<and> in_order [ran env cmd args] es"
    unfolding in_order_single using last_in_set by blast
qed

lemma verify_does: "does [good_file path] (verifyBuildOutput os path)"
  unfolding does_def verifyBuildOutput_def existsSync_def statSync_def
  by (auto simp: good_file_def in_order_single simp del: in_order.simps split: option.splits if_splits)

lemma copy_does: "does [good_file dest] (copy_binary os src dest is)"
proof (induction "is")
  case (Cons i "is")
  show ?case unfolding copy_binary.simps
    by (intro does_bind does_if verify_does does_exit emits_rules TrueI Cons)
qed (simp add: does_exit)

lemma clean_paths_extends: "extends (clean_paths os ps)"
  by (induction ps) (auto intro!: emits_rules)

lemma simple_extends:
  "extends (checkCommand isWin os cmd args)" "extends (printVersion isWin os cmd)"
  "extends (useExistingDaemonBinary env os)" "extends (cleanBuildArtifacts env os)" "extends (ensureNodeDeps env os)"
  "extends (wait_for_binary os path is)"
proof -
  show check: "extends (checkCommand isWin os cmd args)" for cmd args
    unfolding checkCommand_def by (intro emits_rules TrueI)
  show "extends (printVersion isWin os cmd)"
    unfolding printVersion_def by (intro emits_rules TrueI)
  show "extends (useExistingDaemonBinary env os)"
    unfolding useExistingDaemonBinary_def by (intro emits_rules TrueI)
  show "extends (cleanBuildArtifacts env os)"
    unfolding cleanBuildArtifacts_def by (intro emits_rules clean_paths_extends)
  show "extends (ensureNodeDeps env os)"
    unfolding ensureNodeDeps_def if_exists_def Let_def by (intro emits_rules emits_exit_with TrueI)
  show "extends (wait_for_binary os path is)"
    by (induction "is") (auto intro!: emits_rules)
qed

lemma check_all_extends: "extends (check_all isWin os skip cmds)"
  by (induction cmds) (auto intro!: emits_rules simple_extends)

lemma verify_extends: "extends (verifyPrerequisites env os)"
  unfolding verifyPrerequisites_def by (intro emits_rules emits_exit_with check_all_extends simple_extends)

lemma cargo_does:
  "does ([ran env ''cargo'' (cargo_args env)] @ [good_file (rust_binary env)] @ [good_file (target_binary env)]) (cargo_build env os)"
proof -
  have install: "does [good_file (target_binary env)] (install_binary env os)"
    unfolding install_binary_def throw_or_def
    by (intro does_bind emits_rules TrueI) (auto split: option.splits intro: does_throw copy_does)
  show ?thesis
    unfolding cargo_build_def
    by (intro does_bind does_if does_exit does_then [OF sh_does] does_then [OF verify_does] install emits_rules TrueI simple_extends)
qed

lemma in_order_mono: "in_order (Es @ Es') es \<Longrightarrow> in_order Es' es"
proof (induction Es arbitrary: es)
  case (Cons E Es)
  then obtain u e v where "es = u @ e # v" "in_order (Es @ Es') v" by auto
  then have "in_order Es' v" using Cons.IH by blast
  then show ?case using in_order_prepend [of Es' v "u @ [e]"] \<open>es = u @ e # v\<close> by simp
qed simp

lemma does_mono: "does (Es @ Es') m \<Longrightarrow> does Es' m"
  unfolding does_def using in_order_mono by blast

lemma daemon_does: "does [good_file (target_binary env)] (buildRustDaemon env os)"
  unfolding buildRustDaemon_def
  by (intro does_bind does_if simple_extends verify_does does_mono [OF does_mono [OF cargo_does]])

lemma deps_return: "returns (\<lambda>(vite, tsc). vite = localBin (bd_isWin env) (bd_root env) ''vite'' \<and>
    tsc = localBin (bd_isWin env) (bd_root env) ''tsc'') (ensureNodeDeps env os)"
  unfolding returns_def ensureNodeDeps_def if_exists_def Let_def
  by (auto split: if_splits prod.splits)

lemma step_does:
  "does [ran env vite [''build'']] (buildRenderer env os vite)"
  "does [ran env tsc [''-p'', ''tsconfig.main.json''], ran env tsc [''-p'', ''tsconfig.preload.json'']] (compileTypeScript env os tsc)"
proof -
  have tail: "does [] (State_Monad.bind (existsSync os p) (\<lambda>_. State_Monad.return (Done ())))" for p
    by (rule does_extends) (intro emits_rules TrueI)
  show "does [ran env vite [''build'']] (buildRenderer env os vite)"
    unfolding buildRenderer_def using does_then [OF sh_does tail] by simp
  have config: "does [ran env tsc [''-p'', c]] (compile_config env os tsc c d)" for c d
    unfolding compile_config_def using does_then [OF sh_does tail] by simp
  show "does [ran env tsc [''-p'', ''tsconfig.main.json''], ran env tsc [''-p'', ''tsconfig.preload.json'']] (compileTypeScript env os tsc)"
    unfolding compileTypeScript_def using does_then [OF config config] by simp
qed

lemma build_main_Done: "run_state (build_main env os) t = (Done x, t') \<longleftrightarrow> run_state (build_steps env os) t = (Done x, t')"
  by (auto simp: build_main_def split: outcome.splits prod.splits)

lemma steps_do:
  "does [good_file (target_binary env),
         ran env (localBin (bd_isWin env) (bd_root env) ''vite'') [''build''],
         ran env (localBin (bd_isWin env) (bd_root env) ''tsc'') [''-p'', ''tsconfig.main.json''],
         ran env (localBin (bd_isWin env) (bd_root env) ''tsc'') [''-p'', ''tsconfig.preload.json'']] (build_steps env os)"
proof -
  let ?vite = "localBin (bd_isWin env) (bd_root env) ''vite''" and ?tsc = "localBin (bd_isWin env) (bd_root env) ''tsc''"
  have tail: "does [good_file (target_binary env), ran env ?vite [''build''],
      ran env ?tsc [''-p'', ''tsconfig.main.json''], ran env ?tsc [''-p'', ''tsconfig.preload.json'']]
    (afterwards (buildRustDaemon env os) (\<lambda>_. afterwards (buildRenderer env os ?vite) (\<lambda>_. compileTypeScript env os ?tsc)))"
    using does_then [OF daemon_does does_then [OF step_does(1) step_does(2)]] by simp
  have deps: "does ([] @ [good_file (target_binary env), ran env ?vite [''build''],
      ran env ?tsc [''-p'', ''tsconfig.main.json''], ran env ?tsc [''-p'', ''tsconfig.preload.json'']])
    (afterwards (ensureNodeDeps env os) (\<lambda>(vite, tsc).
     afterwards (buildRustDaemon env os) (\<lambda>_. afterwards (buildRenderer env os vite) (\<lambda>_. compileTypeScript env os tsc))))"
    by (rule does_afterwards [OF does_extends [OF simple_extends(5)] deps_return]) (use tail in auto)
  show ?thesis
    unfolding build_steps_def
    using does_then [OF does_extends [OF verify_extends] does_then [OF does_done_with [OF simple_extends(4)] deps]] by simp
qed

text \<open>
  Property C39: a build that ends normally has, in this order, found a daemon binary that is not empty
  in the folder of the application, built the page with \<open>vite\<close>, and compiled the main process and
  the preload script with \<open>tsc\<close>, each successfully. Otherwise the process ends with a status;
  nothing is thrown out of the script.
\<close>

theorem build_is_complete:
  "does [good_file (target_binary env),
         ran env (localBin (bd_isWin env) (bd_root env) ''vite'') [''build''],
         ran env (localBin (bd_isWin env) (bd_root env) ''tsc'') [''-p'', ''tsconfig.main.json''],
         ran env (localBin (bd_isWin env) (bd_root env) ''tsc'') [''-p'', ''tsconfig.preload.json'']] (build_main env os) \<and>
   (\<exists>x. fst (run_state (build_main env os) t) = Done () \<or> fst (run_state (build_main env os) t) = Exited x)"
proof
  show "does [good_file (target_binary env),
         ran env (localBin (bd_isWin env) (bd_root env) ''vite'') [''build''],
         ran env (localBin (bd_isWin env) (bd_root env) ''tsc'') [''-p'', ''tsconfig.main.json''],
         ran env (localBin (bd_isWin env) (bd_root env) ''tsc'') [''-p'', ''tsconfig.preload.json'']] (build_main env os)"
    using steps_do unfolding does_def build_main_Done .
  show "\<exists>x. fst (run_state (build_main env os) t) = Done () \<or> fst (run_state (build_main env os) t) = Exited x"
    by (cases "fst (run_state (build_steps env os) t)") (auto simp: build_main_def split: prod.splits outcome.splits)
qed

subsection \<open>Cleaning removes the binary that was to be kept\<close>

text \<open>
  The folder of the binary is there until it is removed, its removal works, and the binary is not
  there again before it is copied.
\<close>

definition kept_binary :: "build_env \<Rightarrow> os \<Rightarrow> bool" where
  "kept_binary env os \<longleftrightarrow>
     (\<forall>t. (\<forall>th. Fs (RemoveTree (assets_bin env)) th \<notin> set t) \<longrightarrow> os_exists os t (assets_bin env)) \<and>
     (\<forall>t. os_fs os t (RemoveTree (assets_bin env)) = None) \<and>
     (\<forall>t. Fs (RemoveTree (assets_bin env)) None \<in> set t \<longrightarrow> (\<forall>s th. Fs (CopyFile s (target_binary env)) th \<notin> set t) \<longrightarrow>
        \<not> os_exists os t (target_binary env))"

lemma afterwards_Done:
  assumes "run_state (afterwards m f) t = (Done y, t')"
  obtains x t1 where "run_state m t = (Done x, t1)" "run_state (f x) t1 = (Done y, t')"
  using assms by (auto simp: run_afterwards split: prod.splits outcome.splits)

lemma clean_removes:
  assumes "kept_binary env os" "assets_bin env \<in> set ps" "run_state (clean_paths os ps) t = (x, t')"
    "Fs (RemoveTree (assets_bin env)) None \<in> set t \<or> (\<forall>th. Fs (RemoveTree (assets_bin env)) th \<notin> set t)"
  shows "Fs (RemoveTree (assets_bin env)) None \<in> set t'"
  using assms(2,3,4)
proof (induction ps arbitrary: t)
  case (Cons p ps)
  define t1 where "t1 = t @ [Exists p (os_exists os t p)]"
  define t2 where "t2 = (if os_exists os t p then t1 @ [Fs (RemoveTree p) (os_fs os t1 (RemoveTree p))] else t1)"
  have r: "run_state (clean_paths os ps) t2 = (x, t')"
    using Cons.prems(2) by (auto simp: existsSync_def fsSync_def t1_def t2_def split: if_splits)
  have grow: "\<exists>es. t' = t2 @ es"
    using emits_run [OF clean_paths_extends r] by blast
  have there: "os_exists os t (assets_bin env)" if "\<forall>th. Fs (RemoveTree (assets_bin env)) th \<notin> set t"
    using assms(1) that unfolding kept_binary_def by blast
  have works: "os_fs os u (RemoveTree (assets_bin env)) = None" for u
    using assms(1) unfolding kept_binary_def by blast
  show ?case
  proof (cases "p = assets_bin env")
    case True
    then have "Fs (RemoveTree (assets_bin env)) None \<in> set t2"
      using Cons.prems(3) there works by (auto simp: t1_def t2_def)
    then show ?thesis using grow by auto
  next
    case False
    then show ?thesis
      using Cons.IH [OF _ r] Cons.prems(1,3) by (auto simp: t1_def t2_def)
  qed
qed simp

text \<open>Nothing before the build of the daemon copies a file.\<close>

definition no_copy :: "os_event \<Rightarrow> bool" where
  "no_copy e \<longleftrightarrow> (case e of Fs f th \<Rightarrow> (case f of CopyFile a b \<Rightarrow> False | _ \<Rightarrow> True) | _ \<Rightarrow> True)"

lemma before_daemon_copies_nothing:
  "emits no_copy (verifyPrerequisites env os)" "emits no_copy (cleanBuildArtifacts env os)" "emits no_copy (ensureNodeDeps env os)"
proof -
  have check: "emits no_copy (check_all isWin os skip cmds)" for isWin skip cmds
    by (induction cmds) (auto simp: checkCommand_def printVersion_def no_copy_def intro!: emits_rules)
  show "emits no_copy (verifyPrerequisites env os)"
    unfolding verifyPrerequisites_def useExistingDaemonBinary_def
    by (intro emits_rules emits_exit_with check) (simp_all add: no_copy_def)
  have paths: "emits no_copy (clean_paths os ps)" for ps
    by (induction ps) (auto simp: no_copy_def intro!: emits_rules)
  show "emits no_copy (cleanBuildArtifacts env os)"
    unfolding cleanBuildArtifacts_def by (intro emits_rules paths)
  show "emits no_copy (ensureNodeDeps env os)"
    unfolding ensureNodeDeps_def if_exists_def Let_def
    by (intro emits_rules emits_exit_with) (simp_all add: no_copy_def)
qed

lemma first_step_keeps:
  assumes "run_state (verifyPrerequisites env os) t = (x, t')"
  shows "\<exists>es. t' = t @ es \<and> (\<forall>p th. Fs (RemoveTree p) th \<notin> set es)"
proof -
  let ?N = "\<lambda>e. \<forall>p th. e \<noteq> Fs (RemoveTree p) th"
  have check: "emits ?N (check_all isWin os skip cmds)" for isWin skip cmds
    by (induction cmds) (auto simp: checkCommand_def printVersion_def intro!: emits_rules)
  have "emits ?N (verifyPrerequisites env os)"
    unfolding verifyPrerequisites_def useExistingDaemonBinary_def
    by (intro emits_rules emits_exit_with check) simp_all
  from emits_run [OF this assms] show ?thesis by blast
qed

text \<open>
  Further fact: cleaning defeats the variable that only_asks to use the existing daemon binary. With it the
  check of the prerequisites leaves out \<open>cargo\<close> because the binary is there; the clean-up then
  removes the folder with the binary, and the daemon is built after all: whatever that variable
  says, no build that cleans ends normally without running \<open>cargo build\<close>.
\<close>

theorem clean_defeats_existing_binary:
  assumes "env_on (bd_CLEAN env)" "kept_binary env os" "run_state (build_main env os) [] = (Done (), t)"
  shows "\<exists>e \<in> set t. ran env ''cargo'' (cargo_args env) e"
proof -
  have steps: "run_state (build_steps env os) [] = (Done (), t)" using assms(3) by (simp add: build_main_Done)
  obtain x1 t1 where 1: "run_state (verifyPrerequisites env os) [] = (Done x1, t1)"
    and r1: "run_state (afterwards (done_with (cleanBuildArtifacts env os)) (\<lambda>_.
     afterwards (ensureNodeDeps env os) (\<lambda>(vite, tsc).
     afterwards (buildRustDaemon env os) (\<lambda>_.
     afterwards (buildRenderer env os vite) (\<lambda>_. compileTypeScript env os tsc))))) t1 = (Done (), t)"
    using steps unfolding build_steps_def by (rule afterwards_Done)
  obtain x2 t2 where 2: "run_state (done_with (cleanBuildArtifacts env os)) t1 = (Done x2, t2)"
    and r2: "run_state (afterwards (ensureNodeDeps env os) (\<lambda>(vite, tsc).
     afterwards (buildRustDaemon env os) (\<lambda>_.
     afterwards (buildRenderer env os vite) (\<lambda>_. compileTypeScript env os tsc)))) t2 = (Done (), t)"
    using r1 by (rule afterwards_Done)
  obtain x3 t3 where 3: "run_state (ensureNodeDeps env os) t2 = (Done x3, t3)"
    and r3: "run_state (afterwards (buildRustDaemon env os) (\<lambda>_.
     afterwards (buildRenderer env os (fst x3)) (\<lambda>_. compileTypeScript env os (snd x3)))) t3 = (Done (), t)"
    using r2 by (rule afterwards_Done) (simp add: case_prod_beta)
  have c2: "run_state (cleanBuildArtifacts env os) t1 = (x2, t2)" using 2 by (simp add: prod_eq_iff)
  obtain e1 where e1: "t1 = e1" "\<forall>e \<in> set e1. no_copy e" using emits_run [OF before_daemon_copies_nothing(1) 1] by auto
  obtain e2 where e2: "t2 = t1 @ e2" "\<forall>e \<in> set e2. no_copy e" using emits_run [OF before_daemon_copies_nothing(2) c2] by blast
  obtain e3 where e3: "t3 = t2 @ e3" "\<forall>e \<in> set e3. no_copy e" using emits_run [OF before_daemon_copies_nothing(3) 3] by blast
  have "\<forall>th. Fs (RemoveTree (assets_bin env)) th \<notin> set t1" using first_step_keeps [OF 1] by auto
  moreover have "assets_bin env \<in> set (pathsToClean env)" by (simp add: pathsToClean_def assets_bin_def)
  ultimately have "Fs (RemoveTree (assets_bin env)) None \<in> set t2"
    using clean_removes [OF assms(2), of "pathsToClean env" t1 x2 t2] c2 assms(1) by (simp add: cleanBuildArtifacts_def)
  then have "Fs (RemoveTree (assets_bin env)) None \<in> set t3" using e3(1) by simp
  moreover have "Fs (CopyFile s (target_binary env)) th \<notin> set t3" for s th
    using e1 e2 e3 by (auto simp: no_copy_def)
  ultimately have gone: "\<not> os_exists os t3 (target_binary env)" using assms(2) unfolding kept_binary_def by blast
  obtain x4 t4 where 4: "run_state (buildRustDaemon env os) t3 = (Done x4, t4)"
    and r4: "run_state (afterwards (buildRenderer env os (fst x3)) (\<lambda>_. compileTypeScript env os (snd x3))) t4 = (Done (), t)"
    using r3 by (rule afterwards_Done)
  obtain u where "run_state (cargo_build env os) u = (Done x4, t4)"
    using 4 gone by (auto simp: buildRustDaemon_def useExistingDaemonBinary_def existsSync_def split: if_splits)
  then obtain es where es: "t4 = u @ es" "in_order [ran env ''cargo'' (cargo_args env), good_file (rust_binary env), good_file (target_binary env)] es"
    using cargo_does [of env os] unfolding does_def append_Cons append_Nil by blast
  have "does ([ran env (fst x3) [''build'']] @ [ran env (snd x3) [''-p'', ''tsconfig.main.json''],
      ran env (snd x3) [''-p'', ''tsconfig.preload.json'']])
      (afterwards (buildRenderer env os (fst x3)) (\<lambda>_. compileTypeScript env os (snd x3)))"
    by (rule does_then [OF step_does(1) step_does(2)])
  then have "\<exists>v. t = t4 @ v" using r4 unfolding does_def by blast
  then show ?thesis using es by auto
qed

definition kept_env :: build_env where
  "kept_env = \<lparr> bd_isWin = False, bd_root = ''/d'', bd_repo = ''/r'', bd_USE_EXISTING = Some ''1'', bd_CLEAN = Some ''1'',
     bd_BUILD_MODE = None \<rparr>"

definition BIN :: string where "BIN = ''/d/assets/bin''"
definition DAEMON :: string where "DAEMON = ''/d/assets/bin/orc-daemon''"

text \<open>A machine on which everything is installed.\<close>

definition is_copy :: "os_event \<Rightarrow> bool" where
  "is_copy e \<longleftrightarrow> (case e of Fs f th \<Rightarrow> (case f of CopyFile a b \<Rightarrow> b = DAEMON | _ \<Rightarrow> False) | _ \<Rightarrow> False)"

definition is_wipe :: "os_event \<Rightarrow> bool" where
  "is_wipe e \<longleftrightarrow> (case e of Fs f th \<Rightarrow> (case f of RemoveTree a \<Rightarrow> a = BIN | _ \<Rightarrow> False) | _ \<Rightarrow> False)"

definition workshop :: os where
  "workshop = obedient\<lparr> os_spawn := (\<lambda>t c args. Spawned (Some 0) [] False), os_size := (\<lambda>t p. Some 1),
     os_exists := (\<lambda>t p. if p = DAEMON then \<not> list_ex is_wipe t \<or> list_ex is_copy t
       else if p = BIN then \<not> list_ex is_wipe t else True) \<rparr>"

lemma kept_paths: "assets_bin kept_env = BIN" "target_binary kept_env = DAEMON"
  "rust_binary kept_env = ''/r/crates/target/release/orc-daemon''"
  by (simp_all add: assets_bin_def target_binary_def rust_binary_def daemon_file_def kept_env_def joined_def sep_def BIN_def DAEMON_def)

lemma workshop_simps [simp]:
  "os_spawn workshop t c args = Spawned (Some 0) [] False" "os_fs workshop t f = None" "os_size workshop t p = Some 1"
  by (simp_all add: workshop_def obedient_def)

lemma workshop_exists:
  "os_exists workshop t DAEMON \<longleftrightarrow> \<not> list_ex is_wipe t \<or> list_ex is_copy t"
  "os_exists workshop t BIN \<longleftrightarrow> \<not> list_ex is_wipe t"
  "p \<noteq> DAEMON \<Longrightarrow> p \<noteq> BIN \<Longrightarrow> os_exists workshop t p"
proof -
  have "DAEMON \<noteq> BIN" by (simp add: DAEMON_def BIN_def)
  then show "os_exists workshop t DAEMON \<longleftrightarrow> \<not> list_ex is_wipe t \<or> list_ex is_copy t"
    "os_exists workshop t BIN \<longleftrightarrow> \<not> list_ex is_wipe t"
    "p \<noteq> DAEMON \<Longrightarrow> p \<noteq> BIN \<Longrightarrow> os_exists workshop t p"
    by (simp_all add: workshop_def)
qed

lemma sh_works:
  "run_state (sh False workshop cmd args n) t = (Done (), t @ [Spawn (resolveCmd False cmd) args (Spawned (Some 0) [] False)])"
  by (simp add: sh_def upt_conv_Cons sh_attempt_def cmd_file_def spawnSync_def status_or_one_def del: upt_Suc)

lemma workshop_checks:
  "run_state (checkCommand False workshop cmd args) t = (True, t @ [Spawn (resolveCmd False cmd) args (Spawned (Some 0) [] False)])"
  "run_state (printVersion False workshop cmd) t = ((), t @ [Spawn (resolveCmd False cmd) [''--version''] (Spawned (Some 0) [] False)])"
  by (simp_all add: checkCommand_def printVersion_def spawnSync_def ok_status_def)

lemma workshop_prepares:
  "\<exists>t'. run_state (verifyPrerequisites kept_env workshop) [] = (Done (), t') \<and> \<not> list_ex is_wipe t' \<and> \<not> list_ex is_copy t'"
  "\<exists>t'. run_state (cleanBuildArtifacts kept_env workshop) t = ((), t')"
  "\<exists>t'. run_state (ensureNodeDeps kept_env workshop) t = (Done (localBin False ''/d'' ''vite'', localBin False ''/d'' ''tsc''), t')"
proof -
  show "\<exists>t'. run_state (verifyPrerequisites kept_env workshop) [] = (Done (), t') \<and> \<not> list_ex is_wipe t' \<and> \<not> list_ex is_copy t'"
    by (simp add: verifyPrerequisites_def useExistingDaemonBinary_def kept_paths existsSync_def workshop_checks
        workshop_exists is_wipe_def is_copy_def kept_env_def [THEN arg_cong, of bd_isWin] kept_env_def [THEN arg_cong, of bd_USE_EXISTING])
  show "\<exists>t'. run_state (cleanBuildArtifacts kept_env workshop) t = ((), t')" by (metis old.unit.exhaust prod.exhaust)
  have "localBin False ''/d'' x \<noteq> DAEMON" "localBin False ''/d'' x \<noteq> BIN" for x
    by (simp_all add: localBin_def joined_def sep_def DAEMON_def BIN_def)
  then show "\<exists>t'. run_state (ensureNodeDeps kept_env workshop) t = (Done (localBin False ''/d'' ''vite'', localBin False ''/d'' ''tsc''), t')"
    by (simp add: ensureNodeDeps_def Let_def if_exists_def existsSync_def workshop_exists
        kept_env_def [THEN arg_cong, of bd_isWin] kept_env_def [THEN arg_cong, of bd_root])
qed

lemma workshop_daemon: "\<exists>t'. run_state (buildRustDaemon kept_env workshop) t = (Done (), t')"
proof -
  have kept: "bd_isWin kept_env = False" "bd_repo kept_env = ''/r''" by (simp_all add: kept_env_def)
  have verify: "run_state (verifyBuildOutput workshop p) u = (Done (), u @ [Exists p True, FileSize p (Some 1)])"
    if "os_exists workshop u p" for p u
    using that by (simp add: verifyBuildOutput_def existsSync_def statSync_def)
  have rust: "''/r/crates/target/release/orc-daemon'' \<noteq> DAEMON" "''/r/crates/target/release/orc-daemon'' \<noteq> BIN"
    "''/r/crates'' \<noteq> DAEMON" "''/r/crates'' \<noteq> BIN"
    by (simp_all add: DAEMON_def BIN_def)
  have install: "\<exists>t'. run_state (install_binary kept_env workshop) u = (Done (), t')" for u
    by (simp add: install_binary_def kept_paths existsSync_def fsSync_def throw_or_def COPY_RETRY_ATTEMPTS_def upt_conv_Cons
        verify workshop_exists(1) is_copy_def)
  have cargo: "\<exists>t'. run_state (cargo_build kept_env workshop) u = (Done (), t')" for u
  proof -
    obtain v where v: "run_state (wait_for_binary workshop ''/r/crates/target/release/orc-daemon'' [0..<BINARY_WAIT_ATTEMPTS]) u' = (True, v u')" for u'
      using rust by (simp add: BINARY_WAIT_ATTEMPTS_def upt_conv_Cons existsSync_def workshop_exists)
    note w = verify [OF workshop_exists(3) [OF rust(1,2)]]
    have dir: "os_exists workshop u' ''/r/crates''" for u' using workshop_exists(3) [OF rust(3,4)] .
    show ?thesis
      using install by (simp add: cargo_build_def kept kept_paths workshop_checks existsSync_def dir joined_def sep_def run_afterwards sh_works v w)
  qed
  show ?thesis
    using cargo verify [of _ DAEMON]
    by (cases "os_exists workshop t DAEMON")
      (simp_all add: buildRustDaemon_def useExistingDaemonBinary_def kept_paths existsSync_def
        kept_env_def [THEN arg_cong, of bd_USE_EXISTING] workshop_exists is_wipe_def is_copy_def)
qed

lemma workshop_builds: "\<exists>t. run_state (build_main kept_env workshop) [] = (Done (), t)"
proof -
  have win: "bd_isWin kept_env = False" by (simp add: kept_env_def)
  obtain t1 where 1: "run_state (verifyPrerequisites kept_env workshop) [] = (Done (), t1)" using workshop_prepares(1) by blast
  obtain t2 where 2: "run_state (cleanBuildArtifacts kept_env workshop) t1 = ((), t2)" using workshop_prepares(2) by blast
  obtain t3 where 3: "run_state (ensureNodeDeps kept_env workshop) t2 =
      (Done (localBin False ''/d'' ''vite'', localBin False ''/d'' ''tsc''), t3)" using workshop_prepares(3) by blast
  obtain t4 where 4: "run_state (buildRustDaemon kept_env workshop) t3 = (Done (), t4)" using workshop_daemon by blast
  have "\<exists>t. run_state (afterwards (buildRenderer kept_env workshop v) (\<lambda>_. compileTypeScript kept_env workshop c)) t4 = (Done (), t)" for v c
    by (simp add: buildRenderer_def compileTypeScript_def compile_config_def win run_afterwards sh_works existsSync_def)
  then show ?thesis
    unfolding build_main_Done build_steps_def by (simp add: run_afterwards 1 2 3 4 del: run_done_with add: done_with_def)
qed

theorem clean_defeats_existing_binary_witness:
  "\<exists>t. run_state (build_main kept_env workshop) [] = (Done (), t) \<and> (\<exists>e \<in> set t. ran kept_env ''cargo'' (cargo_args kept_env) e)"
proof -
  have kept: "kept_binary kept_env workshop"
    unfolding kept_binary_def kept_paths
    by (auto simp: workshop_exists list_ex_iff is_wipe_def is_copy_def split: os_event.splits fs_op.splits)
  have "env_on (bd_CLEAN kept_env)" by (simp add: kept_env_def env_on_def)
  then show ?thesis using workshop_builds clean_defeats_existing_binary [OF _ kept] by blast
qed

end
