(* ===== verification/DevServer.thy ===== *)
theory DevServer
  imports Packaging
begin

text \<open>
  \<open>scripts/dev.ts\<close>: the development server. Children are numbered in the order in which they are
  started; their exits, signals to the script and its timer are events, and what the script does
  (children started, signals sent, its own exit) is recorded in order. Node calls the listeners of
  an exit in the order of their registration: first the one of \<open>run\<close>, then those of its callers.
\<close>

datatype sig = SIGINT | SIGKILL

datatype dev_act = Start nat string "string list" | Kill nat sig | ExitWith int

datatype dev_phase = Waiting | Running

record dev =
  dv_processes :: "nat list"
  dv_next :: nat
  dv_phase :: dev_phase
  dv_timers :: nat
  dv_exited :: bool
  dv_acts :: "dev_act list"

text \<open>The command and arguments \<open>spawn\<close> gets.\<close>

definition dev_command :: "bool \<Rightarrow> string \<Rightarrow> string list \<Rightarrow> string \<times> string list" where
  "dev_command isWin cmd args =
     (if isWin \<and> (cmd = ''npx'' \<or> cmd = ''npm'') then (cmd @ '' '' @ js_join '' '' (map quote_arg args), [])
      else (cmd, args))"

definition dev_run :: "bool \<Rightarrow> string list \<Rightarrow> dev \<Rightarrow> nat \<times> dev" where
  "dev_run isWin args s =
     (let c = dev_command isWin ''npx'' args in
      (dv_next s, s\<lparr> dv_next := Suc (dv_next s), dv_acts := dv_acts s @ [Start (dv_next s) (fst c) (snd c)] \<rparr>))"

definition trackProcess :: "nat \<times> dev \<Rightarrow> dev" where
  "trackProcess ps = (case ps of (p, s) \<Rightarrow> s\<lparr> dv_processes := dv_processes s @ [p] \<rparr>)"

text \<open>The tracked children get the numbers 0, 1 and 2, the one that waits for the page 3.\<close>

definition waiter :: nat where "waiter = 3"

definition dev_begin :: "bool \<Rightarrow> dev" where
  "dev_begin isWin =
     (let s0 = \<lparr> dv_processes = [], dv_next = 0, dv_phase = Waiting, dv_timers = 0, dv_exited = False, dv_acts = [] \<rparr>;
          s1 = trackProcess (dev_run isWin [''tsc'', ''-p'', ''tsconfig.main.json'', ''--watch'', ''--preserveWatchOutput''] s0);
          s2 = trackProcess (dev_run isWin [''tsc'', ''-p'', ''tsconfig.preload.json'', ''--watch'', ''--preserveWatchOutput''] s1);
          s3 = trackProcess (dev_run isWin [''vite'', ''--port'', ''5173''] s2) in
      snd (dev_run isWin [''wait-on'', ''http://127.0.0.1:5173''] s3))"

definition process_exit :: "int \<Rightarrow> dev \<Rightarrow> dev" where
  "process_exit n s = s\<lparr> dv_exited := True, dv_acts := dv_acts s @ [ExitWith n] \<rparr>"

definition kill_tracked :: "sig \<Rightarrow> dev \<Rightarrow> dev" where
  "kill_tracked g s = s\<lparr> dv_acts := dv_acts s @ map (\<lambda>p. Kill p g) (dv_processes s) \<rparr>"

definition shutdown :: "dev \<Rightarrow> dev" where
  "shutdown s = (kill_tracked SIGINT s)\<lparr> dv_timers := Suc (dv_timers s) \<rparr>"

text \<open>A child ends with a status, or by a signal.\<close>

datatype dev_event = ChildExit nat "int option" | Interrupt | TimerFires

definition child_exit :: "bool \<Rightarrow> nat \<Rightarrow> int option \<Rightarrow> dev \<Rightarrow> dev" where
  "child_exit isWin p code s =
     (if (\<exists>c. code = Some c \<and> c \<noteq> 0) then process_exit (the code) s
      else if p = waiter then
        (if code = Some 0 then trackProcess (dev_run isWin [''electron'', ''.''] (s\<lparr> dv_phase := Running \<rparr>))
         else process_exit 1 (kill_tracked SIGINT s))
      else s\<lparr> dv_processes := remove1 p (dv_processes s) \<rparr>)"

definition dev_step :: "bool \<Rightarrow> dev \<Rightarrow> dev_event \<Rightarrow> dev" where
  "dev_step isWin s ev =
     (if dv_exited s then s
      else (case ev of
          ChildExit p code \<Rightarrow> child_exit isWin p code s
        | Interrupt \<Rightarrow> if dv_phase s = Running then shutdown s
            else s\<lparr> dv_exited := True \<rparr>
        | TimerFires \<Rightarrow> if dv_timers s > 0 then process_exit 0 (kill_tracked SIGKILL s) else s))"

abbreviation dev_session :: "bool \<Rightarrow> dev_event list \<Rightarrow> dev" where
  "dev_session isWin evs \<equiv> fold (\<lambda>ev s. dev_step isWin s ev) evs (dev_begin isWin)"

section \<open>Properties\<close>

text \<open>The children that have been started, and those that have ended.\<close>

definition started :: "dev \<Rightarrow> nat set" where
  "started s = {..<dv_next s}"

definition ended :: "dev_event list \<Rightarrow> nat set" where
  "ended evs = {p. \<exists>code. ChildExit p code \<in> set evs}"

text \<open>Each child ends at most once, and only after it was started (latest event first).\<close>

fun sound_exits :: "bool \<Rightarrow> dev_event list \<Rightarrow> bool" where
  "sound_exits isWin [] = True"
| "sound_exits isWin (ev # evs) =
     (sound_exits isWin evs \<and> (case ev of
        ChildExit p code \<Rightarrow> p \<in> started (dev_session isWin (rev evs)) \<and> p \<notin> ended evs
      | _ \<Rightarrow> True))"

definition dev_inv :: "dev_event list \<Rightarrow> dev \<Rightarrow> bool" where
  "dev_inv evs s \<longleftrightarrow> distinct (dv_processes s) \<and> set (dv_processes s) = started s - {waiter} - ended evs \<and>
     ended evs \<subseteq> started s \<and> waiter < dv_next s \<and>
     (dv_phase s = Waiting \<longrightarrow> (\<forall>p g. Kill p g \<notin> set (dv_acts s)))"

lemma dev_inv_begin: "dev_inv [] (dev_begin isWin)"
  by (auto simp: dev_inv_def dev_begin_def Let_def trackProcess_def dev_run_def started_def ended_def waiter_def)

lemma ended_Cons: "ended (ChildExit p code # evs) = insert p (ended evs)" "ended (Interrupt # evs) = ended evs"
  "ended (TimerFires # evs) = ended evs"
  by (auto simp: ended_def)

lemma dev_inv_step:
  assumes "dev_inv evs s" "\<not> dv_exited s"
    and "\<And>p code. ev = ChildExit p code \<Longrightarrow> p \<in> started s \<and> p \<notin> ended evs"
  shows "dv_exited (dev_step isWin s ev) \<or> dev_inv (ev # evs) (dev_step isWin s ev)"
proof (cases ev)
  case (ChildExit p code)
  show ?thesis
  proof (cases "(\<exists>c. code = Some c \<and> c \<noteq> 0) \<or> p = waiter \<and> code \<noteq> Some 0")
    case True
    then show ?thesis using ChildExit assms(2) by (auto simp: dev_step_def child_exit_def process_exit_def)
  next
    case False
    then show ?thesis
      using assms ChildExit
      by (cases "p = waiter")
        (auto simp: dev_step_def child_exit_def dev_inv_def trackProcess_def dev_run_def Let_def started_def ended_Cons
          less_Suc_eq)
  qed
next
  case Interrupt
  then show ?thesis using assms by (auto simp: dev_step_def shutdown_def dev_inv_def ended_Cons kill_tracked_def started_def)
next
  case TimerFires
  then show ?thesis using assms by (auto simp: dev_step_def dev_inv_def ended_Cons process_exit_def)
qed

lemma dev_session_inv:
  "sound_exits isWin evs \<Longrightarrow> dv_exited (dev_session isWin (rev evs)) \<or> dev_inv evs (dev_session isWin (rev evs))"
proof (induction evs)
  case (Cons ev evs)
  show ?case
  proof (cases "dv_exited (dev_session isWin (rev evs))")
    case True
    then show ?thesis by (simp add: dev_step_def)
  next
    case False
    then have inv: "dev_inv evs (dev_session isWin (rev evs))" using Cons by simp
    show ?thesis using dev_inv_step [OF inv False, of ev isWin] Cons.prems by (cases ev) simp_all
  qed
qed (simp add: dev_inv_begin)

text \<open>
  Further fact: while the development server runs, the children it tracks are exactly the ones it
  started and that have not ended, apart from the one that waits for the page; so an interrupt after
  the start sends \<open>SIGINT\<close> to each of them once, and the timer \<open>SIGKILL\<close> to those still there before
  the script exits.
\<close>

theorem dev_tracks_living:
  fixes isWin evs
  defines "s \<equiv> dev_session isWin (rev evs)"
  assumes "sound_exits isWin evs" "\<not> dv_exited s"
  shows "distinct (dv_processes s) \<and> set (dv_processes s) = started s - {waiter} - ended evs \<and>
    (dv_phase s = Running \<longrightarrow> dv_acts (dev_step isWin s Interrupt) = dv_acts s @ map (\<lambda>p. Kill p SIGINT) (dv_processes s)) \<and>
    (dv_timers s > 0 \<longrightarrow> dv_acts (dev_step isWin s TimerFires) =
       dv_acts s @ map (\<lambda>p. Kill p SIGKILL) (dv_processes s) @ [ExitWith 0])"
  using dev_session_inv [OF assms(2)] assms(3)
  by (simp add: s_def dev_inv_def dev_step_def shutdown_def kill_tracked_def process_exit_def)

lemma dev_begin_simps:
  "dv_next (dev_begin isWin) = 4" "dv_processes (dev_begin isWin) = [0, 1, 2]" "\<not> dv_exited (dev_begin isWin)"
  "dv_phase (dev_begin isWin) = Waiting"
  by (simp_all add: dev_begin_def Let_def trackProcess_def dev_run_def)

theorem dev_tracks_living_witness:
  "set (dv_processes (dev_session False [ChildExit 1 (Some 0)])) = {0, 2}"
proof -
  have one: "ended [ChildExit 1 (Some 0)] = {1}" by (auto simp: ended_def)
  have sound: "sound_exits False [ChildExit 1 (Some 0)]"
    by (simp add: ended_def started_def dev_begin_simps)
  have st: "\<not> dv_exited (dev_session False (rev [ChildExit 1 (Some 0)]))"
    "started (dev_session False (rev [ChildExit 1 (Some 0)])) = {..<4}"
    by (simp_all add: dev_step_def child_exit_def waiter_def started_def dev_begin_simps)
  from dev_tracks_living [OF sound st(1)]
  have "set (dv_processes (dev_session False (rev [ChildExit 1 (Some 0)]))) =
      started (dev_session False (rev [ChildExit 1 (Some 0)])) - {waiter} - ended [ChildExit 1 (Some 0)]"
    by (elim conjE)
  also have "\<dots> = {..<4} - {waiter} - {1}" by (simp only: one st(2))
  also have "\<dots> = {0, 2}" by (auto simp: waiter_def)
  finally show ?thesis unfolding rev.simps append.simps .
qed

text \<open>
  Further fact: when the page does not come up and the child that waits for it fails with a status,
  the script exits with that status at once. The clean-up written for this case is not reached:
  none of the children that were started gets a signal.
\<close>

theorem failed_start_leaves_children:
  fixes isWin evs
  defines "s \<equiv> dev_session isWin (rev evs)"
  assumes "sound_exits isWin evs" "\<not> dv_exited s" "dv_phase s = Waiting" "n \<noteq> 0"
  shows "dv_exited (dev_step isWin s (ChildExit waiter (Some n))) \<and>
    dv_acts (dev_step isWin s (ChildExit waiter (Some n))) = dv_acts s @ [ExitWith n] \<and>
    (\<forall>p g. Kill p g \<notin> set (dv_acts (dev_step isWin s (ChildExit waiter (Some n)))))"
  using dev_session_inv [OF assms(2)] assms(3,4,5)
  by (auto simp: s_def dev_inv_def dev_step_def child_exit_def process_exit_def)

theorem failed_start_leaves_children_witness:
  "\<exists>as. dv_acts (dev_session False [ChildExit waiter (Some 1)]) = as @ [ExitWith 1]"
proof -
  have "dv_acts (dev_step False (dev_begin False) (ChildExit waiter (Some 1))) = dv_acts (dev_begin False) @ [ExitWith 1]"
    using failed_start_leaves_children [of False "[]" 1] by (simp add: dev_begin_simps)
  then show ?thesis by simp
qed

end
