(* ===== verification/Pages.thy ===== *)
theory Pages
  imports EventService Format Types
begin

text \<open>
  The event page (\<open>components/EventsPage.tsx\<close>), the tabs of the inspector that only derive what they
  show (\<open>inspector/EventsTab.tsx\<close>, \<open>inspector/TransfersTab.tsx\<close>, \<open>inspector/TorrentInspector.tsx\<close>), and
  the piece map (\<open>inspector/PiecesTab.tsx\<close>, \<open>inspector/PieceMap.tsx\<close>): how many pieces are drawn, on
  which grid and in which colour. A \<open>Set\<close> is the list of its elements in the order of insertion.
  The square root JavaScript computes in doubles is a parameter.
\<close>

subsection \<open>The event page\<close>

definition EVENT_TYPE_GROUPS :: "(string \<times> event_type list) list" where
  "EVENT_TYPE_GROUPS =
     [(''Torrent Activity'', [EvTorrentAdded, EvTorrentStarted, EvTorrentStopped, EvTorrentCompleted, EvTorrentError]),
      (''Data Integrity'', [EvPieceVerified, EvHashFailure, EvDiskIo]),
      (''Network'', [EvTrackerError, EvVpnKillSwitch, EvPeerConnected, EvPeerDisconnected])]"

record events_page =
  ep_searchQuery :: string
  ep_types :: "event_type list"
  ep_severities :: "event_severity list"
  ep_autoScroll :: bool
  ep_expanded :: "string option"

definition events_page_init :: events_page where
  "events_page_init = \<lparr> ep_searchQuery = [], ep_types = [], ep_severities = [], ep_autoScroll = True, ep_expanded = None \<rparr>"

definition filteredEvents :: "torrent_event list \<Rightarrow> events_page \<Rightarrow> torrent_event list" where
  "filteredEvents events p =
     (let r1 = (if ep_types p \<noteq> [] then filterEventsByType events (ep_types p) else events);
          r2 = (if ep_severities p \<noteq> [] then filterEventsBySeverity r1 (ep_severities p) else r1) in
      if js_trim (ep_searchQuery p) \<noteq> [] then searchEvents r2 (ep_searchQuery p) else r2)"

definition scrolls_to_top :: "torrent_event list \<Rightarrow> events_page \<Rightarrow> bool" where
  "scrolls_to_top events p \<longleftrightarrow> ep_autoScroll p \<and> events \<noteq> []"

definition set_toggle :: "'a \<Rightarrow> 'a list \<Rightarrow> 'a list" where
  "set_toggle x s = (if x \<in> set s then removeAll x s else s @ [x])"

definition handleTypeToggle :: "event_type \<Rightarrow> events_page \<Rightarrow> events_page" where
  "handleTypeToggle ty p = p\<lparr> ep_types := set_toggle ty (ep_types p) \<rparr>"

definition handleSeverityToggle :: "event_severity \<Rightarrow> events_page \<Rightarrow> events_page" where
  "handleSeverityToggle sv p = p\<lparr> ep_severities := set_toggle sv (ep_severities p) \<rparr>"

definition handleClearFilters :: "events_page \<Rightarrow> events_page" where
  "handleClearFilters p = p\<lparr> ep_types := [], ep_severities := [], ep_searchQuery := [] \<rparr>"

definition handleEventClick :: "string \<Rightarrow> events_page \<Rightarrow> events_page" where
  "handleEventClick eid p = p\<lparr> ep_expanded := (if ep_expanded p = Some eid then None else Some eid) \<rparr>"

definition hasActiveFilters :: "events_page \<Rightarrow> bool" where
  "hasActiveFilters p \<longleftrightarrow> ep_types p \<noteq> [] \<or> ep_severities p \<noteq> [] \<or> js_trim (ep_searchQuery p) \<noteq> []"

definition events_count :: "nat \<Rightarrow> nat \<Rightarrow> string" where
  "events_count shown all_of =
     (if shown = all_of then show_nat all_of @ '' event'' @ (if all_of \<noteq> 1 then ''s'' else [])
      else show_nat shown @ '' of '' @ show_nat all_of @ '' events'')"

subsection \<open>Tabs of the inspector\<close>

definition torrentEvents :: "string \<Rightarrow> torrent_event list \<Rightarrow> torrent_event list" where
  "torrentEvents tid events = filter (\<lambda>e. ev_torrentId e = Some tid) events"

datatype inspector_tab = TabOverview | TabFiles | TabPeers | TabSwarm | TabTrackers | TabTransfers | TabPieces | TabEvents

definition TABS :: "(inspector_tab \<times> string) list" where
  "TABS = [(TabOverview, ''Overview''), (TabFiles, ''Files''), (TabPeers, ''Peers''), (TabSwarm, ''Swarm''),
     (TabTrackers, ''Trackers''), (TabTransfers, ''Transfers''), (TabPieces, ''Pieces''), (TabEvents, ''Events'')]"

definition transfer_fields :: "torrent_status option \<Rightarrow> string list" where
  "transfer_fields status = (case status of
      Some s \<Rightarrow> [fmtBytesPerSec (ts_down_rate_bps s), fmtBytesPerSec (ts_up_rate_bps s), show_nat (ts_peers_seen s), DASH]
    | None \<Rightarrow> [DASH, DASH, DASH, DASH])"

subsection \<open>The piece map\<close>

definition MB :: nat where "MB = 1024 * 1024"

definition estimated_piece_size :: "nat \<Rightarrow> nat" where
  "estimated_piece_size total_bytes =
     (if total_bytes > 4 * 1024 * MB then 4 * MB
      else if total_bytes > 500 * MB then 2 * MB
      else if total_bytes > 50 * MB then 512 * 1024
      else 256 * 1024)"

definition MAX_VISUAL_PIECES :: nat where "MAX_VISUAL_PIECES = 2000"

definition estimated_pieces :: "nat \<Rightarrow> nat" where
  "estimated_pieces total_bytes =
     min (max 100 (nat (ceil_div (int total_bytes) (int (estimated_piece_size total_bytes))))) MAX_VISUAL_PIECES"

definition fetchPieces :: "bool \<Rightarrow> torrent_status option \<Rightarrow> piece_data list" where
  "fetchPieces online status = (case status of
      Some s \<Rightarrow> if online then estimatePiecesFromProgress (ts_progress s) (estimated_pieces (nat (ts_total_bytes s))) else []
    | None \<Rightarrow> [])"

record shown_piece = piece_data +
  pd_availability :: "rat option"

type_synonym color = "nat \<times> nat \<times> nat"

definition color_completed :: color where "color_completed = (0x4a, 0xde, 0x80)"
definition color_downloading :: color where "color_downloading = (0xfb, 0xbf, 0x24)"
definition color_missing :: color where "color_missing = (0xef, 0x44, 0x44)"

definition shade :: "rat \<Rightarrow> color \<Rightarrow> color" where
  "shade a c = (case c of (r, g, b) \<Rightarrow>
     let darken = 1 - max 0 (min 1 (a / 10)) * (1 / 2) in
     (nat \<lfloor>of_nat r * darken\<rfloor>, nat \<lfloor>of_nat g * darken\<rfloor>, nat \<lfloor>of_nat b * darken\<rfloor>))"

definition piece_color :: "shown_piece \<Rightarrow> color" where
  "piece_color p =
     (let base = (if pd_completed p then color_completed else if pd_downloading p then color_downloading else color_missing) in
      case pd_availability p of
        Some a \<Rightarrow> if a > 0 \<and> \<not> pd_completed p
          then shade a (if pd_downloading p then color_downloading else color_missing) else base
      | None \<Rightarrow> base)"

record grid =
  gr_cols :: nat
  gr_rows :: nat
  gr_size :: nat

text \<open>
  The number of columns is the square root of the number of pieces times the proportions, rounded
  up. JavaScript computes the quotient, the product and the root in doubles: \<open>jsroot\<close> stands for the
  value of \<open>Math.sqrt(totalPieces * aspectRatio)\<close> at the given number of pieces, width and height.
\<close>

definition piece_grid :: "(nat \<Rightarrow> nat \<Rightarrow> nat \<Rightarrow> rat) \<Rightarrow> nat \<Rightarrow> nat \<Rightarrow> nat \<Rightarrow> grid" where
  "piece_grid jsroot width height totalPieces =
     (let cols = max 1 (nat \<lceil>jsroot totalPieces width height\<rceil>);
          rows = max 1 (nat (ceil_div (int totalPieces) (int cols)));
          cellWidth = width div cols; cellHeight = (height - 30) div rows in
      \<lparr> gr_cols = cols, gr_rows = rows, gr_size = max 1 (min (min cellWidth cellHeight) 20) \<rparr>)"

record square =
  ce_color :: color
  ce_x :: nat
  ce_y :: nat
  ce_side :: nat

definition piece_cell :: "nat \<Rightarrow> nat \<Rightarrow> nat \<Rightarrow> shown_piece \<Rightarrow> square" where
  "piece_cell size' row col p =
     \<lparr> ce_color = piece_color p, ce_x = col * size', ce_y = row * size', ce_side = size' - 1 \<rparr>"

text \<open>The two loops: each row takes the next pieces, at most one per column.\<close>

fun draw_rows :: "nat \<Rightarrow> nat \<Rightarrow> nat list \<Rightarrow> shown_piece list \<Rightarrow> square list" where
  "draw_rows cols size' [] ps = []"
| "draw_rows cols size' (row # rows) ps =
     (if ps = [] then []
      else map2 (piece_cell size' row) [0..<cols] ps @ draw_rows cols size' rows (drop cols ps))"

definition draw_map :: "(nat \<Rightarrow> nat \<Rightarrow> nat \<Rightarrow> rat) \<Rightarrow> nat \<Rightarrow> nat \<Rightarrow> shown_piece list \<Rightarrow> square list" where
  "draw_map jsroot width height pieces =
     (if pieces = [] then []
      else (let g = piece_grid jsroot width height (length pieces) in
        draw_rows (gr_cols g) (gr_size g) [0..<gr_rows g] pieces))"

section \<open>Properties\<close>

subsection \<open>Filters\<close>

definition shown_event :: "events_page \<Rightarrow> torrent_event \<Rightarrow> bool" where
  "shown_event p e \<longleftrightarrow>
     type_selected (ep_types p) e \<and> severity_selected (ep_severities p) e \<and> query_matches (ep_searchQuery p) e"

lemma set_toggle_simps:
  "x \<in> set (set_toggle x s) \<longleftrightarrow> x \<notin> set s" "y \<noteq> x \<Longrightarrow> y \<in> set (set_toggle x s) \<longleftrightarrow> y \<in> set s"
  "distinct s \<Longrightarrow> distinct (set_toggle x s)"
  by (auto simp: set_toggle_def distinct_removeAll)

lemma filteredEvents_filter: "filteredEvents events p = filter (shown_event p) events"
proof -
  have "filteredEvents events p =
      searchEvents (filterEventsBySeverity (filterEventsByType events (ep_types p)) (ep_severities p)) (ep_searchQuery p)"
    by (simp add: filteredEvents_def Let_def filterEventsByType_def filterEventsBySeverity_def searchEvents_def)
  then show ?thesis
    by (simp add: filterEventsByType_eq filterEventsBySeverity_eq searchEvents_eq shown_event_def [abs_def] conj_ac)
qed

text \<open>
  Further fact: the event page shows exactly the events that pass all three filters, in their order;
  without an active filter it shows all. Pressing a filter twice changes nothing, and every type of
  event is offered under exactly one heading.
\<close>

theorem events_page_shows:
  "filteredEvents events p = filter (shown_event p) events \<and>
   (\<not> hasActiveFilters p \<longrightarrow> filteredEvents events p = events) \<and>
   \<not> hasActiveFilters (handleClearFilters p) \<and>
   filteredEvents events (handleTypeToggle ty (handleTypeToggle ty p)) = filteredEvents events p \<and>
   filteredEvents events (handleSeverityToggle sv (handleSeverityToggle sv p)) = filteredEvents events p \<and>
   distinct (concat (map snd EVENT_TYPE_GROUPS)) \<and> set (concat (map snd EVENT_TYPE_GROUPS)) = set ALL_EVENT_TYPES"
proof -
  have twice: "set (set_toggle x (set_toggle x s)) = set s" for x and s :: "'b list"
    using set_toggle_simps by (metis subsetI subset_antisym)
  have empty: "s = [] \<longleftrightarrow> set s = {}" for s :: "'b list" by simp
  have ty: "shown_event (handleTypeToggle ty (handleTypeToggle ty p)) = shown_event p"
    by (simp add: shown_event_def [abs_def] handleTypeToggle_def type_selected_def [abs_def] twice [of ty] empty del: set_empty)
  have sv: "shown_event (handleSeverityToggle sv (handleSeverityToggle sv p)) = shown_event p"
    by (simp add: shown_event_def [abs_def] handleSeverityToggle_def severity_selected_def [abs_def] twice [of sv] empty del: set_empty)
  have all: "\<not> hasActiveFilters p \<longrightarrow> filteredEvents events p = events"
    by (simp add: hasActiveFilters_def filteredEvents_def)
  have "set (concat (map snd EVENT_TYPE_GROUPS)) = set ALL_EVENT_TYPES"
    unfolding EVENT_TYPE_GROUPS_def ALL_EVENT_TYPES_def by auto
  moreover have "distinct (concat (map snd EVENT_TYPE_GROUPS))"
    by (simp add: EVENT_TYPE_GROUPS_def)
  ultimately show ?thesis
    using all by (simp add: filteredEvents_filter ty sv hasActiveFilters_def handleClearFilters_def)
qed

subsection \<open>The grid\<close>

lemma nat_ceil_div: "0 < b \<Longrightarrow> n \<le> nat (ceil_div (int n) (int b)) * b"
  "0 < b \<Longrightarrow> n \<le> k * b \<Longrightarrow> nat (ceil_div (int n) (int b)) \<le> k"
proof -
  assume b: "0 < b"
  have c: "int n \<le> ceil_div (int n) (int b) * int b \<and> (ceil_div (int n) (int b) - 1) * int b < int n"
    using ceil_div_bounds [of "int b" "int n"] b by simp
  have "0 \<le> ceil_div (int n) (int b)"
  proof (rule ccontr)
    assume "\<not> 0 \<le> ceil_div (int n) (int b)"
    then have "ceil_div (int n) (int b) * int b < 0" using b by (simp add: mult_neg_pos)
    then show False using c by linarith
  qed
  then have "int (nat (ceil_div (int n) (int b)) * b) = ceil_div (int n) (int b) * int b" by simp
  then show "n \<le> nat (ceil_div (int n) (int b)) * b" using c by linarith
  assume "n \<le> k * b"
  then have "(ceil_div (int n) (int b) - 1) * int b < int k * int b" using c by (metis of_nat_le_iff of_nat_mult order_less_le_trans)
  then have "ceil_div (int n) (int b) - 1 < int k" using b by (simp add: mult_less_cancel_right)
  then show "nat (ceil_div (int n) (int b)) \<le> k" by linarith
qed

text \<open>
  The doubles in the computation of the columns are correctly rounded, so the square of the computed
  root is off by a few units in the last of 53 places; far less is needed.
\<close>

definition near_root :: "rat \<Rightarrow> rat \<Rightarrow> bool" where
  "near_root r q \<longleftrightarrow> 0 \<le> r \<and> r * r \<le> q + q / 2 ^ 40 \<and> q \<le> r * r + q / 2 ^ 40"

lemma tab_columns:
  assumes n: "0 < n" "n \<le> 2000" and r: "near_root r (of_nat n * (800 / 170))"
  defines "c \<equiv> max 1 (nat \<lceil>r\<rceil>)"
  shows "0 < c" "c \<le> 98" "n \<le> 21 * c"
proof -
  have N: "(of_nat n :: rat) \<le> 2000" using of_nat_mono [OF n(2), where 'a = rat] by simp
  have sq: "r * r \<le> 9604" "of_nat n * (800 / 170) \<le> r * r + 1 / 1000" and r0: "0 \<le> r"
    using r N by (simp_all add: near_root_def)
  have "\<not> 98 < r"
  proof
    assume "98 < r"
    then have "98 * 98 < r * r" by (intro mult_strict_mono) auto
    then show False using sq(1) by simp
  qed
  then show c98: "c \<le> 98" unfolding c_def by (simp add: ceiling_le_iff nat_le_iff)
  show "0 < c" by (simp add: c_def)
  have "\<lceil>r\<rceil> \<le> int c" unfolding c_def by linarith
  then have rc: "r \<le> of_nat c" by (simp add: ceiling_le_iff)
  have "r * r \<le> of_nat c * of_nat c" using rc r0 by (intro mult_mono) auto
  also have "\<dots> \<le> 98 * of_nat c" using of_nat_mono [OF c98, where 'a = rat] by (intro mult_right_mono) auto
  finally have "of_nat n * (800 / 170) \<le> 98 * (of_nat c :: rat) + 1 / 1000" using sq(2) by linarith
  moreover have "(1 :: rat) \<le> of_nat c" unfolding c_def by simp
  ultimately have "(of_nat n :: rat) \<le> 21 * of_nat c" by simp
  then have "(of_nat n :: rat) \<le> of_nat (21 * c)" by simp
  then show "n \<le> 21 * c" by (simp only: of_nat_le_iff)
qed

lemma piece_grid_fits:
  assumes "0 < n" "n \<le> 2000" "near_root (jsroot n 800 200) (of_nat n * (800 / 170))"
  defines "g \<equiv> piece_grid jsroot 800 200 n"
  shows "n \<le> gr_rows g * gr_cols g" "0 < gr_cols g" "gr_cols g * gr_size g \<le> 800" "gr_rows g * gr_size g \<le> 170"
    "8 \<le> gr_size g"
proof -
  define c where "c = max 1 (nat \<lceil>jsroot n 800 200\<rceil>)"
  define r where "r = max 1 (nat (ceil_div (int n) (int c)))"
  have g: "gr_cols g = c" "gr_rows g = r" "gr_size g = max 1 (min (min (800 div c) (170 div r)) 20)"
    unfolding g_def piece_grid_def Let_def c_def r_def by simp_all
  have c: "0 < c" "c \<le> 98" "n \<le> 21 * c" using tab_columns [OF assms(1-3)] by (simp_all only: c_def)
  have r: "r \<le> 21" using nat_ceil_div(2) [OF c(1,3)] by (simp add: r_def)
  have r0: "0 < r" by (simp add: r_def)
  have "800 div 98 \<le> 800 div c" using c(1,2) by (intro div_le_mono2)
  moreover have "170 div 21 \<le> 170 div r" using r0 r by (intro div_le_mono2)
  ultimately have s: "gr_size g \<le> 800 div c" "gr_size g \<le> 170 div r" "8 \<le> gr_size g" using g(3) by auto
  show "n \<le> gr_rows g * gr_cols g"
    using order_trans [OF nat_ceil_div(1) [OF c(1), of n] mult_le_mono1 [OF max.cobounded2]] by (simp only: g r_def)
  show "0 < gr_cols g" "8 \<le> gr_size g" using c(1) s(3) g by simp_all
  show "gr_cols g * gr_size g \<le> 800"
    using order_trans [OF mult_le_mono2 [OF s(1)] times_div_less_eq_dividend] by (simp only: g)
  show "gr_rows g * gr_size g \<le> 170"
    using order_trans [OF mult_le_mono2 [OF s(2)] times_div_less_eq_dividend] by (simp only: g)
qed

lemma draw_rows_nth:
  assumes "0 < cols" "length ps \<le> k * cols"
  shows "length (draw_rows cols sz [r..<r + k] ps) = length ps \<and>
    (\<forall>i < length ps. draw_rows cols sz [r..<r + k] ps ! i = piece_cell sz (r + i div cols) (i mod cols) (ps ! i))"
  using assms(2)
proof (induction k arbitrary: r ps)
  case (Suc k)
  have rows: "[r..<r + Suc k] = r # [Suc r..<Suc r + k]" by (simp add: upt_conv_Cons)
  show ?case
  proof (cases "ps = []")
    case False
    have ih: "length (draw_rows cols sz [Suc r..<Suc r + k] (drop cols ps)) = length (drop cols ps)"
      "\<forall>i < length (drop cols ps). draw_rows cols sz [Suc r..<Suc r + k] (drop cols ps) ! i =
         piece_cell sz (Suc r + i div cols) (i mod cols) (drop cols ps ! i)"
      using Suc.IH [of "drop cols ps" "Suc r"] Suc.prems by auto
    have "draw_rows cols sz [r..<r + Suc k] ps ! i = piece_cell sz (r + i div cols) (i mod cols) (ps ! i)"
      if i: "i < length ps" for i
    proof (cases "i < cols")
      case True
      then show ?thesis using False i unfolding rows by (simp add: nth_append)
    next
      case ge: False
      have d: "i div cols = Suc ((i - cols) div cols)" "i mod cols = (i - cols) mod cols"
        using ge assms(1) by (simp_all add: le_div_geq le_mod_geq)
      have "i - cols < length (drop cols ps)" "drop cols ps ! (i - cols) = ps ! i" using ge i by auto
      then have "draw_rows cols sz [Suc r..<Suc r + k] (drop cols ps) ! (i - cols) =
          piece_cell sz (Suc r + (i - cols) div cols) ((i - cols) mod cols) (ps ! i)" using ih(2) by auto
      moreover have "min cols (length ps) = cols" using ge i by simp
      ultimately show ?thesis using False ge d unfolding rows by (simp add: nth_append)
    qed
    moreover have "length (draw_rows cols sz [r..<r + Suc k] ps) = length ps"
      using False ih(1) unfolding rows by simp
    ultimately show ?thesis by blast
  next
    case True
    then show ?thesis unfolding rows by simp
  qed
qed simp

text \<open>
  Property C40: the piece map of the pieces tab, 800 by 200 pixels, draws every piece exactly once,
  row by row, each in its own colour and on a square of its own of at least seven pixels, and all
  squares lie within the canvas above the legend. This is for the tab's at most two thousand pieces,
  and relies on the root that doubles give being near the exact one.
\<close>

theorem piece_map_is_complete:
  assumes "pieces \<noteq> []" "length pieces \<le> MAX_VISUAL_PIECES"
    "near_root (jsroot (length pieces) 800 200) (of_nat (length pieces) * (800 / 170))"
  defines "cells \<equiv> draw_map jsroot 800 200 pieces" and "g \<equiv> piece_grid jsroot 800 200 (length pieces)"
  shows "length cells = length pieces \<and>
    (\<forall>i < length pieces. cells ! i = piece_cell (gr_size g) (i div gr_cols g) (i mod gr_cols g) (pieces ! i) \<and>
       7 \<le> ce_side (cells ! i) \<and>
       ce_x (cells ! i) + ce_side (cells ! i) < 800 \<and> ce_y (cells ! i) + ce_side (cells ! i) < 170) \<and>
    (\<forall>i < length pieces. \<forall>j < length pieces. i \<noteq> j \<longrightarrow>
       ce_x (cells ! i) + ce_side (cells ! i) < ce_x (cells ! j) \<or> ce_x (cells ! j) + ce_side (cells ! j) < ce_x (cells ! i) \<or>
       ce_y (cells ! i) + ce_side (cells ! i) < ce_y (cells ! j) \<or> ce_y (cells ! j) + ce_side (cells ! j) < ce_y (cells ! i))"
proof -
  let ?n = "length pieces"
  have fits: "?n \<le> gr_rows g * gr_cols g" "0 < gr_cols g" "gr_cols g * gr_size g \<le> 800"
    "gr_rows g * gr_size g \<le> 170" "8 \<le> gr_size g"
    using piece_grid_fits [of ?n jsroot] assms(1,2,3) by (auto simp: g_def MAX_VISUAL_PIECES_def)
  have "cells = draw_rows (gr_cols g) (gr_size g) [0..<0 + gr_rows g] pieces"
    using assms(1) by (simp add: cells_def draw_map_def g_def Let_def)
  then have draw: "length cells = ?n"
    "\<And>i. i < ?n \<Longrightarrow> cells ! i = piece_cell (gr_size g) (i div gr_cols g) (i mod gr_cols g) (pieces ! i)"
    using draw_rows_nth [OF fits(2,1), of "gr_size g" 0] by auto
  have inside: "c * gr_size g + (gr_size g - 1) < m" if "c < k" "k * gr_size g \<le> m" for c k m
  proof -
    have "Suc c * gr_size g \<le> k * gr_size g" using that(1) by (intro mult_le_mono1) simp
    then show ?thesis using that(2) fits(5) by simp
  qed
  have col: "i mod gr_cols g < gr_cols g" and row: "i < ?n \<Longrightarrow> i div gr_cols g < gr_rows g" for i
    using fits(1,2) by (auto simp: less_mult_imp_div_less mult.commute)
  have "7 \<le> ce_side (cells ! i) \<and> ce_x (cells ! i) + ce_side (cells ! i) < 800 \<and> ce_y (cells ! i) + ce_side (cells ! i) < 170"
    if "i < ?n" for i
    using inside [OF col fits(3)] inside [OF row [OF that] fits(4)] fits(5) by (simp add: draw(2) [OF that] piece_cell_def)
  moreover have "ce_x (cells ! i) + ce_side (cells ! i) < ce_x (cells ! j) \<or> ce_x (cells ! j) + ce_side (cells ! j) < ce_x (cells ! i) \<or>
       ce_y (cells ! i) + ce_side (cells ! i) < ce_y (cells ! j) \<or> ce_y (cells ! j) + ce_side (cells ! j) < ce_y (cells ! i)"
    if "i < ?n" "j < ?n" "i \<noteq> j" for i j
  proof -
    have apart: "a * gr_size g + (gr_size g - 1) < b * gr_size g" if "a < b" for a b
      using inside [OF that order_refl] .
    have "i div gr_cols g \<noteq> j div gr_cols g \<or> i mod gr_cols g \<noteq> j mod gr_cols g"
      using that(3) by (metis div_mult_mod_eq)
    then show ?thesis
      using apart [of "i div gr_cols g" "j div gr_cols g"] apart [of "j div gr_cols g" "i div gr_cols g"]
        apart [of "i mod gr_cols g" "j mod gr_cols g"] apart [of "j mod gr_cols g" "i mod gr_cols g"]
      by (auto simp: draw(2) [OF that(1)] draw(2) [OF that(2)] piece_cell_def linorder_neq_iff)
  qed
  ultimately show ?thesis using draw by blast
qed

definition blank_piece :: shown_piece where
  "blank_piece = \<lparr> pd_index = 0, pd_completed = False, pd_downloading = False, pd_missing = True, pd_availability = None \<rparr>"

theorem piece_map_is_complete_witness:
  "length (draw_map (\<lambda>n width height. 80) 800 200 (replicate 1360 blank_piece)) = 1360"
  using piece_map_is_complete [of "replicate 1360 blank_piece" "\<lambda>n width height. 80"]
  by (simp add: near_root_def MAX_VISUAL_PIECES_def)

text \<open>
  Further fact: the tab draws at most two thousand pieces and at least one hundred, so the map of
  800 by 200 pixels has room for them; none are drawn without a status or while offline. The
  completed ones come first and are as many as the progress says, rounded down.
\<close>

theorem pieces_of_tab:
  assumes "0 \<le> ts_progress s" "ts_progress s \<le> 1"
  shows "100 \<le> length (fetchPieces True (Some s)) \<and> length (fetchPieces True (Some s)) \<le> 2000 \<and>
    length (fetchPieces True (Some s)) \<le> 800 * (200 - 30) \<and>
    filter pd_completed (fetchPieces True (Some s)) =
      take (nat \<lfloor>ts_progress s * of_nat (length (fetchPieces True (Some s)))\<rfloor>) (fetchPieces True (Some s)) \<and>
    fetchPieces False st = [] \<and> fetchPieces online None = []"
proof -
  define n where "n = estimated_pieces (nat (ts_total_bytes s))"
  define k where "k = \<lfloor>ts_progress s * of_nat n\<rfloor>"
  have n: "100 \<le> n" "n \<le> 2000" by (auto simp: n_def estimated_pieces_def MAX_VISUAL_PIECES_def)
  have k0: "0 \<le> k" using assms(1) by (simp add: k_def)
  have "ts_progress s * of_nat n \<le> of_nat n" using assms(2) by (simp add: mult_left_le_one_le assms(1))
  then have kn: "nat k \<le> n" unfolding k_def by linarith
  have f: "fetchPieces True (Some s) = calculatePieceStates n k {}"
    by (simp add: fetchPieces_def estimatePiecesFromProgress_def n_def k_def)
  have len: "length (calculatePieceStates n k {}) = n" by (simp add: calculatePieceStates_def)
  have split: "[0..<n] = [0..<nat k] @ [nat k..<n]" using kn by (metis le0 upt_add_eq_append le_add_diff_inverse)
  have parts: "filter (\<lambda>x. int x < k) [0..<nat k] = [0..<nat k]" "filter (\<lambda>x. int x < k) [nat k..<n] = []"
    by (auto simp: filter_empty_conv filter_id_conv)
  have "filter pd_completed (calculatePieceStates n k {}) = take (nat k) (calculatePieceStates n k {})"
    using k0 parts by (simp add: calculatePieceStates_def split filter_map comp_def Let_def)
  moreover have "fetchPieces False st = []" "fetchPieces online None = []"
    by (simp_all add: fetchPieces_def split: option.split)
  ultimately show ?thesis using n unfolding f len k_def [symmetric] by simp
qed

lemma shade_mono:
  assumes "a \<le> b"
  shows "fst (shade b c) \<le> fst (shade a c) \<and> fst (snd (shade b c)) \<le> fst (snd (shade a c)) \<and>
    snd (snd (shade b c)) \<le> snd (snd (shade a c))"
proof -
  have d: "1 - max 0 (min 1 (b / 10)) * (1 / 2) \<le> 1 - max 0 (min 1 (a / 10)) * (1 / 2 :: rat)"
    using assms by (intro diff_left_mono mult_right_mono max.mono min.mono divide_right_mono) simp_all
  have m: "nat \<lfloor>of_nat r * (1 - max 0 (min 1 (b / 10)) * (1 / 2 :: rat))\<rfloor> \<le> nat \<lfloor>of_nat r * (1 - max 0 (min 1 (a / 10)) * (1 / 2))\<rfloor>" for r
    by (intro nat_mono floor_mono mult_left_mono d) simp
  show ?thesis
    unfolding shade_def Let_def by (cases c) (simp only: prod.case fst_conv snd_conv m simp_thms)
qed

text \<open>
  Further fact: the shading is the reverse of what its comments say: a piece that more peers have is
  never drawn brighter than one that fewer have.
\<close>

theorem rarer_is_brighter:
  assumes "0 < a" "a \<le> b" "\<not> pd_completed p"
  shows "fst (piece_color (p\<lparr> pd_availability := Some b \<rparr>)) \<le> fst (piece_color (p\<lparr> pd_availability := Some a \<rparr>)) \<and>
    fst (snd (piece_color (p\<lparr> pd_availability := Some b \<rparr>))) \<le> fst (snd (piece_color (p\<lparr> pd_availability := Some a \<rparr>))) \<and>
    snd (snd (piece_color (p\<lparr> pd_availability := Some b \<rparr>))) \<le> snd (snd (piece_color (p\<lparr> pd_availability := Some a \<rparr>)))"
  using assms shade_mono [OF assms(2)] by (simp add: piece_color_def)

theorem rarer_is_brighter_witness:
  "fst (piece_color (blank_piece\<lparr> pd_availability := Some 10 \<rparr>)) \<le> fst (piece_color (blank_piece\<lparr> pd_availability := Some 1 \<rparr>))"
  using rarer_is_brighter [of 1 10 blank_piece] by (simp add: blank_piece_def)

end
