(* ===== verification/ChangeForm.thy ===== *)
theory ChangeForm
  imports Prelude
begin

text \<open>
  The contract of a form that asks for one change at a time, as a locale, and the runs of such a form.
  The forms of the network panels, the daemon's control panel and the operations of a torrent are
  its instances. A step returns what it does; \<open>asks\<close> tells the requests and \<open>tells\<close> the messages.
\<close>

definition times :: "('o \<Rightarrow> bool) \<Rightarrow> 'o list \<Rightarrow> nat" where
  "times P os = length (filter P os)"

lemma times_simps [simp]:
  "times P [] = 0" "times P (a # os) = (if P a then Suc (times P os) else times P os)"
  "times P (xs @ ys) = times P xs + times P ys"
  by (simp_all add: times_def)

datatype ('i, 'r, 'e) form_event = Press 'i | Settle 'r | Edit 'e

definition form_step ::
    "('i \<Rightarrow> 's \<Rightarrow> 's \<times> 'o list) \<Rightarrow> ('r \<Rightarrow> 's \<Rightarrow> 's \<times> 'o list) \<Rightarrow> ('e \<Rightarrow> 's \<Rightarrow> 's)
      \<Rightarrow> ('i, 'r, 'e) form_event \<Rightarrow> 's \<Rightarrow> 's \<times> 'o list" where
  "form_step press settle edit ev s = (case ev of
      Press i \<Rightarrow> press i s | Settle r \<Rightarrow> settle r s | Edit e \<Rightarrow> (edit e s, []))"

fun form_run ::
    "('i \<Rightarrow> 's \<Rightarrow> 's \<times> 'o list) \<Rightarrow> ('r \<Rightarrow> 's \<Rightarrow> 's \<times> 'o list) \<Rightarrow> ('e \<Rightarrow> 's \<Rightarrow> 's)
      \<Rightarrow> ('i, 'r, 'e) form_event list \<Rightarrow> 's \<Rightarrow> 's \<times> 'o list" where
  "form_run press settle edit [] s = (s, [])"
| "form_run press settle edit (ev # evs) s =
     (let (s1, o1) = form_step press settle edit ev s; (s2, o2) = form_run press settle edit evs s1 in (s2, o1 @ o2))"

text \<open>
  While the form waits nothing can be pressed, a press that makes it wait sends one request, any other
  press sends none, and what ends the waiting shows exactly one message.
\<close>

locale change_form =
  fixes press :: "'i \<Rightarrow> 's \<Rightarrow> 's \<times> 'o list"
    and settle :: "'r \<Rightarrow> 's \<Rightarrow> 's \<times> 'o list"
    and edit :: "'e \<Rightarrow> 's \<Rightarrow> 's"
    and busy :: "'s \<Rightarrow> bool"
    and ok :: "'s \<Rightarrow> bool"
    and asks :: "'o \<Rightarrow> bool"
    and tells :: "'o \<Rightarrow> bool"
  assumes press_busy: "ok s \<Longrightarrow> busy s \<Longrightarrow> press i s = (s, [])"
    and press_idle: "ok s \<Longrightarrow> \<not> busy s \<Longrightarrow> press i s = (s', os) \<Longrightarrow>
      ok s' \<and> times tells os = 0 \<and> times asks os = (if busy s' then 1 else 0)"
    and settle_idle: "ok s \<Longrightarrow> \<not> busy s \<Longrightarrow> settle r s = (s, [])"
    and settle_busy: "ok s \<Longrightarrow> busy s \<Longrightarrow> settle r s = (s', os) \<Longrightarrow>
      ok s' \<and> times asks os = 0 \<and> times tells os = (if busy s' then 0 else 1)"
    and edit_keeps: "ok s \<Longrightarrow> ok (edit e s) \<and> busy (edit e s) = busy s"
begin

lemma step:
  assumes "ok s" "form_step press settle edit ev s = (s', os)"
  shows "ok s' \<and> times asks os + (if busy s then 1 else 0) = times tells os + (if busy s' then 1 else 0)"
proof (cases ev)
  case (Press i)
  then show ?thesis
    using assms press_busy [of s i] press_idle [of s i s' os] by (cases "busy s") (auto simp: form_step_def)
next
  case (Settle r)
  then show ?thesis
    using assms settle_idle [of s r] settle_busy [of s r s' os] by (cases "busy s") (auto simp: form_step_def)
next
  case (Edit e)
  then show ?thesis using assms edit_keeps [of s e] by (auto simp: form_step_def)
qed

lemma conserved:
  assumes "ok s" "form_run press settle edit evs s = (s', os)"
  shows "ok s' \<and> times asks os + (if busy s then 1 else 0) = times tells os + (if busy s' then 1 else 0)"
  using assms
proof (induction evs arbitrary: s os)
  case (Cons ev evs)
  obtain s1 o1 where one: "form_step press settle edit ev s = (s1, o1)" by fastforce
  obtain s2 o2 where rest: "form_run press settle edit evs s1 = (s2, o2)" by fastforce
  have eq: "s' = s2" "os = o1 @ o2" using Cons.prems(2) by (simp_all add: one rest)
  have "ok s1 \<and> times asks o1 + (if busy s then 1 else 0) = times tells o1 + (if busy s1 then 1 else 0)"
    by (rule step [OF Cons.prems(1) one])
  moreover from this have "ok s2 \<and> times asks o2 + (if busy s1 then 1 else 0) = times tells o2 + (if busy s2 then 1 else 0)"
    using Cons.IH [of s1 o2] rest eq by simp
  ultimately show ?case unfolding eq by simp
qed simp

lemma answered:
  assumes "ok s" "\<not> busy s" "form_run press settle edit evs s = (s', os)"
  shows "times asks os = times tells os + (if busy s' then 1 else 0)"
  using conserved [OF assms(1,3)] assms(2) by simp

lemma at_most_one:
  assumes "ok s" "\<not> busy s" "form_run press settle edit evs s = (s', os)"
  shows "times tells os \<le> times asks os" "times asks os \<le> Suc (times tells os)"
  using answered [OF assms] by auto

end

end
