(* ===== verification/NetworkPanels.thy ===== *)
theory NetworkPanels
  imports DaemonApi Vpn ChangeForm
begin

text \<open>
  The forms that change the network posture and the kill switch (\<open>components/network/\<close>,
  \<open>components/NetworkPosture.tsx\<close>, \<open>components/PrivacyKillSwitchDrawer.tsx\<close>). A handler is cut at its
  awaits: pressing runs up to the request, settling goes on when the request, or the refresh that
  follows it, has settled. The job a form waits for is what the closure of its handler remembers.
  The page is drawn again between two events, so a handler reads the state of its own event. An
  input that is drawn disabled gives no event.
\<close>

datatype net_body =
    PostureBody "string option" bool
  | EnabledBody bool
  | ScopeBody kill_switch_scope
  | ConfigBody vpn_source nat kill_switch_triggers

datatype net_out =
    SendPatch string net_body
  | SendPost string
  | CallRefreshVpn
  | CallUpdate
  | ShowSuccess string
  | ShowError string
  | ScrollToKillSwitch

text \<open>What a panel is given: \<open>netPosture\<close>, \<open>netifs\<close>, \<open>vpnStatus\<close>, \<open>online\<close>, and whether \<open>onRefreshVpn\<close> is.\<close>

record net_props =
  pr_netPosture :: "net_posture option"
  pr_netifs :: "string list"
  pr_vpnStatus :: "vpn_status option"
  pr_online :: bool
  pr_refreshes :: bool

definition leak_proof_or :: "bool \<Rightarrow> net_props \<Rightarrow> bool" where
  "leak_proof_or d p = (case pr_netPosture p of Some n \<Rightarrow> np_leak_proof_enabled n | None \<Rightarrow> d)"

definition bound_interface :: "net_props \<Rightarrow> string option" where
  "bound_interface p = Option.bind (pr_netPosture p) np_bind_interface"

definition enabled_text :: "bool \<Rightarrow> string" where
  "enabled_text b = ''Kill switch '' @ (if b then ''enabled'' else ''disabled'')"

text \<open>\<open>s.trim() ? s.trim() : null\<close>.\<close>

definition trimmed_or_null :: "string \<Rightarrow> string option" where
  "trimmed_or_null s = (if js_trim s \<noteq> [] then Some (js_trim s) else None)"

subsection \<open>Kill switch panel\<close>

datatype kill_switch_policy = StopAll | StopDownloads | StopSeeding | PolicyDisabled

record panel_triggers =
  tg_vpnDown :: bool
  tg_ipChange :: bool
  tg_interfaceChange :: bool
  tg_dnsChange :: bool

datatype kill_job = Applying | Toggling bool | RefreshingVpn bool

record kill_panel =
  kp_enabled :: bool
  kp_policy :: kill_switch_policy
  kp_triggers :: panel_triggers
  kp_loading :: bool
  kp_job :: "kill_job option"

definition kill_panel_init :: "net_props \<Rightarrow> kill_panel" where
  "kill_panel_init p =
     \<lparr> kp_enabled = leak_proof_or False p, kp_policy = StopAll,
       kp_triggers = \<lparr> tg_vpnDown = True, tg_ipChange = True, tg_interfaceChange = True, tg_dnsChange = False \<rparr>,
       kp_loading = False, kp_job = None \<rparr>"

text \<open>The effect on a changed \<open>netPosture?.leak_proof_enabled\<close>.\<close>

definition kp_sync :: "net_props \<Rightarrow> kill_panel \<Rightarrow> kill_panel" where
  "kp_sync p s = s\<lparr> kp_enabled := leak_proof_or False p \<rparr>"

definition kp_handleApply :: "net_props \<Rightarrow> kill_panel \<Rightarrow> kill_panel \<times> net_out list" where
  "kp_handleApply p s =
     (if \<not> pr_online p \<or> kp_loading s then (s, [])
      else (s\<lparr> kp_loading := True, kp_job := Some Applying \<rparr>,
            [SendPatch ''/net/posture'' (PostureBody (bound_interface p) (kp_enabled s))]))"

definition kp_toggle :: "net_props \<Rightarrow> bool \<Rightarrow> kill_panel \<Rightarrow> kill_panel \<times> net_out list" where
  "kp_toggle p newEnabled s0 =
     (let s = s0\<lparr> kp_enabled := newEnabled \<rparr> in
      if pr_online p \<and> \<not> kp_loading s then
        (s\<lparr> kp_loading := True, kp_job := Some (Toggling newEnabled) \<rparr>,
         [SendPatch ''/net/posture'' (PostureBody (bound_interface p) newEnabled)])
      else if \<not> pr_online p then (s\<lparr> kp_enabled := \<not> newEnabled \<rparr>, [])
      else (s, []))"

datatype kill_input = PressApply | Toggle bool

definition kp_press :: "net_props \<Rightarrow> kill_input \<Rightarrow> kill_panel \<Rightarrow> kill_panel \<times> net_out list" where
  "kp_press p i s = (case i of
      PressApply \<Rightarrow> kp_handleApply p s
    | Toggle b \<Rightarrow> if \<not> pr_online p \<or> kp_loading s then (s, []) else kp_toggle p b s)"

definition kp_done :: "kill_panel \<Rightarrow> kill_panel" where
  "kp_done s = s\<lparr> kp_loading := False, kp_job := None \<rparr>"

definition kp_settle :: "net_props \<Rightarrow> thrown option \<Rightarrow> kill_panel \<Rightarrow> kill_panel \<times> net_out list" where
  "kp_settle p res s = (case kp_job s of
      None \<Rightarrow> (s, [])
    | Some job \<Rightarrow> (case res of
        Some e \<Rightarrow>
          ((case job of Applying \<Rightarrow> kp_done s | Toggling b \<Rightarrow> (kp_done s)\<lparr> kp_enabled := \<not> b \<rparr>
              | RefreshingVpn b \<Rightarrow> (kp_done s)\<lparr> kp_enabled := \<not> b \<rparr>),
           [ShowError (message_or ''Failed to update kill switch'' e)])
      | None \<Rightarrow> (case job of
          Applying \<Rightarrow> (kp_done s, [CallUpdate, ShowSuccess ''Kill switch configuration updated''])
        | Toggling b \<Rightarrow>
            if pr_refreshes p then (s\<lparr> kp_job := Some (RefreshingVpn b) \<rparr>, [CallRefreshVpn])
            else (kp_done s, [CallUpdate, ShowSuccess (enabled_text b)])
        | RefreshingVpn b \<Rightarrow> (kp_done s, [CallUpdate, ShowSuccess (enabled_text b)]))))"

datatype kill_edit = SetPolicy kill_switch_policy | SetTriggers panel_triggers | SyncPosture net_props

definition kp_edit :: "kill_edit \<Rightarrow> kill_panel \<Rightarrow> kill_panel" where
  "kp_edit e s = (case e of
      SetPolicy po \<Rightarrow> s\<lparr> kp_policy := po \<rparr> | SetTriggers t \<Rightarrow> s\<lparr> kp_triggers := t \<rparr> | SyncPosture p \<Rightarrow> kp_sync p s)"

subsection \<open>Bind interface\<close>

record bind_panel =
  bp_iface :: string
  bp_loading :: bool
  bp_waits :: bool

definition bind_panel_init :: "net_props \<Rightarrow> bind_panel" where
  "bind_panel_init p =
     \<lparr> bp_iface = (case bound_interface p of Some i \<Rightarrow> i | None \<Rightarrow> []), bp_loading = False, bp_waits = False \<rparr>"

definition bp_handleApply :: "net_props \<Rightarrow> bind_panel \<Rightarrow> bind_panel \<times> net_out list" where
  "bp_handleApply p s =
     (if \<not> pr_online p \<or> bp_loading s then (s, [])
      else (s\<lparr> bp_loading := True, bp_waits := True \<rparr>,
            [SendPatch ''/net/posture'' (PostureBody (trimmed_or_null (bp_iface s)) (leak_proof_or True p))]))"

definition bp_settle :: "thrown option \<Rightarrow> bind_panel \<Rightarrow> bind_panel \<times> net_out list" where
  "bp_settle res s =
     (if \<not> bp_waits s then (s, [])
      else (s\<lparr> bp_loading := False, bp_waits := False \<rparr>,
        (case res of None \<Rightarrow> [CallUpdate, ShowSuccess ''Interface binding updated'']
         | Some e \<Rightarrow> [ShowError (message_or ''Failed to update interface binding'' e)])))"

definition handleLockToVpn :: "net_props \<Rightarrow> bind_panel \<Rightarrow> bind_panel" where
  "handleLockToVpn p s = (case Option.bind (pr_vpnStatus p) vs_interfaceName of
      Some i \<Rightarrow> if i \<noteq> [] then s\<lparr> bp_iface := i \<rparr> else s | None \<Rightarrow> s)"

datatype bind_edit = ChooseInterface string | LockToVpn net_props

definition bp_edit :: "bind_edit \<Rightarrow> bind_panel \<Rightarrow> bind_panel" where
  "bp_edit e s = (case e of ChooseInterface i \<Rightarrow> s\<lparr> bp_iface := i \<rparr> | LockToVpn p \<Rightarrow> handleLockToVpn p s)"

subsection \<open>Network posture\<close>

datatype posture_job = ApplyingPosture | ApplyingGuardrails

record posture_panel =
  pp_bindIface :: string
  pp_leakProof :: bool
  pp_loading :: bool
  pp_vpnStatus :: "vpn_status option"
  pp_job :: "posture_job option"

definition posture_panel_init :: "net_props \<Rightarrow> posture_panel" where
  "posture_panel_init p =
     \<lparr> pp_bindIface = (case bound_interface p of Some i \<Rightarrow> i | None \<Rightarrow> []), pp_leakProof = leak_proof_or True p,
       pp_loading = False, pp_vpnStatus = None, pp_job = None \<rparr>"

definition pp_sync :: "net_props \<Rightarrow> posture_panel \<Rightarrow> posture_panel" where
  "pp_sync p s =
     s\<lparr> pp_bindIface := (case bound_interface p of Some i \<Rightarrow> i | None \<Rightarrow> []), pp_leakProof := leak_proof_or True p \<rparr>"

text \<open>What \<open>window.orc.vpnStatus()\<close> settles to: a rejection, nothing, or a status.\<close>

definition fetchVpnStatus :: "thrown + vpn_status option \<Rightarrow> posture_panel \<Rightarrow> posture_panel" where
  "fetchVpnStatus orc s = (case orc of Inr (Some st) \<Rightarrow> s\<lparr> pp_vpnStatus := Some st \<rparr> | _ \<Rightarrow> s)"

definition applyNetPosture :: "net_props \<Rightarrow> posture_panel \<Rightarrow> posture_panel \<times> net_out list" where
  "applyNetPosture p s =
     (if \<not> pr_online p \<or> pp_loading s then (s, [])
      else (s\<lparr> pp_loading := True, pp_job := Some ApplyingPosture \<rparr>,
            [SendPatch ''/net/posture'' (PostureBody (trimmed_or_null (pp_bindIface s)) (pp_leakProof s))]))"

definition applyPrivateRecommended :: "net_props \<Rightarrow> posture_panel \<Rightarrow> posture_panel \<times> net_out list" where
  "applyPrivateRecommended p s =
     (if \<not> pr_online p \<or> pp_loading s then (s, [])
      else (let def = (case trimmed_or_null (pp_bindIface s) of Some i \<Rightarrow> i
                       | None \<Rightarrow> (case pr_netifs p of n # _ \<Rightarrow> n | [] \<Rightarrow> [])) in
        (s\<lparr> pp_bindIface := def, pp_leakProof := True, pp_loading := True, pp_job := Some ApplyingGuardrails \<rparr>,
         [SendPatch ''/net/posture'' (PostureBody (if def \<noteq> [] then Some def else None) True)])))"

definition pp_settle :: "thrown option \<Rightarrow> posture_panel \<Rightarrow> posture_panel \<times> net_out list" where
  "pp_settle res s = (case pp_job s of
      None \<Rightarrow> (s, [])
    | Some job \<Rightarrow>
        (s\<lparr> pp_loading := False, pp_job := None \<rparr>,
         (case res of
            None \<Rightarrow> [CallUpdate, ShowSuccess (case job of ApplyingPosture \<Rightarrow> ''Network posture updated''
                       | ApplyingGuardrails \<Rightarrow> ''Private mode guardrails applied'')]
          | Some e \<Rightarrow> [ShowError (message_or (case job of ApplyingPosture \<Rightarrow> ''Failed to update network posture''
                       | ApplyingGuardrails \<Rightarrow> ''Failed to apply guardrails'') e)])))"

definition vpn_interface :: "posture_panel \<Rightarrow> string option" where
  "vpn_interface s = Option.bind (pp_vpnStatus s) vs_interfaceName"

definition vpn_detected :: "posture_panel \<Rightarrow> bool" where
  "vpn_detected s \<longleftrightarrow> Option.bind (pp_vpnStatus s) vs_detected = Some True"

definition vpnNotBound :: "posture_panel \<Rightarrow> bool" where
  "vpnNotBound s \<longleftrightarrow> vpn_detected s \<and> vpn_interface s \<noteq> Some (pp_bindIface s)"

definition isProtected :: "posture_panel \<Rightarrow> bool" where
  "isProtected s \<longleftrightarrow> pp_leakProof s \<and> js_trim (pp_bindIface s) \<noteq> []"

definition applyVpnBinding :: "posture_panel \<Rightarrow> posture_panel" where
  "applyVpnBinding s = (case vpn_interface s of
      Some i \<Rightarrow> if i \<noteq> [] then s\<lparr> pp_bindIface := i, pp_leakProof := True \<rparr> else s | None \<Rightarrow> s)"

datatype posture_input = PressPosture | PressGuardrails
datatype posture_edit = EditInterface string | EditLeakProof bool | SyncProps net_props | VpnReply "thrown + vpn_status option" | BindToVpn

definition pp_press :: "net_props \<Rightarrow> posture_input \<Rightarrow> posture_panel \<Rightarrow> posture_panel \<times> net_out list" where
  "pp_press p i = (case i of PressPosture \<Rightarrow> applyNetPosture p | PressGuardrails \<Rightarrow> applyPrivateRecommended p)"

definition pp_edit :: "posture_edit \<Rightarrow> posture_panel \<Rightarrow> posture_panel" where
  "pp_edit e s = (case e of
      EditInterface i \<Rightarrow> s\<lparr> pp_bindIface := i \<rparr> | EditLeakProof b \<Rightarrow> s\<lparr> pp_leakProof := b \<rparr>
    | SyncProps p \<Rightarrow> pp_sync p s | VpnReply r \<Rightarrow> fetchVpnStatus r s | BindToVpn \<Rightarrow> applyVpnBinding s)"


subsection \<open>Posture center\<close>

text \<open>
  The click on the VPN widget: no flag marks a request that is running. The closure remembers the
  value it asked for.
\<close>

definition handleVpnWidgetClick :: "net_props \<Rightarrow> bool option \<times> net_out list" where
  "handleVpnWidgetClick p =
     (if \<not> pr_online p then (None, [ShowError ''Cannot configure kill switch: daemon not connected''])
      else (let newEnabled = (\<not> leak_proof_or False p) in
        (Some newEnabled, [SendPatch ''/net/posture'' (PostureBody (bound_interface p) newEnabled)])))"

text \<open>What follows the request: its outcome and, if it succeeded, that of \<open>onRefreshVpn\<close>.\<close>

definition widget_click_settled :: "net_props \<Rightarrow> bool \<Rightarrow> thrown option \<Rightarrow> thrown option \<Rightarrow> net_out list" where
  "widget_click_settled p newEnabled res refreshed =
     (let failed = (\<lambda>e. [ShowError (message_or ''Failed to toggle kill switch'' e)]);
          finish = [CallUpdate, ShowSuccess (enabled_text newEnabled)] @ (if newEnabled then [ScrollToKillSwitch] else []) in
      case res of
        Some e \<Rightarrow> failed e
      | None \<Rightarrow>
          if pr_refreshes p then CallRefreshVpn # (case refreshed of Some e \<Rightarrow> failed e | None \<Rightarrow> finish)
          else finish)"

definition posture_text :: "net_posture option \<Rightarrow> string" where
  "posture_text n = (case n of
      Some q \<Rightarrow> (case np_state q of Protected \<Rightarrow> ''PROTECTED'' | LeakRisk \<Rightarrow> ''LEAK RISK'' | Unconfigured \<Rightarrow> ''UNCONFIGURED'')
    | None \<Rightarrow> ''UNCONFIGURED'')"

definition leak_proof_texts :: "net_posture option \<Rightarrow> string \<times> string" where
  "leak_proof_texts n =
     (let isLeakProof = (case n of Some q \<Rightarrow> np_leak_proof_enabled q | None \<Rightarrow> False);
          protected = (case n of Some q \<Rightarrow> np_state q = Protected | None \<Rightarrow> False) in
      (if protected then ''CONFIRMED SAFE'' else ''RISK DETECTED'', if isLeakProof then ''ENABLED'' else ''DISABLED''))"

subsection \<open>Panels without an endpoint\<close>

record connection_policies =
  cp_dht :: bool
  cp_pex :: bool
  cp_lsd :: bool
  cp_forceEncryption :: bool
  cp_allowLegacyPeers :: bool

definition connection_policies_init :: connection_policies where
  "connection_policies_init = \<lparr> cp_dht = True, cp_pex = True, cp_lsd = True, cp_forceEncryption = False, cp_allowLegacyPeers = True \<rparr>"

definition policies_apply :: "net_props \<Rightarrow> bool \<Rightarrow> connection_policies \<Rightarrow> net_out list" where
  "policies_apply p loading policies =
     (if \<not> pr_online p \<or> loading then []
      else [CallUpdate, ShowSuccess ''Connection policies will be applied when the API endpoint is available''])"

datatype threat_model = ThreatDirect | ThreatVpnOnly | ThreatHardened | ThreatExtreme

definition threat_id :: "threat_model \<Rightarrow> string" where
  "threat_id t = (case t of ThreatDirect \<Rightarrow> ''direct'' | ThreatVpnOnly \<Rightarrow> ''vpn-only'' | ThreatHardened \<Rightarrow> ''hardened'' | ThreatExtreme \<Rightarrow> ''extreme'')"

text \<open>The preset shown as active, and what is done.\<close>

definition handleApplyPreset :: "net_props \<Rightarrow> bool \<Rightarrow> threat_model \<Rightarrow> threat_model option \<Rightarrow> threat_model option \<times> net_out list" where
  "handleApplyPreset p loading preset active =
     (if \<not> pr_online p \<or> loading then (active, [])
      else (Some preset, [CallUpdate, ShowSuccess (''Threat model preset '' @ [CHR 0x22] @ threat_id preset @ [CHR 0x22] @
              '' will be applied when the API endpoint is available'')]))"

subsection \<open>Kill switch drawer\<close>

datatype drawer_job = TogglingKillSwitch bool | DrawerRefreshing bool | ChangingScope | ApplyingConfig | Testing | Unlocking

record drawer =
  dr_config :: "kill_switch_config option"
  dr_loading :: bool
  dr_confirm :: bool
  dr_testResult :: "string option"

definition drawer_init :: "kill_switch_config option \<Rightarrow> drawer" where
  "drawer_init k = \<lparr> dr_config = k, dr_loading = False, dr_confirm = False, dr_testResult = None \<rparr>"

definition dr_sync :: "kill_switch_config option \<Rightarrow> drawer \<Rightarrow> drawer" where
  "dr_sync k d = (case k of Some c \<Rightarrow> d\<lparr> dr_config := Some c \<rparr> | None \<Rightarrow> d)"

text \<open>Each handler up to its request: the body it sends and the job it waits for.\<close>

definition dr_send :: "bool \<Rightarrow> drawer \<Rightarrow> (kill_switch_config \<Rightarrow> net_body) \<Rightarrow> drawer_job \<Rightarrow> drawer \<times> drawer_job option \<times> net_out list" where
  "dr_send online d body job = (case dr_config d of
      Some c \<Rightarrow> if online then (d\<lparr> dr_loading := True \<rparr>, Some job, [SendPatch ''/net/kill-switch'' (body c)]) else (d, None, [])
    | None \<Rightarrow> (d, None, []))"

definition handleKillSwitchToggle :: "bool \<Rightarrow> bool \<Rightarrow> drawer \<Rightarrow> drawer \<times> drawer_job option \<times> net_out list" where
  "handleKillSwitchToggle online enabled d = dr_send online d (\<lambda>_. EnabledBody enabled) (TogglingKillSwitch enabled)"

definition handleScopeChange :: "bool \<Rightarrow> kill_switch_scope \<Rightarrow> drawer \<Rightarrow> drawer \<times> drawer_job option \<times> net_out list" where
  "handleScopeChange online scope d = dr_send online d (\<lambda>_. ScopeBody scope) ChangingScope"

definition drawer_handleApply :: "bool \<Rightarrow> drawer \<Rightarrow> drawer \<times> drawer_job option \<times> net_out list" where
  "drawer_handleApply online d =
     dr_send online d (\<lambda>c. ConfigBody (ks_vpn_source c) (ks_grace_period_sec c) (ks_triggers c)) ApplyingConfig"

definition handleEmergencyUnlock :: "bool \<Rightarrow> drawer \<Rightarrow> drawer \<times> drawer_job option \<times> net_out list" where
  "handleEmergencyUnlock online d = dr_send online d (\<lambda>_. EnabledBody False) Unlocking"

definition drawer_handleTest :: "bool \<Rightarrow> drawer \<Rightarrow> drawer \<times> drawer_job option \<times> net_out list" where
  "drawer_handleTest online d = (if online then (d, Some Testing, [SendPost ''/net/kill-switch/test'']) else (d, None, []))"

text \<open>
  How a handler goes on: with an error, with the text of a reply, or, of the refresh, without one. The
  second component is the job it waits for next.
\<close>

definition dr_fallback :: "drawer_job \<Rightarrow> string" where
  "dr_fallback job = (case job of
      TogglingKillSwitch _ \<Rightarrow> ''Failed to update kill switch'' | DrawerRefreshing _ \<Rightarrow> ''Failed to update kill switch''
    | ChangingScope \<Rightarrow> ''Failed to update scope'' | ApplyingConfig \<Rightarrow> ''Failed to update configuration''
    | Testing \<Rightarrow> ''Failed to test kill switch'' | Unlocking \<Rightarrow> ''Failed to disable kill switch'')"

definition dr_settle :: "bool \<Rightarrow> drawer_job \<Rightarrow> thrown + string \<Rightarrow> drawer \<Rightarrow> drawer \<times> drawer_job option \<times> net_out list" where
  "dr_settle refreshes job res d =
     (let idle = d\<lparr> dr_loading := False \<rparr> in
      case res of
        Inl e \<Rightarrow> (if job = Testing then d else idle, None, [ShowError (message_or (dr_fallback job) e)])
      | Inr reply \<Rightarrow> (case job of
          TogglingKillSwitch b \<Rightarrow>
            if refreshes then (d, Some (DrawerRefreshing b), [CallRefreshVpn])
            else (idle, None, [CallUpdate, ShowSuccess (enabled_text b)])
        | DrawerRefreshing b \<Rightarrow> (idle, None, [CallUpdate, ShowSuccess (enabled_text b)])
        | ChangingScope \<Rightarrow> (idle, None, [CallUpdate, ShowSuccess ''Kill switch scope updated''])
        | ApplyingConfig \<Rightarrow> (idle, None, [CallUpdate, ShowSuccess ''Kill switch configuration updated''])
        | Testing \<Rightarrow> (d\<lparr> dr_testResult := Some reply \<rparr>, None, [])
        | Unlocking \<Rightarrow> (idle\<lparr> dr_confirm := False \<rparr>, None, [CallUpdate, ShowSuccess ''Kill switch disabled (emergency unlock)''])))"

text \<open>The inputs of the drawer that change its copy of the configuration.\<close>

definition allowlist_toggle :: "string \<Rightarrow> bool \<Rightarrow> kill_switch_config \<Rightarrow> kill_switch_config" where
  "allowlist_toggle adapter checked c =
     (let src = ks_vpn_source c; old = vsrc_allowed_adapters src in
      c\<lparr> ks_vpn_source := src\<lparr> vsrc_allowed_adapters := (if checked then old @ [adapter] else filter (\<lambda>a. a \<noteq> adapter) old) \<rparr> \<rparr>)"

datatype config_edit = EditTriggers kill_switch_triggers | EditAutoDetect bool | EditAllowed string bool | EditGrace nat

definition edit_config :: "config_edit \<Rightarrow> kill_switch_config \<Rightarrow> kill_switch_config" where
  "edit_config e c = (case e of
      EditTriggers t \<Rightarrow> c\<lparr> ks_triggers := t \<rparr>
    | EditAutoDetect b \<Rightarrow> c\<lparr> ks_vpn_source := (ks_vpn_source c)\<lparr> vsrc_auto_detect := b \<rparr> \<rparr>
    | EditAllowed a b \<Rightarrow> allowlist_toggle a b c
    | EditGrace n \<Rightarrow> c\<lparr> ks_grace_period_sec := n \<rparr>)"

text \<open>The request the daemon reads from a body; it has no field for the source of the VPN.\<close>

definition as_request :: "net_body \<Rightarrow> patch_kill_switch_request" where
  "as_request b =
     (let none = \<lparr> pk_enabled = None, pk_scope = None, pk_grace_period_sec = None, pk_triggers = None \<rparr> in
      case b of
        EnabledBody e \<Rightarrow> none\<lparr> pk_enabled := Some e \<rparr>
      | ScopeBody s \<Rightarrow> none\<lparr> pk_scope := Some s \<rparr>
      | ConfigBody src g t \<Rightarrow> none\<lparr> pk_grace_period_sec := Some g, pk_triggers := Some t \<rparr>
      | PostureBody i l \<Rightarrow> none)"

section \<open>Properties\<close>

subsection \<open>A request, then one message\<close>

fun is_request :: "net_out \<Rightarrow> bool" where
  "is_request (SendPatch p b) = True"
| "is_request (SendPost p) = True"
| "is_request a = False"

fun is_answer :: "net_out \<Rightarrow> bool" where
  "is_answer (ShowSuccess m) = True"
| "is_answer (ShowError m) = True"
| "is_answer a = False"

text \<open>As many requests as messages, and one more while the form waits.\<close>

definition balanced :: "bool \<Rightarrow> net_out list \<Rightarrow> bool" where
  "balanced busy os \<longleftrightarrow> times is_request os = times is_answer os + (if busy then 1 else 0)"

definition kp_ok :: "kill_panel \<Rightarrow> bool" where "kp_ok s \<longleftrightarrow> kp_loading s = (kp_job s \<noteq> None)"
definition bp_ok :: "bind_panel \<Rightarrow> bool" where "bp_ok s \<longleftrightarrow> bp_loading s = bp_waits s"
definition pp_ok :: "posture_panel \<Rightarrow> bool" where "pp_ok s \<longleftrightarrow> pp_loading s = (pp_job s \<noteq> None)"

lemmas kp_defs = kp_ok_def kp_press_def kp_handleApply_def kp_toggle_def kp_settle_def kp_done_def kp_edit_def kp_sync_def Let_def
lemmas bp_defs = bp_ok_def bp_handleApply_def bp_settle_def bp_edit_def handleLockToVpn_def
lemmas pp_defs = pp_ok_def pp_press_def applyNetPosture_def applyPrivateRecommended_def pp_settle_def pp_edit_def pp_sync_def
  fetchVpnStatus_def applyVpnBinding_def Let_def

interpretation kill_form: change_form "case_prod kp_press" "kp_settle q" kp_edit kp_loading kp_ok is_request is_answer
  by unfold_locales
    (auto simp: kp_defs times_simps split: kill_input.splits kill_edit.splits option.splits kill_job.splits if_splits)

interpretation bind_form: change_form bp_handleApply bp_settle bp_edit bp_loading bp_ok is_request is_answer
  by unfold_locales
    (auto simp: bp_defs times_simps split: bind_edit.splits option.splits if_splits)

interpretation posture_form: change_form "case_prod pp_press" pp_settle pp_edit pp_loading pp_ok is_request is_answer
  by unfold_locales
    (auto simp: pp_defs times_simps split: posture_input.splits posture_edit.splits option.splits sum.splits if_splits)

text \<open>
  Property C28: in the three forms of the posture at most one change is under way at any moment: however
  presses, edits, changes from outside and outcomes follow each other, the requests sent are as many
  as the messages shown, and one more exactly while the form shows that it is applying.
\<close>

theorem one_change_one_message:
  "(case form_run (case_prod kp_press) (kp_settle q) kp_edit ks (kill_panel_init p) of (s, os) \<Rightarrow> balanced (kp_loading s) os) \<and>
   (case form_run bp_handleApply bp_settle bp_edit bs (bind_panel_init p) of (s, os) \<Rightarrow> balanced (bp_loading s) os) \<and>
   (case form_run (case_prod pp_press) pp_settle pp_edit ps (posture_panel_init p) of (s, os) \<Rightarrow> balanced (pp_loading s) os)"
  using kill_form.answered [of "kill_panel_init p" q ks] bind_form.answered [of "bind_panel_init p" bs]
    posture_form.answered [of "posture_panel_init p" ps]
  by (auto simp: balanced_def kp_ok_def kill_panel_init_def bp_ok_def bind_panel_init_def pp_ok_def posture_panel_init_def
      split: prod.splits)


subsection \<open>What the forms tell and what the daemon does\<close>

definition failure :: "(thrown + 'a) \<times> conn \<Rightarrow> thrown option" where
  "failure rc = (case fst rc of Inl e \<Rightarrow> Some e | Inr v \<Rightarrow> None)"

lemma message_or_error: "message_or f (ThrownError e) = e_message e" by (simp add: message_or_def)

lemma patch_posture_fails:
  assumes "routed ''PATCH'' ''/net/posture'' net c (snd (patchJson parse v net ''/net/posture'' body c))"
  shows "\<exists>e. failure (patchJson parse v net ''/net/posture'' body c) = Some (ThrownError e)"
proof -
  have "router_status ''PATCH'' ''/net/posture'' \<noteq> None" by (simp only: unrouted) simp
  from verbs_refused(3) [OF this assms] obtain x where
    x: "fst (patchJson parse v net ''/net/posture'' body c) = Inl (wrap_error x)" by blast
  obtain e where "wrap_error x = ThrownError e" using wrap_error_message by blast
  then show ?thesis using x by (simp add: failure_def)
qed

text \<open>
  Further fact: no panel can change the posture. The daemon has no route for it, so each of the four
  ways to ask (the switch and the button of the kill switch, binding an interface, the network form,
  and the click on the VPN widget) ends with an error and nothing else, and the switch goes back to
  what it showed.
\<close>

theorem posture_changes_are_refused:
  fixes parse :: "string \<Rightarrow> thrown + 'a"
  assumes "routed ''PATCH'' ''/net/posture'' net c (snd (patchJson parse v net ''/net/posture'' body c))"
    and "pr_online p" "\<not> kp_loading k" "\<not> bp_loading b" "\<not> pp_loading n"
  defines "res \<equiv> failure (patchJson parse v net ''/net/posture'' body c)"
  shows "\<exists>m. list_all (\<lambda>i. snd (kp_settle p res (fst (kp_press p i k))) = [ShowError m]) [PressApply, Toggle True, Toggle False] \<and>
    kp_enabled (fst (kp_settle p res (fst (kp_press p (Toggle (\<not> kp_enabled k)) k)))) = kp_enabled k \<and>
    snd (bp_settle res (fst (bp_handleApply p b))) = [ShowError m] \<and>
    list_all (\<lambda>i. snd (pp_settle res (fst (pp_press p i n))) = [ShowError m]) [PressPosture, PressGuardrails] \<and>
    widget_click_settled p on res refreshed = [ShowError m]"
proof -
  obtain e where e: "res = Some (ThrownError e)" using patch_posture_fails [OF assms(1)] res_def by blast
  have k: "kp_press p PressApply k =
      (k\<lparr> kp_loading := True, kp_job := Some Applying \<rparr>, [SendPatch ''/net/posture'' (PostureBody (bound_interface p) (kp_enabled k))])"
    "kp_press p (Toggle x) k = (k\<lparr> kp_enabled := x, kp_loading := True, kp_job := Some (Toggling x) \<rparr>,
       [SendPatch ''/net/posture'' (PostureBody (bound_interface p) x)])" for x
    using assms(2,3) by (simp_all add: kp_press_def kp_handleApply_def kp_toggle_def Let_def)
  have b: "fst (bp_handleApply p b) = b\<lparr> bp_loading := True, bp_waits := True \<rparr>"
    using assms(2,4) by (simp add: bp_handleApply_def)
  have n: "pp_job (fst (pp_press p PressPosture n)) = Some ApplyingPosture"
    "pp_job (fst (pp_press p PressGuardrails n)) = Some ApplyingGuardrails"
    using assms(2,5) by (simp_all add: pp_press_def applyNetPosture_def applyPrivateRecommended_def Let_def)
  show ?thesis
    by (rule exI [of _ "e_message e"])
      (simp add: k b n e kp_settle_def kp_done_def bp_settle_def pp_settle_def widget_click_settled_def Let_def message_or_error)
qed

definition refusing :: "nat \<Rightarrow> attempt" where
  "refusing n = \<lparr> at_now = 0, at_wasAborted = False,
     at_result = Inr \<lparr> r_status = 405, r_statusText = ''Method Not Allowed'', r_text = Inr [] \<rparr> \<rparr>"

definition online_props :: net_props where
  "online_props = \<lparr> pr_netPosture = None, pr_netifs = [''tun0''], pr_vpnStatus = None, pr_online = True, pr_refreshes = True \<rparr>"

theorem posture_changes_are_refused_witness:
  "\<exists>m. widget_click_settled online_props True
     (failure (patchJson Inr [] refusing ''/net/posture'' ''{}'' conn_init)) None = [ShowError m]"
proof -
  have "routed ''PATCH'' ''/net/posture'' refusing c c'" for c c'
    unfolding routed_def answered_with_def by (simp only: unrouted) (simp add: refusing_def list_all_iff)
  from posture_changes_are_refused [OF this, where p = online_props and k = "kill_panel_init online_props"
      and b = "bind_panel_init online_props" and n = "posture_panel_init online_props" and on = True and refreshed = None
      and parse = Inr and v = "[]" and body = "''{}''" and c = conn_init]
  show ?thesis by (auto simp: online_props_def kill_panel_init_def bind_panel_init_def posture_panel_init_def)
qed

text \<open>
  Further fact: applying the drawer's settings changes exactly the grace period and the triggers of the
  daemon's kill switch, to what the drawer shows; switching and choosing the scope change exactly
  those. Each is then reported as done. The source of the VPN is never saved: the drawer's next copy of
  the configuration has the old one.
\<close>

theorem drawer_saves_all_but_vpn_source:
  assumes "dr_config d = Some c" "ks_grace_period_sec c \<le> MAX_GRACE_PERIOD"
    and "drawer_handleApply True d = (d1, Some job, [SendPatch path body])"
    and "h_patch_kill_switch now (as_request body) k = (st, k')"
  shows "st = 200 \<and> k' = k\<lparr> ks_grace_period_sec := ks_grace_period_sec c, ks_triggers := ks_triggers c \<rparr> \<and>
    snd (snd (dr_settle r job (Inr reply) d1)) = [CallUpdate, ShowSuccess ''Kill switch configuration updated''] \<and>
    map_option ks_vpn_source (dr_config (dr_sync (Some k') (fst (dr_settle r job (Inr reply) d1)))) = Some (ks_vpn_source k)"
proof -
  have b: "body = ConfigBody (ks_vpn_source c) (ks_grace_period_sec c) (ks_triggers c)" "job = ApplyingConfig"
    using assms(1,3) by (auto simp: drawer_handleApply_def dr_send_def)
  have "kill_switch_request_valid (as_request body)"
    using assms(2) by (simp add: b as_request_def kill_switch_request_valid_def)
  then have "st = 200 \<and> k' = patch_kill_switch now (as_request body) k" using assms(4) by (auto simp: h_patch_kill_switch_def)
  then show ?thesis
    by (simp add: b as_request_def patch_kill_switch_def Let_def dr_settle_def dr_sync_def)
qed

definition plain_config :: kill_switch_config where
  "plain_config = \<lparr> ks_enabled = True, ks_scope = TorrentOnly,
     ks_vpn_source = \<lparr> vsrc_auto_detect = True, vsrc_allowed_adapters = [] \<rparr>, ks_grace_period_sec = 5,
     ks_triggers = \<lparr> kt_pause_all_torrents = True, kt_stop_seeding = True, kt_disable_dht_pex_lpd = False, kt_block_outbound = False \<rparr>,
     ks_enforcement_state = KsArmed, ks_last_enforcement_ms = None \<rparr>"

theorem drawer_saves_all_but_vpn_source_witness:
  "patch_kill_switch 0 (as_request (ConfigBody (ks_vpn_source (edit_config (EditAllowed ''Wintun'' True) plain_config)) 7
     (ks_triggers plain_config))) plain_config = plain_config\<lparr> ks_grace_period_sec := 7 \<rparr>"
proof -
  let ?c = "edit_config (EditGrace 7) (edit_config (EditAllowed ''Wintun'' True) plain_config)"
  let ?d = "drawer_init (Some ?c)"
  have body: "drawer_handleApply True ?d =
      (?d\<lparr> dr_loading := True \<rparr>, Some ApplyingConfig,
       [SendPatch ''/net/kill-switch'' (ConfigBody (ks_vpn_source ?c) (ks_grace_period_sec ?c) (ks_triggers ?c))])"
    by (simp add: drawer_handleApply_def dr_send_def drawer_init_def)
  have "ks_grace_period_sec ?c \<le> MAX_GRACE_PERIOD" by (simp add: edit_config_def MAX_GRACE_PERIOD_def)
  from drawer_saves_all_but_vpn_source [OF _ this body prod.collapse [symmetric], of 0 plain_config]
  show ?thesis
    by (simp add: drawer_init_def h_patch_kill_switch_def as_request_def kill_switch_request_valid_def MAX_GRACE_PERIOD_def
        patch_kill_switch_def edit_config_def allowlist_toggle_def plain_config_def Let_def)
qed

text \<open>
  Further fact: the two pages contradict each other. When the drawer has switched the kill switch on
  and the page has loaded the posture again, the panel of the network page shows it as disabled, the
  indicator as a risk and the posture as not configured, whatever the daemon is told.
\<close>

theorem pages_contradict_each_other:
  assumes "h_patch_kill_switch now (as_request (EnabledBody True)) k0 = (st, k)"
  shows "ks_enabled k \<and> dr_config (dr_sync (Some k) d) = Some k \<and>
    \<not> kp_enabled (kp_sync (p\<lparr> pr_netPosture := Some (net_posture_reply t vpn k) \<rparr>) s) \<and>
    leak_proof_texts (Some (net_posture_reply t vpn k)) = (''RISK DETECTED'', ''DISABLED'') \<and>
    posture_text (Some (net_posture_reply t vpn k)) = ''UNCONFIGURED''"
  using assms
  by (auto simp: h_patch_kill_switch_def as_request_def kill_switch_request_valid_def patch_kill_switch_def Let_def
      dr_sync_def kp_sync_def leak_proof_or_def net_posture_reply_def leak_proof_texts_def posture_text_def)

theorem pages_contradict_each_other_witness:
  "leak_proof_texts (Some (net_posture_reply 0 (vpn_fallback (Inr None) 0)
     (patch_kill_switch 0 (as_request (EnabledBody True)) plain_config))) = (''RISK DETECTED'', ''DISABLED'')"
proof -
  have "h_patch_kill_switch 0 (as_request (EnabledBody True)) plain_config =
      (200, patch_kill_switch 0 (as_request (EnabledBody True)) plain_config)"
    by (simp add: h_patch_kill_switch_def as_request_def kill_switch_request_valid_def)
  from pages_contradict_each_other [OF this] show ?thesis by blast
qed

text \<open>
  Further fact: a form that was opened before the posture had been loaded keeps an empty interface, so
  applying it later clears the one that is bound; and a form sends the other form's setting as it was
  last loaded, so binding an interface just after the kill switch was switched on switches it off.
\<close>

theorem forms_overwrite_each_other:
  assumes "pr_online p" "pr_netPosture p = Some q" "pr_netPosture p0 = None"
  shows "snd (bp_handleApply p (bind_panel_init p0)) =
      [SendPatch ''/net/posture'' (PostureBody None (np_leak_proof_enabled q))] \<and>
    (\<not> np_leak_proof_enabled q \<longrightarrow> \<not> kp_loading k \<longrightarrow> \<not> bp_loading b \<longrightarrow>
      snd (kp_press p (Toggle True) k) @ snd (bp_handleApply p b) =
        [SendPatch ''/net/posture'' (PostureBody (np_bind_interface q) True),
         SendPatch ''/net/posture'' (PostureBody (trimmed_or_null (bp_iface b)) False)])"
  using assms
  by (auto simp: bp_handleApply_def bind_panel_init_def bound_interface_def trimmed_or_null_def leak_proof_or_def
      kp_press_def kp_toggle_def Let_def)

theorem forms_overwrite_each_other_witness:
  "snd (bp_handleApply (online_props\<lparr> pr_netPosture := Some ((net_posture_reply 0 (vpn_fallback (Inr None) 0) plain_config)
       \<lparr> np_bind_interface := Some ''tun0'' \<rparr>) \<rparr>) (bind_panel_init online_props)) =
   [SendPatch ''/net/posture'' (PostureBody None False)]"
  using forms_overwrite_each_other [of "online_props\<lparr> pr_netPosture := Some ((net_posture_reply 0 (vpn_fallback (Inr None) 0) plain_config)
       \<lparr> np_bind_interface := Some ''tun0'' \<rparr>) \<rparr>" _ online_props]
  by (auto simp: online_props_def net_posture_reply_def)

text \<open>
  Further fact: a switch whose change fails shows afterwards the opposite of what was asked, whatever
  was edited or loaded in between; one whose change succeeds, and that nothing else changes, keeps it.
\<close>

theorem toggle_follows_outcome:
  assumes "pr_online p" "\<not> kp_loading k" "kp_job k' = Some (Toggling b)"
  shows "kp_job (fst (kp_press p (Toggle b) k)) = Some (Toggling b) \<and>
    kp_job (kp_edit e k') = Some (Toggling b) \<and>
    kp_enabled (fst (kp_settle p (Some err) k')) = (\<not> b) \<and>
    kp_enabled (fst (kp_settle p' r1 (fst (kp_settle p None (fst (kp_press p (Toggle b) k)))))) =
      (if pr_refreshes p \<and> r1 \<noteq> None then \<not> b else b)"
  using assms
  by (auto simp: kp_press_def kp_toggle_def kp_edit_def kp_sync_def kp_settle_def kp_done_def Let_def
      split: kill_edit.splits option.splits)

theorem toggle_follows_outcome_witness:
  "kp_enabled (fst (kp_settle online_props (Some ThrownOther) ((kill_panel_init online_props)\<lparr> kp_job := Some (Toggling True) \<rparr>))) = False"
  using toggle_follows_outcome [of online_props "kill_panel_init online_props"
      "(kill_panel_init online_props)\<lparr> kp_job := Some (Toggling True) \<rparr>" True "SetPolicy StopAll" ThrownOther online_props None]
  by (simp add: online_props_def kill_panel_init_def)

text \<open>
  Further fact: the panels for connection policies and for threat models send nothing to the daemon.
  They report that the change will be applied later, and the preset is shown as the active one.
\<close>

theorem presets_send_nothing:
  "times is_request (policies_apply p loading policies) = 0 \<and>
   times is_request (snd (handleApplyPreset p loading preset active)) = 0 \<and>
   fst (handleApplyPreset (p\<lparr> pr_online := True \<rparr>) False preset active) = Some preset"
  by (simp add: policies_apply_def handleApplyPreset_def times_def)

end
