(* ===== verification/NetworkStatus.thy ===== *)
theory NetworkStatus
  imports NetworkPanels AppRefresh Format
begin

text \<open>
  What the page shows of the network: the network page with its four parallel requests
  (\<open>components/NetworkPage.tsx\<close>), the lights and texts of VPN, Tor and daemon (\<open>VpnStatusLed.tsx\<close>,
  \<open>network/VpnDetectionWidget.tsx\<close>, \<open>TorStatusLed.tsx\<close>, \<open>DaemonHealthLed.tsx\<close>), and the status bar
  (\<open>ui/layout/StatusBar.tsx\<close>). How the browser prints a time is a parameter. A string that is
  missing or empty counts as absent.
\<close>

subsection \<open>Network page\<close>

record network_adapter =
  na_name :: string
  na_interface_type :: string
  na_status :: string
  na_gateway :: "string option"
  na_is_default_route :: bool
  na_is_vpn :: bool

record default_route =
  dr_interface :: "string option"
  dr_gateway :: "string option"
  dr_metric :: "int option"
  dr_last_update_ms :: time

record dns_config =
  dns_primary :: "string option"
  dns_secondary :: "string option"
  dns_source :: string

datatype tor_status = TorDisconnected | TorConnecting | TorConnected | TorError

record tor_state =
  tor_status :: tor_status
  tor_socks_addr :: "string option"
  tor_last_check_ms :: time
  tor_error :: "string option"

record network_page =
  pg_adapters :: "network_adapter list"
  pg_route :: "default_route option"
  pg_dns :: "dns_config option"
  pg_torStatus :: "tor_state option"
  pg_loading :: bool
  pg_testResult :: "string option"
  pg_showTestModal :: bool

definition network_page_init :: network_page where
  "network_page_init =
     \<lparr> pg_adapters = [], pg_route = None, pg_dns = None, pg_torStatus = None, pg_loading = False,
       pg_testResult = None, pg_showTestModal = False \<rparr>"

text \<open>
  \<open>Promise.all\<close>: the four replies in the order in which they arrive. The first that fails settles it;
  a failing Tor status counts as none.
\<close>

datatype net_reply =
    AdaptersReply "thrown + network_adapter list option"
  | RouteReply "thrown + default_route"
  | DnsReply "thrown + dns_config"
  | TorReply "thrown + tor_state"

record gathered =
  ga_adapters :: "network_adapter list option option"
  ga_route :: "default_route option"
  ga_dns :: "dns_config option"
  ga_tor :: "tor_state option option"

definition gathered_none :: gathered where
  "gathered_none = \<lparr> ga_adapters = None, ga_route = None, ga_dns = None, ga_tor = None \<rparr>"

definition all_gathered :: "gathered \<Rightarrow> bool" where
  "all_gathered g \<longleftrightarrow> ga_adapters g \<noteq> None \<and> ga_route g \<noteq> None \<and> ga_dns g \<noteq> None \<and> ga_tor g \<noteq> None"

fun gather :: "net_reply list \<Rightarrow> gathered \<Rightarrow> (thrown + gathered) option" where
  "gather [] g = (if all_gathered g then Some (Inr g) else None)"
| "gather (r # rs) g = (case r of
      AdaptersReply (Inl e) \<Rightarrow> Some (Inl e)
    | AdaptersReply (Inr a) \<Rightarrow> gather rs (g\<lparr> ga_adapters := Some a \<rparr>)
    | RouteReply (Inl e) \<Rightarrow> Some (Inl e)
    | RouteReply (Inr x) \<Rightarrow> gather rs (g\<lparr> ga_route := Some x \<rparr>)
    | DnsReply (Inl e) \<Rightarrow> Some (Inl e)
    | DnsReply (Inr x) \<Rightarrow> gather rs (g\<lparr> ga_dns := Some x \<rparr>)
    | TorReply (Inl e) \<Rightarrow> gather rs (g\<lparr> ga_tor := Some None \<rparr>)
    | TorReply (Inr x) \<Rightarrow> gather rs (g\<lparr> ga_tor := Some (Some x) \<rparr>))"

definition refreshData_begin :: "bool \<Rightarrow> network_page \<Rightarrow> network_page \<times> string list" where
  "refreshData_begin online s =
     (if \<not> online then (s, [])
      else (s\<lparr> pg_loading := True \<rparr>, [''/net/adapters'', ''/net/route'', ''/net/dns'', ''/tor/status'']))"

definition refreshData_end :: "thrown + gathered \<Rightarrow> network_page \<Rightarrow> network_page \<times> net_out list" where
  "refreshData_end res s = (case res of
      Inl e \<Rightarrow> (s\<lparr> pg_loading := False \<rparr>, [ShowError (message_or ''Failed to fetch network data'' e)])
    | Inr g \<Rightarrow>
        (s\<lparr> pg_adapters := (case ga_adapters g of Some (Some a) \<Rightarrow> a | _ \<Rightarrow> []), pg_route := ga_route g, pg_dns := ga_dns g,
            pg_torStatus := Option.bind (ga_tor g) id, pg_loading := False \<rparr>, []))"

text \<open>The whole of \<open>refreshData\<close>; \<open>None\<close> while a reply is missing.\<close>

definition refreshData :: "bool \<Rightarrow> net_reply list \<Rightarrow> network_page \<Rightarrow> (network_page \<times> net_out list) option" where
  "refreshData online replies s =
     (if \<not> online then Some (s, [])
      else map_option (\<lambda>res. refreshData_end res (fst (refreshData_begin online s))) (gather replies gathered_none))"

text \<open>\<open>refreshData\<close> does not throw, so only the first request can end in the handler's own message.\<close>

definition handleRefreshVpn :: "bool \<Rightarrow> thrown option \<Rightarrow> net_reply list \<Rightarrow> network_page \<Rightarrow> (network_page \<times> net_out list) option" where
  "handleRefreshVpn online res replies s =
     (if \<not> online then Some (s, [])
      else (let s1 = s\<lparr> pg_loading := True \<rparr>; post = [SendPost ''/net/vpn-status/refresh''] in
        case res of
          Some e \<Rightarrow> Some (s1\<lparr> pg_loading := False \<rparr>, post @ [ShowError (message_or ''Failed to refresh VPN status'' e)])
        | None \<Rightarrow> map_option (\<lambda>(s2, os). (s2\<lparr> pg_loading := False \<rparr>, post @ os)) (refreshData online replies s1)))"

definition handleTestEnforcement :: "bool \<Rightarrow> bool \<Rightarrow> thrown + string \<Rightarrow> network_page \<Rightarrow> network_page \<times> net_out list" where
  "handleTestEnforcement online hasOnSuccess res s =
     (if \<not> online then (s, [])
      else (case res of
          Inr shown \<Rightarrow> (s\<lparr> pg_testResult := Some shown, pg_showTestModal := True, pg_loading := False \<rparr>,
             SendPost ''/net/kill-switch/test'' # (if hasOnSuccess then [ShowSuccess ''Enforcement test completed''] else []))
        | Inl e \<Rightarrow> (s\<lparr> pg_loading := False \<rparr>,
             [SendPost ''/net/kill-switch/test'', ShowError (message_or ''Failed to test enforcement'' e)])))"

datatype state_class = ClassNeutral | ClassOk | ClassError | ClassWarning

definition getEnforcementStateStyle :: "kill_switch_state \<Rightarrow> string \<times> state_class" where
  "getEnforcementStateStyle st = (case st of
      KsDisarmed \<Rightarrow> (''var(--text-muted)'', ClassNeutral)
    | KsArmed \<Rightarrow> (''var(--success)'', ClassOk)
    | KsEngaged \<Rightarrow> (''var(--error)'', ClassError)
    | KsReleasing \<Rightarrow> (''var(--warning)'', ClassWarning))"

definition present :: "string option \<Rightarrow> string option" where
  "present s = (case s of Some x \<Rightarrow> if x \<noteq> [] then Some x else None | None \<Rightarrow> None)"

definition or_dash :: "string option \<Rightarrow> string" where
  "or_dash s = (case present s of Some x \<Rightarrow> x | None \<Rightarrow> DASH)"

definition adapter_row :: "network_adapter \<Rightarrow> string list \<times> string list" where
  "adapter_row a =
     ([na_name a, na_interface_type a, na_status a, or_dash (na_gateway a)],
      (if na_is_default_route a then [''Default Route''] else []) @ (if na_is_vpn a then [''VPN''] else []))"

definition route_rows :: "(time \<Rightarrow> string) \<Rightarrow> default_route \<Rightarrow> (string \<times> string) list" where
  "route_rows locale_date r =
     [(''Interface:'', or_dash (dr_interface r)), (''Gateway:'', or_dash (dr_gateway r))] @
     (case dr_metric r of Some m \<Rightarrow> [(''Metric:'', show_int m)] | None \<Rightarrow> []) @
     [(''Last Update:'', locale_date (dr_last_update_ms r))]"

definition dns_rows :: "dns_config \<Rightarrow> (string \<times> string) list" where
  "dns_rows d =
     [(''Primary:'', or_dash (dns_primary d)), (''Secondary:'', or_dash (dns_secondary d)), (''Source:'', dns_source d)]"


subsection \<open>VPN light and widget\<close>

definition getConnectionTypeLabel :: "connection_type \<Rightarrow> string" where
  "getConnectionTypeLabel t = (case t of ConnVpn \<Rightarrow> ''VPN'' | ConnTor \<Rightarrow> ''Tor'' | ConnI2p \<Rightarrow> ''I2P'' | ConnNonVpn \<Rightarrow> ''Direct'')"

datatype led_state = LedConnected | LedDisconnected | LedUnknown | LedChecking | LedDisabled

definition vpn_led_state :: "vpn_status option \<Rightarrow> led_state" where
  "vpn_led_state v = (case v of None \<Rightarrow> LedDisabled
    | Some s \<Rightarrow> (case vs_posture s of PostureConnected \<Rightarrow> LedConnected | PostureDisconnected \<Rightarrow> LedDisconnected
        | PostureUnknown \<Rightarrow> LedUnknown | PostureChecking \<Rightarrow> LedChecking))"

definition vpn_led_label :: "vpn_status option \<Rightarrow> string" where
  "vpn_led_label v = (case v of None \<Rightarrow> ''VPN: Disabled''
    | Some s \<Rightarrow> (case vs_posture s of PostureConnected \<Rightarrow> getConnectionTypeLabel (vs_connection_type s) @ '': Connected''
        | PostureDisconnected \<Rightarrow> ''VPN: Disconnected'' | PostureUnknown \<Rightarrow> ''VPN: Unknown'' | PostureChecking \<Rightarrow> ''VPN: Checking''))"

text \<open>The tooltip, line by line.\<close>

definition line_of :: "string \<Rightarrow> string option \<Rightarrow> string list" where
  "line_of before s = (case present s of Some x \<Rightarrow> [before @ x] | None \<Rightarrow> [])"

definition vpn_led_tooltip :: "(time \<Rightarrow> string) \<Rightarrow> kill_switch_state \<Rightarrow> vpn_status option \<Rightarrow> string list" where
  "vpn_led_tooltip locale_time ks v = (case v of None \<Rightarrow> [''VPN detection is disabled'']
    | Some s \<Rightarrow>
        (case vs_posture s of
           PostureConnected \<Rightarrow>
             (getConnectionTypeLabel (vs_connection_type s) @ '' connected'' @
               (case present (vs_interface s) of Some i \<Rightarrow> '' via '' @ i | None \<Rightarrow> [])) #
             line_of ''Default route: '' (vs_default_route_interface s) @ line_of ''Public IP: '' (vs_public_ip s) @
             (if ks = KsArmed then [''Kill switch: ARMED''] else [])
         | PostureDisconnected \<Rightarrow>
             ''VPN is not connected'' # (if ks = KsEngaged then [''Kill switch: ENGAGED (enforcement active)''] else [])
         | PostureUnknown \<Rightarrow> [''VPN status is ambiguous (signals disagree)'']
         | PostureChecking \<Rightarrow> [''Detecting VPN status...'']) @
        (if vs_last_check_ms s \<noteq> 0 then [''Last check: '' @ locale_time (vs_last_check_ms s)] else []))"

definition led_name :: "led_state \<Rightarrow> string" where
  "led_name l = (case l of LedConnected \<Rightarrow> ''connected'' | LedDisconnected \<Rightarrow> ''disconnected'' | LedUnknown \<Rightarrow> ''unknown''
    | LedChecking \<Rightarrow> ''checking'' | LedDisabled \<Rightarrow> ''disabled'')"

definition vpn_led_class :: "vpn_status option \<Rightarrow> string" where
  "vpn_led_class v = (let n = led_name (vpn_led_state v) in ''vpnLed vpnLed'' @ js_upper (take 1 n) @ drop 1 n)"

definition widget_posture :: "vpn_status option \<Rightarrow> vpn_posture" where
  "widget_posture v = (case v of Some s \<Rightarrow> vs_posture s | None \<Rightarrow> PostureUnknown)"

definition widget_connected :: "vpn_status option \<Rightarrow> bool" where
  "widget_connected v \<longleftrightarrow> widget_posture v = PostureConnected \<or> Option.bind v vs_detected = Some True"

definition widget_interface :: "vpn_status option \<Rightarrow> string option" where
  "widget_interface v = (case Option.bind v (present \<circ> vs_interface) of
      Some i \<Rightarrow> Some i | None \<Rightarrow> Option.bind v (present \<circ> vs_interfaceName))"

definition widget_type_label :: "vpn_status option \<Rightarrow> string" where
  "widget_type_label v = getConnectionTypeLabel (case v of Some s \<Rightarrow> vs_connection_type s | None \<Rightarrow> ConnNonVpn)"

definition getStatusText :: "vpn_status option \<Rightarrow> string" where
  "getStatusText v = (case widget_posture v of
      PostureConnected \<Rightarrow> js_upper (widget_type_label v) @ '': ACTIVE''
    | PostureDisconnected \<Rightarrow> ''INACTIVE''
    | PostureChecking \<Rightarrow> ''CHECKING...''
    | PostureUnknown \<Rightarrow> ''UNKNOWN'')"

definition widget_details :: "vpn_status option \<Rightarrow> (string \<times> string) list" where
  "widget_details v =
     (if \<not> widget_connected v then []
      else [(''Connection Type:'', widget_type_label v)] @
        (case widget_interface v of Some i \<Rightarrow> [(''Interface:'', i)] | None \<Rightarrow> []) @
        (case Option.bind v (present \<circ> vs_public_ip) of Some ip \<Rightarrow> [(''Public IP:'', ip)] | None \<Rightarrow> []) @
        (if widget_interface v = None then [([], ''Interface detection unavailable'')] else []))"

text \<open>The flash after a change: the effect on \<open>posture\<close>, whose clean-up clears the timer, and the timer.\<close>

record flash =
  fl_prev :: vpn_posture
  fl_changed :: bool
  fl_timer :: "time option"

definition flash_init :: "vpn_posture \<Rightarrow> flash" where
  "flash_init p = \<lparr> fl_prev = p, fl_changed = False, fl_timer = None \<rparr>"

definition flash_effect :: "time \<Rightarrow> vpn_posture \<Rightarrow> flash \<Rightarrow> flash" where
  "flash_effect now p f =
     (if fl_prev f \<noteq> p then \<lparr> fl_prev = p, fl_changed = True, fl_timer = Some (now + 500) \<rparr> else f)"

definition flash_timer :: "time \<Rightarrow> flash \<Rightarrow> flash" where
  "flash_timer now f = (case fl_timer f of
      Some t \<Rightarrow> if t \<le> now then f\<lparr> fl_changed := False, fl_timer := None \<rparr> else f | None \<Rightarrow> f)"

subsection \<open>Status bar\<close>

datatype bar_vpn = BarActive | BarInactive | BarUnknown

definition bar_vpn_status :: "vpn_status option \<Rightarrow> bar_vpn" where
  "bar_vpn_status v = (case v of None \<Rightarrow> BarUnknown
    | Some s \<Rightarrow> if vs_posture s = PostureConnected \<and> vs_connection_type s = ConnVpn then BarActive
        else if vs_posture s = PostureDisconnected then BarInactive else BarUnknown)"

definition status_bar :: "int \<Rightarrow> int \<Rightarrow> bar_vpn \<Rightarrow> string option \<Rightarrow> int option \<Rightarrow> string \<Rightarrow> net_posture option \<Rightarrow> string option \<Rightarrow> string list" where
  "status_bar up down vpn iface diskFree encryption posture version =
     [fmtBytesPerSec down, fmtBytesPerSec up, ''DHT'', ''PEX'', ''LSD'', ''VPN''] @
     (if vpn = BarActive then line_of [] iface else []) @ line_of ''BIND:'' iface @
     (case diskFree of Some d \<Rightarrow> [''DISK:'' @ fmtBytes d] | None \<Rightarrow> []) @ [''ENC:'' @ js_upper encryption] @
     (case posture of Some q \<Rightarrow> [posture_text (Some q)] | None \<Rightarrow> []) @ line_of ''v'' version"

subsection \<open>Tor and daemon lights\<close>

definition tor_color :: "tor_status \<Rightarrow> string" where
  "tor_color t = (case t of TorConnected \<Rightarrow> ''#4CAF50'' | TorConnecting \<Rightarrow> ''#FF9800'' | TorError \<Rightarrow> ''#F44336'' | TorDisconnected \<Rightarrow> ''#666'')"

definition tor_text :: "tor_state \<Rightarrow> string" where
  "tor_text t = (case tor_status t of
      TorConnected \<Rightarrow> ''Tor: Connected'' | TorConnecting \<Rightarrow> ''Tor: Connecting...''
    | TorError \<Rightarrow> ''Tor: Error'' @ (case present (tor_error t) of Some e \<Rightarrow> '' ('' @ e @ '')'' | None \<Rightarrow> [])
    | TorDisconnected \<Rightarrow> ''Tor: Disconnected'')"

text \<open>Colour, text and address of the light.\<close>

definition tor_led :: "bool \<Rightarrow> tor_state option \<Rightarrow> string \<times> string \<times> string option" where
  "tor_led online t = (case t of
      Some s \<Rightarrow> if online then (tor_color (tor_status s), tor_text s, present (tor_socks_addr s)) else (''#666'', ''Tor: Offline'', None)
    | None \<Rightarrow> (''#666'', ''Tor: Offline'', None))"

datatype health_led = HealthyLed | WarningLed | ErrorLed | OfflineLed

definition led_of_health :: "daemon_health \<Rightarrow> health_led" where
  "led_of_health h = (case h of HealthOffline \<Rightarrow> OfflineLed | HealthHealthy \<Rightarrow> HealthyLed | HealthError \<Rightarrow> ErrorLed)"

definition getStateInfo :: "health_led \<Rightarrow> string option \<Rightarrow> string \<times> string \<times> string" where
  "getStateInfo l details =
     (let title = (\<lambda>d. case present details of Some x \<Rightarrow> x | None \<Rightarrow> d) in
      case l of
        HealthyLed \<Rightarrow> (''#4caf50'', ''Connected'', title ''Daemon healthy - All systems operational'')
      | WarningLed \<Rightarrow> (''#ff9800'', ''Limited'', title ''Daemon running with warnings - Check firewall settings'')
      | ErrorLed \<Rightarrow> (''#f44336'', ''Error'', title ''Daemon error - Check connection'')
      | OfflineLed \<Rightarrow> (''#9e9e9e'', ''Offline'', title ''Daemon offline - Connecting...''))"

definition handleHealthClick :: "health_led \<Rightarrow> int option \<Rightarrow> string \<times> string" where
  "handleHealthClick l uptime_sec = (case l of
      OfflineLed \<Rightarrow> (''error'', ''Daemon is offline. Check if the application started correctly.'')
    | ErrorLed \<Rightarrow> (''error'', ''Some torrents have errors. Check the torrent list for details.'')
    | WarningLed \<Rightarrow> (''info'', ''Daemon is running with warnings. Check logs for details.'')
    | HealthyLed \<Rightarrow> (''info'', ''Daemon healthy - Uptime: '' @
        show_int (case uptime_sec of Some u \<Rightarrow> u div 60 | None \<Rightarrow> 0) @ '' minutes''))"

section \<open>Properties\<close>

lemma gather_complete: "gather rs g = Some (Inr g') \<Longrightarrow> all_gathered g'"
  by (induction rs g rule: gather.induct) (auto split: net_reply.splits sum.splits if_splits)

lemma gather_fails:
  assumes "AdaptersReply (Inl e) \<in> set rs"
  shows "\<exists>e'. gather rs g = Some (Inl e')"
  using assms by (induction rs g rule: gather.induct) (auto split: net_reply.splits sum.splits)

text \<open>
  Property C29: one refresh of the network page shows all four answers or changes nothing but reports one
  error; a Tor status that cannot be had counts as none. It is no longer marked as loading then, and
  nothing is sent while offline.
\<close>

theorem network_refresh_all_or_nothing:
  assumes "refreshData True replies s = Some (s', os)"
  shows "\<not> pg_loading s' \<and>
    ((\<exists>m. os = [ShowError m] \<and> s' = s\<lparr> pg_loading := False \<rparr>) \<or>
     (os = [] \<and> (\<exists>g. gather replies gathered_none = Some (Inr g) \<and> all_gathered g \<and> pg_route s' = ga_route g \<and>
        pg_dns s' = ga_dns g \<and> Some (pg_torStatus s') = ga_tor g \<and>
        (\<forall>a. ga_adapters g = Some (Some a) \<longrightarrow> pg_adapters s' = a)))) \<and>
    refreshData False replies s = Some (s, [])"
proof -
  obtain res where r: "gather replies gathered_none = Some res" "(s', os) = refreshData_end res (s\<lparr> pg_loading := True \<rparr>)"
    using assms by (auto simp: refreshData_def refreshData_begin_def)
  show ?thesis
  proof (cases res)
    case (Inr g)
    have "all_gathered g" using gather_complete r(1) Inr by blast
    then show ?thesis
      using r Inr by (auto simp: refreshData_end_def refreshData_def all_gathered_def)
  qed (use r in \<open>auto simp: refreshData_end_def refreshData_def\<close>)
qed

definition net_samples :: "net_reply list" where
  "net_samples =
     [TorReply (Inl ThrownOther), DnsReply (Inr \<lparr> dns_primary = None, dns_secondary = None, dns_source = ''dhcp'' \<rparr>),
      AdaptersReply (Inr None), RouteReply (Inr \<lparr> dr_interface = None, dr_gateway = None, dr_metric = None, dr_last_update_ms = 0 \<rparr>)]"

theorem network_refresh_all_or_nothing_witness:
  "case refreshData True net_samples network_page_init of
     Some (s', os) \<Rightarrow> \<not> pg_loading s' \<and> os = [] \<and> pg_torStatus s' = None | None \<Rightarrow> False"
proof -
  obtain s' os where r: "refreshData True net_samples network_page_init = Some (s', os)"
    and os: "os = []" "pg_torStatus s' = None"
    by (simp add: refreshData_def net_samples_def gathered_none_def all_gathered_def refreshData_end_def)
  show ?thesis using network_refresh_all_or_nothing [OF r] os r by simp
qed

text \<open>
  Further fact: the network page never loads anything from this daemon. It has no route for the
  adapters, so the request for them fails, every refresh ends with an error whatever the other
  requests give, and the page keeps what it had; re-checking the VPN fails as well.
\<close>

theorem network_page_never_loads:
  fixes parse :: "string \<Rightarrow> thrown + network_adapter list option"
  assumes "routed ''GET'' ''/net/adapters'' net c (snd (getJson parse net ''/net/adapters'' c))"
    and "AdaptersReply (fst (getJson parse net ''/net/adapters'' c)) \<in> set replies"
    and "routed ''POST'' ''/net/vpn-status/refresh'' netV cV (snd (postJson parseV v netV ''/net/vpn-status/refresh'' b tmo cV))"
  shows "\<exists>m1 m2. refreshData True replies s = Some (s\<lparr> pg_loading := False \<rparr>, [ShowError m1]) \<and>
    handleRefreshVpn True (failure (postJson parseV v netV ''/net/vpn-status/refresh'' b tmo cV)) later s =
      Some (s\<lparr> pg_loading := False \<rparr>, [SendPost ''/net/vpn-status/refresh'', ShowError m2])"
proof -
  have "router_status ''GET'' ''/net/adapters'' \<noteq> None" by (simp only: unrouted) simp
  from verbs_refused(1) [OF this assms(1)] obtain x where "fst (getJson parse net ''/net/adapters'' c) = Inl (wrap_error x)" by blast
  then obtain e where e: "gather replies gathered_none = Some (Inl e)" using gather_fails assms(2) by metis
  have "router_status ''POST'' ''/net/vpn-status/refresh'' \<noteq> None" by (simp only: unrouted) simp
  from verbs_refused(2) [OF this assms(3)] obtain y where
    y: "fst (postJson parseV v netV ''/net/vpn-status/refresh'' b tmo cV) = Inl (wrap_error y)" by blast
  show ?thesis
    by (intro exI conjI) (simp_all add: refreshData_def refreshData_begin_def refreshData_end_def e handleRefreshVpn_def failure_def y Let_def)
qed

definition missing :: "nat \<Rightarrow> attempt" where
  "missing n = \<lparr> at_now = 0, at_wasAborted = False,
     at_result = Inr \<lparr> r_status = 404, r_statusText = ''Not Found'', r_text = Inr [] \<rparr> \<rparr>"

theorem network_page_never_loads_witness:
  "\<exists>m. refreshData True [AdaptersReply (fst (getJson (\<lambda>t. Inr None) missing ''/net/adapters'' conn_init))] network_page_init =
     Some (network_page_init\<lparr> pg_loading := False \<rparr>, [ShowError m])"
proof -
  have a: "routed ''GET'' ''/net/adapters'' missing c c'" "routed ''POST'' ''/net/vpn-status/refresh'' missing c c'" for c c'
    unfolding routed_def answered_with_def by (simp_all only: unrouted) (simp_all add: missing_def list_all_iff)
  from network_page_never_loads [OF a(1) _ a(2), where parse = "\<lambda>t. Inr None" and parseV = Inr and v = "[]" and b = None
      and tmo = None and c = conn_init and cV = conn_init and s = network_page_init and later = "[]"
      and replies = "[AdaptersReply (fst (getJson (\<lambda>t. Inr None) missing ''/net/adapters'' conn_init))]"]
  show ?thesis by auto
qed

text \<open>
  Further fact: the light, the text of the widget and the status bar agree on a status: the light is
  connected exactly when the text says active, disconnected exactly when it says inactive, and the bar
  says active exactly when the light names a connected VPN. The widget's own dot agrees with them for
  every status the page makes itself, but not for one of the daemon that says both detected and
  disconnected.
\<close>

theorem vpn_displays_agree:
  "(vpn_led_state (Some v) = LedConnected \<longleftrightarrow> getStatusText (Some v) = js_upper (widget_type_label (Some v)) @ '': ACTIVE'') \<and>
   (vpn_led_state (Some v) = LedDisconnected \<longleftrightarrow> getStatusText (Some v) = ''INACTIVE'') \<and>
   (bar_vpn_status (Some v) = BarActive \<longleftrightarrow> vpn_led_label (Some v) = ''VPN: Connected'') \<and>
   (bar_vpn_status (Some v) = BarInactive \<longleftrightarrow> vpn_led_state (Some v) = LedDisconnected) \<and>
   (widget_connected (Some (vpn_fallback orc now)) \<longleftrightarrow> vpn_led_state (Some (vpn_fallback orc now)) = LedConnected) \<and>
   (vs_posture v = PostureDisconnected \<longrightarrow> vs_detected v = Some True \<longrightarrow>
      widget_connected (Some v) \<and> getStatusText (Some v) = ''INACTIVE'')"
  by (cases "vs_posture v"; cases "vs_connection_type v")
    (auto simp: vpn_led_state_def getStatusText_def widget_posture_def widget_type_label_def getConnectionTypeLabel_def
      bar_vpn_status_def vpn_led_label_def widget_connected_def vpn_fallback_def js_upper_def upper_char_def
      split: sum.splits option.splits)

theorem vpn_displays_agree_witness:
  "widget_connected (Some ((vpn_fallback (Inr None) 0)\<lparr> vs_posture := PostureDisconnected, vs_detected := Some True \<rparr>)) \<and>
   getStatusText (Some ((vpn_fallback (Inr None) 0)\<lparr> vs_posture := PostureDisconnected, vs_detected := Some True \<rparr>)) = ''INACTIVE''"
  using vpn_displays_agree [of "(vpn_fallback (Inr None) 0)\<lparr> vs_posture := PostureDisconnected, vs_detected := Some True \<rparr>" "Inr None" 0]
  by simp

definition flash_run :: "(time \<times> vpn_posture) list \<Rightarrow> flash \<Rightarrow> flash" where
  "flash_run evs f = fold (\<lambda>(t, p) f. flash_effect t p (flash_timer t f)) evs f"

definition flash_ok :: "flash \<Rightarrow> bool" where
  "flash_ok f \<longleftrightarrow> fl_changed f = (fl_timer f \<noteq> None)"

text \<open>
  Further fact: however often the posture has changed before, after a change the dot flashes for exactly
  half a second: the timer of an earlier change does not end it, and a status that repeats the
  posture neither starts nor prolongs it.
\<close>

theorem flash_lasts_half_a_second:
  assumes "q \<noteq> fl_prev (flash_run evs (flash_init p))"
  defines "f \<equiv> flash_run evs (flash_init p)"
  shows "fl_changed (flash_timer t (flash_effect now q f)) = (t < now + 500) \<and>
    flash_effect later q (flash_effect now q f) = flash_effect now q f \<and>
    (fl_changed f \<longleftrightarrow> fl_timer f \<noteq> None)"
proof -
  have step: "flash_ok (flash_effect t q (flash_timer t f))" if "flash_ok f" for t q f
    using that by (auto simp: flash_ok_def flash_effect_def flash_timer_def split: option.splits)
  have "flash_ok f \<Longrightarrow> flash_ok (flash_run evs f)" for f
    by (induction evs arbitrary: f) (auto simp: flash_run_def step split: prod.splits)
  moreover have "flash_ok (flash_init p)" by (simp add: flash_ok_def flash_init_def)
  ultimately have "flash_ok f" by (simp add: f_def)
  then show ?thesis
    using assms(1) by (auto simp: f_def [symmetric] flash_ok_def flash_effect_def flash_timer_def)
qed

theorem flash_lasts_half_a_second_witness:
  "fl_changed (flash_timer 799 (flash_effect 300 PostureConnected
     (flash_run [(0, PostureChecking)] (flash_init PostureUnknown))))"
  using flash_lasts_half_a_second [of PostureConnected "[(0, PostureChecking)]" PostureUnknown 799 300]
  by (simp add: flash_run_def flash_effect_def flash_timer_def flash_init_def)

text \<open>
  Further fact: the light of the daemon never shows a warning, and an unreachable daemon is grey, not
  red: of the meanings its description gives, only green is shown as described.
\<close>

theorem health_light_meanings:
  "led_of_health (daemonHealthState online statuses) \<noteq> WarningLed \<and>
   fst (getStateInfo (led_of_health (daemonHealthState False statuses)) details) = ''#9e9e9e'' \<and>
   (fst (getStateInfo (led_of_health (daemonHealthState online statuses)) details) = ''#4caf50'' \<longleftrightarrow>
      online \<and> list_all (\<lambda>p. ts_state (snd p) \<noteq> ErrorState) statuses)"
  by (auto simp: led_of_health_def daemonHealthState_def getStateInfo_def Let_def list_all_iff)

end
