(* ===== verification/LogView.thy ===== *)
theory LogView
  imports LogTail Errors
begin

text \<open>
  The log panel (\<open>components/LogViewer.tsx\<close>) and the bridge it hears the main process through
  (\<open>preload/preload.ts\<close>): which channel each function of the bridge uses, and the listeners it adds
  and removes. The panel is composed with the watcher of \<open>LogTail\<close>.
\<close>

subsection \<open>Bridge\<close>

text \<open>A function of the bridge asks over a channel, listens to one, or does both.\<close>

datatype bridge_kind = Invokes string | Listens string | InvokesAndListens string string

definition orc_bridge :: "(string \<times> bridge_kind) list" where
  "orc_bridge =
     [(''netifs'', Invokes ''netifs''), (''vpnStatus'', Invokes ''vpn-status''), (''iconPath'', Invokes ''get-icon-path''),
      (''onMagnetLink'', Listens ''magnet-link''), (''onTorrentFile'', Listens ''open-torrent-file''),
      (''firewall.check'', Invokes ''firewall:check''), (''firewall.checkManaged'', Invokes ''firewall:check-managed''),
      (''firewall.addRule'', Invokes ''firewall:add-rule''), (''firewall.addRulesBatch'', Invokes ''firewall:add-rules-batch''),
      (''firewall.removeRule'', Invokes ''firewall:remove-rule''),
      (''daemon.getLogPath'', Invokes ''daemon:log-path''), (''daemon.openLog'', Invokes ''daemon:open-log''),
      (''daemon.start'', Invokes ''daemon:start''), (''daemon.stop'', Invokes ''daemon:stop''),
      (''daemon.restart'', Invokes ''daemon:restart''), (''daemon.getStatus'', Invokes ''daemon:status''),
      (''daemon.readLogs'', Invokes ''daemon:read-logs''),
      (''daemon.watchLogs'', InvokesAndListens ''daemon:watch-logs'' ''daemon:log-line''),
      (''onShuttingDown'', Listens ''app:shutting-down''),
      (''showSaveFolderDialog'', Invokes ''dialog:choose-save-folder''),
      (''notificationSound.getDefaults'', Invokes ''notification-sound:get-defaults''),
      (''notificationSound.setDefault'', Invokes ''notification-sound:set-default''),
      (''notificationSound.chooseFile'', Invokes ''notification-sound:choose''),
      (''notificationSound.getUrl'', Invokes ''notification-sound:get-url''),
      (''notificationSound.clear'', Invokes ''notification-sound:clear'')]"

definition invoked_channels :: "string list" where
  "invoked_channels = concat (map (\<lambda>b. case snd b of Invokes c \<Rightarrow> [c] | Listens c \<Rightarrow> [] | InvokesAndListens c l \<Rightarrow> [c]) orc_bridge)"

text \<open>
  A subscription wraps the callback in a new handler, named by a number, and returns what removes that
  handler.
\<close>

record ipc_listeners =
  il_handlers :: "(string \<times> nat) list"
  il_next :: nat

definition subscribe :: "string \<Rightarrow> ipc_listeners \<Rightarrow> nat \<times> ipc_listeners" where
  "subscribe channel l =
     (il_next l, \<lparr> il_handlers = il_handlers l @ [(channel, il_next l)], il_next = Suc (il_next l) \<rparr>)"

definition unsubscribe :: "string \<Rightarrow> nat \<Rightarrow> ipc_listeners \<Rightarrow> ipc_listeners" where
  "unsubscribe channel h l = l\<lparr> il_handlers := filter (\<lambda>x. x \<noteq> (channel, h)) (il_handlers l) \<rparr>"

definition hears :: "ipc_listeners \<Rightarrow> string \<Rightarrow> nat list" where
  "hears l channel = concat (map (\<lambda>(c, h). if c = channel then [h] else []) (il_handlers l))"

subsection \<open>Panel\<close>

record log_viewer =
  lg_logs :: "string list"
  lg_isLoading :: bool
  lg_autoScroll :: bool

definition log_viewer_init :: log_viewer where
  "log_viewer_init = \<lparr> lg_logs = [], lg_isLoading = True, lg_autoScroll = True \<rparr>"

text \<open>\<open>loadInitialLogs\<close>: the outcome of reading, or \<open>None\<close> when the bridge cannot read.\<close>

definition loadInitialLogs :: "(thrown + string list) option \<Rightarrow> log_viewer \<Rightarrow> log_viewer" where
  "loadInitialLogs res v = (case res of
      Some (Inr initialLogs) \<Rightarrow> v\<lparr> lg_logs := initialLogs, lg_isLoading := False \<rparr>
    | Some (Inl e) \<Rightarrow> v\<lparr> lg_isLoading := False \<rparr>
    | None \<Rightarrow> v\<lparr> lg_isLoading := False \<rparr>)"

text \<open>\<open>xs.slice(-n)\<close>; for zero it is the whole list.\<close>

definition slice_last :: "nat \<Rightarrow> 'a list \<Rightarrow> 'a list" where
  "slice_last n xs = (if n = 0 then xs else last_n n xs)"

definition handleNewLog :: "nat \<Rightarrow> string \<Rightarrow> log_viewer \<Rightarrow> log_viewer" where
  "handleNewLog maxLines line v =
     (let newLogs = lg_logs v @ [line] in
      v\<lparr> lg_logs := (if length newLogs > maxLines then slice_last maxLines newLogs else newLogs) \<rparr>)"

definition handleScroll :: "int \<Rightarrow> int \<Rightarrow> int \<Rightarrow> log_viewer \<Rightarrow> log_viewer" where
  "handleScroll scrollTop scrollHeight clientHeight v = v\<lparr> lg_autoScroll := (scrollTop + clientHeight \<ge> scrollHeight - 10) \<rparr>"

definition handleScrollToBottom :: "log_viewer \<Rightarrow> log_viewer" where
  "handleScrollToBottom v = v\<lparr> lg_autoScroll := True \<rparr>"

text \<open>Where the list scrolls to: its end, or it stays.\<close>

definition scrollToBottom :: "int \<Rightarrow> int \<Rightarrow> log_viewer \<Rightarrow> int" where
  "scrollToBottom scrollTop scrollHeight v = (if lg_autoScroll v then scrollHeight else scrollTop)"

definition getLogLineClass :: "string \<Rightarrow> string" where
  "getLogLineClass line =
     (let lower = js_lower line in
      if js_includes lower ''error'' \<or> js_includes lower ''panic'' \<or> js_includes lower ''critical'' then ''logLine error''
      else if js_includes lower ''warn'' \<or> js_includes lower ''warning'' then ''logLine warn''
      else if js_includes lower ''info'' \<or> js_includes lower ''startup'' then ''logLine info''
      else ''logLine'')"

definition receive :: "nat \<Rightarrow> string list \<Rightarrow> log_viewer \<Rightarrow> log_viewer" where
  "receive maxLines ls v = fold (handleNewLog maxLines) ls v"

text \<open>The watcher after the panel of one page has been opened \<open>n\<close> times.\<close>

fun opened_times :: "nat \<Rightarrow> string \<Rightarrow> nat option \<Rightarrow> string \<Rightarrow> log_watch \<Rightarrow> log_watch" where
  "opened_times 0 path fsize sender w = w"
| "opened_times (Suc n) path fsize sender w = opened_times n path fsize sender (snd (watch_logs (Some path) fsize sender w))"

section \<open>Properties\<close>

lemma last_n_append: "last_n n (last_n n xs @ ys) = last_n n (xs @ ys)"
  by (simp add: last_n_def drop_append) (cases "length xs \<le> n"; simp add: add.commute)

lemma last_n_short: "length xs \<le> n \<Longrightarrow> last_n n xs = xs" by (simp add: last_n_def)

lemma length_last_n [simp]: "length (last_n n xs) = min n (length xs)" by (simp add: last_n_def)

lemma handleNewLog_logs:
  "0 < n \<Longrightarrow> lg_logs (handleNewLog n line v) = last_n n (lg_logs v @ [line])"
  by (auto simp: handleNewLog_def slice_last_def last_n_def Let_def)

lemma receive_logs:
  assumes "0 < n" "length (lg_logs v) \<le> n"
  shows "lg_logs (receive n ls v) = last_n n (lg_logs v @ ls)"
  using assms(2)
proof (induction ls arbitrary: v)
  case Nil
  then show ?case by (simp add: receive_def last_n_short)
next
  case (Cons l ls)
  have len: "length (lg_logs (handleNewLog n l v)) \<le> n" by (simp add: handleNewLog_logs [OF assms(1)])
  have "lg_logs (receive n (l # ls) v) = lg_logs (receive n ls (handleNewLog n l v))" by (simp add: receive_def)
  also have "\<dots> = last_n n (last_n n (lg_logs v @ [l]) @ ls)"
    using Cons.IH [OF len] by (simp add: handleNewLog_logs [OF assms(1)])
  also have "\<dots> = last_n n (lg_logs v @ l # ls)" by (simp add: last_n_append)
  finally show ?case .
qed

text \<open>
  Further fact: the log panel shows the last lines, at most as many as it was asked to keep, of what it
  has loaded followed by what it was sent since. Lines sent while the file is still being read are
  replaced by the loaded ones.
\<close>

theorem log_panel_shows_last_lines:
  assumes "0 < n" "length loaded \<le> n"
  shows "lg_logs (receive n later (loadInitialLogs (Some (Inr loaded)) (receive n early v))) = last_n n (loaded @ later) \<and>
    length (lg_logs (receive n later (loadInitialLogs (Some (Inr loaded)) (receive n early v)))) \<le> n"
  using receive_logs [OF assms(1), of "loadInitialLogs (Some (Inr loaded)) (receive n early v)" later] assms(2)
  by (simp add: loadInitialLogs_def)

theorem log_panel_shows_last_lines_witness:
  "lg_logs (receive 2 [''c''] (loadInitialLogs (Some (Inr [''a'', ''b''])) (receive 2 [''x''] log_viewer_init))) = [''b'', ''c'']"
  using log_panel_shows_last_lines [of 2 "[''a'', ''b'']" "[''c'']" "[''x'']" log_viewer_init]
  by (simp add: last_n_def)

lemma opened_callbacks:
  assumes "path \<noteq> []" "lw_callbacks w = (if l = [] then [] else [(sender, l)])"
  shows "lw_callbacks (opened_times n path fsize sender w) =
      (if l @ [lw_next w..<lw_next w + n] = [] then [] else [(sender, l @ [lw_next w..<lw_next w + n])]) \<and>
    (jm_get (lw_watchers w) path = Some start \<longrightarrow>
      jm_get (lw_watchers (opened_times n path fsize sender w)) path = Some start)"
  using assms(2)
proof (induction n arbitrary: w l)
  case (Suc n)
  let ?w = "snd (watch_logs (Some path) fsize sender w)"
  have cb: "lw_callbacks ?w = [(sender, l @ [lw_next w])]"
    using assms(1) Suc.prems by (auto simp: watch_logs_def Let_def jm_get_def)
  have nx: "lw_next ?w = Suc (lw_next w)" using assms(1) by (simp add: watch_logs_def Let_def)
  have wt: "jm_get (lw_watchers w) path = Some start \<longrightarrow> jm_get (lw_watchers ?w) path = Some start"
    using assms(1) by (simp add: watch_logs_def Let_def)
  have range: "lw_next w # [Suc (lw_next w)..<Suc (lw_next w) + n] = [lw_next w..<lw_next w + Suc n]"
    by (simp add: upt_conv_Cons del: upt_Suc)
  have ih: "lw_callbacks (opened_times n path fsize sender ?w) =
      [(sender, (l @ [lw_next w]) @ [Suc (lw_next w)..<Suc (lw_next w) + n])]"
    using Suc.IH [of ?w "l @ [lw_next w]"] cb nx by simp
  have "jm_get (lw_watchers w) path = Some start \<longrightarrow>
      jm_get (lw_watchers (opened_times n path fsize sender ?w)) path = Some start"
    using Suc.IH [of ?w "l @ [lw_next w]"] cb wt by simp
  then show ?case using ih range by (simp del: upt_Suc)
qed simp

text \<open>
  Further fact: a page that has opened the log panel \<open>n\<close> times shows every line that is then written
  \<open>n\<close> times, although only one panel is open: the bridge removes its listener when a panel closes,
  but every opening leaves another callback with the main process.
\<close>

theorem reopened_panel_repeats_lines:
  fixes n :: nat and fsize :: "nat option" and sender :: string
  assumes "path \<noteq> []" "jm_get (lw_watchers w) path = Some (length body)" "lw_callbacks w = []"
    and "chunk \<noteq> []" "length chunk \<le> MAX_LOG_READ_BYTES" "0 < maxLines" "length (lg_logs v) \<le> maxLines"
  defines "calls \<equiv> snd (on_change path (length (body @ chunk)) (length body) (Some (body @ chunk)) True
      (opened_times n path fsize sender w))"
  shows "lg_logs (receive maxLines (map snd calls) v) =
    last_n maxLines (lg_logs v @ concat (map (replicate n) (log_lines chunk)))"
proof -
  let ?w = "opened_times n path fsize sender w"
  have cb: "lw_callbacks ?w = (if [lw_next w..<lw_next w + n] = [] then [] else [(sender, [lw_next w..<lw_next w + n])])"
    and start: "jm_get (lw_watchers ?w) path = Some (length body)"
    using opened_callbacks [of path w "[]" sender n fsize "length body"] assms(1-3) by simp_all
  have all: "all_callbacks ?w = [lw_next w..<lw_next w + n]" by (auto simp: all_callbacks_def cb)
  have "read_at (body @ chunk) (length body) (min (length chunk) MAX_LOG_READ_BYTES) = chunk"
    using assms(5) by (simp add: read_at_def)
  then have "calls = concat (map (\<lambda>line. map (\<lambda>cb. (cb, line)) [lw_next w..<lw_next w + n]) (log_lines chunk))"
    using assms(4) by (simp add: calls_def on_change_def start all Let_def)
  then have "map snd calls = concat (map (replicate n) (log_lines chunk))"
    by (simp add: map_concat comp_def map_replicate_const)
  then show ?thesis using receive_logs [OF assms(6,7), of "map snd calls"] by simp
qed

theorem reopened_panel_repeats_lines_witness:
  "lg_logs (receive 300 (map snd (snd (on_change ''d.log'' 2 0 (Some ''up'') True
     (opened_times 2 ''d.log'' (Some 0) ''1'' (log_watch_init\<lparr> lw_watchers := [(''d.log'', 0)] \<rparr>))))) log_viewer_init) = [''up'', ''up'']"
proof -
  have "log_lines ''up'' = [''up'']" by code_simp
  with reopened_panel_repeats_lines [of "''d.log''" "log_watch_init\<lparr> lw_watchers := [(''d.log'', 0)] \<rparr>" "[]" "''up''" 300
      log_viewer_init 2 "Some 0" "''1''"]
  show ?thesis
    by (simp add: jm_get_def log_watch_init_def MAX_LOG_READ_BYTES_def log_viewer_init_def last_n_def numeral_2_eq_2)
qed

text \<open>
  Further fact: cleaning up a subscription removes its own listener and no other, and after it nothing is
  heard through it; the bridge asks every channel by one function only.
\<close>

theorem unsubscribe_removes_one:
  assumes "subscribe channel l = (h, l')" "list_all (\<lambda>x. snd x < il_next l) (il_handlers l)"
  shows "h \<in> set (hears l' channel) \<and> il_handlers (unsubscribe channel h l') = il_handlers l \<and> distinct invoked_channels"
proof -
  have "\<forall>x \<in> set (il_handlers l). x \<noteq> (channel, il_next l)" using assms(2) by (auto simp: list_all_iff)
  then have "filter (\<lambda>x. x \<noteq> (channel, il_next l)) (il_handlers l) = il_handlers l" by (simp add: filter_id_conv)
  moreover have "distinct invoked_channels" by (simp add: invoked_channels_def orc_bridge_def)
  moreover have "h \<in> set (hears l' channel)" using assms(1) by (auto simp: subscribe_def hears_def)
  ultimately show ?thesis using assms(1) by (auto simp: subscribe_def unsubscribe_def)
qed

theorem unsubscribe_removes_one_witness:
  "il_handlers (unsubscribe ''magnet-link'' 3 (snd (subscribe ''magnet-link'' \<lparr> il_handlers = [(''magnet-link'', 2)], il_next = 3 \<rparr>))) =
     [(''magnet-link'', 2)]"
  using unsubscribe_removes_one [of "''magnet-link''" "\<lparr> il_handlers = [(''magnet-link'', 2)], il_next = 3 \<rparr>" 3]
  by (simp add: subscribe_def)

end
