(* ===== verification/PageControls.thy ===== *)
theory PageControls
  imports ChangeForm PageShell AddTorrents AppView Format
begin

text \<open>
  Controls of the page that start one operation and wait for it: the daemon's panel
  (\<open>components/DaemonControl.tsx\<close>), the operations of a torrent (\<open>components/TorrentDetails.tsx\<close>), and
  of \<open>ui/App.tsx\<close> the toolbar, the keyboard shortcuts and the confirmation of the file selection.
  Pressing runs to the first await, settling goes on with the outcome; an input that is drawn disabled
  gives no event.
\<close>

subsection \<open>Daemon panel\<close>

datatype daemon_view = ViewStopped | ViewStarting | ViewRunning | ViewStopping | ViewUnknown
datatype daemon_op = OpStart | OpStop | OpRestart | OpVerify

datatype control_out =
    AskMain daemon_op
  | AskDaemon "string list"
  | TellSuccess string
  | TellError string
  | RefreshStatusIn time

record daemon_panel =
  dp_status :: daemon_view
  dp_pid :: "nat option"
  dp_isOperating :: bool
  dp_job :: "daemon_op option"

definition daemon_panel_init :: daemon_panel where
  "daemon_panel_init = \<lparr> dp_status = ViewUnknown, dp_pid = None, dp_isOperating = False, dp_job = None \<rparr>"

text \<open>\<open>fetchStatus\<close>: what the main process answers, or that asking fails.\<close>

definition fetchStatus :: "thrown + (daemon_view \<times> nat option) \<Rightarrow> daemon_panel \<Rightarrow> daemon_panel" where
  "fetchStatus res s = (case res of
      Inr (st, pid) \<Rightarrow> s\<lparr> dp_status := st, dp_pid := pid \<rparr> | Inl e \<Rightarrow> s\<lparr> dp_status := ViewUnknown \<rparr>)"

definition daemon_press :: "daemon_op \<Rightarrow> daemon_panel \<Rightarrow> daemon_panel \<times> control_out list" where
  "daemon_press op s =
     (if dp_isOperating s then (s, [])
      else (s\<lparr> dp_isOperating := True, dp_job := Some op \<rparr>,
        [if op = OpVerify then AskDaemon [''/health'', ''/version'', ''/torrents''] else AskMain op]))"

text \<open>Which buttons are enabled.\<close>

definition daemon_enabled :: "daemon_op \<Rightarrow> daemon_panel \<Rightarrow> bool" where
  "daemon_enabled op s \<longleftrightarrow> \<not> dp_isOperating s \<and>
     (op = OpStart \<longrightarrow> dp_status s \<noteq> ViewRunning \<and> dp_status s \<noteq> ViewStarting) \<and>
     (op = OpStop \<longrightarrow> dp_status s \<noteq> ViewStopped \<and> dp_status s \<noteq> ViewStopping)"

definition daemon_click :: "daemon_op \<Rightarrow> daemon_panel \<Rightarrow> daemon_panel \<times> control_out list" where
  "daemon_click op s = (if daemon_enabled op s then daemon_press op s else (s, []))"

definition op_success :: "daemon_op \<Rightarrow> string" where
  "op_success op = (case op of OpStart \<Rightarrow> ''Daemon started successfully'' | OpStop \<Rightarrow> ''Daemon stopped successfully''
    | OpRestart \<Rightarrow> ''Daemon restarted successfully'' | OpVerify \<Rightarrow> [])"

definition op_failure :: "daemon_op \<Rightarrow> string" where
  "op_failure op = (case op of OpStart \<Rightarrow> ''Failed to start daemon'' | OpStop \<Rightarrow> ''Failed to stop daemon''
    | OpRestart \<Rightarrow> ''Failed to restart daemon'' | OpVerify \<Rightarrow> ''Connection check failed'')"

text \<open>
  The outcome of an operation of the main process, success and error text; and of the three requests,
  the first error or \<open>ok\<close>, the version and the number of torrents.
\<close>

datatype daemon_reply = MainReply "thrown + (bool \<times> string option)" | ThreeReplies "thrown + (bool \<times> string option \<times> nat)"

definition control_messages :: "daemon_op \<Rightarrow> thrown + (bool \<times> string option) \<Rightarrow> control_out list" where
  "control_messages op res = (case res of
      Inl e \<Rightarrow> [TellError (message_or (op_failure op) e)]
    | Inr (success, err) \<Rightarrow>
        if success then [TellSuccess (op_success op), RefreshStatusIn (if op = OpRestart then 2000 else 1000)]
        else [TellError (case err of Some m \<Rightarrow> if m \<noteq> [] then m else op_failure op | None \<Rightarrow> op_failure op)])"

definition verify_messages :: "thrown + (bool \<times> string option \<times> nat) \<Rightarrow> control_out list" where
  "verify_messages res = (case res of
      Inl e \<Rightarrow> [TellError (message_or (op_failure OpVerify) e)]
    | Inr (ok, version, n) \<Rightarrow>
        if ok then [TellSuccess (''Connection OK: daemon v'' @ (case version of Some v \<Rightarrow> v | None \<Rightarrow> ''?'') @ '', '' @
            (if n = 1 then ''1 torrent'' else show_nat n @ '' torrents''))]
        else [TellError ''Health check failed (ok=false)''])"

definition daemon_settle :: "daemon_reply \<Rightarrow> daemon_panel \<Rightarrow> daemon_panel \<times> control_out list" where
  "daemon_settle reply s =
     (let idle = s\<lparr> dp_isOperating := False, dp_job := None \<rparr> in
      case dp_job s of
        None \<Rightarrow> (s, [])
      | Some op \<Rightarrow> (case reply of
          MainReply res \<Rightarrow> if op = OpVerify then (s, []) else (idle, control_messages op res)
        | ThreeReplies res \<Rightarrow> if op = OpVerify then (idle, verify_messages res) else (s, [])))"

definition getStatusColor :: "daemon_view \<Rightarrow> string" where
  "getStatusColor st = (case st of ViewRunning \<Rightarrow> ''green'' | ViewStarting \<Rightarrow> ''yellow'' | ViewStopping \<Rightarrow> ''orange''
    | ViewStopped \<Rightarrow> ''red'' | ViewUnknown \<Rightarrow> ''gray'')"

definition daemon_text :: "daemon_view \<Rightarrow> nat option \<Rightarrow> string" where
  "daemon_text st pid = (case st of
      ViewRunning \<Rightarrow> ''Running'' @ (case pid of Some p \<Rightarrow> if p \<noteq> 0 then '' (PID: '' @ show_nat p @ '')'' else [] | None \<Rightarrow> [])
    | ViewStarting \<Rightarrow> ''Starting...'' | ViewStopping \<Rightarrow> ''Stopping...'' | ViewStopped \<Rightarrow> ''Stopped'' | ViewUnknown \<Rightarrow> ''Unknown'')"

subsection \<open>Operations of a torrent\<close>

datatype torrent_action = StartTorrent | StopTorrent | SetProfile torrent_mode "nat option"

datatype details_out =
    PostAction string
  | PatchProfile string torrent_mode "nat option"
  | DetailsUpdate
  | DetailsSuccess string
  | DetailsError string

definition mode_name :: "torrent_mode \<Rightarrow> string" where
  "mode_name m = (case m of ModeStandard \<Rightarrow> ''standard'' | ModePrivate \<Rightarrow> ''private'' | ModeAnonymous \<Rightarrow> ''anonymous''
    | ModeTorAssist \<Rightarrow> ''tor_assist'')"

definition verb_of :: "torrent_action \<Rightarrow> string" where
  "verb_of a = (case a of StartTorrent \<Rightarrow> ''start'' | StopTorrent \<Rightarrow> ''stop'' | SetProfile m h \<Rightarrow> ''profile'')"

definition hops_or :: "nat \<Rightarrow> nat option \<Rightarrow> nat" where
  "hops_or d h = (case h of Some n \<Rightarrow> n | None \<Rightarrow> d)"

definition action_key :: "torrent_action \<Rightarrow> string \<Rightarrow> string" where
  "action_key a tid = (case a of
      SetProfile m h \<Rightarrow> mode_name m @ ''-'' @ show_nat (hops_or 0 h) @ ''-'' @ tid
    | _ \<Rightarrow> verb_of a @ ''-'' @ tid)"

record details_panel =
  td_loadingAction :: "string option"
  td_job :: "torrent_action option"

definition details_press :: "torrent option \<Rightarrow> torrent_action \<Rightarrow> details_panel \<Rightarrow> details_panel \<times> details_out list" where
  "details_press torrent a s = (case torrent of
      None \<Rightarrow> (s, [])
    | Some t \<Rightarrow>
        if td_loadingAction s \<noteq> None then (s, [])
        else (\<lparr> td_loadingAction = Some (action_key a (t_id t)), td_job = Some a \<rparr>,
          [case a of SetProfile m h \<Rightarrow> PatchProfile (torrent_path ''profile'' (t_id t)) m h
           | _ \<Rightarrow> PostAction (torrent_path (verb_of a) (t_id t))]))"

definition details_enabled :: "bool \<Rightarrow> torrent \<Rightarrow> torrent_action \<Rightarrow> details_panel \<Rightarrow> bool" where
  "details_enabled online t a s \<longleftrightarrow> online \<and> td_loadingAction s = None \<and>
     (case a of StartTorrent \<Rightarrow> \<not> t_running t | StopTorrent \<Rightarrow> t_running t | SetProfile m h \<Rightarrow> True)"

definition details_message :: "torrent_action \<Rightarrow> string" where
  "details_message a = (case a of
      SetProfile m h \<Rightarrow> ''Profile set: '' @ mode_name m @ (if m = ModeAnonymous then '' ('' @ show_nat (hops_or 1 h) @ '' hops)'' else [])
    | _ \<Rightarrow> ''Torrent '' @ verb_of a @ ''ed'')"

definition details_settle :: "thrown option \<Rightarrow> details_panel \<Rightarrow> details_panel \<times> details_out list" where
  "details_settle res s = (case td_job s of
      None \<Rightarrow> (s, [])
    | Some a \<Rightarrow> (\<lparr> td_loadingAction = None, td_job = None \<rparr>,
        (case res of
           None \<Rightarrow> [DetailsUpdate, DetailsSuccess (details_message a)]
         | Some e \<Rightarrow> [DetailsError (message_or (case a of SetProfile m h \<Rightarrow> ''Failed to set profile''
              | _ \<Rightarrow> ''Failed to '' @ verb_of a) e)])))"

definition live_stats :: "time \<Rightarrow> torrent \<Rightarrow> torrent_status \<Rightarrow> string \<Rightarrow> (string \<times> string) list" where
  "live_stats now t s state_text =
     [(''State'', state_text), (''Download'', fmtBytesPerSec (ts_down_rate_bps s)), (''Upload'', fmtBytesPerSec (ts_up_rate_bps s)),
      (''Time elapsed'', fmtTimeElapsed now (t_added_at_ms t)),
      (''ETA'', fmtEta (getEffectiveEta (Some (ts_eta_sec s)) (Some state_text) (ts_total_bytes s) (ts_downloaded_bytes s)
         (ts_down_rate_bps s)) (Some state_text))]"

subsection \<open>Toolbar\<close>

text \<open>
  \<open>loadingOperations\<close> is a set of the operations that run. Pause and stop share their mark. An
  operation is started by its button, which is disabled while its mark is set, and ended when its
  requests have settled.
\<close>

datatype toolbar_op = TbStart | TbPause | TbStop | TbRemove | TbRecheck | TbAnnounce

definition op_id :: "toolbar_op \<Rightarrow> string" where
  "op_id op = (case op of TbStart \<Rightarrow> ''start'' | TbPause \<Rightarrow> ''stop'' | TbStop \<Rightarrow> ''stop'' | TbRemove \<Rightarrow> ''remove''
    | TbRecheck \<Rightarrow> ''recheck'' | TbAnnounce \<Rightarrow> ''announce'')"

record toolbar =
  tb_loading :: "string set"
  tb_running :: "toolbar_op list"

definition toolbar_start :: "bool \<Rightarrow> bool \<Rightarrow> toolbar_op \<Rightarrow> toolbar \<Rightarrow> toolbar" where
  "toolbar_start online selected op s =
     (if \<not> online \<or> op_id op \<in> tb_loading s then s
      else if \<not> selected \<and> (op = TbRecheck \<or> op = TbAnnounce) then s
      else s\<lparr> tb_loading := insert (op_id op) (tb_loading s), tb_running := op # tb_running s \<rparr>)"

definition toolbar_end :: "toolbar_op \<Rightarrow> toolbar \<Rightarrow> toolbar" where
  "toolbar_end op s =
     (if op \<in> set (tb_running s)
      then s\<lparr> tb_loading := tb_loading s - {op_id op}, tb_running := remove1 op (tb_running s) \<rparr> else s)"

text \<open>
  The bulk actions of the page (the panel for several torrents, pausing and resuming all, the
  kill switch) set the same marks and do not look whether one is set; \<open>some\<close> says whether there is a
  torrent to act on.
\<close>

definition bulk_start :: "bool \<Rightarrow> bool \<Rightarrow> toolbar_op \<Rightarrow> toolbar \<Rightarrow> toolbar" where
  "bulk_start online some op s =
     (if \<not> online \<or> \<not> some \<or> op = TbRecheck \<or> op = TbAnnounce then s
      else s\<lparr> tb_loading := insert (op_id op) (tb_loading s), tb_running := op # tb_running s \<rparr>)"

definition toolbar_requests :: "(string \<Rightarrow> thrown + unit) \<Rightarrow> bool \<Rightarrow> toolbar_op \<Rightarrow> string list \<Rightarrow> op_out list" where
  "toolbar_requests post online op selectedIds = (case op of
      TbStart \<Rightarrow> handleBulkStart post online selectedIds
    | TbPause \<Rightarrow> handleBulkPause post online selectedIds
    | TbStop \<Rightarrow> handleBulkStop post online selectedIds
    | TbRemove \<Rightarrow> handleBulkRemove post online selectedIds
    | TbRecheck \<Rightarrow> handleForceRecheck post online selectedIds
    | TbAnnounce \<Rightarrow> handleForceAnnounce post online selectedIds)"

subsection \<open>Shortcuts of the page\<close>

datatype app_page = PageTorrents | PageNetwork | PageSettings | PageEvents

record page_view =
  pv_addTorrent :: bool
  pv_drawer :: bool
  pv_shortcuts :: bool
  pv_page :: app_page
  pv_dialog :: open_dialog_state

definition plain_key :: "string \<Rightarrow> bool option \<Rightarrow> key_shortcut" where
  "plain_key k ctrl = \<lparr> ks_key = k, ks_ctrl = ctrl, ks_shift = None, ks_alt = None, ks_meta = None \<rparr>"

definition keyboardShortcuts :: "key_shortcut list" where
  "keyboardShortcuts =
     [plain_key ''m'' (Some True), plain_key ''t'' (Some True), plain_key ''f'' (Some True), plain_key ''?'' (Some True),
      plain_key ''Escape'' None]"

text \<open>Each handler, and whether it focuses the search field.\<close>

definition escape_pressed :: "page_view \<Rightarrow> page_view" where
  "escape_pressed v =
     v\<lparr> pv_addTorrent := False, pv_drawer := False,
        pv_dialog := (if od_open (pv_dialog v) then od_close (pv_dialog v) else pv_dialog v),
        pv_shortcuts := False, pv_page := PageTorrents \<rparr>"

definition run_shortcut :: "nat \<Rightarrow> page_view \<Rightarrow> page_view \<times> bool" where
  "run_shortcut i v =
     (if i = 0 \<or> i = 1 then (v\<lparr> pv_addTorrent := True \<rparr>, False)
      else if i = 2 then (v, True)
      else if i = 3 then (v\<lparr> pv_shortcuts := \<not> pv_shortcuts v \<rparr>, False)
      else (escape_pressed v, False))"

definition key_pressed :: "bool \<Rightarrow> bool \<Rightarrow> key_event \<Rightarrow> page_view \<Rightarrow> page_view \<times> bool" where
  "key_pressed mounted online e v = (case handleKeyDown keyboardShortcuts (mounted \<and> online) e of
      Some i \<Rightarrow> run_shortcut i v | None \<Rightarrow> (v, False))"

subsection \<open>Confirming the selection\<close>

datatype confirm_out = Pause time | PostStart string | ConfirmToast bool string | RefreshOne string | RefreshEverything

text \<open>
  \<open>onConfirm\<close> for \<open>n\<close> selected files. \<open>started\<close> is the outcome of the request to start; the
  refresh of the one status may fail silently.
\<close>

definition start_failure_toasts :: "thrown \<Rightarrow> confirm_out list" where
  "start_failure_toasts e =
     (let m = message_or ''Failed to start torrent'' e; lower = js_lower m in
      ConfirmToast False m #
      (if js_includes lower ''disk space'' \<or> js_includes lower ''insufficient'' \<or> js_includes lower ''not enough space''
       then [ConfirmToast False ''Insufficient disk space. Please free up space and try again.''] else []))"

definition confirmed :: "nat \<Rightarrow> bool \<Rightarrow> thrown option \<Rightarrow> open_dialog_state \<Rightarrow> open_dialog_state \<times> confirm_out list" where
  "confirmed n startImmediately started s = (case od_id s of
      None \<Rightarrow> (s, [])
    | Some tid \<Rightarrow> (od_close s,
        if startImmediately then
          (if n > 0 then [Pause 200] else []) @ PostStart (torrent_path ''start'' tid) #
          (case started of
             None \<Rightarrow> [Pause 500, ConfirmToast True (if n > 0 then ''Torrent started with '' @ show_nat n @ '' selected file(s)''
                 else ''Torrent started''), RefreshOne tid, RefreshEverything]
           | Some e \<Rightarrow> start_failure_toasts e)
        else
          [ConfirmToast True (if n > 0 then ''Torrent added with '' @ show_nat n @ '' selected file(s). Click Start to begin downloading.''
             else ''Torrent added. Click Start to begin downloading.''), RefreshEverything]))"


section \<open>Properties\<close>

fun asks_main :: "control_out \<Rightarrow> bool" where
  "asks_main (AskMain op) = True"
| "asks_main (AskDaemon paths) = True"
| "asks_main a = False"

fun tells_user :: "control_out \<Rightarrow> bool" where
  "tells_user (TellSuccess m) = True"
| "tells_user (TellError m) = True"
| "tells_user a = False"

fun details_asks :: "details_out \<Rightarrow> bool" where
  "details_asks (PostAction p) = True"
| "details_asks (PatchProfile p m h) = True"
| "details_asks a = False"

fun details_tells :: "details_out \<Rightarrow> bool" where
  "details_tells (DetailsSuccess m) = True"
| "details_tells (DetailsError m) = True"
| "details_tells a = False"

definition dp_ok :: "daemon_panel \<Rightarrow> bool" where "dp_ok s \<longleftrightarrow> dp_isOperating s = (dp_job s \<noteq> None)"
definition td_ok :: "details_panel \<Rightarrow> bool" where "td_ok s \<longleftrightarrow> (td_loadingAction s \<noteq> None) = (td_job s \<noteq> None)"

interpretation daemon_form: change_form daemon_click daemon_settle fetchStatus dp_isOperating dp_ok asks_main tells_user
  by unfold_locales
    (auto simp: dp_ok_def daemon_click_def daemon_enabled_def daemon_press_def daemon_settle_def fetchStatus_def Let_def
      control_messages_def verify_messages_def split: option.splits daemon_reply.splits sum.splits if_splits)

interpretation details_form: change_form "case_prod details_press" details_settle "\<lambda>(u::unit) s. s"
    "\<lambda>s. td_loadingAction s \<noteq> None" td_ok details_asks details_tells
  by unfold_locales
    (auto simp: td_ok_def details_press_def details_settle_def split: option.splits torrent_action.splits if_splits)

text \<open>
  Further fact: the daemon's panel and the torrent's panel run one operation at a time, whichever buttons
  are pressed and whatever is polled meanwhile: every press that asks for something is answered by
  exactly one message, and at most one is unanswered, exactly while the panel is busy.
\<close>

theorem one_operation_one_message:
  "(case form_run daemon_click daemon_settle fetchStatus evs daemon_panel_init of (s, os) \<Rightarrow>
      times asks_main os = times tells_user os + (if dp_isOperating s then 1 else 0)) \<and>
   (case form_run (case_prod details_press) details_settle (\<lambda>(u::unit) s. s) evs2 \<lparr> td_loadingAction = None, td_job = None \<rparr> of (s, os) \<Rightarrow>
      times details_asks os = times details_tells os + (if td_loadingAction s \<noteq> None then 1 else 0))"
  using daemon_form.answered [of daemon_panel_init evs] details_form.answered [of "\<lparr> td_loadingAction = None, td_job = None \<rparr>" evs2]
  by (auto simp: dp_ok_def daemon_panel_init_def td_ok_def split: prod.splits)

text \<open>
  Further fact: a daemon that runs or starts cannot be started, and one that is stopped or stopping cannot
  be stopped, from the panel; a failed poll makes both possible again.
\<close>

theorem buttons_follow_status:
  "snd (daemon_click OpStart (fetchStatus (Inr (ViewRunning, pid)) s)) = [] \<and>
   snd (daemon_click OpStart (fetchStatus (Inr (ViewStarting, pid)) s)) = [] \<and>
   snd (daemon_click OpStop (fetchStatus (Inr (ViewStopped, pid)) s)) = [] \<and>
   snd (daemon_click OpStop (fetchStatus (Inr (ViewStopping, pid)) s)) = [] \<and>
   daemon_enabled OpStart (fetchStatus (Inl e) s) = (\<not> dp_isOperating s) \<and>
   daemon_enabled OpStop (fetchStatus (Inl e) s) = (\<not> dp_isOperating s)"
  by (simp add: daemon_click_def daemon_enabled_def fetchStatus_def)

subsection \<open>Toolbar marks\<close>

datatype toolbar_event = PressOp bool bool toolbar_op | BulkOp bool bool toolbar_op | EndOp toolbar_op

fun toolbar_step :: "toolbar_event \<Rightarrow> toolbar \<Rightarrow> toolbar" where
  "toolbar_step (PressOp online selected op) s = toolbar_start online selected op s"
| "toolbar_step (BulkOp online some op) s = bulk_start online some op s"
| "toolbar_step (EndOp op) s = toolbar_end op s"

definition toolbar_idle :: toolbar where
  "toolbar_idle = \<lparr> tb_loading = {}, tb_running = [] \<rparr>"

definition toolbar_run :: "toolbar_event list \<Rightarrow> toolbar \<Rightarrow> toolbar" where
  "toolbar_run es s = fold toolbar_step es s"

fun is_bulk :: "toolbar_event \<Rightarrow> bool" where
  "is_bulk (BulkOp _ _ _) \<longleftrightarrow> True"
| "is_bulk _ \<longleftrightarrow> False"

text \<open>Every mark has an operation; if only the toolbar starts operations, the marks are the operations.\<close>

definition marks_ok :: "toolbar \<Rightarrow> bool" where
  "marks_ok s \<longleftrightarrow> tb_loading s \<subseteq> op_id ` set (tb_running s)"

definition marks_exact :: "toolbar \<Rightarrow> bool" where
  "marks_exact s \<longleftrightarrow> distinct (map op_id (tb_running s)) \<and> tb_loading s = op_id ` set (tb_running s)"

lemma remove1_others: "op_id x \<noteq> op_id op \<Longrightarrow> x \<in> set xs \<Longrightarrow> x \<in> set (remove1 op xs)"
  by (induction xs) auto

lemma marks_step: "marks_ok s \<Longrightarrow> marks_ok (toolbar_step e s)"
proof (cases e)
  case (EndOp op)
  assume ok: "marks_ok s"
  have "tb_loading s - {op_id op} \<subseteq> op_id ` set (remove1 op (tb_running s))"
  proof
    fix m assume m: "m \<in> tb_loading s - {op_id op}"
    then obtain x where "x \<in> set (tb_running s)" "m = op_id x" using ok by (auto simp: marks_ok_def)
    with m remove1_others [of x op] show "m \<in> op_id ` set (remove1 op (tb_running s))" by auto
  qed
  with ok EndOp show ?thesis by (simp add: marks_ok_def toolbar_end_def)
qed (auto simp: marks_ok_def toolbar_start_def bulk_start_def)

lemma marks_remove:
  assumes "distinct (map op_id xs)" "op \<in> set xs"
  shows "distinct (map op_id (remove1 op xs))" "op_id ` set (remove1 op xs) = op_id ` set xs - {op_id op}"
  using assms by (induction xs) (auto simp: image_iff)

lemma marks_exact_step: "marks_exact s \<Longrightarrow> \<not> is_bulk e \<Longrightarrow> marks_exact (toolbar_step e s)"
  using marks_remove [of "tb_running s"]
  by (cases e) (auto simp: marks_exact_def toolbar_start_def toolbar_end_def)

lemma marks_run:
  "marks_ok s \<Longrightarrow> marks_ok (toolbar_run es s)"
  "marks_exact s \<Longrightarrow> list_all (\<lambda>e. \<not> is_bulk e) es \<Longrightarrow> marks_exact (toolbar_run es s)"
  unfolding toolbar_run_def by (induction es arbitrary: s) (simp_all add: marks_step marks_exact_step)

text \<open>
  Property C30: in every sequence of presses of the toolbar, bulk actions and completions every mark of the
  toolbar belongs to an operation that runs, so none is left when nothing runs, and a marked
  button starts nothing (pausing and stopping count as the same kind). As long as only the toolbar
  starts operations the marks are exactly the operations that run, at most one of each kind.
\<close>

theorem toolbar_marks_what_runs:
  assumes "s = toolbar_run es toolbar_idle"
  shows "tb_loading s \<subseteq> op_id ` set (tb_running s) \<and>
    (\<forall>op online selected. op_id op \<in> tb_loading s \<longrightarrow> toolbar_start online selected op s = s) \<and>
    (list_all (\<lambda>e. \<not> is_bulk e) es \<longrightarrow>
      tb_loading s = op_id ` set (tb_running s) \<and> distinct (map op_id (tb_running s)))"
proof -
  have "marks_ok toolbar_idle" "marks_exact toolbar_idle"
    by (simp_all add: marks_ok_def marks_exact_def toolbar_idle_def)
  then have "marks_ok s" "list_all (\<lambda>e. \<not> is_bulk e) es \<longrightarrow> marks_exact s"
    unfolding assms using marks_run by blast+
  then show ?thesis by (simp add: marks_ok_def marks_exact_def toolbar_start_def)
qed

theorem toolbar_marks_what_runs_witness:
  "tb_loading (toolbar_run [PressOp True True TbPause, BulkOp True True TbStart, EndOp TbStart] toolbar_idle) \<subseteq> {''stop''} \<and>
   tb_loading (toolbar_run [PressOp True True TbPause, PressOp True True TbStop, PressOp True True TbStart] toolbar_idle) =
     {''start'', ''stop''}"
  using toolbar_marks_what_runs [OF refl, of "[PressOp True True TbPause, BulkOp True True TbStart, EndOp TbStart]"]
    toolbar_marks_what_runs [OF refl, of "[PressOp True True TbPause, PressOp True True TbStop, PressOp True True TbStart]"]
  by (simp add: toolbar_run_def toolbar_idle_def toolbar_start_def bulk_start_def toolbar_end_def op_id_def)

text \<open>
  Further fact: when the kill switch or the panel stops torrents while the toolbar does, the first of the two
  to end clears the mark: the other still runs, and the button starts a third.
\<close>

theorem first_end_clears_mark:
  "let s = toolbar_run [PressOp True True TbStop, BulkOp True True TbStop, EndOp TbStop] toolbar_idle in
   tb_running s = [TbStop] \<and> tb_loading s = {} \<and> tb_running (toolbar_start True True TbStop s) = [TbStop, TbStop]"
  by (simp add: toolbar_run_def toolbar_idle_def toolbar_start_def bulk_start_def toolbar_end_def op_id_def)

subsection \<open>Keys\<close>

lemma key_codes:
  "js_lower ''m'' = ''m''" "js_lower ''t'' = ''t''" "js_lower ''f'' = ''f''" "js_lower ''?'' = ''?''" "js_lower ''Escape'' = ''escape''"
  "js_lower ''keym'' = ''keym''" "js_lower ''keyt'' = ''keyt''" "js_lower ''keyf'' = ''keyf''" "js_lower ''key?'' = ''key?''"
  "js_lower ''keyEscape'' = ''keyescape''" "js_lower ''F5'' = ''f5''" "js_lower '','' = '',''" "js_lower ''Comma'' = ''comma''"
  by code_simp+

definition pressed :: "string \<Rightarrow> string \<Rightarrow> bool \<Rightarrow> key_event" where
  "pressed k code ctrl = \<lparr> ke_key = k, ke_code = code, ke_ctrl = ctrl, ke_shift = False, ke_alt = False, ke_meta = False, ke_editing = False \<rparr>"

lemmas keys_defs = key_pressed_def handleKeyDown_def keyboardShortcuts_def plain_key_def matchesShortcut_def wanted_def
  pressed_def key_codes

text \<open>
  Further fact: pressing Escape outside an input closes the window for adding, the drawer, the list of
  shortcuts and the file dialog with its pending torrent, and shows the list of torrents, but only
  while the daemon is connected; the keys that the toolbar names for refreshing and for the settings
  do nothing.
\<close>

theorem escape_returns_to_torrents:
  "(let v' = fst (key_pressed True True (pressed ''Escape'' ''Escape'' False) v) in
    \<not> pv_addTorrent v' \<and> \<not> pv_drawer v' \<and> \<not> pv_shortcuts v' \<and> pv_page v' = PageTorrents \<and> \<not> od_open (pv_dialog v') \<and>
    (od_open (pv_dialog v) \<longrightarrow> od_id (pv_dialog v') = None \<and> od_pending (pv_dialog v') = None)) \<and>
   key_pressed True False (pressed ''Escape'' ''Escape'' False) v = (v, False) \<and>
   key_pressed True True (pressed ''F5'' ''F5'' False) v = (v, False) \<and>
   key_pressed True True (pressed '','' ''Comma'' True) v = (v, False)"
  by (simp add: keys_defs run_shortcut_def escape_pressed_def od_close_def clear_timer_def Let_def split: option.splits)

theorem escape_returns_to_torrents_witness:
  "od_id (pv_dialog (fst (key_pressed True True (pressed ''Escape'' ''Escape'' False)
     \<lparr> pv_addTorrent = True, pv_drawer = False, pv_shortcuts = False, pv_page = PageNetwork,
       pv_dialog = od_init\<lparr> od_open := True, od_id := Some ''a'' \<rparr> \<rparr>))) = None"
  using escape_returns_to_torrents [of "\<lparr> pv_addTorrent = True, pv_drawer = False, pv_shortcuts = False, pv_page = PageNetwork,
       pv_dialog = od_init\<lparr> od_open := True, od_id := Some ''a'' \<rparr> \<rparr>"]
  by (simp add: Let_def)

subsection \<open>Starting after the selection\<close>

definition start_requests :: "confirm_out list \<Rightarrow> string list" where
  "start_requests os = concat (map (\<lambda>a. case a of PostStart p \<Rightarrow> [p] | _ \<Rightarrow> []) os)"

definition toast_kinds :: "confirm_out list \<Rightarrow> bool list" where
  "toast_kinds os = concat (map (\<lambda>a. case a of ConfirmToast good m \<Rightarrow> [good] | _ \<Rightarrow> []) os)"

text \<open>
  Further fact: confirming closes the dialog and starts the torrent it was for exactly if that was asked,
  with one request, after the files had time to be saved. A success is told once and followed by a
  refresh; a failure is told, with a second hint when it is about space, and nothing is refreshed.
\<close>

theorem confirming_tells_outcome:
  assumes "od_id s = Some tid" "confirmed n now started s = (s', os)"
  shows "s' = od_close s \<and> start_requests os = (if now then [torrent_path ''start'' tid] else []) \<and>
    (n > 0 \<and> now \<longrightarrow> hd os = Pause 200) \<and>
    (\<not> now \<or> started = None \<longrightarrow> toast_kinds os = [True] \<and> last os = RefreshEverything) \<and>
    (now \<longrightarrow> started \<noteq> None \<longrightarrow> toast_kinds os \<in> {[False], [False, False]} \<and> RefreshEverything \<notin> set os)"
  using assms
  by (auto simp: confirmed_def start_failure_toasts_def start_requests_def toast_kinds_def Let_def
      split: option.splits if_splits)

theorem confirming_tells_outcome_witness:
  "toast_kinds (snd (confirmed 2 True (Some (createApiError ''Not enough space on D:'' None None False)) (od_init\<lparr> od_id := Some ''a'' \<rparr>)))
     \<in> {[False], [False, False]}"
  using confirming_tells_outcome [of "od_init\<lparr> od_id := Some ''a'' \<rparr>" "''a''" 2 True
      "Some (createApiError ''Not enough space on D:'' None None False)", OF _ prod.collapse [symmetric]]
  by simp

end
