(* ===== verification/SoundSettings.thy ===== *)
theory SoundSettings
  imports NotificationSound Notifications Format
begin

text \<open>
  The settings of the notification sound (\<open>components/NotificationSoundSettings.tsx\<close>), composed with
  the handlers of the main process (\<open>NotificationSound\<close>) and the sound that notifications play
  (\<open>Notifications\<close>). File names hold no line break; the dashes are given by their bytes.
\<close>

record sound_panel =
  so_currentUrl :: "string option"
  so_defaultSounds :: "string list"
  so_loading :: bool
  so_onCompletion :: bool
  so_onKillSwitch :: bool

definition sound_panel_init :: "thrown + string option \<Rightarrow> thrown + string option \<Rightarrow> sound_panel" where
  "sound_panel_init completion_key kill_key =
     \<lparr> so_currentUrl = None, so_defaultSounds = [], so_loading = True,
       so_onCompletion = getNotify completion_key, so_onKillSwitch = getNotify kill_key \<rparr>"

definition EN_DASH :: string where "EN_DASH = utf8 [226, 128, 147]"

fun before_dash :: "string \<Rightarrow> string" where
  "before_dash [] = []"
| "before_dash (c # s) =
     (if c = CHR ''-'' \<or> c = CHR ''|'' \<or> starts_with (c # s) EN_DASH \<or> starts_with (c # s) DASH then [] else c # before_dash s)"

definition drop_mp3 :: "string \<Rightarrow> string" where
  "drop_mp3 f = (if ends_with (js_lower f) ''.mp3'' then take (length f - 4) f else f)"

definition defaultSoundLabel :: "string \<Rightarrow> string" where
  "defaultSoundLabel filename =
     (let label = js_trim (before_dash (drop_mp3 filename)) in if label \<noteq> [] then label else filename)"

text \<open>
  What the page can change: the panel, the module of the notifications, and, through the bridge, the
  sounds the main process keeps.
\<close>

record 'b sound_system =
  sy_panel :: sound_panel
  sy_notify :: notify_state
  sy_sounds :: "'b sounds"

datatype sound_out = SoundOk string | SoundError string | Preview "string option"

definition preview :: "'b sound_system \<Rightarrow> sound_out" where
  "preview y = (case play_sound (sy_notify y) of PlaySound u \<Rightarrow> Preview u | _ \<Rightarrow> Preview None)"

definition refreshUrl :: "bool \<Rightarrow> (string \<Rightarrow> string) \<Rightarrow> 'b sound_system \<Rightarrow> 'b sound_system" where
  "refreshUrl win encode y =
     (let url = get_url win encode (sy_sounds y) in
      y\<lparr> sy_panel := (sy_panel y)\<lparr> so_currentUrl := url \<rparr>, sy_notify := setNotificationSoundUrl url (sy_notify y) \<rparr>)"

definition load_sounds :: "bool \<Rightarrow> (string \<Rightarrow> string) \<Rightarrow> (string \<times> bool) list option \<Rightarrow> bool \<Rightarrow> 'b sound_system \<Rightarrow> 'b sound_system" where
  "load_sounds win encode entries cancelled y =
     (let y1 = (if cancelled then y else y\<lparr> sy_panel := (sy_panel y)\<lparr> so_defaultSounds := get_defaults win entries \<rparr> \<rparr>);
          y2 = refreshUrl win encode y1 in
      if cancelled then y2 else y2\<lparr> sy_panel := (sy_panel y2)\<lparr> so_loading := False \<rparr> \<rparr>)"

definition handleSetDefault ::
    "bool \<Rightarrow> (string \<Rightarrow> string) \<Rightarrow> string \<Rightarrow> bool \<Rightarrow> 'b sound_system \<Rightarrow> bool \<times> 'b sound_system \<times> sound_out list" where
  "handleSetDefault win encode filename written y =
     (case set_default win (Some filename) written (sy_sounds y) of (ok, s) \<Rightarrow>
        let y1 = y\<lparr> sy_sounds := s \<rparr> in
        if ok then (True, refreshUrl win encode y1, [SoundOk (''Notification sound: '' @ defaultSoundLabel filename)])
        else (False, y1, [SoundError ''Failed to set default sound'']))"

definition handleChooseFile ::
    "bool \<Rightarrow> (string \<Rightarrow> string) \<Rightarrow> (string \<times> 'b) option \<Rightarrow> bool \<Rightarrow> bool \<Rightarrow> 'b sound_system \<Rightarrow> 'b sound_system \<times> sound_out list" where
  "handleChooseFile win encode picked copied written y =
     (case choose_sound win picked copied written (sy_sounds y) of (ok, s) \<Rightarrow>
        let y1 = y\<lparr> sy_sounds := s \<rparr> in
        if ok then (refreshUrl win encode y1, [SoundOk ''Custom notification sound saved''])
        else (y1, [SoundError ''No file selected or save failed'']))"

definition handleClear :: "bool \<Rightarrow> (string \<Rightarrow> string) \<Rightarrow> 'b sound_system \<Rightarrow> 'b sound_system \<times> sound_out list" where
  "handleClear win encode y =
     (refreshUrl win encode (y\<lparr> sy_sounds := clear_sound (sy_sounds y) \<rparr>), [SoundOk ''Using built-in notification tone''])"

text \<open>
  The value of the drop-down list; \<open>None\<close> when decoding the URL throws. A change of the list.
\<close>

definition dropdownValue :: "(string \<Rightarrow> string option) \<Rightarrow> sound_panel \<Rightarrow> string option" where
  "dropdownValue decode p = (case so_currentUrl p of
      None \<Rightarrow> Some []
    | Some u \<Rightarrow>
        if starts_with u DEFAULT_SCHEME then decode (strip_query (drop (length DEFAULT_SCHEME) u))
        else if u = CUSTOM_URL then Some ''__custom__'' else Some [])"

definition handleDropdownChange ::
    "bool \<Rightarrow> (string \<Rightarrow> string) \<Rightarrow> string \<Rightarrow> bool \<Rightarrow> 'b sound_system \<Rightarrow> 'b sound_system \<times> sound_out list" where
  "handleDropdownChange win encode val written y =
     (if val = [] then (case handleClear win encode y of (y1, os) \<Rightarrow> (y1, os @ [preview y1]))
      else if val \<noteq> ''__custom__'' then
        (case handleSetDefault win encode val written y of (ok, y1, os) \<Rightarrow> (y1, os @ (if ok then [preview y1] else [])))
      else (y, []))"

text \<open>A switch: what is shown, and what is stored unless storing throws.\<close>

definition handleNotifyChange :: "bool \<Rightarrow> bool \<Rightarrow> thrown + string option \<Rightarrow> bool \<times> (thrown + string option)" where
  "handleNotifyChange checked throws stored =
     (checked, if throws then stored else Inr (Some (if checked then ''1'' else ''0'')))"

section \<open>Properties\<close>

text \<open>
  Property C31: choosing a bundled sound in the list and accepted by the main process makes the list
  show it, makes the notifications play it, plays it once as a preview, and the URL that is played
  is answered with the bytes of that file; clearing shows and plays the built-in tone.
\<close>

theorem selected_sound_is_played:
  assumes enc: "\<And>x. decode (encode x) = Some x" "\<And>x. CHR ''?'' \<notin> set (encode x)"
    and name: "basename win f = f" "CHR '':'' \<notin> set f" "f \<noteq> ''__custom__''"
    and set: "fst (set_default win (Some f) True (sy_sounds y))"
  shows "\<exists>b url y1. sn_default (sy_sounds y) (default_path (sy_sounds y) f) = Some b \<and>
    handleDropdownChange win encode f True y = (y1, [SoundOk (''Notification sound: '' @ defaultSoundLabel f), Preview (Some url)]) \<and>
    dropdownValue decode (sy_panel y1) = Some f \<and> ns_soundUrl (sy_notify y1) = Some url \<and>
    app_protocol win decode url (sy_sounds y1) = Some (b, ''audio/mpeg'') \<and>
    dropdownValue decode (sy_panel (fst (handleClear win encode y1))) = Some [] \<and>
    preview (fst (handleClear win encode y1)) = Preview None"
proof -
  obtain s' where s: "set_default win (Some f) True (sy_sounds y) = (True, s')" using set by (metis prod.collapse)
  have "CHR '':'' \<notin> set (basename win f)" using name by simp
  from default_sound_roundtrip [OF enc this s] obtain b url where
    b: "sn_default (sy_sounds y) (default_path (sy_sounds y) f) = Some b"
    and url: "get_url win encode s' = Some url" "app_protocol win decode url s' = Some (b, ''audio/mpeg'')"
    using name(1) by auto
  have s': "s' = (sy_sounds y)\<lparr> sn_meta := Meta (\<lparr> sm_type = Some ''default'', sm_ext = None, sm_filename = Some f \<rparr>) \<rparr>"
    using s name(1) by (auto simp: set_default_def Let_def split: if_splits)
  have ne: "f \<noteq> []" using s by (auto simp: set_default_def)
  have u: "url = DEFAULT_SCHEME @ encode f"
    using url(1) ne b by (simp add: get_url_def s' name(1) default_path_def)
  have strip: "strip_query (encode f) = encode f"
    using enc(2) by (simp add: strip_query_def takeWhile_eq_all_conv) metis
  define y1 where "y1 = refreshUrl win encode (y\<lparr> sy_sounds := s' \<rparr>)"
  have y1: "so_currentUrl (sy_panel y1) = Some url" "ns_soundUrl (sy_notify y1) = Some url" "sy_sounds y1 = s'"
    by (simp_all add: y1_def refreshUrl_def url(1) setNotificationSoundUrl_def Let_def)
  have p: "preview y1 = Preview (Some url)" using y1(2) u by (simp add: preview_def play_sound_def DEFAULT_SCHEME_def)
  have h: "handleDropdownChange win encode f True y = (y1, [SoundOk (''Notification sound: '' @ defaultSoundLabel f), Preview (Some url)])"
    using ne name(3) s p by (simp add: handleDropdownChange_def handleSetDefault_def y1_def Let_def)
  have d: "dropdownValue decode (sy_panel y1) = Some f"
    using y1(1) u strip enc(1) by (simp add: dropdownValue_def)
  have g: "get_url win encode (clear_sound s) = None" for s :: "'a sounds"
    by (simp add: clear_sound_def get_url_def)
  have c: "so_currentUrl (sy_panel (fst (handleClear win encode y1))) = None" "ns_soundUrl (sy_notify (fst (handleClear win encode y1))) = None"
    by (simp_all add: handleClear_def refreshUrl_def g setNotificationSoundUrl_def Let_def)
  have "dropdownValue decode (sy_panel (fst (handleClear win encode y1))) = Some []"
    "preview (fst (handleClear win encode y1)) = Preview None"
    by (simp_all add: c dropdownValue_def preview_def play_sound_def)
  then show ?thesis using b h d y1 url(2) by blast
qed

definition sample_system :: "nat sound_system" where
  "sample_system = \<lparr> sy_panel = sound_panel_init (Inr None) (Inr None), sy_notify = notify_init, sy_sounds = sample_sounds \<rparr>"

theorem selected_sound_is_played_witness:
  "\<exists>url. ns_soundUrl (sy_notify (fst (handleDropdownChange False hide_marks ''Bell.mp3'' True sample_system))) = Some url \<and>
     app_protocol False (\<lambda>u. Some (show_marks u)) url
       (sy_sounds (fst (handleDropdownChange False hide_marks ''Bell.mp3'' True sample_system))) = Some (9, ''audio/mpeg'')"
proof -
  have q: "CHR ''?'' \<notin> set (hide_marks x)" for x by (induction x) (auto simp: hide_marks_def)
  have base: "basename False ''Bell.mp3'' = ''Bell.mp3''" by code_simp
  have ok: "fst (set_default False (Some ''Bell.mp3'') True sample_sounds)" by code_simp
  have sounds: "sy_sounds sample_system = sample_sounds" by (simp add: sample_system_def)
  have nine: "sn_default sample_sounds (default_path sample_sounds ''Bell.mp3'') = Some 9" by code_simp
  from selected_sound_is_played [where decode = "\<lambda>u. Some (show_marks u)" and encode = hide_marks and y = sample_system,
      OF _ q base _ _ ok [folded sounds], unfolded sounds nine]
  show ?thesis by (auto simp: show_hide_marks)
qed

text \<open>
  Further fact: a switch of the settings is what the notifications read afterwards, unless the browser
  refuses to store it: then the switch shows what was chosen but the old choice stays in force.
\<close>

theorem switches_are_remembered:
  "getNotify (snd (handleNotifyChange checked throws stored)) = (if throws then getNotify stored else checked) \<and>
   fst (handleNotifyChange checked throws stored) = checked"
  by (simp add: handleNotifyChange_def getNotify_def)

end
