(* ===== verification/Windows.thy ===== *)
theory Windows
  imports LogTail DaemonFiles PortHygiene Vpn
begin

text \<open>
  The windows of the application and the small requests around them (\<open>main/main.ts\<close>): the icon,
  the splash screen and when the main window replaces it, which file of the page is loaded, what an
  unexpected error says, and the handlers that only look something up.

  A window is null, open or destroyed. The sequence that shows the main window is cut at its awaits;
  in between, time passes, the user or the system may close a window, and loading the splash may
  fail. \<open>path.join\<close> is \<open>path_join\<close>, resolved directories are given.
\<close>

subsection \<open>Icon\<close>

record icon_env =
  ie_isDev :: bool
  ie_assetsDir :: string
  ie_repoRoot :: string
  ie_resourcesPath :: "string option"
  ie_exists :: "string \<Rightarrow> bool"

definition png_name :: string where "png_name = ''orc-torrent.png''"
definition ico_name :: string where "ico_name = ''icon.ico''"

definition getIconPath :: "icon_env \<Rightarrow> string option" where
  "getIconPath env =
     (if ie_isDev env then
        (let devPng = path_join (path_join (ie_assetsDir env) ''images'') png_name;
             devIco = path_join (path_join (ie_assetsDir env) ''icons'') ico_name;
             orcPng = path_join (path_join (ie_repoRoot env) ''images'') ''orc-torrent.png'';
             orcIco = path_join (path_join (ie_repoRoot env) ''icons'') ''orc-torrent.ico'' in
         if ie_exists env devPng then Some devPng
         else if ie_exists env devIco then Some devIco
         else if ie_exists env orcPng then Some orcPng
         else if ie_exists env orcIco then Some orcIco
         else None)
      else (case ie_resourcesPath env of
        None \<Rightarrow> None
      | Some r \<Rightarrow>
          if r = [] then None
          else
            (let resourcesIco = path_join r ico_name;
                 appAssets = path_join (path_join r ''app'') ''assets'';
                 packagedPng = path_join (path_join appAssets ''images'') png_name;
                 packagedIco = path_join (path_join appAssets ''icons'') ico_name in
             if ie_exists env resourcesIco then Some resourcesIco
             else if ie_exists env packagedPng then Some packagedPng
             else if ie_exists env packagedIco then Some packagedIco
             else None)))"

subsection \<open>Splash screen and main window\<close>

definition MIN_SPLASH_DISPLAY_MS :: time where "MIN_SPLASH_DISPLAY_MS = 6000"
definition SPLASH_EXIT_MS :: time where "SPLASH_EXIT_MS = 1500"

datatype handle = Null | Open | Destroyed

text \<open>
  Where the \<open>ready-to-show\<close> handler waits: for the health check, for a start of the daemon, for the
  splash to have been shown long enough, for its exit to begin, for its exit to end.
\<close>

datatype show_pc =
    NotReady
  | AskHealth
  | AwaitStart
  | WaitSplash time
  | BeginExit
  | WaitExit time
  | Shown
  | Skipped
  | ShowThrew

record windows =
  w_now :: time
  w_main :: handle
  w_splash :: handle
  w_splashShownAt :: "time option"
  w_fallback :: bool
  w_pc :: show_pc
  w_shownAt :: "time option"

definition windows_init :: "time \<Rightarrow> windows" where
  "windows_init t = \<lparr> w_now = t, w_main = Null, w_splash = Null, w_splashShownAt = None, w_fallback = False,
     w_pc = NotReady, w_shownAt = None \<rparr>"

definition createSplashWindow :: "windows \<Rightarrow> windows" where
  "createSplashWindow s = s\<lparr> w_splashShownAt := Some (w_now s), w_splash := Open \<rparr>"

definition createWindow :: "windows \<Rightarrow> windows" where
  "createWindow s = s\<lparr> w_main := Open, w_pc := NotReady \<rparr>"

text \<open>When the application is ready: the splash, then the hidden window.\<close>

definition show_startup :: "time \<Rightarrow> windows" where
  "show_startup t = createWindow (createSplashWindow (windows_init t))"

text \<open>Loading the splash file fails, and loading the built-in page in its place fails.\<close>

definition splash_load_failed :: "windows \<Rightarrow> windows" where
  "splash_load_failed s = (if w_splash s = Open then s\<lparr> w_fallback := True \<rparr> else s)"

definition splash_fallback_failed :: "windows \<Rightarrow> windows" where
  "splash_fallback_failed s = (if w_fallback s \<and> w_splash s = Open then s\<lparr> w_splash := Null \<rparr> else s)"

text \<open>\<open>mainWindow.show()\<close> throws when the window has been destroyed meanwhile.\<close>

definition show_main :: "windows \<Rightarrow> windows" where
  "show_main s = (if w_main s = Open then s\<lparr> w_pc := Shown, w_shownAt := Some (w_now s) \<rparr> else s\<lparr> w_pc := ShowThrew \<rparr>)"

definition splash_closed :: "windows \<Rightarrow> windows" where
  "splash_closed s =
     show_main (s\<lparr> w_splash := (if w_splash s = Open then Null else w_splash s), w_splashShownAt := None \<rparr>)"

definition closeSplashWindow :: "windows \<Rightarrow> windows" where
  "closeSplashWindow s =
     (if w_splash s = Open then s\<lparr> w_pc := BeginExit \<rparr> else show_main (s\<lparr> w_splashShownAt := None \<rparr>))"

definition exit_begun :: "bool \<Rightarrow> windows \<Rightarrow> windows" where
  "exit_begun played s = (if played then s\<lparr> w_pc := WaitExit (w_now s + SPLASH_EXIT_MS) \<rparr> else splash_closed s)"

definition daemon_seen :: "windows \<Rightarrow> windows" where
  "daemon_seen s = (case w_splashShownAt s of
      None \<Rightarrow> closeSplashWindow s
    | Some t \<Rightarrow>
        (let elapsed = w_now s - t in
         if elapsed < MIN_SPLASH_DISPLAY_MS then s\<lparr> w_pc := WaitSplash (w_now s + (MIN_SPLASH_DISPLAY_MS - elapsed)) \<rparr>
         else closeSplashWindow s))"

definition window_ready :: "windows \<Rightarrow> windows" where
  "window_ready s = (if w_main s = Open then s\<lparr> w_pc := AskHealth \<rparr> else s\<lparr> w_pc := Skipped \<rparr>)"

datatype window_event =
    Pass nat
  | SplashLoadFails
  | SplashFallbackFails
  | SplashCloses
  | MainCloses
  | WindowReady
  | HealthAnswers bool
  | StartReturns
  | ExitPlayed bool
  | ShowTimerDue

definition window_step :: "window_event \<Rightarrow> windows \<Rightarrow> windows" where
  "window_step e s = (case e of
      Pass n \<Rightarrow> s\<lparr> w_now := w_now s + int n \<rparr>
    | SplashLoadFails \<Rightarrow> splash_load_failed s
    | SplashFallbackFails \<Rightarrow> splash_fallback_failed s
    | SplashCloses \<Rightarrow> (if w_splash s = Open then s\<lparr> w_splash := Destroyed \<rparr> else s)
    | MainCloses \<Rightarrow> (if w_main s = Open then s\<lparr> w_main := Destroyed \<rparr> else s)
    | WindowReady \<Rightarrow> (if w_pc s = NotReady then window_ready s else s)
    | HealthAnswers healthy \<Rightarrow>
        (if w_pc s = AskHealth then (if healthy then daemon_seen s else s\<lparr> w_pc := AwaitStart \<rparr>) else s)
    | StartReturns \<Rightarrow> (if w_pc s = AwaitStart then daemon_seen s else s)
    | ExitPlayed played \<Rightarrow> (if w_pc s = BeginExit then exit_begun played s else s)
    | ShowTimerDue \<Rightarrow> (case w_pc s of
          WaitSplash t \<Rightarrow> if t \<le> w_now s then closeSplashWindow s else s
        | WaitExit t \<Rightarrow> if t \<le> w_now s then splash_closed s else s
        | _ \<Rightarrow> s))"

definition window_run :: "window_event list \<Rightarrow> windows \<Rightarrow> windows" where
  "window_run es s = fold window_step es s"

inductive window_reach :: "time \<Rightarrow> windows \<Rightarrow> bool" for t where
  Start: "window_reach t (show_startup t)"
| Step: "window_reach t s \<Longrightarrow> window_reach t (window_step e s)"

subsection \<open>Loading the page\<close>

datatype ui_out = LoadUrl string | LoadFile string | OpenDevTools | LoadDialog

text \<open>
  \<open>load\<close> says whether loading a file fails, \<open>gone\<close> whether the window is gone when it has. Electron
  reports a failed load of the main frame also as \<open>did-fail-load\<close>.
\<close>

definition did_fail_load :: "bool \<Rightarrow> ui_out list" where
  "did_fail_load isMainFrame = (if isMainFrame then [LoadDialog] else [])"

definition load_page :: "bool \<Rightarrow> string \<Rightarrow> string \<Rightarrow> (string \<Rightarrow> bool) \<Rightarrow> bool \<Rightarrow> ui_out list" where
  "load_page isDev appPath rendererDir load_fails gone =
     (if isDev then [LoadUrl ''http://127.0.0.1:5173'', OpenDevTools]
      else
        (let indexHtml = path_join (path_join (path_join appPath ''dist'') ''renderer'') ''index.html'';
             fallbackPath = path_join rendererDir ''index.html'' in
         LoadFile indexHtml #
         (if \<not> load_fails indexHtml then []
          else if gone then [LoadDialog]
          else LoadFile fallbackPath # (if load_fails fallbackPath then [LoadDialog] else []))))"

text \<open>All dialogs: the loader's own and those of the event, one for each failed load.\<close>

fun with_load_events :: "(string \<Rightarrow> bool) \<Rightarrow> ui_out list \<Rightarrow> ui_out list" where
  "with_load_events load_fails [] = []"
| "with_load_events load_fails (LoadFile p # os) =
     LoadFile p # (if load_fails p then did_fail_load True else []) @ with_load_events load_fails os"
| "with_load_events load_fails (out # os) = out # with_load_events load_fails os"

subsection \<open>Unexpected errors\<close>

record node_error =
  ne_message :: string
  ne_stack :: "string option"
  ne_code :: "string option"

definition stack_or_message :: "node_error \<Rightarrow> string" where
  "stack_or_message e = (case ne_stack e of Some s \<Rightarrow> if s = [] then ne_message e else s | None \<Rightarrow> ne_message e)"

definition has_code :: "node_error \<Rightarrow> string list \<Rightarrow> bool" where
  "has_code e codes \<longleftrightarrow> (\<exists>c \<in> set codes. ne_code e = Some c)"

text \<open>The lines for the daemon's log; \<open>log_open\<close> says whether there is one. Writes do not throw.\<close>

definition unhandledRejection :: "bool \<Rightarrow> string \<Rightarrow> string list" where
  "unhandledRejection log_open text_of_reason =
     (if log_open then [''[unhandledRejection] '' @ text_of_reason @ [LF]] else [])"

definition uncaught_log :: "bool \<Rightarrow> bool \<Rightarrow> node_error \<Rightarrow> string list" where
  "uncaught_log win32 log_open e =
     (if \<not> log_open then []
      else [''[uncaughtException] '' @ stack_or_message e @ [LF]] @
        (case ne_code e of Some c \<Rightarrow> if c = [] then [] else [''[ERROR CODE] '' @ c @ [LF]] | None \<Rightarrow> []) @
        (if \<not> win32 then []
         else if has_code e [''EACCES'', ''EPERM''] then [''[WINDOWS] Permission error - may need Administrator rights'' @ [LF]]
         else if has_code e [''ENOENT''] then [''[WINDOWS] File not found - check antivirus hasn'' @ [CHR 0x27] @ ''t blocked files'' @ [LF]]
         else if has_code e [''EADDRINUSE''] then [''[WINDOWS] Port in use - another instance may be running'' @ [LF]]
         else []))"

definition uncaught_dialog :: "bool \<Rightarrow> bool \<Rightarrow> node_error \<Rightarrow> string option" where
  "uncaught_dialog win32 ready e =
     (if \<not> ready then None
      else Some (''An unexpected error occurred:'' @ [LF, LF] @ stack_or_message e @ [LF, LF] @ ''The application may be unstable.'' @
        (if \<not> win32 then []
         else if has_code e [''EACCES'', ''EPERM'']
           then [LF, LF] @ ''This appears to be a permission error. Try running as Administrator.''
         else if has_code e [''ENOENT'']
           then [LF, LF] @ ''A required file is missing. Check if antivirus software blocked it.''
         else [])))"

definition uncaughtException :: "bool \<Rightarrow> bool \<Rightarrow> bool \<Rightarrow> node_error \<Rightarrow> string list \<times> string option" where
  "uncaughtException win32 log_open ready e = (uncaught_log win32 log_open e, uncaught_dialog win32 ready e)"

text \<open>The text after a torrent file could not be processed.\<close>

definition processing_error_text :: "node_error \<Rightarrow> string" where
  "processing_error_text e =
     (let m = ne_message e in
      ''Failed to process torrent file:'' @ [LF, LF] @ m @
      (if js_includes m ''ENOENT'' \<or> js_includes m ''not found''
         then [LF, LF] @ ''The file may have been moved, deleted, or the path is incorrect.''
       else if js_includes m ''EACCES'' \<or> js_includes m ''permission''
         then [LF, LF] @ ''Access denied. Please check file permissions and ensure you have read access.''
       else if js_includes m ''network'' \<or> js_includes m ''ECONNREFUSED''
         then [LF, LF] @ ''Network path may be unavailable. Please check your network connection.''
       else [LF, LF] @ ''Technical details:'' @ [LF] @ (case ne_stack e of Some s \<Rightarrow> s | None \<Rightarrow> [])))"

subsection \<open>Small handlers\<close>

text \<open>The result also lists the paths that are unwatched.\<close>

definition cleanupLogWatchers :: "log_watch \<Rightarrow> log_watch \<times> string list" where
  "cleanupLogWatchers w = (w\<lparr> lw_watchers := [], lw_callbacks := [] \<rparr>, map fst (lw_watchers w))"

definition netifs :: "(string \<times> nat) list \<Rightarrow> string list" where
  "netifs ifs = map fst (filter (\<lambda>p. snd p > 0) ifs)"

text \<open>\<open>focused\<close> is \<open>BrowserWindow.getFocusedWindow()\<close>; the answer is cancelled or the chosen paths.\<close>

definition choose_save_folder :: "handle \<Rightarrow> handle \<Rightarrow> bool \<times> string list \<Rightarrow> string option" where
  "choose_save_folder focused main answer =
     (let win = (if focused \<noteq> Null then focused else main) in
      if win \<noteq> Open then None
      else (case answer of (canceled, filePaths) \<Rightarrow>
        if canceled \<or> filePaths = [] then None else Some (hd filePaths)))"

definition open_log_folder :: "string option \<Rightarrow> string option \<Rightarrow> bool \<times> string option" where
  "open_log_folder currentDaemonLogPath failure = (case currentDaemonLogPath of
      None \<Rightarrow> (False, Some ''Log file path not available'')
    | Some p \<Rightarrow>
        if p = [] then (False, Some ''Log file path not available'')
        else (case failure of None \<Rightarrow> (True, None) | Some m \<Rightarrow> (False, Some m)))"

definition ipc_cleanup_port :: "bool \<Rightarrow> port_env \<Rightarrow> (bool \<times> bool \<times> int option) \<times> int list" where
  "ipc_cleanup_port win32 env =
     (case cleanupStaleProcessesOnPort win32 False env of
       (r, killed) \<Rightarrow> ((True, cr_cleaned r, cr_pid r), killed))"

text \<open>Whether the application asks to handle magnet links; the answers may be errors.\<close>

definition registers_magnet :: "bool \<Rightarrow> bool option \<Rightarrow> bool" where
  "registers_magnet darwin isDefault \<longleftrightarrow> \<not> darwin \<and> isDefault = Some False"

definition window_all_closed :: "bool \<Rightarrow> bool" where
  "window_all_closed darwin \<longleftrightarrow> \<not> darwin"

section \<open>Properties\<close>

text \<open>The invariant of every reachable state.\<close>

definition splash_inv :: "time \<Rightarrow> windows \<Rightarrow> bool" where
  "splash_inv t s \<longleftrightarrow> t \<le> w_now s \<and>
     (case w_pc s of
        NotReady \<Rightarrow> w_splashShownAt s = Some t
      | AskHealth \<Rightarrow> w_splashShownAt s = Some t
      | AwaitStart \<Rightarrow> w_splashShownAt s = Some t
      | WaitSplash d \<Rightarrow> d = t + MIN_SPLASH_DISPLAY_MS
      | BeginExit \<Rightarrow> t + MIN_SPLASH_DISPLAY_MS \<le> w_now s
      | WaitExit d \<Rightarrow> t + MIN_SPLASH_DISPLAY_MS + SPLASH_EXIT_MS \<le> d
      | Shown \<Rightarrow> True
      | Skipped \<Rightarrow> True
      | ShowThrew \<Rightarrow> True) \<and>
     (w_pc s \<noteq> Shown \<longrightarrow> w_shownAt s = None) \<and>
     (w_pc s = Shown \<longrightarrow> w_splash s \<noteq> Open \<and>
        (\<exists>d. w_shownAt s = Some d \<and> t + MIN_SPLASH_DISPLAY_MS \<le> d \<and> d \<le> w_now s))"

lemmas show_defs = show_main_def splash_closed_def closeSplashWindow_def exit_begun_def daemon_seen_def
  window_ready_def splash_load_failed_def splash_fallback_failed_def MIN_SPLASH_DISPLAY_MS_def SPLASH_EXIT_MS_def

lemma splash_inv_start: "splash_inv t (show_startup t)"
  by (simp add: splash_inv_def show_startup_def createWindow_def createSplashWindow_def windows_init_def)

lemma splash_inv_step: "splash_inv t s \<Longrightarrow> splash_inv t (window_step e s)"
  unfolding splash_inv_def window_step_def
  by (cases e; cases "w_pc s") (auto simp: show_defs Let_def split: if_splits)

lemma splash_inv_reach: "window_reach t s \<Longrightarrow> splash_inv t s"
  by (induction rule: window_reach.induct) (simp_all add: splash_inv_start splash_inv_step)

lemma window_reach_run: "window_reach t s \<Longrightarrow> window_reach t (window_run es s)"
  unfolding window_run_def by (induction es arbitrary: s) (auto intro: window_reach.Step)

text \<open>As long as nobody closes the splash and its built-in page can be loaded, it stays.\<close>

definition splash_kept :: "time \<Rightarrow> windows \<Rightarrow> bool" where
  "splash_kept t s \<longleftrightarrow> w_splash s = Open \<or> (t + MIN_SPLASH_DISPLAY_MS \<le> w_now s \<and> w_pc s \<in> {Shown, ShowThrew})"

lemma splash_kept_step:
  "splash_kept t s \<Longrightarrow> splash_inv t s \<Longrightarrow> e \<notin> {SplashCloses, SplashFallbackFails} \<Longrightarrow> splash_kept t (window_step e s)"
  unfolding splash_inv_def splash_kept_def window_step_def
  by (cases e; cases "w_pc s") (auto simp: show_defs Let_def split: if_splits)

lemma splash_kept_run:
  "splash_kept t s \<Longrightarrow> splash_inv t s \<Longrightarrow> set es \<inter> {SplashCloses, SplashFallbackFails} = {} \<Longrightarrow>
    splash_kept t (window_run es s)"
  unfolding window_run_def
proof (induction es arbitrary: s)
  case (Cons e es)
  then show ?case using splash_kept_step [of t s e] splash_inv_step [of t s e] by auto
qed simp

text \<open>
  Property C26: whatever happens to the windows, to the splash page and to the daemon, the main window is
  not shown before six seconds after the splash was created, and when it is, no splash is
  open. If nobody closes the splash and its built-in page does not fail to load, it is open all
  the time until the main window is shown or, closed meanwhile, can no longer be shown; so it is seen for
  at least six seconds.
\<close>

theorem splash_is_seen:
  assumes "s = window_run es (show_startup t)"
  shows "(\<forall>d. w_shownAt s = Some d \<longrightarrow>
      t + MIN_SPLASH_DISPLAY_MS \<le> d \<and> d \<le> w_now s \<and> w_splash s \<noteq> Open \<and> w_pc s = Shown) \<and>
    (SplashCloses \<notin> set es \<and> SplashFallbackFails \<notin> set es \<longrightarrow>
      w_splash s = Open \<or> (t + MIN_SPLASH_DISPLAY_MS \<le> w_now s \<and> w_pc s \<in> {Shown, ShowThrew}))"
proof -
  have "splash_inv t s"
    unfolding assms by (rule splash_inv_reach [OF window_reach_run [OF window_reach.Start]])
  moreover have "splash_kept t (show_startup t)"
    by (simp add: splash_kept_def show_startup_def createWindow_def createSplashWindow_def)
  then have "SplashCloses \<notin> set es \<and> SplashFallbackFails \<notin> set es \<longrightarrow> splash_kept t s"
    unfolding assms using splash_kept_run splash_inv_start by blast
  ultimately show ?thesis by (auto simp: splash_inv_def splash_kept_def)
qed

text \<open>
  An undisturbed start: the window is ready after \<open>r\<close>, the health check takes \<open>h\<close>, a start the time
  in \<open>started\<close>, if one is needed.
\<close>

definition start_time :: "nat option \<Rightarrow> nat" where
  "start_time started = (case started of Some st \<Rightarrow> st | None \<Rightarrow> 0)"

definition undisturbed :: "nat \<Rightarrow> nat \<Rightarrow> nat option \<Rightarrow> window_event list" where
  "undisturbed r h started =
     [Pass r, WindowReady, Pass h] @
     (case started of None \<Rightarrow> [HealthAnswers True] | Some st \<Rightarrow> [HealthAnswers False, Pass st, StartReturns]) @
     [Pass (6000 - (r + h + start_time started)), ShowTimerDue, ExitPlayed True, Pass 1500, ShowTimerDue]"

lemma window_run_simps [simp]:
  "window_run [] s = s" "window_run (e # es) s = window_run es (window_step e s)"
  "window_run (es @ fs) s = window_run fs (window_run es s)"
  by (simp_all add: window_run_def)

definition both_open :: "time \<Rightarrow> time \<Rightarrow> show_pc \<Rightarrow> windows" where
  "both_open t now pc = \<lparr> w_now = now, w_main = Open, w_splash = Open, w_splashShownAt = Some t, w_fallback = False,
     w_pc = pc, w_shownAt = None \<rparr>"

lemma show_startup_open: "show_startup t = both_open t t NotReady"
  by (simp add: show_startup_def createWindow_def createSplashWindow_def windows_init_def both_open_def)

lemma both_open_steps:
  "window_step (Pass n) (both_open t now pc) = both_open t (now + int n) pc"
  "window_step WindowReady (both_open t now NotReady) = both_open t now AskHealth"
  "window_step (HealthAnswers True) (both_open t now AskHealth) = daemon_seen (both_open t now AskHealth)"
  "window_step (HealthAnswers False) (both_open t now AskHealth) = both_open t now AwaitStart"
  "window_step StartReturns (both_open t now AwaitStart) = daemon_seen (both_open t now AwaitStart)"
  "window_step ShowTimerDue (both_open t now BeginExit) = both_open t now BeginExit"
  "d \<le> now \<Longrightarrow> window_step ShowTimerDue (both_open t now (WaitSplash d)) = both_open t now BeginExit"
  "window_step (ExitPlayed True) (both_open t now BeginExit) = both_open t now (WaitExit (now + 1500))"
  "d \<le> now \<Longrightarrow> window_step ShowTimerDue (both_open t now (WaitExit d)) =
     \<lparr> w_now = now, w_main = Open, w_splash = Null, w_splashShownAt = None, w_fallback = False, w_pc = Shown, w_shownAt = Some now \<rparr>"
  by (simp_all add: window_step_def both_open_def show_defs)

lemma daemon_seen_open:
  "daemon_seen (both_open t now pc) = both_open t now (if now - t < 6000 then WaitSplash (t + 6000) else BeginExit)"
  by (simp add: both_open_def show_defs Let_def)

lemma undisturbed_tail:
  "window_run [Pass (6000 - n), ShowTimerDue, ExitPlayed True, Pass 1500, ShowTimerDue] (daemon_seen (both_open t (t + int n) pc)) =
     \<lparr> w_now = t + max 6000 (int n) + 1500, w_main = Open, w_splash = Null, w_splashShownAt = None,
       w_fallback = False, w_pc = Shown, w_shownAt = Some (t + max 6000 (int n) + 1500) \<rparr>"
proof (cases "n < 6000")
  case True
  then have "t + int n + int (6000 - n) = t + 6000" "max 6000 (int n) = 6000" by simp_all
  with True show ?thesis by (simp add: daemon_seen_open both_open_steps)
next
  case False
  then have "int (6000 - n) = 0" "max 6000 (int n) = int n" by simp_all
  with False show ?thesis by (simp add: daemon_seen_open both_open_steps)
qed

lemma undisturbed_run:
  "window_run (undisturbed r h started) (show_startup t) =
     \<lparr> w_now = t + max 6000 (int (r + h + start_time started)) + 1500, w_main = Open, w_splash = Null, w_splashShownAt = None,
       w_fallback = False, w_pc = Shown, w_shownAt = Some (t + max 6000 (int (r + h + start_time started)) + 1500) \<rparr>"
proof -
  have "window_run ([Pass r, WindowReady, Pass h] @
      (case started of None \<Rightarrow> [HealthAnswers True] | Some st \<Rightarrow> [HealthAnswers False, Pass st, StartReturns])) (show_startup t) =
    daemon_seen (both_open t (t + int (r + h + start_time started)) (if started = None then AskHealth else AwaitStart))"
    by (cases started) (simp_all add: show_startup_open both_open_steps start_time_def algebra_simps)
  then show ?thesis unfolding undisturbed_def append_assoc [symmetric] window_run_simps(3) by (simp only: undisturbed_tail)
qed

theorem splash_is_seen_witness:
  "5 + MIN_SPLASH_DISPLAY_MS \<le> 7505 \<and> w_splash (window_run (undisturbed 800 200 None) (show_startup 5)) \<noteq> Open \<and>
   w_splash (window_run [Pass 800, WindowReady, Pass 200, HealthAnswers True, Pass 4000] (show_startup 5)) = Open"
proof -
  let ?es = "[Pass 800, WindowReady, Pass 200, HealthAnswers True, Pass 4000]"
  have shown: "w_shownAt (window_run (undisturbed 800 200 None) (show_startup 5)) = Some 7505"
    by (simp add: undisturbed_run start_time_def)
  have early: "w_now (window_run ?es (show_startup 5)) = 5005"
    by (simp add: show_startup_open both_open_steps daemon_seen_open) (simp add: both_open_def)
  have no: "SplashCloses \<notin> set ?es \<and> SplashFallbackFails \<notin> set ?es" by simp
  from mp [OF conjunct2 [OF splash_is_seen [OF refl, where es = ?es and t = 5]] no] early
  have "w_splash (window_run ?es (show_startup 5)) = Open" by (simp only: MIN_SPLASH_DISPLAY_MS_def) simp
  with conjunct1 [OF splash_is_seen [OF refl, where es = "undisturbed 800 200 None" and t = 5]] shown
  show ?thesis by blast
qed

text \<open>
  Further fact: when nothing is closed, the main window appears once the daemon has been looked after and
  six seconds have passed, and the exit of the splash has been played for another one and a half: no
  earlier and no later.
\<close>

theorem window_appears_on_time:
  "w_pc (window_run (undisturbed r h started) (show_startup t)) = Shown \<and>
   w_splash (window_run (undisturbed r h started) (show_startup t)) = Null \<and>
   w_shownAt (window_run (undisturbed r h started) (show_startup t)) =
     Some (t + max MIN_SPLASH_DISPLAY_MS (int (r + h + start_time started)) + SPLASH_EXIT_MS)"
  by (simp add: undisturbed_run MIN_SPLASH_DISPLAY_MS_def SPLASH_EXIT_MS_def)

text \<open>
  Further fact: loading the page tries its file in the application first, then the one beside the main
  process, and the loader complains exactly when none of them could be loaded. Electron's own event
  raises a dialog for every failed load as well, so also when the second file is shown without
  trouble.
\<close>

theorem page_load_outcome:
  assumes "idx = path_join (path_join (path_join appPath ''dist'') ''renderer'') ''index.html''"
    and "fb = path_join rendererDir ''index.html''"
  shows "(LoadDialog \<in> set (load_page False appPath rendererDir load_fails gone)) = (load_fails idx \<and> (gone \<or> load_fails fb)) \<and>
    [p \<leftarrow> load_page False appPath rendererDir load_fails gone. p \<noteq> LoadDialog] =
      (if load_fails idx \<and> \<not> gone then [LoadFile idx, LoadFile fb] else [LoadFile idx]) \<and>
    length (filter (\<lambda>o'. o' = LoadDialog) (with_load_events load_fails (load_page False appPath rendererDir load_fails gone))) =
      (if \<not> load_fails idx then 0 else if gone then 2 else if load_fails fb then 3 else 1)"
  unfolding load_page_def assms [symmetric] Let_def did_fail_load_def by (simp add: did_fail_load_def)

theorem page_load_outcome_witness:
  "length (filter (\<lambda>o'. o' = LoadDialog) (with_load_events (\<lambda>p. p = ''/app/dist/renderer/index.html'')
     (load_page False ''/app'' ''/app/dist/main'' (\<lambda>p. p = ''/app/dist/renderer/index.html'') False))) = 1"
  using page_load_outcome [of "''/app/dist/renderer/index.html''" "''/app''" "''/app/dist/main/index.html''" "''/app/dist/main''"
    "\<lambda>p. p = ''/app/dist/renderer/index.html''" False]
  by (simp add: path_join_def)

text \<open>
  Further fact: an interface carries a VPN's name in what the page is told about the interfaces exactly
  when the main process detects a VPN.
\<close>

theorem interface_list_shows_vpn:
  "lv_detected (detectVpn win32 ifs) \<longleftrightarrow> (\<exists>n \<in> set (netifs ifs). vpn_name win32 n)"
  by (induction ifs) (auto simp: detectVpn_Cons netifs_def simp del: detectVpn.simps(2))

text \<open>
  Further fact: after the log watchers have been cleaned up, no report about any file reaches the page, and
  everything that was watched has been unwatched.
\<close>

theorem no_lines_after_cleanup:
  "(let (w', paths) = cleanupLogWatchers w in
      on_change path cur prev content opened w' = (w', []) \<and> all_callbacks w' = [] \<and>
      set paths = set (map fst (lw_watchers w)))"
  by (simp add: cleanupLogWatchers_def on_change_def jm_get_def all_callbacks_def split: option.splits)

text \<open>
  Further fact: cleaning the port on request never kills a daemon that answers, and reports what it
  killed.
\<close>

theorem manual_cleanup_spares_healthy:
  assumes "ipc_cleanup_port win32 env = ((success, cleaned, pid), killed)"
  shows "(po_healthy env \<longrightarrow> killed = [] \<and> \<not> cleaned) \<and> (cleaned \<longrightarrow> (\<exists>p. pid = Some p \<and> killed = [p] \<and> \<not> po_stillInUse env))"
  using assms by (auto simp: ipc_cleanup_port_def cleanupStaleProcessesOnPort_def split: if_splits option.splits prod.splits)

text \<open>
  Property C0: the icon is the first of the candidates that exists: in development those of the assets
  and of the repository, otherwise those of the installed application.
\<close>

definition icon_candidates :: "icon_env \<Rightarrow> string list" where
  "icon_candidates env =
     (if ie_isDev env
      then [ie_assetsDir env @ ''/images/orc-torrent.png'', ie_assetsDir env @ ''/icons/icon.ico'',
        ie_repoRoot env @ ''/images/orc-torrent.png'', ie_repoRoot env @ ''/icons/orc-torrent.ico'']
      else (case ie_resourcesPath env of
        None \<Rightarrow> []
      | Some r \<Rightarrow> if r = [] then []
          else [r @ ''/icon.ico'', r @ ''/app/assets/images/orc-torrent.png'', r @ ''/app/assets/icons/icon.ico'']))"

theorem icon_is_first_existing:
  "getIconPath env = find (ie_exists env) (icon_candidates env)"
  by (simp add: getIconPath_def icon_candidates_def path_join_def png_name_def ico_name_def Let_def split: option.splits)

end
