(* ===== verification/Dialogs.thy ===== *)
theory Dialogs
  imports TorrentTable Errors
begin

text \<open>
  Parts of the page that keep a little state of their own: the toast
  (\<open>components/Toast.tsx\<close> with \<open>pushToast\<close> of \<open>ui/App.tsx\<close>), the modal dialog and its keyboard focus
  (\<open>components/Modal.tsx\<close>), the error boundary (\<open>components/ErrorBoundary.tsx\<close>), the menus of the
  bulk panel (\<open>components/torrents/BulkActionPanel.tsx\<close>) and the choice of columns
  (\<open>components/torrents/ColumnChooser.tsx\<close>).

  The page passes \<open>onClose\<close> as a new function each time it is drawn, so the effects of toast and modal
  run again then: that is the event of redrawing.
\<close>

subsection \<open>Toast\<close>

text \<open>Time is in milliseconds; timers hold the moment they are due.\<close>

record 'm toast_box =
  tx_now :: nat
  tx_toast :: "'m option"
  tx_isClosing :: bool
  tx_closeTimer :: "nat option"
  tx_animationTimer :: "nat option"
  tx_toastTimer :: "nat option"

definition toast_init :: "'m toast_box" where
  "toast_init = \<lparr> tx_now = 0, tx_toast = None, tx_isClosing = False, tx_closeTimer = None, tx_animationTimer = None,
     tx_toastTimer = None \<rparr>"

definition toast_effect :: "'m toast_box \<Rightarrow> 'm toast_box" where
  "toast_effect s =
     (let cleared = s\<lparr> tx_closeTimer := None, tx_animationTimer := None, tx_isClosing := False \<rparr> in
      case tx_toast s of None \<Rightarrow> cleared | Some m \<Rightarrow> cleared\<lparr> tx_closeTimer := Some (tx_now s + 2950) \<rparr>)"

definition pushToast :: "'m \<Rightarrow> 'm toast_box \<Rightarrow> 'm toast_box" where
  "pushToast m s = toast_effect (s\<lparr> tx_toast := Some m, tx_toastTimer := Some (tx_now s + 3200) \<rparr>)"

definition toast_gone :: "'m toast_box \<Rightarrow> 'm toast_box" where
  "toast_gone s = toast_effect (s\<lparr> tx_toast := None \<rparr>)"

definition toast_tick :: "'m toast_box \<Rightarrow> 'm toast_box" where
  "toast_tick s =
     (let now = Suc (tx_now s);
          a = s\<lparr> tx_now := now \<rparr>;
          b = (if tx_toastTimer a = Some now then toast_gone (a\<lparr> tx_toastTimer := None \<rparr>) else a);
          c = (if tx_closeTimer b = Some now
               then b\<lparr> tx_isClosing := True, tx_closeTimer := None, tx_animationTimer := Some (now + 250) \<rparr> else b) in
      if tx_animationTimer c = Some now then toast_gone c else c)"

datatype 'm toast_event = Push 'm | Redraw | Millisecond

definition toast_step :: "'m toast_event \<Rightarrow> 'm toast_box \<Rightarrow> 'm toast_box" where
  "toast_step e s = (case e of Push m \<Rightarrow> pushToast m s | Redraw \<Rightarrow> toast_effect s | Millisecond \<Rightarrow> toast_tick s)"

subsection \<open>Modal dialog\<close>

text \<open>
  Elements are numbers. \<open>focusable\<close> lists what the selector finds in the dialog, \<open>can\<close> says what can
  take the focus (a disabled button cannot), \<open>browser\<close> where the browser moves it by itself.
\<close>

record modal =
  md_isOpen :: bool
  md_previous :: "nat option"
  md_focus :: nat
  md_timer :: bool

definition focus_on :: "(nat \<Rightarrow> bool) \<Rightarrow> nat \<Rightarrow> modal \<Rightarrow> modal" where
  "focus_on can e s = (if can e then s\<lparr> md_focus := e \<rparr> else s)"

definition modal_effect :: "modal \<Rightarrow> modal" where
  "modal_effect s = s\<lparr> md_previous := Some (md_focus s), md_timer := True \<rparr>"

definition modal_cleanup :: "(nat \<Rightarrow> bool) \<Rightarrow> modal \<Rightarrow> modal" where
  "modal_cleanup can s = (case md_previous s of Some p \<Rightarrow> focus_on can p s | None \<Rightarrow> s)"

definition modal_open :: "modal \<Rightarrow> modal" where
  "modal_open s = (if md_isOpen s then s else modal_effect (s\<lparr> md_isOpen := True \<rparr>))"

definition modal_close :: "(nat \<Rightarrow> bool) \<Rightarrow> modal \<Rightarrow> modal" where
  "modal_close can s = (if md_isOpen s then modal_cleanup can (s\<lparr> md_isOpen := False \<rparr>) else s)"

definition modal_redraw :: "(nat \<Rightarrow> bool) \<Rightarrow> modal \<Rightarrow> modal" where
  "modal_redraw can s = (if md_isOpen s then modal_effect (modal_cleanup can s) else s)"

definition focus_timer :: "(nat \<Rightarrow> bool) \<Rightarrow> nat list \<Rightarrow> modal \<Rightarrow> modal" where
  "focus_timer can focusable s =
     (let s' = s\<lparr> md_timer := False \<rparr> in
      if md_timer s \<and> md_isOpen s \<and> focusable \<noteq> [] then focus_on can (hd focusable) s' else s')"

definition handleTab :: "(nat \<Rightarrow> bool) \<Rightarrow> nat list \<Rightarrow> (bool \<Rightarrow> nat \<Rightarrow> nat) \<Rightarrow> bool \<Rightarrow> modal \<Rightarrow> modal" where
  "handleTab can focusable browser shiftKey s =
     (if md_isOpen s \<and> focusable \<noteq> [] \<and> shiftKey \<and> md_focus s = hd focusable then focus_on can (last focusable) s
      else if md_isOpen s \<and> focusable \<noteq> [] \<and> \<not> shiftKey \<and> md_focus s = last focusable then focus_on can (hd focusable) s
      else s\<lparr> md_focus := browser shiftKey (md_focus s) \<rparr>)"

datatype modal_event = FocusTimer "nat list" | TabKey "nat list" bool | ModalRedraw | ClickOn nat

definition modal_step :: "(nat \<Rightarrow> bool) \<Rightarrow> (bool \<Rightarrow> nat \<Rightarrow> nat) \<Rightarrow> modal_event \<Rightarrow> modal \<Rightarrow> modal" where
  "modal_step can browser e s = (case e of
      FocusTimer xs \<Rightarrow> focus_timer can xs s
    | TabKey xs shift \<Rightarrow> handleTab can xs browser shift s
    | ModalRedraw \<Rightarrow> modal_redraw can s
    | ClickOn x \<Rightarrow> focus_on can x s)"

subsection \<open>Error boundary\<close>

record error_boundary =
  eb_hasError :: bool
  eb_error :: "thrown option"

datatype boundary_view = Children | Fallback | ErrorPanel string

definition boundary_init :: error_boundary where
  "boundary_init = \<lparr> eb_hasError = False, eb_error = None \<rparr>"

definition getDerivedStateFromError :: "thrown \<Rightarrow> error_boundary" where
  "getDerivedStateFromError e = \<lparr> eb_hasError = True, eb_error = Some e \<rparr>"

definition handleReset :: "error_boundary \<Rightarrow> error_boundary" where
  "handleReset s = s\<lparr> eb_hasError := False, eb_error := None \<rparr>"

text \<open>\<open>fallback\<close> says whether a fallback is given; \<open>null\<close> counts as none.\<close>

definition boundary_render :: "bool \<Rightarrow> error_boundary \<Rightarrow> boundary_view" where
  "boundary_render fallback s =
     (if \<not> eb_hasError s then Children
      else if fallback then Fallback
      else ErrorPanel (case eb_error s of
          Some e \<Rightarrow> (let m = message_or [] e in if m = [] then ''An unexpected error occurred'' else m)
        | None \<Rightarrow> ''An unexpected error occurred''))"

subsection \<open>Menus of the bulk panel\<close>

datatype bulk_menu = MenuPriority | MenuLabel | MenuVpn

type_synonym bulk_menus = "bulk_menu \<Rightarrow> bool"

definition bulk_init :: bulk_menus where "bulk_init = (\<lambda>m. False)"

text \<open>\<open>handleClickOutside\<close>: the press is inside the element of one menu, or of none.\<close>

definition handleClickOutside :: "bulk_menu option \<Rightarrow> bulk_menus \<Rightarrow> bulk_menus" where
  "handleClickOutside target s = (\<lambda>m. s m \<and> target = Some m)"

definition bulk_toggle :: "bulk_menu \<Rightarrow> bulk_menus \<Rightarrow> bulk_menus" where
  "bulk_toggle m s = s(m := \<not> s m)"

definition bulk_item :: "bulk_menu \<Rightarrow> bulk_menus \<Rightarrow> bulk_menus" where
  "bulk_item m s = s(m := False)"

datatype bulk_click = OnButton bulk_menu | OnItem bulk_menu | Elsewhere

definition bulk_clicked :: "bulk_click \<Rightarrow> bulk_menus \<Rightarrow> bulk_menus" where
  "bulk_clicked c s = (case c of
      OnButton m \<Rightarrow> bulk_toggle m (handleClickOutside (Some m) s)
    | OnItem m \<Rightarrow> if s m then bulk_item m (handleClickOutside (Some m) s) else s
    | Elsewhere \<Rightarrow> handleClickOutside None s)"

subsection \<open>Columns\<close>

definition ALL_COLUMNS :: "sort_column list" where
  "ALL_COLUMNS = [ColName, ColProgress, ColStatus, ColSize, ColEta, ColSeeds, ColPeers, ColDownSpeed, ColUpSpeed, ColRatio,
     ColQueue, ColAdded, ColAvailability, ColHealth]"

text \<open>The table's columns, and those it shows.\<close>

definition COLUMNS :: "(sort_column \<times> string \<times> nat) list" where
  "COLUMNS =
     [(ColName, ''Name'', 300), (ColProgress, ''Progress'', 140), (ColDownloaded, ''Downloaded / Size'', 140), (ColEta, ''ETA'', 100),
      (ColSpeed, ''Down / Up'', 120), (ColPeers, ''Peers / Seeds'', 120), (ColStatus, ''Status'', 110), (ColSize, ''Size'', 100),
      (ColDownSpeed, ''Down'', 90), (ColUpSpeed, ''Up'', 90), (ColSeeds, ''Seeds'', 70), (ColRatio, ''Ratio'', 80),
      (ColQueue, ''Queue'', 70), (ColAdded, ''Added'', 100), (ColAvailability, ''Availability'', 100), (ColHealth, ''Health'', 80)]"

definition shown_columns :: "sort_column list \<Rightarrow> sort_column list" where
  "shown_columns visibleColumns = filter (\<lambda>c. c \<in> set visibleColumns) (map fst COLUMNS)"

definition DEFAULT_VISIBLE_COLUMNS :: "sort_column list" where
  "DEFAULT_VISIBLE_COLUMNS = [ColName, ColProgress, ColDownloaded, ColEta, ColSpeed, ColPeers, ColStatus]"

definition handleToggleColumn :: "sort_column \<Rightarrow> sort_column list \<Rightarrow> sort_column list" where
  "handleToggleColumn column visibleColumns =
     (if column \<in> set visibleColumns
      then (if length visibleColumns > 1 then filter (\<lambda>c. c \<noteq> column) visibleColumns else visibleColumns)
      else set_add column visibleColumns)"

datatype column_action = ToggleColumn sort_column | SelectAllColumns | DeselectAllColumns

definition column_act :: "column_action \<Rightarrow> sort_column list \<Rightarrow> sort_column list" where
  "column_act a visibleColumns = (case a of
      ToggleColumn c \<Rightarrow> if c \<in> set ALL_COLUMNS then handleToggleColumn c visibleColumns else visibleColumns
    | SelectAllColumns \<Rightarrow> fold set_add ALL_COLUMNS []
    | DeselectAllColumns \<Rightarrow> [ColName])"

record column_chooser =
  cc_isOpen :: bool
  cc_layoutName :: string

definition chooser_save :: "column_chooser \<Rightarrow> column_chooser \<times> string option" where
  "chooser_save s =
     (let name = js_trim (cc_layoutName s) in
      if name = [] then (s, None) else (s\<lparr> cc_layoutName := [] \<rparr>, Some name))"

definition chooser_press :: "bool \<Rightarrow> column_chooser \<Rightarrow> column_chooser" where
  "chooser_press inside s = (if cc_isOpen s \<and> \<not> inside then s\<lparr> cc_isOpen := False \<rparr> else s)"

section \<open>Properties\<close>

subsection \<open>Toast\<close>

text \<open>The abstract toast: the last message and its age.\<close>

fun toast_spec :: "'m toast_event \<Rightarrow> ('m \<times> nat) option \<Rightarrow> ('m \<times> nat) option" where
  "toast_spec (Push m) a = Some (m, 0)"
| "toast_spec Redraw a = a"
| "toast_spec Millisecond a = map_option (\<lambda>(m, age). (m, Suc age)) a"

definition toast_shown :: "('m \<times> nat) option \<Rightarrow> 'm option" where
  "toast_shown a = (case a of Some (m, age) \<Rightarrow> if age < 3200 then Some m else None | None \<Rightarrow> None)"

definition toast_rel :: "'m toast_box \<Rightarrow> ('m \<times> nat) option \<Rightarrow> bool" where
  "toast_rel s a \<longleftrightarrow> tx_toast s = toast_shown a \<and>
     (case a of
        Some (m, age) \<Rightarrow>
          if age < 3200
          then tx_toastTimer s = Some (tx_now s + (3200 - age)) \<and>
            (\<forall>c. tx_closeTimer s = Some c \<longrightarrow> tx_now s < c \<and> tx_now s + 2950 \<le> c + age) \<and>
            (\<forall>d. tx_animationTimer s = Some d \<longrightarrow> tx_now s < d \<and> tx_now s + 3200 \<le> d + age)
          else tx_toastTimer s = None \<and> tx_closeTimer s = None \<and> tx_animationTimer s = None
      | None \<Rightarrow> tx_toastTimer s = None \<and> tx_closeTimer s = None \<and> tx_animationTimer s = None)"

lemmas toast_defs = toast_effect_def toast_gone_def pushToast_def toast_shown_def Let_def

lemma toast_rel_push: "toast_rel (pushToast m s) (Some (m, 0))"
  by (simp add: toast_rel_def toast_defs)

lemma toast_rel_redraw: "toast_rel s a \<Longrightarrow> toast_rel (toast_effect s) a"
  by (cases a) (auto simp: toast_rel_def toast_defs split: option.splits if_splits)

lemma toast_rel_tick_none:
  assumes "toast_rel s a" "toast_shown a = None"
  shows "toast_rel (toast_tick s) (map_option (\<lambda>(m, age). (m, Suc age)) a)"
  using assms by (cases a) (auto simp: toast_rel_def toast_tick_def toast_defs split: if_splits)

lemma toast_rel_tick_last:
  assumes "toast_rel s (Some (m, 3199))"
  shows "toast_rel (toast_tick s) (Some (m, 3200))"
  using assms by (simp add: toast_rel_def toast_tick_def toast_defs)

lemma toast_rel_tick_some:
  assumes "toast_rel s (Some (m, age))" "Suc age < 3200"
  shows "toast_rel (toast_tick s) (Some (m, Suc age))"
proof -
  have f: "tx_toast s = Some m" "tx_toastTimer s = Some (tx_now s + (3200 - age))" "tx_toastTimer s \<noteq> Some (Suc (tx_now s))"
    "tx_closeTimer s = Some c \<Longrightarrow> tx_now s < c \<and> tx_now s + 2950 \<le> c + age"
    "tx_animationTimer s = Some d \<Longrightarrow> tx_now s < d \<and> tx_now s + 3200 \<le> d + age" for c d
    using assms by (auto simp: toast_rel_def toast_shown_def)
  have anim: "tx_animationTimer s \<noteq> Some (Suc (tx_now s))" using f(5) assms(2) by auto
  have t: "tx_now s + (3200 - age) = Suc (tx_now s) + (3200 - Suc age)" using assms(2) by simp
  show ?thesis
  proof (cases "tx_closeTimer s = Some (Suc (tx_now s))")
    case True
    then have "2950 \<le> Suc age" using f(4) by simp
    with True show ?thesis using f(1,2,3) t assms(2) anim
      by (simp add: toast_rel_def toast_tick_def toast_shown_def Let_def)
  next
    case False
    have "tx_closeTimer s = Some c \<Longrightarrow> Suc (tx_now s) < c \<and> Suc (tx_now s) + 2950 \<le> c + Suc age" for c
      using False f(4) [of c] by (cases "c = Suc (tx_now s)") auto
    moreover have "tx_animationTimer s = Some d \<Longrightarrow> Suc (tx_now s) < d \<and> Suc (tx_now s) + 3200 \<le> d + Suc age" for d
      using anim f(5) [of d] by (cases "d = Suc (tx_now s)") auto
    ultimately show ?thesis using False anim f(1,2,3) t assms(2)
      by (simp add: toast_rel_def toast_tick_def toast_shown_def Let_def)
  qed
qed

lemma toast_rel_step: "toast_rel s a \<Longrightarrow> toast_rel (toast_step e s) (toast_spec e a)"
proof (cases e)
  case Millisecond
  assume r: "toast_rel s a"
  show ?thesis
  proof (cases "toast_shown a")
    case None
    then show ?thesis using toast_rel_tick_none [OF r] Millisecond by (simp add: toast_step_def)
  next
    case (Some m)
    then obtain age where a: "a = Some (m, age)" "age < 3200"
      by (auto simp: toast_shown_def split: option.splits if_splits)
    show ?thesis
    proof (cases "Suc age < 3200")
      case True
      then show ?thesis using toast_rel_tick_some r a Millisecond by (simp add: toast_step_def)
    next
      case False
      with a(2) have "age = 3199" by simp
      then show ?thesis using toast_rel_tick_last r a Millisecond by (simp add: toast_step_def)
    qed
  qed
qed (auto simp: toast_step_def toast_rel_push toast_rel_redraw)

lemma toast_rel_run: "toast_rel s a \<Longrightarrow> toast_rel (fold toast_step es s) (fold toast_spec es a)"
  by (induction es arbitrary: s a) (auto intro: toast_rel_step)

text \<open>
  Property C25: however often the page is redrawn and whenever messages come, the toast shows the last
  message for exactly 3200 milliseconds: the two timers of the component never end it earlier, nor
  those of the message before it.
\<close>

theorem toast_shows_last_message:
  "tx_toast (fold toast_step es toast_init) = toast_shown (fold toast_spec es None)"
proof -
  have "toast_rel (toast_init :: 'a toast_box) None" by (simp add: toast_rel_def toast_init_def toast_shown_def)
  from toast_rel_run [OF this, of es] show ?thesis by (simp add: toast_rel_def)
qed

definition calm :: "nat \<Rightarrow> 'm toast_box \<Rightarrow> bool" where
  "calm n s \<longleftrightarrow> \<not> tx_isClosing s \<and> tx_animationTimer s = None \<and>
     (case tx_closeTimer s of None \<Rightarrow> True | Some c \<Rightarrow> tx_now s + n \<le> c)"

lemma calm_effect: "calm 2950 (toast_effect s)"
  by (cases "tx_toast s") (simp_all add: calm_def toast_effect_def Let_def)

lemma calm_tick: "calm (Suc (Suc n)) s \<Longrightarrow> calm (Suc n) (toast_tick s)"
  by (auto simp: calm_def toast_tick_def toast_gone_def toast_effect_def Let_def split: option.splits)

lemma calm_ticks: "calm (Suc (n + k)) s \<Longrightarrow> calm (Suc k) ((toast_tick ^^ n) s)"
  by (induction n arbitrary: k) (simp_all add: calm_tick del: funpow.simps(2) add: funpow.simps(2) [unfolded comp_def])

text \<open>
  Further fact: the closing animation does not begin while the page is redrawn every 2.9 seconds, as it is
  when it refreshes every two: the toast then disappears without it.
\<close>

theorem closing_needs_a_quiet_page:
  assumes "n < 2950"
  shows "\<not> tx_isClosing ((toast_tick ^^ n) (toast_effect s))"
proof -
  have "calm (Suc (n + (2949 - n))) (toast_effect s)" using calm_effect [of s] assms by simp
  from calm_ticks [OF this] show ?thesis by (simp add: calm_def)
qed

theorem closing_needs_a_quiet_page_witness:
  "\<not> tx_isClosing ((toast_tick ^^ 2000) (toast_effect (pushToast ''saved'' toast_init)))"
  using closing_needs_a_quiet_page [of 2000 "pushToast ''saved'' toast_init"] by simp

subsection \<open>Modal dialog\<close>

text \<open>A run: at each event, which elements can take the focus at that moment.\<close>

definition modal_run :: "(bool \<Rightarrow> nat \<Rightarrow> nat) \<Rightarrow> ((nat \<Rightarrow> bool) \<times> modal_event) list \<Rightarrow> modal \<Rightarrow> modal" where
  "modal_run browser evs s = fold (\<lambda>(can, e). modal_step can browser e) evs s"

lemma modal_step_keeps_previous:
  assumes "md_isOpen s" "md_previous s = Some p" "e = ModalRedraw \<Longrightarrow> can p"
  shows "md_isOpen (modal_step can browser e s) \<and> md_previous (modal_step can browser e s) = Some p"
  using assms by (cases e) (auto simp: modal_step_def focus_timer_def focus_on_def handleTab_def modal_redraw_def
    modal_cleanup_def modal_effect_def Let_def)

lemma modal_run_keeps_previous:
  assumes "md_isOpen s" "md_previous s = Some p" "\<forall>(can, e) \<in> set evs. e = ModalRedraw \<longrightarrow> can p"
  shows "md_isOpen (modal_run browser evs s) \<and> md_previous (modal_run browser evs s) = Some p"
  using assms unfolding modal_run_def
proof (induction evs arbitrary: s)
  case (Cons x evs)
  obtain can e where x: "x = (can, e)" by fastforce
  have "md_isOpen (modal_step can browser e s) \<and> md_previous (modal_step can browser e s) = Some p"
    using Cons.prems x by (intro modal_step_keeps_previous) auto
  with Cons.IH [of "modal_step can browser e s"] Cons.prems(3) x show ?case by simp
qed simp

text \<open>
  Property C27: whatever is pressed, clicked and redrawn while a dialog is open, closing it gives the
  focus back to the element that had it when the dialog was opened, provided that this
  element can take the focus when the dialog closes and at every redraw before; what
  can take the focus may otherwise change at any time.
\<close>

theorem focus_comes_back:
  assumes "\<not> md_isOpen s" "\<forall>(can, e) \<in> set evs. e = ModalRedraw \<longrightarrow> can (md_focus s)" "can_last (md_focus s)"
  shows "md_focus (modal_close can_last (modal_run browser evs (modal_open s))) = md_focus s"
proof -
  have o: "md_isOpen (modal_open s)" "md_previous (modal_open s) = Some (md_focus s)"
    using assms(1) by (simp_all add: modal_open_def modal_effect_def)
  from modal_run_keeps_previous [OF o assms(2)]
  show ?thesis using assms(3) by (simp add: modal_close_def modal_cleanup_def focus_on_def)
qed

definition closed_modal :: "nat \<Rightarrow> modal" where
  "closed_modal e = \<lparr> md_isOpen = False, md_previous = None, md_focus = e, md_timer = False \<rparr>"

theorem focus_comes_back_witness:
  "md_focus (modal_close (\<lambda>e. True) (modal_run (\<lambda>b e. e + 1)
     [(\<lambda>e. e \<noteq> 3, FocusTimer [7, 8, 9]), (\<lambda>e. True, TabKey [7, 8, 9] False), (\<lambda>e. e \<noteq> 8, ModalRedraw), (\<lambda>e. True, ClickOn 9)]
     (modal_open (closed_modal 3)))) = 3"
  using focus_comes_back [of "closed_modal 3" "[(\<lambda>e. e \<noteq> 3, FocusTimer [7, 8, 9]), (\<lambda>e. True, TabKey [7, 8, 9] False),
      (\<lambda>e. e \<noteq> 8, ModalRedraw), (\<lambda>e. True, ClickOn 9)]" "\<lambda>e. True" "\<lambda>b e. e + 1"]
  by (simp add: closed_modal_def)

text \<open>
  Further fact: a redraw at which that element cannot take the focus (the button \<open>Add\<close> is disabled while the
  daemon is offline) makes the dialog remember the element of the dialog that has the focus instead, and closing
  the dialog does not bring the focus back.
\<close>

theorem focus_can_be_lost:
  assumes "md_isOpen s" "md_previous s = Some p" "\<not> can p" "md_focus s = x" "x \<noteq> p" "can_last x"
  shows "md_previous (modal_redraw can s) = Some x \<and> md_focus (modal_close can_last (modal_redraw can s)) = x"
  using assms by (simp add: modal_redraw_def modal_cleanup_def modal_effect_def focus_on_def modal_close_def)

theorem focus_can_be_lost_witness:
  "md_focus (modal_close (\<lambda>e. True) (modal_redraw (\<lambda>e. e \<noteq> 3)
     (modal_step (\<lambda>e. True) (\<lambda>b e. e) (ClickOn 8) (modal_open (closed_modal 3))))) = 8"
  using focus_can_be_lost [of "modal_step (\<lambda>e. True) (\<lambda>b e. e) (ClickOn 8) (modal_open (closed_modal 3))" 3 "\<lambda>e. e \<noteq> 3" 8 "\<lambda>e. True"]
  by (simp add: closed_modal_def modal_open_def modal_effect_def modal_step_def focus_on_def)

text \<open>
  Further fact: the focus does not leave an open dialog by the tabulator key, provided its first and last
  element can take the focus and the browser moves it inside the dialog from all others.
\<close>

theorem tab_stays_in_dialog:
  assumes "md_isOpen s" "md_focus s \<in> set xs" "can (hd xs)" "can (last xs)"
    and "\<forall>x \<in> set xs. (x \<noteq> last xs \<longrightarrow> browser False x \<in> set xs) \<and> (x \<noteq> hd xs \<longrightarrow> browser True x \<in> set xs)"
  shows "md_focus (handleTab can xs browser shift s) \<in> set xs"
proof -
  from assms(2) have ne: "xs \<noteq> []" by auto
  then have "hd xs \<in> set xs" "last xs \<in> set xs" by simp_all
  with bspec [OF assms(5) assms(2)] show ?thesis using assms(1-4) ne by (cases shift) (auto simp: handleTab_def focus_on_def)
qed

theorem tab_stays_in_dialog_witness:
  "md_focus (handleTab (\<lambda>e. True) [7, 8, 9] (\<lambda>b e. if b then e - 1 else e + 1) False (modal_open (closed_modal 9))) \<in> {7, 8, 9}"
  using tab_stays_in_dialog [of "modal_open (closed_modal 9)" "[7, 8, 9]" "\<lambda>e. True" "\<lambda>b e. if b then e - 1 else e + 1" False]
  by (simp add: closed_modal_def modal_open_def modal_effect_def)

text \<open>
  Further fact: each time the page is redrawn while a dialog is open, the focus jumps to the first element
  of the dialog, also while the user types in another one; and a dialog whose last button is disabled
  lets the focus out.
\<close>

theorem redrawing_moves_the_focus:
  assumes "md_isOpen s" "xs \<noteq> []" "can (hd xs)"
  shows "md_focus (focus_timer can xs (modal_redraw can s)) = hd xs \<and>
    (\<not> can (last xs) \<longrightarrow> md_focus s \<noteq> last xs \<longrightarrow>
      md_focus (handleTab can xs browser False s) = browser False (md_focus s))"
proof
  have "md_isOpen (modal_cleanup can s)" using assms(1) by (simp add: modal_cleanup_def focus_on_def split: option.splits)
  then show "md_focus (focus_timer can xs (modal_redraw can s)) = hd xs"
    using assms by (simp add: focus_timer_def modal_redraw_def modal_effect_def focus_on_def Let_def)
  show "\<not> can (last xs) \<longrightarrow> md_focus s \<noteq> last xs \<longrightarrow>
      md_focus (handleTab can xs browser False s) = browser False (md_focus s)"
    by (simp add: handleTab_def)
qed

theorem redrawing_moves_the_focus_witness:
  "md_focus (focus_timer (\<lambda>e. True) [7, 8, 9] (modal_redraw (\<lambda>e. True) (modal_step (\<lambda>e. True) (\<lambda>b e. e) (ClickOn 8)
     (modal_open (closed_modal 3))))) = 7"
  using redrawing_moves_the_focus [of "modal_step (\<lambda>e. True) (\<lambda>b e. e) (ClickOn 8) (modal_open (closed_modal 3))" "[7, 8, 9]" "\<lambda>e. True"]
  by (simp add: closed_modal_def modal_open_def modal_effect_def modal_step_def focus_on_def)

subsection \<open>Error boundary, menus and columns\<close>

text \<open>
  Further fact: after an error below it the boundary shows a message that is never empty, unless it has a
  fallback, and trying again shows the page.
\<close>

theorem boundary_tells_the_error:
  "boundary_render fallback boundary_init = Children \<and>
   (\<exists>m. m \<noteq> [] \<and> boundary_render False (getDerivedStateFromError e) = ErrorPanel m) \<and>
   boundary_render True (getDerivedStateFromError e) = Fallback \<and>
   boundary_render fallback (handleReset (getDerivedStateFromError e)) = Children"
  by (auto simp: boundary_render_def boundary_init_def getDerivedStateFromError_def handleReset_def Let_def)

text \<open>
  Further fact: by clicking, at most one menu of the bulk panel is ever open, and a click elsewhere closes
  it.
\<close>

theorem one_menu_at_a_time:
  "(fold bulk_clicked cs bulk_init m \<and> fold bulk_clicked cs bulk_init m' \<longrightarrow> m = m') \<and>
   bulk_clicked Elsewhere (fold bulk_clicked cs bulk_init) = bulk_init"
proof
  have one: "(\<And>a b. s a \<Longrightarrow> s b \<Longrightarrow> a = b) \<Longrightarrow> fold bulk_clicked cs s m \<Longrightarrow> fold bulk_clicked cs s m' \<Longrightarrow> m = m'" for s
  proof (induction cs arbitrary: s)
    case Nil
    from Nil(2,3) show ?case by (simp add: Nil(1) [of m m'])
  next
    case (Cons c cs)
    have "bulk_clicked c s a \<Longrightarrow> bulk_clicked c s b \<Longrightarrow> a = b" for a b
      using Cons.prems(1) [of a b] by (cases c) (auto simp: bulk_clicked_def bulk_toggle_def bulk_item_def handleClickOutside_def split: if_splits)
    from Cons.IH [OF this] Cons.prems(2,3) show ?case by simp
  qed
  have "bulk_init a \<Longrightarrow> bulk_init b \<Longrightarrow> a = b" for a b by (simp add: bulk_init_def)
  from one [OF this] show "fold bulk_clicked cs bulk_init m \<and> fold bulk_clicked cs bulk_init m' \<longrightarrow> m = m'" by blast
  show "bulk_clicked Elsewhere (fold bulk_clicked cs bulk_init) = bulk_init"
    by (simp add: bulk_clicked_def handleClickOutside_def bulk_init_def)
qed

theorem one_menu_at_a_time_witness:
  "\<not> (fold bulk_clicked [OnButton MenuLabel, OnButton MenuVpn] bulk_init MenuLabel)"
proof -
  have "fold bulk_clicked [OnButton MenuLabel, OnButton MenuVpn] bulk_init MenuVpn"
    by (simp add: bulk_clicked_def bulk_toggle_def handleClickOutside_def bulk_init_def)
  with one_menu_at_a_time [of "[OnButton MenuLabel, OnButton MenuVpn]" MenuLabel MenuVpn] show ?thesis by auto
qed

lemma column_act_kept:
  assumes "distinct cols" "cols \<noteq> []"
  shows "distinct (column_act a cols) \<and> column_act a cols \<noteq> []"
proof (cases a)
  case (ToggleColumn c)
  have "filter (\<lambda>d. d \<noteq> c) cols \<noteq> []" if "length cols > 1" "c \<in> set cols"
  proof
    assume "filter (\<lambda>d. d \<noteq> c) cols = []"
    then have "set cols \<subseteq> {c}" by (auto simp: filter_empty_conv)
    then have "card (set cols) \<le> 1" using card_mono [of "{c}" "set cols"] by simp
    with that(1) assms(1) show False by (simp add: distinct_card)
  qed
  with ToggleColumn assms show ?thesis by (auto simp: column_act_def handleToggleColumn_def set_add_def)
next
  case SelectAllColumns
  have "fold set_add ALL_COLUMNS [] = ALL_COLUMNS" by (simp add: ALL_COLUMNS_def set_add_def)
  with SelectAllColumns show ?thesis by (simp add: column_act_def) (simp add: ALL_COLUMNS_def)
qed (simp add: column_act_def)

lemma column_acts_kept:
  "distinct cols \<Longrightarrow> cols \<noteq> [] \<Longrightarrow> distinct (fold column_act as cols) \<and> fold column_act as cols \<noteq> []"
  by (induction as arbitrary: cols) (simp_all add: column_act_kept)

text \<open>
  Further fact: whatever columns the user switches on and off, the table shows at least one, each chosen
  one, and none twice.
\<close>

theorem columns_are_never_empty:
  "shown_columns (fold column_act as DEFAULT_VISIBLE_COLUMNS) \<noteq> [] \<and>
   distinct (shown_columns (fold column_act as DEFAULT_VISIBLE_COLUMNS)) \<and>
   set (shown_columns (fold column_act as DEFAULT_VISIBLE_COLUMNS)) = set (fold column_act as DEFAULT_VISIBLE_COLUMNS)"
proof -
  define cols where "cols = fold column_act as DEFAULT_VISIBLE_COLUMNS"
  have all: "c \<in> fst ` set COLUMNS" for c by (cases c) (simp_all add: COLUMNS_def)
  have "cols \<noteq> []" unfolding cols_def
    using column_acts_kept [of DEFAULT_VISIBLE_COLUMNS as] by (simp add: DEFAULT_VISIBLE_COLUMNS_def)
  moreover have "set (shown_columns cols) = set cols" using all by (auto simp: shown_columns_def)
  moreover have "distinct (shown_columns cols)" unfolding shown_columns_def by (rule distinct_filter) (simp add: COLUMNS_def)
  ultimately show ?thesis unfolding cols_def [symmetric] by (metis set_empty)
qed

lemma lost_columns_stay:
  "c \<notin> set ALL_COLUMNS \<Longrightarrow> c \<noteq> ColName \<Longrightarrow> c \<notin> set cols \<Longrightarrow> c \<notin> set (fold column_act as cols)"
proof (induction as arbitrary: cols)
  case (Cons a as)
  have "set (fold set_add ALL_COLUMNS []) = set ALL_COLUMNS" by (simp add: ALL_COLUMNS_def set_add_def)
  with Cons.prems have "c \<notin> set (column_act a cols)"
    by (cases a) (auto simp: column_act_def handleToggleColumn_def set_add_def)
  with Cons show ?case by simp
qed simp

text \<open>
  Further fact: the columns with the downloaded size and the speed are shown at first, but choosing or
  dropping all columns loses them, and then no choice brings them back.
\<close>

theorem combined_columns_are_lost:
  assumes "a = SelectAllColumns \<or> a = DeselectAllColumns"
  shows "ColSpeed \<in> set (shown_columns DEFAULT_VISIBLE_COLUMNS) \<and> ColDownloaded \<in> set (shown_columns DEFAULT_VISIBLE_COLUMNS) \<and>
    ColSpeed \<notin> set (shown_columns (fold column_act as (column_act a cols))) \<and>
    ColDownloaded \<notin> set (shown_columns (fold column_act as (column_act a cols)))"
proof -
  have "c \<notin> set (shown_columns (fold column_act as (column_act a cols)))" if "c = ColSpeed \<or> c = ColDownloaded" for c
  proof -
    have "c \<notin> set (column_act a cols)" "c \<notin> set ALL_COLUMNS" "c \<noteq> ColName"
      using that assms by (auto simp: column_act_def ALL_COLUMNS_def set_add_def)
    then show ?thesis using lost_columns_stay [of c "column_act a cols" as] by (auto simp: shown_columns_def)
  qed
  then show ?thesis by (simp add: shown_columns_def COLUMNS_def DEFAULT_VISIBLE_COLUMNS_def)
qed

theorem combined_columns_are_lost_witness:
  "ColSpeed \<notin> set (shown_columns (fold column_act [DeselectAllColumns, ToggleColumn ColSpeed] (column_act SelectAllColumns DEFAULT_VISIBLE_COLUMNS)))"
  using combined_columns_are_lost [of SelectAllColumns "[DeselectAllColumns, ToggleColumn ColSpeed]" DEFAULT_VISIBLE_COLUMNS] by simp

text \<open>
  Further fact: a layout saved from the chooser has a name without blanks around it that is not empty, and
  loading that name gives the columns back.
\<close>

theorem chosen_layout_comes_back:
  assumes "chooser_save s = (s', Some name)" "distinct cols"
  shows "name \<noteq> [] \<and> name = js_trim (cc_layoutName s) \<and> cc_layoutName s' = [] \<and>
    (stored \<noteq> None \<longrightarrow> handleLoadLayout name (handleSaveLayout name cols now stored) other = cols)"
proof -
  have find: "List.find (\<lambda>l. ly_name l = name) (replace_layout l ls) = Some l" if "ly_name l = name" for l ls
    using that by (induction ls) auto
  have add: "distinct (acc @ cs) \<Longrightarrow> fold set_add cs acc = acc @ cs" for acc cs :: "sort_column list"
    by (induction cs arbitrary: acc) (simp_all add: set_add_def)
  have "handleLoadLayout name (handleSaveLayout name cols now (Some y)) other = cols" for y
    using add [of "[]" cols] assms(2) by (simp add: handleLoadLayout_def handleSaveLayout_def find)
  then show ?thesis using assms(1) by (auto simp: chooser_save_def Let_def split: if_splits)
qed

theorem chosen_layout_comes_back_witness:
  "handleLoadLayout ''a'' (handleSaveLayout ''a'' [ColEta] 7 (Some [])) [ColName] = [ColEta]"
  using chosen_layout_comes_back [of "\<lparr> cc_isOpen = True, cc_layoutName = ''a'' \<rparr>" "\<lparr> cc_isOpen = True, cc_layoutName = [] \<rparr>"
    "''a''" "[ColEta]" "Some []" 7 "[ColName]"] by (simp add: chooser_save_def js_trim_def is_ws_def Let_def)

end
