(* ===== verification/PageEffects.thy ===== *)
theory PageEffects
  imports AppRefresh Policy "HOL-Library.Multiset"
begin

text \<open>
  Effects of the page that keep asking (\<open>ui/App.tsx\<close>): the interval that pings and refreshes, the
  status of the selected torrent; the hook for one asynchronous operation
  (\<open>utils/useAsyncOperation.ts\<close>); and what the toggles of the security settings show
  (\<open>components/SecuritySettings.tsx\<close>), above the hook and the handlers of \<open>Policy\<close>.
\<close>

subsection \<open>Connection\<close>

text \<open>
  \<open>ping\<close>: the answers to \<open>/health\<close> and \<open>/version\<close>, each reduced to what the page reads of it; the
  second is asked for only after the first has come. The result is the state once both are known; until
  the second answer the page already goes by the first.
\<close>

record conn_view =
  cv_online :: bool
  cv_health :: "bool option"
  cv_version :: string

definition NO_VERSION :: string where "NO_VERSION = utf8 [226, 128, 148]"

definition ping :: "thrown + bool \<Rightarrow> thrown + string option \<Rightarrow> conn_view \<times> bool" where
  "ping health version =
     (let offline = (\<lparr> cv_online = False, cv_health = None, cv_version = NO_VERSION \<rparr>, False) in
      case health of
        Inl e \<Rightarrow> offline
      | Inr ok \<Rightarrow> (case version of
          Inl e \<Rightarrow> offline
        | Inr v \<Rightarrow> (\<lparr> cv_online = ok, cv_health = Some ok, cv_version = (case v of Some x \<Rightarrow> x | None \<Rightarrow> NO_VERSION) \<rparr>, True)))"

text \<open>The interfaces asked for once; the bridge may be missing, fail or answer something else.\<close>

definition fetch_netifs :: "(thrown + string list option) option \<Rightarrow> string list \<Rightarrow> string list" where
  "fetch_netifs answer shown = (case answer of
      None \<Rightarrow> shown
    | Some (Inl e) \<Rightarrow> []
    | Some (Inr None) \<Rightarrow> shown
    | Some (Inr (Some ifs)) \<Rightarrow> ifs)"

definition selectedTorrent :: "string list \<Rightarrow> torrent list \<Rightarrow> torrent option" where
  "selectedTorrent selectedIds ts =
     (if length selectedIds = 1 then List.find (\<lambda>t. t_id t = hd selectedIds) ts else None)"

subsection \<open>The polling interval\<close>

definition poll_interval :: "bool \<Rightarrow> time" where
  "poll_interval online = (if online then 2000 else 500)"

text \<open>A ping of the interval has answered at \<open>now\<close>; \<open>online\<close> is what the page had when it was drawn.\<close>

definition poll_answered :: "bool \<Rightarrow> bool \<Rightarrow> time \<Rightarrow> refresher \<Rightarrow> refresher" where
  "poll_answered isOnline online now r =
     (if isOnline \<and> \<not> online then begin_round False (r\<lparr> rf_lastRefreshTime := now \<rparr>)
      else if online then scheduleRefresh now r
      else r)"

text \<open>The effect runs when \<open>online\<close> changes; its clean-up drops the debounced refresh.\<close>

definition poll_effect :: "bool \<Rightarrow> time \<Rightarrow> refresher \<Rightarrow> refresher" where
  "poll_effect online now r =
     (let r1 = r\<lparr> rf_debounced := None \<rparr> in
      if online then begin_round False (r1\<lparr> rf_lastRefreshTime := now \<rparr>) else r1)"

subsection \<open>The selected torrent\<close>

record selected_view =
  sv_status :: "torrent_status option"
  sv_statuses :: "(string, torrent_status) jmap"

definition client_status :: "thrown \<Rightarrow> bool" where
  "client_status t = (case t of
      ThrownError e \<Rightarrow> (case e_api e of
          Some a \<Rightarrow> (case af_status a of Some s \<Rightarrow> 400 \<le> s \<and> s < 500 | None \<Rightarrow> False)
        | None \<Rightarrow> False)
    | _ \<Rightarrow> False)"

definition refreshStatus :: "string \<Rightarrow> thrown + torrent_status \<Rightarrow> selected_view \<Rightarrow> selected_view" where
  "refreshStatus tid res v = (case res of
      Inr s \<Rightarrow> v\<lparr> sv_status := Some s, sv_statuses := jm_set tid s (sv_statuses v) \<rparr>
    | Inl e \<Rightarrow> if client_status e then v\<lparr> sv_status := None \<rparr> else v)"

text \<open>What the effect asks for and how often; without a selection the status is dropped.\<close>

definition selected_effect :: "bool \<Rightarrow> string option \<Rightarrow> selected_view \<Rightarrow> (string \<times> time) option \<times> selected_view" where
  "selected_effect online chosen v = (case chosen of
      Some tid \<Rightarrow> (Some (tid, if online then 2000 else 5000), v)
    | None \<Rightarrow> (None, v\<lparr> sv_status := None \<rparr>))"

definition replies :: "(string \<times> (thrown + torrent_status)) list \<Rightarrow> selected_view \<Rightarrow> selected_view" where
  "replies rs v = fold (\<lambda>(tid, res). refreshStatus tid res) rs v"

subsection \<open>One asynchronous operation\<close>

record async_op =
  ao_loading :: bool
  ao_error :: "thrown option"

definition async_init :: async_op where "async_init = \<lparr> ao_loading = False, ao_error = None \<rparr>"

datatype 'a async_out = OnSuccess 'a | OnError thrown

definition execute_begin :: "async_op \<Rightarrow> async_op" where
  "execute_begin s = s\<lparr> ao_loading := True, ao_error := None \<rparr>"

text \<open>
  The state, what is called, and what the caller gets. \<open>string_of\<close> is \<open>String\<close> on other values; the
  callbacks do not throw.
\<close>

definition execute_end :: "(thrown \<Rightarrow> string) \<Rightarrow> thrown + 'a \<Rightarrow> async_op \<Rightarrow> async_op \<times> 'a async_out list \<times> (thrown + 'a)" where
  "execute_end string_of res s = (case res of
      Inr r \<Rightarrow> (s\<lparr> ao_loading := False \<rparr>, [OnSuccess r], Inr r)
    | Inl e \<Rightarrow> (let err = toError string_of e in
        (s\<lparr> ao_error := Some err, ao_loading := False \<rparr>, [OnError err], Inl err)))"

definition async_reset :: "async_op \<Rightarrow> async_op" where
  "async_reset s = s\<lparr> ao_error := None, ao_loading := False \<rparr>"

text \<open>
  \<open>Promise.all\<close>: the operations settle in the order \<open>settled\<close>, each named by its position; the first
  rejection rejects, otherwise the results come in the order of the operations.
\<close>

fun promise_all :: "(nat \<times> (thrown + 'a)) list \<Rightarrow> (nat \<times> 'a) list \<Rightarrow> thrown + 'a list" where
  "promise_all [] got = Inr (map snd (sort_key fst got))"
| "promise_all ((i, Inl e) # settled) got = Inl e"
| "promise_all ((i, Inr r) # settled) got = promise_all settled ((i, r) # got)"

definition bulk_execute_end ::
    "(thrown \<Rightarrow> string) \<Rightarrow> (nat \<times> (thrown + 'a)) list \<Rightarrow> async_op \<Rightarrow> async_op \<times> 'a list async_out list \<times> (thrown + 'a list)" where
  "bulk_execute_end string_of settled s = execute_end string_of (promise_all settled []) s"

subsection \<open>Security settings\<close>

datatype settings_panel = PanelNetwork | PanelPrivacy | PanelResistance

datatype toggle_kind = SwitchToggle | TriToggle | PadToggle

text \<open>The toggles of each panel: label, key and kind of input.\<close>

definition panel_toggles :: "settings_panel \<Rightarrow> (string \<times> string \<times> toggle_kind) list" where
  "panel_toggles p = (case p of
      PanelNetwork \<Rightarrow>
        [(''Kill Switch'', ''kill_switch'', SwitchToggle), (''Bind to Interface Only'', ''bind_interface_only'', SwitchToggle)]
    | PanelPrivacy \<Rightarrow>
        [(''Anonymous Mode'', ''anonymous_mode'', SwitchToggle), (''Peer Protocol Encryption'', ''peer_encryption'', TriToggle),
         (''Overlay Padding'', ''overlay_padding'', PadToggle)]
    | PanelResistance \<Rightarrow>
        [(''DHT Hardening'', ''dht_hardening'', SwitchToggle), (''IP Blocklist'', ''ip_blocklist'', SwitchToggle),
         (''Sybil-Resistant Relay Selection'', ''sybil_resistance'', SwitchToggle), (''PoW Required'', ''relay_pow_required'', SwitchToggle),
         (''Subnet Diversity'', ''relay_subnet_diversity'', SwitchToggle),
         (''Reputation Weighting'', ''relay_reputation_weighting'', SwitchToggle)])"

definition panel_keys :: "settings_panel \<Rightarrow> string list" where
  "panel_keys p = map (\<lambda>t. fst (snd t)) (panel_toggles p)"

text \<open>\<open>JSON.stringify\<close> of a field; \<open>None\<close> for a key that is not a setting of the page.\<close>

definition json_bool :: "bool \<Rightarrow> string" where "json_bool b = (if b then ''true'' else ''false'')"

definition json_string :: "string \<Rightarrow> string" where "json_string s = [CHR 0x22] @ s @ [CHR 0x22]"

definition tri_name :: "tri_state \<Rightarrow> string" where
  "tri_name v = (case v of TriOff \<Rightarrow> ''off'' | TriPrefer \<Rightarrow> ''prefer'' | TriRequire \<Rightarrow> ''require'')"

definition padding_name :: "padding_level \<Rightarrow> string" where
  "padding_name v = (case v of PadOff \<Rightarrow> ''off'' | PadLow \<Rightarrow> ''low'' | PadHigh \<Rightarrow> ''high'')"

definition setting_json :: "string \<Rightarrow> desired_policy \<Rightarrow> string option" where
  "setting_json key = (\<lambda>p.
     if key = ''kill_switch'' then Some (json_bool (dp_kill_switch p))
     else if key = ''bind_interface_only'' then Some (json_bool (dp_bind_interface_only p))
     else if key = ''anonymous_mode'' then Some (json_bool (dp_anonymous_mode p))
     else if key = ''peer_encryption'' then Some (json_string (tri_name (dp_peer_encryption p)))
     else if key = ''overlay_padding'' then Some (json_string (padding_name (dp_overlay_padding p)))
     else if key = ''dht_hardening'' then Some (json_bool (dp_dht_hardening p))
     else if key = ''ip_blocklist'' then Some (json_bool (dp_ip_blocklist p))
     else if key = ''sybil_resistance'' then Some (json_bool (dp_sybil_resistance p))
     else if key = ''relay_pow_required'' then Some (json_bool (dp_relay_pow_required p))
     else if key = ''relay_subnet_diversity'' then Some (json_bool (dp_relay_subnet_diversity p))
     else if key = ''relay_reputation_weighting'' then Some (json_bool (dp_relay_reputation_weighting p))
     else None)"

definition isOverridden :: "policy_state \<Rightarrow> string \<Rightarrow> bool" where
  "isOverridden s key =
     (case setting_json key (ep_desired (ps_effective s)) of
        None \<Rightarrow> False
      | Some effectiveVal \<Rightarrow> setting_json key (ps_desired s) \<noteq> Some effectiveVal)"

text \<open>The badges of a toggle, whether its input takes a change, and the reason shown below it.\<close>

definition toggle_badges :: "bool \<Rightarrow> bool \<Rightarrow> bool \<Rightarrow> string list" where
  "toggle_badges overridden val effective =
     (if overridden then [''Overridden''] else []) @
     (if effective \<noteq> val then [''Effective: '' @ (if effective then ''On'' else ''Off'')] else [])"

definition toggle_takes_change :: "bool \<Rightarrow> bool \<Rightarrow> policy_state \<Rightarrow> string \<Rightarrow> bool" where
  "toggle_takes_change online busy s key \<longleftrightarrow> online \<and> \<not> busy \<and> \<not> isDisabled s key"

definition shown_reason :: "policy_state \<Rightarrow> string \<Rightarrow> string option" where
  "shown_reason s key =
     (if isDisabled s key then (case getDisabledReason s key of Some r \<Rightarrow> if r = [] then None else Some r | None \<Rightarrow> None) else None)"

definition profile_button_takes_click :: "bool \<Rightarrow> bool \<Rightarrow> bool" where
  "profile_button_takes_click online busy \<longleftrightarrow> online \<and> \<not> busy"

definition SUGGESTION :: string where
  "SUGGESTION = ''Anonymous mode disabled. Consider switching to Standard profile for best speeds.''"

text \<open>
  The anonymous toggle: the toggle's own messages, and half a second later the suggestion, whatever the
  answer is; it comes before the messages when the answer takes longer.
\<close>

definition anonymous_toggled :: "bool \<Rightarrow> bool \<Rightarrow> bool \<Rightarrow> policy_state \<Rightarrow> thrown + policy_state \<Rightarrow> thrown + policy_state \<Rightarrow>
    policy_hook \<Rightarrow> settings_toast list \<times> policy_hook" where
  "anonymous_toggled val slow online s reply again h =
     (case handleToggle (Set_anonymous_mode val) online (Some s) reply again h of
        (ts, h') \<Rightarrow>
          (let suggestion = (if \<not> val \<and> dp_profile (ps_desired s) \<noteq> Some ProfileStandard then [SettingsSuccess SUGGESTION] else []) in
           (if slow then suggestion @ ts else ts @ suggestion, h')))"

section \<open>Properties\<close>

text \<open>
  Property C0: whatever order replies for several torrents come in, the table of statuses holds for each
  torrent the last status that was fetched for it.
\<close>

definition last_fetched :: "string \<Rightarrow> (string \<times> (thrown + torrent_status)) list \<Rightarrow> torrent_status option" where
  "last_fetched tid rs = fold (\<lambda>(i, res) acc. case res of Inr s \<Rightarrow> if i = tid then Some s else acc | Inl e \<Rightarrow> acc) rs None"

lemma fetched_acc:
  "jm_get (sv_statuses (replies rs v)) tid =
     fold (\<lambda>(i, res) acc. case res of Inr s \<Rightarrow> if i = tid then Some s else acc | Inl e \<Rightarrow> acc) rs (jm_get (sv_statuses v) tid)"
  unfolding replies_def
  by (induction rs arbitrary: v) (auto simp: refreshStatus_def jm_get_set split: sum.splits)

theorem statuses_follow_replies:
  assumes "jm_get (sv_statuses v) tid = None"
  shows "jm_get (sv_statuses (replies rs v)) tid = last_fetched tid rs"
  using fetched_acc [of rs v tid] assms by (simp add: last_fetched_def)

text \<open>
  Further fact: a failed refresh drops the status shown exactly when the daemon refused the request; no
  answer, a failure of the server and a foreign exception all leave it as it is.
\<close>

theorem only_refusals_clear_status:
  "(sv_status (refreshStatus tid (Inl e) v) = None \<longleftrightarrow> sv_status v = None \<or> isClientError e) \<and>
   sv_statuses (refreshStatus tid (Inl e) v) = sv_statuses v \<and>
   (\<not> isApiError e \<longrightarrow> refreshStatus tid (Inl e) v = v)"
proof -
  have "client_status e = isClientError e"
    by (cases e) (auto simp: client_status_def isClientError_def split: option.splits)
  moreover have "\<not> isApiError e \<longrightarrow> \<not> client_status e"
    by (auto simp: isApiError_def client_status_def split: thrown.splits option.splits)
  ultimately show ?thesis by (auto simp: refreshStatus_def)
qed

text \<open>
  Further fact: when another torrent is selected while a reply is outstanding, the reply still fills the
  status shown, which then is the other torrent's until the next one comes.
\<close>

theorem late_reply_shows_other_torrent:
  "sv_status (refreshStatus old (Inr s) (snd (selected_effect online (Some new) v))) = Some s"
  by (simp add: refreshStatus_def selected_effect_def)

text \<open>
  Further fact: an operation calls exactly one of the two callbacks, with what the caller gets, is no
  longer marked as loading, and remembers an error exactly if it failed; what it throws is always an
  Error.
\<close>

theorem async_operation_outcome:
  assumes "execute_end string_of res (execute_begin s) = (s', outs, given)"
  shows "\<not> ao_loading s' \<and>
    (case given of
       Inr r \<Rightarrow> res = Inr r \<and> outs = [OnSuccess r] \<and> ao_error s' = None
     | Inl e \<Rightarrow> outs = [OnError e] \<and> ao_error s' = Some e \<and> (\<exists>x. e = ThrownError x))"
proof (cases res)
  case (Inl e)
  then show ?thesis using assms by (cases e) (auto simp: execute_end_def execute_begin_def Let_def toError_def)
next
  case (Inr r)
  then show ?thesis using assms by (auto simp: execute_end_def execute_begin_def)
qed

theorem async_operation_outcome_witness:
  "ao_error (fst (execute_end (\<lambda>t. ''x'') (Inl ThrownOther :: thrown + nat) (execute_begin async_init))) \<noteq> None"
  using async_operation_outcome [of "\<lambda>t. ''x''" "Inl ThrownOther :: thrown + nat" async_init]
  by (simp add: execute_end_def execute_begin_def async_init_def toError_def Let_def)

lemma promise_all_results:
  "\<forall>p \<in> set settled. \<exists>r. snd p = Inr r \<Longrightarrow>
   promise_all settled got = Inr (map snd (sort_key fst (rev (map (\<lambda>p. (fst p, projr (snd p))) settled) @ got)))"
  by (induction settled got rule: promise_all.induct) auto

text \<open>
  Further fact: a bulk operation that succeeds gives the results in the order of the operations, whatever
  order they settled in; it fails as soon as one fails.
\<close>

theorem bulk_results_in_order:
  assumes "mset settled = mset (map (\<lambda>i. (i, Inr (f i))) [0..<n])"
  shows "snd (snd (bulk_execute_end string_of settled s)) = Inr (map f [0..<n])"
proof -
  have all: "\<forall>p \<in> set settled. \<exists>r. snd p = Inr r"
    using mset_eq_setD [OF assms] by auto
  let ?got = "rev (map (\<lambda>p. (fst p, projr (snd p))) settled)"
  have "mset ?got = image_mset (\<lambda>p. (fst p, projr (snd p))) (mset settled)" by simp
  also have "\<dots> = mset (map (\<lambda>i. (i, f i)) [0..<n])" unfolding assms by (simp add: image_mset.compositionality comp_def)
  finally have m: "mset (map (\<lambda>i. (i, f i)) [0..<n]) = mset ?got" by simp
  have "set ?got = set (map (\<lambda>i. (i, f i)) [0..<n])" using mset_eq_setD [OF m] by (rule sym)
  then have inj: "inj_on fst (set ?got)" by (simp only:) (auto simp: inj_on_def)
  have "sorted (map fst (map (\<lambda>i. (i, f i)) [0..<n]))" by (simp add: comp_def)
  from sort_key_inj_key_eq [OF m [symmetric] inj this]
  have "sort_key fst ?got = map (\<lambda>i. (i, f i)) [0..<n]" .
  then have "promise_all settled [] = Inr (map f [0..<n])"
    using promise_all_results [OF all, of "[]"] by (simp add: comp_def)
  then show ?thesis by (simp add: bulk_execute_end_def execute_end_def)
qed

text \<open>
  Further fact: of the settings shown, the badge Overridden stands exactly at those whose desired and
  effective values differ, and at a switch it comes together with the badge of the effective value.
\<close>

theorem badges_tell_differences:
  "(\<forall>p. \<forall>key \<in> set (panel_keys p). \<not> isOverridden s key) \<longleftrightarrow>
     (let d = ps_desired s; e = ep_desired (ps_effective s) in
      dp_kill_switch d = dp_kill_switch e \<and> dp_bind_interface_only d = dp_bind_interface_only e \<and>
      dp_anonymous_mode d = dp_anonymous_mode e \<and> dp_peer_encryption d = dp_peer_encryption e \<and>
      dp_overlay_padding d = dp_overlay_padding e \<and> dp_dht_hardening d = dp_dht_hardening e \<and>
      dp_ip_blocklist d = dp_ip_blocklist e \<and> dp_sybil_resistance d = dp_sybil_resistance e \<and>
      dp_relay_pow_required d = dp_relay_pow_required e \<and> dp_relay_subnet_diversity d = dp_relay_subnet_diversity e \<and>
      dp_relay_reputation_weighting d = dp_relay_reputation_weighting e)"
proof -
  have panels: "(\<forall>p. P p) \<longleftrightarrow> P PanelNetwork \<and> P PanelPrivacy \<and> P PanelResistance" for P
    by (metis settings_panel.exhaust)
  have jb: "json_bool a = json_bool b \<longleftrightarrow> a = b" for a b by (simp add: json_bool_def)
  have tn: "tri_name a = tri_name b \<longleftrightarrow> a = b" for a b by (cases a; cases b) (simp_all add: tri_name_def)
  have pn: "padding_name a = padding_name b \<longleftrightarrow> a = b" for a b by (cases a; cases b) (simp_all add: padding_name_def)
  have js: "json_string a = json_string b \<longleftrightarrow> a = b" for a b by (simp add: json_string_def)
  show ?thesis unfolding panels
    by (simp add: panel_keys_def panel_toggles_def isOverridden_def setting_json_def jb tn pn js Let_def)
qed

text \<open>
  Further fact: switching anonymous mode off suggests the standard profile and says that the mode is
  disabled also when the daemon refused the change.
\<close>

theorem suggestion_ignores_refusal:
  assumes "dp_profile (ps_desired s) \<noteq> Some ProfileStandard"
  shows "SettingsSuccess SUGGESTION \<in> set (fst (anonymous_toggled False slow True s (Inl e) again h)) \<and>
    SettingsError (message_or ''Failed to update policy'' e) \<in> set (fst (anonymous_toggled False slow True s (Inl e) again h))"
  using assms by (simp add: anonymous_toggled_def handleToggle_def policy_update_def send_policy_def Let_def split: prod.splits)

definition sample_state :: policy_state where
  "sample_state = \<lparr> ps_desired = profile_policy ProfileAnonymous,
     ps_effective = \<lparr> ep_desired = profile_policy ProfileHardened, ep_network_allowed = True, ep_discovery_allowed = True,
       ep_direct_peer_allowed = True \<rparr>, ps_warnings = [], ps_disabled = [], ps_version = 1, ps_lastUpdatedMs = 0 \<rparr>"

theorem suggestion_ignores_refusal_witness:
  "SettingsSuccess SUGGESTION \<in> set (fst (anonymous_toggled False False True sample_state (Inl ThrownOther) (Inl ThrownOther) policy_hook_init))"
  using suggestion_ignores_refusal [of sample_state False ThrownOther "Inl ThrownOther" policy_hook_init]
  by (simp add: sample_state_def profile_policy_def)

theorem badges_tell_differences_witness:
  "\<not> isOverridden (sample_state\<lparr> ps_desired := ep_desired (ps_effective sample_state) \<rparr>) ''peer_encryption''"
proof -
  let ?s = "sample_state\<lparr> ps_desired := ep_desired (ps_effective sample_state) \<rparr>"
  have "\<forall>p. \<forall>key \<in> set (panel_keys p). \<not> isOverridden ?s key"
    unfolding badges_tell_differences [of ?s] by (simp add: Let_def)
  from spec [OF this, of PanelPrivacy] show ?thesis by (rule bspec) (simp add: panel_keys_def panel_toggles_def)
qed

theorem statuses_follow_replies_witness:
  "jm_get (sv_statuses (replies [(''a'', Inr (status_in ''a'' Seeding)), (''b'', Inl ThrownOther)] \<lparr> sv_status = None, sv_statuses = [] \<rparr>)) ''a'' =
     Some (status_in ''a'' Seeding)"
  using statuses_follow_replies [of "\<lparr> sv_status = None, sv_statuses = [] \<rparr>" "''a''"
    "[(''a'', Inr (status_in ''a'' Seeding)), (''b'', Inl ThrownOther)]"]
  by (simp add: last_fetched_def jm_get_Nil)

theorem only_refusals_clear_status_witness:
  "sv_statuses (refreshStatus ''a'' (Inl ThrownOther) \<lparr> sv_status = None, sv_statuses = [] \<rparr>) = []"
  using only_refusals_clear_status [of "''a''" ThrownOther "\<lparr> sv_status = None, sv_statuses = [] \<rparr>"] by simp

theorem bulk_results_in_order_witness:
  "snd (snd (bulk_execute_end (\<lambda>t. []) [(1, Inr 10), (0, Inr (7 :: nat))] async_init)) = Inr [7, 10]"
  using bulk_results_in_order [of "[(1, Inr 10), (0, Inr 7)]" "\<lambda>i. if i = 0 then 7 else 10" 2 "\<lambda>t. []" async_init]
  by (simp add: numeral_2_eq_2)

subsection \<open>Polling\<close>

text \<open>
  Further fact: from a quiet state, the answer that brings the page online starts a round that loads; as
  long as the page stays online, the interval's answers and the rounds they start load nothing.
\<close>

theorem polling_loads_only_on_coming_online:
  assumes "rf_rounds r = []" "\<not> rf_isRefreshing r"
    and "\<forall>e \<in> set es. scheduler_event e"
  shows "loading (ping_done 0 True (poll_answered True False now r)) = 1 \<and>
    loading (foldl refresh_step (poll_answered True True now r) es) = 0"
proof
  show "loading (ping_done 0 True (poll_answered True False now r)) = 1"
    using assms(1,2) by (simp add: poll_answered_def begin_round_def ping_done_def loading_def)
  have "scheduler_inv (poll_answered True True now r)"
    using assms(1,2) by (simp add: poll_answered_def scheduler_inv_def scheduleRefresh_def begin_scheduled_def begin_round_def Let_def)
  with assms(3) have "scheduler_inv (foldl refresh_step (poll_answered True True now r) es)"
  proof (induction es arbitrary: r rule: rev_induct)
    case (snoc e es)
    then show ?case by (simp add: scheduler_step)
  qed simp
  then show "loading (foldl refresh_step (poll_answered True True now r) es) = 0"
    by (auto simp: scheduler_inv_def loading_def)
qed

theorem polling_loads_only_on_coming_online_witness:
  "loading (foldl refresh_step (poll_answered True True 9000 refresher_init) [PingDone 0 True, Tick 11000, PingDone 0 True]) = 0"
  using polling_loads_only_on_coming_online [of refresher_init "[PingDone 0 True, Tick 11000, PingDone 0 True]" 9000]
  by (simp add: refresher_init_def scheduler_event_def)

text \<open>
  Further fact: the page counts as online only if the daemon has answered both requests and calls itself
  well; a daemon that is well but whose version cannot be had is shown as offline, and one that
  answers but calls itself unwell is offline while its data is still loaded.
\<close>

theorem ping_outcome:
  "(cv_online (fst (ping health version)) \<longleftrightarrow> health = Inr True \<and> (\<exists>v. version = Inr v)) \<and>
   (snd (ping health version) \<longleftrightarrow> (\<exists>b. health = Inr b) \<and> (\<exists>v. version = Inr v)) \<and>
   (snd (ping (Inr False) (Inr v)) \<and> \<not> cv_online (fst (ping (Inr False) (Inr v)))) \<and>
   \<not> cv_online (fst (ping (Inr True) (Inl e)))"
  by (auto simp: ping_def Let_def split: sum.splits)

end
