(* ===== verification/TorrentRow.thy ===== *)
theory TorrentRow
  imports Dialogs PageControls
begin

text \<open>
  What a row of the torrent table shows: its cells and the error display
  (\<open>components/torrents/TorrentTable.tsx\<close>), and the two drawings of its strip with their test whether
  anything changed (\<open>components/torrents/TorrentRowSignal.tsx\<close>). A drawing is what the canvas holds.
\<close>

subsection \<open>Cells\<close>

definition RECOVERY :: string where "RECOVERY = ''Auto-recovery:''"
definition NO_PEERS :: string where "NO_PEERS = ''No peers available. Check trackers or try a different torrent.''"

definition is_recovering :: "string option \<Rightarrow> bool" where
  "is_recovering err = (case err of Some e \<Rightarrow> starts_with e RECOVERY | None \<Rightarrow> False)"

text \<open>The text of the error display, and the title of its dialog.\<close>

definition error_display :: "string option \<Rightarrow> string" where
  "error_display err =
     (if err = None \<or> err = Some [] then ''Error - check details''
      else if is_recovering err then ''Reconnecting...''
      else if err = Some NO_PEERS then ''No peers found''
      else ''Error - click for details'')"

definition error_title :: "string option \<Rightarrow> string \<Rightarrow> string" where
  "error_title err torrentName = (if is_recovering err then ''Recovery: '' else ''Error: '') @ torrentName"

definition status_cell :: "torrent_status \<Rightarrow> string list" where
  "status_cell s =
     (let err = ts_error s in
      [if is_recovering err then ''Recovering'' else formatStatus (ts_state s)] @
      (if ts_state s = ErrorState \<or> is_recovering err \<or> err = Some NO_PEERS then [error_display err] else []))"

text \<open>
  The texts a cell shows; \<open>ema\<close> is the smoothed estimate, \<open>text_of_value\<close> is \<open>String\<close>. The columns for
  size, rates and time added have a text that is not displayed.
\<close>

definition visible_cell :: "(cell \<Rightarrow> string) \<Rightarrow> int option \<Rightarrow> (string, torrent_status) jmap \<Rightarrow> torrent \<Rightarrow> sort_column \<Rightarrow> string list" where
  "visible_cell text_of_value ema statuses t col =
     (let status = jm_get statuses (t_id t);
          with = (\<lambda>f. case status of Some s \<Rightarrow> f s | None \<Rightarrow> []) in
      case col of
        ColName \<Rightarrow> [t_name t, js_upper (mode_name (t_mode t))] @ (if t_mode t = ModeAnonymous then [show_nat (t_hops t) @ '' HOPS''] else [])
      | ColProgress \<Rightarrow> with (\<lambda>s. [fmtPct (ts_progress s)])
      | ColDownloaded \<Rightarrow> with (\<lambda>s. [fmtSizeProgress (ts_downloaded_bytes s) (ts_total_bytes s)])
      | ColEta \<Rightarrow> with (\<lambda>s. [fmtEta (displayEta ema s) (Some (state_name (ts_state s)))])
      | ColSpeed \<Rightarrow> with (\<lambda>s. [fmtSpeedDownUp (ts_down_rate_bps s) (ts_up_rate_bps s)])
      | ColPeers \<Rightarrow> with (\<lambda>s. [fmtPeersSeeds (int (ts_peers_seen s)) None])
      | ColStatus \<Rightarrow> with status_cell
      | ColSize \<Rightarrow> []
      | ColDownSpeed \<Rightarrow> []
      | ColUpSpeed \<Rightarrow> []
      | ColAdded \<Rightarrow> []
      | _ \<Rightarrow> [text_of_value (getCellValue statuses t col)])"

subsection \<open>Drawings of the strip\<close>

datatype heart_view = HeartBlank | HeartNoData | HeartLine string "rat list"

record strip =
  sp_pieces :: "string option list"
  sp_prevBins :: "piece_bin list option"
  sp_heart :: heart_view
  sp_prevSamples :: "rat list option"

definition strip_init :: strip where
  "strip_init = \<lparr> sp_pieces = [], sp_prevBins = None, sp_heart = HeartBlank, sp_prevSamples = None \<rparr>"

definition same_bin :: "piece_bin \<Rightarrow> piece_bin \<Rightarrow> bool" where
  "same_bin a b \<longleftrightarrow> pb_have_ratio a = pb_have_ratio b \<and> pb_min_avail a = pb_min_avail b"

definition binsChanged :: "piece_bin list option \<Rightarrow> piece_bin list \<Rightarrow> bool" where
  "binsChanged prev bins = (case prev of
      None \<Rightarrow> True
    | Some ps \<Rightarrow> length ps \<noteq> length bins \<or> \<not> list_all2 same_bin ps bins)"

definition draw_pieces :: "piece_bin list \<Rightarrow> strip \<Rightarrow> strip" where
  "draw_pieces bins st =
     (if bins = [] then st\<lparr> sp_pieces := [] \<rparr>
      else if \<not> binsChanged (sp_prevBins st) bins then st
      else st\<lparr> sp_pieces := map bin_color bins, sp_prevBins := Some bins \<rparr>)"

definition heart_color :: "torrent_state \<Rightarrow> string" where
  "heart_color s = (case s of Downloading \<Rightarrow> ''#3b82f6'' | Seeding \<Rightarrow> ''#8b5cf6'' | _ \<Rightarrow> ''rgba(255, 255, 255, 0.3)'')"

definition samplesChanged :: "rat list option \<Rightarrow> rat list \<Rightarrow> bool" where
  "samplesChanged prev samples = (case prev of None \<Rightarrow> True | Some ps \<Rightarrow> length ps \<noteq> length samples \<or> ps \<noteq> samples)"

definition draw_heartbeat :: "torrent_state \<Rightarrow> rat list \<Rightarrow> strip \<Rightarrow> strip" where
  "draw_heartbeat state samples st =
     (if samples = [] then st\<lparr> sp_heart := HeartNoData \<rparr>
      else if \<not> samplesChanged (sp_prevSamples st) samples then st
      else st\<lparr> sp_heart := HeartLine (heart_color state) (heartbeat_points samples), sp_prevSamples := Some samples \<rparr>)"

definition draw_snapshot :: "torrent_row_snapshot \<Rightarrow> strip \<Rightarrow> strip" where
  "draw_snapshot sn st = draw_heartbeat (rs_state sn) (rs_heartbeat_samples sn) (draw_pieces (rs_pieces_bins sn) st)"

section \<open>Properties\<close>

text \<open>
  Further fact: each column of the first layout shows something for a torrent whose status is known, and an
  error, a recovery or missing peers show a second text in the status cell that is never empty.
\<close>

theorem default_columns_show_something:
  assumes "col \<in> set DEFAULT_VISIBLE_COLUMNS" "jm_get statuses (t_id t) = Some s"
  shows "visible_cell text_of_value ema statuses t col \<noteq> [] \<and>
    (ts_state s = ErrorState \<longrightarrow> (\<exists>a b. visible_cell text_of_value ema statuses t ColStatus = [a, b] \<and> b \<noteq> []))"
  using assms by (auto simp: DEFAULT_VISIBLE_COLUMNS_def visible_cell_def status_cell_def error_display_def Let_def)

definition row_torrent :: torrent where
  "row_torrent = \<lparr> t_id = ''a'', t_name = ''A'', t_added_at_ms = 5, t_running = True, t_mode = ModeStandard, t_hops = 0,
     t_info_hash_hex = None, t_save_path = None \<rparr>"

definition row_status :: torrent_status where
  "row_status = \<lparr> ts_id = ''a'', ts_state = ErrorState, ts_progress = 0, ts_down_rate_bps = 0, ts_up_rate_bps = 0, ts_eta_sec = 0,
     ts_total_bytes = 10, ts_downloaded_bytes = 0, ts_peers_seen = 0, ts_error = Some NO_PEERS \<rparr>"

theorem default_columns_show_something_witness:
  "visible_cell (\<lambda>c. []) None [(''a'', row_status)] row_torrent ColSpeed \<noteq> []"
  using default_columns_show_something [of ColSpeed "[(''a'', row_status)]" row_torrent row_status "\<lambda>c. []" None]
  by (simp add: DEFAULT_VISIBLE_COLUMNS_def jm_get_def row_torrent_def)

text \<open>
  Further fact: four of the columns the chooser offers stay blank in every row, whatever is known of the
  torrent: size, both rates and the time it was added.
\<close>

theorem chosen_columns_stay_blank:
  "set [ColSize, ColDownSpeed, ColUpSpeed, ColAdded] \<subseteq> set ALL_COLUMNS \<and>
   concat (map (visible_cell text_of_value ema statuses t) [ColSize, ColDownSpeed, ColUpSpeed, ColAdded]) = []"
  by (simp add: ALL_COLUMNS_def visible_cell_def Let_def)

definition plain_snapshot :: "torrent_row_snapshot \<Rightarrow> bool" where
  "plain_snapshot sn \<longleftrightarrow> rs_pieces_bins sn \<noteq> [] \<and> (\<forall>b \<in> set (rs_pieces_bins sn). 0 < pb_pieces_in_bin b) \<and> rs_heartbeat_samples sn \<noteq> []"

definition strip_ok :: "strip \<Rightarrow> bool" where
  "strip_ok st \<longleftrightarrow>
     (case sp_prevBins st of None \<Rightarrow> True | Some ds \<Rightarrow> (\<forall>b \<in> set ds. 0 < pb_pieces_in_bin b) \<and> sp_pieces st = map bin_color ds) \<and>
     (case sp_prevSamples st of None \<Rightarrow> True | Some xs \<Rightarrow> \<exists>c. sp_heart st = HeartLine c (heartbeat_points xs))"

lemma same_bins_same_colors:
  "list_all2 same_bin ps bins \<Longrightarrow> \<forall>b \<in> set ps. 0 < pb_pieces_in_bin b \<Longrightarrow> \<forall>b \<in> set bins. 0 < pb_pieces_in_bin b \<Longrightarrow>
   map bin_color ps = map bin_color bins"
  by (induction ps bins rule: list_all2_induct) (auto simp: same_bin_def bin_color_def)

lemma draw_plain:
  assumes "strip_ok st" "plain_snapshot sn"
  shows "strip_ok (draw_snapshot sn st) \<and> sp_pieces (draw_snapshot sn st) = map bin_color (rs_pieces_bins sn) \<and>
    (\<exists>c. sp_heart (draw_snapshot sn st) = HeartLine c (heartbeat_points (rs_heartbeat_samples sn)))"
proof -
  let ?d = "draw_pieces (rs_pieces_bins sn) st"
  have heart: "sp_heart ?d = sp_heart st" "sp_prevSamples ?d = sp_prevSamples st" by (simp_all add: draw_pieces_def)
  have "sp_pieces ?d = map bin_color (rs_pieces_bins sn) \<and> strip_ok ?d"
  proof (cases "binsChanged (sp_prevBins st) (rs_pieces_bins sn)")
    case True
    with assms show ?thesis by (auto simp: draw_pieces_def plain_snapshot_def strip_ok_def split: option.splits)
  next
    case False
    then obtain ps where ps: "sp_prevBins st = Some ps" "list_all2 same_bin ps (rs_pieces_bins sn)"
      by (auto simp: binsChanged_def split: option.splits)
    with assms have "sp_pieces st = map bin_color (rs_pieces_bins sn)"
      using same_bins_same_colors [OF ps(2)] by (simp add: strip_ok_def plain_snapshot_def)
    with False assms show ?thesis by (simp add: draw_pieces_def plain_snapshot_def)
  qed
  moreover have "sp_pieces (draw_snapshot sn st) = sp_pieces ?d" "sp_prevBins (draw_snapshot sn st) = sp_prevBins ?d"
    by (simp_all add: draw_snapshot_def draw_heartbeat_def)
  moreover have "sp_prevSamples (draw_snapshot sn st) = Some (rs_heartbeat_samples sn) \<and>
      (\<exists>c. sp_heart (draw_snapshot sn st) = HeartLine c (heartbeat_points (rs_heartbeat_samples sn)))"
    using assms heart by (auto simp: draw_snapshot_def draw_heartbeat_def samplesChanged_def plain_snapshot_def strip_ok_def
      split: option.splits)
  ultimately show ?thesis by (auto simp: strip_ok_def split: option.splits)
qed

lemma draw_plain_run: "strip_ok st \<Longrightarrow> \<forall>sn \<in> set sns. plain_snapshot sn \<Longrightarrow> strip_ok (fold draw_snapshot sns st)"
  by (induction sns arbitrary: st) (simp_all add: draw_plain)

text \<open>
  Further fact: although the strip skips a drawing when nothing seems to have changed, it always shows the
  last snapshot: the colours of its pieces and the line of its activity, as long as no snapshot and
  no bin of one is empty.
\<close>

theorem strip_shows_last_snapshot:
  assumes "\<forall>s \<in> set (sns @ [sn]). plain_snapshot s"
  shows "sp_pieces (fold draw_snapshot (sns @ [sn]) strip_init) = map bin_color (rs_pieces_bins sn) \<and>
    (\<exists>c. sp_heart (fold draw_snapshot (sns @ [sn]) strip_init) = HeartLine c (heartbeat_points (rs_heartbeat_samples sn)))"
proof -
  have "strip_ok strip_init" by (simp add: strip_ok_def strip_init_def)
  then have "strip_ok (fold draw_snapshot sns strip_init)" using draw_plain_run assms by simp
  from draw_plain [OF this, of sn] show ?thesis using assms by simp
qed

definition snap :: "torrent_state \<Rightarrow> piece_bin list \<Rightarrow> rat list \<Rightarrow> torrent_row_snapshot" where
  "snap st bins xs = \<lparr> rs_progress = 0, rs_state = st, rs_pieces_bins = bins, rs_heartbeat_samples = xs \<rparr>"

definition one_bin :: piece_bin where
  "one_bin = \<lparr> pb_have_ratio = 1, pb_min_avail = 3, pb_pieces_in_bin = 4 \<rparr>"

theorem strip_shows_last_snapshot_witness:
  "sp_pieces (fold draw_snapshot ([snap Downloading [one_bin] [5]] @ [snap Downloading [one_bin] [6]]) strip_init) = [Some ''#4ade80'']"
  using strip_shows_last_snapshot [of "[snap Downloading [one_bin] [5]]" "snap Downloading [one_bin] [6]"]
  by (simp add: plain_snapshot_def snap_def one_bin_def bin_color_def)

text \<open>
  Further fact: after an empty snapshot the strip stays blank when the data that was there before comes
  back, and when a torrent changes its state while its samples stay the same, the line keeps the
  colour of the state before.
\<close>

theorem strip_misses_changes:
  assumes "bins \<noteq> []" "xs \<noteq> []"
  shows "sp_pieces (fold draw_snapshot [snap st bins xs, snap st [] xs, snap st bins xs] strip_init) = [] \<and>
    sp_heart (fold draw_snapshot [snap st bins xs, snap st bins [], snap st bins xs] strip_init) = HeartNoData \<and>
    sp_heart (fold draw_snapshot [snap Downloading bins xs, snap Seeding bins xs] strip_init) =
      HeartLine (heart_color Downloading) (heartbeat_points xs)"
proof -
  have "list_all2 same_bin bins bins" by (rule list_all2_refl) (simp add: same_bin_def)
  then show ?thesis using assms
    by (simp add: draw_snapshot_def snap_def draw_pieces_def draw_heartbeat_def binsChanged_def samplesChanged_def strip_init_def)
qed

theorem strip_misses_changes_witness:
  "sp_pieces (fold draw_snapshot [snap Stopped [one_bin] [1], snap Stopped [] [1], snap Stopped [one_bin] [1]] strip_init) = []"
  using strip_misses_changes [of "[one_bin]" "[1]" Stopped] by simp

end
