(* ===== verification/Spec2Isabelle.thy ===== *)
theory Spec2Isabelle
  imports Api TorrentCache TorrentFetcher EventService InfoHash Vpn DaemonProbe PortHygiene DaemonFiles
    Supervisor SupervisorSys Firewall AppRefresh AppView OpenFiles FileTree FileSelection AddTorrents
    LogTail NotificationSound Notifications Format Policy TorrentTable PageShell PeerCountry
    JsSort FilesTab Swarm Shell CleanDist Packaging BuildScript DevServer Pages
    DaemonApi NetworkPanels NetworkStatus LogView PageControls SoundSettings
    Windows Dialogs PageEffects TorrentRow
begin

text \<open>
  ORC TORRENT's desktop application: an Electron main process (\<open>src/main/main.ts\<close>, one file) that
  supervises a daemon written in Rust, a React page (\<open>src/renderer/\<close>) that talks to the daemon over
  HTTP and to the main process over named channels, and the scripts that build and package both
  (\<open>scripts/\<close>). Paths are under \<open>ui/desktop/\<close> and, for the page, under \<open>ui/desktop/src/renderer/\<close>
  unless they begin with \<open>main/\<close>, \<open>preload/\<close>, \<open>scripts/\<close> or \<open>crates/\<close>. This library models these
  parts, states what each promises and proves it or, where the code does something else than it means
  to, proves what it does.

  Shared:

  \<^item> \<open>Prelude\<close>: strings, numerals, insertion-ordered maps and settled promises of JavaScript, and the
    locale \<open>keyed_store\<close>, interpreted on these maps. \<open>JsSort\<close>: the stable sort of arrays with the
    locale \<open>comparator\<close>. \<open>Base64\<close>: the encoder the page uses in chunks, against a decoder.
  \<^item> \<open>Errors\<close>, \<open>Types\<close>: thrown values and their classifiers (\<open>utils/errorHandling.ts\<close>), the data
    exchanged with the daemon (\<open>types/index.ts\<close>, \<open>types/policy.ts\<close>).

  Between page and daemon:

  \<^item> \<open>Api\<close> (\<open>utils/api.ts\<close>): retries, the four JSON verbs, the table of GET requests in flight. The
    network is a function from the number of the request to what it gives.
  \<^item> \<open>TorrentCache\<close> (\<open>utils/torrentCache.ts\<close>): two bounded caches, locale \<open>ttl_cache\<close>; a call and the
    settlement of its promise are separate operations, so runs interleave them. \<open>TorrentFetcher\<close>
    (\<open>utils/torrentFetcher.ts\<close>): the loops above both, locale \<open>retry_loop\<close>.
  \<^item> \<open>DaemonApi\<close> (\<open>crates/orc-daemon/src/main.rs\<close>, \<open>crates/orc-core/src/lib.rs\<close>): the table of routes
    and the handlers of the kill switch, which the panels are compared with. The handler of file
    priorities is in \<open>FileSelection\<close>, beside the dialog whose requests it refuses.

  Main process (\<open>main/main.ts\<close>):

  \<^item> \<open>DaemonProbe\<close>, \<open>PortHygiene\<close>, \<open>DaemonFiles\<close>: is the daemon up, who holds its ports, which binary
    and log directory to use. The waiting loops are partial functions proved to return; their
    contract is the locale \<open>polling\<close>.
  \<^item> \<open>Supervisor\<close>, \<open>SupervisorSys\<close>: every piece of code between two awaits that changes the supervisor's
    state is one operation on the record \<open>sup\<close>; \<open>sys_reach\<close> interleaves the pieces of all starts,
    timers, shutdowns, health checks and requests with exits of processes.
  \<^item> \<open>Firewall\<close>: checks, scripts and removal of rules.
    \<open>OpenFiles\<close>: magnet links and torrent files from the system. \<open>LogTail\<close>: reading and following the
    daemon's log. \<open>NotificationSound\<close>: sound files and the \<open>app://\<close> protocol. \<open>Windows\<close>: splash screen and
    main window, icon, unexpected errors, small handlers.
  \<^item> \<open>Vpn\<close> (also \<open>lib/net/vpn.ts\<close>, \<open>ui/App.tsx\<close>, \<open>utils/useVpnMonitoring.ts\<close>): detection of a VPN and the
    kill switch of the page.

  Page:

  \<^item> \<open>AppRefresh\<close>, \<open>PageEffects\<close>, \<open>AppView\<close> (\<open>ui/App.tsx\<close>, \<open>utils/useTorrentOperations.ts\<close>,
    \<open>utils/useAsyncOperation.ts\<close>): loading and what it announces, the interleaving of refreshes, polling,
    filters, bulk operations, resumption.
  \<^item> \<open>AddTorrents\<close>, \<open>FileTree\<close>, \<open>FileSelection\<close>: the five ways to add a torrent; the tree built through
    shared objects, against the list of its files and missing directories; the dialog that chooses
    files, whose loading is a machine of fetches, timers and redraws of \<open>App\<close>. \<open>InfoHash\<close> (\<open>lib/infoHash.ts\<close>) computes the hash
    that finds duplicates; the reference is a bencoding datatype, SHA-1 a parameter.
  \<^item> \<open>TorrentTable\<close>, \<open>TorrentRow\<close>, \<open>FilesTab\<close>, \<open>PeerCountry\<close>, \<open>Swarm\<close>, \<open>Pages\<close>: the table and the tabs of the inspector,
    the event page, the piece map. \<open>EventService\<close>, \<open>Notifications\<close>, \<open>Format\<close>: history, notifications,
    numbers as text.
  \<^item> \<open>Policy\<close>, \<open>NetworkPanels\<close>, \<open>NetworkStatus\<close>: security settings, the forms of posture and kill switch
    (locale \<open>change_form\<close> of \<open>ChangeForm\<close>, interpreted on five forms), the network page and the lights.
  \<^item> \<open>PageShell\<close>, \<open>PageControls\<close>, \<open>Dialogs\<close>, \<open>LogView\<close>, \<open>SoundSettings\<close>: boot gate, drop zone, keys, daemon panel,
    toolbar and the other operations that share its marks, toast, modal dialog, menus, columns, log panel with the bridge (\<open>preload/preload.ts\<close>), and
    the choice of sounds.

  Scripts: \<open>Shell\<close> (commands and the file system they see), \<open>CleanDist\<close> and \<open>Packaging\<close>
  (\<open>scripts/dist.ts\<close>), \<open>BuildScript\<close> (\<open>scripts/build.ts\<close>), \<open>DevServer\<close> (\<open>scripts/dev.ts\<close>).

  State: React state and refs, and the module variables of the main process, are fields of
  records with the source's names. Effects (requests, toasts, dialogs, messages, processes killed)
  are lists of what was done, in order. Errors are values of a sum type. What the code asks of
  the operating system, Electron or the network is an argument of the operation that asks. A handler
  with awaits is cut there: one operation up to the await, one for each outcome.

  What the lemmas show: invariants of the caches, the request table, the forms, the toolbar and of
  every reachable state of the supervisor and of the windows; refinements of an abstract dialog, toast
  and selection; equivalence of trees and tabs with a reference and with each other; bounds on requests, retries
  and times; round trips; conservation and delivery of what the system hands over; and, as theorems
  about the code as it is, the places where a mark is tested too early or cleared too late.

  Fuel and termination: an uninterrupted start is \<open>start_run\<close> with fuel 10; each piece lowers
  \<open>start_rank\<close>, which begins at 9, so it returns. \<open>waitForHealthy\<close> and \<open>waitForReady\<close> have no fuel
  and are proved to return when no probe takes forever: each round adds its pause to the time. Reading
  a tree of shared objects uses the length of the longest path as fuel; copying a directory, the depth
  the stack allows, and running out of it is the error the code would raise. The other loops recurse on a list, on a counter of retries or on the
  bytes left.

  Not modelled: markup, styles, canvas calls and the texts of log lines and diagnostics; options of the
  windows; the synthesis of the built-in tone; how dates are printed; the daemon's torrent engine and the
  web UI of its library, which is not shipped. Where JavaScript has floating point the model has
  rationals, and the root under the piece map is a parameter near the exact one; promises that settle in one turn are one step; text read from the daemon's log is ASCII.
\<close>

text \<open>
  Property C35: from the network interfaces to the requests: when the daemon does not know the VPN's
  posture, and the machine had an interface with an address and a VPN's name and has none any more,
  then the kill switch, if it is enabled, makes the page send a stop request for exactly the
  torrents that download or seed.
\<close>

theorem vpn_loss_stops_torrents:
  assumes "daemon_posture parse net c = None" and "daemon_posture parse net' c' = None"
    and "\<exists>p \<in> set ifs. snd p \<noteq> 0 \<and> vpn_name win32 (fst p)"
    and "\<forall>p \<in> set ifs'. snd p \<noteq> 0 \<longrightarrow> \<not> vpn_name win32 (fst p)"
    and "prevVpnStatus refs =
           Some (fst (getVpnStatusBestEffort parse net (Inr (Some (detectVpn win32 ifs))) now c))"
    and "ki_vpnStatus ki =
           Some (fst (getVpnStatusBestEffort parse net' (Inr (Some (detectVpn win32 ifs'))) now' c'))"
    and "kill_enabled ki"
  shows "{p. \<exists>ids. StopTorrents ids \<in> set (fst (kill_switch_effect ki refs)) \<and>
               Post p \<in> set (handleBulkStop post True ids)}
         = torrent_path ''stop'' ` set (running_ids (ki_torrents ki) (ki_statuses ki))"
proof -
  have found: "lv_detected (detectVpn win32 is) \<longleftrightarrow> (\<exists>p \<in> set is. snd p \<noteq> 0 \<and> vpn_name win32 (fst p))" for "is"
    by (induction "is") (auto simp: detectVpn_Cons simp del: detectVpn.simps(2))
  have "is_connected (prevVpnStatus refs)"
    using assms(1,3) by (simp add: assms(5) getVpnStatusBestEffort_fst vpn_fallback_connected found)
  moreover have "\<not> is_connected (ki_vpnStatus ki)"
    using assms(2,4) unfolding assms(6) getVpnStatusBestEffort_fst
    by (auto simp: vpn_fallback_connected found)
  ultimately have "StopTorrents ids \<in> set (fst (kill_switch_effect ki refs)) \<longleftrightarrow>
      ids = running_ids (ki_torrents ki) (ki_statuses ki) \<and> ids \<noteq> []" for ids
    using assms(7) kill_effect_stops by blast
  then show ?thesis
    by (auto simp: handleBulkStop_def posts_bulk)
qed

definition down_inputs :: kill_inputs where
  "down_inputs = \<lparr>ki_vpnStatus = Some (fst (getVpnStatusBestEffort (\<lambda>_. Inr None) sample_net
       (Inr (Some (detectVpn False []))) 1 conn_init)),
     ki_killSwitch_enabled = Some True, ki_leak_proof_enabled = None,
     ki_torrents = map torrent_of [''a'', ''b''],
     ki_statuses = [(''a'', status_in ''a'' Seeding), (''b'', status_in ''b'' Stopped)]\<rparr>"

definition up_refs :: kill_refs where
  "up_refs = \<lparr>prevVpnStatus = Some (fst (getVpnStatusBestEffort (\<lambda>_. Inr None) sample_net
       (Inr (Some (detectVpn False [(''wg0'', 1)]))) 0 conn_init)), vpnKillSwitchActive = False\<rparr>"

theorem vpn_loss_stops_torrents_witness:
  "{p. \<exists>ids. StopTorrents ids \<in> set (fst (kill_switch_effect down_inputs up_refs)) \<and>
         Post p \<in> set (handleBulkStop (\<lambda>_. Inr ()) True ids)} = {''/torrents/a/stop''}"
proof -
  have "running_ids (ki_torrents down_inputs) (ki_statuses down_inputs) = [''a'']"
    by (simp add: down_inputs_def running_ids_def torrent_of_def status_in_def jm_get_def is_active_def)
  moreover have "vpn_name False ''wg0''"
    by (simp add: vpn_name_def vpnPatterns_def prefix_digits_def js_lower_def lower_char_def is_digit_def)
  moreover have "kill_enabled down_inputs"
    by (simp add: down_inputs_def kill_enabled_def)
  ultimately show ?thesis
    using vpn_loss_stops_torrents [of "\<lambda>_. Inr None" sample_net conn_init sample_net conn_init
        "[(''wg0'', 1)]" False "[]" up_refs 0 down_inputs 1 "\<lambda>_. Inr ()"] silent_posture
    by (simp add: down_inputs_def [THEN arg_cong [of _ _ ki_vpnStatus]] up_refs_def torrent_path_def)
qed

end
